(* ===== verification/Prelude.thy ===== *)
theory Prelude
  imports Main "HOL-Library.Word" "HOL-Library.Monad_Syntax"
begin

text \<open>
  Shared vocabulary of the development: the machine integers of the Rust sources with their
  saturating and checked operations, identifiers and instants, the option monad for code that
  may panic, and list operations of the Rust standard library (consecutive de-duplication,
  \<^verbatim>\<open>chunk_by\<close>, \<^verbatim>\<open>find_map\<close>, \<^verbatim>\<open>resize\<close>) with the lemmas the components share.

  Three named collections carry the automation: \<^verbatim>\<open>panic_simps\<close> unfolds the plumbing of
  panicking code, \<^verbatim>\<open>result_simps\<close> that of code that returns a \<^verbatim>\<open>Result\<close>, \<^verbatim>\<open>sat_simps\<close>
  reads saturating words as natural numbers.
\<close>

named_theorems panic_simps
named_theorems sat_simps
named_theorems result_simps

section \<open>Machine integers and identifiers\<close>

type_synonym u16 = "16 word"
type_synonym u32 = "32 word"
type_synonym u64 = "64 word"

text \<open>A UUID is a 128-bit value; a UTC instant is counted in nanoseconds from the epoch.\<close>

type_synonym uuid = "128 word"
type_synonym instant = int

definition saturating_sub :: "'a::len word \<Rightarrow> 'a word \<Rightarrow> 'a word" where
  "saturating_sub a b = (if b \<le> a then a - b else 0)"

definition saturating_add :: "'a::len word \<Rightarrow> 'a word \<Rightarrow> 'a word" where
  "saturating_add a b = (if unat a + unat b < 2 ^ LENGTH('a) then a + b else - 1)"

text \<open>\<^verbatim>\<open>u32::try_from(n).unwrap_or(u32::MAX)\<close> for an unsigned source.\<close>

definition clamp_to_word :: "nat \<Rightarrow> 'a::len word" where
  "clamp_to_word n = (if n < 2 ^ LENGTH('a) then of_nat n else - 1)"

lemma unat_saturating_sub [sat_simps]: "unat (saturating_sub a b) = unat a - unat b"
  by (auto simp: saturating_sub_def unat_sub word_le_nat_alt)

lemma saturating_sub_le: "saturating_sub a b \<le> a"
  by (simp add: word_le_nat_alt sat_simps)

lemma saturating_sub_0_right [simp]: "saturating_sub a 0 = a"
  by (simp add: saturating_sub_def)

lemma unat_word_max [sat_simps]: "unat (- 1 :: 'a::len word) = 2 ^ LENGTH('a) - 1"
  by (simp add: unsigned_minus_1_eq_mask mask_eq_exp_minus_1)

lemma unat_saturating_add [sat_simps]:
  fixes a b :: "'a::len word"
  shows "unat (saturating_add a b) = min (2 ^ LENGTH('a) - 1) (unat a + unat b)"
proof (cases "unat a + unat b < 2 ^ LENGTH('a)")
  case True
  then have "unat (a + b) = unat a + unat b"
    by (simp add: unat_add_lem)
  moreover have "unat a + unat b \<le> 2 ^ LENGTH('a) - 1"
    using True by (simp add: less_eq_Suc_le)
  ultimately show ?thesis using True by (simp add: saturating_add_def min_absorb2)
next
  case False
  then show ?thesis by (simp add: saturating_add_def sat_simps min_absorb1)
qed

lemma unat_clamp_to_word [sat_simps]:
  "unat (clamp_to_word n :: 'a::len word) = min (2 ^ LENGTH('a) - 1) n"
proof (cases "n < 2 ^ LENGTH('a)")
  case True
  then have "n \<le> 2 ^ LENGTH('a) - 1" by (simp add: less_eq_Suc_le)
  with True show ?thesis by (simp add: clamp_to_word_def unat_of_nat min_absorb2)
next
  case False
  then show ?thesis by (simp add: clamp_to_word_def sat_simps min_absorb1)
qed

section \<open>Code that may panic\<close>

text \<open>
  A Rust function that can panic (\<^verbatim>\<open>expect\<close>, \<^verbatim>\<open>unreachable!\<close>, indexing) is a function into
  \<^typ>\<open>'a option\<close>: \<^term>\<open>None\<close> is the panic, so "never panics" is a provable statement.
\<close>

lemma bind_eq_Some_conv' [panic_simps]:
  "Option.bind f g = Some x \<longleftrightarrow> (\<exists>y. f = Some y \<and> g y = Some x)"
  by (rule bind_eq_Some_conv)

lemma bind_neq_NoneI:
  assumes "f \<noteq> None" and "\<And>y. f = Some y \<Longrightarrow> g y \<noteq> None"
  shows "Option.bind f g \<noteq> None"
  using assms by (cases f) auto

text \<open>A loop whose body may panic stops at the first panic.\<close>

fun fold_opt :: "('a \<Rightarrow> 's \<Rightarrow> 's option) \<Rightarrow> 'a list \<Rightarrow> 's \<Rightarrow> 's option" where
  "fold_opt f [] s = Some s"
| "fold_opt f (x # xs) s = Option.bind (f x s) (fold_opt f xs)"

lemma fold_opt_append:
  "fold_opt f (xs @ ys) s = Option.bind (fold_opt f xs s) (fold_opt f ys)"
  by (induction xs arbitrary: s) (auto split: bind_splits)

lemma fold_opt_snoc: "fold_opt f (xs @ [x]) s = Option.bind (fold_opt f xs s) (f x)"
proof -
  have "fold_opt f [x] t = f x t" for t by (cases "f x t") simp_all
  then have "fold_opt f [x] = f x" by (rule ext)
  then show ?thesis by (simp add: fold_opt_append)
qed

lemma fold_opt_total:
  assumes "P s" and "\<And>x s. x \<in> set xs \<Longrightarrow> P s \<Longrightarrow> \<exists>s'. f x s = Some s' \<and> P s'"
  shows "\<exists>s'. fold_opt f xs s = Some s' \<and> P s'"
  using assms
proof (induction xs arbitrary: s)
  case Nil
  then show ?case by simp
next
  case (Cons x xs)
  then obtain s' where "f x s = Some s'" and "P s'"
    by (meson list.set_intros(1))
  with Cons show ?case by (metis bind.bind_lunit fold_opt.simps(2) list.set_intros(2))
qed

text \<open>The partial-correctness rule: what each completed iteration keeps, the loop keeps.\<close>

lemma fold_opt_invariant:
  assumes "fold_opt f xs s = Some s'" and "P s"
    and "\<And>x s s'. x \<in> set xs \<Longrightarrow> P s \<Longrightarrow> f x s = Some s' \<Longrightarrow> P s'"
  shows "P s'"
  using assms
proof (induction xs arbitrary: s)
  case Nil
  then show ?case by simp
next
  case (Cons x xs)
  from Cons.prems(1) obtain t where "f x s = Some t" and "fold_opt f xs t = Some s'"
    by (auto simp: panic_simps)
  with Cons show ?case by (meson list.set_intros)
qed

section \<open>Code that returns a Result\<close>

text \<open>
  \<^verbatim>\<open>Result<A, E>\<close> is \<^typ>\<open>'e + 'a\<close> with the error on the left. \<open>and_then\<close> is also what the \<^verbatim>\<open>?\<close>
  operator does.
\<close>

definition and_then :: "'e + 'a \<Rightarrow> ('a \<Rightarrow> 'e + 'b) \<Rightarrow> 'e + 'b" where
  "and_then r f = (case r of Inl e \<Rightarrow> Inl e | Inr x \<Rightarrow> f x)"

definition map_err :: "('e \<Rightarrow> 'f) \<Rightarrow> 'e + 'a \<Rightarrow> 'f + 'a" where
  "map_err f r = (case r of Inl e \<Rightarrow> Inl (f e) | Inr x \<Rightarrow> Inr x)"

definition ok_or :: "'e \<Rightarrow> 'a option \<Rightarrow> 'e + 'a" where
  "ok_or e v = (case v of None \<Rightarrow> Inl e | Some x \<Rightarrow> Inr x)"

lemma and_then_Inl [simp]: "and_then (Inl e) f = Inl e"
  by (simp add: and_then_def)

lemma and_then_Inr [simp]: "and_then (Inr x) f = f x"
  by (simp add: and_then_def)

lemma and_then_eq_Inr [result_simps]: "and_then r f = Inr y \<longleftrightarrow> (\<exists>x. r = Inr x \<and> f x = Inr y)"
  by (cases r) simp_all

lemma map_err_simps [simp]: "map_err f (Inl e) = Inl (f e)" "map_err f (Inr x) = Inr x"
  by (simp_all add: map_err_def)

lemma map_err_eq_Inr [result_simps]: "map_err f r = Inr y \<longleftrightarrow> r = Inr y"
  by (cases r) simp_all

lemma ok_or_simps [simp]: "ok_or e None = Inl e" "ok_or e (Some x) = Inr x"
  by (simp_all add: ok_or_def)

lemma ok_or_eq_Inr [result_simps]: "ok_or e v = Inr y \<longleftrightarrow> v = Some y"
  by (cases v) simp_all

text \<open>\<^verbatim>\<open>collect::<Result<Vec<_>, _>>()\<close>: the first error, or every value in order.\<close>

fun collect_results :: "('e + 'a) list \<Rightarrow> 'e + 'a list" where
  "collect_results [] = Inr []"
| "collect_results (r # rs) = and_then r (\<lambda>x. and_then (collect_results rs) (\<lambda>xs. Inr (x # xs)))"

lemma collect_results_eq_Inr: "collect_results rs = Inr xs \<longleftrightarrow> rs = map Inr xs"
  by (induction rs arbitrary: xs) (auto simp: result_simps Cons_eq_map_conv)

lemma collect_results_map_elem:
  "collect_results (map f es) = Inr xs \<Longrightarrow> x \<in> set xs \<Longrightarrow> \<exists>e \<in> set es. f e = Inr x"
  by (induction es arbitrary: xs) (auto simp: result_simps)

text \<open>The codes of \<^verbatim>\<open>connectrpc::ConnectError\<close> that the services answer with.\<close>

datatype connect_code =
    InvalidArgument
  | FailedPrecondition
  | Unavailable
  | PermissionDenied
  | NotFound
  | Internal

type_synonym rpc_error = "connect_code \<times> string"

section \<open>Rows of a query\<close>

text \<open>
  \<^verbatim>\<open>ORDER BY key ASC LIMIT 1\<close> and \<^verbatim>\<open>DESC LIMIT 1\<close>. Among rows with equal keys the first in
  storage order is taken; the storage order itself is arbitrary.
\<close>

fun min_by :: "('a \<Rightarrow> 'k::linorder) \<Rightarrow> 'a list \<Rightarrow> 'a option" where
  "min_by key [] = None"
| "min_by key (x # xs) =
     (case min_by key xs of None \<Rightarrow> Some x | Some y \<Rightarrow> Some (if key x \<le> key y then x else y))"

fun max_by :: "('a \<Rightarrow> 'k::linorder) \<Rightarrow> 'a list \<Rightarrow> 'a option" where
  "max_by key [] = None"
| "max_by key (x # xs) =
     (case max_by key xs of None \<Rightarrow> Some x | Some y \<Rightarrow> Some (if key y \<le> key x then x else y))"

lemma min_by_None [simp]: "min_by key xs = None \<longleftrightarrow> xs = []"
  by (cases xs) (simp_all split: option.splits)

lemma max_by_None [simp]: "max_by key xs = None \<longleftrightarrow> xs = []"
  by (cases xs) (simp_all split: option.splits)

lemma min_by_Some:
  assumes "min_by key xs = Some x"
  shows "x \<in> set xs" and "y \<in> set xs \<Longrightarrow> key x \<le> key y"
proof -
  have "x \<in> set xs \<and> (\<forall>y \<in> set xs. key x \<le> key y)"
    using assms
  proof (induction xs arbitrary: x)
    case (Cons z zs)
    then show ?case by (cases "min_by key zs") (auto split: if_splits)
  qed simp
  then show "x \<in> set xs" and "y \<in> set xs \<Longrightarrow> key x \<le> key y" by auto
qed

lemma max_by_Some:
  assumes "max_by key xs = Some x"
  shows "x \<in> set xs" and "y \<in> set xs \<Longrightarrow> key y \<le> key x"
proof -
  have "x \<in> set xs \<and> (\<forall>y \<in> set xs. key y \<le> key x)"
    using assms
  proof (induction xs arbitrary: x)
    case (Cons z zs)
    then show ?case by (cases "max_by key zs") (auto split: if_splits)
  qed simp
  then show "x \<in> set xs" and "y \<in> set xs \<Longrightarrow> key y \<le> key x" by auto
qed

lemma max_by_eqI:
  assumes "x \<in> set xs" and "\<And>y. y \<in> set xs \<Longrightarrow> y \<noteq> x \<Longrightarrow> key y < key x"
  shows "max_by key xs = Some x"
proof -
  from assms(1) obtain z where z: "max_by key xs = Some z"
    by (cases "max_by key xs") auto
  with max_by_Some [OF z] assms have "z = x" by (metis leD)
  with z show ?thesis by simp
qed

text \<open>\<^verbatim>\<open>UPDATE ... WHERE\<close>: the rows afterwards and the number of rows affected.\<close>

definition update_where :: "('r \<Rightarrow> bool) \<Rightarrow> ('r \<Rightarrow> 'r) \<Rightarrow> 'r list \<Rightarrow> 'r list" where
  "update_where p f rows = map (\<lambda>r. if p r then f r else r) rows"

definition rows_affected :: "('r \<Rightarrow> bool) \<Rightarrow> 'r list \<Rightarrow> nat" where
  "rows_affected p rows = length (filter p rows)"

lemma map_update_where: "(\<And>r. p r \<Longrightarrow> k (f r) = k r) \<Longrightarrow> map k (update_where p f rows) = map k rows"
  by (simp add: update_where_def)

lemma set_update_where:
  "r \<in> set (update_where p f rows) \<longleftrightarrow> (\<exists>r0 \<in> set rows. r = (if p r0 then f r0 else r0))"
  by (auto simp: update_where_def)

lemma rows_affected_0 [simp]: "rows_affected p rows = 0 \<longleftrightarrow> (\<forall>r \<in> set rows. \<not> p r)"
  by (auto simp: rows_affected_def filter_empty_conv)

section \<open>List operations of the Rust standard library\<close>

text \<open>\<^verbatim>\<open>Vec::dedup_by(|a, b| a == b)\<close> removes consecutive repetitions only.\<close>

fun dedup :: "'a list \<Rightarrow> 'a list" where
  "dedup [] = []"
| "dedup [x] = [x]"
| "dedup (x # y # zs) = (if x = y then dedup (y # zs) else x # dedup (y # zs))"

lemma set_dedup [simp]: "set (dedup xs) = set xs"
  by (induction xs rule: dedup.induct) auto

lemma dedup_eq_Nil [simp]: "dedup xs = [] \<longleftrightarrow> xs = []"
  by (induction xs rule: dedup.induct) auto

lemma length_dedup: "length (dedup xs) \<le> length xs"
  by (induction xs rule: dedup.induct) auto

lemma dedup_distinct [simp]: "distinct xs \<Longrightarrow> dedup xs = xs"
  by (induction xs rule: dedup.induct) auto

text \<open>\<^verbatim>\<open>Iterator::find_map\<close>: the first element that maps to a value.\<close>

fun find_map :: "('a \<Rightarrow> 'b option) \<Rightarrow> 'a list \<Rightarrow> 'b option" where
  "find_map f [] = None"
| "find_map f (x # xs) = (case f x of None \<Rightarrow> find_map f xs | Some y \<Rightarrow> Some y)"

lemma find_map_Some: "find_map f xs = Some y \<Longrightarrow> \<exists>x \<in> set xs. f x = Some y"
  by (induction xs) (auto split: option.splits)

lemma find_map_None: "find_map f xs = None \<longleftrightarrow> (\<forall>x \<in> set xs. f x = None)"
  by (induction xs) (auto split: option.splits)

text \<open>\<^verbatim>\<open>slice::chunk_by\<close>: maximal runs in which each element is related to its successor.\<close>

fun chunk_by :: "('a \<Rightarrow> 'a \<Rightarrow> bool) \<Rightarrow> 'a list \<Rightarrow> 'a list list" where
  "chunk_by p [] = []"
| "chunk_by p [x] = [[x]]"
| "chunk_by p (x # y # zs) =
     (if p x y
      then (case chunk_by p (y # zs) of [] \<Rightarrow> [[x]] | c # cs \<Rightarrow> (x # c) # cs)
      else [x] # chunk_by p (y # zs))"

lemma concat_chunk_by [simp]: "concat (chunk_by p xs) = xs"
  by (induction p xs rule: chunk_by.induct) (auto split: list.splits)

lemma chunk_by_eq_Nil [simp]: "chunk_by p xs = [] \<longleftrightarrow> xs = []"
  by (induction p xs rule: chunk_by.induct) (auto split: list.splits)

lemma chunk_by_nonempty: "c \<in> set (chunk_by p xs) \<Longrightarrow> c \<noteq> []"
  by (induction p xs arbitrary: c rule: chunk_by.induct) (auto split: list.splits if_splits)

text \<open>Decimal printing, as \<^verbatim>\<open>Display\<close> does for the unsigned integers.\<close>

fun show_nat :: "nat \<Rightarrow> string" where
  "show_nat n =
     (if n < 10 then [char_of (48 + n)] else show_nat (n div 10) @ [char_of (48 + n mod 10)])"

declare show_nat.simps [simp del]

definition show_int :: "int \<Rightarrow> string" where
  "show_int i = (if i < 0 then CHR ''-'' # show_nat (nat (- i)) else show_nat (nat i))"

text \<open>
  A Rust string is the list of its UTF-8 bytes, so \<^verbatim>\<open>str::len\<close> is \<^const>\<open>length\<close>. \<^verbatim>\<open>str::trim\<close> is
  written for ASCII white space; the white space above ASCII is not trimmed here.
\<close>

definition is_whitespace :: "char \<Rightarrow> bool" where
  "is_whitespace c \<longleftrightarrow> of_char c \<in> {9, 10, 11, 12, 13, 32 :: nat}"

definition trim :: "string \<Rightarrow> string" where
  "trim s = rev (dropWhile is_whitespace (rev (dropWhile is_whitespace s)))"

text \<open>\<^verbatim>\<open>[String]::join\<close>.\<close>

fun join :: "string \<Rightarrow> string list \<Rightarrow> string" where
  "join sep [] = []"
| "join sep [x] = x"
| "join sep (x # y # zs) = x @ sep @ join sep (y # zs)"

text \<open>\<^verbatim>\<open>Vec::resize\<close>, used only to grow.\<close>

definition grow_to :: "nat \<Rightarrow> 'a \<Rightarrow> 'a list \<Rightarrow> 'a list" where
  "grow_to n x xs = xs @ replicate (n - length xs) x"

lemma length_grow_to [simp]: "length (grow_to n x xs) = max n (length xs)"
  by (simp add: grow_to_def)

lemma grow_to_id [simp]: "n \<le> length xs \<Longrightarrow> grow_to n x xs = xs"
  by (simp add: grow_to_def)

end
