(* ===== verification/Json.thy ===== *)
theory Json
  imports Prelude Complex_Main "HOL-Library.Finite_Map"
begin

text \<open>
  JSON values as the Rust sources hold them. \<^verbatim>\<open>serde_json::Value\<close> is a public enum that the
  sources build and match constructor by constructor, so it is a datatype here; an object is a
  finite map, because the workspace uses \<^verbatim>\<open>serde_json\<close> without \<^verbatim>\<open>preserve_order\<close> and compares
  objects as maps. The accessors below (\<^verbatim>\<open>get\<close>, \<^verbatim>\<open>as_array\<close>, \<^verbatim>\<open>as_str\<close>, ...) are the pattern
  matches of that enum. What is not a pattern match (RFC 6901 pointer resolution, the codecs
  that \<^verbatim>\<open>derive(Serialize, Deserialize)\<close> generates) is a parameter of the definitions that use
  it and is introduced where those types are declared.
\<close>

section \<open>Values\<close>

text \<open>A JSON number is a \<^verbatim>\<open>u64\<close>, a negative integer or a finite \<^verbatim>\<open>f64\<close> (a rational).\<close>

datatype number = PosInt u64 | NegInt int | Float rat

datatype json =
    Null
  | Bool bool
  | Number number
  | String string
  | Array "json list"
  | Object "(string, json) fmap"

abbreviation empty_object :: json where
  "empty_object \<equiv> Object fmempty"

fun number_nonzero :: "number \<Rightarrow> bool" where
  "number_nonzero (PosInt n) = (n \<noteq> 0)"
| "number_nonzero (NegInt i) = (i \<noteq> 0)"
| "number_nonzero (Float r) = (r \<noteq> 0)"

section \<open>Accessors\<close>

fun as_object :: "json \<Rightarrow> (string, json) fmap option" where
  "as_object (Object m) = Some m"
| "as_object _ = None"

fun as_array :: "json \<Rightarrow> json list option" where
  "as_array (Array xs) = Some xs"
| "as_array _ = None"

fun as_str :: "json \<Rightarrow> string option" where
  "as_str (String s) = Some s"
| "as_str _ = None"

fun as_bool :: "json \<Rightarrow> bool option" where
  "as_bool (Bool b) = Some b"
| "as_bool _ = None"

fun as_u64 :: "json \<Rightarrow> u64 option" where
  "as_u64 (Number (PosInt n)) = Some n"
| "as_u64 _ = None"

definition is_object :: "json \<Rightarrow> bool" where
  "is_object v \<longleftrightarrow> as_object v \<noteq> None"

definition is_null :: "json \<Rightarrow> bool" where
  "is_null v \<longleftrightarrow> v = Null"

text \<open>\<^verbatim>\<open>Value::get(&str)\<close> answers \<^verbatim>\<open>None\<close> on anything that is not an object.\<close>

definition get :: "json \<Rightarrow> string \<Rightarrow> json option" where
  "get v k = (case v of Object m \<Rightarrow> fmlookup m k | _ \<Rightarrow> None)"

text \<open>\<^verbatim>\<open>value["key"]\<close> reads JSON null where the key is missing or the value is no object.\<close>

definition at_key :: "json \<Rightarrow> string \<Rightarrow> json" where
  "at_key v k = (case get v k of None \<Rightarrow> Null | Some w \<Rightarrow> w)"

text \<open>\<^verbatim>\<open>Value::as_i64\<close> and \<^verbatim>\<open>Value::as_f64\<close>. An integer above \<^verbatim>\<open>2^53\<close> is rounded by the latter in
the code and kept exact here; no range the sources test reaches that far.\<close>

fun as_i64 :: "json \<Rightarrow> int option" where
  "as_i64 (Number (PosInt n)) = (if unat n < 2 ^ 63 then Some (int (unat n)) else None)"
| "as_i64 (Number (NegInt i)) = Some i"
| "as_i64 _ = None"

fun as_f64 :: "json \<Rightarrow> rat option" where
  "as_f64 (Number (PosInt n)) = Some (of_nat (unat n))"
| "as_f64 (Number (NegInt i)) = Some (of_int i)"
| "as_f64 (Number (Float r)) = Some r"
| "as_f64 _ = None"

text \<open>\<^verbatim>\<open>Value::as_str().unwrap_or_default()\<close>.\<close>

definition str_or_empty :: "json \<Rightarrow> string" where
  "str_or_empty v = (case as_str v of None \<Rightarrow> [] | Some s \<Rightarrow> s)"

lemma as_object_eq_Some [simp]: "as_object v = Some m \<longleftrightarrow> v = Object m"
  by (cases v) auto

lemma as_array_eq_Some [simp]: "as_array v = Some xs \<longleftrightarrow> v = Array xs"
  by (cases v) auto

lemma as_str_eq_Some [simp]: "as_str v = Some s \<longleftrightarrow> v = String s"
  by (cases v) auto

lemma as_bool_eq_Some [simp]: "as_bool v = Some b \<longleftrightarrow> v = Bool b"
  by (cases v) auto

lemma as_u64_eq_Some [simp]: "as_u64 v = Some n \<longleftrightarrow> v = Number (PosInt n)"
  by (cases v rule: as_u64.cases) auto

lemma is_object_simps [simp]:
  "is_object (Object m)" "\<not> is_object Null" "\<not> is_object (Array xs)"
  "\<not> is_object (String s)" "\<not> is_object (Bool b)" "\<not> is_object (Number n)"
  by (simp_all add: is_object_def)

lemma is_objectE:
  assumes "is_object v"
  obtains m where "v = Object m"
  using assms by (cases v) auto

lemma is_null_simps [simp]:
  "is_null Null" "\<not> is_null (Object m)" "\<not> is_null (Array xs)"
  "\<not> is_null (String s)" "\<not> is_null (Bool b)" "\<not> is_null (Number n)"
  by (simp_all add: is_null_def)

lemma get_Object [simp]: "get (Object m) k = fmlookup m k"
  by (simp add: get_def)

lemma get_non_object [simp]:
  "get Null k = None" "get (Array xs) k = None" "get (String s) k = None"
  "get (Bool b) k = None" "get (Number n) k = None"
  by (simp_all add: get_def)

lemma at_key_Object [simp]: "fmlookup m k = Some w \<Longrightarrow> at_key (Object m) k = w"
  by (simp add: at_key_def)

lemma at_key_eq_Object: "at_key v k = Object m \<longleftrightarrow> get v k = Some (Object m)"
  by (auto simp: at_key_def split: option.splits)

lemma str_or_empty_String [simp]: "str_or_empty (String s) = s"
  by (simp add: str_or_empty_def)

lemma get_Some_is_object: "get v k = Some w \<Longrightarrow> is_object v"
  by (cases v) auto

section \<open>Updating an object\<close>

text \<open>
  \<^verbatim>\<open>value.as_object_mut().expect(..).insert(k, v)\<close>: \<^term>\<open>None\<close> is the panic of the
  \<^verbatim>\<open>expect\<close>.
\<close>

definition insert_field :: "json \<Rightarrow> string \<Rightarrow> json \<Rightarrow> json option" where
  "insert_field v k x = (case as_object v of None \<Rightarrow> None | Some m \<Rightarrow> Some (Object (fmupd k x m)))"

text \<open>\<^verbatim>\<open>object.entry(k).or_insert_with(|| d)\<close>: the value now stored under the key.\<close>

definition entry_or :: "(string, json) fmap \<Rightarrow> string \<Rightarrow> json \<Rightarrow> json" where
  "entry_or m k d = (case fmlookup m k of None \<Rightarrow> d | Some v \<Rightarrow> v)"

lemma insert_field_Object [simp]: "insert_field (Object m) k x = Some (Object (fmupd k x m))"
  by (simp add: insert_field_def)

lemma insert_field_eq_None [simp]: "insert_field v k x = None \<longleftrightarrow> \<not> is_object v"
  by (cases v) (auto simp: insert_field_def)

lemma insert_field_is_object: "insert_field v k x = Some v' \<Longrightarrow> is_object v'"
  by (cases v) (auto simp: insert_field_def)

lemma get_insert_field:
  "insert_field v k x = Some v' \<Longrightarrow> get v' k' = (if k' = k then Some x else get v k')"
  by (cases v) (auto simp: insert_field_def)

lemma fmupd_same_lookup: "fmlookup m k = Some x \<Longrightarrow> fmupd k x m = m"
  by (rule fmap_ext) auto

section \<open>Object literals\<close>

text \<open>The \<^verbatim>\<open>json!({..})\<close> literal of an object.\<close>

fun json_fields :: "(string \<times> json) list \<Rightarrow> (string, json) fmap" where
  "json_fields [] = fmempty"
| "json_fields ((k, v) # kvs) = fmupd k v (json_fields kvs)"

definition json_object :: "(string \<times> json) list \<Rightarrow> json" where
  "json_object kvs = Object (json_fields kvs)"

lemma fmlookup_json_fields [simp]: "fmlookup (json_fields kvs) k = map_of kvs k"
  by (induction kvs) auto

lemma get_json_object [simp]: "get (json_object kvs) k = map_of kvs k"
  by (simp add: json_object_def)

lemma json_object_neq [simp]:
  "json_object kvs \<noteq> Null" "json_object kvs \<noteq> String s" "json_object kvs \<noteq> Array xs"
  by (simp_all add: json_object_def)

lemma is_object_json_object [simp]: "is_object (json_object kvs)"
  by (simp add: json_object_def)

end
