(* ===== verification/Reducers.thy ===== *)
theory Reducers
  imports Graph
begin

text \<open>
  \<^verbatim>\<open>engine-core/src/state.rs\<close>: a node's output is folded into the execution state by one of
  four reducers. The state must be a JSON object; on anything else the code panics, which is
  \<^term>\<open>None\<close> here. Shown: reducers never panic on an object, keep it an object, touch only
  their own key, and \<open>AppendEach\<close> on a list is repeated \<open>Append\<close>.
\<close>

section \<open>Definitions\<close>

definition apply_append :: "json \<Rightarrow> string \<Rightarrow> json \<Rightarrow> json option" where
  "apply_append st key v =
     (case as_object st of
        None \<Rightarrow> None
      | Some m \<Rightarrow>
          Some (Object (fmupd key
            (case entry_or m key (Array []) of
               Array items \<Rightarrow> Array (items @ [v])
             | other \<Rightarrow> Array [other, v]) m)))"

definition append_items :: "json \<Rightarrow> json list" where
  "append_items v = (case v of Array items \<Rightarrow> items | one \<Rightarrow> [one])"

definition apply_merge :: "json \<Rightarrow> string \<Rightarrow> json \<Rightarrow> json option" where
  "apply_merge st key v =
     (case as_object st of
        None \<Rightarrow> None
      | Some m \<Rightarrow>
          (let current = entry_or m key empty_object in
           Some (Object (fmupd key
             (case (current, v) of
                (Object existing, Object incoming) \<Rightarrow> Object (existing ++\<^sub>f incoming)
              | _ \<Rightarrow> current) m))))"

fun apply_reducer :: "json \<Rightarrow> string \<Rightarrow> reducer \<Rightarrow> json \<Rightarrow> json option" where
  "apply_reducer st key Replace v = insert_field st key v"
| "apply_reducer st key Append v = apply_append st key v"
| "apply_reducer st key AppendEach v =
     (case as_object st of
        None \<Rightarrow> None
      | Some _ \<Rightarrow> fold_opt (\<lambda>item st. apply_append st key item) (append_items v) st)"
| "apply_reducer st key Merge v = apply_merge st key v"

section \<open>Reducers are total on objects and local to their key\<close>

definition same_but :: "string \<Rightarrow> json \<Rightarrow> json \<Rightarrow> bool" where
  "same_but key st st' \<longleftrightarrow> is_object st' \<and> (\<forall>k. k \<noteq> key \<longrightarrow> get st' k = get st k)"

lemma same_but_refl [simp]: "is_object st \<Longrightarrow> same_but key st st"
  by (simp add: same_but_def)

lemma same_but_trans: "same_but key a b \<Longrightarrow> same_but key b c \<Longrightarrow> same_but key a c"
  by (simp add: same_but_def)

lemma apply_append_ok:
  "is_object st \<Longrightarrow> \<exists>st'. apply_append st key v = Some st' \<and> same_but key st st'"
  by (erule is_objectE) (simp add: apply_append_def same_but_def)

lemma apply_append_same: "apply_append st key v = Some st' \<Longrightarrow> same_but key st st'"
  by (cases st) (auto simp: apply_append_def same_but_def)

lemma fold_append_ok:
  "is_object st \<Longrightarrow>
   \<exists>st'. fold_opt (\<lambda>item st. apply_append st key item) vs st = Some st' \<and> same_but key st st'"
proof (rule fold_opt_total [where P = "same_but key st"])
  fix x s
  assume "same_but key st s"
  moreover from this have "is_object s" by (simp add: same_but_def)
  ultimately show "\<exists>s'. apply_append s key x = Some s' \<and> same_but key st s'"
    using apply_append_ok same_but_trans by blast
qed simp

lemma apply_merge_ok:
  "is_object st \<Longrightarrow> \<exists>st'. apply_merge st key v = Some st' \<and> same_but key st st'"
  by (erule is_objectE) (simp add: apply_merge_def Let_def same_but_def)

lemma insert_field_ok:
  "is_object st \<Longrightarrow> \<exists>st'. insert_field st key v = Some st' \<and> same_but key st st'"
  by (erule is_objectE) (simp add: same_but_def)

lemma apply_reducer_ok:
  assumes "is_object st"
  shows "\<exists>st'. apply_reducer st key r v = Some st' \<and> same_but key st st'"
proof (cases r)
  case AppendEach
  moreover from assms obtain m where "st = Object m" by (rule is_objectE)
  ultimately show ?thesis using fold_append_ok [OF assms] by simp
qed (use assms in \<open>simp_all add: insert_field_ok apply_append_ok apply_merge_ok\<close>)

lemma apply_reducer_None: "apply_reducer st key r v = None \<longleftrightarrow> \<not> is_object st"
proof (cases "is_object st")
  case True
  then show ?thesis using apply_reducer_ok [of st key r v] by auto
next
  case False
  then have "as_object st = None" by (cases st) simp_all
  then show ?thesis using False
    by (cases r) (auto simp: apply_append_def apply_merge_def)
qed

lemma apply_reducer_same:
  assumes "apply_reducer st key r v = Some st'"
  shows "same_but key st st'"
proof -
  have "is_object st" using assms apply_reducer_None [of st key r v] by auto
  from apply_reducer_ok [OF this, of key r v] assms show ?thesis by auto
qed

section \<open>What each reducer stores\<close>

text \<open>The entries an append reducer sees under its key: a value that is not a list counts as
  a one-element list, a missing key as the empty one.\<close>

definition items_at :: "json \<Rightarrow> string \<Rightarrow> json list" where
  "items_at st key = (case get st key of None \<Rightarrow> [] | Some v \<Rightarrow> append_items v)"

lemma get_apply_append:
  "apply_append st key v = Some st' \<Longrightarrow> get st' key = Some (Array (items_at st key @ [v]))"
  by (cases st)
    (auto simp: apply_append_def items_at_def append_items_def entry_or_def
      split: option.splits json.splits)

lemma items_at_apply_append:
  "apply_append st key v = Some st' \<Longrightarrow> items_at st' key = items_at st key @ [v]"
  by (simp add: items_at_def get_apply_append append_items_def)

lemma items_at_fold_append:
  "fold_opt (\<lambda>item st. apply_append st key item) vs st = Some st' \<Longrightarrow>
   items_at st' key = items_at st key @ vs"
proof (induction vs arbitrary: st)
  case Nil
  then show ?case by simp
next
  case (Cons v vs)
  then obtain s where "apply_append st key v = Some s"
    and "fold_opt (\<lambda>item st. apply_append st key item) vs s = Some st'"
    by (auto simp: panic_simps)
  with Cons.IH [of s] show ?case by (simp add: items_at_apply_append)
qed

lemma items_at_apply_reducer:
  "apply_reducer st key Append v = Some st' \<Longrightarrow> items_at st' key = items_at st key @ [v]"
  "apply_reducer st key AppendEach v = Some st' \<Longrightarrow>
     items_at st' key = items_at st key @ append_items v"
  by (auto simp: items_at_apply_append items_at_fold_append split: option.splits)

lemma get_apply_replace:
  "apply_reducer st key Replace v = Some st' \<Longrightarrow> get st' key = Some v"
  using get_insert_field [of st key v st' key] by simp

lemma get_apply_merge_objects:
  assumes "apply_reducer st key Merge (Object incoming) = Some st'"
    and "get st key = Some (Object existing)"
  shows "get st' key = Some (Object (existing ++\<^sub>f incoming))"
  using assms by (cases st) (auto simp: apply_merge_def Let_def entry_or_def)

end
