(* ===== verification/Llm_Output.thy ===== *)
theory Llm_Output
  imports Graph
begin

text \<open>
  \<^verbatim>\<open>engine-core/src/llm_output.rs\<close>: the keys and pointers of what an \<^verbatim>\<open>llm\<close> node writes, the
  records of tool calls and the window of records that is shown. The derived codecs
  (\<^verbatim>\<open>from_value::<ToolRecord>\<close>, \<^verbatim>\<open>to_value\<close>, \<^verbatim>\<open>from_value::<LlmOutput>\<close>) are the parameters
  \<open>read\<close>, \<open>write\<close> and \<open>read_output\<close>. Shown: the window always contains the whole latest step
  and at least the usual number of records.
\<close>

section \<open>Keys and pointers\<close>

definition LLM_STATE_KEY :: string where "LLM_STATE_KEY = ''llm''"
definition TOOL_RESULT_STATE_KEY :: string where "TOOL_RESULT_STATE_KEY = ''tool_result''"
definition PRIOR_MATERIAL_STATE_KEY :: string where
  "PRIOR_MATERIAL_STATE_KEY = ''prior_material''"
definition RENDERED_TOOL_RESULTS :: nat where "RENDERED_TOOL_RESULTS = 4"
definition TOOL_RESULT_ERROR_KEY :: string where "TOOL_RESULT_ERROR_KEY = ''error''"
definition FAST_TOOL_CALL_FIELD :: string where "FAST_TOOL_CALL_FIELD = ''fast_tool_call''"
definition TOOL_CALL_FIELD :: string where "TOOL_CALL_FIELD = ''tool_call''"
definition REPLY_FIELD :: string where "REPLY_FIELD = ''reply''"

lemmas state_keys = LLM_STATE_KEY_def TOOL_RESULT_STATE_KEY_def PRIOR_MATERIAL_STATE_KEY_def
  TOOL_RESULT_ERROR_KEY_def FAST_TOOL_CALL_FIELD_def TOOL_CALL_FIELD_def REPLY_FIELD_def

definition llm_tool_call_pointer :: string where
  "llm_tool_call_pointer = ''/'' @ LLM_STATE_KEY @ ''/'' @ TOOL_CALL_FIELD"

definition llm_reply_pointer :: string where
  "llm_reply_pointer = ''/'' @ LLM_STATE_KEY @ ''/'' @ REPLY_FIELD"

section \<open>Records of tool calls\<close>

record tool_call =
  call_name :: string
  call_args :: json

record tool_record =
  rec_name :: string
  rec_args :: json
  rec_result :: json
  fetched_at :: string

definition no_arguments :: json where
  "no_arguments = empty_object"

definition tool_record_of :: "tool_call \<Rightarrow> json \<Rightarrow> string \<Rightarrow> tool_record" where
  "tool_record_of call res stamp =
     \<lparr>rec_name = call_name call, rec_args = call_args call, rec_result = res,
      fetched_at = stamp\<rparr>"

definition stored_before_records_existed :: "json \<Rightarrow> tool_record" where
  "stored_before_records_existed stored =
     \<lparr>rec_name = [], rec_args = Null, rec_result = stored, fetched_at = []\<rparr>"

definition all_under :: "(json \<Rightarrow> tool_record option) \<Rightarrow> json \<Rightarrow> string \<Rightarrow> tool_record list" where
  "all_under read st key =
     (case Option.bind (get st key) as_array of
        None \<Rightarrow> []
      | Some records \<Rightarrow>
          map (\<lambda>stored. case read stored of
                 Some r \<Rightarrow> r
               | None \<Rightarrow> stored_before_records_existed stored) records)"

definition made_in_the_same_step_as :: "tool_record \<Rightarrow> tool_record \<Rightarrow> bool" where
  "made_in_the_same_step_as r r' \<longleftrightarrow> fetched_at r \<noteq> [] \<and> fetched_at r = fetched_at r'"

definition reached_its_source :: "tool_record \<Rightarrow> bool" where
  "reached_its_source r \<longleftrightarrow> get (rec_result r) TOOL_RESULT_ERROR_KEY = None"

definition latest_step :: "tool_record list \<Rightarrow> nat" where
  "latest_step records =
     (case chunk_by made_in_the_same_step_as records of
        [] \<Rightarrow> 0
      | c # cs \<Rightarrow> length (last (c # cs)))"

definition first_shown :: "tool_record list \<Rightarrow> nat" where
  "first_shown records = length records - max RENDERED_TOOL_RESULTS (latest_step records)"

section \<open>The object an llm node writes\<close>

record llm_output =
  out_tool_call :: json
  out_reply :: json

definition blank_output :: llm_output where
  "blank_output = \<lparr>out_tool_call = Null, out_reply = Null\<rparr>"

definition llm_output_in_state :: "(json \<Rightarrow> llm_output option) \<Rightarrow> json \<Rightarrow> llm_output" where
  "llm_output_in_state read_output st =
     (case Option.bind (get st LLM_STATE_KEY) read_output of
        None \<Rightarrow> blank_output
      | Some out \<Rightarrow> out)"

definition is_blank :: "llm_output \<Rightarrow> bool" where
  "is_blank out \<longleftrightarrow> is_null (out_tool_call out) \<and> is_null (out_reply out)"

section \<open>The window of shown records\<close>

lemma last_chunk_suffix:
  assumes "xs \<noteq> []"
  shows "\<exists>pre. xs = pre @ last (chunk_by p xs)"
proof -
  have "xs = concat (butlast (chunk_by p xs)) @ last (chunk_by p xs)"
    using assms concat_append [of "butlast (chunk_by p xs)" "[last (chunk_by p xs)]"]
    by simp
  then show ?thesis by blast
qed

lemma latest_step_eq:
  "latest_step rs = (if rs = [] then 0 else length (last (chunk_by made_in_the_same_step_as rs)))"
  by (auto simp: latest_step_def split: list.splits)

lemma latest_step_le: "latest_step rs \<le> length rs"
proof (cases "rs = []")
  case False
  then obtain pre where "rs = pre @ last (chunk_by made_in_the_same_step_as rs)"
    using last_chunk_suffix by blast
  then have "length rs = length pre + length (last (chunk_by made_in_the_same_step_as rs))"
    by (metis length_append)
  then show ?thesis by (simp add: latest_step_eq)
qed (simp add: latest_step_eq)

lemma first_shown_le: "first_shown rs \<le> length rs"
  by (simp add: first_shown_def)

text \<open>The shown suffix ends with the whole latest step.\<close>

lemma drop_first_shown_length:
  "length (drop (first_shown rs) rs) =
     min (length rs) (max RENDERED_TOOL_RESULTS (latest_step rs))"
  by (simp add: first_shown_def)

lemma last_chunk_shown:
  assumes "rs \<noteq> []"
  shows "\<exists>pre. drop (first_shown rs) rs = pre @ last (chunk_by made_in_the_same_step_as rs)"
proof -
  let ?c = "last (chunk_by made_in_the_same_step_as rs)"
  obtain pre where rs: "rs = pre @ ?c" using last_chunk_suffix [OF assms] by blast
  then have len: "length rs = length pre + length ?c" by (metis length_append)
  have "first_shown rs \<le> length pre"
    using len assms by (simp add: first_shown_def latest_step_eq)
  then have "drop (first_shown rs) (pre @ ?c) = drop (first_shown rs) pre @ ?c" by simp
  with rs show ?thesis by metis
qed

lemma length_all_under:
  "length (all_under read st key) =
     (case Option.bind (get st key) as_array of None \<Rightarrow> 0 | Some rs \<Rightarrow> length rs)"
  by (simp add: all_under_def split: option.splits)

end
