(* ===== verification/Execution.thy ===== *)
theory Execution
  imports Prelude Graph Llm_Output
begin

text \<open>
  \<^verbatim>\<open>engine-core/src/budget.rs\<close>: what is left of an execution's token, tool-call and wall-time
  allowance. A \<^verbatim>\<open>Duration\<close> is a natural number of nanoseconds. Shown here: charging never
  raises a field, charges accumulate, exhaustion is permanent, and the millisecond encoding of
  the wall time loses at most the sub-millisecond remainder.
\<close>

section \<open>Definitions\<close>

type_synonym duration = nat

record budget =
  tokens_remaining :: u32
  tool_calls_remaining :: u32
  wall_time_remaining :: duration

definition budget_new :: "u32 \<Rightarrow> u32 \<Rightarrow> duration \<Rightarrow> budget" where
  "budget_new tokens tool_calls wall_time =
     \<lparr>tokens_remaining = tokens, tool_calls_remaining = tool_calls,
      wall_time_remaining = wall_time\<rparr>"

definition charge :: "budget \<Rightarrow> u32 \<Rightarrow> u32 \<Rightarrow> duration \<Rightarrow> budget" where
  "charge b tokens tool_calls wall_time =
     b\<lparr>tokens_remaining := saturating_sub (tokens_remaining b) tokens,
       tool_calls_remaining := saturating_sub (tool_calls_remaining b) tool_calls,
       wall_time_remaining := wall_time_remaining b - wall_time\<rparr>"

definition exhausted :: "budget \<Rightarrow> bool" where
  "exhausted b \<longleftrightarrow>
     tokens_remaining b = 0 \<or> tool_calls_remaining b = 0 \<or> wall_time_remaining b = 0"

text \<open>\<^verbatim>\<open>mod duration_millis\<close>: the wall time is stored as a \<^verbatim>\<open>u64\<close> of milliseconds.\<close>

definition nanos_per_milli :: nat where
  "nanos_per_milli = 1000000"

definition duration_millis_serialize :: "duration \<Rightarrow> u64" where
  "duration_millis_serialize d = clamp_to_word (d div nanos_per_milli)"

definition duration_millis_deserialize :: "u64 \<Rightarrow> duration" where
  "duration_millis_deserialize n = unat n * nanos_per_milli"

section \<open>The order on budgets\<close>

text \<open>One budget is at most another when every field is: the relation charging moves down.\<close>

definition budget_le :: "budget \<Rightarrow> budget \<Rightarrow> bool" where
  "budget_le b c \<longleftrightarrow>
     tokens_remaining b \<le> tokens_remaining c \<and>
     tool_calls_remaining b \<le> tool_calls_remaining c \<and>
     wall_time_remaining b \<le> wall_time_remaining c"

lemma budget_le_refl [simp]: "budget_le b b"
  by (simp add: budget_le_def)

lemma budget_le_trans [trans]: "budget_le a b \<Longrightarrow> budget_le b c \<Longrightarrow> budget_le a c"
  by (auto simp: budget_le_def)

lemma charge_le: "budget_le (charge b t c w) b"
  by (simp add: charge_def budget_le_def saturating_sub_le)

lemma unat_charge [sat_simps]:
  "unat (tokens_remaining (charge b t c w)) = unat (tokens_remaining b) - unat t"
  "unat (tool_calls_remaining (charge b t c w)) = unat (tool_calls_remaining b) - unat c"
  "wall_time_remaining (charge b t c w) = wall_time_remaining b - w"
  by (simp_all add: charge_def sat_simps)

lemma exhausted_mono: "budget_le b c \<Longrightarrow> exhausted c \<Longrightarrow> exhausted b"
  by (auto simp: budget_le_def exhausted_def)

lemma exhausted_unat:
  "exhausted b \<longleftrightarrow>
     unat (tokens_remaining b) = 0 \<or> unat (tool_calls_remaining b) = 0 \<or>
     wall_time_remaining b = 0"
  by (simp add: exhausted_def unat_eq_zero)

section \<open>The millisecond encoding\<close>

lemma duration_millis_roundtrip_floor:
  assumes "d div nanos_per_milli < 2 ^ 64"
  shows "duration_millis_deserialize (duration_millis_serialize d) = d - d mod nanos_per_milli"
proof -
  have "unat (duration_millis_serialize d) = d div nanos_per_milli"
    using assms by (simp add: duration_millis_serialize_def sat_simps)
  then show ?thesis
    by (simp add: duration_millis_deserialize_def minus_mod_eq_div_mult)
qed

lemma duration_millis_roundtrip_le:
  "duration_millis_deserialize (duration_millis_serialize d) \<le> d"
proof -
  have "unat (duration_millis_serialize d) \<le> d div nanos_per_milli"
    by (simp add: duration_millis_serialize_def sat_simps)
  then have "unat (duration_millis_serialize d) * nanos_per_milli
      \<le> d div nanos_per_milli * nanos_per_milli"
    by (rule mult_le_mono1)
  also have "\<dots> \<le> d" by (rule div_times_less_eq_dividend)
  finally show ?thesis by (simp add: duration_millis_deserialize_def)
qed

lemma duration_millis_deserialize_inverse:
  "duration_millis_serialize (duration_millis_deserialize n) = n"
proof -
  have "unat n < 2 ^ LENGTH(64)" by (rule unsigned_less)
  then have "unat n < 2 ^ 64" by simp
  then show ?thesis
    by (simp add: duration_millis_serialize_def duration_millis_deserialize_def
        clamp_to_word_def nanos_per_milli_def)
qed

text \<open>
  \<^verbatim>\<open>engine-core/src/execution.rs\<close>, \<^verbatim>\<open>event.rs\<close> and \<^verbatim>\<open>checkpoint.rs\<close>: one execution of a graph,
  the append-only events it produces and the checkpoint after a super-step, together with the
  codecs derived for these types (\<open>serde\<close>), which are parameters of the code that stores and
  reloads them. The random id and the clock reading of an event are an argument (a stamp).
\<close>

section \<open>Executions, events, checkpoints\<close>

record active_node =
  active_id :: node_id
  branch :: "u32 option"

definition plain :: "node_id \<Rightarrow> active_node" where
  "plain i = \<lparr>active_id = i, branch = None\<rparr>"

datatype status = Ready | Running | Waiting wait_kind | Completed | Failed | Cancelled

fun terminal :: "status \<Rightarrow> bool" where
  "terminal Completed = True"
| "terminal Failed = True"
| "terminal Cancelled = True"
| "terminal _ = False"

record execution =
  exec_id :: uuid
  graph_id :: graph_id
  graph_version :: u32
  user_id :: "uuid option"
  status :: status
  current_nodes :: "active_node list"
  state :: json
  iteration :: u32
  max_iterations :: u32
  deadline :: "instant option"
  budget :: budget

datatype execution_payload =
    ExecutionStarted
  | NodeStarted node_id
  | NodeCompleted node_id json
  | NodeFailed node_id string
  | TaskOutput node_id json
  | WaitingOn wait_kind
  | Resumed
  | Interrupted
  | ExecutionCompleted json "json option"
  | ExecutionFailed string
  | ExecutionCancelled

record event =
  event_id :: uuid
  event_version :: u16
  occurred_at :: instant
  event_user_id :: "uuid option"
  correlation_id :: uuid
  causation_id :: "uuid option"
  payload :: execution_payload

record checkpoint =
  schema_version :: u16
  cp_execution_id :: uuid
  cp_step :: u32
  cp_state :: json
  cp_current_nodes :: "active_node list"

definition CHECKPOINT_SCHEMA_VERSION :: u16 where
  "CHECKPOINT_SCHEMA_VERSION = 1"

text \<open>
  \<^verbatim>\<open>Execution::event\<close> draws a fresh id and reads the clock. The \<open>i\<close>-th event made by one call
  of the engine gets the \<open>i\<close>-th stamp.
\<close>

type_synonym stamp = "uuid \<times> instant"
type_synonym stamps = "nat \<Rightarrow> stamp"

definition execution_event :: "execution \<Rightarrow> stamp \<Rightarrow> execution_payload \<Rightarrow> event" where
  "execution_event ex s p =
     \<lparr>event_id = fst s, event_version = 1, occurred_at = snd s, event_user_id = user_id ex,
      correlation_id = exec_id ex, causation_id = None, payload = p\<rparr>"

definition push_event ::
  "stamps \<Rightarrow> execution \<Rightarrow> event list \<Rightarrow> execution_payload \<Rightarrow> event list" where
  "push_event st ex evs p = evs @ [execution_event ex (st (length evs)) p]"

lemma payload_execution_event [simp]: "payload (execution_event ex s p) = p"
  by (simp add: execution_event_def)

lemma map_payload_push [simp]: "map payload (push_event st ex evs p) = map payload evs @ [p]"
  by (simp add: push_event_def)

lemma push_event_not_Nil [simp]: "push_event st ex evs p \<noteq> []"
  by (simp add: push_event_def)

lemma last_push_event [simp]: "payload (last (push_event st ex evs p)) = p"
  by (simp add: push_event_def)

text \<open>\<^verbatim>\<open>NodeOutput\<close>: what one active node produced, an error text or a value.\<close>

record node_output =
  out_node :: active_node
  out_result :: "string + json"

section \<open>The derived codecs\<close>

text \<open>
  \<^verbatim>\<open>serde\<close> and \<^verbatim>\<open>serde_json\<close> are not part of this repository: pointer resolution and the codecs
  generated for the types above are fields of one record, passed to every definition that
  decodes or encodes.
\<close>

record serde =
  pointer :: pointer_fun
  read_reducer :: "json \<Rightarrow> reducer option"
  read_tool_record :: "json \<Rightarrow> tool_record option"
  write_tool_record :: "tool_record \<Rightarrow> json"
  read_llm_output :: "json \<Rightarrow> llm_output option"
  read_wait_kind :: "json \<Rightarrow> wait_kind option"
  write_wait_kind :: "wait_kind \<Rightarrow> json"
  read_active_nodes :: "json \<Rightarrow> active_node list option"
  write_active_nodes :: "active_node list \<Rightarrow> json"
  read_budget :: "json \<Rightarrow> budget option"
  write_budget :: "budget \<Rightarrow> json"
  read_payload :: "json \<Rightarrow> execution_payload option"
  write_payload :: "execution_payload \<Rightarrow> json"
  read_graph :: "json \<Rightarrow> graph option"
  write_graph :: "graph \<Rightarrow> json"
  read_tool_call :: "json \<Rightarrow> tool_call option"
  write_tool_calls :: "tool_call list \<Rightarrow> json"
  decode_error :: "string \<Rightarrow> json \<Rightarrow> string"
  parse_json :: "string \<Rightarrow> string + json"
  render_json :: "json \<Rightarrow> string"

text \<open>
  \<open>decode_error ty v\<close> is the text serde reports for a value it cannot decode at a type;
  \<open>parse_json\<close> is \<^verbatim>\<open>serde_json::from_str::<Value>\<close> and \<open>render_json\<close> is \<^verbatim>\<open>Value::to_string\<close>.
\<close>

definition decode :: "serde \<Rightarrow> (json \<Rightarrow> 'a option) \<Rightarrow> string \<Rightarrow> json \<Rightarrow> string + 'a" where
  "decode sj read ty v = (case read v of None \<Rightarrow> Inl (decode_error sj ty v) | Some x \<Rightarrow> Inr x)"

lemma decode_Some [simp]: "read v = Some x \<Longrightarrow> decode sj read ty v = Inr x"
  by (simp add: decode_def)

end
