(* ===== verification/Step.thy ===== *)
theory Step
  imports Reducers Execution
begin

text \<open>
  \<^verbatim>\<open>engine-core/src/step.rs\<close>: one super-step of an execution, the one place where graph
  semantics live, with the interrupt. Functions that contain an \<^verbatim>\<open>expect\<close> return an option;
  \<^term>\<open>None\<close> is the panic. The theory holds the definitions and the basic facts about each
  of them; \<^verbatim>\<open>Step_Props\<close> and \<^verbatim>\<open>Fan_In\<close> hold the properties of whole steps and of the fan-in
  barrier.
\<close>

section \<open>Constants\<close>

definition FAN_IN_TABLE :: string where "FAN_IN_TABLE = ''__fan_in''"
definition ONE_TOOL_CALL :: u32 where "ONE_TOOL_CALL = 1"
definition UNMEASURED_WALL_TIME :: duration where "UNMEASURED_WALL_TIME = 0"

definition results_field :: string where "results_field = ''results''"

section \<open>Charging and folding a task's output\<close>

definition extra_tool_call_charge :: "json \<Rightarrow> u32" where
  "extra_tool_call_charge v = (if get v FAST_TOOL_CALL_FIELD \<noteq> None then 1 else 0)"

definition usage_field :: "json \<Rightarrow> string \<Rightarrow> u64" where
  "usage_field usage name =
     (case Option.bind (get usage name) as_u64 of None \<Rightarrow> 0 | Some n \<Rightarrow> n)"

definition usage_tokens :: "json \<Rightarrow> u32" where
  "usage_tokens v =
     (case get v ''usage'' of
        None \<Rightarrow> 0
      | Some usage \<Rightarrow>
          clamp_to_word (unat
            (saturating_add (usage_field usage ''tokens_in'') (usage_field usage ''tokens_out''))))"

definition charge_budget :: "execution \<Rightarrow> json \<Rightarrow> execution" where
  "charge_budget ex v =
     ex\<lparr>budget := charge (budget ex) (usage_tokens v)
          (saturating_add ONE_TOOL_CALL (extra_tool_call_charge v)) UNMEASURED_WALL_TIME\<rparr>"

definition reduce_state :: "execution \<Rightarrow> string \<Rightarrow> reducer \<Rightarrow> json \<Rightarrow> execution option" where
  "reduce_state ex key r v =
     (case apply_reducer (state ex) key r v of None \<Rightarrow> None | Some st \<Rightarrow> Some (ex\<lparr>state := st\<rparr>))"

definition apply_fast_tool_call :: "serde \<Rightarrow> execution \<Rightarrow> json \<Rightarrow> execution option" where
  "apply_fast_tool_call sj ex v =
     (case Option.bind (get v FAST_TOOL_CALL_FIELD) (read_tool_record sj) of
        None \<Rightarrow> Some ex
      | Some r \<Rightarrow> reduce_state ex TOOL_RESULT_STATE_KEY Append (write_tool_record sj r))"

definition state_key :: "json \<Rightarrow> string option" where
  "state_key config = Option.bind (get config ''state_key'') as_str"

definition reducer_of :: "serde \<Rightarrow> json \<Rightarrow> reducer option" where
  "reducer_of sj config =
     (case get config ''reducer'' of
        None \<Rightarrow> Some Replace
      | Some decl \<Rightarrow> read_reducer sj decl)"

definition apply_task_value :: "serde \<Rightarrow> execution \<Rightarrow> json \<Rightarrow> json \<Rightarrow> execution option" where
  "apply_task_value sj ex config v = do {
     ex \<leftarrow> apply_fast_tool_call sj (charge_budget ex v) v;
     (case (state_key config, reducer_of sj config) of
        (Some key, Some r) \<Rightarrow> reduce_state ex key r v
      | _ \<Rightarrow> Some ex)
   }"

definition apply_output ::
  "serde \<Rightarrow> stamps \<Rightarrow> graph \<Rightarrow> execution \<times> event list \<Rightarrow> node_output \<Rightarrow>
     (execution \<times> event list) option" where
  "apply_output sj st g s out = (case s of (ex, evs) \<Rightarrow>
     (case out_result out of
        Inr v \<Rightarrow> do {
          let evs' = push_event st ex evs (NodeCompleted (active_id (out_node out)) v);
          (case graph_node g (active_id (out_node out)) of
             Some (Task _ _ config) \<Rightarrow>
               map_option (\<lambda>ex'. (ex', evs')) (apply_task_value sj ex config v)
           | _ \<Rightarrow> Some (ex, evs'))
        }
      | Inl e \<Rightarrow>
          Some (ex, push_event st ex evs (NodeFailed (active_id (out_node out)) e))))"

section \<open>Fan-out and the fan-in barrier\<close>

definition fan_in_consuming :: "graph \<Rightarrow> node_id \<Rightarrow> node option" where
  "fan_in_consuming g i =
     (case find_map (\<lambda>e. graph_node g (edge_to e)) (edges_from g i) of
        None \<Rightarrow> None
      | Some n \<Rightarrow> if is_fan_in n then Some n else None)"

definition empty_slot :: "nat \<Rightarrow> json" where
  "empty_slot n = Object (fmupd results_field (Array (replicate n Null)) fmempty)"

definition open_fan_in_barrier ::
  "graph \<Rightarrow> execution \<Rightarrow> node_id \<Rightarrow> nat \<Rightarrow> execution option" where
  "open_fan_in_barrier g ex target spawned =
     (case fan_in_consuming g target of
        Some (FanIn i _ _) \<Rightarrow> do {
          obj \<leftarrow> as_object (state ex);
          table \<leftarrow> as_object (entry_or obj FAN_IN_TABLE empty_object);
          Some (ex\<lparr>state := Object (fmupd FAN_IN_TABLE
            (Object (fmupd i (empty_slot spawned) table)) obj)\<rparr>)
        }
      | _ \<Rightarrow> Some ex)"

definition record_fan_in_branch ::
  "execution \<Rightarrow> node_output \<Rightarrow> node \<Rightarrow> active_node list \<Rightarrow>
     (execution \<times> active_node list) option" where
  "record_fan_in_branch ex out fan_in next =
     (case (fan_in, branch (out_node out), out_result out) of
        (FanIn i key r, Some b, Inr v) \<Rightarrow> do {
          obj \<leftarrow> as_object (state ex);
          table \<leftarrow> as_object (entry_or obj FAN_IN_TABLE empty_object);
          slot \<leftarrow> as_object (entry_or table i (empty_slot 0));
          results \<leftarrow> Option.bind (fmlookup slot results_field) as_array;
          let results' = (grow_to (unat b + 1) Null results)[unat b := v];
          let slot' = Object (fmupd results_field (Array results') slot);
          let st = Object (fmupd FAN_IN_TABLE (Object (fmupd i slot' table)) obj);
          (if \<not> list_all (\<lambda>x. \<not> is_null x) results' then Some (ex\<lparr>state := st\<rparr>, next)
           else do {
             st' \<leftarrow> fold_opt (\<lambda>item st. apply_reducer st key r item) results' st;
             Some (ex\<lparr>state := st'\<rparr>, next @ [plain i])
           })
        }
      | _ \<Rightarrow> None)"

definition fan_out_branches :: "pointer_fun \<Rightarrow> execution \<Rightarrow> string \<Rightarrow> nat" where
  "fan_out_branches ptr ex source =
     (case Option.bind (ptr (state ex) source) as_array of None \<Rightarrow> 0 | Some xs \<Rightarrow> length xs)"

definition spawned :: "node_id \<Rightarrow> nat \<Rightarrow> active_node list" where
  "spawned target n =
     map (\<lambda>i. \<lparr>active_id = target, branch = Some (clamp_to_word i)\<rparr>) [0..<n]"

definition fan_handled_output ::
  "serde \<Rightarrow> graph \<Rightarrow> execution \<Rightarrow> node_output \<Rightarrow> active_node list \<Rightarrow>
     (execution \<times> active_node list \<times> bool) option" where
  "fan_handled_output sj g ex out next =
     (case graph_node g (active_id (out_node out)) of
        Some (FanOut _ source _ target) \<Rightarrow> do {
          let n = fan_out_branches (pointer sj) ex source;
          ex' \<leftarrow> open_fan_in_barrier g ex target n;
          Some (ex', next @ spawned target n, True)
        }
      | Some (FanIn _ _ _) \<Rightarrow> Some (ex, next, False)
      | _ \<Rightarrow>
          (case fan_in_consuming g (active_id (out_node out)) of
             Some fan_in \<Rightarrow>
               (case out_result out of
                  Inl _ \<Rightarrow> Some (ex, next, False)
                | Inr _ \<Rightarrow>
                    map_option (\<lambda>(ex', next'). (ex', next', True))
                      (record_fan_in_branch ex out fan_in next))
           | None \<Rightarrow> Some (ex, next, False)))"

definition firing_edges :: "pointer_fun \<Rightarrow> graph \<Rightarrow> json \<Rightarrow> node_id \<Rightarrow> edge list" where
  "firing_edges ptr g st i =
     filter (\<lambda>e. evaluate_condition ptr (edge_condition e) st) (edges_from g i)"

definition record_edges ::
  "serde \<Rightarrow> graph \<Rightarrow> execution \<Rightarrow> node_output \<Rightarrow> active_node list \<Rightarrow> string option \<Rightarrow>
     active_node list \<times> string option" where
  "record_edges sj g ex out next hard =
     (case out_result out of
        Inl e \<Rightarrow>
          (next, Some (''node '' @ active_id (out_node out) @
             '' failed with no Failed edge: '' @ e))
      | Inr _ \<Rightarrow>
          (next @ map (\<lambda>e. plain (edge_to e))
             (firing_edges (pointer sj) g (state ex) (active_id (out_node out))), hard))"

definition expand_completed_fan_ins ::
  "pointer_fun \<Rightarrow> graph \<Rightarrow> execution \<Rightarrow> active_node list \<Rightarrow> active_node list" where
  "expand_completed_fan_ins ptr g ex next =
     concat (map (\<lambda>a.
       (case graph_node g (active_id a) of
          Some (FanIn _ _ _) \<Rightarrow>
            map (\<lambda>e. plain (edge_to e)) (firing_edges ptr g (state ex) (active_id a))
        | _ \<Rightarrow> [a])) next)"

section \<open>The super-step\<close>

type_synonym loop_state = "execution \<times> event list \<times> active_node list \<times> string option"

definition step_output ::
  "serde \<Rightarrow> stamps \<Rightarrow> graph \<Rightarrow> node_output \<Rightarrow> loop_state \<Rightarrow> loop_state option" where
  "step_output sj st g out s = (case s of (ex, evs, next, hard) \<Rightarrow> do {
     (ex, evs) \<leftarrow> apply_output sj st g (ex, evs) out;
     (ex, next, handled) \<leftarrow> fan_handled_output sj g ex out next;
     (if handled then Some (ex, evs, next, hard)
      else (case record_edges sj g ex out next hard of
              (next', hard') \<Rightarrow> Some (ex, evs, next', hard')))
   })"

definition step_outputs ::
  "serde \<Rightarrow> stamps \<Rightarrow> graph \<Rightarrow> execution \<Rightarrow> node_output list \<Rightarrow> loop_state option" where
  "step_outputs sj st g ex outputs =
     fold_opt (step_output sj st g) outputs
       (ex, [], if outputs = [] then current_nodes ex else [], None)"

fun node_wait :: "node option \<Rightarrow> wait_kind option" where
  "node_wait (Some (Wait _ on)) = Some on"
| "node_wait (Some (Subgraph i _ _ _ _)) = Some (ExternalEvent i)"
| "node_wait _ = None"

definition park_next ::
  "stamps \<Rightarrow> graph \<Rightarrow> execution \<Rightarrow> event list \<Rightarrow> active_node list \<Rightarrow> execution \<times> event list" where
  "park_next st g ex evs next =
     (let ex' = ex\<lparr>current_nodes := next\<rparr> in
      case find_map (\<lambda>a. node_wait (graph_node g (active_id a))) next of
        Some on \<Rightarrow>
          (ex'\<lparr>status := Waiting on\<rparr>, push_event st (ex'\<lparr>status := Waiting on\<rparr>) evs (WaitingOn on))
      | None \<Rightarrow> (ex'\<lparr>status := Ready\<rparr>, evs))"

definition fail_execution ::
  "stamps \<Rightarrow> execution \<Rightarrow> event list \<Rightarrow> string \<Rightarrow> execution \<times> event list" where
  "fail_execution st ex evs msg =
     (ex\<lparr>status := Failed\<rparr>, push_event st (ex\<lparr>status := Failed\<rparr>) evs (ExecutionFailed msg))"

definition complete_execution ::
  "serde \<Rightarrow> stamps \<Rightarrow> graph \<Rightarrow> execution \<Rightarrow> event list \<Rightarrow> execution \<times> event list" where
  "complete_execution sj st g ex evs =
     (let ex' = ex\<lparr>current_nodes := [], status := Completed\<rparr> in
      (ex', push_event st ex' evs
        (ExecutionCompleted (state ex') (answer (pointer sj) g (state ex')))))"

definition deadline_passed :: "execution \<Rightarrow> instant \<Rightarrow> bool" where
  "deadline_passed ex now = (case deadline ex of None \<Rightarrow> False | Some d \<Rightarrow> d \<le> now)"

definition reaches_end :: "graph \<Rightarrow> active_node list \<Rightarrow> bool" where
  "reaches_end g next =
     list_ex (\<lambda>a. case graph_node g (active_id a) of Some n \<Rightarrow> is_end n | None \<Rightarrow> False) next"

text \<open>
  What follows the loop over the outputs: the failures in the order the code checks them, then
  the fan-in expansion, the iteration counter, the end, the iteration limit and the parking.
  The counter wraps as \<^verbatim>\<open>u32\<close> addition does in a release build.
\<close>

definition settle ::
  "serde \<Rightarrow> stamps \<Rightarrow> graph \<Rightarrow> bool \<Rightarrow> instant \<Rightarrow> loop_state \<Rightarrow> execution \<times> event list" where
  "settle sj st g no_outputs now s = (case s of (ex, evs, next, hard) \<Rightarrow>
     (case hard of
        Some err \<Rightarrow> fail_execution st ex evs err
      | None \<Rightarrow>
          if \<not> no_outputs \<and> exhausted (budget ex)
          then fail_execution st ex evs ''budget exhausted''
          else if \<not> no_outputs \<and> deadline_passed ex now
          then fail_execution st ex evs ''deadline exceeded''
          else
            (let next' = dedup (expand_completed_fan_ins (pointer sj) g ex next);
                 ex' = ex\<lparr>iteration := iteration ex + 1\<rparr>
             in if reaches_end g next' then complete_execution sj st g ex' evs
                else if max_iterations ex' \<le> iteration ex'
                then fail_execution st ex' evs
                  (''max_iterations ('' @ show_nat (unat (max_iterations ex')) @ '') reached'')
                else park_next st g ex' evs next')))"

definition step ::
  "serde \<Rightarrow> stamps \<Rightarrow> graph \<Rightarrow> execution \<Rightarrow> node_output list \<Rightarrow> instant \<Rightarrow>
     (execution \<times> event list) option" where
  "step sj st g ex outputs now =
     map_option (settle sj st g (outputs = []) now) (step_outputs sj st g ex outputs)"

definition interrupt :: "stamp \<Rightarrow> execution \<Rightarrow> json \<Rightarrow> (execution \<times> event) option" where
  "interrupt s ex input = do {
     st \<leftarrow> insert_field (state ex) ''interrupt_input'' input;
     let ex' = ex\<lparr>state := st, status := Ready\<rparr>;
     Some (ex', execution_event ex' s Interrupted)
   }"

end
