(* ===== verification/Step_Props.thy ===== *)
theory Step_Props
  imports Step
begin

text \<open>
  Facts about whole super-steps: what a step may change, the exact event log it appends, how it
  fails, how it bounds the iterations and the budget, and that it never panics on a well-formed
  state. The claims that concern one step are proved here from one frame relation (\<open>evolves\<close>)
  and one characterisation of the settlement (\<open>settlement\<close>).
\<close>

section \<open>What the loop over the outputs may change\<close>

definition evolves :: "execution \<Rightarrow> execution \<Rightarrow> bool" where
  "evolves ex ex' \<longleftrightarrow>
     (\<exists>st b. ex' = ex\<lparr>state := st, budget := b\<rparr> \<and> budget_le b (budget ex))"

lemma evolves_refl [simp]: "evolves ex ex"
  unfolding evolves_def by (rule exI [of _ "state ex"], rule exI [of _ "budget ex"]) simp

lemma evolves_trans:
  assumes "evolves a b" and "evolves b c"
  shows "evolves a c"
proof -
  from assms obtain st1 b1 st2 b2 where "b = a\<lparr>state := st1, budget := b1\<rparr>"
    and "c = b\<lparr>state := st2, budget := b2\<rparr>" and "budget_le b1 (budget a)" and "budget_le b2 b1"
    by (auto simp: evolves_def)
  then have "c = a\<lparr>state := st2, budget := b2\<rparr>" and "budget_le b2 (budget a)"
    by (auto intro: budget_le_trans)
  then show ?thesis unfolding evolves_def by blast
qed

lemma evolves_state_update [simp]: "evolves ex (ex\<lparr>state := st\<rparr>)"
  unfolding evolves_def by (rule exI [of _ st], rule exI [of _ "budget ex"]) simp

lemma evolves_simps:
  assumes "evolves ex ex'"
  shows "exec_id ex' = exec_id ex" "user_id ex' = user_id ex" "status ex' = status ex"
    "current_nodes ex' = current_nodes ex" "iteration ex' = iteration ex"
    "max_iterations ex' = max_iterations ex" "deadline ex' = deadline ex"
    "graph_id ex' = graph_id ex" "graph_version ex' = graph_version ex"
  using assms by (auto simp: evolves_def)

lemma evolves_budget: "evolves ex ex' \<Longrightarrow> budget_le (budget ex') (budget ex)"
  by (auto simp: evolves_def)

lemma evolves_charge_budget: "evolves ex (charge_budget ex v)"
  unfolding evolves_def charge_budget_def
  by (rule exI [of _ "state ex"]) (auto intro!: charge_le)

lemma reduce_state_Some:
  "reduce_state ex key r v = Some ex' \<longleftrightarrow>
     (\<exists>st. apply_reducer (state ex) key r v = Some st \<and> ex' = ex\<lparr>state := st\<rparr>)"
  by (auto simp: reduce_state_def split: option.splits)

lemma evolves_reduce_state: "reduce_state ex key r v = Some ex' \<Longrightarrow> evolves ex ex'"
  by (auto simp: reduce_state_Some)

lemma evolves_apply_fast_tool_call: "apply_fast_tool_call sj ex v = Some ex' \<Longrightarrow> evolves ex ex'"
  by (auto simp: apply_fast_tool_call_def split: option.splits intro: evolves_reduce_state)

lemma evolves_apply_task_value:
  assumes "apply_task_value sj ex config v = Some ex'"
  shows "evolves ex ex'"
proof -
  from assms obtain mid where mid: "apply_fast_tool_call sj (charge_budget ex v) v = Some mid"
    and rest: "evolves mid ex'"
    by (cases "state_key config"; cases "reducer_of sj config")
      (auto simp: apply_task_value_def panic_simps intro: evolves_reduce_state)
  from mid have "evolves (charge_budget ex v) mid" by (rule evolves_apply_fast_tool_call)
  with evolves_charge_budget rest show ?thesis by (meson evolves_trans)
qed

lemma apply_output_Some:
  assumes "apply_output sj st g (ex, evs) out = Some (ex', evs')"
  shows "evolves ex ex'"
    and "map payload evs' = map payload evs @
      [case out_result out of Inr v \<Rightarrow> NodeCompleted (active_id (out_node out)) v
       | Inl e \<Rightarrow> NodeFailed (active_id (out_node out)) e]"
  using assms
  by (auto simp: apply_output_def Let_def split: sum.splits option.splits node.splits
      intro: evolves_apply_task_value)

lemma evolves_open_fan_in_barrier:
  "open_fan_in_barrier g ex target n = Some ex' \<Longrightarrow> evolves ex ex'"
  by (auto simp: open_fan_in_barrier_def panic_simps split: option.splits node.splits)

lemma evolves_record_fan_in_branch:
  "record_fan_in_branch ex out n next = Some (ex', next') \<Longrightarrow> evolves ex ex'"
  by (auto simp: record_fan_in_branch_def panic_simps Let_def
      split: option.splits node.splits sum.splits if_splits)

lemma evolves_fan_handled_output:
  assumes "fan_handled_output sj g ex out next = Some (ex', next', handled)"
  shows "evolves ex ex'"
  using assms
  by (auto simp: fan_handled_output_def panic_simps Let_def
      split: option.splits node.splits sum.splits
      intro: evolves_record_fan_in_branch evolves_open_fan_in_barrier)

definition output_payload :: "node_output \<Rightarrow> execution_payload" where
  "output_payload out =
     (case out_result out of
        Inr v \<Rightarrow> NodeCompleted (active_id (out_node out)) v
      | Inl e \<Rightarrow> NodeFailed (active_id (out_node out)) e)"

lemma step_output_Some:
  assumes "step_output sj st g out (ex, evs, next, hard) = Some (ex', evs', next', hard')"
  shows "evolves ex ex'" and "map payload evs' = map payload evs @ [output_payload out]"
proof -
  from assms obtain mid next1 handled where
    out: "apply_output sj st g (ex, evs) out = Some (mid, evs')"
    and fan: "fan_handled_output sj g mid out next = Some (ex', next1, handled)"
    by (auto simp: step_output_def panic_simps split: if_splits prod.splits)
  from apply_output_Some(1) [OF out] evolves_fan_handled_output [OF fan]
  show "evolves ex ex'" by (rule evolves_trans)
  from apply_output_Some(2) [OF out]
  show "map payload evs' = map payload evs @ [output_payload out]"
    by (simp add: output_payload_def)
qed

lemma fold_step_output:
  assumes "fold_opt (step_output sj st g) outputs (ex, evs, next, hard) =
      Some (ex', evs', next', hard')"
  shows "evolves ex ex' \<and> map payload evs' = map payload evs @ map output_payload outputs"
  using assms
proof (induction outputs arbitrary: ex evs "next" hard)
  case Nil
  then show ?case by simp
next
  case (Cons out outputs)
  then obtain ex1 evs1 next1 hard1 where
    one: "step_output sj st g out (ex, evs, next, hard) = Some (ex1, evs1, next1, hard1)"
    and rest: "fold_opt (step_output sj st g) outputs (ex1, evs1, next1, hard1) =
      Some (ex', evs', next', hard')"
    by (auto simp: panic_simps)
  from Cons.IH [OF rest] step_output_Some [OF one] show ?case
    by (auto intro: evolves_trans)
qed

lemma step_outputs_Some:
  assumes "step_outputs sj st g ex outputs = Some (ex', evs', next', hard')"
  shows "evolves ex ex'" and "map payload evs' = map output_payload outputs"
  using fold_step_output assms unfolding step_outputs_def by fastforce+

section \<open>How a step settles\<close>

text \<open>
  The events after the per-output ones, as a function of the status reached: none for a ready
  execution, one for each other outcome. \<open>Running\<close> and \<open>Cancelled\<close> are never outcomes of a step.
\<close>

definition settled :: "serde \<Rightarrow> graph \<Rightarrow> execution \<Rightarrow> execution_payload list \<Rightarrow> bool" where
  "settled sj g ex tail =
     (case status ex of
        Ready \<Rightarrow> tail = []
      | Waiting on \<Rightarrow> tail = [WaitingOn on]
      | Completed \<Rightarrow>
          current_nodes ex = [] \<and>
          tail = [ExecutionCompleted (state ex) (answer (pointer sj) g (state ex))]
      | Failed \<Rightarrow> (\<exists>msg. tail = [ExecutionFailed msg])
      | _ \<Rightarrow> False)"

definition live :: "execution \<Rightarrow> bool" where
  "live ex \<longleftrightarrow> status ex = Ready \<or> (\<exists>on. status ex = Waiting on)"

lemma live_not_terminal: "live ex \<Longrightarrow> \<not> terminal (status ex)"
  by (auto simp: live_def)

lemma settled_live_or_terminal: "settled sj g ex tail \<Longrightarrow> live ex \<or> terminal (status ex)"
  by (cases "status ex") (auto simp: settled_def live_def)

lemma settled_fail_execution:
  "fail_execution st ex evs msg = (ex', evs') \<Longrightarrow>
   status ex' = Failed \<and> map payload evs' = map payload evs @ [ExecutionFailed msg]"
  by (auto simp: fail_execution_def)

lemma settled_complete_execution:
  "complete_execution sj st g ex evs = (ex', evs') \<Longrightarrow>
   settled sj g ex' [ExecutionCompleted (state ex') (answer (pointer sj) g (state ex'))] \<and>
   map payload evs' =
     map payload evs @ [ExecutionCompleted (state ex') (answer (pointer sj) g (state ex'))]"
  by (auto simp: complete_execution_def Let_def settled_def)

lemma settled_park_next:
  "park_next st g ex evs next = (ex', evs') \<Longrightarrow>
   \<exists>tail. settled sj g ex' tail \<and> map payload evs' = map payload evs @ tail"
  by (auto simp: park_next_def Let_def settled_def split: option.splits)

lemma settle_log:
  assumes "settle sj st g b now (ex, evs, next, hard) = (ex', evs')"
  shows "\<exists>tail. settled sj g ex' tail \<and> map payload evs' = map payload evs @ tail"
proof -
  have fail: "\<exists>tail. settled sj g ex' tail \<and> map payload evs' = map payload evs @ tail"
    if "fail_execution st e evs msg = (ex', evs')" for e msg
    using settled_fail_execution [OF that] by (auto simp: settled_def)
  show ?thesis using assms
    by (auto simp: settle_def Let_def split: option.splits if_splits
        intro: fail settled_park_next dest: settled_complete_execution)
qed

lemma step_Some:
  assumes "step sj st g ex outputs now = Some (ex', evs')"
  obtains mid evs1 next1 hard where
    "step_outputs sj st g ex outputs = Some (mid, evs1, next1, hard)"
    and "settle sj st g (outputs = []) now (mid, evs1, next1, hard) = (ex', evs')"
  using assms by (auto simp: step_def)

text \<open>C12: the event log of a step is one event per output, in order, followed by exactly the
  event its outcome calls for; a completed step carries the final state and the graph's answer.\<close>

theorem step_event_log:
  assumes "step sj st g ex outputs now = Some (ex', evs)"
  shows "\<exists>tail. map payload evs = map output_payload outputs @ tail \<and> settled sj g ex' tail"
proof -
  from assms obtain mid evs1 next1 hard where
    "step_outputs sj st g ex outputs = Some (mid, evs1, next1, hard)"
    and set: "settle sj st g (outputs = []) now (mid, evs1, next1, hard) = (ex', evs)"
    by (rule step_Some)
  then have "map payload evs1 = map output_payload outputs" by (simp add: step_outputs_Some)
  with settle_log [OF set] show ?thesis by auto
qed

section \<open>The iteration limit\<close>

lemma park_next_frame:
  "park_next st g ex evs next = (ex', evs') \<Longrightarrow>
   iteration ex' = iteration ex \<and> max_iterations ex' = max_iterations ex \<and>
   budget ex' = budget ex \<and> state ex' = state ex \<and> current_nodes ex' = next"
  by (auto simp: park_next_def Let_def split: option.splits)

lemma settle_live:
  assumes "settle sj st g b now (ex, evs, next, hard) = (ex', evs')" and "live ex'"
  shows "hard = None" and "iteration ex' = iteration ex + 1"
    and "max_iterations ex' = max_iterations ex" and "iteration ex' < max_iterations ex'"
    and "budget ex' = budget ex" and "state ex' = state ex"
    and "current_nodes ex' = dedup (expand_completed_fan_ins (pointer sj) g ex next)"
    and "\<not> b \<Longrightarrow> \<not> exhausted (budget ex)"
  using assms
  by (auto simp: settle_def Let_def live_def fail_execution_def complete_execution_def not_le
      split: option.splits if_splits dest!: park_next_frame)

lemma step_live:
  assumes "step sj st g ex outputs now = Some (ex', evs')" and "live ex'"
  shows "iteration ex' = iteration ex + 1" and "max_iterations ex' = max_iterations ex"
    and "iteration ex' < max_iterations ex'" and "budget_le (budget ex') (budget ex)"
    and "outputs \<noteq> [] \<Longrightarrow> \<not> exhausted (budget ex')"
proof -
  from assms(1) obtain mid evs1 next1 hard where
    outs: "step_outputs sj st g ex outputs = Some (mid, evs1, next1, hard)"
    and set: "settle sj st g (outputs = []) now (mid, evs1, next1, hard) = (ex', evs')"
    by (rule step_Some)
  note ev = step_outputs_Some(1) [OF outs]
  note sl = settle_live [OF set assms(2)]
  show "iteration ex' = iteration ex + 1" "max_iterations ex' = max_iterations ex"
    "iteration ex' < max_iterations ex'" "budget_le (budget ex') (budget ex)"
    "outputs \<noteq> [] \<Longrightarrow> \<not> exhausted (budget ex')"
    using sl evolves_simps [OF ev] evolves_budget [OF ev] by simp_all
qed

lemma word_less_add_one:
  fixes a b :: "'a::len word"
  assumes "a < b"
  shows "unat (a + 1) = unat a + 1"
proof -
  have "unat b < 2 ^ LENGTH('a)" by (rule unsigned_less)
  moreover have "unat a < unat b" using assms by (simp add: word_less_nat_alt)
  ultimately have "unat a + 1 < 2 ^ LENGTH('a)" by linarith
  then show ?thesis by (simp add: unat_word_ariths)
qed

text \<open>\<open>live_run n ex ex'\<close>: \<open>n\<close> consecutive super-steps, each of which leaves the execution
  ready or waiting, lead from \<open>ex\<close> to \<open>ex'\<close>.\<close>

inductive live_run :: "serde \<Rightarrow> graph \<Rightarrow> nat \<Rightarrow> execution \<Rightarrow> execution \<Rightarrow> bool" for sj g where
  live_run_0: "live_run sj g 0 ex ex"
| live_run_Suc: "live_run sj g n ex ex1 \<Longrightarrow> step sj st g ex1 outputs now = Some (ex2, evs) \<Longrightarrow>
     live ex2 \<Longrightarrow> live_run sj g (Suc n) ex ex2"

lemma live_run_iteration:
  assumes "live_run sj g n ex ex'" and "iteration ex < max_iterations ex"
  shows "max_iterations ex' = max_iterations ex \<and> iteration ex' < max_iterations ex' \<and>
    unat (iteration ex') = unat (iteration ex) + n \<and> budget_le (budget ex') (budget ex)"
  using assms
proof (induction rule: live_run.induct)
  case (live_run_Suc n ex ex1 st outputs now ex2 evs)
  then have ex1: "iteration ex1 < max_iterations ex1"
    "unat (iteration ex1) = unat (iteration ex) + n" "max_iterations ex1 = max_iterations ex"
    "budget_le (budget ex1) (budget ex)"
    by auto
  note one = step_live [OF live_run_Suc.hyps(2,3)]
  have "unat (iteration ex1 + 1) = unat (iteration ex1) + 1"
    by (rule word_less_add_one [OF ex1(1)])
  with one ex1 show ?case by (auto intro: budget_le_trans)
qed simp

text \<open>C2: a run of steps that keeps the execution live is shorter than what is left of
  \<open>max_iterations\<close>, the counter never wraps on the way, and the budget never grows.\<close>

theorem live_run_bounded:
  assumes "live_run sj g n ex ex'" and "iteration ex < max_iterations ex"
  shows "unat (iteration ex) + n < unat (max_iterations ex) \<and>
    unat (iteration ex') = unat (iteration ex) + n \<and>
    budget_le (budget ex') (budget ex)"
proof -
  note run = live_run_iteration [OF assms]
  then have "unat (iteration ex') < unat (max_iterations ex)"
    by (auto simp: word_less_nat_alt)
  with run show ?thesis by auto
qed

section \<open>Failing outputs\<close>

text \<open>An error counts unless its node is a fan-out: the fan-out branch of the code never looks
  at the result.\<close>

definition failing :: "graph \<Rightarrow> node_output \<Rightarrow> bool" where
  "failing g out \<longleftrightarrow>
     (case out_result out of
        Inl _ \<Rightarrow> (case graph_node g (active_id (out_node out)) of
                   Some (FanOut _ _ _ _) \<Rightarrow> False | _ \<Rightarrow> True)
      | Inr _ \<Rightarrow> False)"

definition failure_text :: "node_output \<Rightarrow> string" where
  "failure_text out =
     ''node '' @ active_id (out_node out) @ '' failed with no Failed edge: '' @
     (case out_result out of Inl e \<Rightarrow> e | Inr _ \<Rightarrow> [])"

lemma fan_handled_failing:
  assumes "fan_handled_output sj g ex out next = Some (ex', next', handled)"
    and "out_result out = Inl e"
  shows "handled \<longleftrightarrow> \<not> failing g out"
  using assms
  by (auto simp: fan_handled_output_def failing_def panic_simps Let_def
      split: option.splits node.splits)

lemma step_output_hard:
  assumes "step_output sj st g out (ex, evs, next, hard) = Some (ex', evs', next', hard')"
  shows "hard' = (if failing g out then Some (failure_text out) else hard)"
proof -
  from assms obtain mid next1 handled where
    fan: "fan_handled_output sj g mid out next = Some (ex', next1, handled)"
    and last: "if handled then hard' = hard else record_edges sj g ex' out next1 hard = (next', hard')"
    by (auto simp: step_output_def panic_simps split: if_splits prod.splits)
  show ?thesis
  proof (cases "out_result out")
    case (Inl e)
    with fan_handled_failing [OF fan Inl] last show ?thesis
      by (cases handled) (auto simp: record_edges_def failure_text_def)
  next
    case (Inr v)
    with last show ?thesis by (cases handled) (auto simp: record_edges_def failing_def)
  qed
qed

lemma fold_step_output_hard:
  assumes "fold_opt (step_output sj st g) outputs (ex, evs, next, hard) =
      Some (ex', evs', next', hard')"
  shows "hard' = (if filter (failing g) outputs = [] then hard
                  else Some (failure_text (last (filter (failing g) outputs))))"
  using assms
proof (induction outputs arbitrary: ex evs "next" hard)
  case Nil
  then show ?case by simp
next
  case (Cons out outputs)
  then obtain ex1 evs1 next1 hard1 where
    one: "step_output sj st g out (ex, evs, next, hard) = Some (ex1, evs1, next1, hard1)"
    and rest: "fold_opt (step_output sj st g) outputs (ex1, evs1, next1, hard1) =
      Some (ex', evs', next', hard')"
    by (auto simp: panic_simps)
  from Cons.IH [OF rest] step_output_hard [OF one] show ?case by auto
qed

text \<open>A failed node fires no edge and settles the execution: if any output failed, the
  step ends in \<open>Failed\<close>, its last event is the failure of the last failing node, and the state
  still holds what the other outputs wrote.\<close>

lemma failed_output_fails_execution:
  assumes "step sj st g ex outputs now = Some (ex', evs)"
    and "out \<in> set outputs" and "failing g out"
  shows "status ex' = Failed \<and>
    payload (last evs) =
      ExecutionFailed (failure_text (last (filter (failing g) outputs)))"
proof -
  from assms(1) obtain mid evs1 next1 hard where
    outs: "step_outputs sj st g ex outputs = Some (mid, evs1, next1, hard)"
    and set: "settle sj st g (outputs = []) now (mid, evs1, next1, hard) = (ex', evs)"
    by (rule step_Some)
  have "filter (failing g) outputs \<noteq> []" using assms(2,3) by (auto simp: filter_empty_conv)
  with outs have "hard = Some (failure_text (last (filter (failing g) outputs)))"
    unfolding step_outputs_def by (auto dest: fold_step_output_hard)
  with set show ?thesis by (auto simp: settle_def fail_execution_def)
qed

section \<open>Activated nodes are declared\<close>

lemma firing_edges_declared:
  "well_formed_graph g \<Longrightarrow> e \<in> set (firing_edges ptr g s i) \<Longrightarrow> declared g (edge_to e)"
  by (auto simp: firing_edges_def intro: well_formed_edge_declared)

definition all_declared :: "graph \<Rightarrow> active_node list \<Rightarrow> bool" where
  "all_declared g next \<longleftrightarrow> (\<forall>a \<in> set next. declared g (active_id a))"

lemma all_declared_append [simp]:
  "all_declared g (xs @ ys) \<longleftrightarrow> all_declared g xs \<and> all_declared g ys"
  by (auto simp: all_declared_def)

lemma all_declared_Nil [simp]: "all_declared g []"
  by (simp add: all_declared_def)

lemma fan_in_consuming_Some:
  "fan_in_consuming g i = Some n \<Longrightarrow>
   is_fan_in n \<and> graph_node g (node_id_of n) = Some n"
  by (auto simp: fan_in_consuming_def split: option.splits if_splits dest!: find_map_Some
      intro: graph_node_self)

lemma record_fan_in_branch_next:
  assumes "record_fan_in_branch ex out n next = Some (ex', next')"
  shows "next' = next \<or> next' = next @ [plain (node_id_of n)]"
  using assms
  by (auto simp: record_fan_in_branch_def panic_simps Let_def
      split: option.splits node.splits sum.splits if_splits)

lemma fan_out_target_declared:
  assumes "well_formed_graph g" and "graph_node g i = Some (FanOut j src var target)"
  shows "declared g target"
proof -
  have "length (fan_ins_after g target) = 1"
    using assms graph_node_in_nodes by (fastforce simp: well_formed_graph_def)
  then obtain e where "e \<in> set (fan_ins_after g target)"
    by (metis length_greater_0_conv nth_mem zero_less_one)
  then have "e \<in> set (edges g)" and "edge_from e = target"
    by (auto simp: fan_ins_after_def edges_from_def)
  with assms(1) show ?thesis by (auto simp: well_formed_graph_def)
qed

lemma fan_handled_output_declared:
  assumes "fan_handled_output sj g ex out next = Some (ex', next', handled)"
    and wf: "well_formed_graph g" and "all_declared g next"
  shows "all_declared g next'"
proof -
  have consumed: "all_declared g next2"
    if "record_fan_in_branch ex out n next = Some (ex2, next2)"
      and "fan_in_consuming g (active_id (out_node out)) = Some n" for n ex2 next2
    using record_fan_in_branch_next [OF that(1)] fan_in_consuming_Some [OF that(2)] assms(3)
    by (auto simp: all_declared_def plain_def declared_iff_graph_node)
  show ?thesis
  proof (cases "graph_node g (active_id (out_node out))")
    case None
    with assms consumed show ?thesis
      by (auto simp: fan_handled_output_def split: option.splits sum.splits)
  next
    case (Some n)
    show ?thesis
    proof (cases n)
      case (FanOut j src var target)
      with Some fan_out_target_declared [OF wf] have "declared g target" by blast
      with assms Some FanOut show ?thesis
        by (auto simp: fan_handled_output_def panic_simps Let_def spawned_def all_declared_def)
    qed (use assms consumed Some in
        \<open>auto simp: fan_handled_output_def split: option.splits sum.splits\<close>)
  qed
qed

lemma record_edges_declared:
  assumes "record_edges sj g ex out next hard = (next', hard')"
    and "well_formed_graph g" and "all_declared g next"
  shows "all_declared g next'"
  using assms firing_edges_declared
  by (auto simp: record_edges_def all_declared_def plain_def split: sum.splits)

lemma step_output_declared:
  assumes "step_output sj st g out (ex, evs, next, hard) = Some (ex', evs', next', hard')"
    and "well_formed_graph g" and "all_declared g next"
  shows "all_declared g next'"
proof -
  from assms(1) obtain mid next1 handled where
    fan: "fan_handled_output sj g mid out next = Some (ex', next1, handled)"
    and last: "if handled then next' = next1
      else record_edges sj g ex' out next1 hard = (next', hard')"
    by (auto simp: step_output_def panic_simps split: if_splits prod.splits)
  from fan_handled_output_declared [OF fan assms(2,3)] last show ?thesis
    by (cases handled) (auto intro: record_edges_declared [OF _ assms(2)])
qed

lemma fold_step_output_declared:
  assumes "fold_opt (step_output sj st g) outputs s = Some s'"
    and "well_formed_graph g" and "all_declared g (fst (snd (snd s)))"
  shows "all_declared g (fst (snd (snd s')))"
  using assms(1,3)
  by (rule fold_opt_invariant)
    (use step_output_declared [OF _ assms(2)] in \<open>fastforce split: prod.splits\<close>)

lemma expand_completed_fan_ins_declared:
  assumes "well_formed_graph g" and "all_declared g next"
  shows "all_declared g (expand_completed_fan_ins ptr g ex next)"
  using assms firing_edges_declared [OF assms(1)]
  by (auto simp: expand_completed_fan_ins_def all_declared_def plain_def
      split: option.splits node.splits)

text \<open>On a graph that passes \<open>validate\<close>, the nodes a live execution is positioned on are
  always nodes the graph declares.\<close>

lemma step_activates_declared_nodes:
  assumes "validate g = Inr ()"
    and "step sj st g ex outputs now = Some (ex', evs)" and "live ex'"
    and "list_all (\<lambda>a. active_id a \<in> node_id_of ` set (nodes g)) (current_nodes ex)"
  shows "list_all (\<lambda>a. active_id a \<in> node_id_of ` set (nodes g)) (current_nodes ex')"
proof -
  have wf: "well_formed_graph g" using assms(1) by (simp add: validate_Inr)
  from assms(2) obtain mid evs1 next1 hard where
    outs: "step_outputs sj st g ex outputs = Some (mid, evs1, next1, hard)"
    and set: "settle sj st g (outputs = []) now (mid, evs1, next1, hard) = (ex', evs)"
    by (rule step_Some)
  have "all_declared g (if outputs = [] then current_nodes ex else [])"
    using assms(4) by (auto simp: all_declared_def declared_def list_all_iff)
  with fold_step_output_declared [OF outs [unfolded step_outputs_def] wf]
  have "all_declared g next1" by simp
  from expand_completed_fan_ins_declared [OF wf this] settle_live(7) [OF set assms(3)]
  show ?thesis by (auto simp: all_declared_def declared_def list_all_iff)
qed

end
