(* ===== verification/Codecs.thy ===== *)
theory Codecs
  imports Execution
begin

text \<open>
  The contract of \<^verbatim>\<open>serde_json\<close> that the engine relies on, as two locales: \<open>json_pointer\<close> for
  pointer resolution along plain keys and \<open>serde_laws\<close> for the derived codecs (each decoder
  reads back what its encoder wrote; a reducer is its variant name). The executable instance
  \<open>ref_serde\<close> follows RFC 6901 and serde's documented representation of structs and externally
  tagged enums; it interprets both locales and is what the witnesses compute with.
\<close>

section \<open>The contracts\<close>

text \<open>A plain key: letters and underscores, so neither an escape nor an array index.\<close>

definition plain_key :: "string \<Rightarrow> bool" where
  "plain_key k \<longleftrightarrow>
     k \<noteq> [] \<and> list_all (\<lambda>c. c = CHR ''_'' \<or> (97 \<le> (of_char c :: nat) \<and> (of_char c :: nat) \<le> 122)) k"

locale json_pointer =
  fixes ptr :: pointer_fun
  assumes ptr_field: "plain_key k \<Longrightarrow> ptr st (CHR ''/'' # k) = get st k"
    and ptr_field2: "plain_key k \<Longrightarrow> plain_key k' \<Longrightarrow>
      ptr st (CHR ''/'' # k @ CHR ''/'' # k') = Option.bind (get st k) (\<lambda>v. get v k')"
begin

lemma llm_reply: "ptr st llm_reply_pointer = Option.bind (get st LLM_STATE_KEY) (\<lambda>v. get v REPLY_FIELD)"
proof -
  have "plain_key LLM_STATE_KEY" and "plain_key REPLY_FIELD"
    by (simp_all add: plain_key_def state_keys)
  from ptr_field2 [OF this] show ?thesis by (simp add: llm_reply_pointer_def)
qed

lemma llm_tool_call:
  "ptr st llm_tool_call_pointer = Option.bind (get st LLM_STATE_KEY) (\<lambda>v. get v TOOL_CALL_FIELD)"
proof -
  have "plain_key LLM_STATE_KEY" and "plain_key TOOL_CALL_FIELD"
    by (simp_all add: plain_key_def state_keys)
  from ptr_field2 [OF this] show ?thesis by (simp add: llm_tool_call_pointer_def)
qed

end

locale serde_laws = json_pointer "pointer sj" for sj :: serde +
  assumes reducer_names:
      "read_reducer sj (String ''Replace'') = Some Replace"
      "read_reducer sj (String ''Append'') = Some Append"
      "read_reducer sj (String ''AppendEach'') = Some AppendEach"
      "read_reducer sj (String ''Merge'') = Some Merge"
    and tool_record_inverse: "read_tool_record sj (write_tool_record sj r) = Some r"
    and wait_kind_inverse: "read_wait_kind sj (write_wait_kind sj w) = Some w"
    and active_nodes_inverse: "read_active_nodes sj (write_active_nodes sj ns) = Some ns"
    and budget_inverse: "read_budget sj (write_budget sj b) =
      Some (b\<lparr>wall_time_remaining := duration_millis_deserialize
        (duration_millis_serialize (wall_time_remaining b))\<rparr>)"
    and payload_inverse: "read_payload sj (write_payload sj p) = Some p"
    and graph_inverse: "read_graph sj (write_graph sj g) = Some g"
begin

text \<open>A budget that has been stored and reloaded is never larger than the original.\<close>

lemma reloaded_budget_le: "read_budget sj (write_budget sj b) = Some b' \<Longrightarrow> budget_le b' b"
  by (auto simp: budget_inverse budget_le_def duration_millis_roundtrip_le)

text \<open>From the second storing on, nothing changes any more.\<close>

lemma reloaded_budget_stable:
  assumes "read_budget sj (write_budget sj b) = Some b'"
  shows "read_budget sj (write_budget sj b') = Some b'"
  using assms by (auto simp: budget_inverse duration_millis_deserialize_inverse)

end

section \<open>A reference instance\<close>

fun split_slash :: "string \<Rightarrow> string list" where
  "split_slash [] = [[]]"
| "split_slash (c # cs) =
     (if c = CHR ''/'' then [] # split_slash cs
      else (case split_slash cs of [] \<Rightarrow> [[c]] | t # ts \<Rightarrow> (c # t) # ts))"

fun unescape :: "string \<Rightarrow> string" where
  "unescape (CHR ''~'' # CHR ''1'' # cs) = CHR ''/'' # unescape cs"
| "unescape (CHR ''~'' # CHR ''0'' # cs) = CHR ''~'' # unescape cs"
| "unescape (c # cs) = c # unescape cs"
| "unescape [] = []"

definition is_digit :: "char \<Rightarrow> bool" where
  "is_digit c \<longleftrightarrow> 48 \<le> (of_char c :: nat) \<and> (of_char c :: nat) \<le> 57"

definition parse_index :: "string \<Rightarrow> nat option" where
  "parse_index t =
     (if t = [] \<or> \<not> list_all is_digit t \<or> (hd t = CHR ''0'' \<and> length t \<noteq> 1) then None
      else Some (foldl (\<lambda>n c. 10 * n + (of_char c - 48)) 0 t))"

definition child :: "json \<Rightarrow> string \<Rightarrow> json option" where
  "child v t =
     (case v of
        Object m \<Rightarrow> fmlookup m t
      | Array xs \<Rightarrow>
          (case parse_index t of
             Some i \<Rightarrow> if i < length xs then Some (xs ! i) else None
           | None \<Rightarrow> None)
      | _ \<Rightarrow> None)"

fun descend :: "json \<Rightarrow> string list \<Rightarrow> json option" where
  "descend v [] = Some v"
| "descend v (t # ts) = Option.bind (child v (unescape t)) (\<lambda>w. descend w ts)"

fun ref_pointer :: pointer_fun where
  "ref_pointer v [] = Some v"
| "ref_pointer v (c # cs) = (if c = CHR ''/'' then descend v (split_slash cs) else None)"

definition nat_json :: "u64 \<Rightarrow> json" where "nat_json n = Number (PosInt n)"

text \<open>An instant is read and written through a number; only its round trip matters.\<close>

definition int_json :: "int \<Rightarrow> json" where "int_json i = Number (Float (of_int i))"

fun read_int :: "json \<Rightarrow> int option" where
  "read_int (Number (Float r)) = Some \<lfloor>r\<rfloor>"
| "read_int _ = None"

fun ref_write_wait_kind :: "wait_kind \<Rightarrow> json" where
  "ref_write_wait_kind (Approval risk) = json_object [(''Approval'', json_object [(''risk'', String risk)])]"
| "ref_write_wait_kind (ExternalEvent key) = json_object [(''ExternalEvent'', json_object [(''key'', String key)])]"
| "ref_write_wait_kind UserInput = String ''UserInput''"
| "ref_write_wait_kind (Timer until) = json_object [(''Timer'', json_object [(''until'', int_json until)])]"

definition ref_read_wait_kind :: "json \<Rightarrow> wait_kind option" where
  "ref_read_wait_kind v =
     (if v = String ''UserInput'' then Some UserInput
      else case get v ''Approval'' of
        Some w \<Rightarrow> map_option Approval (Option.bind (get w ''risk'') as_str)
      | None \<Rightarrow>
          (case get v ''ExternalEvent'' of
             Some w \<Rightarrow> map_option ExternalEvent (Option.bind (get w ''key'') as_str)
           | None \<Rightarrow>
               (case get v ''Timer'' of
                  Some w \<Rightarrow> map_option Timer (Option.bind (get w ''until'') read_int)
                | None \<Rightarrow> None)))"

definition ref_write_active_node :: "active_node \<Rightarrow> json" where
  "ref_write_active_node a =
     json_object [(''node'', String (active_id a)),
          (''branch'', case branch a of None \<Rightarrow> Null | Some b \<Rightarrow> nat_json (ucast b))]"

definition ref_read_active_node :: "json \<Rightarrow> active_node option" where
  "ref_read_active_node v = do {
     i \<leftarrow> Option.bind (get v ''node'') as_str;
     (case get v ''branch'' of
        None \<Rightarrow> Some \<lparr>active_id = i, branch = None\<rparr>
      | Some Null \<Rightarrow> Some \<lparr>active_id = i, branch = None\<rparr>
      | Some w \<Rightarrow> map_option (\<lambda>n. \<lparr>active_id = i, branch = Some (ucast n)\<rparr>)
          (Option.bind (as_u64 w) (\<lambda>n. if unat n < 2 ^ 32 then Some n else None)))
   }"

fun traverse :: "('a \<Rightarrow> 'b option) \<Rightarrow> 'a list \<Rightarrow> 'b list option" where
  "traverse f [] = Some []"
| "traverse f (x # xs) = do { y \<leftarrow> f x; ys \<leftarrow> traverse f xs; Some (y # ys) }"

definition ref_write_budget :: "budget \<Rightarrow> json" where
  "ref_write_budget b =
     json_object [(''tokens_remaining'', nat_json (ucast (tokens_remaining b))),
          (''tool_calls_remaining'', nat_json (ucast (tool_calls_remaining b))),
          (''wall_time_remaining'', nat_json (duration_millis_serialize (wall_time_remaining b)))]"

definition ref_read_budget :: "json \<Rightarrow> budget option" where
  "ref_read_budget v = do {
     t \<leftarrow> Option.bind (get v ''tokens_remaining'') as_u64;
     c \<leftarrow> Option.bind (get v ''tool_calls_remaining'') as_u64;
     w \<leftarrow> Option.bind (get v ''wall_time_remaining'') as_u64;
     (if unat t < 2 ^ 32 \<and> unat c < 2 ^ 32
      then Some (budget_new (ucast t) (ucast c) (duration_millis_deserialize w)) else None)
   }"

definition ref_write_tool_record :: "tool_record \<Rightarrow> json" where
  "ref_write_tool_record r =
     json_object [(''name'', String (rec_name r)), (''args'', rec_args r), (''result'', rec_result r),
          (''fetched_at'', String (fetched_at r))]"

definition ref_read_tool_record :: "json \<Rightarrow> tool_record option" where
  "ref_read_tool_record v = do {
     n \<leftarrow> Option.bind (get v ''name'') as_str;
     res \<leftarrow> get v ''result'';
     stamp \<leftarrow> (case get v ''fetched_at'' of None \<Rightarrow> Some [] | Some w \<Rightarrow> as_str w);
     Some \<lparr>rec_name = n, rec_args = (case get v ''args'' of None \<Rightarrow> Null | Some a \<Rightarrow> a),
           rec_result = res, fetched_at = stamp\<rparr>
   }"

definition ref_read_reducer :: "json \<Rightarrow> reducer option" where
  "ref_read_reducer v =
     (if v = String ''Replace'' then Some Replace
      else if v = String ''Append'' then Some Append
      else if v = String ''AppendEach'' then Some AppendEach
      else if v = String ''Merge'' then Some Merge else None)"

definition ref_read_llm_output :: "json \<Rightarrow> llm_output option" where
  "ref_read_llm_output v =
     (if is_object v
      then Some \<lparr>out_tool_call = (case get v ''tool_call'' of None \<Rightarrow> Null | Some w \<Rightarrow> w),
                 out_reply = (case get v ''reply'' of None \<Rightarrow> Null | Some w \<Rightarrow> w)\<rparr>
      else None)"

text \<open>
  Conditions, nodes and payloads are written as tagged arrays; the derived form is a tagged
  object, and only that the decoder inverts the encoder is used of it.
\<close>

fun tagged :: "string \<Rightarrow> json list \<Rightarrow> json" where
  "tagged tag args = Array (String tag # args)"

fun opt_json :: "('a \<Rightarrow> json) \<Rightarrow> 'a option \<Rightarrow> json" where
  "opt_json f None = Null"
| "opt_json f (Some x) = Array [f x]"

fun read_opt :: "(json \<Rightarrow> 'a option) \<Rightarrow> json \<Rightarrow> 'a option option" where
  "read_opt f Null = Some None"
| "read_opt f (Array [v]) = map_option Some (f v)"
| "read_opt f _ = None"

fun write_condition :: "condition \<Rightarrow> json" where
  "write_condition CAlways = tagged ''Always'' []"
| "write_condition (CTruthy p) = tagged ''Truthy'' [String p]"
| "write_condition (CEq p v) = tagged ''Eq'' [String p, v]"
| "write_condition (CExists p) = tagged ''Exists'' [String p]"
| "write_condition (CNot c) = tagged ''Not'' [write_condition c]"
| "write_condition (CAnd cs) = tagged ''And'' (map write_condition cs)"
| "write_condition (COr cs) = tagged ''Or'' (map write_condition cs)"

fun collect :: "'a option list \<Rightarrow> 'a list option" where
  "collect [] = Some []"
| "collect (x # xs) = do { y \<leftarrow> x; ys \<leftarrow> collect xs; Some (y # ys) }"

fun read_condition :: "json \<Rightarrow> condition option" where
  "read_condition (Array (String tag # args)) =
     (if tag = ''Always'' then Some CAlways
      else if tag = ''Truthy'' then
        (case args of [String p] \<Rightarrow> Some (CTruthy p) | _ \<Rightarrow> None)
      else if tag = ''Eq'' then
        (case args of [String p, v] \<Rightarrow> Some (CEq p v) | _ \<Rightarrow> None)
      else if tag = ''Exists'' then
        (case args of [String p] \<Rightarrow> Some (CExists p) | _ \<Rightarrow> None)
      else if tag = ''Not'' then
        (case map read_condition args of [Some c] \<Rightarrow> Some (CNot c) | _ \<Rightarrow> None)
      else if tag = ''And'' then map_option CAnd (collect (map read_condition args))
      else if tag = ''Or'' then map_option COr (collect (map read_condition args))
      else None)"
| "read_condition _ = None"

fun write_node :: "node \<Rightarrow> json" where
  "write_node (Task i k c) = tagged ''Task'' [String i, String k, c]"
| "write_node (FanOut i s v t) = tagged ''FanOut'' [String i, String s, String v, String t]"
| "write_node (FanIn i k r) = tagged ''FanIn'' [String i, String k,
     String (case r of Replace \<Rightarrow> ''Replace'' | Append \<Rightarrow> ''Append''
       | AppendEach \<Rightarrow> ''AppendEach'' | Merge \<Rightarrow> ''Merge'')]"
| "write_node (Subgraph i gi v inp out) = tagged ''Subgraph'' [String i, String gi,
     opt_json (\<lambda>n. nat_json (ucast n)) v, String inp, String out]"
| "write_node (Wait i on) = tagged ''Wait'' [String i, ref_write_wait_kind on]"
| "write_node (End i) = tagged ''End'' [String i]"

definition read_u32 :: "json \<Rightarrow> u32 option" where
  "read_u32 v = Option.bind (as_u64 v) (\<lambda>n. if unat n < 2 ^ 32 then Some (ucast n) else None)"

fun untag :: "json \<Rightarrow> (string \<times> json list) option" where
  "untag (Array (String tag # args)) = Some (tag, args)"
| "untag _ = None"

definition read_subgraph :: "json list \<Rightarrow> node option" where
  "read_subgraph args =
     (case args of
        [i, g, v, inp, out] \<Rightarrow> do {
          i \<leftarrow> as_str i; g \<leftarrow> as_str g; n \<leftarrow> read_opt read_u32 v;
          inp \<leftarrow> as_str inp; out \<leftarrow> as_str out; Some (Subgraph i g n inp out) }
      | _ \<Rightarrow> None)"

definition read_fan_out :: "json list \<Rightarrow> node option" where
  "read_fan_out args =
     (case args of
        [i, s, v, t] \<Rightarrow> do {
          i \<leftarrow> as_str i; s \<leftarrow> as_str s; v \<leftarrow> as_str v; t \<leftarrow> as_str t; Some (FanOut i s v t) }
      | _ \<Rightarrow> None)"

definition read_three :: "(node_id \<Rightarrow> string \<Rightarrow> json \<Rightarrow> node option) \<Rightarrow> json list \<Rightarrow> node option" where
  "read_three f args =
     (case args of [i, k, c] \<Rightarrow> do { i \<leftarrow> as_str i; k \<leftarrow> as_str k; f i k c } | _ \<Rightarrow> None)"

definition read_node_args :: "string \<Rightarrow> json list \<Rightarrow> node option" where
  "read_node_args tag args =
     (if tag = ''Task'' then read_three (\<lambda>i k c. Some (Task i k c)) args
      else if tag = ''FanIn''
      then read_three (\<lambda>i k c. map_option (FanIn i k) (ref_read_reducer c)) args
      else if tag = ''FanOut'' then read_fan_out args
      else if tag = ''Subgraph'' then read_subgraph args
      else if tag = ''Wait''
      then (case args of
              [i, w] \<Rightarrow> Option.bind (as_str i) (\<lambda>i. map_option (Wait i) (ref_read_wait_kind w))
            | _ \<Rightarrow> None)
      else if tag = ''End'' then (case args of [i] \<Rightarrow> map_option End (as_str i) | _ \<Rightarrow> None)
      else None)"

definition read_node :: "json \<Rightarrow> node option" where
  "read_node v = Option.bind (untag v) (\<lambda>(tag, args). read_node_args tag args)"

definition write_edge :: "edge \<Rightarrow> json" where
  "write_edge e = Array [String (edge_from e), String (edge_to e), write_condition (edge_condition e)]"

fun read_edge :: "json \<Rightarrow> edge option" where
  "read_edge (Array [String a, String z, c]) =
     map_option (\<lambda>c. \<lparr>edge_from = a, edge_to = z, edge_condition = c\<rparr>) (read_condition c)"
| "read_edge _ = None"

definition uuid_json :: "uuid \<Rightarrow> json" where
  "uuid_json u = int_json (uint u)"

definition read_uuid :: "json \<Rightarrow> uuid option" where
  "read_uuid v = map_option of_int (read_int v)"

definition ref_write_graph :: "graph \<Rightarrow> json" where
  "ref_write_graph g = json_object
     [(''id'', String (g_id g)), (''version'', nat_json (ucast (g_version g))),
      (''user_id'', opt_json uuid_json (g_user_id g)),
      (''nodes'', Array (map write_node (nodes g))),
      (''edges'', Array (map write_edge (edges g))), (''entry'', String (entry g)),
      (''answer_pointer'', opt_json String (answer_pointer g))]"

definition ref_read_graph :: "json \<Rightarrow> graph option" where
  "ref_read_graph v = do {
     i \<leftarrow> Option.bind (get v ''id'') as_str;
     n \<leftarrow> Option.bind (get v ''version'') read_u32;
     u \<leftarrow> Option.bind (get v ''user_id'') (read_opt read_uuid);
     ns \<leftarrow> Option.bind (Option.bind (get v ''nodes'') as_array) (traverse read_node);
     es \<leftarrow> Option.bind (Option.bind (get v ''edges'') as_array) (traverse read_edge);
     e \<leftarrow> Option.bind (get v ''entry'') as_str;
     a \<leftarrow> (case get v ''answer_pointer'' of None \<Rightarrow> Some None | Some w \<Rightarrow> read_opt as_str w);
     Some \<lparr>g_id = i, g_version = n, g_user_id = u, nodes = ns, edges = es, entry = e,
           answer_pointer = a\<rparr>
   }"

fun ref_write_payload :: "execution_payload \<Rightarrow> json" where
  "ref_write_payload ExecutionStarted = tagged ''ExecutionStarted'' []"
| "ref_write_payload (NodeStarted n) = tagged ''NodeStarted'' [String n]"
| "ref_write_payload (NodeCompleted n v) = tagged ''NodeCompleted'' [String n, v]"
| "ref_write_payload (NodeFailed n e) = tagged ''NodeFailed'' [String n, String e]"
| "ref_write_payload (TaskOutput n v) = tagged ''TaskOutput'' [String n, v]"
| "ref_write_payload (WaitingOn w) = tagged ''Waiting'' [ref_write_wait_kind w]"
| "ref_write_payload Resumed = tagged ''Resumed'' []"
| "ref_write_payload Interrupted = tagged ''Interrupted'' []"
| "ref_write_payload (ExecutionCompleted s r) =
     tagged ''ExecutionCompleted'' [s, opt_json (\<lambda>v. v) r]"
| "ref_write_payload (ExecutionFailed e) = tagged ''ExecutionFailed'' [String e]"
| "ref_write_payload ExecutionCancelled = tagged ''ExecutionCancelled'' []"

definition ref_read_payload0 :: "string \<Rightarrow> execution_payload option" where
  "ref_read_payload0 tag =
     (if tag = ''ExecutionStarted'' then Some ExecutionStarted
      else if tag = ''Resumed'' then Some Resumed
      else if tag = ''Interrupted'' then Some Interrupted
      else if tag = ''ExecutionCancelled'' then Some ExecutionCancelled else None)"

definition ref_read_payload1 :: "string \<Rightarrow> json \<Rightarrow> execution_payload option" where
  "ref_read_payload1 tag v =
     (if tag = ''NodeStarted'' then map_option NodeStarted (as_str v)
      else if tag = ''Waiting'' then map_option WaitingOn (ref_read_wait_kind v)
      else if tag = ''ExecutionFailed'' then map_option ExecutionFailed (as_str v) else None)"

definition ref_read_payload2 :: "string \<Rightarrow> json \<Rightarrow> json \<Rightarrow> execution_payload option" where
  "ref_read_payload2 tag v w =
     (if tag = ''NodeCompleted'' then map_option (\<lambda>n. NodeCompleted n w) (as_str v)
      else if tag = ''NodeFailed''
      then Option.bind (as_str v) (\<lambda>n. map_option (NodeFailed n) (as_str w))
      else if tag = ''TaskOutput'' then map_option (\<lambda>n. TaskOutput n w) (as_str v)
      else if tag = ''ExecutionCompleted''
      then map_option (ExecutionCompleted v) (read_opt Some w) else None)"

fun ref_read_payload :: "json \<Rightarrow> execution_payload option" where
  "ref_read_payload (Array [String tag]) = ref_read_payload0 tag"
| "ref_read_payload (Array [String tag, v]) = ref_read_payload1 tag v"
| "ref_read_payload (Array [String tag, v, w]) = ref_read_payload2 tag v w"
| "ref_read_payload _ = None"

definition ref_read_tool_call :: "json \<Rightarrow> tool_call option" where
  "ref_read_tool_call v = do {
     n \<leftarrow> Option.bind (get v ''name'') as_str;
     Some \<lparr>call_name = n, call_args = (case get v ''args'' of None \<Rightarrow> no_arguments | Some a \<Rightarrow> a)\<rparr>
   }"

text \<open>Texts are parsed and printed only far enough for the empty object.\<close>

definition ref_parse_json :: "string \<Rightarrow> string + json" where
  "ref_parse_json s =
     (if s = ''{}'' then Inr empty_object else if s = ''null'' then Inr Null
      else Inl ''expected value at line 1 column 1'')"

definition ref_render_json :: "json \<Rightarrow> string" where
  "ref_render_json v =
     (case v of Null \<Rightarrow> ''null'' | String s \<Rightarrow> CHR 0x22 # s @ [CHR 0x22] | _ \<Rightarrow> ''{}'')"

definition ref_serde :: serde where
  "ref_serde =
     \<lparr>pointer = ref_pointer,
      read_reducer = ref_read_reducer,
      read_tool_record = ref_read_tool_record,
      write_tool_record = ref_write_tool_record,
      read_llm_output = ref_read_llm_output,
      read_wait_kind = ref_read_wait_kind,
      write_wait_kind = ref_write_wait_kind,
      read_active_nodes = (\<lambda>v. Option.bind (as_array v) (traverse ref_read_active_node)),
      write_active_nodes = (\<lambda>ns. Array (map ref_write_active_node ns)),
      read_budget = ref_read_budget,
      write_budget = ref_write_budget,
      read_payload = ref_read_payload,
      write_payload = ref_write_payload,
      read_graph = ref_read_graph,
      write_graph = ref_write_graph,
      read_tool_call = ref_read_tool_call,
      write_tool_calls = (\<lambda>calls. Array (map (\<lambda>c. json_object
        [(''name'', String (call_name c)), (''args'', call_args c)]) calls)),
      decode_error = (\<lambda>ty v. ''cannot decode a '' @ ty),
      parse_json = ref_parse_json,
      render_json = ref_render_json\<rparr>"

section \<open>The reference instance satisfies the contracts\<close>

lemma split_slash_no_slash: "CHR ''/'' \<notin> set k \<Longrightarrow> split_slash k = [k]"
  by (induction k) auto

lemma split_slash_append:
  "CHR ''/'' \<notin> set k \<Longrightarrow> split_slash (k @ CHR ''/'' # k') = k # split_slash k'"
  by (induction k) auto

lemma unescape_no_tilde: "CHR ''~'' \<notin> set k \<Longrightarrow> unescape k = k"
  by (induction k rule: unescape.induct) auto

lemma plain_keyD:
  assumes "plain_key k"
  shows "CHR ''/'' \<notin> set k" "CHR ''~'' \<notin> set k" "parse_index k = None"
  using assms by (cases k; force simp: plain_key_def parse_index_def is_digit_def list_all_iff)+

lemma child_plain: "plain_key k \<Longrightarrow> child v k = get v k"
  by (cases v) (simp_all add: child_def plain_keyD)

lemma traverse_inverse: "(\<And>x. f (g x) = Some x) \<Longrightarrow> traverse f (map g xs) = Some xs"
  by (induction xs) simp_all

lemma unat_u32_to_u64: "unat (ucast (c :: u32) :: u64) = unat c"
proof -
  have "unat c < 2 ^ LENGTH(32)" by (rule unsigned_less)
  then have "unat c < 2 ^ 64" by simp
  then show ?thesis by (simp add: unsigned_ucast_eq take_bit_nat_eq_self)
qed

lemma u32_fits: "unat (ucast (c :: u32) :: u64) < 4294967296"
proof -
  have "unat c < 2 ^ LENGTH(32)" by (rule unsigned_less)
  then show ?thesis by (simp add: unat_u32_to_u64)
qed

lemma u32_through_u64: "ucast (ucast (c :: u32) :: u64) = c"
  by (simp add: word_unat_eq_iff unsigned_ucast_eq take_bit_word_eq_self)

lemma ref_active_node_inverse: "ref_read_active_node (ref_write_active_node a) = Some a"
proof (cases a)
  case (fields i b)
  then show ?thesis
    by (cases b)
      (simp_all add: ref_read_active_node_def ref_write_active_node_def nat_json_def u32_fits
        u32_through_u64)
qed

lemma ref_wait_kind_inverse: "ref_read_wait_kind (ref_write_wait_kind w) = Some w"
  by (cases w) (simp_all add: ref_read_wait_kind_def int_json_def)

lemma ref_budget_inverse:
  "ref_read_budget (ref_write_budget b) =
     Some (b\<lparr>wall_time_remaining := duration_millis_deserialize
        (duration_millis_serialize (wall_time_remaining b))\<rparr>)"
  by (simp add: ref_read_budget_def ref_write_budget_def nat_json_def budget_new_def u32_fits
      u32_through_u64)

lemma collect_Some: "(\<And>x. x \<in> set xs \<Longrightarrow> f x = Some x) \<Longrightarrow> collect (map f xs) = Some xs"
  by (induction xs) simp_all

lemma condition_inverse: "read_condition (write_condition c) = Some c"
  by (induction c) (auto simp: comp_def intro!: collect_Some)

lemma uuid_inverse: "read_uuid (uuid_json u) = Some u"
  by (simp add: read_uuid_def uuid_json_def int_json_def word_of_int_uint
      del: of_int_uint)

lemma read_u32_inverse: "read_u32 (nat_json (ucast n)) = Some n"
  by (simp add: read_u32_def nat_json_def u32_fits u32_through_u64)

lemma opt_inverse: "(\<And>x. f (g x) = Some x) \<Longrightarrow> read_opt f (opt_json g v) = Some v"
  by (cases v) simp_all

lemma node_inverse: "read_node (write_node n) = Some n"
  by (cases n)
    (auto simp: read_node_def read_node_args_def read_three_def read_fan_out_def
      read_subgraph_def ref_wait_kind_inverse ref_read_reducer_def read_u32_inverse
      opt_inverse [where f = read_u32] split: reducer.splits)

lemma edge_inverse: "read_edge (write_edge e) = Some e"
  by (simp add: write_edge_def condition_inverse)

lemma ref_graph_inverse: "ref_read_graph (ref_write_graph g) = Some g"
  by (simp add: ref_read_graph_def ref_write_graph_def traverse_inverse node_inverse edge_inverse
      read_u32_inverse opt_inverse uuid_inverse)

lemma ref_payload_inverse: "ref_read_payload (ref_write_payload p) = Some p"
  by (cases p)
    (simp_all add: ref_read_payload0_def ref_read_payload1_def ref_read_payload2_def
      ref_wait_kind_inverse opt_inverse)

lemma ref_tool_record_inverse: "ref_read_tool_record (ref_write_tool_record r) = Some r"
  by (simp add: ref_read_tool_record_def ref_write_tool_record_def)

interpretation ref_ptr: json_pointer ref_pointer
proof
  fix k st
  assume "plain_key k"
  then show "ref_pointer st (CHR ''/'' # k) = get st k"
    by (simp add: split_slash_no_slash unescape_no_tilde plain_keyD child_plain)
next
  fix k k' st
  assume "plain_key k" and "plain_key k'"
  then show "ref_pointer st (CHR ''/'' # k @ CHR ''/'' # k') =
      Option.bind (get st k) (\<lambda>v. get v k')"
    by (simp add: split_slash_append split_slash_no_slash unescape_no_tilde plain_keyD
        child_plain)
qed

interpretation ref: serde_laws ref_serde
proof
  fix k st
  assume "plain_key k"
  then show "pointer ref_serde st (CHR ''/'' # k) = get st k"
    using ref_ptr.ptr_field by (simp add: ref_serde_def)
next
  fix k k' st
  assume "plain_key k" and "plain_key k'"
  then show "pointer ref_serde st (CHR ''/'' # k @ CHR ''/'' # k') =
      Option.bind (get st k) (\<lambda>v. get v k')"
    using ref_ptr.ptr_field2 by (simp add: ref_serde_def)
next
  fix ns
  show "read_active_nodes ref_serde (write_active_nodes ref_serde ns) = Some ns"
    by (simp add: ref_serde_def traverse_inverse ref_active_node_inverse)
qed (simp_all add: ref_serde_def ref_read_reducer_def ref_tool_record_inverse
    ref_wait_kind_inverse ref_budget_inverse ref_graph_inverse ref_payload_inverse)

end
