(* ===== verification/Fan_In.thy ===== *)
theory Fan_In
  imports Step_Props Codecs "HOL-Library.Multiset"
begin

text \<open>
  The fan-in barrier of \<^verbatim>\<open>engine-core/src/step.rs\<close>, kept in the execution state under
  \<^verbatim>\<open>__fan_in\<close>. Shown: a well-formed barrier table is kept by every step, and with it a step
  never panics; the branches of a fan-out may arrive in any order, the fan-in fires once, on the
  last of them, and folds the results in branch order. Also shown, as properties of the code as
  it is: a validated graph whose fan-in is fed by a plain edge panics, and a fan-out whose first
  edge is not its fan-in never opens the barrier.
\<close>

section \<open>Well-formed barrier tables\<close>

fun slot_ok :: "json \<Rightarrow> bool" where
  "slot_ok (Object s) = (case fmlookup s results_field of Some (Array _) \<Rightarrow> True | _ \<Rightarrow> False)"
| "slot_ok _ = False"

definition table_ok :: "json \<Rightarrow> bool" where
  "table_ok t \<longleftrightarrow> (\<exists>m. t = Object m \<and> (\<forall>i slot. fmlookup m i = Some slot \<longrightarrow> slot_ok slot))"

definition state_ok :: "json \<Rightarrow> bool" where
  "state_ok st \<longleftrightarrow>
     is_object st \<and> (\<forall>t. get st FAN_IN_TABLE = Some t \<longrightarrow> table_ok t)"

lemma slot_okE:
  assumes "slot_ok v"
  obtains s rs where "v = Object s" and "fmlookup s results_field = Some (Array rs)"
  using assms by (cases v) (auto split: option.splits json.splits)

lemma slot_ok_upd [simp]: "slot_ok (Object (fmupd results_field (Array rs) s))"
  by simp

lemma slot_ok_empty_slot [simp]: "slot_ok (empty_slot n)"
  by (simp add: empty_slot_def)

lemma table_ok_upd: "table_ok (Object m) \<Longrightarrow> slot_ok slot \<Longrightarrow> table_ok (Object (fmupd i slot m))"
  by (auto simp: table_ok_def)

lemma table_ok_empty [simp]: "table_ok empty_object"
  by (simp add: table_ok_def)

lemma state_ok_same_but:
  assumes "state_ok st" and "same_but key st st'" and "key \<noteq> FAN_IN_TABLE"
  shows "state_ok st'"
  using assms by (auto simp: state_ok_def same_but_def)

lemma state_ok_reducer:
  assumes "state_ok st" and "key \<noteq> FAN_IN_TABLE" and "apply_reducer st key r v = Some st'"
  shows "state_ok st'"
  using state_ok_same_but [OF assms(1) apply_reducer_same [OF assms(3)] assms(2)] .

text \<open>The table a well-formed state holds, created when it is missing.\<close>

lemma state_ok_table:
  assumes "state_ok st"
  obtains obj table where "st = Object obj"
    and "entry_or obj FAN_IN_TABLE empty_object = Object table" and "table_ok (Object table)"
proof -
  from assms obtain obj where obj: "st = Object obj"
    by (auto simp: state_ok_def elim: is_objectE)
  then have ok: "table_ok (entry_or obj FAN_IN_TABLE empty_object)"
    using assms by (auto simp: state_ok_def entry_or_def split: option.splits)
  then obtain table where table: "entry_or obj FAN_IN_TABLE empty_object = Object table"
    by (auto simp: table_ok_def)
  with ok have "table_ok (Object table)" by simp
  then show ?thesis by (rule that [OF obj table])
qed

lemma state_ok_put_table:
  "table_ok t \<Longrightarrow> state_ok (Object (fmupd FAN_IN_TABLE t obj))"
  by (simp add: state_ok_def)

section \<open>Steps keep the table and do not panic\<close>

text \<open>No task writes the table's key and no fan-in folds into it.\<close>

definition reserved_key_free :: "graph \<Rightarrow> bool" where
  "reserved_key_free g =
     list_all (\<lambda>n. case n of
        Task _ _ config \<Rightarrow> state_key config \<noteq> Some FAN_IN_TABLE
      | FanIn _ key _ \<Rightarrow> key \<noteq> FAN_IN_TABLE
      | _ \<Rightarrow> True) (nodes g)"

text \<open>What \<open>record_fan_in_branch\<close> expects of an output it is handed.\<close>

definition branch_carried :: "graph \<Rightarrow> node_output \<Rightarrow> bool" where
  "branch_carried g out =
     (case graph_node g (active_id (out_node out)) of
        Some (FanOut _ _ _ _) \<Rightarrow> True
      | Some (FanIn _ _ _) \<Rightarrow> True
      | _ \<Rightarrow>
          fan_in_consuming g (active_id (out_node out)) = None \<or>
          branch (out_node out) \<noteq> None)"

lemma reserved_task:
  "reserved_key_free g \<Longrightarrow> graph_node g i = Some (Task j k config) \<Longrightarrow>
   state_key config \<noteq> Some FAN_IN_TABLE"
  using graph_node_in_nodes by (fastforce simp: reserved_key_free_def list_all_iff)

lemma reserved_fan_in:
  "reserved_key_free g \<Longrightarrow> graph_node g i = Some (FanIn j key r) \<Longrightarrow> key \<noteq> FAN_IN_TABLE"
  using graph_node_in_nodes by (fastforce simp: reserved_key_free_def list_all_iff)

lemma reduce_state_ok:
  assumes "state_ok (state ex)" and "key \<noteq> FAN_IN_TABLE"
  shows "\<exists>ex'. reduce_state ex key r v = Some ex' \<and> state_ok (state ex')"
proof -
  have "is_object (state ex)" using assms(1) by (simp add: state_ok_def)
  then obtain st' where "apply_reducer (state ex) key r v = Some st'" "same_but key (state ex) st'"
    using apply_reducer_ok by blast
  with state_ok_same_but [OF assms(1) _ assms(2)] show ?thesis by (simp add: reduce_state_def)
qed

lemma apply_fast_tool_call_ok:
  assumes "state_ok (state ex)"
  shows "\<exists>ex'. apply_fast_tool_call sj ex v = Some ex' \<and> state_ok (state ex')"
proof -
  have "TOOL_RESULT_STATE_KEY \<noteq> FAN_IN_TABLE"
    by (simp add: TOOL_RESULT_STATE_KEY_def FAN_IN_TABLE_def)
  with assms reduce_state_ok show ?thesis
    by (auto simp: apply_fast_tool_call_def split: option.splits)
qed

lemma apply_task_value_ok:
  assumes "state_ok (state ex)" and "state_key config \<noteq> Some FAN_IN_TABLE"
  shows "\<exists>ex'. apply_task_value sj ex config v = Some ex' \<and> state_ok (state ex')"
proof -
  have "state_ok (state (charge_budget ex v))" using assms(1) by (simp add: charge_budget_def)
  then obtain mid where mid: "apply_fast_tool_call sj (charge_budget ex v) v = Some mid"
    and ok: "state_ok (state mid)"
    using apply_fast_tool_call_ok by blast
  show ?thesis
  proof (cases "state_key config")
    case (Some key)
    with assms(2) have "key \<noteq> FAN_IN_TABLE" by simp
    with Some mid ok reduce_state_ok [OF ok] show ?thesis
      by (cases "reducer_of sj config") (simp_all add: apply_task_value_def)
  qed (use mid ok in \<open>simp add: apply_task_value_def\<close>)
qed

lemma apply_output_ok:
  assumes "state_ok (state ex)" and "reserved_key_free g"
  shows "\<exists>ex' evs'. apply_output sj st g (ex, evs) out = Some (ex', evs') \<and> state_ok (state ex')"
proof (cases "out_result out")
  case (Inr v)
  have task: "\<exists>ex'. apply_task_value sj ex config v = Some ex' \<and> state_ok (state ex')"
    if "graph_node g (active_id (out_node out)) = Some (Task i k config)" for i k config
    using apply_task_value_ok [OF assms(1)] reserved_task [OF assms(2) that] by blast
  show ?thesis
  proof (cases "graph_node g (active_id (out_node out))")
    case (Some n)
    with Inr assms(1) task show ?thesis
      by (cases n) (fastforce simp: apply_output_def Let_def)+
  qed (use Inr assms(1) in \<open>simp add: apply_output_def Let_def\<close>)
qed (use assms(1) in \<open>simp add: apply_output_def\<close>)

lemma open_fan_in_barrier_ok:
  assumes "state_ok (state ex)"
  shows "\<exists>ex'. open_fan_in_barrier g ex target n = Some ex' \<and> state_ok (state ex')"
proof -
  from assms obtain obj table where "state ex = Object obj"
    and "entry_or obj FAN_IN_TABLE empty_object = Object table" and "table_ok (Object table)"
    by (rule state_ok_table)
  then show ?thesis using assms
    by (auto simp: open_fan_in_barrier_def table_ok_upd state_ok_put_table
        split: option.splits node.splits)
qed

lemma fold_reducer_ok:
  assumes "state_ok st" and "key \<noteq> FAN_IN_TABLE"
  shows "\<exists>st'. fold_opt (\<lambda>item st. apply_reducer st key r item) items st = Some st' \<and> state_ok st'"
proof (rule fold_opt_total [where P = state_ok, OF assms(1)])
  fix x s
  assume ok: "state_ok s"
  then have "is_object s" by (simp add: state_ok_def)
  then obtain s' where "apply_reducer s key r x = Some s'" using apply_reducer_ok by blast
  with state_ok_reducer [OF ok assms(2)]
  show "\<exists>s'. apply_reducer s key r x = Some s' \<and> state_ok s'" by blast
qed

text \<open>The slot a well-formed table holds for a fan-in, created empty when it is missing.\<close>

lemma table_ok_slot:
  assumes "table_ok (Object table)"
  obtains slot rs where "entry_or table i (empty_slot 0) = Object slot"
    and "fmlookup slot results_field = Some (Array rs)"
proof -
  have "slot_ok (entry_or table i (empty_slot 0))"
    using assms by (auto simp: table_ok_def entry_or_def split: option.splits)
  then show ?thesis using that by (rule slot_okE)
qed

lemma record_fan_in_branch_ok:
  assumes "state_ok (state ex)" and "key \<noteq> FAN_IN_TABLE"
    and "branch (out_node out) = Some b" and "out_result out = Inr v"
  shows "\<exists>ex' next'. record_fan_in_branch ex out (FanIn i key r) next = Some (ex', next') \<and>
    state_ok (state ex')"
proof -
  from assms(1) obtain obj table where obj: "state ex = Object obj"
    and table: "entry_or obj FAN_IN_TABLE empty_object = Object table"
    and ok: "table_ok (Object table)"
    by (rule state_ok_table)
  from ok obtain slot rs where slot: "entry_or table i (empty_slot 0) = Object slot"
    and rs: "fmlookup slot results_field = Some (Array rs)"
    by (rule table_ok_slot)
  let ?rs = "(grow_to (unat b + 1) Null rs)[unat b := v]"
  let ?st = "Object (fmupd FAN_IN_TABLE
    (Object (fmupd i (Object (fmupd results_field (Array ?rs) slot)) table)) obj)"
  have st: "state_ok ?st" by (intro state_ok_put_table table_ok_upd ok slot_ok_upd)
  from fold_reducer_ok [OF st assms(2)] obtain st' where
    "fold_opt (\<lambda>item st. apply_reducer st key r item) ?rs ?st = Some st'" and "state_ok st'"
    by blast
  with st show ?thesis
    by (auto simp: record_fan_in_branch_def assms(3,4) obj table slot rs Let_def)
qed

lemma fan_handled_output_ok:
  assumes "state_ok (state ex)" and "reserved_key_free g" and "branch_carried g out"
  shows "\<exists>ex' next' handled.
    fan_handled_output sj g ex out next = Some (ex', next', handled) \<and> state_ok (state ex')"
proof -
  let ?i = "active_id (out_node out)"
  have consumed: "\<exists>ex' next'. record_fan_in_branch ex out n next = Some (ex', next') \<and>
      state_ok (state ex')"
    if "fan_in_consuming g ?i = Some n" and "branch (out_node out) = Some b"
      and "out_result out = Inr v" for n b v
  proof -
    from fan_in_consuming_Some [OF that(1)] obtain j key r where
      n: "n = FanIn j key r" and "graph_node g j = Some n"
      by (cases n) auto
    with reserved_fan_in [OF assms(2)] have "key \<noteq> FAN_IN_TABLE" by blast
    with record_fan_in_branch_ok [OF assms(1) _ that(2,3)] n show ?thesis by blast
  qed
  have rest: ?thesis
    if not_fan: "\<forall>a b c d e f g'. graph_node g ?i \<noteq> Some (FanOut a b c d) \<and>
        graph_node g ?i \<noteq> Some (FanIn e f g')"
  proof (cases "fan_in_consuming g ?i")
    case None
    with not_fan assms(1) show ?thesis
      by (auto simp: fan_handled_output_def split: option.splits node.splits)
  next
    case (Some n)
    with not_fan assms(3) obtain b where b: "branch (out_node out) = Some b"
      by (auto simp: branch_carried_def split: option.splits node.splits)
    show ?thesis
    proof (cases "out_result out")
      case (Inl e)
      with Some not_fan assms(1) show ?thesis
        by (auto simp: fan_handled_output_def split: option.splits node.splits)
    next
      case (Inr v)
      from consumed [OF Some b Inr] obtain ex' next' where
        "record_fan_in_branch ex out n next = Some (ex', next')" and "state_ok (state ex')"
        by blast
      with Some Inr not_fan show ?thesis
        by (auto simp: fan_handled_output_def split: option.splits node.splits)
    qed
  qed
  show ?thesis
  proof (cases "graph_node g ?i")
    case (Some n)
    then show ?thesis
    proof (cases n)
      case (FanOut a src c target)
      obtain ex' where "state_ok (state ex')" and
        "open_fan_in_barrier g ex target (fan_out_branches (pointer sj) ex src) = Some ex'"
        using open_fan_in_barrier_ok [OF assms(1)] by blast
      with Some FanOut show ?thesis by (auto simp: fan_handled_output_def Let_def)
    next
      case FanIn
      with Some assms(1) show ?thesis by (auto simp: fan_handled_output_def)
    qed (use rest Some in simp_all)
  qed (use rest in simp)
qed

lemma step_output_ok:
  assumes "state_ok (state ex)" and "reserved_key_free g" and "branch_carried g out"
  shows "\<exists>s'. step_output sj st g out (ex, evs, next, hard) = Some s' \<and> state_ok (state (fst s'))"
proof -
  from apply_output_ok [OF assms(1,2)] obtain ex1 evs1 where
    one: "apply_output sj st g (ex, evs) out = Some (ex1, evs1)" and "state_ok (state ex1)"
    by blast
  from fan_handled_output_ok [OF this(2) assms(2,3)] obtain ex2 next2 handled where
    "fan_handled_output sj g ex1 out next = Some (ex2, next2, handled)" and "state_ok (state ex2)"
    by blast
  with one show ?thesis by (auto simp: step_output_def split: prod.splits)
qed

lemma settle_state: "state (fst (settle sj st g b now (ex, evs, next, hard))) = state ex"
  by (simp add: settle_def fail_execution_def complete_execution_def park_next_def Let_def
      split: option.splits)

text \<open>C13: a step never panics, and keeps the state and its barrier table well formed, when the
  state is an object with a well-formed table, no node uses the reserved key, and the outputs a
  fan-in consumes carry their branch.\<close>

theorem step_never_panics:
  assumes "state_ok (state ex)" and "reserved_key_free g"
    and "\<forall>out \<in> set outputs. branch_carried g out"
  shows "\<exists>ex' evs. step sj st g ex outputs now = Some (ex', evs) \<and> state_ok (state ex')"
proof -
  let ?s = "(ex, [], if outputs = [] then current_nodes ex else [], None)"
  have "\<exists>s'. fold_opt (step_output sj st g) outputs ?s = Some s' \<and> state_ok (state (fst s'))"
  proof (rule fold_opt_total [where P = "\<lambda>s. state_ok (state (fst s))"])
    fix out and s :: loop_state
    assume "out \<in> set outputs" and "state_ok (state (fst s))"
    then show "\<exists>s'. step_output sj st g out s = Some s' \<and> state_ok (state (fst s'))"
      using step_output_ok [OF _ assms(2)] assms(3) by (cases s) simp
  qed (use assms(1) in simp)
  then obtain s' where "fold_opt (step_output sj st g) outputs ?s = Some s'"
    and "state_ok (state (fst s'))" by blast
  then show ?thesis
    using settle_state by (cases s') (fastforce simp: step_def step_outputs_def prod_eq_iff)
qed

section \<open>Branches arrive in any order\<close>

text \<open>The results recorded so far for a fan-in, and the state with them replaced.\<close>

definition barrier :: "json \<Rightarrow> node_id \<Rightarrow> json list option" where
  "barrier st i = do {
     table \<leftarrow> get st FAN_IN_TABLE;
     slot \<leftarrow> get table i;
     results \<leftarrow> get slot results_field;
     as_array results
   }"

definition put_results :: "json \<Rightarrow> node_id \<Rightarrow> json list \<Rightarrow> json" where
  "put_results st i rs =
     (case get st FAN_IN_TABLE of
        Some table \<Rightarrow>
          (case (as_object st, as_object table, Option.bind (get table i) as_object) of
             (Some obj, Some t, Some slot) \<Rightarrow>
               Object (fmupd FAN_IN_TABLE
                 (Object (fmupd i (Object (fmupd results_field (Array rs) slot)) t)) obj)
           | _ \<Rightarrow> st)
      | None \<Rightarrow> st)"

lemma barrierE:
  assumes "barrier st i = Some rs"
  obtains obj t slot where "st = Object obj" and "fmlookup obj FAN_IN_TABLE = Some (Object t)"
    and "fmlookup t i = Some (Object slot)"
    and "fmlookup slot results_field = Some (Array rs)"
proof -
  from assms obtain table slot_v res where *: "get st FAN_IN_TABLE = Some table"
    "get table i = Some slot_v" "get slot_v results_field = Some res" "as_array res = Some rs"
    by (auto simp: barrier_def panic_simps)
  then have "is_object st" "is_object table" "is_object slot_v"
    by (auto dest: get_Some_is_object)
  with * that show ?thesis by (auto elim!: is_objectE)
qed

lemma fmupd_twice [simp]: "fmupd k x (fmupd k y m) = fmupd k x m"
  by (rule fmap_ext) simp

lemma barrier_put_results: "barrier st i = Some rs \<Longrightarrow> barrier (put_results st i rs') i = Some rs'"
  by (erule barrierE) (simp add: put_results_def barrier_def)

lemma put_results_twice:
  "barrier st i = Some rs \<Longrightarrow> put_results (put_results st i rs') i rs'' = put_results st i rs''"
  by (erule barrierE) (simp add: put_results_def)

lemma put_results_id: "barrier st i = Some rs \<Longrightarrow> put_results st i rs = st"
  by (erule barrierE) (simp add: put_results_def fmupd_same_lookup)

lemma record_fan_in_branch_barrier:
  assumes "barrier (state ex) i = Some rs" and "branch (out_node out) = Some b"
    and "out_result out = Inr v" and "unat b < length rs"
  shows "record_fan_in_branch ex out (FanIn i key r) next =
    (let rs' = rs[unat b := v]; st = put_results (state ex) i rs' in
     if Null \<in> set rs' then Some (ex\<lparr>state := st\<rparr>, next)
     else map_option (\<lambda>st'. (ex\<lparr>state := st'\<rparr>, next @ [plain i]))
       (fold_opt (\<lambda>item st. apply_reducer st key r item) rs' st))"
proof -
  from assms(1) obtain obj t slot where "state ex = Object obj"
    and "fmlookup obj FAN_IN_TABLE = Some (Object t)" and "fmlookup t i = Some (Object slot)"
    and "fmlookup slot results_field = Some (Array rs)"
    by (rule barrierE)
  moreover have "list_all (\<lambda>x. \<not> is_null x) xs \<longleftrightarrow> Null \<notin> set xs" for xs
    by (auto simp: list_all_iff is_null_def)
  ultimately show ?thesis using assms(2-4)
    by (simp add: record_fan_in_branch_def put_results_def entry_or_def Let_def
        map_option_case split: option.splits)
qed

text \<open>The output of branch \<open>b\<close> of a fan-out over \<open>target\<close>, and the loop that records the
  branches in their order of arrival.\<close>

definition branch_output :: "node_id \<Rightarrow> (nat \<Rightarrow> json) \<Rightarrow> nat \<Rightarrow> node_output" where
  "branch_output target f b =
     \<lparr>out_node = \<lparr>active_id = target, branch = Some (clamp_to_word b)\<rparr>, out_result = Inr (f b)\<rparr>"

definition record_branches ::
  "node \<Rightarrow> node_id \<Rightarrow> (nat \<Rightarrow> json) \<Rightarrow> nat list \<Rightarrow> execution \<times> active_node list \<Rightarrow>
     (execution \<times> active_node list) option" where
  "record_branches fan_in target f arrivals s =
     fold_opt (\<lambda>b (ex, next). record_fan_in_branch ex (branch_output target f b) fan_in next)
       arrivals s"

definition arrived :: "(nat \<Rightarrow> json) \<Rightarrow> nat \<Rightarrow> nat set \<Rightarrow> json list" where
  "arrived f n bs = map (\<lambda>j. if j \<in> bs then f j else Null) [0..<n]"

lemma length_arrived [simp]: "length (arrived f n bs) = n"
  by (simp add: arrived_def)

lemma arrived_insert: "b < n \<Longrightarrow> (arrived f n bs)[b := f b] = arrived f n (insert b bs)"
  by (rule nth_equalityI) (auto simp: arrived_def nth_list_update)

lemma arrived_full: "{0..<n} \<subseteq> bs \<Longrightarrow> arrived f n bs = map f [0..<n]"
  by (auto simp: arrived_def)

lemma Null_in_arrived:
  "(\<And>j. j < n \<Longrightarrow> f j \<noteq> Null) \<Longrightarrow> Null \<in> set (arrived f n bs) \<longleftrightarrow> \<not> {0..<n} \<subseteq> bs"
  by (force simp: arrived_def)

lemma unat_clamp_branch: "b < n \<Longrightarrow> n \<le> 2 ^ 32 \<Longrightarrow> unat (clamp_to_word b :: u32) = b"
  by (simp add: sat_simps)

lemma record_branches_partial:
  assumes "barrier (state ex) i = Some (replicate n Null)" and "n \<le> 2 ^ 32"
    and nonnull: "\<And>j. j < n \<Longrightarrow> f j \<noteq> Null"
    and "set arrivals \<subset> {0..<n}"
  shows "record_branches (FanIn i key r) target f arrivals (ex, next) =
    Some (ex\<lparr>state := put_results (state ex) i (arrived f n (set arrivals))\<rparr>, next)"
  using assms(4)
proof (induction arrivals rule: rev_induct)
  case Nil
  have "arrived f n {} = replicate n Null" by (simp add: arrived_def map_replicate_trivial)
  with assms(1) show ?case by (simp add: record_branches_def put_results_id)
next
  case (snoc b bs)
  from snoc.prems have b: "b < n" and bs: "set bs \<subset> {0..<n}" by auto
  let ?st = "put_results (state ex) i (arrived f n (set bs))"
  let ?ex = "ex\<lparr>state := ?st\<rparr>"
  have bar: "barrier (state ?ex) i = Some (arrived f n (set bs))"
    using assms(1) by (simp add: barrier_put_results)
  have "\<not> {0..<n} \<subseteq> insert b (set bs)" using snoc.prems by auto
  then have "Null \<in> set (arrived f n (insert b (set bs)))"
    using Null_in_arrived nonnull by blast
  with record_fan_in_branch_barrier [OF bar, of "branch_output target f b" "clamp_to_word b" "f b"]
  have "record_fan_in_branch ?ex (branch_output target f b) (FanIn i key r) next =
      Some (ex\<lparr>state := put_results (state ex) i (arrived f n (set (bs @ [b])))\<rparr>, next)"
    using b assms(1,2)
    by (simp add: branch_output_def unat_clamp_branch arrived_insert Let_def put_results_twice)
  with snoc.IH [OF bs] show ?case
    by (simp add: record_branches_def fold_opt_snoc)
qed


section \<open>Limits of the barrier\<close>

lemma record_branches_with_null:
  assumes "barrier (state ex) i = Some (replicate n Null)" and "n \<le> 2 ^ 32"
    and "j < n" and "f j = Null" and "set arrivals \<subseteq> {0..<n}"
  shows "record_branches (FanIn i key r) target f arrivals (ex, next) =
    Some (ex\<lparr>state := put_results (state ex) i (arrived f n (set arrivals))\<rparr>, next)"
  using assms(5)
proof (induction arrivals rule: rev_induct)
  case Nil
  have "arrived f n {} = replicate n Null" by (simp add: arrived_def map_replicate_trivial)
  with assms(1) show ?case by (simp add: record_branches_def put_results_id)
next
  case (snoc b bs)
  from snoc.prems have b: "b < n" and bs: "set bs \<subseteq> {0..<n}" by auto
  let ?ex = "ex\<lparr>state := put_results (state ex) i (arrived f n (set bs))\<rparr>"
  have bar: "barrier (state ?ex) i = Some (arrived f n (set bs))"
    using assms(1) by (simp add: barrier_put_results)
  have "Null \<in> set (arrived f n (insert b (set bs)))"
    using assms(3,4) by (force simp: arrived_def)
  with record_fan_in_branch_barrier [OF bar, of "branch_output target f b" "clamp_to_word b" "f b"]
  have "record_fan_in_branch ?ex (branch_output target f b) (FanIn i key r) next =
      Some (ex\<lparr>state := put_results (state ex) i (arrived f n (set (bs @ [b])))\<rparr>, next)"
    using b assms(1,2)
    by (simp add: branch_output_def unat_clamp_branch arrived_insert Let_def put_results_twice)
  with snoc.IH [OF bs] show ?case
    by (simp add: record_branches_def fold_opt_snoc)
qed

text \<open>A branch that succeeds with a JSON \<^verbatim>\<open>null\<close> is indistinguishable from one that has not
  arrived: the fan-in never fires, whatever the order of arrival, although every branch came in.\<close>

lemma null_branch_never_completes_barrier:
  assumes "barrier (state ex) i = Some (replicate n Null)" and "n \<le> 2 ^ 32"
    and "j < n" and "f j = Null" and "mset arrivals = mset [0..<n]"
  shows "\<exists>ex'. record_branches (FanIn i key r) target f arrivals (ex, next) = Some (ex', next)"
proof -
  have "set arrivals = {0..<n}" using assms(5) by (metis set_mset_mset set_upt)
  with record_branches_with_null [where f = f, OF assms(1-4), of arrivals] show ?thesis by simp
qed

definition fan_in_without_fan_out :: graph where
  "fan_in_without_fan_out =
     \<lparr>g_id = ''g'', g_version = 1, g_user_id = None,
      nodes = [Task ''work'' ''noop'' empty_object, FanIn ''join'' ''all'' Append, End ''end''],
      edges = [\<lparr>edge_from = ''work'', edge_to = ''join'', edge_condition = CAlways\<rparr>,
               \<lparr>edge_from = ''join'', edge_to = ''end'', edge_condition = CAlways\<rparr>],
      entry = ''work'', answer_pointer = None\<rparr>"

text \<open>Validation does not rule out the panic of the barrier: a graph whose fan-in is fed by
  a plain edge validates, and the first successful output of that node panics the step, for
  every execution and every value.\<close>

lemma validated_graph_can_panic:
  "validate fan_in_without_fan_out = Inr () \<and>
   step sj st fan_in_without_fan_out ex
     [\<lparr>out_node = plain ''work'', out_result = Inr v\<rparr>] now = None"
proof -
  let ?g = fan_in_without_fan_out
  have "validate ?g = Inr ()"
    by (simp add: fan_in_without_fan_out_def validate_def validation_problems_def edge_problems_def)
  moreover have node: "graph_node ?g ''work'' = Some (Task ''work'' ''noop'' empty_object)"
    and consuming: "fan_in_consuming ?g ''work'' = Some (FanIn ''join'' ''all'' Append)"
    by (simp_all add: fan_in_without_fan_out_def fan_in_consuming_def graph_lookups)
  have "fan_handled_output sj ?g ex' \<lparr>out_node = plain ''work'', out_result = Inr v\<rparr> next = None"
    for ex' "next"
    by (simp add: fan_handled_output_def node consuming plain_def record_fan_in_branch_def)
  then have "step_output sj st ?g \<lparr>out_node = plain ''work'', out_result = Inr v\<rparr> s = None" for s
    by (cases s) (auto simp: step_output_def split: bind_splits)
  ultimately show ?thesis by (simp add: step_def step_outputs_def)
qed

definition fan_out_with_side_edge :: graph where
  "fan_out_with_side_edge =
     \<lparr>g_id = ''g'', g_version = 1, g_user_id = None,
      nodes = [FanOut ''spread'' ''/items'' ''item'' ''work'', Task ''work'' ''noop'' empty_object,
               Task ''log'' ''noop'' empty_object, FanIn ''join'' ''all'' Append, End ''end''],
      edges = [\<lparr>edge_from = ''work'', edge_to = ''log'', edge_condition = CAlways\<rparr>,
               \<lparr>edge_from = ''work'', edge_to = ''join'', edge_condition = CAlways\<rparr>,
               \<lparr>edge_from = ''join'', edge_to = ''end'', edge_condition = CAlways\<rparr>],
      entry = ''spread'', answer_pointer = None\<rparr>"

text \<open>The engine looks only at the first edge of a fan-out target that leads to a declared
  node, validation at all of them. A target whose fan-in comes second validates, but its barrier
  is never opened and the output of any single branch runs past it to the end.\<close>

lemma barrier_needs_first_edge:
  "validate fan_out_with_side_edge = Inr () \<and>
    length (fan_ins_after fan_out_with_side_edge ''work'') = 1 \<and>
    fan_in_consuming fan_out_with_side_edge ''work'' = None \<and>
    open_fan_in_barrier fan_out_with_side_edge ex ''work'' n = Some ex \<and>
    (case step sj st fan_out_with_side_edge ex [branch_output ''work'' f b] now of
       None \<Rightarrow> \<not> is_object (state ex)
     | Some (ex', evs) \<Rightarrow> status ex' \<in> {Failed, Completed})"
proof -
  let ?g = fan_out_with_side_edge
  have nodes: "graph_node ?g ''work'' = Some (Task ''work'' ''noop'' empty_object)"
    "graph_node ?g ''join'' = Some (FanIn ''join'' ''all'' Append)"
    "graph_node ?g ''log'' = Some (Task ''log'' ''noop'' empty_object)"
    "graph_node ?g ''end'' = Some (End ''end'')"
    by (simp_all add: fan_out_with_side_edge_def graph_lookups)
  have edges: "map edge_to (edges_from ?g ''work'') = [''log'', ''join'']"
    "\<forall>e \<in> set (edges_from ?g ''work''). edge_condition e = CAlways"
    "edges_from ?g ''join'' =
       [\<lparr>edge_from = ''join'', edge_to = ''end'', edge_condition = CAlways\<rparr>]"
    by (simp_all add: fan_out_with_side_edge_def graph_lookups)
  have valid: "validate ?g = Inr ()" and one: "length (fan_ins_after ?g ''work'') = 1"
    and none: "fan_in_consuming ?g ''work'' = None"
    by (simp_all add: fan_out_with_side_edge_def validate_def validation_problems_def
        edge_problems_def graph_lookups fan_in_consuming_def)
  have fire: "map (\<lambda>e. plain (edge_to e)) (firing_edges (pointer sj) ?g s ''work'') =
      [plain ''log'', plain ''join'']" for s
  proof -
    have "firing_edges (pointer sj) ?g s ''work'' = edges_from ?g ''work''"
      using edges(2) by (auto simp: firing_edges_def intro: filter_True)
    then show ?thesis using arg_cong [OF edges(1), of "map plain"] by (simp add: comp_def)
  qed
  have "status ex' \<in> {Failed, Completed}"
    if run: "step sj st ?g ex [branch_output ''work'' f b] now = Some (ex', evs)" for ex' evs
  proof -
    from run obtain mid evs1 "next" hard where
      outs: "step_outputs sj st ?g ex [branch_output ''work'' f b] = Some (mid, evs1, next, hard)"
      and set: "settle sj st ?g False now (mid, evs1, next, hard) = (ex', evs)"
      by (auto elim!: step_Some)
    from outs have "next = [plain ''log'', plain ''join'']"
      by (auto simp: step_outputs_def step_output_def panic_simps fan_handled_output_def
          branch_output_def nodes none record_edges_def fire split: prod.splits)
    with set show ?thesis
      by (auto simp: settle_def Let_def fail_execution_def complete_execution_def
          expand_completed_fan_ins_def reaches_end_def firing_edges_def nodes edges(3) plain_def
          split: option.splits if_splits)
  qed
  moreover have "\<not> is_object (state ex)"
    if "step sj st ?g ex [branch_output ''work'' f b] now = None"
  proof (rule ccontr)
    assume "\<not> \<not> is_object (state ex)"
    then have "is_object (state (charge_budget ex (f b)))" by (simp add: charge_budget_def)
    then have "apply_fast_tool_call sj (charge_budget ex (f b)) (f b) \<noteq> None"
      using apply_reducer_None
      by (auto simp: apply_fast_tool_call_def reduce_state_def simp del: apply_reducer.simps
          split: option.splits)
    with that show False
      by (auto simp: step_def step_outputs_def step_output_def apply_output_def
          apply_task_value_def state_key_def branch_output_def nodes none fan_handled_output_def
          record_edges_def split: option.splits)
  qed
  ultimately show ?thesis using valid one none
    by (auto simp: open_fan_in_barrier_def split: option.splits)
qed

end
