(* ===== verification/Builder.thy ===== *)
theory Builder
  imports Step_Props Codecs
begin

text \<open>
  \<^verbatim>\<open>engine-core/src/builder.rs\<close>: the graph builder and the three built-in graphs. Shown: all
  three pass validation, and the agent graph routes an \<^verbatim>\<open>llm\<close> output to the tool node exactly
  when it carries a tool call and otherwise completes with its reply as the answer.
\<close>

section \<open>The builder\<close>

record graph_builder =
  b_nodes :: "node list"
  b_edges :: "edge list"
  b_entry :: "node_id option"
  b_answer_pointer :: "string option"

definition builder_new :: graph_builder where
  "builder_new = \<lparr>b_nodes = [], b_edges = [], b_entry = None, b_answer_pointer = None\<rparr>"

definition builder_entry :: "string \<Rightarrow> graph_builder \<Rightarrow> graph_builder" where
  "builder_entry i b = b\<lparr>b_entry := Some i\<rparr>"

definition builder_task :: "string \<Rightarrow> string \<Rightarrow> json \<Rightarrow> graph_builder \<Rightarrow> graph_builder" where
  "builder_task i kind config b = b\<lparr>b_nodes := b_nodes b @ [Task i kind config]\<rparr>"

definition builder_wait :: "string \<Rightarrow> wait_kind \<Rightarrow> graph_builder \<Rightarrow> graph_builder" where
  "builder_wait i on b = b\<lparr>b_nodes := b_nodes b @ [Wait i on]\<rparr>"

definition builder_end :: "string \<Rightarrow> graph_builder \<Rightarrow> graph_builder" where
  "builder_end i b = b\<lparr>b_nodes := b_nodes b @ [End i]\<rparr>"

definition builder_answer :: "string \<Rightarrow> graph_builder \<Rightarrow> graph_builder" where
  "builder_answer p b = b\<lparr>b_answer_pointer := Some p\<rparr>"

definition builder_edge :: "string \<Rightarrow> string \<Rightarrow> condition \<Rightarrow> graph_builder \<Rightarrow> graph_builder" where
  "builder_edge a z c b =
     b\<lparr>b_edges := b_edges b @ [\<lparr>edge_from = a, edge_to = z, edge_condition = c\<rparr>]\<rparr>"

text \<open>\<^term>\<open>None\<close> is the panic of a builder whose entry was never set.\<close>

definition builder_build :: "string \<Rightarrow> u32 \<Rightarrow> graph_builder \<Rightarrow> graph option" where
  "builder_build i version b =
     (case b_entry b of
        None \<Rightarrow> None
      | Some e \<Rightarrow> Some \<lparr>g_id = i, g_version = version, g_user_id = None, nodes = b_nodes b,
          edges = b_edges b, entry = e, answer_pointer = b_answer_pointer b\<rparr>)"

lemmas builder_defs = builder_new_def builder_entry_def builder_task_def builder_wait_def
  builder_end_def builder_answer_def builder_edge_def builder_build_def

fun reducer_json :: "reducer \<Rightarrow> json" where
  "reducer_json Replace = String ''Replace''"
| "reducer_json Append = String ''Append''"
| "reducer_json AppendEach = String ''AppendEach''"
| "reducer_json Merge = String ''Merge''"

section \<open>The built-in graphs\<close>

definition llm_config :: json where
  "llm_config = json_object [(''state_key'', String LLM_STATE_KEY), (''reducer'', reducer_json Replace)]"

definition simple_graph :: "graph option" where
  "simple_graph =
     builder_build ''simple'' 1 (builder_answer llm_reply_pointer
      (builder_edge ''llm'' ''end'' CAlways
      (builder_end ''end''
      (builder_task ''llm'' ''llm'' llm_config
      (builder_entry ''llm'' builder_new)))))"

definition rag_graph :: "string \<Rightarrow> graph option" where
  "rag_graph knowledge_search_tool_slug =
     builder_build ''rag'' 1 (builder_answer llm_reply_pointer
      (builder_edge ''llm'' ''end'' CAlways
      (builder_edge ''retrieve'' ''llm'' CAlways
      (builder_end ''end''
      (builder_task ''llm'' ''llm'' llm_config
      (builder_task ''retrieve'' ''tool''
        (json_object [(''state_key'', String ''kb_results''), (''reducer'', reducer_json Replace),
          (''tool_slug'', String knowledge_search_tool_slug)])
      (builder_entry ''retrieve'' builder_new)))))))"

definition agent_llm_config :: json where
  "agent_llm_config =
     json_object [(''state_key'', String LLM_STATE_KEY), (''reducer'', reducer_json Replace),
       (''tool_calling'', Bool True)]"

definition agent_tool_config :: json where
  "agent_tool_config =
     json_object [(''state_key'', String TOOL_RESULT_STATE_KEY),
       (''reducer'', reducer_json AppendEach)]"

definition agent_graph :: "graph option" where
  "agent_graph =
     builder_build ''agent'' 1 (builder_answer llm_reply_pointer
      (builder_edge ''tool'' ''llm'' CAlways
      (builder_edge ''llm'' ''end'' (CNot (CTruthy llm_tool_call_pointer))
      (builder_edge ''llm'' ''tool'' (CTruthy llm_tool_call_pointer)
      (builder_end ''end''
      (builder_task ''tool'' ''tool'' agent_tool_config
      (builder_task ''llm'' ''llm'' agent_llm_config
      (builder_entry ''llm'' builder_new))))))))"

lemmas built_in_defs = simple_graph_def rag_graph_def agent_graph_def builder_defs

text \<open>The three built-in graphs are built without a panic and pass validation.\<close>

lemma built_in_graphs_valid:
  "\<exists>simple rag agent.
     simple_graph = Some simple \<and> validate simple = Inr () \<and>
     rag_graph slug = Some rag \<and> validate rag = Inr () \<and>
     agent_graph = Some agent \<and> validate agent = Inr ()"
  by (simp add: built_in_defs validate_def validation_problems_def edge_problems_def)

section \<open>The agent loop\<close>

definition the_agent_graph :: graph where
  "the_agent_graph = the agent_graph"

lemma agent_graph_Some: "agent_graph = Some the_agent_graph"
  by (simp add: the_agent_graph_def built_in_defs)

lemma agent_nodes:
  "graph_node the_agent_graph ''llm'' = Some (Task ''llm'' ''llm'' agent_llm_config)"
  "graph_node the_agent_graph ''tool'' = Some (Task ''tool'' ''tool'' agent_tool_config)"
  "graph_node the_agent_graph ''end'' = Some (End ''end'')"
  by (simp_all add: the_agent_graph_def built_in_defs graph_node_def)

lemma agent_edges:
  "edges_from the_agent_graph ''llm'' =
     [\<lparr>edge_from = ''llm'', edge_to = ''tool'', edge_condition = CTruthy llm_tool_call_pointer\<rparr>,
      \<lparr>edge_from = ''llm'', edge_to = ''end'',
        edge_condition = CNot (CTruthy llm_tool_call_pointer)\<rparr>]"
  "edges_from the_agent_graph ''tool'' =
     [\<lparr>edge_from = ''tool'', edge_to = ''llm'', edge_condition = CAlways\<rparr>]"
  by (simp_all add: the_agent_graph_def built_in_defs edges_from_def)

lemma agent_no_fan_in:
  "fan_in_consuming the_agent_graph ''llm'' = None"
  "fan_in_consuming the_agent_graph ''tool'' = None"
  by (simp_all add: fan_in_consuming_def agent_edges agent_nodes)

lemma agent_answer_pointer: "answer_pointer the_agent_graph = Some llm_reply_pointer"
  by (simp add: the_agent_graph_def built_in_defs)

lemmas agent_facts = agent_nodes agent_edges agent_no_fan_in agent_answer_pointer

definition node_ok :: "string \<Rightarrow> json \<Rightarrow> node_output" where
  "node_ok i v = \<lparr>out_node = plain i, out_result = Inr v\<rparr>"

definition carries_tool_call :: "json \<Rightarrow> bool" where
  "carries_tool_call v =
     (case get v TOOL_CALL_FIELD of None \<Rightarrow> False | Some call \<Rightarrow> is_truthy call)"

text \<open>What the output of an \<^verbatim>\<open>llm\<close> node leaves behind: the whole output under \<^verbatim>\<open>llm\<close>.\<close>

lemma agent_llm_apply_output:
  assumes "serde_laws sj"
    and "apply_output sj st the_agent_graph (ex, evs) (node_ok ''llm'' v) = Some (ex', evs')"
  shows "get (state ex') LLM_STATE_KEY = Some v"
proof -
  have key: "state_key agent_llm_config = Some LLM_STATE_KEY"
    by (simp add: state_key_def agent_llm_config_def)
  have red: "reducer_of sj agent_llm_config = Some Replace"
    using serde_laws.reducer_names(1) [OF assms(1)]
    by (simp add: reducer_of_def agent_llm_config_def)
  from assms(2) obtain mid where "reduce_state mid LLM_STATE_KEY Replace v = Some ex'"
    by (auto simp: apply_output_def node_ok_def plain_def agent_facts apply_task_value_def
        panic_simps key red)
  then show ?thesis by (auto simp: reduce_state_Some get_apply_replace simp del: apply_reducer.simps)
qed

lemma agent_llm_step_outputs:
  assumes "serde_laws sj"
    and "step_outputs sj st the_agent_graph ex [node_ok ''llm'' v] = Some (mid, evs, next, hard)"
  shows "hard = None" and "get (state mid) LLM_STATE_KEY = Some v"
    and "next = [plain (if carries_tool_call v then ''tool'' else ''end'')]"
proof -
  from assms(1) have ptr: "json_pointer (pointer sj)"
    by (simp add: serde_laws_def)
  from assms(2) obtain evs0 where
    out: "apply_output sj st the_agent_graph (ex, []) (node_ok ''llm'' v) = Some (mid, evs0)"
    and rec: "record_edges sj the_agent_graph mid (node_ok ''llm'' v) [] None = (next, hard)"
    by (auto simp: step_outputs_def step_output_def panic_simps fan_handled_output_def node_ok_def
        plain_def agent_facts split: prod.splits)
  show st: "get (state mid) LLM_STATE_KEY = Some v"
    by (rule agent_llm_apply_output [OF assms(1) out])
  show "hard = None" using rec by (simp add: record_edges_def node_ok_def)
  have "evaluate_condition (pointer sj) (CTruthy llm_tool_call_pointer) (state mid) =
      carries_tool_call v"
    by (simp add: json_pointer.llm_tool_call [OF ptr] st carries_tool_call_def)
  then show "next = [plain (if carries_tool_call v then ''tool'' else ''end'')]"
    using rec
    by (auto simp: record_edges_def node_ok_def firing_edges_def agent_facts plain_def)
qed

text \<open>Unless the step fails, the agent graph sends an \<^verbatim>\<open>llm\<close> output that carries a tool
  call to the tool node and completes on any other, with the output's reply as the answer.\<close>

lemma agent_llm_routes:
  assumes "serde_laws sj" and "agent_graph = Some g"
    and "step sj st g ex [node_ok ''llm'' v] now = Some (ex', evs)" and "status ex' \<noteq> Failed"
  shows "get (state ex') LLM_STATE_KEY = Some v \<and>
    (if carries_tool_call v
     then status ex' = Ready \<and> current_nodes ex' = [plain ''tool'']
     else status ex' = Completed \<and>
       payload (last evs) = ExecutionCompleted (state ex') (get v REPLY_FIELD))"
proof -
  from assms(1) have ptr: "json_pointer (pointer sj)"
    by (simp add: serde_laws_def)
  have g: "g = the_agent_graph" using assms(2) agent_graph_Some by (metis option.inject)
  from assms(3) g obtain mid evs1 "next" hard where
    outs: "step_outputs sj st the_agent_graph ex [node_ok ''llm'' v] = Some (mid, evs1, next, hard)"
    and set: "settle sj st the_agent_graph False now (mid, evs1, next, hard) = (ex', evs)"
    by (auto elim!: step_Some)
  note o = agent_llm_step_outputs [OF assms(1) outs]
  from set assms(4) o show ?thesis
    by (auto simp: settle_def Let_def fail_execution_def complete_execution_def park_next_def
        expand_completed_fan_ins_def reaches_end_def agent_facts plain_def answer_def
        json_pointer.llm_reply [OF ptr] split: if_splits)
qed

end
