(* ===== verification/Core_Witnesses.thy ===== *)
theory Core_Witnesses
  imports Fan_In Builder
begin

text \<open>
  Concrete runs of the engine core, computed with the reference codecs: one per property of the
  core that has hypotheses, showing that they can hold together. The sample execution, the
  stamps and the collection \<open>eval_defs\<close> that evaluates a step are shared with the later theories.
\<close>

section \<open>A sample execution\<close>

definition sample_execution :: "node_id \<Rightarrow> execution" where
  "sample_execution start =
     \<lparr>exec_id = 7, graph_id = ''agent'', graph_version = 1, user_id = None, status = Ready,
      current_nodes = [plain start], state = empty_object, iteration = 0, max_iterations = 10,
      deadline = None, budget = budget_new 10000 100 3600000000000\<rparr>"

definition sample_stamps :: stamps where
  "sample_stamps i = (of_nat i, int i)"

definition reply_value :: json where
  "reply_value = json_object [(''tool_call'', Null), (''reply'', String ''hi'')]"

definition tool_call_value :: json where
  "tool_call_value =
     json_object [(''tool_call'', json_object [(''name'', String ''web_search'')]), (''reply'', Null)]"

lemmas step_unfold = step_def step_outputs_def step_output_def apply_output_def
  apply_task_value_def apply_fast_tool_call_def charge_budget_def reduce_state_def settle_def
  Let_def fail_execution_def complete_execution_def park_next_def expand_completed_fan_ins_def
  reaches_end_def answer_def fan_handled_output_def record_edges_def firing_edges_def
  state_key_def reducer_of_def extra_tool_call_charge_def usage_tokens_def deadline_passed_def
  push_event_def

lemmas budget_unfold = charge_def budget_new_def exhausted_def saturating_sub_def
  saturating_add_def ONE_TOOL_CALL_def UNMEASURED_WALL_TIME_def

lemmas eval_defs = step_unfold budget_unfold sample_execution_def plain_def node_ok_def
  agent_facts agent_llm_config_def agent_tool_config_def ref_serde_def ref_read_reducer_def
  child_def state_keys llm_tool_call_pointer_def llm_reply_pointer_def reply_value_def
  tool_call_value_def json_object_def

lemma agent_replies:
  "\<exists>ex' evs. step ref_serde sample_stamps the_agent_graph (sample_execution ''llm'')
     [node_ok ''llm'' reply_value] 0 = Some (ex', evs) \<and> status ex' = Completed"
  by (simp add: eval_defs)

lemma agent_calls:
  "\<exists>ex' evs. step ref_serde sample_stamps the_agent_graph (sample_execution ''llm'')
     [node_ok ''llm'' tool_call_value] 0 = Some (ex', evs) \<and> status ex' = Ready"
  by (simp add: eval_defs word_le_nat_alt)

section \<open>Witnesses\<close>

theorem step_event_log_witness:
  "\<exists>ex' evs tail. step ref_serde sample_stamps the_agent_graph (sample_execution ''llm'')
     [node_ok ''llm'' reply_value] 0 = Some (ex', evs) \<and>
     map payload evs = [NodeCompleted ''llm'' reply_value] @ tail \<and>
     settled ref_serde the_agent_graph ex' tail"
proof -
  from agent_replies obtain ex' evs where
    run: "step ref_serde sample_stamps the_agent_graph (sample_execution ''llm'')
      [node_ok ''llm'' reply_value] 0 = Some (ex', evs)" by blast
  from step_event_log [OF run] run show ?thesis
    by (fastforce simp: output_payload_def node_ok_def plain_def)
qed

theorem live_run_bounded_witness:
  "\<exists>ex'. live_run ref_serde the_agent_graph 1 (sample_execution ''llm'') ex' \<and>
     (0::nat) + 1 < 10 \<and> unat (iteration ex') = 1"
proof -
  from agent_calls obtain ex' evs where
    "step ref_serde sample_stamps the_agent_graph (sample_execution ''llm'')
      [node_ok ''llm'' tool_call_value] 0 = Some (ex', evs)" and "live ex'"
    by (auto simp: live_def)
  then have run: "live_run ref_serde the_agent_graph (Suc 0) (sample_execution ''llm'') ex'"
    by (rule live_run_Suc [OF live_run_0])
  have "iteration (sample_execution ''llm'') < max_iterations (sample_execution ''llm'')"
    by (simp add: sample_execution_def)
  from live_run_bounded [OF run this] run show ?thesis
    by (auto simp: sample_execution_def)
qed

lemma failed_output_fails_execution_witness:
  "\<exists>ex' evs. step ref_serde sample_stamps the_agent_graph (sample_execution ''llm'')
     [\<lparr>out_node = plain ''llm'', out_result = Inl ''boom''\<rparr>] 0 = Some (ex', evs) \<and>
     status ex' = Failed \<and>
     payload (last evs) = ExecutionFailed ''node llm failed with no Failed edge: boom''"
proof -
  let ?out = "\<lparr>out_node = plain ''llm'', out_result = Inl ''boom''\<rparr>"
  obtain ex' evs where
    run: "step ref_serde sample_stamps the_agent_graph (sample_execution ''llm'') [?out] 0 =
      Some (ex', evs)"
    by (simp add: eval_defs)
  have fail: "failing the_agent_graph ?out"
    by (simp add: failing_def plain_def agent_facts)
  from failed_output_fails_execution [OF run _ fail] run fail show ?thesis
    by (simp add: failure_text_def plain_def)
qed

lemma step_activates_declared_nodes_witness:
  "\<exists>ex' evs. step ref_serde sample_stamps the_agent_graph (sample_execution ''llm'')
     [node_ok ''llm'' tool_call_value] 0 = Some (ex', evs) \<and>
     list_all (\<lambda>a. active_id a \<in> node_id_of ` set (nodes the_agent_graph)) (current_nodes ex')"
proof -
  from agent_calls obtain ex' evs where
    run: "step ref_serde sample_stamps the_agent_graph (sample_execution ''llm'')
      [node_ok ''llm'' tool_call_value] 0 = Some (ex', evs)" and live: "live ex'"
    by (auto simp: live_def)
  have valid: "validate the_agent_graph = Inr ()"
    by (simp add: the_agent_graph_def built_in_defs validate_def validation_problems_def
        edge_problems_def)
  have start: "list_all (\<lambda>a. active_id a \<in> node_id_of ` set (nodes the_agent_graph))
      (current_nodes (sample_execution ''llm''))"
    by (simp add: sample_execution_def plain_def the_agent_graph_def built_in_defs)
  from step_activates_declared_nodes [OF valid run live start] run show ?thesis by blast
qed

theorem step_never_panics_witness:
  "\<exists>ex' evs. step ref_serde sample_stamps the_agent_graph (sample_execution ''llm'')
     [node_ok ''llm'' reply_value] 0 = Some (ex', evs) \<and> state_ok (state ex')"
proof (rule step_never_panics)
  show "state_ok (state (sample_execution ''llm''))"
    by (simp add: sample_execution_def state_ok_def)
  show "reserved_key_free the_agent_graph"
    by (simp add: reserved_key_free_def the_agent_graph_def built_in_defs state_key_def
        agent_llm_config_def agent_tool_config_def state_keys FAN_IN_TABLE_def)
  show "\<forall>out \<in> set [node_ok ''llm'' reply_value]. branch_carried the_agent_graph out"
    by (simp add: branch_carried_def node_ok_def plain_def agent_facts)
qed

definition opened_barrier :: execution where
  "opened_barrier = (sample_execution ''work'')\<lparr>state :=
     json_object [(FAN_IN_TABLE, json_object [(''join'', empty_slot 2)])]\<rparr>"

lemma barrier_opened: "barrier (state opened_barrier) ''join'' = Some (replicate 2 Null)"
  by (simp add: opened_barrier_def barrier_def empty_slot_def)


lemma null_branch_never_completes_barrier_witness:
  "\<exists>ex'. record_branches (FanIn ''join'' ''all'' Append) ''work''
     (\<lambda>j. if j = 1 then Null else String ''x'') [1, 0] (opened_barrier, []) = Some (ex', [])"
proof -
  have ms: "mset [1, 0] = mset [0..<2::nat]" by (simp add: upt_rec)
  show ?thesis
    by (rule null_branch_never_completes_barrier [OF barrier_opened _ _ _ ms, of 1]) simp_all
qed

lemma agent_llm_routes_witness:
  "\<exists>ex' evs. step ref_serde sample_stamps the_agent_graph (sample_execution ''llm'')
     [node_ok ''llm'' tool_call_value] 0 = Some (ex', evs) \<and>
     current_nodes ex' = [plain ''tool'']"
proof -
  from agent_calls obtain ex' evs where
    run: "step ref_serde sample_stamps the_agent_graph (sample_execution ''llm'')
      [node_ok ''llm'' tool_call_value] 0 = Some (ex', evs)" and "status ex' \<noteq> Failed"
    by auto
  moreover have "carries_tool_call tool_call_value"
    by (simp add: carries_tool_call_def tool_call_value_def state_keys json_object_def)
  ultimately show ?thesis
    using agent_llm_routes [OF ref.serde_laws_axioms agent_graph_Some run] by auto
qed

end
