(* ===== verification/Engine_Db.thy ===== *)
theory Engine_Db
  imports Codecs
begin

text \<open>
  The storage of the engine service (\<^verbatim>\<open>services/engine/src/entity\<close>, \<^verbatim>\<open>execution_event.rs\<close>) and the
  conversions between its rows and the types of engine-core (\<^verbatim>\<open>wire.rs\<close>). A table is a list of
  row records; a column of a signed type is an \<^typ>\<open>int\<close> and the conversions write out the
  ranges. A transaction is one definition over the whole database record, so it commits or
  leaves the database as it was. The reachability of the database server is not modelled: every
  statement runs, and the errors are the constraint violations and the code's own refusals.
\<close>

section \<open>What the platform provides\<close>

text \<open>
  \<open>timer_until\<close> is the SQL expression of \<^verbatim>\<open>ELAPSED_TIMER_WAIT\<close>: the instant under
  \<^verbatim>\<open>Timer.until\<close> of a stored wait, if there is one. \<open>from_std\<close> is
  \<^verbatim>\<open>chrono::Duration::from_std\<close>, \<open>next_fire\<close> the schedule iterator of the \<^verbatim>\<open>cron\<close> crate after
  parsing (\<open>Inl\<close>: the expression does not parse), \<open>show_uuid\<close> and \<open>rfc3339\<close> the printed forms.
\<close>

record platform =
  codec :: serde
  show_uuid :: "uuid \<Rightarrow> string"
  rfc3339 :: "instant \<Rightarrow> string"
  timer_until :: "json \<Rightarrow> instant option"
  from_std :: "duration \<Rightarrow> int option"
  next_fire :: "string \<Rightarrow> instant \<Rightarrow> string + instant option"

locale platform_laws = serde_laws "codec pf" for pf :: platform +
  assumes timer_until_written:
      "timer_until pf (write_wait_kind (codec pf) w) = (case w of Timer u \<Rightarrow> Some u | _ \<Rightarrow> None)"
    and from_std_small: "d < 2 ^ 63 \<Longrightarrow> from_std pf d = Some (int d)"
    and show_uuid_inj: "show_uuid pf u = show_uuid pf v \<longleftrightarrow> u = v"
    and next_fire_later: "next_fire pf expr now = Inr (Some t) \<Longrightarrow> now < t"

section \<open>Rows\<close>

datatype db_status = DbReady | DbRunning | DbWaiting | DbCompleted | DbFailed | DbCancelled

text \<open>The numbers of the \<^verbatim>\<open>num_value\<close> attributes, which the partial indexes spell out.\<close>

fun num_value :: "db_status \<Rightarrow> int" where
  "num_value DbReady = 0"
| "num_value DbRunning = 1"
| "num_value DbWaiting = 2"
| "num_value DbCompleted = 3"
| "num_value DbFailed = 4"
| "num_value DbCancelled = 5"

lemma num_value_inj [simp]: "num_value a = num_value b \<longleftrightarrow> a = b"
  by (cases a; cases b) simp_all

instantiation db_status :: linorder
begin

definition less_eq_db_status :: "db_status \<Rightarrow> db_status \<Rightarrow> bool" where
  "less_eq_db_status a b \<longleftrightarrow> num_value a \<le> num_value b"

definition less_db_status :: "db_status \<Rightarrow> db_status \<Rightarrow> bool" where
  "less_db_status a b \<longleftrightarrow> num_value a < num_value b"

instance
  by standard (auto simp: less_eq_db_status_def less_db_status_def)

end

definition CLAIMABLE_STATUSES :: "db_status list" where
  "CLAIMABLE_STATUSES = [DbReady, DbRunning, DbWaiting]"

definition TERMINAL_STATUSES :: "db_status list" where
  "TERMINAL_STATUSES = [DbCompleted, DbFailed, DbCancelled]"

text \<open>The two lists split the statuses, and every claimable one is stored below every terminal one.\<close>

lemma statuses_split: "s \<in> set TERMINAL_STATUSES \<longleftrightarrow> s \<notin> set CLAIMABLE_STATUSES"
  by (cases s) (simp_all add: TERMINAL_STATUSES_def CLAIMABLE_STATUSES_def)

lemma claimable_below_terminal:
  "a \<in> set CLAIMABLE_STATUSES \<Longrightarrow> b \<in> set TERMINAL_STATUSES \<Longrightarrow> a < b"
  by (auto simp: TERMINAL_STATUSES_def CLAIMABLE_STATUSES_def less_db_status_def)

record execution_row =
  row_id :: uuid
  row_graph_id :: string
  row_graph_version :: int
  row_user_id :: "uuid option"
  row_status :: db_status
  row_wait_kind :: "json option"
  row_current_nodes :: json
  row_iteration :: int
  row_max_iterations :: int
  row_deadline :: "instant option"
  row_budget :: json
  lease_owner :: "string option"
  lease_until :: "instant option"
  row_created_at :: instant
  row_updated_at :: instant

record checkpoint_row =
  cpr_id :: int
  cpr_execution_id :: uuid
  cpr_step :: int
  cpr_schema_version :: int
  cpr_state :: json
  cpr_current_nodes :: json
  cpr_created_at :: instant

record event_row =
  evr_id :: int
  evr_event_id :: uuid
  evr_execution_id :: uuid
  evr_user_id :: "uuid option"
  evr_version :: int
  evr_causation_id :: "uuid option"
  evr_occurred_at :: instant
  evr_payload :: json

record graph_row =
  gr_id :: int
  gr_graph_id :: string
  gr_version :: int
  gr_user_id :: "uuid option"
  gr_definition :: json
  gr_created_at :: instant

record schedule_row =
  sc_id :: int
  sc_graph_id :: string
  sc_graph_version :: "int option"
  sc_cron_expr :: string
  sc_input_json :: json
  sc_user_id :: "uuid option"
  enabled :: bool
  next_run_at :: instant
  last_execution_id :: "uuid option"
  sc_created_at :: instant
  sc_updated_at :: instant

text \<open>
  The tables, the sequences behind their \<^verbatim>\<open>bigserial\<close> keys, and the number of
  \<^verbatim>\<open>NOTIFY engine_tick\<close> announcements that have been committed.
\<close>

record engine_db =
  executions :: "execution_row list"
  checkpoints :: "checkpoint_row list"
  event_rows :: "event_row list"
  graph_rows :: "graph_row list"
  schedule_rows :: "schedule_row list"
  checkpoint_seq :: int
  event_seq :: int
  graph_seq :: int
  schedule_seq :: int
  notified :: nat

definition empty_db :: engine_db where
  "empty_db = \<lparr>executions = [], checkpoints = [], event_rows = [], graph_rows = [],
     schedule_rows = [], checkpoint_seq = 1, event_seq = 1, graph_seq = 1, schedule_seq = 1,
     notified = 0\<rparr>"

definition UNIQUE_VIOLATION :: string where
  "UNIQUE_VIOLATION = ''duplicate key value violates unique constraint''"

definition execution_exists :: "engine_db \<Rightarrow> uuid \<Rightarrow> bool" where
  "execution_exists db i \<longleftrightarrow> list_ex (\<lambda>r. row_id r = i) (executions db)"

definition find_execution :: "engine_db \<Rightarrow> uuid \<Rightarrow> execution_row option" where
  "find_execution db i = find (\<lambda>r. row_id r = i) (executions db)"

definition insert_execution :: "engine_db \<Rightarrow> execution_row \<Rightarrow> string + engine_db" where
  "insert_execution db r =
     (if execution_exists db (row_id r) then Inl UNIQUE_VIOLATION
      else Inr (db\<lparr>executions := executions db @ [r]\<rparr>))"

text \<open>The unique key \<^verbatim>\<open>execution_and_step\<close>.\<close>

definition step_taken :: "engine_db \<Rightarrow> uuid \<Rightarrow> int \<Rightarrow> bool" where
  "step_taken db i n \<longleftrightarrow> list_ex (\<lambda>r. cpr_execution_id r = i \<and> cpr_step r = n) (checkpoints db)"

definition insert_checkpoint :: "engine_db \<Rightarrow> checkpoint_row \<Rightarrow> string + engine_db" where
  "insert_checkpoint db r =
     (if step_taken db (cpr_execution_id r) (cpr_step r) then Inl UNIQUE_VIOLATION
      else Inr (db\<lparr>checkpoints := checkpoints db @ [r\<lparr>cpr_id := checkpoint_seq db\<rparr>],
                   checkpoint_seq := checkpoint_seq db + 1\<rparr>))"

definition insert_event :: "event_row \<Rightarrow> engine_db \<Rightarrow> engine_db" where
  "insert_event r db =
     db\<lparr>event_rows := event_rows db @ [r\<lparr>evr_id := event_seq db\<rparr>], event_seq := event_seq db + 1\<rparr>"

definition notify :: "engine_db \<Rightarrow> engine_db" where
  "notify db = db\<lparr>notified := Suc (notified db)\<rparr>"

section \<open>wire.rs\<close>

definition I16_MAX :: int where "I16_MAX = 2 ^ 15 - 1"
definition I32_MAX :: int where "I32_MAX = 2 ^ 31 - 1"

definition counter_column :: "int \<Rightarrow> string \<Rightarrow> string + u32" where
  "counter_column v col =
     (if 0 \<le> v \<and> v < 2 ^ 32 then Inr (word_of_int v)
      else Inl (''executions.'' @ col @ '' is out of range for a counter''))"

fun status_to_columns :: "serde \<Rightarrow> status \<Rightarrow> db_status \<times> json option" where
  "status_to_columns sj Ready = (DbReady, None)"
| "status_to_columns sj Running = (DbRunning, None)"
| "status_to_columns sj (Waiting w) = (DbWaiting, Some (write_wait_kind sj w))"
| "status_to_columns sj Completed = (DbCompleted, None)"
| "status_to_columns sj Failed = (DbFailed, None)"
| "status_to_columns sj Cancelled = (DbCancelled, None)"

datatype proto_status = ProtoReady | ProtoRunning | ProtoWaiting | ProtoCompleted | ProtoFailed
  | ProtoCancelled

definition status_to_proto :: "serde \<Rightarrow> status \<Rightarrow> proto_status" where
  "status_to_proto sj s =
     (case fst (status_to_columns sj s) of
        DbReady \<Rightarrow> ProtoReady
      | DbRunning \<Rightarrow> ProtoRunning
      | DbWaiting \<Rightarrow> ProtoWaiting
      | DbCompleted \<Rightarrow> ProtoCompleted
      | DbFailed \<Rightarrow> ProtoFailed
      | DbCancelled \<Rightarrow> ProtoCancelled)"

definition columns_to_status :: "serde \<Rightarrow> db_status \<Rightarrow> json option \<Rightarrow> string + status" where
  "columns_to_status sj s wait =
     (case s of
        DbReady \<Rightarrow> Inr Ready
      | DbRunning \<Rightarrow> Inr Running
      | DbWaiting \<Rightarrow>
          and_then (ok_or ''waiting status with no wait_kind column'' wait) (\<lambda>w.
          and_then (decode sj (read_wait_kind sj) ''WaitKind'' w) (\<lambda>on. Inr (Waiting on)))
      | DbCompleted \<Rightarrow> Inr Completed
      | DbFailed \<Rightarrow> Inr Failed
      | DbCancelled \<Rightarrow> Inr Cancelled)"

definition checkpoint_to_active_model :: "serde \<Rightarrow> instant \<Rightarrow> checkpoint \<Rightarrow> checkpoint_row" where
  "checkpoint_to_active_model sj now cp =
     \<lparr>cpr_id = 0, cpr_execution_id = cp_execution_id cp,
      cpr_step = min (uint (cp_step cp)) I32_MAX,
      cpr_schema_version = min (uint (schema_version cp)) I16_MAX,
      cpr_state = cp_state cp, cpr_current_nodes = write_active_nodes sj (cp_current_nodes cp),
      cpr_created_at = now\<rparr>"

definition checkpoint_from_model :: "serde \<Rightarrow> checkpoint_row \<Rightarrow> string + checkpoint" where
  "checkpoint_from_model sj m =
     (if cpr_schema_version m \<noteq> min (uint CHECKPOINT_SCHEMA_VERSION) I16_MAX
      then Inl (''checkpoint schema_version '' @ show_int (cpr_schema_version m) @
        '' does not match the running binary's '' @ show_nat (unat CHECKPOINT_SCHEMA_VERSION))
      else and_then (decode sj (read_active_nodes sj) ''Vec<ActiveNode>'' (cpr_current_nodes m)) (\<lambda>ns.
        Inr \<lparr>schema_version =
               (if 0 \<le> cpr_schema_version m \<and> cpr_schema_version m < 2 ^ 16
                then word_of_int (cpr_schema_version m) else 0),
             cp_execution_id = cpr_execution_id m,
             cp_step = (if 0 \<le> cpr_step m \<and> cpr_step m < 2 ^ 32 then word_of_int (cpr_step m) else 0),
             cp_state = cpr_state m, cp_current_nodes = ns\<rparr>))"

definition event_to_active_model :: "serde \<Rightarrow> event \<Rightarrow> event_row" where
  "event_to_active_model sj e =
     \<lparr>evr_id = 0, evr_event_id = event_id e, evr_execution_id = correlation_id e,
      evr_user_id = event_user_id e, evr_version = min (uint (event_version e)) I16_MAX,
      evr_causation_id = causation_id e, evr_occurred_at = occurred_at e,
      evr_payload = write_payload sj (payload e)\<rparr>"

section \<open>Rows and values\<close>

lemma find_execution_Some: "find_execution db i = Some r \<Longrightarrow> r \<in> set (executions db) \<and> row_id r = i"
  by (auto simp: find_execution_def find_Some_iff)

lemma find_execution_None: "find_execution db i = None \<longleftrightarrow> \<not> execution_exists db i"
  by (auto simp: find_execution_def find_None_iff execution_exists_def list_ex_iff)

lemma insert_execution_eq_Inr [result_simps]:
  "insert_execution db r = Inr db' \<longleftrightarrow>
     \<not> execution_exists db (row_id r) \<and> db' = db\<lparr>executions := executions db @ [r]\<rparr>"
  by (auto simp: insert_execution_def)

lemma insert_checkpoint_eq_Inr [result_simps]:
  "insert_checkpoint db r = Inr db' \<longleftrightarrow>
     \<not> step_taken db (cpr_execution_id r) (cpr_step r) \<and>
     db' = db\<lparr>checkpoints := checkpoints db @ [r\<lparr>cpr_id := checkpoint_seq db\<rparr>],
              checkpoint_seq := checkpoint_seq db + 1\<rparr>"
  by (auto simp: insert_checkpoint_def)

lemma uint_u32_of_int: "0 \<le> v \<Longrightarrow> v < 2 ^ 32 \<Longrightarrow> uint (word_of_int v :: u32) = v"
  by (simp add: uint_word_of_int)

lemma counter_column_eq_Inr [result_simps]:
  "counter_column v col = Inr n \<longleftrightarrow> 0 \<le> v \<and> v < 2 ^ 32 \<and> uint n = v"
  by (auto simp: counter_column_def uint_u32_of_int)

context serde_laws
begin

lemma status_roundtrip:
  "columns_to_status sj (fst (status_to_columns sj s)) (snd (status_to_columns sj s)) = Inr s"
  by (cases s) (simp_all add: columns_to_status_def wait_kind_inverse)

lemma checkpoint_roundtrip:
  assumes "schema_version cp = CHECKPOINT_SCHEMA_VERSION" and "cp_step cp < 2 ^ 31"
  shows "checkpoint_from_model sj (checkpoint_to_active_model sj now cp) = Inr cp"
proof -
  have "uint (cp_step cp) < 2 ^ 31"
    using assms(2) by (simp add: word_less_def)
  then have "min (uint (cp_step cp)) I32_MAX = uint (cp_step cp)"
    by (simp add: I32_MAX_def)
  moreover have "(0 \<le> uint (cp_step cp) \<and> uint (cp_step cp) < 2 ^ 32)"
    using \<open>uint (cp_step cp) < 2 ^ 31\<close> by simp
  ultimately show ?thesis
    using assms(1)
    by (cases cp) (simp add: checkpoint_from_model_def checkpoint_to_active_model_def
        CHECKPOINT_SCHEMA_VERSION_def I16_MAX_def active_nodes_inverse word_of_int_uint)
qed

end

end
