(* ===== verification/Tick.thy ===== *)
theory Tick
  imports Engine_Db Step
begin

text \<open>
  \<^verbatim>\<open>services/engine/src/lease.rs\<close>, \<^verbatim>\<open>store.rs\<close> and \<^verbatim>\<open>sweep.rs\<close>: claiming an execution for a
  worker, releasing it, committing the outcome of a super-step in one transaction, and deleting
  what is past its retention. The claim locks with \<^verbatim>\<open>SKIP LOCKED\<close>: \<open>locked\<close> says which rows
  another open transaction holds at that moment. The \<open>i\<close>-th reading of the clock by one
  operation is \<open>clock i\<close>.
\<close>

section \<open>lease.rs\<close>

type_synonym clock = "nat \<Rightarrow> instant"

definition nanos_per_second :: nat where "nanos_per_second = 1000000000"

definition FALLBACK_LEASE :: int where "FALLBACK_LEASE = int (30 * nanos_per_second)"

definition elapsed_timer_wait :: "platform \<Rightarrow> instant \<Rightarrow> execution_row \<Rightarrow> bool" where
  "elapsed_timer_wait pf now r =
     (case Option.bind (row_wait_kind r) (timer_until pf) of None \<Rightarrow> False | Some u \<Rightarrow> u \<le> now)"

definition claimable :: "platform \<Rightarrow> instant \<Rightarrow> execution_row \<Rightarrow> bool" where
  "claimable pf now r \<longleftrightarrow>
     row_status r = DbReady \<or>
     (row_status r = DbRunning \<and> (case lease_until r of None \<Rightarrow> False | Some u \<Rightarrow> u < now)) \<or>
     (row_status r = DbWaiting \<and> elapsed_timer_wait pf now r)"

definition lease_end :: "platform \<Rightarrow> instant \<Rightarrow> duration \<Rightarrow> instant" where
  "lease_end pf now lease_for =
     now + (case from_std pf lease_for of None \<Rightarrow> FALLBACK_LEASE | Some d \<Rightarrow> d)"

definition take_lease :: "string \<Rightarrow> instant \<Rightarrow> instant \<Rightarrow> execution_row \<Rightarrow> execution_row" where
  "take_lease owner until now r =
     r\<lparr>row_status := DbRunning, lease_owner := Some owner, lease_until := Some until,
       row_updated_at := now\<rparr>"

definition claim_one_ready ::
  "platform \<Rightarrow> (uuid \<Rightarrow> bool) \<Rightarrow> instant \<Rightarrow> engine_db \<Rightarrow> string \<Rightarrow> duration \<Rightarrow>
     engine_db \<times> uuid option" where
  "claim_one_ready pf locked now db owner lease_for =
     (case min_by row_updated_at
             (filter (\<lambda>r. claimable pf now r \<and> \<not> locked (row_id r)) (executions db)) of
        None \<Rightarrow> (db, None)
      | Some row \<Rightarrow>
          (db\<lparr>executions := update_where (\<lambda>r. row_id r = row_id row)
                (take_lease owner (lease_end pf now lease_for) now) (executions db)\<rparr>,
           Some (row_id row)))"

definition expire_abandoned_leases :: "instant \<Rightarrow> engine_db \<Rightarrow> engine_db \<times> nat" where
  "expire_abandoned_leases now db =
     (let abandoned = (\<lambda>r. row_status r = DbRunning \<and>
            (case lease_until r of None \<Rightarrow> False | Some u \<Rightarrow> now < u)) in
      (db\<lparr>executions := update_where abandoned (\<lambda>r. r\<lparr>lease_until := Some now\<rparr>) (executions db)\<rparr>,
       rows_affected abandoned (executions db)))"

text \<open>The filter on the owner compares with the name, or requires the column to be null.\<close>

definition held_by :: "uuid \<Rightarrow> string option \<Rightarrow> execution_row \<Rightarrow> bool" where
  "held_by i owner r \<longleftrightarrow> row_id r = i \<and> lease_owner r = owner"

definition released :: "db_status \<Rightarrow> json option \<Rightarrow> json \<Rightarrow> instant \<Rightarrow> execution_row \<Rightarrow> execution_row"
  where
  "released st wait ns now r =
     r\<lparr>row_status := st, row_wait_kind := wait, row_current_nodes := ns, lease_owner := None,
       lease_until := None, row_updated_at := now\<rparr>"

definition release_lease ::
  "instant \<Rightarrow> engine_db \<Rightarrow> uuid \<Rightarrow> string option \<Rightarrow> db_status \<Rightarrow> json option \<Rightarrow> json \<Rightarrow>
     engine_db \<times> nat" where
  "release_lease now db i owner st wait ns =
     (db\<lparr>executions := update_where (held_by i owner) (released st wait ns now) (executions db)\<rparr>,
      rows_affected (held_by i owner) (executions db))"

section \<open>store.rs\<close>

definition STORAGE_FAILURE :: string where
  "STORAGE_FAILURE = ''engine could not reach its own storage''"

definition LEASE_LOST :: string where
  "LEASE_LOST = ''another worker holds this execution's lease''"

definition save_checkpoint :: "serde \<Rightarrow> clock \<Rightarrow> engine_db \<Rightarrow> checkpoint \<Rightarrow> string + engine_db" where
  "save_checkpoint sj clock db cp =
     map_err (\<lambda>_. STORAGE_FAILURE) (insert_checkpoint db (checkpoint_to_active_model sj (clock 0) cp))"

definition latest_row :: "engine_db \<Rightarrow> uuid \<Rightarrow> checkpoint_row option" where
  "latest_row db i = max_by cpr_step (filter (\<lambda>r. cpr_execution_id r = i) (checkpoints db))"

definition latest :: "serde \<Rightarrow> engine_db \<Rightarrow> uuid \<Rightarrow> string + checkpoint option" where
  "latest sj db i =
     (case latest_row db i of
        None \<Rightarrow> Inr None
      | Some m \<Rightarrow> and_then (checkpoint_from_model sj m) (\<lambda>cp. Inr (Some cp)))"

definition step_checkpoint :: "uuid \<Rightarrow> u32 \<Rightarrow> execution \<Rightarrow> checkpoint" where
  "step_checkpoint i n ex =
     \<lparr>schema_version = CHECKPOINT_SCHEMA_VERSION, cp_execution_id = i, cp_step = n,
      cp_state = state ex, cp_current_nodes = current_nodes ex\<rparr>"

definition commit_step ::
  "serde \<Rightarrow> clock \<Rightarrow> engine_db \<Rightarrow> uuid \<Rightarrow> string option \<Rightarrow> u32 \<Rightarrow> execution \<Rightarrow> event list \<Rightarrow>
     string + engine_db" where
  "commit_step sj clock db i owner n ex evs =
     (let (st, wait) = status_to_columns sj (status ex);
          ns = write_active_nodes sj (current_nodes ex)
      in and_then (insert_checkpoint db (checkpoint_to_active_model sj (clock 0) (step_checkpoint i n ex))) (\<lambda>db.
         let db = fold (\<lambda>e. insert_event (event_to_active_model sj e)) evs db;
             (db, n) = release_lease (clock 1) db i owner st wait ns
         in if n = 0 then Inl LEASE_LOST else Inr (notify db)))"

section \<open>sweep.rs\<close>

definition sweep_terminal ::
  "platform \<Rightarrow> instant \<Rightarrow> engine_db \<Rightarrow> duration \<Rightarrow> u32 \<Rightarrow> engine_db \<times> nat" where
  "sweep_terminal pf now db retention batch =
     (let cutoff = now - (case from_std pf retention of None \<Rightarrow> 0 | Some d \<Rightarrow> d);
          ids = map row_id (take (unat batch) (sort_key row_updated_at
            (filter (\<lambda>r. row_status r \<in> set TERMINAL_STATUSES \<and> row_updated_at r < cutoff)
              (executions db))))
      in if ids = [] then (db, 0)
         else (db\<lparr>checkpoints := filter (\<lambda>r. cpr_execution_id r \<notin> set ids) (checkpoints db),
                  executions := filter (\<lambda>r. row_id r \<notin> set ids) (executions db)\<rparr>,
               rows_affected (\<lambda>r. row_id r \<in> set ids) (executions db)))"

section \<open>What a claim does\<close>

lemma take_lease_simps [simp]:
  "row_id (take_lease w u t r) = row_id r" "row_status (take_lease w u t r) = DbRunning"
  "lease_owner (take_lease w u t r) = Some w" "lease_until (take_lease w u t r) = Some u"
  "row_graph_id (take_lease w u t r) = row_graph_id r"
  "row_graph_version (take_lease w u t r) = row_graph_version r"
  "row_user_id (take_lease w u t r) = row_user_id r"
  "row_wait_kind (take_lease w u t r) = row_wait_kind r"
  "row_current_nodes (take_lease w u t r) = row_current_nodes r"
  "row_iteration (take_lease w u t r) = row_iteration r"
  "row_max_iterations (take_lease w u t r) = row_max_iterations r"
  "row_deadline (take_lease w u t r) = row_deadline r"
  "row_budget (take_lease w u t r) = row_budget r"
  by (simp_all add: take_lease_def)

lemma released_simps [simp]:
  "row_id (released s w ns t r) = row_id r" "row_status (released s w ns t r) = s"
  "lease_owner (released s w ns t r) = None" "lease_until (released s w ns t r) = None"
  "row_graph_id (released s w ns t r) = row_graph_id r"
  "row_graph_version (released s w ns t r) = row_graph_version r"
  "row_user_id (released s w ns t r) = row_user_id r"
  "row_wait_kind (released s w ns t r) = w"
  "row_current_nodes (released s w ns t r) = ns"
  "row_iteration (released s w ns t r) = row_iteration r"
  "row_max_iterations (released s w ns t r) = row_max_iterations r"
  "row_deadline (released s w ns t r) = row_deadline r"
  "row_budget (released s w ns t r) = row_budget r"
  by (simp_all add: released_def)

text \<open>Projections of the bulk insertion of events.\<close>

lemma insert_events:
  "fold (\<lambda>e. insert_event (event_to_active_model sj e)) evs db =
     db\<lparr>event_rows := event_rows db @
          map (\<lambda>(k, e). (event_to_active_model sj e)\<lparr>evr_id := event_seq db + int k\<rparr>)
            (zip [0..<length evs] evs),
        event_seq := event_seq db + int (length evs)\<rparr>"
proof (induction evs rule: rev_induct)
  case (snoc e evs)
  then show ?case by (simp add: insert_event_def zip_append1 algebra_simps)
qed simp

lemma claim_cases:
  assumes "claim_one_ready pf locked now db owner lease_for = (db', r)"
  obtains "r = None" "db' = db"
      "\<forall>x \<in> set (executions db). claimable pf now x \<longrightarrow> locked (row_id x)"
    | row where "r = Some (row_id row)" "row \<in> set (executions db)" "claimable pf now row"
        "\<not> locked (row_id row)"
        "\<forall>x \<in> set (executions db).
           claimable pf now x \<and> \<not> locked (row_id x) \<longrightarrow> row_updated_at row \<le> row_updated_at x"
        "db' = db\<lparr>executions := update_where (\<lambda>x. row_id x = row_id row)
           (take_lease owner (lease_end pf now lease_for) now) (executions db)\<rparr>"
proof (cases "min_by row_updated_at
    (filter (\<lambda>r. claimable pf now r \<and> \<not> locked (row_id r)) (executions db))")
  case None
  with assms that(1) show ?thesis by (auto simp: claim_one_ready_def filter_empty_conv)
next
  case (Some row)
  with assms that(2) min_by_Some [OF Some] show ?thesis by (auto simp: claim_one_ready_def)
qed

lemma claim_Some:
  "claim_one_ready pf locked now db owner lease_for = (db', Some i) \<Longrightarrow>
     db' = db\<lparr>executions := update_where (\<lambda>x. row_id x = i)
       (take_lease owner (lease_end pf now lease_for) now) (executions db)\<rparr>"
  by (auto simp: claim_one_ready_def split: option.splits)

lemma find_update_where:
  assumes "\<And>r. p r \<Longrightarrow> row_id (f r) = row_id r"
  shows "find (\<lambda>r. row_id r = i) (update_where p f rows) =
    map_option (\<lambda>r. if p r then f r else r) (find (\<lambda>r. row_id r = i) rows)"
  using assms by (induction rows) (auto simp: update_where_def)

text \<open>An unlocked ready execution, or one whose lease has run out, does not go unclaimed.\<close>

lemma claim_progress:
  assumes "x \<in> set (executions db)" and "claimable pf now x" and "\<not> locked (row_id x)"
  obtains i db' where "claim_one_ready pf locked now db owner lease_for = (db', Some i)"
proof -
  obtain db' r where c: "claim_one_ready pf locked now db owner lease_for = (db', r)" by fastforce
  then have "r \<noteq> None" by (rule claim_cases) (use assms in auto)
  with c that show ?thesis by blast
qed

lemma claim_marks_row:
  assumes "claim_one_ready pf locked now db owner lease_for = (db', Some i)"
  obtains row where "find_execution db i = Some row"
    "find_execution db' i = Some (take_lease owner (lease_end pf now lease_for) now row)"
proof -
  from assms obtain row where r: "i = row_id row" "row \<in> set (executions db)"
    "db' = db\<lparr>executions := update_where (\<lambda>x. row_id x = row_id row)
       (take_lease owner (lease_end pf now lease_for) now) (executions db)\<rparr>"
    by (rule claim_cases) auto
  then obtain row' where f: "find_execution db i = Some row'"
    by (cases "find_execution db i")
      (auto simp: find_execution_None execution_exists_def list_ex_iff)
  with r have "find_execution db' i = Some (take_lease owner (lease_end pf now lease_for) now row')"
    using find_execution_Some [OF f]
    by (simp add: find_execution_def find_update_where)
  with f that show ?thesis by blast
qed

section \<open>What a commit does\<close>

definition committed ::
  "serde \<Rightarrow> clock \<Rightarrow> engine_db \<Rightarrow> uuid \<Rightarrow> string option \<Rightarrow> u32 \<Rightarrow> execution \<Rightarrow> event list \<Rightarrow> engine_db"
  where
  "committed sj clock db i owner n ex evs =
     db\<lparr>checkpoints := checkpoints db @
          [(checkpoint_to_active_model sj (clock 0) (step_checkpoint i n ex))\<lparr>cpr_id := checkpoint_seq db\<rparr>],
        checkpoint_seq := checkpoint_seq db + 1,
        event_rows := event_rows db @
          map (\<lambda>(k, e). (event_to_active_model sj e)\<lparr>evr_id := event_seq db + int k\<rparr>)
            (zip [0..<length evs] evs),
        event_seq := event_seq db + int (length evs),
        executions := update_where (held_by i owner)
          (released (fst (status_to_columns sj (status ex))) (snd (status_to_columns sj (status ex)))
            (write_active_nodes sj (current_nodes ex)) (clock 1)) (executions db),
        notified := Suc (notified db)\<rparr>"

text \<open>
  A commit succeeds exactly when the step is new and some row is held as the caller says; then
  everything is written at once, and otherwise the error is the violated key or the lost lease.
\<close>

lemma commit_step_eq:
  "commit_step sj clock db i owner n ex evs =
     (if step_taken db i (min (uint n) I32_MAX) then Inl UNIQUE_VIOLATION
      else if rows_affected (held_by i owner) (executions db) = 0 then Inl LEASE_LOST
      else Inr (committed sj clock db i owner n ex evs))"
  by (simp add: commit_step_def Let_def split_beta insert_checkpoint_def insert_events
      release_lease_def checkpoint_to_active_model_def step_checkpoint_def notify_def
      committed_def)

lemma commit_step_Inr:
  assumes "commit_step sj clock db i owner n ex evs = Inr db'"
  shows "\<not> step_taken db i (min (uint n) I32_MAX)"
    and "\<exists>r \<in> set (executions db). held_by i owner r"
    and "db' = committed sj clock db i owner n ex evs"
  using assms by (auto simp: commit_step_eq split: if_splits)

text \<open>
  \<^verbatim>\<open>services/engine/src/tick.rs\<close>: one unit of the event loop. The executor of a task node is an
  argument, as the type parameter \<^verbatim>\<open>E: TaskExecutor\<close> is in the code; it returns the text of the
  \<^verbatim>\<open>JoinError\<close> when the spawned task panicked, else the task's own result. The nodes run
  concurrently and their outputs arrive in any order: \<open>arrive\<close> is the permutation the run
  happened to produce. \<open>prepare\<close> is everything a tick reads and computes, so that what other
  workers write between the reads and the commit can be expressed.
\<close>

type_synonym task_executor = "string \<Rightarrow> json \<Rightarrow> json \<Rightarrow> string \<Rightarrow> string + (string + json)"
type_synonym arrival = "(string + node_output) list \<Rightarrow> (string + node_output) list"

definition LEASE_DURATION :: duration where
  "LEASE_DURATION = 300 * nanos_per_second"

definition registered_graph :: "engine_db \<Rightarrow> string \<Rightarrow> int \<Rightarrow> graph_row option" where
  "registered_graph db gid v =
     find (\<lambda>r. gr_graph_id r = gid \<and> gr_version r = v) (graph_rows db)"

definition load_execution_and_graph ::
  "platform \<Rightarrow> engine_db \<Rightarrow> uuid \<Rightarrow> string + execution_row \<times> graph" where
  "load_execution_and_graph pf db i =
     and_then (ok_or (''claimed execution '' @ show_uuid pf i @ '' vanished'') (find_execution db i)) (\<lambda>row.
     and_then (ok_or (''graph '' @ row_graph_id row @ ''v'' @ show_int (row_graph_version row) @
         '' not registered'') (registered_graph db (row_graph_id row) (row_graph_version row))) (\<lambda>gr.
     and_then (decode (codec pf) (read_graph (codec pf)) ''Graph'' (gr_definition gr)) (\<lambda>g.
     Inr (row, g))))"

fun is_subgraph :: "node option \<Rightarrow> bool" where
  "is_subgraph (Some (Subgraph _ _ _ _ _)) = True"
| "is_subgraph _ = False"

text \<open>The state and the position of an execution: the latest checkpoint's, else the row's.\<close>

definition current_position ::
  "serde \<Rightarrow> execution_row \<Rightarrow> checkpoint option \<Rightarrow> json \<times> active_node list" where
  "current_position sj row cp =
     (case cp of
        None \<Rightarrow> (empty_object,
          (case read_active_nodes sj (row_current_nodes row) of None \<Rightarrow> [] | Some ns \<Rightarrow> ns))
      | Some c \<Rightarrow> (cp_state c, cp_current_nodes c))"

definition step_after :: "checkpoint option \<Rightarrow> u32" where
  "step_after cp = (case cp of None \<Rightarrow> 0 | Some c \<Rightarrow> cp_step c + 1)"

definition load_current_state ::
  "platform \<Rightarrow> engine_db \<Rightarrow> uuid \<Rightarrow> execution_row \<Rightarrow> graph \<Rightarrow> string + execution \<times> u32" where
  "load_current_state pf db i row g = (let sj = codec pf in
     and_then (latest sj db i) (\<lambda>cp.
     let (st, ns) = current_position sj row cp in
     if list_ex (\<lambda>a. is_subgraph (graph_node g (active_id a))) ns
     then Inl ''Subgraph is not wired at the service level yet''
     else
       and_then (columns_to_status sj (row_status row) (row_wait_kind row)) (\<lambda>status.
       and_then (counter_column (row_graph_version row) ''graph_version'') (\<lambda>version.
       and_then (counter_column (row_iteration row) ''iteration'') (\<lambda>iter.
       and_then (counter_column (row_max_iterations row) ''max_iterations'') (\<lambda>max_iter.
       and_then (decode sj (read_budget sj) ''Budget'' (row_budget row)) (\<lambda>b.
       Inr (\<lparr>exec_id = i, graph_id = row_graph_id row, graph_version = version,
             user_id = row_user_id row, status = status, current_nodes = ns, state = st,
             iteration = iter, max_iterations = max_iter, deadline = row_deadline row,
             budget = b\<rparr>, step_after cp))))))))"

fun fan_out_to :: "node_id \<Rightarrow> node \<Rightarrow> bool" where
  "fan_out_to i (FanOut _ _ _ target) = (target = i)"
| "fan_out_to i _ = False"

definition branch_state :: "pointer_fun \<Rightarrow> json \<Rightarrow> graph \<Rightarrow> active_node \<Rightarrow> json" where
  "branch_state ptr st g a =
     (case branch a of
        None \<Rightarrow> st
      | Some b \<Rightarrow>
          (case find (fan_out_to (active_id a)) (nodes g) of
             Some (FanOut _ source item_var _) \<Rightarrow>
               (case Option.bind (ptr st source) as_array of
                  Some items \<Rightarrow>
                    (if unat b < length items
                     then (case st of
                             Object m \<Rightarrow> Object (fmupd item_var (items ! unat b) m)
                           | _ \<Rightarrow> st)
                     else st)
                | None \<Rightarrow> st)
           | _ \<Rightarrow> st))"

definition idempotency_key :: "platform \<Rightarrow> execution \<Rightarrow> active_node \<Rightarrow> string" where
  "idempotency_key pf ex a =
     show_uuid pf (exec_id ex) @ '':'' @ active_id a @ '':'' @ show_nat (unat (iteration ex))"

definition run_node ::
  "platform \<Rightarrow> task_executor \<Rightarrow> graph \<Rightarrow> execution \<Rightarrow> active_node \<Rightarrow> string + node_output" where
  "run_node pf exec g ex a =
     (case graph_node g (active_id a) of
        Some (Task _ kind config) \<Rightarrow>
          and_then (exec kind config (branch_state (pointer (codec pf)) (state ex) g a)
            (idempotency_key pf ex a)) (\<lambda>r. Inr \<lparr>out_node = a, out_result = r\<rparr>)
      | _ \<Rightarrow> Inr \<lparr>out_node = a, out_result = Inr Null\<rparr>)"

definition run_active_nodes ::
  "platform \<Rightarrow> task_executor \<Rightarrow> arrival \<Rightarrow> graph \<Rightarrow> execution \<Rightarrow> active_node list \<Rightarrow>
     string + node_output list" where
  "run_active_nodes pf exec arrive g ex ns =
     collect_results (arrive (map (run_node pf exec g ex) ns))"

text \<open>A panic of \<^verbatim>\<open>step\<close> unwinds the tick: nothing is committed and the lease stays as it is.\<close>

definition prepare ::
  "platform \<Rightarrow> task_executor \<Rightarrow> arrival \<Rightarrow> stamps \<Rightarrow> instant \<Rightarrow> engine_db \<Rightarrow> uuid \<Rightarrow>
     (string + u32 \<times> execution \<times> event list) option" where
  "prepare pf exec arrive st now db i =
     (case load_execution_and_graph pf db i of
        Inl e \<Rightarrow> Some (Inl e)
      | Inr (row, g) \<Rightarrow>
          (case load_current_state pf db i row g of
             Inl e \<Rightarrow> Some (Inl e)
           | Inr (ex, n) \<Rightarrow>
               (case run_active_nodes pf exec arrive g ex (current_nodes ex) of
                  Inl e \<Rightarrow> Some (Inl e)
                | Inr outs \<Rightarrow>
                    map_option (\<lambda>(ex', evs). Inr (n, ex', evs))
                      (step (codec pf) st g ex outs now))))"

definition process ::
  "platform \<Rightarrow> task_executor \<Rightarrow> arrival \<Rightarrow> stamps \<Rightarrow> clock \<Rightarrow> string \<Rightarrow> engine_db \<Rightarrow> uuid \<Rightarrow>
     (string + engine_db) option" where
  "process pf exec arrive st clock owner db i =
     map_option (\<lambda>r. and_then r (\<lambda>(n, ex, evs).
         commit_step (codec pf) (\<lambda>k. clock (Suc k)) db i (Some owner) n ex evs))
       (prepare pf exec arrive st (clock 0) db i)"

text \<open>
  \<^verbatim>\<open>run_one\<close>: the database afterwards with the result. An error or a panic after the claim
  leaves the claimed database.
\<close>

definition run_one ::
  "platform \<Rightarrow> (uuid \<Rightarrow> bool) \<Rightarrow> task_executor \<Rightarrow> arrival \<Rightarrow> stamps \<Rightarrow> clock \<Rightarrow> string \<Rightarrow> engine_db \<Rightarrow>
     engine_db \<times> (string + bool) option" where
  "run_one pf locked exec arrive st clock owner db =
     (case claim_one_ready pf locked (clock 0) db owner LEASE_DURATION of
        (db, None) \<Rightarrow> (db, Some (Inr False))
      | (db, Some i) \<Rightarrow>
          (case process pf exec arrive st (\<lambda>k. clock (Suc k)) owner db i of
             None \<Rightarrow> (db, None)
           | Some (Inl e) \<Rightarrow> (db, Some (Inl e))
           | Some (Inr db') \<Rightarrow> (db', Some (Inr True))))"

section \<open>Reading a row back\<close>

lemma load_current_state_Inr:
  assumes "load_current_state pf db i row g = Inr (ex, n)"
  obtains cp status version iter max_iter b where "latest (codec pf) db i = Inr cp"
    "n = step_after cp"
    "\<not> list_ex (\<lambda>a. is_subgraph (graph_node g (active_id a))) (snd (current_position (codec pf) row cp))"
    "columns_to_status (codec pf) (row_status row) (row_wait_kind row) = Inr status"
    "counter_column (row_graph_version row) ''graph_version'' = Inr version"
    "counter_column (row_iteration row) ''iteration'' = Inr iter"
    "counter_column (row_max_iterations row) ''max_iterations'' = Inr max_iter"
    "decode (codec pf) (read_budget (codec pf)) ''Budget'' (row_budget row) = Inr b"
    "ex = \<lparr>exec_id = i, graph_id = row_graph_id row, graph_version = version,
             user_id = row_user_id row, status = status,
             current_nodes = snd (current_position (codec pf) row cp),
             state = fst (current_position (codec pf) row cp),
             iteration = iter, max_iterations = max_iter, deadline = row_deadline row,
             budget = b\<rparr>"
  using assms unfolding load_current_state_def Let_def split_beta and_then_eq_Inr
  by (auto simp: and_then_eq_Inr split: if_splits)

text \<open>What a tick loads depends on the row, its graph and its checkpoints only.\<close>

lemma prepare_cong:
  assumes "load_execution_and_graph pf db i = load_execution_and_graph pf db' i"
    and "latest (codec pf) db i = latest (codec pf) db' i"
  shows "prepare pf exec arrive st now db i = prepare pf exec arrive st now db' i"
proof -
  have load: "load_current_state pf db i = load_current_state pf db' i"
    using assms(2) by (intro ext) (simp add: load_current_state_def)
  show ?thesis unfolding prepare_def assms(1) load ..
qed

end
