(* ===== verification/Service.thy ===== *)
theory Service
  imports Tick Builder
begin

text \<open>
  \<^verbatim>\<open>services/engine/src/service.rs\<close>, \<^verbatim>\<open>control.rs\<close>, \<^verbatim>\<open>owned.rs\<close>, \<^verbatim>\<open>error.rs\<close> and
  \<^verbatim>\<open>builtin_graphs.rs\<close>: registering graphs, starting executions, reading them back and
  interrupting, resuming or cancelling them. A fresh UUID is an argument; clock readings are
  numbered per operation. The log lines are left out.
\<close>

section \<open>error.rs\<close>

datatype engine_error =
    InvalidGraph string
  | GraphNotFound string "int option"
  | ExecutionNotFound uuid
  | NotYours uuid
  | InvalidRequest string
  | Busy string
  | Storage string
  | Db string
  | JsonError string

definition INTERNAL_FAILURE :: string where
  "INTERNAL_FAILURE = ''engine could not complete the request''"

fun show_version :: "int option \<Rightarrow> string" where
  "show_version None = ''None''"
| "show_version (Some v) = ''Some('' @ show_int v @ '')''"

fun error_text :: "platform \<Rightarrow> engine_error \<Rightarrow> string" where
  "error_text pf (InvalidGraph m) = ''invalid graph: '' @ m"
| "error_text pf (GraphNotFound g v) = ''graph not found: '' @ g @ '' v'' @ show_version v"
| "error_text pf (ExecutionNotFound i) = ''execution not found: '' @ show_uuid pf i"
| "error_text pf (NotYours i) = ''execution '' @ show_uuid pf i @ '' belongs to another user''"
| "error_text pf (InvalidRequest m) = ''invalid request: '' @ m"
| "error_text pf (Busy m) = ''execution busy: '' @ m"
| "error_text pf (Storage m) = ''storage error: '' @ m"
| "error_text pf (Db m) = ''database error: '' @ m"
| "error_text pf (JsonError m) = ''invalid json: '' @ m"

definition connect_error :: "platform \<Rightarrow> engine_error \<Rightarrow> connect_code \<times> string" where
  "connect_error pf e =
     (case e of
        InvalidGraph _ \<Rightarrow> (InvalidArgument, error_text pf e)
      | InvalidRequest _ \<Rightarrow> (InvalidArgument, error_text pf e)
      | Busy _ \<Rightarrow> (Unavailable, error_text pf e)
      | NotYours _ \<Rightarrow> (PermissionDenied, error_text pf e)
      | GraphNotFound _ _ \<Rightarrow> (NotFound, error_text pf e)
      | ExecutionNotFound _ \<Rightarrow> (NotFound, error_text pf e)
      | Storage _ \<Rightarrow> (Internal, INTERNAL_FAILURE)
      | Db _ \<Rightarrow> (Internal, INTERNAL_FAILURE)
      | JsonError _ \<Rightarrow> (Internal, INTERNAL_FAILURE))"

section \<open>owned.rs\<close>

datatype owned_execution = OwnedExecution (owned_id: uuid)

definition checked :: "uuid \<Rightarrow> uuid option \<Rightarrow> uuid option \<Rightarrow> engine_error + owned_execution" where
  "checked i owner caller =
     (if owner \<noteq> None \<and> owner \<noteq> caller then Inl (NotYours i) else Inr (OwnedExecution i))"

section \<open>service.rs\<close>

definition DEFAULT_MAX_ITERATIONS :: int where "DEFAULT_MAX_ITERATIONS = 25"
definition DEFAULT_TOKEN_BUDGET :: u32 where "DEFAULT_TOKEN_BUDGET = 200000"
definition DEFAULT_TOOL_CALL_BUDGET :: u32 where "DEFAULT_TOOL_CALL_BUDGET = 50"
definition DEFAULT_WALL_TIME_BUDGET :: duration where
  "DEFAULT_WALL_TIME_BUDGET = 600 * nanos_per_second"

definition to_execution ::
  "serde \<Rightarrow> execution_row \<Rightarrow> checkpoint option \<Rightarrow> engine_error + execution" where
  "to_execution sj row cp =
     (let (st, ns) = current_position sj row cp in
      and_then (map_err Storage (counter_column (row_graph_version row) ''graph_version'')) (\<lambda>version.
      and_then (map_err Storage (columns_to_status sj (row_status row) (row_wait_kind row))) (\<lambda>status.
      and_then (map_err Storage (counter_column (row_iteration row) ''iteration'')) (\<lambda>iter.
      and_then (map_err Storage (counter_column (row_max_iterations row) ''max_iterations'')) (\<lambda>max_iter.
      and_then (map_err JsonError (decode sj (read_budget sj) ''Budget'' (row_budget row))) (\<lambda>b.
      Inr \<lparr>exec_id = row_id row, graph_id = row_graph_id row, graph_version = version,
           user_id = row_user_id row, status = status, current_nodes = ns, state = st,
           iteration = iter, max_iterations = max_iter, deadline = row_deadline row,
           budget = b\<rparr>))))))"

definition validated_graph :: "serde \<Rightarrow> string \<Rightarrow> engine_error + graph" where
  "validated_graph sj definition_json =
     and_then (map_err InvalidGraph (and_then (parse_json sj definition_json)
        (decode sj (read_graph sj) ''Graph''))) (\<lambda>g.
     and_then (map_err (\<lambda>ps. InvalidGraph (join ''; '' ps)) (validate g)) (\<lambda>_. Inr g))"

definition execution_row_of :: "engine_db \<Rightarrow> uuid \<Rightarrow> engine_error + execution_row" where
  "execution_row_of db i = ok_or (ExecutionNotFound i) (find_execution db i)"

definition latest_checkpoint :: "serde \<Rightarrow> engine_db \<Rightarrow> uuid \<Rightarrow> engine_error + checkpoint option" where
  "latest_checkpoint sj db i = map_err Storage (latest sj db i)"

definition execution_belongs_to :: "engine_db \<Rightarrow> uuid \<Rightarrow> uuid option \<Rightarrow> bool" where
  "execution_belongs_to db i caller =
     (case execution_row_of db i of
        Inr row \<Rightarrow> row_user_id row = None \<or> row_user_id row = caller
      | Inl _ \<Rightarrow> False)"

definition carried_records :: "serde \<Rightarrow> json \<Rightarrow> json list" where
  "carried_records sj st =
     (let records = filter reached_its_source
            (all_under (read_tool_record sj) st PRIOR_MATERIAL_STATE_KEY @
             all_under (read_tool_record sj) st TOOL_RESULT_STATE_KEY)
      in map (write_tool_record sj) (drop (first_shown records) records))"

definition execution_input :: "serde \<Rightarrow> string \<Rightarrow> engine_error + json" where
  "execution_input sj input_json =
     and_then (map_err InvalidRequest (parse_json sj input_json)) (\<lambda>input.
       if is_object input then Inr input
       else Inl (InvalidRequest ''input_json must decode to a JSON object''))"

text \<open>\<^verbatim>\<open>u32::try_from(version).unwrap_or(u32::MAX)\<close>, and \<^verbatim>\<open>i32\<close> addition in a release build.\<close>

definition version_number :: "int \<Rightarrow> u32" where
  "version_number v = (if 0 \<le> v \<and> v < 2 ^ 32 then word_of_int v else - 1)"

definition i32_succ :: "int \<Rightarrow> int" where
  "i32_succ v = (v + 1 + 2 ^ 31) mod 2 ^ 32 - 2 ^ 31"

definition already_stored :: "serde \<Rightarrow> graph_row \<Rightarrow> graph \<Rightarrow> bool" where
  "already_stored sj row g \<longleftrightarrow>
     write_graph sj (g\<lparr>g_version := version_number (gr_version row)\<rparr>) = gr_definition row"

definition newest_graph_row :: "engine_db \<Rightarrow> string \<Rightarrow> graph_row option" where
  "newest_graph_row db gid = max_by gr_version (filter (\<lambda>r. gr_graph_id r = gid) (graph_rows db))"

definition insert_graph_row :: "engine_db \<Rightarrow> graph_row \<Rightarrow> string + engine_db" where
  "insert_graph_row db r =
     (if list_ex (\<lambda>r'. gr_graph_id r' = gr_graph_id r \<and> gr_version r' = gr_version r) (graph_rows db)
      then Inl UNIQUE_VIOLATION
      else Inr (db\<lparr>graph_rows := graph_rows db @ [r\<lparr>gr_id := graph_seq db\<rparr>],
                   graph_seq := graph_seq db + 1\<rparr>))"

definition insert_next_version ::
  "serde \<Rightarrow> instant \<Rightarrow> engine_db \<Rightarrow> string \<Rightarrow> graph \<Rightarrow> graph_row option \<Rightarrow>
     engine_error + engine_db \<times> string \<times> int" where
  "insert_next_version sj now db gid g newest =
     (let v = (case newest of None \<Rightarrow> 1 | Some r \<Rightarrow> i32_succ (gr_version r)) in
      and_then (map_err Db (insert_graph_row db
        \<lparr>gr_id = 0, gr_graph_id = gid, gr_version = v, gr_user_id = None,
         gr_definition = write_graph sj (g\<lparr>g_version := version_number v\<rparr>), gr_created_at = now\<rparr>))
        (\<lambda>db'. Inr (db', gid, v)))"

definition register_graph ::
  "serde \<Rightarrow> instant \<Rightarrow> engine_db \<Rightarrow> string \<Rightarrow> string \<Rightarrow> engine_error + engine_db \<times> string \<times> int"
  where
  "register_graph sj now db gid definition_json =
     and_then (validated_graph sj definition_json) (\<lambda>g.
       insert_next_version sj now db gid g (newest_graph_row db gid))"

definition register_graph_if_changed ::
  "serde \<Rightarrow> instant \<Rightarrow> engine_db \<Rightarrow> string \<Rightarrow> string \<Rightarrow> engine_error + engine_db \<times> string \<times> int"
  where
  "register_graph_if_changed sj now db gid definition_json =
     and_then (validated_graph sj definition_json) (\<lambda>g.
       case newest_graph_row db gid of
         Some row \<Rightarrow>
           if already_stored sj row g then Inr (db, gid, gr_version row)
           else insert_next_version sj now db gid g (Some row)
       | None \<Rightarrow> insert_next_version sj now db gid g None)"

definition load_graph ::
  "serde \<Rightarrow> engine_db \<Rightarrow> string \<Rightarrow> int option \<Rightarrow> engine_error + graph_row \<times> graph" where
  "load_graph sj db gid version =
     (let candidates = filter (\<lambda>r. gr_graph_id r = gid) (graph_rows db);
          row = (case version of
                   Some v \<Rightarrow> find (\<lambda>r. gr_version r = v) candidates
                 | None \<Rightarrow> max_by gr_version candidates)
      in and_then (ok_or (GraphNotFound gid version) row) (\<lambda>row.
         and_then (map_err JsonError (decode sj (read_graph sj) ''Graph'' (gr_definition row))) (\<lambda>g.
         Inr (row, g))))"

definition next_checkpoint_step :: "serde \<Rightarrow> engine_db \<Rightarrow> uuid \<Rightarrow> engine_error + u32" where
  "next_checkpoint_step sj db i =
     and_then (map_err Storage (latest sj db i)) (\<lambda>cp. Inr (step_after cp))"

definition carry_material_from ::
  "serde \<Rightarrow> engine_db \<Rightarrow> uuid \<Rightarrow> uuid option \<Rightarrow> json \<Rightarrow> json" where
  "carry_material_from sj db parent caller input =
     (if \<not> execution_belongs_to db parent caller then input
      else
        (case latest_checkpoint sj db parent of
           Inr (Some cp) \<Rightarrow>
             (let records = carried_records sj (cp_state cp) in
              if records = [] then input
              else (case input of
                      Object m \<Rightarrow> Object (fmupd PRIOR_MATERIAL_STATE_KEY (Array records) m)
                    | _ \<Rightarrow> input))
         | _ \<Rightarrow> input))"

definition fresh_row ::
  "serde \<Rightarrow> clock \<Rightarrow> uuid \<Rightarrow> graph_row \<Rightarrow> uuid option \<Rightarrow> active_node list \<Rightarrow> execution_row" where
  "fresh_row sj clock i gr user ns =
     \<lparr>row_id = i, row_graph_id = gr_graph_id gr, row_graph_version = gr_version gr,
      row_user_id = user, row_status = DbReady, row_wait_kind = None,
      row_current_nodes = write_active_nodes sj ns, row_iteration = 0,
      row_max_iterations = DEFAULT_MAX_ITERATIONS, row_deadline = None,
      row_budget = write_budget sj (budget_new DEFAULT_TOKEN_BUDGET DEFAULT_TOOL_CALL_BUDGET
        DEFAULT_WALL_TIME_BUDGET),
      lease_owner = None, lease_until = None, row_created_at = clock 0, row_updated_at = clock 1\<rparr>"

definition start_continuing ::
  "serde \<Rightarrow> clock \<Rightarrow> uuid \<Rightarrow> engine_db \<Rightarrow> string \<Rightarrow> int option \<Rightarrow> string \<Rightarrow> uuid option \<Rightarrow>
     uuid option \<Rightarrow> engine_error + engine_db \<times> uuid" where
  "start_continuing sj clock fresh db gid version input_json user continues =
     and_then (execution_input sj input_json) (\<lambda>input.
     let input = (case continues of
                    Some parent \<Rightarrow> carry_material_from sj db parent user input
                  | None \<Rightarrow> input) in
     and_then (load_graph sj db gid version) (\<lambda>(gr, g).
     let ns = [plain (entry g)] in
     and_then (map_err Db (insert_execution db (fresh_row sj clock fresh gr user ns))) (\<lambda>db.
     and_then (map_err Db (insert_checkpoint db (checkpoint_to_active_model sj (clock 2)
       \<lparr>schema_version = CHECKPOINT_SCHEMA_VERSION, cp_execution_id = fresh, cp_step = 0,
        cp_state = input, cp_current_nodes = ns\<rparr>))) (\<lambda>db.
     Inr (notify db, fresh)))))"

definition start_execution ::
  "serde \<Rightarrow> clock \<Rightarrow> uuid \<Rightarrow> engine_db \<Rightarrow> string \<Rightarrow> int option \<Rightarrow> string \<Rightarrow> uuid option \<Rightarrow>
     engine_error + engine_db \<times> uuid" where
  "start_execution sj clock fresh db gid version input_json user =
     start_continuing sj clock fresh db gid version input_json user None"

definition get_execution :: "serde \<Rightarrow> engine_db \<Rightarrow> uuid \<Rightarrow> engine_error + execution" where
  "get_execution sj db i =
     and_then (execution_row_of db i) (\<lambda>row.
     and_then (latest_checkpoint sj db i) (\<lambda>cp. to_execution sj row cp))"

text \<open>\<^verbatim>\<open>EngineServiceImpl::owned_by_the_caller\<close> of \<^verbatim>\<open>main.rs\<close>, the caller being the principal.\<close>

definition owned_by_the_caller ::
  "serde \<Rightarrow> engine_db \<Rightarrow> uuid option \<Rightarrow> uuid \<Rightarrow> engine_error + owned_execution" where
  "owned_by_the_caller sj db caller i =
     and_then (get_execution sj db i) (\<lambda>ex. checked i (user_id ex) caller)"

section \<open>control.rs\<close>

definition RESUME_EVENT_STATE_KEY :: string where
  "RESUME_EVENT_STATE_KEY = ''resume_event''"

definition load_idle :: "platform \<Rightarrow> engine_db \<Rightarrow> uuid \<Rightarrow> engine_error + execution" where
  "load_idle pf db i =
     and_then (execution_row_of db i) (\<lambda>row.
     if row_status row = DbRunning
     then Inl (Busy (''execution '' @ show_uuid pf i @ '' is mid-tick, retry shortly''))
     else and_then (latest_checkpoint (codec pf) db i) (\<lambda>cp. to_execution (codec pf) row cp))"

definition persist ::
  "serde \<Rightarrow> clock \<Rightarrow> engine_db \<Rightarrow> uuid \<Rightarrow> u32 \<Rightarrow> execution \<Rightarrow> event list \<Rightarrow> engine_error + engine_db"
  where
  "persist sj clock db i n ex evs = map_err Db (commit_step sj clock db i None n ex evs)"

text \<open>\<^verbatim>\<open>Service::interrupt\<close>; the panic is \<^verbatim>\<open>engine_core::interrupt\<close>'s on a state that is no object.\<close>

definition interrupt_execution ::
  "platform \<Rightarrow> stamp \<Rightarrow> clock \<Rightarrow> engine_db \<Rightarrow> owned_execution \<Rightarrow> string \<Rightarrow>
     (engine_error + engine_db) option" where
  "interrupt_execution pf s clock db owned input_json =
     (let sj = codec pf; i = owned_id owned in
      case and_then (map_err InvalidRequest (parse_json sj input_json)) (\<lambda>input.
           and_then (load_idle pf db i) (\<lambda>ex.
           and_then (next_checkpoint_step sj db i) (\<lambda>n. Inr (input, ex, n)))) of
        Inl e \<Rightarrow> Some (Inl e)
      | Inr (input, ex, n) \<Rightarrow>
          map_option (\<lambda>(ex', ev). persist sj clock db i n ex' [ev]) (interrupt s ex input))"

fun is_waiting :: "status \<Rightarrow> bool" where
  "is_waiting (Waiting _) = True"
| "is_waiting _ = False"

definition resume ::
  "platform \<Rightarrow> (status \<Rightarrow> string) \<Rightarrow> clock \<Rightarrow> engine_db \<Rightarrow> owned_execution \<Rightarrow> string \<Rightarrow>
     engine_error + engine_db" where
  "resume pf debug clock db owned event_json =
     (let sj = codec pf; i = owned_id owned in
      and_then (map_err InvalidRequest (parse_json sj event_json)) (\<lambda>event.
      and_then (load_idle pf db i) (\<lambda>ex.
      if \<not> is_waiting (status ex)
      then Inl (InvalidRequest (''execution '' @ show_uuid pf i @ '' is not waiting (status: '' @
        debug (status ex) @ '')''))
      else and_then (next_checkpoint_step sj db i) (\<lambda>n.
        let st = (case state ex of
                    Object m \<Rightarrow> Object (fmupd RESUME_EVENT_STATE_KEY event m)
                  | st \<Rightarrow> st)
        in persist sj clock db i n (ex\<lparr>state := st, status := Ready\<rparr>) []))))"

definition cancel ::
  "platform \<Rightarrow> stamp \<Rightarrow> clock \<Rightarrow> engine_db \<Rightarrow> owned_execution \<Rightarrow> engine_error + engine_db" where
  "cancel pf s clock db owned =
     (let sj = codec pf; i = owned_id owned in
      and_then (load_idle pf db i) (\<lambda>ex.
      and_then (next_checkpoint_step sj db i) (\<lambda>n.
      let ex = ex\<lparr>status := Cancelled\<rparr>
      in persist sj clock db i n ex [execution_event ex s ExecutionCancelled])))"

section \<open>builtin_graphs.rs\<close>

text \<open>
  The slug comes from the environment (\<open>None\<close>: the variable is unset). Building may panic;
  a registration that fails is logged and the next graph follows.
\<close>

definition retrieval_tool_slug :: "string option \<Rightarrow> string option" where
  "retrieval_tool_slug var =
     Option.bind var (\<lambda>slug. if trim slug = [] then None else Some (trim slug))"

definition built_in_definitions :: "string option \<Rightarrow> (string \<times> graph) list option" where
  "built_in_definitions slug = do {
     simple \<leftarrow> simple_graph;
     agent \<leftarrow> agent_graph;
     (case slug of
        None \<Rightarrow> Some [(''simple'', simple), (''agent'', agent)]
      | Some s \<Rightarrow> do { rag \<leftarrow> rag_graph s;
                      Some [(''simple'', simple), (''agent'', agent), (''rag'', rag)] })
   }"

definition register_all ::
  "serde \<Rightarrow> clock \<Rightarrow> engine_db \<Rightarrow> string option \<Rightarrow> engine_db option" where
  "register_all sj clock db slug =
     map_option (\<lambda>ds. snd (fold (\<lambda>(name, g) (k, db).
         (Suc k, case register_graph_if_changed sj (clock k) db name (render_json sj (write_graph sj g)) of
             Inr (db', _, _) \<Rightarrow> db'
           | Inl _ \<Rightarrow> db)) ds (0, db)))
       (built_in_definitions slug)"

end
