(* ===== verification/Protocol.thy ===== *)
theory Protocol
  imports Service Step_Props
begin

text \<open>
  The engine's database as a transition system. A step is one committed transaction of one of
  the engine's operations: a worker's claim, the commit of a tick, a control call, a start, the
  sweep, the expiry at start-up, a registration, or any change of the schedules. What a tick
  read may be arbitrarily old when it commits: its rule takes the loaded database as a separate
  argument, so every interleaving of workers is a trace. A control call contributes its commit
  with any execution it may have computed. Shown: an invariant of every reachable database and
  that the lease column implements a lock table.
\<close>

section \<open>Steps and traces\<close>

datatype action =
    Claimed uuid string
  | Committed uuid "string option" u32
  | Started uuid
  | Maintained

inductive db_step :: "platform \<Rightarrow> action \<Rightarrow> engine_db \<Rightarrow> engine_db \<Rightarrow> bool" for pf where
  claims: "claim_one_ready pf locked now db owner lease_for = (db', Some i) \<Longrightarrow>
    db_step pf (Claimed i owner) db db'"
| ticks: "prepare pf exec arrive st now loaded i = Some (Inr (n, ex, evs)) \<Longrightarrow>
    commit_step (codec pf) clock db i (Some owner) n ex evs = Inr db' \<Longrightarrow>
    db_step pf (Committed i (Some owner) n) db db'"
| controls: "status ex = Ready \<or> status ex = Cancelled \<Longrightarrow>
    persist (codec pf) clock db i n ex evs = Inr db' \<Longrightarrow>
    db_step pf (Committed i None n) db db'"
| starts: "start_continuing (codec pf) clock fresh db gid version input user continues = Inr (db', i) \<Longrightarrow>
    db_step pf (Started i) db db'"
| sweeps: "sweep_terminal pf now db retention batch = (db', k) \<Longrightarrow> db_step pf Maintained db db'"
| expires: "expire_abandoned_leases now db = (db', k) \<Longrightarrow> db_step pf Maintained db db'"
| registers: "register_graph (codec pf) now db gid text = Inr (db', gid', v) \<Longrightarrow>
    db_step pf Maintained db db'"
| registers_if_changed: "register_graph_if_changed (codec pf) now db gid text = Inr (db', gid', v) \<Longrightarrow>
    db_step pf Maintained db db'"
| schedules: "db_step pf Maintained db (db\<lparr>schedule_rows := rows, schedule_seq := k\<rparr>)"

inductive run :: "('a \<Rightarrow> 's \<Rightarrow> 's \<Rightarrow> bool) \<Rightarrow> 's \<Rightarrow> 'a list \<Rightarrow> 's \<Rightarrow> bool" for stp init where
  run_Nil: "run stp init [] init"
| run_snoc: "run stp init as s \<Longrightarrow> stp a s s' \<Longrightarrow> run stp init (as @ [a]) s'"

inductive_simps run_snoc_iff: "run stp init (as @ [a]) s"

abbreviation trace :: "platform \<Rightarrow> action list \<Rightarrow> engine_db \<Rightarrow> bool" where
  "trace pf \<equiv> run (db_step pf) empty_db"

inductive_cases db_step_cases: "db_step pf a db db'"

text \<open>The three control calls are instances of the rule for control commits.\<close>

lemma interrupt_is_step:
  assumes "interrupt_execution pf s clock db owned text = Some (Inr db')"
  shows "\<exists>n. db_step pf (Committed (owned_id owned) None n) db db'"
proof -
  from assms obtain input ex n ex' ev where "interrupt s ex input = Some (ex', ev)"
    and p: "persist (codec pf) clock db (owned_id owned) n ex' [ev] = Inr db'"
    by (auto simp: interrupt_execution_def Let_def split: sum.splits prod.splits)
  then have "status ex' = Ready" by (auto simp: interrupt_def panic_simps Let_def)
  with p show ?thesis by (blast intro: controls)
qed

lemma resume_is_step:
  assumes "resume pf debug clock db owned text = Inr db'"
  shows "\<exists>n. db_step pf (Committed (owned_id owned) None n) db db'"
proof -
  from assms obtain ex n st where
    "persist (codec pf) clock db (owned_id owned) n (ex\<lparr>state := st, status := Ready\<rparr>) [] = Inr db'"
    by (auto simp: resume_def Let_def result_simps split: if_splits)
  from controls [OF _ this] show ?thesis by auto
qed

lemma cancel_is_step:
  assumes "cancel pf s clock db owned = Inr db'"
  shows "\<exists>n. db_step pf (Committed (owned_id owned) None n) db db'"
proof -
  from assms obtain ex n evs where
    "persist (codec pf) clock db (owned_id owned) n (ex\<lparr>status := Cancelled\<rparr>) evs = Inr db'"
    by (auto simp: cancel_def Let_def result_simps)
  from controls [OF _ this] show ?thesis by auto
qed

section \<open>What one step does to the tables\<close>

text \<open>A tick never commits the status of a running execution.\<close>

lemma prepare_status:
  assumes "prepare pf exec arrive st now loaded i = Some (Inr (n, ex, evs))"
  shows "live ex \<or> status ex = Completed \<or> status ex = Failed"
proof -
  from assms obtain g ex0 outs where "step (codec pf) st g ex0 outs now = Some (ex, evs)"
    by (auto simp: prepare_def split: sum.splits prod.splits)
  then obtain mid evs1 next1 hard where
    "settle (codec pf) st g (outs = []) now (mid, evs1, next1, hard) = (ex, evs)"
    by (rule step_Some)
  from settle_log [OF this] obtain tail where "settled (codec pf) g ex tail" by blast
  then show ?thesis by (cases "status ex") (auto simp: settled_def live_def)
qed

definition not_running :: "execution \<Rightarrow> bool" where
  "not_running ex \<longleftrightarrow> status ex \<noteq> Running"

lemma not_running_columns:
  "not_running ex \<Longrightarrow> fst (status_to_columns sj (status ex)) \<noteq> DbRunning"
  by (cases "status ex") (simp_all add: not_running_def)

text \<open>Every step is one of six kinds of change.\<close>

definition started ::
  "serde \<Rightarrow> clock \<Rightarrow> engine_db \<Rightarrow> uuid \<Rightarrow> graph_row \<Rightarrow> uuid option \<Rightarrow> active_node list \<Rightarrow> json \<Rightarrow> engine_db"
  where
  "started sj clock db i gr user ns input =
     db\<lparr>executions := executions db @ [fresh_row sj clock i gr user ns],
        checkpoints := checkpoints db @ [(checkpoint_to_active_model sj (clock 2)
          \<lparr>schema_version = CHECKPOINT_SCHEMA_VERSION, cp_execution_id = i, cp_step = 0,
           cp_state = input, cp_current_nodes = ns\<rparr>)\<lparr>cpr_id := checkpoint_seq db\<rparr>],
        checkpoint_seq := checkpoint_seq db + 1, notified := Suc (notified db)\<rparr>"

lemma start_continuing_Inr:
  assumes "start_continuing sj clock fresh db gid version text user continues = Inr (db', i)"
  obtains input gr g where "i = fresh" "\<not> execution_exists db fresh" "\<not> step_taken db fresh 0"
    "load_graph sj db gid version = Inr (gr, g)" "execution_input sj text = Inr input"
    "db' = started sj clock db fresh gr user [plain (entry g)]
       (case continues of Some parent \<Rightarrow> carry_material_from sj db parent user input | None \<Rightarrow> input)"
proof -
  from assms obtain input gr g db1 db2 where e: "execution_input sj text = Inr input"
    and g: "load_graph sj db gid version = Inr (gr, g)"
    and x: "insert_execution db (fresh_row sj clock fresh gr user [plain (entry g)]) = Inr db1"
    and c: "insert_checkpoint db1 (checkpoint_to_active_model sj (clock 2)
       \<lparr>schema_version = CHECKPOINT_SCHEMA_VERSION, cp_execution_id = fresh, cp_step = 0,
        cp_state = (case continues of Some parent \<Rightarrow> carry_material_from sj db parent user input
          | None \<Rightarrow> input), cp_current_nodes = [plain (entry g)]\<rparr>) = Inr db2"
    and d: "db' = notify db2" "i = fresh"
    by (auto simp: start_continuing_def Let_def result_simps)
  show ?thesis
  proof (rule that [OF d(2) _ _ g e])
    show "\<not> execution_exists db fresh" using x by (simp add: result_simps fresh_row_def)
    show "\<not> step_taken db fresh 0"
      using x c by (auto simp: result_simps checkpoint_to_active_model_def step_taken_def I32_MAX_def)
    show "db' = started sj clock db fresh gr user [plain (entry g)]
       (case continues of Some parent \<Rightarrow> carry_material_from sj db parent user input | None \<Rightarrow> input)"
      using x c d by (auto simp: result_simps started_def notify_def)
  qed
qed

definition swept :: "engine_db \<Rightarrow> uuid list \<Rightarrow> engine_db" where
  "swept db ids =
     db\<lparr>checkpoints := filter (\<lambda>r. cpr_execution_id r \<notin> set ids) (checkpoints db),
        executions := filter (\<lambda>r. row_id r \<notin> set ids) (executions db)\<rparr>"

lemma sweep_terminal_eq:
  assumes "sweep_terminal pf now db retention batch = (db', k)"
  obtains ids where "db' = swept db ids"
    "\<forall>i \<in> set ids. \<exists>r \<in> set (executions db). row_id r = i \<and> row_status r \<in> set TERMINAL_STATUSES"
proof -
  define cutoff where "cutoff = now - (case from_std pf retention of None \<Rightarrow> 0 | Some d \<Rightarrow> d)"
  define due where "due = sort_key row_updated_at
    (filter (\<lambda>r. row_status r \<in> set TERMINAL_STATUSES \<and> row_updated_at r < cutoff) (executions db))"
  define ids where "ids = map row_id (take (unat batch) due)"
  have "sweep_terminal pf now db retention batch =
      (if ids = [] then (db, 0)
       else (swept db ids, rows_affected (\<lambda>r. row_id r \<in> set ids) (executions db)))"
    by (simp only: sweep_terminal_def Let_def swept_def ids_def due_def cutoff_def)
  moreover have "swept db [] = db" by (simp add: swept_def)
  ultimately have "db' = swept db ids" using assms by (auto split: if_splits)
  moreover have "\<forall>i \<in> set ids. \<exists>r \<in> set (executions db). row_id r = i \<and> row_status r \<in> set TERMINAL_STATUSES"
    by (auto simp: ids_def due_def dest!: in_set_takeD)
  ultimately show ?thesis using that by blast
qed

lemma register_frame:
  assumes "insert_next_version sj now db gid g newest = Inr (db', gid', v)"
  shows "\<exists>gs k. db' = db\<lparr>graph_rows := gs, graph_seq := k\<rparr>"
  using assms
  by (auto simp: insert_next_version_def Let_def result_simps insert_graph_row_def split: if_splits)

lemma register_graph_frame:
  "register_graph sj now db gid text = Inr (db', gid', v) \<Longrightarrow>
     \<exists>gs k. db' = db\<lparr>graph_rows := gs, graph_seq := k\<rparr>"
  by (auto simp: register_graph_def result_simps dest: register_frame)

lemma register_graph_if_changed_frame:
  assumes "register_graph_if_changed sj now db gid text = Inr (db', gid', v)"
  shows "\<exists>gs k. db' = db\<lparr>graph_rows := gs, graph_seq := k\<rparr>"
proof -
  have "\<exists>gs k. db = db\<lparr>graph_rows := gs, graph_seq := k\<rparr>"
    by (rule exI [of _ "graph_rows db"], rule exI [of _ "graph_seq db"]) simp
  with assms show ?thesis
    by (auto simp: register_graph_if_changed_def result_simps split: option.splits if_splits
        dest: register_frame)
qed

lemma db_step_kinds:
  assumes "db_step pf a db db'"
  obtains
    (claim) i owner until now row where "a = Claimed i owner" "row \<in> set (executions db)"
      "row_id row = i" "row_status row \<in> set CLAIMABLE_STATUSES"
      "db' = db\<lparr>executions := update_where (\<lambda>x. row_id x = i) (take_lease owner until now)
         (executions db)\<rparr>"
  | (commit) i owner n ex evs clock where "a = Committed i owner n" "not_running ex"
      "commit_step (codec pf) clock db i owner n ex evs = Inr db'"
  | (start) i clock gr user ns input where "a = Started i" "\<not> execution_exists db i"
      "\<not> step_taken db i 0" "db' = started (codec pf) clock db i gr user ns input"
  | (sweep) ids where "a = Maintained" "db' = swept db ids"
      "\<forall>i \<in> set ids. \<exists>r \<in> set (executions db). row_id r = i \<and> row_status r \<in> set TERMINAL_STATUSES"
  | (expire) now where "a = Maintained" "db' = fst (expire_abandoned_leases now db)"
  | (other) gs k rows j where "a = Maintained"
      "db' = db\<lparr>graph_rows := gs, graph_seq := k, schedule_rows := rows, schedule_seq := j\<rparr>"
  using assms
proof (cases rule: db_step.cases)
  case (claims locked now owner lease_for i)
  show ?thesis
    by (rule claim_cases [OF claims(2)])
      (auto intro!: that(1) [OF claims(1)] simp: claimable_def CLAIMABLE_STATUSES_def)
next
  case (ticks exec arrive st now loaded i n ex evs clock owner)
  then show ?thesis
    by (intro that(2)) (auto dest: prepare_status simp: not_running_def live_def)
next
  case (controls ex clock i n evs)
  then show ?thesis
    by (intro that(2)) (auto simp: not_running_def persist_def result_simps)
next
  case (starts clock fresh gid version input user continues i)
  from starts(2) show ?thesis by (rule start_continuing_Inr) (auto intro: that(3) [OF starts(1)])
next
  case (sweeps now retention batch k)
  from sweeps(2) show ?thesis by (rule sweep_terminal_eq) (rule that(4) [OF sweeps(1)])
next
  case (expires now k)
  then show ?thesis by (intro that(5) [of now]) auto
next
  case (registers now gid js gid' v)
  then obtain gs k where "db' = db\<lparr>graph_rows := gs, graph_seq := k\<rparr>"
    using register_graph_frame by blast
  with that(6) [where gs = gs and k = k and rows = "schedule_rows db" and
    j = "schedule_seq db"] registers(1) show ?thesis by simp
next
  case (registers_if_changed now gid js gid' v)
  then obtain gs k where "db' = db\<lparr>graph_rows := gs, graph_seq := k\<rparr>"
    using register_graph_if_changed_frame by blast
  with that(6) [where gs = gs and k = k and rows = "schedule_rows db" and
    j = "schedule_seq db"] registers_if_changed(1)
  show ?thesis by simp
next
  case (schedules k rows)
  with that(6) [where gs = "graph_rows db" and k = "graph_seq db" and rows = rows and j = k] schedules(1) show ?thesis by simp
qed

section \<open>The invariant\<close>

text \<open>A running row has a lease, an idle one has none; the lease has an owner and an end.\<close>

definition lease_consistent :: "execution_row \<Rightarrow> bool" where
  "lease_consistent r \<longleftrightarrow>
     (row_status r = DbRunning \<longleftrightarrow> lease_owner r \<noteq> None) \<and>
     (lease_until r \<noteq> None \<longleftrightarrow> lease_owner r \<noteq> None)"

definition initial_budget :: budget where
  "initial_budget =
     budget_new DEFAULT_TOKEN_BUDGET DEFAULT_TOOL_CALL_BUDGET DEFAULT_WALL_TIME_BUDGET"

text \<open>The counters of a row are the ones it was created with.\<close>

definition as_created :: "serde \<Rightarrow> execution_row \<Rightarrow> bool" where
  "as_created sj r \<longleftrightarrow>
     row_iteration r = 0 \<and> row_max_iterations r = DEFAULT_MAX_ITERATIONS \<and>
     row_deadline r = None \<and> row_budget r = write_budget sj initial_budget"

definition checkpoint_ok :: "serde \<Rightarrow> checkpoint_row \<Rightarrow> bool" where
  "checkpoint_ok sj c \<longleftrightarrow>
     0 \<le> cpr_step c \<and> cpr_step c \<le> I32_MAX \<and> cpr_schema_version c = 1 \<and>
     (\<exists>ns. cpr_current_nodes c = write_active_nodes sj ns)"

abbreviation step_key :: "checkpoint_row \<Rightarrow> uuid \<times> int" where
  "step_key c \<equiv> (cpr_execution_id c, cpr_step c)"

definition executions_ok :: "serde \<Rightarrow> engine_db \<Rightarrow> bool" where
  "executions_ok sj db \<longleftrightarrow>
     distinct (map row_id (executions db)) \<and> list_all lease_consistent (executions db) \<and>
     list_all (as_created sj) (executions db)"

definition checkpoints_ok :: "serde \<Rightarrow> engine_db \<Rightarrow> bool" where
  "checkpoints_ok sj db \<longleftrightarrow>
     distinct (map step_key (checkpoints db)) \<and> list_all (checkpoint_ok sj) (checkpoints db) \<and>
     list_all (\<lambda>c. execution_exists db (cpr_execution_id c)) (checkpoints db) \<and>
     list_all (\<lambda>r. step_taken db (row_id r) 0) (executions db)"

definition events_ok :: "engine_db \<Rightarrow> bool" where
  "events_ok db \<longleftrightarrow>
     sorted_wrt (<) (map evr_id (event_rows db)) \<and>
     list_all (\<lambda>e. 0 < evr_id e \<and> evr_id e < event_seq db) (event_rows db) \<and> 0 < event_seq db"

definition db_ok :: "serde \<Rightarrow> engine_db \<Rightarrow> bool" where
  "db_ok sj db \<longleftrightarrow> executions_ok sj db \<and> checkpoints_ok sj db \<and> events_ok db"

lemma empty_db_ok: "db_ok sj empty_db"
  by (simp add: db_ok_def executions_ok_def checkpoints_ok_def events_ok_def empty_db_def)

subsection \<open>Executions\<close>

lemma executions_ok_update:
  assumes "executions_ok sj db"
    and "\<And>r. p r \<Longrightarrow> row_id (f r) = row_id r"
    and "\<And>r. p r \<Longrightarrow> lease_consistent r \<Longrightarrow> lease_consistent (f r)"
    and "\<And>r. p r \<Longrightarrow> as_created sj r \<Longrightarrow> as_created sj (f r)"
    and "executions db' = update_where p f (executions db)"
  shows "executions_ok sj db'"
  using assms by (auto simp: executions_ok_def list_all_iff set_update_where map_update_where)

lemma step_executions_ok:
  assumes "db_step pf a db db'" and ok: "executions_ok (codec pf) db"
  shows "executions_ok (codec pf) db'"
  using assms(1)
proof (cases rule: db_step_kinds)
  case (claim i owner until now row)
  then show ?thesis
    by (intro executions_ok_update [OF ok])
      (auto simp: lease_consistent_def as_created_def)
next
  case (commit i owner n ex evs clock)
  note columns = not_running_columns [OF commit(2), of "codec pf"]
  from commit_step_Inr(3) [OF commit(3)] columns show ?thesis
    by (intro executions_ok_update [OF ok])
      (auto simp: committed_def lease_consistent_def as_created_def)
next
  case (start i clock gr user ns input)
  with ok show ?thesis
    by (auto simp: executions_ok_def started_def fresh_row_def lease_consistent_def as_created_def
        initial_budget_def execution_exists_def list_ex_iff)
next
  case (sweep ids)
  with ok show ?thesis
    by (auto simp: executions_ok_def swept_def list_all_iff distinct_map_filter)
next
  case (expire now)
  then show ?thesis
    by (intro executions_ok_update [OF ok])
      (auto simp: expire_abandoned_leases_def Let_def lease_consistent_def as_created_def)
next
  case (other gs k rows j)
  with ok show ?thesis by (simp add: executions_ok_def)
qed

subsection \<open>Checkpoints\<close>

lemma execution_exists_alt: "execution_exists db i \<longleftrightarrow> i \<in> row_id ` set (executions db)"
  by (auto simp: execution_exists_def list_ex_iff)

lemma step_taken_alt: "step_taken db i n \<longleftrightarrow> (i, n) \<in> step_key ` set (checkpoints db)"
  by (force simp: step_taken_def list_ex_iff)

lemma checkpoints_ok_alt:
  "checkpoints_ok sj db \<longleftrightarrow>
     distinct (map step_key (checkpoints db)) \<and> (\<forall>c \<in> set (checkpoints db). checkpoint_ok sj c) \<and>
     cpr_execution_id ` set (checkpoints db) \<subseteq> row_id ` set (executions db) \<and>
     (\<forall>i \<in> row_id ` set (executions db). (i, 0) \<in> step_key ` set (checkpoints db))"
  by (auto simp: checkpoints_ok_def list_all_iff execution_exists_alt step_taken_alt)

text \<open>A change that keeps the ids of the executions and the checkpoints keeps this part.\<close>

lemma checkpoints_ok_frame:
  assumes "checkpoints_ok sj db" and "checkpoints db' = checkpoints db"
    and "row_id ` set (executions db') = row_id ` set (executions db)"
  shows "checkpoints_ok sj db'"
  using assms by (simp add: checkpoints_ok_alt)

lemma row_ids_update:
  "(\<And>r. p r \<Longrightarrow> row_id (f r) = row_id r) \<Longrightarrow>
     row_id ` set (update_where p f rows) = row_id ` set rows"
  using map_update_where [of p row_id f rows] by (metis set_map)

lemma step_checkpoint_ok:
  "checkpoint_ok sj ((checkpoint_to_active_model sj t (step_checkpoint i n ex))\<lparr>cpr_id := k\<rparr>)"
  by (auto simp: checkpoint_ok_def checkpoint_to_active_model_def step_checkpoint_def I32_MAX_def
      I16_MAX_def CHECKPOINT_SCHEMA_VERSION_def)

lemma commit_checkpoints_ok:
  assumes ok: "checkpoints_ok sj db" and c: "commit_step sj clock db i owner n ex evs = Inr db'"
  shows "checkpoints_ok sj db'"
proof -
  let ?c = "(checkpoint_to_active_model sj (clock 0) (step_checkpoint i n ex))\<lparr>cpr_id := checkpoint_seq db\<rparr>"
  note facts = commit_step_Inr [OF c]
  have cps: "checkpoints db' = checkpoints db @ [?c]"
    and ids: "row_id ` set (executions db') = row_id ` set (executions db)"
    using facts(3) by (simp_all add: committed_def row_ids_update)
  have key: "step_key ?c = (i, min (uint n) I32_MAX)"
    by (simp add: checkpoint_to_active_model_def step_checkpoint_def)
  have "i \<in> row_id ` set (executions db)" using facts(2) by (auto simp: held_by_def)
  moreover have "(i, min (uint n) I32_MAX) \<notin> step_key ` set (checkpoints db)"
    using facts(1) by (simp add: step_taken_alt)
  ultimately show ?thesis
    using ok key step_checkpoint_ok by (simp add: checkpoints_ok_alt cps ids)
qed

lemma start_checkpoints_ok:
  assumes ok: "checkpoints_ok sj db" and "\<not> step_taken db i 0"
  shows "checkpoints_ok sj (started sj clock db i gr user ns input)"
  using assms
  by (auto simp: checkpoints_ok_alt started_def step_taken_alt fresh_row_def
      checkpoint_to_active_model_def checkpoint_ok_def CHECKPOINT_SCHEMA_VERSION_def I16_MAX_def
      I32_MAX_def)

lemma sweep_checkpoints_ok:
  assumes "checkpoints_ok sj db"
  shows "checkpoints_ok sj (swept db ids)"
proof -
  have rows: "row_id ` set (executions (swept db ids)) = row_id ` set (executions db) - set ids"
    by (auto simp: swept_def)
  have keys: "step_key ` set (checkpoints (swept db ids)) =
      {k \<in> step_key ` set (checkpoints db). fst k \<notin> set ids}"
    by (auto simp: swept_def)
  have "cpr_execution_id ` set (checkpoints (swept db ids)) = cpr_execution_id ` set (checkpoints db) - set ids"
    by (auto simp: swept_def)
  then show ?thesis
    using assms unfolding checkpoints_ok_alt rows keys
    by (auto simp: swept_def distinct_map_filter)
qed

lemma step_checkpoints_ok:
  assumes "db_step pf a db db'" and ok: "checkpoints_ok (codec pf) db"
  shows "checkpoints_ok (codec pf) db'"
  using assms(1)
proof (cases rule: db_step_kinds)
  case (claim i owner until now row)
  then show ?thesis
    by (intro checkpoints_ok_frame [OF ok]) (simp_all add: row_ids_update)
next
  case (expire now)
  then show ?thesis
    by (intro checkpoints_ok_frame [OF ok])
      (simp_all add: expire_abandoned_leases_def Let_def row_ids_update)
next
  case (other gs k rows j)
  then show ?thesis by (intro checkpoints_ok_frame [OF ok]) simp_all
qed (use ok commit_checkpoints_ok start_checkpoints_ok sweep_checkpoints_ok in auto)

subsection \<open>Events\<close>

lemma committed_events:
  "event_rows (committed sj clock db i owner n ex evs) = event_rows db @
     map (\<lambda>(k, e). (event_to_active_model sj e)\<lparr>evr_id := event_seq db + int k\<rparr>)
       (zip [0..<length evs] evs)"
  by (simp add: committed_def)

lemma sorted_new_ids:
  "sorted_wrt (<) (map evr_id (map (\<lambda>(k, e). (event_to_active_model sj e)\<lparr>evr_id := m + int k\<rparr>)
     (zip [0..<length evs] evs)))"
  by (auto simp: sorted_wrt_iff_nth_less)

lemma step_events_ok:
  assumes "db_step pf a db db'" and ok: "events_ok db"
  shows "events_ok db'"
  using assms(1)
proof (cases rule: db_step_kinds)
  case (commit i owner n ex evs clock)
  note db' = commit_step_Inr(3) [OF commit(3)]
  let ?new = "map (\<lambda>(k, e). (event_to_active_model (codec pf) e)\<lparr>evr_id := event_seq db + int k\<rparr>)
       (zip [0..<length evs] evs)"
  have new: "\<forall>e \<in> set ?new. event_seq db \<le> evr_id e \<and> evr_id e < event_seq db + int (length evs)"
    by (auto simp: set_zip)
  have rows: "event_rows db' = event_rows db @ ?new" "event_seq db' = event_seq db + int (length evs)"
    using db' by (simp_all add: committed_def)
  have "sorted_wrt (<) (map evr_id (event_rows db'))"
    using ok new sorted_new_ids [where sj = "codec pf" and m = "event_seq db" and evs = evs]
    by (fastforce simp: events_ok_def rows sorted_wrt_append list_all_iff)
  moreover have "list_all (\<lambda>e. 0 < evr_id e \<and> evr_id e < event_seq db') (event_rows db')"
    using ok new by (fastforce simp: events_ok_def rows list_all_iff)
  ultimately show ?thesis using ok by (simp add: events_ok_def rows)
qed (use ok in \<open>auto simp: events_ok_def started_def swept_def expire_abandoned_leases_def Let_def\<close>)

lemma trace_db_ok: "trace pf as db \<Longrightarrow> db_ok (codec pf) db"
  by (induction rule: run.induct)
    (simp add: empty_db_ok, auto simp: db_ok_def
      dest: step_executions_ok step_checkpoints_ok step_events_ok)

end
