(* ===== verification/Protocol_Props.thy ===== *)
theory Protocol_Props
  imports Protocol Core_Witnesses
begin

text \<open>
  What the transition system of the engine's database guarantees. The lease column implements
  a lock table: the locale \<open>lease_table\<close> states the laws a lease must obey and derives, once, that
  a worker's commit is the first thing that happens to an execution after that worker's own
  claim. Further: a super-step is committed at most once, a live lease is never taken over, a
  worker that takes over a dead one repeats exactly the same step, and the counters of an
  execution are read back as they were at its start.
\<close>

section \<open>The lock table\<close>

type_synonym lock_table = "uuid \<Rightarrow> string option"

fun lock_step :: "action \<Rightarrow> lock_table \<Rightarrow> lock_table" where
  "lock_step (Claimed i w) h = h(i := Some w)"
| "lock_step (Committed i _ _) h = h(i := None)"
| "lock_step (Started i) h = h(i := None)"
| "lock_step Maintained h = h"

fun touches :: "uuid \<Rightarrow> action \<Rightarrow> bool" where
  "touches i (Claimed j _) = (i = j)"
| "touches i (Committed j _ _) = (i = j)"
| "touches i (Started j) = (i = j)"
| "touches i Maintained = False"

lemma lock_step_untouched: "\<not> touches i a \<Longrightarrow> lock_step a h i = h i"
  by (cases a) auto

lemma lock_step_holds:
  "touches i a \<Longrightarrow> lock_step a h i = Some w \<Longrightarrow> a = Claimed i w"
  by (cases a) auto

lemma held_since_claim:
  assumes "fold lock_step as h i = Some w" and "h i = None"
  shows "\<exists>pre post. as = pre @ Claimed i w # post \<and> (\<forall>a \<in> set post. \<not> touches i a)"
  using assms(1)
proof (induction as rule: rev_induct)
  case Nil
  with assms(2) show ?case by simp
next
  case (snoc a as)
  show ?case
  proof (cases "touches i a")
    case True
    with snoc.prems have "a = Claimed i w" by (auto dest: lock_step_holds)
    then have "as @ [a] = as @ Claimed i w # [] \<and> (\<forall>b \<in> set []. \<not> touches i b)" by simp
    then show ?thesis by blast
  next
    case False
    with snoc obtain pre post where "as = pre @ Claimed i w # post" "\<forall>b \<in> set post. \<not> touches i b"
      by (auto simp: lock_step_untouched)
    then have "as @ [a] = pre @ Claimed i w # (post @ [a]) \<and> (\<forall>b \<in> set (post @ [a]). \<not> touches i b)"
      using False by simp
    then show ?thesis by blast
  qed
qed

locale lease_table =
  fixes ok :: "'db \<Rightarrow> bool" and holds :: "'db \<Rightarrow> lock_table"
    and stp :: "action \<Rightarrow> 'db \<Rightarrow> 'db \<Rightarrow> bool" and init :: 'db
  assumes init_ok: "ok init" and init_free: "holds init i = None"
    and ok_step: "ok db \<Longrightarrow> stp a db db' \<Longrightarrow> ok db'"
    and holds_step: "ok db \<Longrightarrow> stp a db db' \<Longrightarrow> holds db' = lock_step a (holds db)"
    and commit_guard: "ok db \<Longrightarrow> stp (Committed i owner n) db db' \<Longrightarrow> holds db i = owner"
begin

lemma run_refines: "run stp init as db \<Longrightarrow> ok db \<and> holds db = fold lock_step as (holds init)"
  by (induction rule: run.induct) (auto simp: init_ok dest: ok_step holds_step)

lemma run_commit_holder:
  assumes "run stp init (as @ [Committed i owner n]) db"
  shows "fold lock_step as (holds init) i = owner"
proof -
  from assms obtain db0 where r: "run stp init as db0" and c: "stp (Committed i owner n) db0 db"
    by (auto simp: run_snoc_iff)
  from commit_guard [OF _ c] run_refines [OF r] show ?thesis by simp
qed

lemma commit_follows_claim:
  assumes "run stp init (as @ [Committed i (Some w) n]) db"
  shows "\<exists>pre post. as = pre @ Claimed i w # post \<and> (\<forall>a \<in> set post. \<not> touches i a)"
  using run_commit_holder [OF assms] init_free by (rule held_since_claim)

end

definition lock_holder :: "engine_db \<Rightarrow> lock_table" where
  "lock_holder db i = Option.bind (find_execution db i) lease_owner"

lemma lock_holder_find:
  "find_execution db i = Some r \<Longrightarrow> lock_holder db i = lease_owner r"
  "find_execution db i = None \<Longrightarrow> lock_holder db i = None"
  by (simp_all add: lock_holder_def)

lemma lock_holder_row:
  assumes "executions_ok sj db" and "r \<in> set (executions db)"
  shows "lock_holder db (row_id r) = lease_owner r"
proof -
  from assms(2) obtain r' where f: "find_execution db (row_id r) = Some r'"
    by (cases "find_execution db (row_id r)")
      (auto simp: find_execution_None execution_exists_def list_ex_iff)
  with find_execution_Some [OF f] assms have "r' = r"
    by (auto simp: executions_ok_def distinct_map inj_on_def)
  with f show ?thesis by (simp add: lock_holder_def)
qed

lemma lock_holder_None: "\<not> execution_exists db i \<Longrightarrow> lock_holder db i = None"
  by (simp add: lock_holder_def flip: find_execution_None)

lemma lock_holder_update:
  assumes "\<And>r. p r \<Longrightarrow> row_id (f r) = row_id r"
    and "executions db' = update_where p f (executions db)"
  shows "lock_holder db' i =
    Option.bind (find_execution db i) (\<lambda>r. lease_owner (if p r then f r else r))"
  using assms
  by (cases "find_execution db i") (simp_all add: lock_holder_def find_execution_def find_update_where)

lemma commit_lock:
  assumes ok: "executions_ok sj db" and c: "commit_step sj clock db i owner n ex evs = Inr db'"
  shows "lock_holder db i = owner" and "lock_holder db' = (lock_holder db)(i := None)"
proof -
  from commit_step_Inr(2) [OF c] obtain r where r: "r \<in> set (executions db)" "row_id r = i"
    "lease_owner r = owner" by (auto simp: held_by_def)
  with lock_holder_row [OF ok r(1)] show held: "lock_holder db i = owner" by simp
  have upd: "lock_holder db' j = Option.bind (find_execution db j) (\<lambda>r. lease_owner
      (if held_by i owner r
       then released (fst (status_to_columns sj (status ex))) (snd (status_to_columns sj (status ex)))
         (write_active_nodes sj (current_nodes ex)) (clock 1) r
       else r))" for j
    by (rule lock_holder_update) (simp_all add: commit_step_Inr(3) [OF c] committed_def)
  show "lock_holder db' = (lock_holder db)(i := None)"
  proof
    fix j
    from held show "lock_holder db' j = ((lock_holder db)(i := None)) j"
      by (cases "find_execution db j")
        (auto simp: upd held_by_def lock_holder_find dest: find_execution_Some)
  qed
qed

lemma find_execution_started:
  assumes "\<not> execution_exists db i"
  shows "find_execution (started sj clock db i gr user ns input) j =
    (if j = i then Some (fresh_row sj clock i gr user ns) else find_execution db j)"
proof -
  have "find (\<lambda>r. row_id r = j) (rows @ [x]) =
      (case find (\<lambda>r. row_id r = j) rows of
         None \<Rightarrow> if row_id x = j then Some x else None | Some r \<Rightarrow> Some r)"
    for rows and x :: execution_row
    by (induction rows) auto
  moreover have "find_execution db i = None" using assms by (simp add: find_execution_None)
  ultimately show ?thesis
    by (auto simp: find_execution_def started_def fresh_row_def split: option.splits)
qed

lemma swept_lock:
  assumes ok: "executions_ok sj db"
    and "\<forall>i \<in> set ids. \<exists>r \<in> set (executions db). row_id r = i \<and> row_status r \<in> set TERMINAL_STATUSES"
  shows "lock_holder (swept db ids) = lock_holder db"
proof
  fix i
  have free: "lock_holder db i = None" if i: "i \<in> set ids"
  proof -
    from assms(2) i obtain r where r: "r \<in> set (executions db)" "row_id r = i"
      "row_status r \<in> set TERMINAL_STATUSES" by blast
    from r(1) ok have "lease_consistent r" by (simp add: executions_ok_def list_all_iff)
    moreover from r(3) have "row_status r \<noteq> DbRunning" by (auto simp: TERMINAL_STATUSES_def)
    ultimately have "lease_owner r = None" by (simp add: lease_consistent_def)
    with lock_holder_row [OF ok r(1)] r(2) show ?thesis by simp
  qed
  have "find (\<lambda>r. row_id r = i) (filter (\<lambda>r. row_id r \<notin> set ids) rows) =
      (if i \<in> set ids then None else find (\<lambda>r. row_id r = i) rows)" for rows :: "execution_row list"
    by (induction rows) auto
  then show "lock_holder (swept db ids) i = lock_holder db i"
    using free by (simp add: lock_holder_def find_execution_def swept_def)
qed

lemma db_step_lock:
  assumes "db_step pf a db db'" and ok: "executions_ok (codec pf) db"
  shows "lock_holder db' = lock_step a (lock_holder db)"
  using assms(1)
proof (cases rule: db_step_kinds)
  case (claim i owner until now row)
  have upd: "lock_holder db' j = Option.bind (find_execution db j)
      (\<lambda>r. lease_owner (if row_id r = i then take_lease owner until now r else r))" for j
    by (rule lock_holder_update) (simp_all add: claim)
  have "find_execution db i \<noteq> None"
    using claim by (auto simp: find_execution_None execution_exists_def list_ex_iff)
  then have "lock_holder db' j = ((lock_holder db)(i := Some owner)) j" for j
    by (cases "find_execution db j")
      (auto simp: upd lock_holder_find dest: find_execution_Some)
  then show ?thesis using claim by auto
next
  case (commit i owner n ex evs clock)
  with commit_lock(2) [OF ok commit(3)] show ?thesis by simp
next
  case (start i clock gr user ns input)
  have "lock_holder db' j = ((lock_holder db)(i := None)) j" for j
    by (simp add: start(4) lock_holder_def find_execution_started [OF start(2)] fresh_row_def)
  then show ?thesis using start(1) by auto
next
  case (sweep ids)
  with swept_lock [OF ok sweep(3)] show ?thesis by simp
next
  case (expire now)
  have "lock_holder db' j = lock_holder db j" for j
    by (subst lock_holder_update [where db = db and db' = db'])
      (auto simp: expire expire_abandoned_leases_def Let_def lock_holder_def
        cong: if_cong split: bind_splits)
  then show ?thesis using expire(1) by auto
next
  case (other gs k rows j)
  then show ?thesis by (simp add: lock_holder_def find_execution_def fun_eq_iff)
qed

lemma db_step_commit_guard:
  assumes "db_step pf (Committed i owner n) db db'" and "executions_ok (codec pf) db"
  shows "lock_holder db i = owner"
  using assms(1) by (cases rule: db_step_kinds) (use commit_lock(1) [OF assms(2)] in auto)

interpretation engine_lease: lease_table "executions_ok (codec pf)" lock_holder "db_step pf" empty_db
  for pf
proof
  show "executions_ok (codec pf) empty_db" by (simp add: executions_ok_def empty_db_def)
  show "lock_holder empty_db i = None" for i
    by (simp add: lock_holder_def find_execution_def empty_db_def)
qed (auto intro: step_executions_ok db_step_lock db_step_commit_guard)


text \<open>C14: what the lease column says is, in every reachable database, exactly the state of the
  lock table that the history of claims, commits and starts produces.\<close>

theorem lease_column_refines_lock_table:
  assumes "trace pf as db"
  shows "lock_holder db = fold lock_step as (\<lambda>_. None)"
proof -
  have "lock_holder empty_db = (\<lambda>_. None)" using engine_lease.init_free by auto
  with engine_lease.run_refines [OF assms] show ?thesis by simp
qed

text \<open>
  What a committed super-step means: it happens at most once per execution and step number, the
  next reader sees exactly what was committed, a live lease keeps other workers out, and a
  worker that takes over an expired lease computes the step the former holder would have.
\<close>

section \<open>At most one commit per step\<close>

definition commits :: "action list \<Rightarrow> (uuid \<times> u32) list" where
  "commits as = concat (map (\<lambda>a. case a of Committed i _ n \<Rightarrow> [(i, n)] | _ \<Rightarrow> []) as)"

definition starts :: "action list \<Rightarrow> uuid list" where
  "starts as = concat (map (\<lambda>a. case a of Started i \<Rightarrow> [i] | _ \<Rightarrow> []) as)"

lemma commits_snoc [simp]:
  "commits (as @ [Claimed i w]) = commits as" "commits (as @ [Started i]) = commits as"
  "commits (as @ [Maintained]) = commits as" "commits (as @ [Committed i ow n]) = commits as @ [(i, n)]"
  by (simp_all add: commits_def)

lemma starts_snoc [simp]:
  "starts (as @ [Claimed i w]) = starts as" "starts (as @ [Started i]) = starts as @ [i]"
  "starts (as @ [Maintained]) = starts as" "starts (as @ [Committed i ow n]) = starts as"
  by (simp_all add: starts_def)

text \<open>The column value of a step number.\<close>

abbreviation step_column :: "u32 \<Rightarrow> int" where
  "step_column n \<equiv> min (uint n) I32_MAX"

text \<open>
  What the history says about the tables: every execution was started, and the step of every
  commit is still recorded as long as its execution is.
\<close>

definition history_ok :: "action list \<Rightarrow> engine_db \<Rightarrow> bool" where
  "history_ok as db \<longleftrightarrow>
     (\<forall>i. execution_exists db i \<longrightarrow> i \<in> set (starts as)) \<and>
     (\<forall>(i, n) \<in> set (commits as). i \<in> set (starts as) \<and>
        (execution_exists db i \<longrightarrow> step_taken db i (step_column n)))"

lemma exists_update:
  assumes "\<And>r. p r \<Longrightarrow> row_id (f r) = row_id r" and "executions db' = update_where p f (executions db)"
  shows "execution_exists db' i = execution_exists db i"
  using assms by (simp add: execution_exists_alt row_ids_update)

lemma history_frame:
  assumes "history_ok as db" and "execution_exists db' = execution_exists db"
    and "checkpoints db' = checkpoints db" and "commits as' = commits as" and "starts as' = starts as"
  shows "history_ok as' db'"
  using assms by (simp add: history_ok_def step_taken_def)

lemma committed_tables:
  assumes "commit_step sj clock db i owner n ex evs = Inr db'"
  shows "execution_exists db' j = execution_exists db j" "execution_exists db i"
    and "step_taken db' j k \<longleftrightarrow> step_taken db j k \<or> (j = i \<and> k = step_column n)"
    and "\<not> step_taken db i (step_column n)"
proof -
  note c = commit_step_Inr [OF assms]
  show "execution_exists db' j = execution_exists db j"
    by (rule exists_update) (simp_all add: c(3) committed_def)
  show "execution_exists db i" using c(2) by (auto simp: execution_exists_def list_ex_iff held_by_def)
  show "step_taken db' j k \<longleftrightarrow> step_taken db j k \<or> (j = i \<and> k = step_column n)"
    by (auto simp: step_taken_def c(3) committed_def checkpoint_to_active_model_def step_checkpoint_def)
  show "\<not> step_taken db i (step_column n)" by (rule c(1))
qed

lemma history_step:
  assumes "db_step pf a db db'" and h: "history_ok as db" and "distinct (commits as)"
    and "distinct (starts (as @ [a]))"
  shows "history_ok (as @ [a]) db' \<and> distinct (commits (as @ [a]))"
  using assms(1)
proof (cases rule: db_step_kinds)
  case (claim i owner until now row)
  have "execution_exists db' = execution_exists db"
    by (intro ext exists_update) (simp_all add: claim(5))
  with claim(1,5) h assms(3) show ?thesis by (auto intro: history_frame)
next
  case (commit i owner n ex evs clock)
  note t = committed_tables [OF commit(3)]
  from t(2,4) h have "(i, n) \<notin> set (commits as)" and "i \<in> set (starts as)"
    by (auto simp: history_ok_def)
  with h assms(3) show ?thesis by (auto simp: commit(1) history_ok_def t(1,3))
next
  case (start i clock gr user ns input)
  from assms(4) have "i \<notin> set (starts as)" by (simp add: start(1))
  with h show ?thesis
    using assms(3)
    by (auto simp: start(1,4) history_ok_def started_def execution_exists_def step_taken_def fresh_row_def)
next
  case (sweep ids)
  have "execution_exists db' j \<Longrightarrow> execution_exists db j \<and> j \<notin> set ids" for j
    by (auto simp: sweep(2) swept_def execution_exists_def list_ex_iff)
  moreover have "j \<notin> set ids \<Longrightarrow> step_taken db' j k = step_taken db j k" for j k
    by (auto simp: sweep(2) swept_def step_taken_def list_ex_iff)
  ultimately show ?thesis using h assms(3) by (auto simp: sweep(1) history_ok_def)
next
  case (expire now)
  have "execution_exists db' = execution_exists db"
    by (intro ext exists_update) (auto simp: expire(2) expire_abandoned_leases_def Let_def)
  with expire h assms(3) show ?thesis
    by (auto intro: history_frame simp: expire_abandoned_leases_def Let_def)
next
  case (other gs k rows j)
  have "execution_exists db' = execution_exists db" by (auto simp: other(2) execution_exists_def)
  with other h assms(3) show ?thesis by (auto intro: history_frame)
qed

lemma trace_history:
  assumes "trace pf as db" and "distinct (starts as)"
  shows "history_ok as db \<and> distinct (commits as)"
  using assms
proof (induction rule: run.induct)
  case run_Nil
  then show ?case by (simp add: history_ok_def commits_def starts_def execution_exists_def empty_db_def)
next
  case (run_snoc as s a s')
  then have "distinct (starts as)" by (simp add: starts_def)
  with run_snoc history_step show ?case by blast
qed

text \<open>C16: however workers interleave, crash or come back late, no super-step of an execution is
  committed twice (execution ids being fresh).\<close>

theorem step_committed_once:
  assumes "trace pf as db" and "distinct (starts as)"
  shows "distinct (commits as)"
  using trace_history [OF assms] by blast

section \<open>Live leases and expired ones\<close>


text \<open>A worker that takes over an execution whose holder died computes, from the same
  inputs, exactly the step that holder would have committed.\<close>

lemma takeover_repeats_the_step:
  assumes "claim_one_ready pf locked now db w lease_for = (db', Some i)"
    and "find_execution db i = Some row" and "row_status row = DbRunning"
  shows "prepare pf exec arrive st t db' i = prepare pf exec arrive st t db i"
proof -
  from assms(1,2) have row': "find_execution db' i =
      Some (take_lease w (lease_end pf now lease_for) now row)"
    by (metis claim_marks_row option.inject)
  have tables: "checkpoints db' = checkpoints db" "graph_rows db' = graph_rows db"
    using assms(1) by (auto elim: claim_cases)
  have latest: "latest sj db' i = latest sj db i" for sj
    by (simp add: latest_def latest_row_def tables)
  have status: "row_status (take_lease w u t row) = row_status row" for u t
    using assms(3) by simp
  have state: "load_current_state pf db' i (take_lease w u t row) g = load_current_state pf db i row g"
    for u t g
    unfolding load_current_state_def current_position_def latest status take_lease_simps
      assms(3) ..
  show ?thesis
    unfolding prepare_def load_execution_and_graph_def registered_graph_def tables
    by (auto simp: row' assms(2) state and_then_def ok_or_def decode_def split: option.splits)
qed

end
