(* ===== verification/Control.thy ===== *)
theory Control
  imports Protocol_Props
begin

text \<open>
  What the service reads back after a commit, and with it the effect of the three control
  calls. A commit acts on what \<^verbatim>\<open>get_execution\<close> returns as an update of status, state and position,
  and of nothing else.
\<close>

section \<open>Reading back a commit\<close>

lemma to_execution_Inr:
  assumes "to_execution sj row cp = Inr ex"
  obtains st version iter max_iter b where
    "columns_to_status sj (row_status row) (row_wait_kind row) = Inr st"
    "counter_column (row_graph_version row) ''graph_version'' = Inr version"
    "counter_column (row_iteration row) ''iteration'' = Inr iter"
    "counter_column (row_max_iterations row) ''max_iterations'' = Inr max_iter"
    "decode sj (read_budget sj) ''Budget'' (row_budget row) = Inr b"
    "ex = \<lparr>exec_id = row_id row, graph_id = row_graph_id row, graph_version = version,
           user_id = row_user_id row, status = st, current_nodes = snd (current_position sj row cp),
           state = fst (current_position sj row cp), iteration = iter, max_iterations = max_iter,
           deadline = row_deadline row, budget = b\<rparr>"
  using assms unfolding to_execution_def Let_def split_beta
  by (auto simp: and_then_eq_Inr map_err_eq_Inr)

lemma get_execution_Inr:
  "get_execution sj db i = Inr ex \<longleftrightarrow>
     (\<exists>row cp. find_execution db i = Some row \<and> latest sj db i = Inr cp \<and> to_execution sj row cp = Inr ex)"
  by (auto simp: get_execution_def execution_row_of_def latest_checkpoint_def result_simps)

text \<open>The next step number lies above every stored one, and the \<^verbatim>\<open>u32\<close> addition never wraps.\<close>

lemma next_step_above:
  assumes ok: "checkpoints_ok sj db" and l: "latest sj db i = Inr cp"
  shows "\<forall>c \<in> set (checkpoints db). cpr_execution_id c = i \<longrightarrow> cpr_step c < uint (step_after cp)"
    and "uint (step_after cp) \<le> 2 ^ 31"
proof -
  consider (none) "latest_row db i = None" "cp = None"
    | (some) m c where "latest_row db i = Some m" "checkpoint_from_model sj m = Inr c" "cp = Some c"
    using l by (cases "latest_row db i") (auto simp: latest_def and_then_eq_Inr)
  then have "(\<forall>c \<in> set (checkpoints db). cpr_execution_id c = i \<longrightarrow> cpr_step c < uint (step_after cp)) \<and>
      uint (step_after cp) \<le> 2 ^ 31"
  proof cases
    case none
    then have "\<forall>c \<in> set (checkpoints db). cpr_execution_id c \<noteq> i"
      by (auto simp: latest_row_def filter_empty_conv)
    with none show ?thesis by (simp add: step_after_def)
  next
    case some
    note m = max_by_Some [OF some(1) [unfolded latest_row_def]]
    from m(1) ok have range: "0 \<le> cpr_step m" "cpr_step m \<le> I32_MAX"
      by (auto simp: checkpoints_ok_def list_all_iff checkpoint_ok_def)
    with some(2) have "cp_step c = word_of_int (cpr_step m)"
      by (auto simp: checkpoint_from_model_def and_then_eq_Inr I32_MAX_def split: if_splits)
    then have "step_after cp = word_of_int (cpr_step m + 1)"
      by (simp add: some(3) step_after_def)
    moreover have "uint (word_of_int (cpr_step m + 1) :: u32) = cpr_step m + 1"
      by (rule uint_u32_of_int) (use range in \<open>simp_all add: I32_MAX_def\<close>)
    ultimately have "uint (step_after cp) = cpr_step m + 1" by simp
    with m(2) range show ?thesis by (fastforce simp: I32_MAX_def)
  qed
  then show "\<forall>c \<in> set (checkpoints db). cpr_execution_id c = i \<longrightarrow> cpr_step c < uint (step_after cp)"
    and "uint (step_after cp) \<le> 2 ^ 31" by auto
qed

lemma latest_after_commit:
  assumes laws: "serde_laws sj" and ok: "checkpoints_ok sj db" and l: "latest sj db i = Inr cp"
    and n: "n = step_after cp" "n < 2 ^ 31"
    and c: "commit_step sj clock db i owner n ex evs = Inr db'"
  shows "latest sj db' i = Inr (Some (step_checkpoint i n ex))"
proof -
  let ?m = "checkpoint_to_active_model sj (clock 0) (step_checkpoint i n ex)"
  have small: "uint n < 2 ^ 31" using n(2) by (simp add: word_less_def)
  then have m: "cpr_step ?m = uint n" "cpr_execution_id ?m = i"
    by (simp_all add: checkpoint_to_active_model_def step_checkpoint_def I32_MAX_def)
  have rows: "checkpoints db' = checkpoints db @ [?m\<lparr>cpr_id := checkpoint_seq db\<rparr>]"
    by (simp add: commit_step_Inr(3) [OF c] committed_def)
  have "latest_row db' i = Some (?m\<lparr>cpr_id := checkpoint_seq db\<rparr>)"
    unfolding latest_row_def
    by (rule max_by_eqI) (use next_step_above(1) [OF ok l] n(1) m in \<open>auto simp: rows\<close>)
  moreover have "checkpoint_from_model sj (?m\<lparr>cpr_id := k\<rparr>) = checkpoint_from_model sj ?m" for k
    by (simp add: checkpoint_from_model_def)
  moreover have "checkpoint_from_model sj ?m = Inr (step_checkpoint i n ex)"
    by (rule serde_laws.checkpoint_roundtrip [OF laws])
      (use n(2) in \<open>simp_all add: step_checkpoint_def\<close>)
  ultimately show ?thesis by (simp add: latest_def)
qed

lemma row_after_commit:
  assumes ok: "executions_ok sj db" and c: "commit_step sj clock db i owner n ex evs = Inr db'"
    and f: "find_execution db i = Some row"
  shows "find_execution db' i = Some (released (fst (status_to_columns sj (status ex)))
    (snd (status_to_columns sj (status ex))) (write_active_nodes sj (current_nodes ex)) (clock 1) row)"
proof -
  from commit_step_Inr(2) [OF c] obtain r where r: "r \<in> set (executions db)" "held_by i owner r" by blast
  with find_execution_Some [OF f] ok have "r = row"
    by (auto simp: executions_ok_def distinct_map inj_on_def held_by_def)
  with r f show ?thesis
    by (simp add: commit_step_Inr(3) [OF c] committed_def find_execution_def find_update_where)
qed

lemma commit_reads_back:
  assumes laws: "serde_laws sj" and ok: "db_ok sj db" and g: "get_execution sj db i = Inr ex0"
    and n: "next_checkpoint_step sj db i = Inr n" "n < 2 ^ 31"
    and c: "commit_step sj clock db i owner n ex evs = Inr db'"
  shows "get_execution sj db' i =
    Inr (ex0\<lparr>status := status ex, state := state ex, current_nodes := current_nodes ex\<rparr>)"
proof -
  from g obtain row cp where row: "find_execution db i = Some row" and cp: "latest sj db i = Inr cp"
    and ex0: "to_execution sj row cp = Inr ex0"
    by (auto simp: get_execution_Inr)
  have step: "n = step_after cp" using n(1) cp by (simp add: next_checkpoint_step_def)
  let ?s = "status_to_columns sj (status ex)"
  let ?row = "released (fst ?s) (snd ?s) (write_active_nodes sj (current_nodes ex)) (clock 1) row"
  have row': "find_execution db' i = Some ?row"
    using row_after_commit [OF _ c row] ok by (simp add: db_ok_def)
  have latest: "latest sj db' i = Inr (Some (step_checkpoint i n ex))"
    by (rule latest_after_commit [OF laws _ cp step n(2) c]) (use ok in \<open>simp add: db_ok_def\<close>)
  have "to_execution sj ?row (Some (step_checkpoint i n ex)) =
      Inr (ex0\<lparr>status := status ex, state := state ex, current_nodes := current_nodes ex\<rparr>)"
    by (rule to_execution_Inr [OF ex0])
      (simp add: to_execution_def current_position_def step_checkpoint_def
        serde_laws.status_roundtrip [OF laws])
  with row' latest show ?thesis by (auto simp: get_execution_Inr)
qed

text \<open>C17: a commit at the next step number is, for every later reader, an update of status, state
  and position of the execution and of nothing else; in particular the iteration counter and the
  budget read back are the old ones.\<close>

theorem commit_is_an_update:
  assumes "serde_laws sj" and "db_ok sj db" and "get_execution sj db i = Inr ex0"
    and "next_checkpoint_step sj db i = Inr n" and "n < 2 ^ 31"
    and "commit_step sj clock db i owner n ex evs = Inr db'"
  shows "get_execution sj db' i =
      Inr (ex0\<lparr>status := status ex, state := state ex, current_nodes := current_nodes ex\<rparr>) \<and>
    event_rows db' = event_rows db @
      map (\<lambda>(k, e). (event_to_active_model sj e)\<lparr>evr_id := event_seq db + int k\<rparr>)
        (zip [0..<length evs] evs)"
  using commit_reads_back [OF assms] commit_step_Inr(3) [OF assms(6)]
  by (simp add: committed_events)

section \<open>The control calls\<close>

lemma get_execution_status:
  assumes "serde_laws sj" and "get_execution sj db i = Inr ex" and "find_execution db i = Some row"
  shows "status ex = Running \<longleftrightarrow> row_status row = DbRunning"
proof -
  from assms(2,3) obtain cp where "to_execution sj row cp = Inr ex" by (auto simp: get_execution_Inr)
  then show ?thesis
    by (rule to_execution_Inr)
      (cases "row_status row"; auto simp: columns_to_status_def and_then_eq_Inr)
qed

lemma load_idle_Inr:
  "load_idle pf db i = Inr ex \<longleftrightarrow>
     get_execution (codec pf) db i = Inr ex \<and>
     (\<exists>row. find_execution db i = Some row \<and> row_status row \<noteq> DbRunning)"
  by (auto simp: load_idle_def get_execution_def execution_row_of_def result_simps split: if_splits)

text \<open>An idle execution can always be committed by a control call at its next step.\<close>

lemma persist_idle:
  assumes ok: "db_ok sj db" and row: "find_execution db i = Some row" "row_status row \<noteq> DbRunning"
    and n: "next_checkpoint_step sj db i = Inr n" "n < 2 ^ 31"
  shows "persist sj clock db i n ex evs = Inr (committed sj clock db i None n ex evs)"
proof -
  from n(1) obtain cp where cp: "latest sj db i = Inr cp" "n = step_after cp"
    by (auto simp: next_checkpoint_step_def result_simps)
  have "uint n < 2 ^ 31" using n(2) by (simp add: word_less_def)
  then have col: "step_column n = uint n" by (simp add: I32_MAX_def)
  have "\<not> step_taken db i (step_column n)"
    unfolding col using next_step_above(1) [of sj db i cp] ok cp
    by (auto simp: db_ok_def step_taken_def list_ex_iff)
  moreover have "\<exists>r \<in> set (executions db). held_by i None r"
    using find_execution_Some [OF row(1)] row(2) ok
    by (auto simp: db_ok_def executions_ok_def list_all_iff lease_consistent_def held_by_def)
  ultimately show ?thesis by (auto simp: persist_def commit_step_eq)
qed

lemma persist_reads_back:
  assumes "serde_laws sj" and "db_ok sj db" and "get_execution sj db i = Inr ex0"
    and "next_checkpoint_step sj db i = Inr n" and "n < 2 ^ 31"
    and "persist sj clock db i n ex evs = Inr db'"
  shows "get_execution sj db' i =
    Inr (ex0\<lparr>status := status ex, state := state ex, current_nodes := current_nodes ex\<rparr>)"
  using assms(6) by (intro commit_reads_back [OF assms(1-5)]) (simp add: persist_def result_simps)

text \<open>A resume succeeds only on a waiting execution; then the execution is ready at the same
  nodes, with the event stored in its state.\<close>

lemma resume_effect:
  assumes "serde_laws (codec pf)" and "db_ok (codec pf) db"
    and "get_execution (codec pf) db i = Inr ex" and "is_object (state ex)"
    and "next_checkpoint_step (codec pf) db i = Inr n" and "n < 2 ^ 31"
    and "parse_json (codec pf) js = Inr event"
  shows "case resume pf debug clock db (OwnedExecution i) js of
      Inr db' \<Rightarrow> is_waiting (status ex) \<and>
        (\<exists>ex'. get_execution (codec pf) db' i = Inr ex' \<and> status ex' = Ready \<and>
          current_nodes ex' = current_nodes ex \<and> get (state ex') RESUME_EVENT_STATE_KEY = Some event)
    | Inl e \<Rightarrow> \<not> is_waiting (status ex)"
proof -
  from assms(3) obtain row where row: "find_execution db i = Some row" by (auto simp: get_execution_Inr)
  from assms(4) obtain m where m: "state ex = Object m" by (cases "state ex") auto
  define ex' where "ex' = ex\<lparr>state := Object (fmupd RESUME_EVENT_STATE_KEY event m), status := Ready\<rparr>"
  show ?thesis
  proof (cases "is_waiting (status ex)")
    case True
    then have idle: "row_status row \<noteq> DbRunning"
      using get_execution_status [OF assms(1,3) row] by auto
    then have "load_idle pf db i = Inr ex" using assms(3) row by (auto simp: load_idle_Inr)
    with True m assms(5,7) have r: "resume pf debug clock db (OwnedExecution i) js =
        persist (codec pf) clock db i n ex' []"
      by (simp add: resume_def ex'_def Let_def)
    note p = persist_idle [OF assms(2) row idle assms(5,6), of clock ex' "[]"]
    with persist_reads_back [OF assms(1,2,3,5,6) p] True r show ?thesis
      by (simp add: ex'_def get_def)
  next
    case False
    have "resume pf debug clock db (OwnedExecution i) js \<noteq> Inr db'" for db'
    proof
      assume "resume pf debug clock db (OwnedExecution i) js = Inr db'"
      then obtain e where "load_idle pf db i = Inr e" "is_waiting (status e)"
        by (auto simp: resume_def Let_def and_then_eq_Inr split: if_splits)
      with assms(3) False show False by (auto simp: load_idle_Inr)
    qed
    with False show ?thesis by (auto split: sum.splits)
  qed
qed

text \<open>An interrupt is accepted in every status but \<^verbatim>\<open>Running\<close>, the terminal ones included: a
  completed, failed or cancelled execution is made ready again.\<close>

lemma interrupt_revives:
  assumes "serde_laws (codec pf)" and "db_ok (codec pf) db"
    and "get_execution (codec pf) db i = Inr ex" and "state ex = Object m"
    and "status ex \<noteq> Running" and "next_checkpoint_step (codec pf) db i = Inr n" and "n < 2 ^ 31"
    and "parse_json (codec pf) js = Inr input"
  shows "\<exists>db'. interrupt_execution pf s clock db (OwnedExecution i) js = Some (Inr db') \<and>
    get_execution (codec pf) db' i =
      Inr (ex\<lparr>status := Ready, state := Object (fmupd ''interrupt_input'' input m)\<rparr>)"
proof -
  from assms(3) obtain row where row: "find_execution db i = Some row" by (auto simp: get_execution_Inr)
  then have idle: "row_status row \<noteq> DbRunning"
    using get_execution_status [OF assms(1,3) row] assms(5) by simp
  then have "load_idle pf db i = Inr ex" using assms(3) row by (auto simp: load_idle_Inr)
  moreover define ex' where
    "ex' = ex\<lparr>state := Object (fmupd ''interrupt_input'' input m), status := Ready\<rparr>"
  ultimately have r: "interrupt_execution pf s clock db (OwnedExecution i) js =
      Some (persist (codec pf) clock db i n ex' [execution_event ex' s Interrupted])"
    using assms(4,6,8) by (simp add: interrupt_execution_def interrupt_def insert_field_def Let_def)
  note p = persist_idle [OF assms(2) row idle assms(6,7), of clock ex' "[execution_event ex' s Interrupted]"]
  from persist_reads_back [OF assms(1,2,3,6,7) p] r p show ?thesis by (simp add: ex'_def)
qed

text \<open>A cancel takes effect on every execution that is not mid-tick, and is refused as busy on
  one that is.\<close>

lemma cancel_effect:
  assumes "serde_laws (codec pf)" and "db_ok (codec pf) db"
    and "get_execution (codec pf) db i = Inr ex"
    and "next_checkpoint_step (codec pf) db i = Inr n" and "n < 2 ^ 31"
  shows "if status ex = Running then \<exists>m. cancel pf s clock db (OwnedExecution i) = Inl (Busy m)
    else \<exists>db'. cancel pf s clock db (OwnedExecution i) = Inr db' \<and>
      get_execution (codec pf) db' i = Inr (ex\<lparr>status := Cancelled\<rparr>)"
proof -
  from assms(3) obtain row where row: "find_execution db i = Some row" by (auto simp: get_execution_Inr)
  note running = get_execution_status [OF assms(1,3) row]
  show ?thesis
  proof (cases "status ex = Running")
    case True
    with running row show ?thesis by (simp add: cancel_def load_idle_def execution_row_of_def Let_def)
  next
    case False
    then have idle: "row_status row \<noteq> DbRunning" using running by simp
    then have "load_idle pf db i = Inr ex" using assms(3) row by (auto simp: load_idle_Inr)
    moreover define ex' where "ex' = ex\<lparr>status := Cancelled\<rparr>"
    ultimately have r: "cancel pf s clock db (OwnedExecution i) =
        persist (codec pf) clock db i n ex' [execution_event ex' s ExecutionCancelled]"
      using assms(4) by (simp add: cancel_def Let_def)
    note p = persist_idle [OF assms(2) row idle assms(4,5), of clock ex' "[execution_event ex' s ExecutionCancelled]"]
    from persist_reads_back [OF assms(1-5) p] r p False show ?thesis by (simp add: ex'_def)
  qed
qed

section \<open>Ready without nodes\<close>

text \<open>An execution that is ready with no current node is claimed and stepped for ever: each
  tick leaves it ready, without nodes and without an event.\<close>

lemma ready_without_nodes_spins:
  assumes "prepare pf exec arrive st now db i = Some (Inr (n, ex, evs))"
    and "get_execution (codec pf) db i = Inr ex0" and "current_nodes ex0 = []"
    and "iteration ex0 + 1 < max_iterations ex0" and "arrive [] = []"
  shows "status ex = Ready \<and> current_nodes ex = [] \<and> state ex = state ex0 \<and> evs = []"
proof -
  from assms(1) obtain row g e outs where l: "load_execution_and_graph pf db i = Inr (row, g)"
    and s: "load_current_state pf db i row g = Inr (e, n)"
    and r: "run_active_nodes pf exec arrive g e (current_nodes e) = Inr outs"
    and t: "step (codec pf) st g e outs now = Some (ex, evs)"
    by (auto simp: prepare_def split: sum.splits prod.splits)
  from l have row: "find_execution db i = Some row"
    by (auto simp: load_execution_and_graph_def result_simps)
  with assms(2) obtain cp where cp: "latest (codec pf) db i = Inr cp" "to_execution (codec pf) row cp = Inr ex0"
    by (auto simp: get_execution_Inr)
  have e: "current_nodes e = current_nodes ex0" "iteration e = iteration ex0"
    "max_iterations e = max_iterations ex0" "state e = state ex0"
    by (rule load_current_state_Inr [OF s]; rule to_execution_Inr [OF cp(2)]; use cp(1) in simp)+
  then have "outs = []" using r assms(3,5) by (simp add: run_active_nodes_def)
  with t e assms(3,4) show ?thesis
    by (auto simp: step_def step_outputs_def settle_def expand_completed_fan_ins_def Let_def
        reaches_end_def park_next_def split: if_splits)
qed

end
