(* ===== verification/Registry.thy ===== *)
theory Registry
  imports Control
begin

text \<open>
  Graph registration and the start of executions: versions are consecutive, the newest version
  is what an unversioned start loads, registering an unchanged graph is idempotent, whatever a
  tick loads has passed validation, and a started execution reads back as the code means it,
  with an earlier turn's material only when that turn is the caller's to read.
\<close>

section \<open>Versions\<close>

definition versions_fit :: "engine_db \<Rightarrow> bool" where
  "versions_fit db \<longleftrightarrow> list_all (\<lambda>r. 0 \<le> gr_version r \<and> gr_version r < I32_MAX) (graph_rows db)"

lemma i32_succ_small: "0 \<le> v \<Longrightarrow> v < I32_MAX \<Longrightarrow> i32_succ v = v + 1"
  by (simp add: i32_succ_def I32_MAX_def)

definition next_version :: "engine_db \<Rightarrow> string \<Rightarrow> int" where
  "next_version db gid = (case newest_graph_row db gid of None \<Rightarrow> 1 | Some r \<Rightarrow> gr_version r + 1)"

definition new_graph_row :: "serde \<Rightarrow> instant \<Rightarrow> engine_db \<Rightarrow> string \<Rightarrow> graph \<Rightarrow> graph_row" where
  "new_graph_row sj now db gid g =
     \<lparr>gr_id = graph_seq db, gr_graph_id = gid, gr_version = next_version db gid, gr_user_id = None,
      gr_definition = write_graph sj (g\<lparr>g_version := version_number (next_version db gid)\<rparr>),
      gr_created_at = now\<rparr>"

lemma newest_SomeD:
  assumes "newest_graph_row db gid = Some r"
  shows "r \<in> set (graph_rows db)" "gr_graph_id r = gid"
    "x \<in> set (graph_rows db) \<Longrightarrow> gr_graph_id x = gid \<Longrightarrow> gr_version x \<le> gr_version r"
  using max_by_Some [OF assms [unfolded newest_graph_row_def]] by auto

lemma next_version_above:
  assumes "x \<in> set (graph_rows db)" and "gr_graph_id x = gid"
  shows "gr_version x < next_version db gid"
proof (cases "newest_graph_row db gid")
  case None
  with assms show ?thesis by (auto simp: newest_graph_row_def filter_empty_conv)
next
  case (Some r)
  with newest_SomeD(3) [OF Some assms] show ?thesis by (simp add: next_version_def)
qed

text \<open>A registration never hits the unique key: it appends the next version.\<close>

lemma insert_next_version_eq:
  assumes "versions_fit db"
  shows "insert_next_version sj now db gid g (newest_graph_row db gid) =
    Inr (db\<lparr>graph_rows := graph_rows db @ [new_graph_row sj now db gid g], graph_seq := graph_seq db + 1\<rparr>,
         gid, next_version db gid)"
proof -
  have v: "(case newest_graph_row db gid of None \<Rightarrow> 1 | Some r \<Rightarrow> i32_succ (gr_version r)) =
      next_version db gid"
  proof (cases "newest_graph_row db gid")
    case (Some r)
    from newest_SomeD(1) [OF Some] assms have "0 \<le> gr_version r" "gr_version r < I32_MAX"
      by (auto simp: versions_fit_def list_all_iff)
    with Some show ?thesis by (simp add: next_version_def i32_succ_small)
  qed (simp add: next_version_def)
  have "\<not> list_ex (\<lambda>r. gr_graph_id r = gid \<and> gr_version r = next_version db gid) (graph_rows db)"
    using next_version_above [of _ db gid] by (force simp: list_ex_iff)
  then show ?thesis
    by (simp add: insert_next_version_def v insert_graph_row_def new_graph_row_def Let_def)
qed

lemma newest_after_registration:
  "newest_graph_row (db\<lparr>graph_rows := graph_rows db @ [new_graph_row sj now db gid g], graph_seq := k\<rparr>) gid =
     Some (new_graph_row sj now db gid g)"
  unfolding newest_graph_row_def
  by (rule max_by_eqI) (use next_version_above in \<open>auto simp: new_graph_row_def\<close>)

text \<open>C18: registering a graph that validates stores it under the next version, which is what a
  start without a version then loads; the graph read back is the one registered, and other
  graphs are untouched.\<close>

theorem register_then_load:
  assumes "serde_laws sj" and "versions_fit db" and "validated_graph sj js = Inr g"
  shows "\<exists>db' v. register_graph sj now db gid js = Inr (db', gid, v) \<and> v = next_version db gid \<and>
    (\<exists>row. load_graph sj db' gid None = Inr (row, g\<lparr>g_version := version_number v\<rparr>) \<and> gr_version row = v) \<and>
    (\<forall>gid' version. gid' \<noteq> gid \<longrightarrow> load_graph sj db' gid' version = load_graph sj db gid' version)"
proof -
  let ?row = "new_graph_row sj now db gid g"
  let ?db = "db\<lparr>graph_rows := graph_rows db @ [?row], graph_seq := graph_seq db + 1\<rparr>"
  have r: "register_graph sj now db gid js = Inr (?db, gid, next_version db gid)"
    using assms(3) by (simp add: register_graph_def insert_next_version_eq [OF assms(2)])
  have "load_graph sj ?db gid None =
      Inr (?row, g\<lparr>g_version := version_number (next_version db gid)\<rparr>)"
    using newest_after_registration [where db = db and sj = sj and now = now and gid = gid and g = g
        and k = "graph_seq db + 1"]
    by (simp add: load_graph_def newest_graph_row_def serde_laws.graph_inverse [OF assms(1)]
        new_graph_row_def)
  moreover have "load_graph sj ?db gid' version = load_graph sj db gid' version" if "gid' \<noteq> gid"
    for gid' version
    using that by (simp add: load_graph_def new_graph_row_def)
  moreover have "gr_version ?row = next_version db gid" by (simp add: new_graph_row_def)
  ultimately show ?thesis using r by blast
qed

text \<open>Registering the same text again with \<^verbatim>\<open>register_graph_if_changed\<close> changes nothing and
  answers the version it already has.\<close>

lemma register_if_changed_idempotent:
  assumes "versions_fit db" and "register_graph_if_changed sj now db gid js = Inr (db', gid', v)"
  shows "register_graph_if_changed sj now' db' gid js = Inr (db', gid, v)"
proof -
  from assms(2) obtain g where g: "validated_graph sj js = Inr g"
    by (auto simp: register_graph_if_changed_def and_then_eq_Inr)
  let ?row = "new_graph_row sj now db gid g"
  show ?thesis
  proof (cases "\<exists>row. newest_graph_row db gid = Some row \<and> already_stored sj row g")
    case True
    with assms(2) g show ?thesis by (auto simp: register_graph_if_changed_def)
  next
    case False
    then have "register_graph_if_changed sj now db gid js =
        insert_next_version sj now db gid g (newest_graph_row db gid)"
      using g by (auto simp: register_graph_if_changed_def split: option.splits)
    with assms(2) have db': "v = next_version db gid"
      "db' = db\<lparr>graph_rows := graph_rows db @ [?row], graph_seq := graph_seq db + 1\<rparr>"
      by (auto simp: insert_next_version_eq [OF assms(1)])
    then have "newest_graph_row db' gid = Some ?row" by (simp add: newest_after_registration)
    moreover have "already_stored sj ?row g" by (simp add: already_stored_def new_graph_row_def)
    moreover have "gr_version ?row = v" by (simp add: db' new_graph_row_def)
    ultimately show ?thesis using g by (simp add: register_graph_if_changed_def)
  qed
qed

section \<open>Stored graphs are valid\<close>

definition stored_valid :: "serde \<Rightarrow> engine_db \<Rightarrow> bool" where
  "stored_valid sj db \<longleftrightarrow>
     list_all (\<lambda>r. \<exists>g. gr_definition r = write_graph sj g \<and> validate g = Inr ()) (graph_rows db)"

lemma validate_version: "validate (g\<lparr>g_version := v\<rparr>) = Inr () \<longleftrightarrow> validate g = Inr ()"
  by (simp add: validate_Inr well_formed_graph_def declared_def graph_lookups)

lemma register_stored_valid:
  assumes "stored_valid sj db" and "validated_graph sj js = Inr g"
    and "insert_next_version sj now db gid g newest = Inr (db', gid', v)"
  shows "stored_valid sj db'"
proof -
  from assms(2) have "validate g = Inr ()"
    by (auto simp: validated_graph_def and_then_eq_Inr map_err_eq_Inr)
  then have "\<exists>g'. write_graph sj (g\<lparr>g_version := k\<rparr>) = write_graph sj g' \<and> validate g' = Inr ()" for k
    using validate_version by metis
  with assms(1,3) show ?thesis
    by (auto simp: stored_valid_def insert_next_version_def Let_def and_then_eq_Inr map_err_eq_Inr
        insert_graph_row_def validate_version split: if_splits)
qed

lemma step_stored_valid:
  assumes "db_step pf a db db'" and "stored_valid (codec pf) db"
  shows "stored_valid (codec pf) db'"
  using assms(1)
proof (cases rule: db_step.cases)
  case (claims locked now owner lease_for i)
  with assms(2) show ?thesis by (auto simp: stored_valid_def elim!: claim_cases)
next
  case (ticks exec arrive st now loaded i n ex evs clock owner)
  from commit_step_Inr(3) [OF ticks(3)] assms(2) show ?thesis
    by (simp add: committed_def stored_valid_def)
next
  case (controls ex clock i n evs)
  then have "db' = committed (codec pf) clock db i None n ex evs"
    by (auto simp: persist_def map_err_eq_Inr dest: commit_step_Inr(3))
  with assms(2) show ?thesis by (simp add: committed_def stored_valid_def)
next
  case (starts clock fresh gid version input user continues i)
  from starts(2) assms(2) show ?thesis
    by (auto elim!: start_continuing_Inr simp: started_def stored_valid_def)
next
  case (sweeps now retention batch k)
  from sweeps(2) assms(2) show ?thesis
    by (auto elim!: sweep_terminal_eq simp: swept_def stored_valid_def)
next
  case (expires now k)
  with assms(2) show ?thesis by (auto simp: expire_abandoned_leases_def Let_def stored_valid_def)
next
  case (registers now gid js gid' v)
  with assms(2) show ?thesis
    by (auto simp: register_graph_def and_then_eq_Inr intro: register_stored_valid)
next
  case (registers_if_changed now gid js gid' v)
  with assms(2) show ?thesis
    by (auto simp: register_graph_if_changed_def and_then_eq_Inr
        split: option.splits if_splits intro: register_stored_valid)
next
  case (schedules k rows)
  with assms(2) show ?thesis by (simp add: stored_valid_def)
qed

lemma trace_stored_valid: "trace pf as db \<Longrightarrow> stored_valid (codec pf) db"
  by (induction rule: run.induct)
    (simp add: stored_valid_def empty_db_def, blast intro: step_stored_valid)

text \<open>Every graph a tick loads from a reachable database has passed validation.\<close>

lemma loaded_graph_is_valid:
  assumes "trace pf as db" and "serde_laws (codec pf)"
    and "load_execution_and_graph pf db i = Inr (row, g)"
  shows "validate g = Inr ()"
proof -
  from assms(3) obtain gr where "registered_graph db (row_graph_id row) (row_graph_version row) = Some gr"
    and d: "decode (codec pf) (read_graph (codec pf)) ''Graph'' (gr_definition gr) = Inr g"
    by (auto simp: load_execution_and_graph_def and_then_eq_Inr ok_or_eq_Inr)
  then have "gr \<in> set (graph_rows db)" by (auto simp: registered_graph_def find_Some_iff)
  with trace_stored_valid [OF assms(1)] obtain g' where "gr_definition gr = write_graph (codec pf) g'"
    "validate g' = Inr ()" by (auto simp: stored_valid_def list_all_iff)
  with d serde_laws.graph_inverse [OF assms(2)] show ?thesis by (simp add: decode_def)
qed

section \<open>Starting an execution\<close>

text \<open>What an execution inherits from an earlier turn: nothing unless that turn has no owner or
  belongs to the caller.\<close>

definition inherited_input ::
  "serde \<Rightarrow> engine_db \<Rightarrow> uuid option \<Rightarrow> uuid option \<Rightarrow> json \<Rightarrow> json" where
  "inherited_input sj db user continues input =
     (case continues of Some parent \<Rightarrow> carry_material_from sj db parent user input | None \<Rightarrow> input)"

lemma latest_started:
  assumes "serde_laws sj" and "checkpoints_ok sj db" and "\<not> execution_exists db i"
  shows "latest sj (started sj clock db i gr user ns input) i =
    Inr (Some \<lparr>schema_version = CHECKPOINT_SCHEMA_VERSION, cp_execution_id = i, cp_step = 0,
      cp_state = input, cp_current_nodes = ns\<rparr>)"
proof -
  let ?c = "\<lparr>schema_version = CHECKPOINT_SCHEMA_VERSION, cp_execution_id = i, cp_step = 0,
      cp_state = input, cp_current_nodes = ns\<rparr>"
  let ?m = "checkpoint_to_active_model sj (clock 2) ?c"
  have none: "filter (\<lambda>r. cpr_execution_id r = i) (checkpoints db) = []"
    using assms(2,3) by (auto simp: checkpoints_ok_def list_all_iff filter_empty_conv)
  have "latest_row (started sj clock db i gr user ns input) i = Some (?m\<lparr>cpr_id := checkpoint_seq db\<rparr>)"
    by (simp add: latest_row_def started_def none checkpoint_to_active_model_def)
  moreover have "checkpoint_from_model sj (?m\<lparr>cpr_id := k\<rparr>) = checkpoint_from_model sj ?m" for k
    by (simp add: checkpoint_from_model_def)
  moreover have "checkpoint_from_model sj ?m = Inr ?c"
    by (rule serde_laws.checkpoint_roundtrip [OF assms(1)]) simp_all
  ultimately show ?thesis by (simp add: latest_def)
qed

text \<open>A start creates an execution that reads back as ready at the graph's entry, owned by the
  caller, with the counters of the defaults and the caller's input as its state; material of an
  earlier turn is added only when that turn is the caller's to read.\<close>

lemma start_effect:
  assumes "serde_laws sj" and "db_ok sj db"
    and "start_continuing sj clock fresh db gid version js user continues = Inr (db', i)"
  shows "\<exists>gr g input. load_graph sj db gid version = Inr (gr, g) \<and> execution_input sj js = Inr input \<and>
    i = fresh \<and>
    (0 \<le> gr_version gr \<longrightarrow> gr_version gr < 2 ^ 32 \<longrightarrow>
      get_execution sj db' i = Inr \<lparr>exec_id = i, graph_id = gr_graph_id gr,
        graph_version = word_of_int (gr_version gr), user_id = user, status = Ready,
        current_nodes = [plain (entry g)], state = inherited_input sj db user continues input,
        iteration = 0, max_iterations = 25, deadline = None, budget = initial_budget\<rparr>) \<and>
    (\<forall>parent. continues = Some parent \<longrightarrow> \<not> execution_belongs_to db parent user \<longrightarrow>
      inherited_input sj db user continues input = input)"
proof -
  from assms(3) obtain input gr g where i: "i = fresh" "\<not> execution_exists db fresh"
    and g: "load_graph sj db gid version = Inr (gr, g)" and e: "execution_input sj js = Inr input"
    and db': "db' = started sj clock db fresh gr user [plain (entry g)] (inherited_input sj db user continues input)"
    unfolding inherited_input_def by (rule start_continuing_Inr)
  have b: "read_budget sj (write_budget sj initial_budget) = Some initial_budget"
    by (simp add: serde_laws.budget_inverse [OF assms(1)] initial_budget_def budget_new_def
        DEFAULT_WALL_TIME_BUDGET_def duration_millis_deserialize_def duration_millis_serialize_def
        nanos_per_milli_def nanos_per_second_def clamp_to_word_def unat_of_nat)
  have row: "find_execution db' i = Some (fresh_row sj clock i gr user [plain (entry g)])"
    by (simp add: db' i find_execution_started)
  have latest: "latest sj db' i = Inr (Some \<lparr>schema_version = CHECKPOINT_SCHEMA_VERSION,
      cp_execution_id = i, cp_step = 0, cp_state = inherited_input sj db user continues input,
      cp_current_nodes = [plain (entry g)]\<rparr>)"
    unfolding db' i(1) by (rule latest_started) (use assms(1,2) i in \<open>simp_all add: db_ok_def\<close>)
  have "get_execution sj db' i = Inr \<lparr>exec_id = i, graph_id = gr_graph_id gr,
        graph_version = word_of_int (gr_version gr), user_id = user, status = Ready,
        current_nodes = [plain (entry g)], state = inherited_input sj db user continues input,
        iteration = 0, max_iterations = 25, deadline = None, budget = initial_budget\<rparr>"
    if "0 \<le> gr_version gr" "gr_version gr < 2 ^ 32"
    using that b row latest
    by (auto simp: get_execution_Inr to_execution_def current_position_def fresh_row_def
        counter_column_def columns_to_status_def DEFAULT_MAX_ITERATIONS_def
        initial_budget_def [symmetric])
  moreover have "inherited_input sj db user continues input = input"
    if "continues = Some parent" "\<not> execution_belongs_to db parent user" for parent
    using that by (simp add: inherited_input_def carry_material_from_def)
  ultimately show ?thesis using g e i(1) by blast
qed

text \<open>An execution with an owner is handed to nobody else: \<^verbatim>\<open>owned_by_the_caller\<close> answers
  \<^verbatim>\<open>NotYours\<close>, and whatever it does hand out is unowned or the caller's own.\<close>

lemma ownership_is_enforced:
  assumes "get_execution sj db i = Inr ex"
  shows "owned_by_the_caller sj db caller i =
    (if user_id ex = None \<or> user_id ex = caller then Inr (OwnedExecution i) else Inl (NotYours i))"
  using assms by (auto simp: owned_by_the_caller_def checked_def)

end
