(* ===== verification/Ref_Platform.thy ===== *)
theory Ref_Platform
  imports Engine_Db
begin

text \<open>
  An executable platform for the witnesses: the reference codecs, decimal identifiers, and a
  parser that knows one graph under the name \<^verbatim>\<open>graph\<close>. It satisfies \<open>platform_laws\<close> for every
  choice of that graph.
\<close>

definition ref_codec :: "graph \<Rightarrow> serde" where
  "ref_codec g =
     ref_serde\<lparr>parse_json := (\<lambda>s. if s = ''graph'' then Inr (ref_write_graph g) else ref_parse_json s)\<rparr>"

definition ref_timer_until :: "json \<Rightarrow> instant option" where
  "ref_timer_until v = (case ref_read_wait_kind v of Some (Timer u) \<Rightarrow> Some u | _ \<Rightarrow> None)"

definition ref_from_std :: "duration \<Rightarrow> int option" where
  "ref_from_std d = (if d < 2 ^ 83 then Some (int d) else None)"

definition ref_next_fire :: "string \<Rightarrow> instant \<Rightarrow> string + instant option" where
  "ref_next_fire expr now =
     (if expr = ''hourly'' then Inr (Some ((now div 3600 + 1) * 3600))
      else if expr = ''never'' then Inr None else Inl ''invalid expression'')"

definition ref_platform :: "graph \<Rightarrow> platform" where
  "ref_platform g =
     \<lparr>codec = ref_codec g, show_uuid = (\<lambda>u. show_nat (unat u)), rfc3339 = show_int,
      timer_until = ref_timer_until, from_std = ref_from_std, next_fire = ref_next_fire\<rparr>"

lemma ref_platform_simps [simp]:
  "codec (ref_platform g) = ref_codec g" "show_uuid (ref_platform g) u = show_nat (unat u)"
  "timer_until (ref_platform g) = ref_timer_until" "from_std (ref_platform g) = ref_from_std"
  "next_fire (ref_platform g) = ref_next_fire" "rfc3339 (ref_platform g) = show_int"
  by (simp_all add: ref_platform_def)

lemma ref_codec_simps [simp]:
  "pointer (ref_codec g) = ref_pointer" "read_reducer (ref_codec g) = ref_read_reducer"
  "read_graph (ref_codec g) = ref_read_graph" "write_graph (ref_codec g) = ref_write_graph"
  "read_budget (ref_codec g) = ref_read_budget" "write_budget (ref_codec g) = ref_write_budget"
  "read_wait_kind (ref_codec g) = ref_read_wait_kind"
  "write_wait_kind (ref_codec g) = ref_write_wait_kind"
  "read_tool_record (ref_codec g) = ref_read_tool_record"
  "parse_json (ref_codec g) s = (if s = ''graph'' then Inr (ref_write_graph g) else ref_parse_json s)"
  by (simp_all add: ref_codec_def ref_serde_def)

section \<open>Decimal printing is injective\<close>

lemma show_nat_small: "n < 10 \<Longrightarrow> show_nat n = [char_of (48 + n)]"
  by (simp add: show_nat.simps)

lemma show_nat_large:
  "\<not> n < 10 \<Longrightarrow> show_nat n = show_nat (n div 10) @ [char_of (48 + n mod 10)]"
  by (simp add: show_nat.simps [of n])

lemma show_nat_0: "show_nat 0 = ''0''"
  by code_simp

lemma show_nat_not_Nil [simp]: "show_nat n \<noteq> []"
  by (cases "n < 10") (simp_all add: show_nat_small show_nat_large)

lemma digit_inj:
  fixes a b :: nat
  assumes "a < 10" and "b < 10" and "(char_of (48 + a) :: char) = char_of (48 + b)"
  shows "a = b"
proof -
  have "(48 + a) mod 256 = (48 + b) mod 256"
    using arg_cong [OF assms(3), of "of_char :: char \<Rightarrow> nat"] by simp
  with assms show ?thesis by simp
qed

lemma show_nat_inj: "show_nat m = show_nat n \<longleftrightarrow> m = n"
proof
  show "show_nat m = show_nat n \<Longrightarrow> m = n"
  proof (induction m arbitrary: n rule: less_induct)
    case (less m)
    show ?case
    proof (cases "m < 10 \<or> n < 10")
      case True
      with less.prems show ?thesis
        by (cases "m < 10"; cases "n < 10")
          (auto simp: show_nat_small show_nat_large append_eq_Cons_conv Cons_eq_append_conv
            intro: digit_inj)
    next
      case False
      with less.prems have "show_nat (m div 10) = show_nat (n div 10)"
        and "(char_of (48 + m mod 10) :: char) = char_of (48 + n mod 10)"
        by (simp_all add: show_nat_large)
      with less.IH [of "m div 10"] False have "m div 10 = n div 10" and "m mod 10 = n mod 10"
        by (auto intro: digit_inj)
      then show ?thesis by (metis div_mult_mod_eq)
    qed
  qed
qed simp

interpretation ref_laws: serde_laws "ref_codec g" for g
proof
  show "plain_key k \<Longrightarrow> pointer (ref_codec g) st (CHR ''/'' # k) = get st k" for k st
    using ref_ptr.ptr_field by simp
  show "plain_key k \<Longrightarrow> plain_key k' \<Longrightarrow>
      pointer (ref_codec g) st (CHR ''/'' # k @ CHR ''/'' # k') = Option.bind (get st k) (\<lambda>v. get v k')"
    for k k' st using ref_ptr.ptr_field2 by simp
qed (simp_all add: ref_codec_def ref.reducer_names ref.tool_record_inverse ref.wait_kind_inverse
    ref.active_nodes_inverse ref.budget_inverse ref.payload_inverse ref.graph_inverse)

interpretation ref_platform_laws: platform_laws "ref_platform g" for g
proof (unfold platform_laws_def platform_laws_axioms_def, intro conjI allI impI)
  show "serde_laws (codec (ref_platform g))" using ref_laws.serde_laws_axioms by simp
  show "timer_until (ref_platform g) (write_wait_kind (codec (ref_platform g)) w) =
      (case w of Timer u \<Rightarrow> Some u | _ \<Rightarrow> None)" for w
    by (simp add: ref_timer_until_def ref_wait_kind_inverse split: wait_kind.splits)
  show "show_uuid (ref_platform g) u = show_uuid (ref_platform g) v \<longleftrightarrow> u = v" for u v
    by (simp add: show_nat_inj word_unat_eq_iff)
  show "from_std (ref_platform g) d = Some (int d)" if "d < 2 ^ 63" for d
    using that by (simp add: ref_from_std_def)
  show "now < t" if "next_fire (ref_platform g) expr now = Inr (Some t)" for expr now t
    using that by (auto simp: ref_next_fire_def split: if_splits)
qed

end
