(* ===== verification/Endless.thy ===== *)
theory Endless
  imports Protocol_Props Ref_Platform
begin

text \<open>
  What becomes of the bounds of \<^verbatim>\<open>engine-core\<close> once an execution lives in the database. A commit
  writes neither the iteration counter nor the budget back to the row, a checkpoint carries
  neither, and every tick reloads both from the row: each super-step of every reachable
  database starts at iteration 0 with the full budget. A graph with a loop therefore runs for
  as long as there are step numbers, with \<^verbatim>\<open>max_iterations\<close> at 25.
\<close>

section \<open>Every tick starts from the counters of the start\<close>

lemma load_current_state_counters:
  assumes "load_current_state pf db i row g = Inr (ex, n)" and "as_created (codec pf) row"
    and "serde_laws (codec pf)"
  shows "iteration ex = 0" and "max_iterations ex = 25" and "budget ex = initial_budget"
    and "exec_id ex = i" and "deadline ex = None"
proof -
  have b: "read_budget (codec pf) (write_budget (codec pf) initial_budget) = Some initial_budget"
    by (simp add: serde_laws.budget_inverse [OF assms(3)] initial_budget_def budget_new_def
        DEFAULT_WALL_TIME_BUDGET_def duration_millis_deserialize_def duration_millis_serialize_def
        nanos_per_milli_def nanos_per_second_def clamp_to_word_def unat_of_nat)
  from assms(1) show "iteration ex = 0" "max_iterations ex = 25" "budget ex = initial_budget"
    "exec_id ex = i" "deadline ex = None"
    by (rule load_current_state_Inr;
        use assms(2) b in \<open>simp add: as_created_def DEFAULT_MAX_ITERATIONS_def counter_column_def\<close>)+
qed

text \<open>A tick on a reachable database: the super-step it ran, and the counters it started from.\<close>

lemma reachable_tick:
  assumes "trace pf as db" and "serde_laws (codec pf)"
    and "prepare pf exec arrive st now db i = Some (Inr (n, ex', evs))"
  obtains g ex outs where "step (codec pf) st g ex outs now = Some (ex', evs)"
    "iteration ex = 0" "max_iterations ex = 25" "budget ex = initial_budget" "exec_id ex = i"
    "run_active_nodes pf exec arrive g ex (current_nodes ex) = Inr outs"
proof -
  from assms(3) obtain row g ex outs where l: "load_execution_and_graph pf db i = Inr (row, g)"
    and s: "load_current_state pf db i row g = Inr (ex, n)"
    and r: "run_active_nodes pf exec arrive g ex (current_nodes ex) = Inr outs"
    and t: "step (codec pf) st g ex outs now = Some (ex', evs)"
    by (auto simp: prepare_def split: sum.splits prod.splits)
  from l have "find_execution db i = Some row"
    by (auto simp: load_execution_and_graph_def result_simps)
  with trace_db_ok [OF assms(1)] have "as_created (codec pf) row"
    by (auto simp: db_ok_def executions_ok_def list_all_iff dest: find_execution_Some)
  note load_current_state_counters [OF s this assms(2)]
  with t r that show ?thesis by blast
qed

lemma settle_iteration:
  assumes "settle sj st g b now (ex, evs, next, hard) = (ex', evs')"
  shows "iteration ex' = iteration ex \<or> iteration ex' = iteration ex + 1"
    and "max_iterations ex' = max_iterations ex"
  using assms
  by (auto simp: settle_def Let_def fail_execution_def complete_execution_def
      split: option.splits if_splits dest: park_next_frame)

text \<open>The iteration limit and the budget of an execution are never used up by earlier ticks:
  in every reachable database a tick runs its super-step from iteration 0 with the full budget,
  ends at iteration 1 at most, and names its tasks \<^verbatim>\<open>id:node:0\<close>, whatever was committed before.\<close>

lemma ticks_forget_counters:
  assumes "trace pf as db" and "serde_laws (codec pf)"
    and "prepare pf exec arrive st now db i = Some (Inr (n, ex', evs))"
  shows "(\<exists>g ex outs. step (codec pf) st g ex outs now = Some (ex', evs) \<and>
      iteration ex = 0 \<and> budget ex = initial_budget \<and>
      idempotency_key pf ex a = show_uuid pf i @ '':'' @ active_id a @ '':0'') \<and>
    unat (iteration ex') \<le> 1 \<and> max_iterations ex' = 25"
proof -
  from assms obtain g ex outs where t: "step (codec pf) st g ex outs now = Some (ex', evs)"
    and c: "iteration ex = 0" "max_iterations ex = 25" "budget ex = initial_budget" "exec_id ex = i"
    by (rule reachable_tick)
  from t obtain mid evs1 next1 hard where
    o: "step_outputs (codec pf) st g ex outs = Some (mid, evs1, next1, hard)"
    and s: "settle (codec pf) st g (outs = []) now (mid, evs1, next1, hard) = (ex', evs)"
    by (rule step_Some)
  note frame = evolves_simps [OF step_outputs_Some(1) [OF o]]
  have "unat (iteration ex') \<le> 1 \<and> max_iterations ex' = 25"
    using settle_iteration [OF s] frame c by auto
  moreover have "idempotency_key pf ex a = show_uuid pf i @ '':'' @ active_id a @ '':0''"
    using c by (simp add: idempotency_key_def show_nat_0)
  ultimately show ?thesis using t c(1,3) by blast
qed

section \<open>A loop that never ends\<close>

text \<open>One task whose only edge leads back to itself.\<close>

definition loop_graph :: graph where
  "loop_graph =
     \<lparr>g_id = ''loop'', g_version = 1, g_user_id = None, nodes = [Task ''a'' ''noop'' Null],
      edges = [\<lparr>edge_from = ''a'', edge_to = ''a'', edge_condition = CAlways\<rparr>], entry = ''a'',
      answer_pointer = None\<rparr>"

abbreviation loop_platform :: platform where
  "loop_platform \<equiv> ref_platform loop_graph"

definition loop_graph_row :: graph_row where
  "loop_graph_row = \<lparr>gr_id = 1, gr_graph_id = ''loop'', gr_version = 1, gr_user_id = None,
     gr_definition = ref_write_graph loop_graph, gr_created_at = 0\<rparr>"

definition loop_row :: execution_row where
  "loop_row = fresh_row (ref_codec loop_graph) (\<lambda>_. 0) 1 loop_graph_row None [plain ''a'']"

definition loop_checkpoint :: "nat \<Rightarrow> checkpoint_row" where
  "loop_checkpoint k =
     \<lparr>cpr_id = int k + 1, cpr_execution_id = 1, cpr_step = int k, cpr_schema_version = 1,
      cpr_state = empty_object,
      cpr_current_nodes = write_active_nodes (ref_codec loop_graph) [plain ''a''],
      cpr_created_at = 0\<rparr>"

definition noop :: task_executor where
  "noop kind config st key = Inr (Inr Null)"

text \<open>The database after \<open>k\<close> super-steps, up to its event log.\<close>

definition looping :: "nat \<Rightarrow> engine_db \<Rightarrow> bool" where
  "looping k db \<longleftrightarrow>
     executions db = [loop_row] \<and> graph_rows db = [loop_graph_row] \<and>
     checkpoints db = map loop_checkpoint [0..<Suc k] \<and> checkpoint_seq db = int k + 2"

lemma loop_graph_valid: "validate loop_graph = Inr ()"
  by (simp add: loop_graph_def validate_def validation_problems_def edge_problems_def)

lemma loop_entry: "entry loop_graph = ''a''"
  by (simp add: loop_graph_def)

lemma loop_row_simps [simp]:
  "row_id loop_row = 1" "row_status loop_row = DbReady" "row_updated_at loop_row = 0"
  "row_graph_id loop_row = ''loop''" "row_graph_version loop_row = 1"
  "row_user_id loop_row = None" "row_wait_kind loop_row = None" "row_iteration loop_row = 0"
  "row_max_iterations loop_row = 25" "row_deadline loop_row = None"
  "row_budget loop_row = ref_write_budget initial_budget" "lease_owner loop_row = None"
  by (simp_all add: loop_row_def fresh_row_def loop_graph_row_def DEFAULT_MAX_ITERATIONS_def
      initial_budget_def)

text \<open>The database once the graph is registered, and once its execution is started.\<close>

definition loop_registered :: engine_db where
  "loop_registered = empty_db\<lparr>graph_rows := [loop_graph_row], graph_seq := 2\<rparr>"

definition loop_db :: engine_db where
  "loop_db = started (ref_codec loop_graph) (\<lambda>_. 0) loop_registered 1 loop_graph_row None
     [plain ''a''] empty_object"

lemma loop_register:
  "register_graph (ref_codec loop_graph) 0 empty_db ''loop'' ''graph'' = Inr (loop_registered, ''loop'', 1)"
proof -
  have "loop_graph\<lparr>g_version := version_number 1\<rparr> = loop_graph"
    by (simp add: loop_graph_def version_number_def)
  then show ?thesis
    by (simp add: register_graph_def validated_graph_def ref_graph_inverse loop_graph_valid
        newest_graph_row_def insert_next_version_def insert_graph_row_def empty_db_def
        loop_graph_row_def loop_registered_def)
qed

lemma loop_start:
  "start_continuing (ref_codec loop_graph) (\<lambda>_. 0) 1 loop_registered ''loop'' None ''{}'' None None =
     Inr (loop_db, 1)"
  by (simp add: start_continuing_def execution_input_def ref_parse_json_def load_graph_def
      loop_graph_row_def ref_graph_inverse insert_execution_def execution_exists_def
      insert_checkpoint_def step_taken_def started_def notify_def empty_db_def fresh_row_def
      loop_entry Let_def loop_registered_def loop_db_def)

lemma loop_db_trace: "trace loop_platform [Maintained, Started 1] loop_db"
proof -
  have "db_step loop_platform Maintained empty_db loop_registered"
    using registers [of loop_platform 0 empty_db "''loop''" "''graph''"] loop_register by simp
  moreover have "db_step loop_platform (Started 1) loop_registered loop_db"
    using starts [of loop_platform "\<lambda>_. 0" 1 loop_registered "''loop''" None "''{}''" None None]
      loop_start by simp
  ultimately have "trace loop_platform (([] @ [Maintained]) @ [Started 1]) loop_db"
    by (intro run_snoc [OF run_snoc [OF run_Nil]])
  then show ?thesis by simp
qed

lemma loop_db_looping: "looping 0 loop_db"
  by (simp add: looping_def started_def empty_db_def loop_row_def loop_checkpoint_def
      checkpoint_to_active_model_def CHECKPOINT_SCHEMA_VERSION_def I16_MAX_def I32_MAX_def
      loop_registered_def loop_db_def)

lemma loop_latest:
  assumes "checkpoints db = map loop_checkpoint [0..<Suc k]" and "Suc k < 2 ^ 31"
  shows "latest (ref_codec loop_graph) db 1 =
    Inr (Some \<lparr>schema_version = 1, cp_execution_id = 1, cp_step = of_nat k,
           cp_state = empty_object, cp_current_nodes = [plain ''a'']\<rparr>)"
proof -
  have "latest_row db 1 = Some (loop_checkpoint k)"
    unfolding latest_row_def
    by (rule max_by_eqI) (auto simp: assms(1) loop_checkpoint_def)
  then show ?thesis
    using assms(2)
    by (simp add: latest_def checkpoint_from_model_def loop_checkpoint_def
        CHECKPOINT_SCHEMA_VERSION_def I16_MAX_def ref_laws.active_nodes_inverse)
qed

lemma loop_claim:
  assumes "looping k db"
  shows "claim_one_ready loop_platform (\<lambda>_. False) 0 db ''w'' LEASE_DURATION =
    (db\<lparr>executions := [take_lease ''w'' (lease_end loop_platform 0 LEASE_DURATION) 0 loop_row]\<rparr>, Some 1)"
  using assms by (simp add: looping_def claim_one_ready_def claimable_def update_where_def)

text \<open>The super-step of the only task: nothing changes but the counter and the budget.\<close>

definition loop_result :: "execution \<Rightarrow> execution" where
  "loop_result ex =
     (charge_budget ex Null)\<lparr>iteration := iteration ex + 1, current_nodes := [plain ''a''], status := Ready\<rparr>"

lemma loop_step:
  assumes "iteration ex = 0" and "max_iterations ex = 25" and "budget ex = initial_budget"
    and "deadline ex = None"
  shows "\<exists>evs. step (ref_codec loop_graph) st loop_graph ex [\<lparr>out_node = plain ''a'', out_result = Inr Null\<rparr>] now =
    Some (loop_result ex, evs)"
  using assms
  by (simp add: step_unfold budget_unfold loop_graph_def graph_node_def edges_from_def
      fan_in_consuming_def loop_result_def initial_budget_def DEFAULT_TOKEN_BUDGET_def
      DEFAULT_TOOL_CALL_BUDGET_def DEFAULT_WALL_TIME_BUDGET_def nanos_per_second_def plain_def
      word_le_nat_alt usage_field_def)

lemma initial_budget_inverse: "ref_read_budget (ref_write_budget initial_budget) = Some initial_budget"
  by (simp add: ref_budget_inverse initial_budget_def budget_new_def DEFAULT_WALL_TIME_BUDGET_def
      duration_millis_deserialize_def duration_millis_serialize_def nanos_per_milli_def
      nanos_per_second_def clamp_to_word_def unat_of_nat)

lemma loop_prepare:
  assumes "graph_rows db = [loop_graph_row]" and "checkpoints db = map loop_checkpoint [0..<Suc k]"
    and "Suc k < 2 ^ 31" and "executions db = [take_lease w u t loop_row]"
  shows "\<exists>ex evs. prepare loop_platform noop (\<lambda>outs. outs) st now db 1 =
      Some (Inr (of_nat (Suc k), ex, evs)) \<and>
    status ex = Ready \<and> current_nodes ex = [plain ''a''] \<and> state ex = empty_object"
proof -
  define ex where "ex = \<lparr>exec_id = 1, graph_id = ''loop'', graph_version = 1, user_id = None,
    status = Running, current_nodes = [plain ''a''], state = empty_object, iteration = 0,
    max_iterations = 25, deadline = None, budget = initial_budget\<rparr>"
  have load: "load_execution_and_graph loop_platform db 1 = Inr (take_lease w u t loop_row, loop_graph)"
    using assms
    by (simp add: load_execution_and_graph_def find_execution_def registered_graph_def
        loop_graph_row_def ref_graph_inverse)
  have node: "graph_node loop_graph ''a'' = Some (Task ''a'' ''noop'' Null)"
    by (simp add: graph_node_def loop_graph_def)
  have state: "load_current_state loop_platform db 1 (take_lease w u t loop_row) loop_graph =
      Inr (ex, of_nat (Suc k))"
    using loop_latest [OF assms(2,3)]
    by (simp add: load_current_state_def current_position_def columns_to_status_def
        counter_column_def initial_budget_inverse step_after_def ex_def plain_def node)
  have run: "run_active_nodes loop_platform noop (\<lambda>outs. outs) loop_graph ex (current_nodes ex) =
      Inr [\<lparr>out_node = plain ''a'', out_result = Inr Null\<rparr>]"
    by (simp add: run_active_nodes_def ex_def run_node_def plain_def node noop_def)
  obtain evs where "step (ref_codec loop_graph) st loop_graph ex
      [\<lparr>out_node = plain ''a'', out_result = Inr Null\<rparr>] now = Some (loop_result ex, evs)"
    using loop_step [of ex st now] by (auto simp: ex_def)
  with load state run show ?thesis
    by (simp add: prepare_def loop_result_def charge_budget_def ex_def)
qed

lemma unat_of_nat_u32: "m < 2 ^ 32 \<Longrightarrow> unat (of_nat m :: u32) = m"
  by (simp add: unat_of_nat)

lemma loop_once:
  assumes "looping k db" and "Suc k < 2 ^ 31"
  shows "\<exists>db1 db2. db_step loop_platform (Claimed 1 ''w'') db db1 \<and>
    db_step loop_platform (Committed 1 (Some ''w'') (of_nat (Suc k))) db1 db2 \<and> looping (Suc k) db2"
proof -
  define claimed where "claimed = db\<lparr>executions :=
    [take_lease ''w'' (lease_end loop_platform 0 LEASE_DURATION) 0 loop_row]\<rparr>"
  have claim: "db_step loop_platform (Claimed 1 ''w'') db claimed"
    unfolding claimed_def by (rule claims [OF loop_claim [OF assms(1)]])
  have rows: "graph_rows claimed = [loop_graph_row]" "checkpoints claimed = map loop_checkpoint [0..<Suc k]"
    "executions claimed = [take_lease ''w'' (lease_end loop_platform 0 LEASE_DURATION) 0 loop_row]"
    using assms(1) unfolding claimed_def looping_def by simp_all
  obtain ex evs where p: "prepare loop_platform noop (\<lambda>outs. outs) sample_stamps 0 claimed 1 =
      Some (Inr (of_nat (Suc k), ex, evs))"
    and ex: "status ex = Ready" "current_nodes ex = [plain ''a'']" "state ex = empty_object"
    using loop_prepare [OF rows(1,2) assms(2) rows(3)] by blast
  let ?n = "of_nat (Suc k) :: u32"
  have "unat ?n = Suc k" by (rule unat_of_nat_u32 [OF less_trans [OF assms(2)]]) simp
  then have n: "uint ?n = int (Suc k)" by (metis uint_nat)
  then have step: "min (uint ?n) I32_MAX = int (Suc k)" using assms(2) by (simp add: I32_MAX_def)
  have "\<not> step_taken claimed 1 (int (Suc k))"
    using assms(1) by (auto simp: step_taken_def claimed_def looping_def list_ex_iff loop_checkpoint_def)
  moreover have "rows_affected (held_by 1 (Some ''w'')) (executions claimed) \<noteq> 0"
    by (simp add: claimed_def held_by_def)
  ultimately have commit: "commit_step (codec loop_platform) (\<lambda>_. 0) claimed 1 (Some ''w'') ?n ex evs =
      Inr (committed (ref_codec loop_graph) (\<lambda>_. 0) claimed 1 (Some ''w'') ?n ex evs)"
    by (simp add: commit_step_eq step del: of_nat_Suc)
  have "looping (Suc k) (committed (ref_codec loop_graph) (\<lambda>_. 0) claimed 1 (Some ''w'') ?n ex evs)"
    using assms(1) step ex
    by (simp add: looping_def committed_def claimed_def update_where_def held_by_def released_def
        take_lease_def loop_row_def fresh_row_def step_checkpoint_def loop_checkpoint_def
        checkpoint_to_active_model_def CHECKPOINT_SCHEMA_VERSION_def I16_MAX_def del: of_nat_Suc)
  with claim ticks [OF p commit] show ?thesis by blast
qed

fun is_commit :: "action \<Rightarrow> bool" where
  "is_commit (Committed _ _ _) = True"
| "is_commit _ = False"

lemma loop_trace:
  assumes "k < 2 ^ 31"
  shows "\<exists>as db. trace loop_platform as db \<and> looping k db \<and> length (filter is_commit as) = k"
  using assms
proof (induction k)
  case 0
  with loop_db_trace loop_db_looping show ?case by fastforce
next
  case (Suc k)
  then obtain as db where r: "trace loop_platform as db" "looping k db"
    "length (filter is_commit as) = k" by auto
  from loop_once [OF r(2) Suc.prems] obtain db1 db2 where
    "db_step loop_platform (Claimed 1 ''w'') db db1"
    "db_step loop_platform (Committed 1 (Some ''w'') (of_nat (Suc k))) db1 db2" "looping (Suc k) db2"
    by blast
  moreover from this r(1) have "trace loop_platform
      ((as @ [Claimed 1 ''w'']) @ [Committed 1 (Some ''w'') (of_nat (Suc k))]) db2"
    by (intro run_snoc [OF run_snoc])
  ultimately show ?case using r(3)
    by (intro exI [of _ "(as @ [Claimed 1 ''w'']) @ [Committed 1 (Some ''w'') (of_nat (Suc k))]"]
        exI [of _ db2]) simp
qed

text \<open>C15: although every execution is started with \<open>max_iterations\<close> 25, a registered graph with a
  loop runs for any number of committed super-steps below \<^verbatim>\<open>2^31\<close> and is still ready.\<close>

theorem loop_outlives_max_iterations:
  assumes "k < 2 ^ 31"
  shows "\<exists>as db row. trace loop_platform as db \<and> length (filter is_commit as) = k \<and>
    find_execution db 1 = Some row \<and> row_max_iterations row = 25 \<and> row_status row = DbReady"
proof -
  from loop_trace [OF assms] obtain as db where r: "trace loop_platform as db" "looping k db"
    "length (filter is_commit as) = k" by blast
  from r(2) have "find_execution db 1 = Some loop_row"
    by (simp add: looping_def find_execution_def)
  with r show ?thesis by fastforce
qed

section \<open>One owner name for all workers\<close>

text \<open>
  \<^verbatim>\<open>main.rs\<close> draws one owner name for the process and hands the same \<^verbatim>\<open>Tick\<close> to every concurrent
  worker, and the sole-engine lock keeps other processes out, so every claim is made under the
  same name.
\<close>

lemma loop_reclaim:
  "claim_one_ready loop_platform (\<lambda>_. False) (301 * 10 ^ 9)
     (loop_db\<lparr>executions := [take_lease ''w'' (lease_end loop_platform 0 LEASE_DURATION) 0 loop_row]\<rparr>)
     ''w'' LEASE_DURATION =
   (loop_db\<lparr>executions := [take_lease ''w'' (lease_end loop_platform (301 * 10 ^ 9) LEASE_DURATION)
      (301 * 10 ^ 9) (take_lease ''w'' (lease_end loop_platform 0 LEASE_DURATION) 0 loop_row)]\<rparr>, Some 1)"
  by (simp add: claim_one_ready_def claimable_def update_where_def lease_end_def ref_from_std_def
      LEASE_DURATION_def nanos_per_second_def)

text \<open>When a lease runs out and another worker of the same engine takes the execution over, the
  first worker's commit is still accepted and releases the second worker's lease; the second
  worker's commit of the same step then fails on the unique key of the checkpoints.\<close>

lemma stale_worker_of_same_engine_commits:
  "\<exists>db1 db2 db3 n ex evs.
     claim_one_ready loop_platform (\<lambda>_. False) 0 loop_db ''w'' LEASE_DURATION = (db1, Some 1) \<and>
     prepare loop_platform noop (\<lambda>outs. outs) sample_stamps 0 db1 1 = Some (Inr (n, ex, evs)) \<and>
     claim_one_ready loop_platform (\<lambda>_. False) (301 * 10 ^ 9) db1 ''w'' LEASE_DURATION = (db2, Some 1) \<and>
     commit_step (codec loop_platform) (\<lambda>_. 0) db2 1 (Some ''w'') n ex evs = Inr db3 \<and>
     lock_holder db3 1 = None \<and>
     (\<forall>clock ex' evs'. commit_step (codec loop_platform) clock db3 1 (Some ''w'') n ex' evs' =
        Inl UNIQUE_VIOLATION)"
proof -
  define db1 where "db1 = loop_db\<lparr>executions :=
    [take_lease ''w'' (lease_end loop_platform 0 LEASE_DURATION) 0 loop_row]\<rparr>"
  define row2 where "row2 = take_lease ''w'' (lease_end loop_platform (301 * 10 ^ 9) LEASE_DURATION)
    (301 * 10 ^ 9) (take_lease ''w'' (lease_end loop_platform 0 LEASE_DURATION) 0 loop_row)"
  define db2 where "db2 = loop_db\<lparr>executions := [row2]\<rparr>"
  have c1: "claim_one_ready loop_platform (\<lambda>_. False) 0 loop_db ''w'' LEASE_DURATION = (db1, Some 1)"
    unfolding db1_def by (rule loop_claim [OF loop_db_looping])
  have c2: "claim_one_ready loop_platform (\<lambda>_. False) (301 * 10 ^ 9) db1 ''w'' LEASE_DURATION = (db2, Some 1)"
    unfolding db1_def db2_def row2_def by (rule loop_reclaim)
  have cps: "checkpoints loop_db = [loop_checkpoint 0]"
    using loop_db_looping by (simp add: looping_def)
  obtain ex evs where p: "prepare loop_platform noop (\<lambda>outs. outs) sample_stamps 0 db1 1 =
      Some (Inr (1, ex, evs))"
    using loop_prepare [of db1 0 "''w''" "lease_end loop_platform 0 LEASE_DURATION" 0 sample_stamps 0]
      loop_db_looping by (auto simp: db1_def looping_def)
  have row2: "row_id row2 = 1" "lease_owner row2 = Some ''w''" by (simp_all add: row2_def)
  have free: "\<not> step_taken db2 1 1" by (simp add: step_taken_def db2_def cps loop_checkpoint_def)
  let ?db3 = "committed (ref_codec loop_graph) (\<lambda>_. 0) db2 1 (Some ''w'') 1 ex evs"
  have c3: "commit_step (codec loop_platform) (\<lambda>_. 0) db2 1 (Some ''w'') 1 ex evs = Inr ?db3"
    using free row2 by (simp add: commit_step_eq I32_MAX_def held_by_def db2_def)
  have "lock_holder ?db3 1 = None"
    by (simp add: lock_holder_def find_execution_def committed_def db2_def update_where_def
        held_by_def row2)
  moreover have "step_taken ?db3 1 1"
    by (simp add: step_taken_def committed_def checkpoint_to_active_model_def step_checkpoint_def
        I32_MAX_def)
  then have "commit_step (codec loop_platform) clock ?db3 1 (Some ''w'') 1 ex' evs' = Inl UNIQUE_VIOLATION"
    for clock ex' evs' by (simp add: commit_step_eq I32_MAX_def)
  ultimately show ?thesis using c1 p c2 c3 by blast
qed

end
