(* ===== verification/Scheduler.thy ===== *)
theory Scheduler
  imports Registry
begin

text \<open>
  \<^verbatim>\<open>services/engine/src/scheduler.rs\<close>, \<^verbatim>\<open>schedule_service.rs\<close> and \<^verbatim>\<open>cron_next.rs\<close>: standing
  instructions and the poll that fires them. The cron iterator is the platform's \<open>next_fire\<close>.
  Shown: a poll fires the due schedule that is longest overdue, moves it strictly into the
  future or disables it, and never fires the same due time twice.
\<close>

section \<open>cron_next.rs\<close>

definition next_fire_after :: "platform \<Rightarrow> string \<Rightarrow> instant \<Rightarrow> string + instant" where
  "next_fire_after pf cron_expr after =
     and_then (map_err (\<lambda>e. ''invalid cron expression `'' @ cron_expr @ ''`: '' @ e) (next_fire pf cron_expr after)) (\<lambda>t.
       ok_or (''cron expression `'' @ cron_expr @ ''` never fires again after '' @ rfc3339 pf after) t)"

section \<open>schedule_service.rs\<close>

definition insert_schedule :: "engine_db \<Rightarrow> schedule_row \<Rightarrow> engine_db \<times> int" where
  "insert_schedule db r =
     (db\<lparr>schedule_rows := schedule_rows db @ [r\<lparr>sc_id := schedule_seq db\<rparr>],
         schedule_seq := schedule_seq db + 1\<rparr>, schedule_seq db)"

definition create_schedule ::
  "platform \<Rightarrow> clock \<Rightarrow> engine_db \<Rightarrow> string \<Rightarrow> int option \<Rightarrow> string \<Rightarrow> string \<Rightarrow> uuid option \<Rightarrow>
     engine_error + engine_db \<times> int" where
  "create_schedule pf clock db gid version cron_expr input_json user =
     and_then (map_err InvalidRequest (next_fire_after pf cron_expr (clock 0))) (\<lambda>next.
     and_then (map_err InvalidRequest (parse_json (codec pf) input_json)) (\<lambda>input.
     if \<not> is_object input
     then Inl (InvalidRequest (''input_json must decode to a JSON object, got: '' @ input_json))
     else Inr (insert_schedule db
       \<lparr>sc_id = 0, sc_graph_id = gid, sc_graph_version = version, sc_cron_expr = cron_expr,
        sc_input_json = input, sc_user_id = user, enabled = True, next_run_at = next,
        last_execution_id = None, sc_created_at = clock 1, sc_updated_at = clock 2\<rparr>)))"

definition list_schedules :: "engine_db \<Rightarrow> uuid option \<Rightarrow> schedule_row list" where
  "list_schedules db user =
     sort_key next_run_at (filter (\<lambda>r. sc_user_id r = user) (schedule_rows db))"

section \<open>scheduler.rs\<close>

record due_schedule =
  due_id :: int
  due_graph_id :: string
  due_graph_version :: "int option"
  due_input_json :: json
  due_user_id :: "uuid option"

definition due_of :: "schedule_row \<Rightarrow> due_schedule" where
  "due_of r = \<lparr>due_id = sc_id r, due_graph_id = sc_graph_id r, due_graph_version = sc_graph_version r,
     due_input_json = sc_input_json r, due_user_id = sc_user_id r\<rparr>"

definition is_due :: "instant \<Rightarrow> schedule_row \<Rightarrow> bool" where
  "is_due now r \<longleftrightarrow> enabled r \<and> next_run_at r \<le> now"

text \<open>The row moves on to its next fire time, or is disabled when there is none.\<close>

definition advance :: "platform \<Rightarrow> instant \<Rightarrow> instant \<Rightarrow> schedule_row \<Rightarrow> schedule_row" where
  "advance pf after now r =
     (case next_fire_after pf (sc_cron_expr r) after of
        Inr next \<Rightarrow> r\<lparr>sc_updated_at := now, next_run_at := next\<rparr>
      | Inl _ \<Rightarrow> r\<lparr>sc_updated_at := now, enabled := False\<rparr>)"

definition claim_one_due ::
  "platform \<Rightarrow> (int \<Rightarrow> bool) \<Rightarrow> clock \<Rightarrow> engine_db \<Rightarrow> engine_db \<times> due_schedule option" where
  "claim_one_due pf locked clock db =
     (case min_by next_run_at
             (filter (\<lambda>r. is_due (clock 0) r \<and> \<not> locked (sc_id r)) (schedule_rows db)) of
        None \<Rightarrow> (db, None)
      | Some row \<Rightarrow>
          (db\<lparr>schedule_rows := update_where (\<lambda>r. sc_id r = sc_id row)
                (\<lambda>r. advance pf (clock 1) (clock 2) r) (schedule_rows db)\<rparr>,
           case next_fire_after pf (sc_cron_expr row) (clock 1) of
             Inr _ \<Rightarrow> Some (due_of row)
           | Inl _ \<Rightarrow> None))"

definition start_due ::
  "serde \<Rightarrow> clock \<Rightarrow> uuid \<Rightarrow> engine_db \<Rightarrow> due_schedule \<Rightarrow> (engine_db \<times> uuid) option" where
  "start_due sj clock fresh db due =
     (case start_execution sj clock fresh db (due_graph_id due) (due_graph_version due)
             (render_json sj (due_input_json due)) (due_user_id due) of
        Inr r \<Rightarrow> Some r
      | Inl _ \<Rightarrow> None)"

definition record_last_execution :: "instant \<Rightarrow> engine_db \<Rightarrow> int \<Rightarrow> uuid \<Rightarrow> engine_db" where
  "record_last_execution now db sid i =
     db\<lparr>schedule_rows := update_where (\<lambda>r. sc_id r = sid)
          (\<lambda>r. r\<lparr>last_execution_id := Some i, sc_updated_at := now\<rparr>) (schedule_rows db)\<rparr>"

definition fire :: "serde \<Rightarrow> clock \<Rightarrow> uuid \<Rightarrow> engine_db \<Rightarrow> due_schedule \<Rightarrow> engine_db \<times> uuid option" where
  "fire sj clock fresh db due =
     (case start_due sj clock fresh db due of
        None \<Rightarrow> (db, None)
      | Some (db', i) \<Rightarrow> (record_last_execution (clock 3) db' (due_id due) i, Some i))"

definition run_once ::
  "platform \<Rightarrow> (int \<Rightarrow> bool) \<Rightarrow> clock \<Rightarrow> uuid \<Rightarrow> engine_db \<Rightarrow> engine_db \<times> uuid option" where
  "run_once pf locked clock fresh db =
     (case claim_one_due pf locked clock db of
        (db', None) \<Rightarrow> (db', None)
      | (db', Some due) \<Rightarrow> fire (codec pf) (\<lambda>k. clock (k + 3)) fresh db' due)"

section \<open>What a poll does\<close>

lemma advance_not_due:
  assumes "platform_laws pf" and "now \<le> after"
  shows "\<not> is_due now (advance pf after t r)"
proof (cases "next_fire_after pf (sc_cron_expr r) after")
  case (Inr later)
  then have "next_fire pf (sc_cron_expr r) after = Inr (Some later)"
    by (auto simp: next_fire_after_def result_simps)
  with platform_laws.next_fire_later [OF assms(1)] have "after < later" by blast
  with Inr assms(2) show ?thesis by (simp add: advance_def is_due_def)
qed (simp add: advance_def is_due_def)

lemma advance_id [simp]: "sc_id (advance pf after t r) = sc_id r"
  by (simp add: advance_def split: sum.splits)

lemma start_due_schedules:
  "start_due sj clock fresh db due = Some (db', i) \<Longrightarrow> schedule_rows db' = schedule_rows db"
  by (auto simp: start_due_def start_execution_def started_def
      split: sum.splits elim!: start_continuing_Inr)

lemma fire_schedules:
  assumes "fire sj clock fresh db due = (db', r)"
  shows "\<exists>p f. schedule_rows db' = update_where p f (schedule_rows db) \<and>
    (\<forall>x now. sc_id (f x) = sc_id x \<and> is_due now (f x) = is_due now x)"
proof (cases "start_due sj clock fresh db due")
  case None
  with assms have "schedule_rows db' = update_where (\<lambda>_. False) (\<lambda>x. x) (schedule_rows db)"
    by (simp add: fire_def update_where_def)
  then show ?thesis by (intro exI [of _ "\<lambda>_. False"] exI [of _ "\<lambda>x. x"]) simp
next
  case (Some q)
  obtain db1 i where q: "q = (db1, i)" by (cases q)
  with assms Some start_due_schedules [of sj clock fresh db due db1 i] have
    "schedule_rows db' = update_where (\<lambda>r. sc_id r = due_id due)
       (\<lambda>r. r\<lparr>last_execution_id := Some i, sc_updated_at := clock 3\<rparr>) (schedule_rows db)"
    by (auto simp: fire_def record_last_execution_def)
  then show ?thesis
    by (intro exI [of _ "\<lambda>r. sc_id r = due_id due"]
        exI [of _ "\<lambda>r. r\<lparr>last_execution_id := Some i, sc_updated_at := clock 3\<rparr>"])
      (simp add: is_due_def)
qed

text \<open>A poll that finds a due, unlocked schedule takes one that is longest overdue, and after
  the poll, whether or not the run could be started, that schedule is not due any more at the
  time of the poll: no due time fires twice. Every other schedule is as due as before.\<close>

lemma poll_consumes_due_time:
  assumes "platform_laws pf" and "clock 0 \<le> clock 1"
    and "row \<in> set (schedule_rows db)" and "is_due (clock 0) row" and "\<not> locked (sc_id row)"
    and "run_once pf locked clock fresh db = (db', r)"
  shows "\<exists>fired \<in> set (schedule_rows db). is_due (clock 0) fired \<and> \<not> locked (sc_id fired) \<and>
    next_run_at fired \<le> next_run_at row \<and>
    (\<forall>x \<in> set (schedule_rows db'). sc_id x = sc_id fired \<longrightarrow> \<not> is_due (clock 0) x) \<and>
    (\<forall>y \<in> set (schedule_rows db). sc_id y \<noteq> sc_id fired \<longrightarrow>
      (\<exists>x \<in> set (schedule_rows db'). sc_id x = sc_id y \<and> is_due (clock 0) x = is_due (clock 0) y))"
proof -
  let ?due = "filter (\<lambda>r. is_due (clock 0) r \<and> \<not> locked (sc_id r)) (schedule_rows db)"
  from assms(3-5) have "?due \<noteq> []" by (auto simp: filter_empty_conv)
  then obtain fired where f: "min_by next_run_at ?due = Some fired"
    by (cases "min_by next_run_at ?due") auto
  let ?rows = "update_where (\<lambda>r. sc_id r = sc_id fired) (advance pf (clock 1) (clock 2)) (schedule_rows db)"
  obtain db1 d where c: "claim_one_due pf locked clock db = (db1, d)" by fastforce
  with f have db1: "schedule_rows db1 = ?rows" by (auto simp: claim_one_due_def)
  have "\<exists>p h. schedule_rows db' = update_where p h ?rows \<and>
      (\<forall>x now. sc_id (h x) = sc_id x \<and> is_due now (h x) = is_due now x)"
  proof (cases d)
    case None
    with assms(6) c have "db' = db1" by (simp add: run_once_def)
    then have "schedule_rows db' = update_where (\<lambda>_. False) (\<lambda>x. x) ?rows"
      by (simp add: db1 update_where_def)
    then show ?thesis by (intro exI [of _ "\<lambda>_. False"] exI [of _ "\<lambda>x. x"]) simp
  next
    case (Some due)
    with assms(6) c have "fire (codec pf) (\<lambda>k. clock (k + 3)) fresh db1 due = (db', r)"
      by (simp add: run_once_def)
    from fire_schedules [OF this] show ?thesis by (simp add: db1)
  qed
  then obtain p h where h: "schedule_rows db' = update_where p h ?rows"
    "\<And>x. sc_id (h x) = sc_id x" "\<And>x now. is_due now (h x) = is_due now x" by blast
  note m = min_by_Some [OF f]
  have advanced: "\<not> is_due (clock 0) x" if "x \<in> set ?rows" "sc_id x = sc_id fired" for x
  proof -
    from that(1) obtain r0 where x: "x = (if sc_id r0 = sc_id fired then advance pf (clock 1) (clock 2) r0 else r0)"
      unfolding set_update_where by blast
    with that(2) have "sc_id r0 = sc_id fired" by (auto split: if_splits)
    with x advance_not_due [OF assms(1,2)] show ?thesis by simp
  qed
  have "\<not> is_due (clock 0) x" if x: "x \<in> set (schedule_rows db')" "sc_id x = sc_id fired" for x
  proof -
    from x(1) obtain y where "y \<in> set ?rows" "x = (if p y then h y else y)"
      by (auto simp: h(1) set_update_where [of _ p])
    with advanced [of y] x(2) h(2,3) show ?thesis by (auto split: if_splits)
  qed
  moreover have "\<exists>x \<in> set (schedule_rows db'). sc_id x = sc_id y \<and> is_due (clock 0) x = is_due (clock 0) y"
    if "y \<in> set (schedule_rows db)" "sc_id y \<noteq> sc_id fired" for y
  proof -
    from that have "y \<in> set ?rows" by (auto simp: set_update_where)
    then have "(if p y then h y else y) \<in> set (schedule_rows db')"
      unfolding h(1) set_update_where [of _ p] by blast
    then show ?thesis by (rule bexI [rotated]) (simp add: h)
  qed
  ultimately show ?thesis using m assms(3-5) by (intro bexI [of _ fired]) auto
qed

text \<open>A schedule accepted by \<^verbatim>\<open>create_schedule\<close> is enabled, due strictly later, listed to its
  owner and to nobody else, and carries an object as its input.\<close>

lemma created_schedule_is_listed:
  assumes "platform_laws pf"
    and "create_schedule pf clock db gid version cron input_json user = Inr (db', sid)"
  shows "\<exists>row. row \<in> set (list_schedules db' user) \<and> sc_id row = sid \<and> enabled row \<and>
    clock 0 < next_run_at row \<and> is_object (sc_input_json row) \<and>
    (\<forall>u. u \<noteq> user \<longrightarrow> list_schedules db' u = list_schedules db u)"
proof -
  from assms(2) obtain later input where n: "next_fire_after pf cron (clock 0) = Inr later"
    and i: "is_object input" and r: "(db', sid) = insert_schedule db
       \<lparr>sc_id = 0, sc_graph_id = gid, sc_graph_version = version, sc_cron_expr = cron,
        sc_input_json = input, sc_user_id = user, enabled = True, next_run_at = later,
        last_execution_id = None, sc_created_at = clock 1, sc_updated_at = clock 2\<rparr>"
    by (auto simp: create_schedule_def result_simps split: if_splits)
  from n have "next_fire pf cron (clock 0) = Inr (Some later)"
    by (auto simp: next_fire_after_def result_simps)
  then have "clock 0 < later" by (rule platform_laws.next_fire_later [OF assms(1)])
  moreover define row where "row = \<lparr>sc_id = sid, sc_graph_id = gid, sc_graph_version = version,
      sc_cron_expr = cron, sc_input_json = input, sc_user_id = user, enabled = True,
      next_run_at = later, last_execution_id = None, sc_created_at = clock 1, sc_updated_at = clock 2\<rparr>"
  moreover have "schedule_rows db' = schedule_rows db @ [row]"
    using r by (simp add: insert_schedule_def row_def)
  moreover from this have "row \<in> set (list_schedules db' user)"
    by (simp add: list_schedules_def row_def)
  moreover from calculation have "list_schedules db' u = list_schedules db u" if "u \<noteq> user" for u
    using that by (simp add: list_schedules_def)
  ultimately show ?thesis using i by (intro exI [of _ row]) simp
qed

end
