(* ===== verification/Tool_Executor.thy ===== *)
theory Tool_Executor
  imports Execution Reducers Codecs
begin

text \<open>
  \<^verbatim>\<open>services/engine/src/executors/tool.rs\<close> and \<^verbatim>\<open>dispatch.rs\<close>: running a tool node and routing a node
  kind to its executor. The tool service is an argument (\<open>service slug input key\<close>: a transport
  error or a response), as is the stamp the clock prints for a step. Shown: one record per call,
  in order; an execution gives up exactly at the third tool step in a row of which nothing
  reached its source; what one step stores is what the next one counts.
\<close>

section \<open>tool.rs\<close>

definition MAX_CONSECUTIVE_TOOL_ERRORS :: nat where "MAX_CONSECUTIVE_TOOL_ERRORS = 3"
definition MAX_PARALLEL_TOOL_CALLS :: nat where "MAX_PARALLEL_TOOL_CALLS = 8"
definition THE_REQUEST_AS_A_WHOLE :: string where "THE_REQUEST_AS_A_WHOLE = ''tool_call''"

text \<open>\<^verbatim>\<open>TaskError\<close> has one variant, whose text is the error.\<close>

type_synonym task_error = string

definition nothing_reached_its_source :: "tool_record list \<Rightarrow> bool" where
  "nothing_reached_its_source step \<longleftrightarrow> list_all (\<lambda>r. \<not> reached_its_source r) step"

definition consecutive_failed_steps :: "serde \<Rightarrow> json \<Rightarrow> nat" where
  "consecutive_failed_steps sj st =
     length (takeWhile nothing_reached_its_source
       (rev (chunk_by made_in_the_same_step_as
         (all_under (read_tool_record sj) st TOOL_RESULT_STATE_KEY))))"

definition failed :: "tool_call \<Rightarrow> string \<Rightarrow> string \<Rightarrow> tool_record" where
  "failed call message stamp =
     tool_record_of call (json_object [(TOOL_RESULT_ERROR_KEY, String message)]) stamp"

definition last_error :: "tool_record list \<Rightarrow> string" where
  "last_error step =
     (case step of
        [] \<Rightarrow> []
      | _ \<Rightarrow>
          (case Option.bind (get (rec_result (last step)) TOOL_RESULT_ERROR_KEY) as_str of
             None \<Rightarrow> [] | Some e \<Rightarrow> e))"

definition recoverable_unless_the_run_is_too_long ::
  "serde \<Rightarrow> json \<Rightarrow> tool_record list \<Rightarrow> task_error + json" where
  "recoverable_unless_the_run_is_too_long sj st step =
     (if nothing_reached_its_source step \<and>
         MAX_CONSECUTIVE_TOOL_ERRORS \<le> consecutive_failed_steps sj st + 1
      then Inl (show_nat MAX_CONSECUTIVE_TOOL_ERRORS @
        '' consecutive tool errors, giving up; last error: '' @ last_error step)
      else Inr (Array (map (write_tool_record sj) step)))"

datatype execute_status = ExecuteOk | RequiresApproval | ExecuteError | NotExecutable | Unspecified
  | Unknown int

record tool_response =
  response_status :: execute_status
  output_json :: string
  error_message :: string

type_synonym tool_service = "string \<Rightarrow> string \<Rightarrow> string \<Rightarrow> string + tool_response"

datatype call_outcome = Output json | CallError string

definition EM_DASH :: string where
  "EM_DASH = [CHR 0xE2, CHR 0x80, CHR 0x94]"

definition call_tool :: "serde \<Rightarrow> tool_service \<Rightarrow> tool_call \<Rightarrow> string \<Rightarrow> task_error + call_outcome" where
  "call_tool sj service call key =
     and_then (service (call_name call) (render_json sj (call_args call)) key) (\<lambda>response.
       case response_status response of
         ExecuteOk \<Rightarrow> and_then (parse_json sj (output_json response)) (\<lambda>v. Inr (Output v))
       | RequiresApproval \<Rightarrow> Inl (''tool requires approval '' @ EM_DASH @ '' not yet wired in Engine'')
       | _ \<Rightarrow> Inr (CallError (error_message response)))"

definition call_key :: "string \<Rightarrow> nat \<Rightarrow> string" where
  "call_key key index = key @ '':'' @ show_nat index"

text \<open>
  \<^verbatim>\<open>try_join_all\<close> runs the calls concurrently and ends with the first error to occur: of several
  errors, \<open>first\<close> picks the one that came first.
\<close>

definition run_all ::
  "serde \<Rightarrow> tool_service \<Rightarrow> (task_error list \<Rightarrow> task_error) \<Rightarrow> tool_call list \<Rightarrow> string \<Rightarrow>
     task_error + call_outcome list" where
  "run_all sj service first calls key =
     (let results = map (\<lambda>(index, call). call_tool sj service call (call_key key index))
            (zip [0..<length calls] calls)
      in case concat (map (case_sum (\<lambda>e. [e]) (\<lambda>_. [])) results) of
           [] \<Rightarrow> collect_results results
         | e # es \<Rightarrow> Inl (first (e # es)))"

definition parsed_call :: "serde \<Rightarrow> json \<Rightarrow> task_error + tool_call" where
  "parsed_call sj call =
     map_err (\<lambda>e. ''tool_call is not usable: '' @ e) (decode sj (read_tool_call sj) ''ToolCall'' call)"

text \<open>\<open>question\<close> stands for \<^verbatim>\<open>ExecutionInput::in_state(state).question\<close>, a derived decoder with a default.\<close>

definition requested_calls ::
  "serde \<Rightarrow> (json \<Rightarrow> string) \<Rightarrow> json \<Rightarrow> json \<Rightarrow> task_error + tool_call list" where
  "requested_calls sj question config st =
     (case Option.bind (get config ''tool_slug'') as_str of
        Some slug \<Rightarrow>
          Inr [\<lparr>call_name = slug, call_args = json_object [(''query'', String (question st))]\<rparr>]
      | None \<Rightarrow>
          (let requested = out_tool_call (llm_output_in_state (read_llm_output sj) st) in
           if is_null requested then Inl (''no tool call at '' @ llm_tool_call_pointer)
           else
             (let one_or_many = (case requested of Array calls \<Rightarrow> calls | single \<Rightarrow> [single]) in
              if one_or_many = [] then Inl ''tool_call is an empty list''
              else collect_results (map (parsed_call sj) one_or_many))))"

definition refused_whole :: "serde \<Rightarrow> tool_call list \<Rightarrow> string \<Rightarrow> tool_record" where
  "refused_whole sj calls stamp =
     failed \<lparr>call_name = THE_REQUEST_AS_A_WHOLE, call_args = write_tool_calls sj calls\<rparr>
       (''one turn may call at most '' @ show_nat MAX_PARALLEL_TOOL_CALLS @ '' tools at once, got '' @
         show_nat (length calls)) stamp"

definition record_of :: "string \<Rightarrow> tool_call \<Rightarrow> call_outcome \<Rightarrow> tool_record" where
  "record_of stamp call outcome =
     (case outcome of
        Output output \<Rightarrow> tool_record_of call output stamp
      | CallError message \<Rightarrow> failed call message stamp)"

definition records_of :: "tool_call list \<Rightarrow> call_outcome list \<Rightarrow> string \<Rightarrow> tool_record list" where
  "records_of calls outcomes stamp = map (\<lambda>(call, outcome). record_of stamp call outcome) (zip calls outcomes)"

definition tool_execute ::
  "serde \<Rightarrow> (json \<Rightarrow> string) \<Rightarrow> tool_service \<Rightarrow> (task_error list \<Rightarrow> task_error) \<Rightarrow> string \<Rightarrow> json \<Rightarrow>
     json \<Rightarrow> string \<Rightarrow> task_error + json" where
  "tool_execute sj question service first stamp config st key =
     and_then (requested_calls sj question config st) (\<lambda>calls.
       if MAX_PARALLEL_TOOL_CALLS < length calls
       then recoverable_unless_the_run_is_too_long sj st [refused_whole sj calls stamp]
       else and_then (run_all sj service first calls key) (\<lambda>outcomes.
         recoverable_unless_the_run_is_too_long sj st (records_of calls outcomes stamp)))"

section \<open>dispatch.rs\<close>

datatype node_kind = KindLlm | KindTool

definition parse_kind :: "(string \<Rightarrow> string) \<Rightarrow> string \<Rightarrow> task_error + node_kind" where
  "parse_kind debug kind =
     (if kind = ''llm'' then Inr KindLlm
      else if kind = ''tool'' then Inr KindTool
      else Inl (''no TaskExecutor wired for kind '' @ debug kind))"

record catalog_entry =
  entry_name :: string
  entry_title :: string
  entry_description :: string
  input_schema_json :: string

record listed_tool =
  slug :: string
  tool_name :: string
  tool_description :: string
  tool_schema_json :: string

definition catalog_entry_of :: "listed_tool \<Rightarrow> catalog_entry" where
  "catalog_entry_of t = \<lparr>entry_name = slug t, entry_title = tool_name t,
     entry_description = tool_description t, input_schema_json = tool_schema_json t\<rparr>"

record cached_catalog =
  cached_tools :: "catalog_entry list"
  cached_at :: instant

definition CATALOG_TTL :: int where "CATALOG_TTL = 30 * 1000000000"

text \<open>
  The mutex holds the cache. \<open>now\<close> is the monotonic clock when the age is taken, \<open>later\<close> when
  the answer of the tool service is stored, \<open>listing\<close> what the service would answer.
\<close>

definition available_tools ::
  "instant \<Rightarrow> instant \<Rightarrow> string + listed_tool list \<Rightarrow> cached_catalog option \<Rightarrow>
     cached_catalog option \<times> (task_error + catalog_entry list)" where
  "available_tools now later listing cached =
     (let fetched =
            (case listing of
               Inl e \<Rightarrow> (cached, Inl e)
             | Inr tools \<Rightarrow>
                 (Some \<lparr>cached_tools = map catalog_entry_of tools, cached_at = later\<rparr>,
                  Inr (map catalog_entry_of tools)))
      in case cached of
           Some c \<Rightarrow>
             if now - cached_at c < CATALOG_TTL then (cached, Inr (cached_tools c)) else fetched
         | None \<Rightarrow> fetched)"

record llm_node_config =
  system_prompt :: "string option"
  tool_calling :: bool
  available :: "catalog_entry list"

text \<open>
  \<open>read_config\<close> and \<open>write_config\<close> are the derived codec of \<^verbatim>\<open>LlmNodeConfig\<close>, \<open>llm\<close> and \<open>tool\<close> the two
  executors.
\<close>

definition dispatch_execute ::
  "(string \<Rightarrow> string) \<Rightarrow> (json \<Rightarrow> string + llm_node_config) \<Rightarrow> (llm_node_config \<Rightarrow> json) \<Rightarrow>
     (json \<Rightarrow> json \<Rightarrow> string \<Rightarrow> task_error + json) \<Rightarrow> (json \<Rightarrow> json \<Rightarrow> string \<Rightarrow> task_error + json) \<Rightarrow>
     instant \<Rightarrow> instant \<Rightarrow> string + listed_tool list \<Rightarrow> cached_catalog option \<Rightarrow>
     string \<Rightarrow> json \<Rightarrow> json \<Rightarrow> string \<Rightarrow> cached_catalog option \<times> (task_error + json)" where
  "dispatch_execute debug read_config write_config llm tool now later listing cached kind config st key =
     (case parse_kind debug kind of
        Inl e \<Rightarrow> (cached, Inl e)
      | Inr KindTool \<Rightarrow> (cached, tool config st key)
      | Inr KindLlm \<Rightarrow>
          (case map_err (\<lambda>e. ''llm node config is not usable: '' @ e) (read_config config) of
             Inl e \<Rightarrow> (cached, Inl e)
           | Inr parsed \<Rightarrow>
               (if tool_calling parsed
                then (case available_tools now later listing cached of
                        (cached', Inl e) \<Rightarrow> (cached', Inl e)
                      | (cached', Inr tools) \<Rightarrow>
                          (cached', llm (write_config (parsed\<lparr>available := tools\<rparr>)) st key))
                else (cached, llm config st key))))"

section \<open>Counting failed steps\<close>

lemma chunk_by_append:
  assumes "xs \<noteq> []" and "ys \<noteq> []" and "\<not> p (last xs) (hd ys)"
  shows "chunk_by p (xs @ ys) = chunk_by p xs @ chunk_by p ys"
  using assms
proof (induction p xs rule: chunk_by.induct)
  case (2 p x)
  then show ?case by (cases ys) simp_all
next
  case (3 p x y zs)
  then show ?case by (cases "chunk_by p (y # zs)") (auto split: list.splits)
qed simp

lemma chunk_by_one_run:
  assumes "ys \<noteq> []" and "\<And>a b. a \<in> set ys \<Longrightarrow> b \<in> set ys \<Longrightarrow> p a b"
  shows "chunk_by p ys = [ys]"
  using assms by (induction p ys rule: chunk_by.induct) simp_all

text \<open>The records of one step: all under one stamp, which no earlier step has.\<close>

definition new_step :: "tool_record list \<Rightarrow> tool_record list \<Rightarrow> string \<Rightarrow> bool" where
  "new_step earlier step stamp \<longleftrightarrow>
     step \<noteq> [] \<and> stamp \<noteq> [] \<and> (\<forall>r \<in> set step. fetched_at r = stamp) \<and>
     (\<forall>r \<in> set earlier. fetched_at r \<noteq> stamp)"

lemma chunks_after_step:
  assumes "new_step earlier step stamp"
  shows "chunk_by made_in_the_same_step_as (earlier @ step) =
    chunk_by made_in_the_same_step_as earlier @ [step]"
proof -
  from assms have one: "chunk_by made_in_the_same_step_as step = [step]"
    by (intro chunk_by_one_run) (auto simp: new_step_def made_in_the_same_step_as_def)
  show ?thesis
  proof (cases "earlier = []")
    case False
    have "fetched_at (hd step) = stamp" using assms by (simp add: new_step_def)
    moreover have "fetched_at (last earlier) \<noteq> stamp" using assms False by (simp add: new_step_def)
    ultimately have "\<not> made_in_the_same_step_as (last earlier) (hd step)"
      by (simp add: made_in_the_same_step_as_def)
    with False assms one show ?thesis by (simp add: chunk_by_append new_step_def)
  qed (simp add: one)
qed

lemma get_append_each:
  assumes "apply_reducer st key AppendEach (Array vs) = Some st'" and "vs \<noteq> []"
  shows "get st' key = Some (Array (items_at st key @ vs))"
proof -
  from assms(2) obtain us v where vs: "vs = us @ [v]" by (metis rev_exhaust)
  from assms(1) obtain s where us: "fold_opt (\<lambda>item st. apply_append st key item) us st = Some s"
    and v: "apply_append s key v = Some st'"
    by (auto simp: append_items_def vs fold_opt_snoc panic_simps split: option.splits)
  from get_apply_append [OF v] items_at_fold_append [OF us] vs show ?thesis by simp
qed

text \<open>The log of tool results is a list or not there yet.\<close>

definition log_is_list :: "json \<Rightarrow> bool" where
  "log_is_list st \<longleftrightarrow>
     (case get st TOOL_RESULT_STATE_KEY of None \<Rightarrow> True | Some v \<Rightarrow> as_array v \<noteq> None)"

lemma all_under_after_step:
  assumes "serde_laws sj" and "log_is_list st" and "step \<noteq> []"
    and "apply_reducer st TOOL_RESULT_STATE_KEY AppendEach (Array (map (write_tool_record sj) step)) = Some st'"
  shows "all_under (read_tool_record sj) st' TOOL_RESULT_STATE_KEY =
    all_under (read_tool_record sj) st TOOL_RESULT_STATE_KEY @ step"
proof -
  have "get st' TOOL_RESULT_STATE_KEY =
      Some (Array (items_at st TOOL_RESULT_STATE_KEY @ map (write_tool_record sj) step))"
    using get_append_each [OF assms(4)] assms(3) by simp
  then show ?thesis
    using assms(2) serde_laws.tool_record_inverse [OF assms(1)]
    by (cases "get st TOOL_RESULT_STATE_KEY")
      (auto simp: all_under_def log_is_list_def items_at_def append_items_def comp_def
        split: json.splits)
qed

text \<open>The count of failed steps follows the log the engine keeps: a step of which nothing
  reached its source, folded into the state as the tool node's reducer does, adds one; any other
  step resets it to zero.\<close>

lemma failed_steps_are_counted:
  assumes "serde_laws sj" and "log_is_list st"
    and "new_step (all_under (read_tool_record sj) st TOOL_RESULT_STATE_KEY) step stamp"
    and "apply_reducer st TOOL_RESULT_STATE_KEY AppendEach (Array (map (write_tool_record sj) step)) = Some st'"
  shows "consecutive_failed_steps sj st' =
    (if nothing_reached_its_source step then Suc (consecutive_failed_steps sj st) else 0)"
proof -
  have "step \<noteq> []" using assms(3) by (simp add: new_step_def)
  note log = all_under_after_step [OF assms(1,2) this assms(4)]
  show ?thesis by (simp add: consecutive_failed_steps_def log chunks_after_step [OF assms(3)])
qed

section \<open>What a tool node answers\<close>

lemma length_records_of: "length outcomes = length calls \<Longrightarrow> length (records_of calls outcomes stamp) = length calls"
  by (simp add: records_of_def)

lemma run_all_Inr:
  assumes "run_all sj service first calls key = Inr outcomes"
  shows "length outcomes = length calls"
    and "k < length calls \<Longrightarrow> call_tool sj service (calls ! k) (call_key key k) = Inr (outcomes ! k)"
proof -
  let ?results = "map (\<lambda>(index, call). call_tool sj service call (call_key key index))
    (zip [0..<length calls] calls)"
  have r: "?results = map Inr outcomes"
    using assms by (auto simp: run_all_def Let_def collect_results_eq_Inr split: list.splits)
  then have "length ?results = length outcomes" by (metis length_map)
  then show "length outcomes = length calls" by simp
  show "call_tool sj service (calls ! k) (call_key key k) = Inr (outcomes ! k)" if "k < length calls"
    using arg_cong [OF r, of "\<lambda>l. l ! k"] that \<open>length outcomes = length calls\<close> by simp
qed

lemma requested_calls_nonempty: "requested_calls sj question config st = Inr calls \<Longrightarrow> calls \<noteq> []"
  by (auto simp: requested_calls_def Let_def collect_results_eq_Inr
      split: option.splits if_splits json.splits)

text \<open>A tool node answers with one record per requested call, in order, each made of the call
  and of what the tool service said to exactly that call; it gives up instead exactly when no
  call reached its source and the two steps before had none either.\<close>

lemma tool_node_answers_or_gives_up:
  assumes "requested_calls sj question config st = Inr calls"
    and "length calls \<le> MAX_PARALLEL_TOOL_CALLS"
    and "run_all sj service first calls key = Inr outcomes"
  shows "\<exists>step. length step = length calls \<and>
    (\<forall>k < length calls. call_tool sj service (calls ! k) (call_key key k) = Inr (outcomes ! k) \<and>
       step ! k = record_of stamp (calls ! k) (outcomes ! k)) \<and>
    tool_execute sj question service first stamp config st key =
      (if nothing_reached_its_source step \<and> 2 \<le> consecutive_failed_steps sj st
       then Inl (''3 consecutive tool errors, giving up; last error: '' @ last_error step)
       else Inr (Array (map (write_tool_record sj) step)))"
proof -
  note r = run_all_Inr [OF assms(3)]
  have three: "show_nat 3 = ''3''" by code_simp
  show ?thesis
    by (rule exI [of _ "records_of calls outcomes stamp"])
      (use r assms in \<open>simp add: records_of_def tool_execute_def
        recoverable_unless_the_run_is_too_long_def MAX_CONSECUTIVE_TOOL_ERRORS_def three not_less\<close>)
qed

text \<open>The catalogue of tools handed to the model is never older than thirty seconds, and within
  that time the tool service is not asked again; a failed listing leaves the cache as it was.\<close>

lemma catalog_is_fresh:
  assumes "available_tools now later listing cached = (cached', reply)"
  shows "case reply of
      Inr tools \<Rightarrow> \<exists>c. cached' = Some c \<and> cached_tools c = tools \<and>
        (cached' = cached \<and> now - cached_at c < CATALOG_TTL \<or>
         cached_at c = later \<and> (\<exists>listed. listing = Inr listed \<and> tools = map catalog_entry_of listed))
    | Inl e \<Rightarrow> listing = Inl e \<and> cached' = cached \<and>
        (\<forall>c. cached = Some c \<longrightarrow> CATALOG_TTL \<le> now - cached_at c)"
  using assms
  by (auto simp: available_tools_def Let_def split: option.splits if_splits sum.splits)

end
