(* ===== verification/Event_Stream.thy ===== *)
theory Event_Stream
  imports Protocol "HOL-Library.Char_ord" "HOL-Library.List_Lexorder"
begin

text \<open>
  \<^verbatim>\<open>services/engine/src/stream.rs\<close>: the projection of stored events onto the stream a client
  reads, and the poll that sends them. Each poll sees the database of its moment, so a run of
  the poller is a list of databases; whether the subscriber still takes an item is an argument.
  A query error, which ends the stream with one error item, is not modelled. Shown: a stream is
  a prefix of the scope's log, each event once and in order, that ends at the first terminal
  event of an execution, and nothing is held back once the log has been read to its end.
\<close>

section \<open>Kinds and scopes\<close>

datatype event_kind = KUnspecified | KExecutionStarted | KNodeStarted | KNodeCompleted | KNodeFailed
  | KTaskOutput | KWaiting | KResumed | KInterrupted | KExecutionCompleted | KExecutionFailed
  | KExecutionCancelled

definition TERMINAL_KINDS :: "event_kind list" where
  "TERMINAL_KINDS = [KExecutionCompleted, KExecutionFailed, KExecutionCancelled]"

definition POLL_BATCH :: nat where "POLL_BATCH = 100"
definition EMPTY_PAYLOAD :: string where "EMPTY_PAYLOAD = ''{}''"

datatype scope = ScopeExecution uuid | ScopeUser uuid

fun in_scope :: "scope \<Rightarrow> event_row \<Rightarrow> bool" where
  "in_scope (ScopeExecution i) r = (evr_execution_id r = i)"
| "in_scope (ScopeUser u) r = (evr_user_id r = Some u)"

fun closes_on :: "scope \<Rightarrow> event_kind \<Rightarrow> bool" where
  "closes_on (ScopeExecution _) k = (k \<in> set TERMINAL_KINDS)"
| "closes_on (ScopeUser _) k = False"

section \<open>The projection\<close>

definition as_text :: "serde \<Rightarrow> json \<Rightarrow> string" where
  "as_text sj v = (case as_str v of Some s \<Rightarrow> s | None \<Rightarrow> render_json sj v)"

fun projection ::
  "serde \<Rightarrow> execution_payload \<Rightarrow> event_kind \<times> string option \<times> string option" where
  "projection sj ExecutionStarted = (KExecutionStarted, None, None)"
| "projection sj (NodeStarted _) = (KNodeStarted, None, None)"
| "projection sj (NodeCompleted _ _) = (KNodeCompleted, None, None)"
| "projection sj (NodeFailed _ e) = (KNodeFailed, None, Some e)"
| "projection sj (TaskOutput _ _) = (KTaskOutput, None, None)"
| "projection sj (WaitingOn _) = (KWaiting, None, None)"
| "projection sj Resumed = (KResumed, None, None)"
| "projection sj Interrupted = (KInterrupted, None, None)"
| "projection sj (ExecutionCompleted _ res) = (KExecutionCompleted, map_option (as_text sj) res, None)"
| "projection sj (ExecutionFailed e) = (KExecutionFailed, None, Some e)"
| "projection sj ExecutionCancelled = (KExecutionCancelled, None, None)"

text \<open>The fields of an externally tagged variant: the only entry of the envelope, if it is an object.\<close>

definition stored_fields :: "json \<Rightarrow> json option" where
  "stored_fields v =
     (case v of
        Object m \<Rightarrow>
          (case sorted_list_of_fset (fmdom m) of
             [k] \<Rightarrow>
               (case fmlookup m k of
                  Some inner \<Rightarrow> if is_object inner then Some inner else None
                | None \<Rightarrow> None)
           | _ \<Rightarrow> None)
      | _ \<Rightarrow> None)"

record proto_event =
  pe_id :: string
  pe_execution_id :: string
  pe_user_id :: "string option"
  pe_version :: int
  pe_causation_id :: "string option"
  pe_occurred_at :: string
  payload_kind :: event_kind
  payload_json :: string
  pe_result :: "string option"
  pe_error :: "string option"

definition row_to_proto :: "platform \<Rightarrow> event_row \<Rightarrow> proto_event" where
  "row_to_proto pf r =
     (let sj = codec pf;
          (kind, res, err) = (case read_payload sj (evr_payload r) of
             None \<Rightarrow> (KUnspecified, None, None)
           | Some p \<Rightarrow> projection sj p)
      in \<lparr>pe_id = show_uuid pf (evr_event_id r), pe_execution_id = show_uuid pf (evr_execution_id r),
          pe_user_id = map_option (show_uuid pf) (evr_user_id r), pe_version = evr_version r,
          pe_causation_id = map_option (show_uuid pf) (evr_causation_id r),
          pe_occurred_at = rfc3339 pf (evr_occurred_at r), payload_kind = kind,
          payload_json = (case stored_fields (evr_payload r) of
             None \<Rightarrow> EMPTY_PAYLOAD | Some inner \<Rightarrow> render_json sj inner),
          pe_result = res, pe_error = err\<rparr>)"

section \<open>The poll\<close>

definition poll_rows :: "scope \<Rightarrow> engine_db \<Rightarrow> int \<Rightarrow> event_row list" where
  "poll_rows sc db last_id =
     take POLL_BATCH (sort_key evr_id
       (filter (in_scope sc) (filter (\<lambda>r. last_id < evr_id r) (event_rows db))))"

text \<open>
  The loop over one batch: what was sent, the cursor, and whether the stream goes on.
  \<open>takes n\<close> says whether the subscriber is still there for the item sent \<open>n\<close>-th in all.
\<close>

fun send_batch ::
  "platform \<Rightarrow> scope \<Rightarrow> (nat \<Rightarrow> bool) \<Rightarrow> event_row list \<Rightarrow> proto_event list \<times> int \<Rightarrow>
     (proto_event list \<times> int) \<times> bool" where
  "send_batch pf sc takes [] (sent, last_id) = ((sent, last_id), True)"
| "send_batch pf sc takes (r # rows) (sent, last_id) =
     (let e = row_to_proto pf r in
      if \<not> takes (length sent) then ((sent, evr_id r), False)
      else if closes_on sc (payload_kind e) then ((sent @ [e], evr_id r), False)
      else send_batch pf sc takes rows (sent @ [e], evr_id r))"

text \<open>
  \<^verbatim>\<open>poll_forever\<close> over the databases its polls see, one each; an empty batch waits for an
  announcement and polls again.
\<close>

fun poll_forever ::
  "platform \<Rightarrow> scope \<Rightarrow> (nat \<Rightarrow> bool) \<Rightarrow> engine_db list \<Rightarrow> proto_event list \<times> int \<Rightarrow>
     (proto_event list \<times> int) \<times> bool" where
  "poll_forever pf sc takes [] s = (s, True)"
| "poll_forever pf sc takes (db # dbs) s =
     (case send_batch pf sc takes (poll_rows sc db (snd s)) s of
        (s', True) \<Rightarrow> poll_forever pf sc takes dbs s'
      | (s', False) \<Rightarrow> (s', False))"

definition stream_events :: "platform \<Rightarrow> scope \<Rightarrow> (nat \<Rightarrow> bool) \<Rightarrow> engine_db list \<Rightarrow> proto_event list \<times> bool" where
  "stream_events pf sc takes dbs =
     (case poll_forever pf sc takes dbs ([], 0) of ((sent, _), goes_on) \<Rightarrow> (sent, goes_on))"

text \<open>The payloads with which an execution is over.\<close>

fun terminal_payload :: "execution_payload \<Rightarrow> bool" where
  "terminal_payload (ExecutionCompleted _ _) = True"
| "terminal_payload (ExecutionFailed _) = True"
| "terminal_payload ExecutionCancelled = True"
| "terminal_payload _ = False"

section \<open>A stream is a prefix of its log\<close>

text \<open>The events of a scope, and the part of them a stream may send.\<close>

definition scope_log :: "scope \<Rightarrow> engine_db \<Rightarrow> event_row list" where
  "scope_log sc db = filter (in_scope sc) (event_rows db)"

definition rows_closing :: "platform \<Rightarrow> scope \<Rightarrow> event_row \<Rightarrow> bool" where
  "rows_closing pf sc r \<longleftrightarrow> closes_on sc (payload_kind (row_to_proto pf r))"

definition sendable :: "platform \<Rightarrow> scope \<Rightarrow> event_row list \<Rightarrow> event_row list" where
  "sendable pf sc rows =
     takeWhile (\<lambda>r. \<not> rows_closing pf sc r) rows @
     take 1 (dropWhile (\<lambda>r. \<not> rows_closing pf sc r) rows)"

lemma sorted_ids_filter:
  "sorted_wrt (<) (map evr_id rows) \<Longrightarrow> sorted_wrt (<) (map evr_id (filter p rows))"
  by (induction rows) auto

text \<open>With an ordered log, a poll reads the next batch of it after the cursor.\<close>

lemma poll_rows_eq:
  assumes "events_ok db"
  shows "poll_rows sc db last_id = take POLL_BATCH (filter (\<lambda>r. last_id < evr_id r) (scope_log sc db))"
proof -
  let ?rows = "filter (in_scope sc) (filter (\<lambda>r. last_id < evr_id r) (event_rows db))"
  have "sorted_wrt (<) (map evr_id ?rows)"
    using assms by (intro sorted_ids_filter) (simp add: events_ok_def)
  then have "sorted (map evr_id ?rows)"
    by (rule sorted_wrt_mono_rel [rotated]) auto
  then have "sort_key evr_id ?rows = ?rows" by (rule sort_key_id_if_sorted)
  moreover have "?rows = filter (\<lambda>r. last_id < evr_id r) (scope_log sc db)"
    by (simp add: scope_log_def conj_commute)
  ultimately show ?thesis by (simp add: poll_rows_def)
qed

definition log_ordered :: "event_row list \<Rightarrow> bool" where
  "log_ordered L \<longleftrightarrow> sorted_wrt (<) (map evr_id L) \<and> (\<forall>r \<in> set L. 0 < evr_id r)"

lemma scope_log_ordered: "events_ok db \<Longrightarrow> log_ordered (scope_log sc db)"
  by (auto simp: log_ordered_def scope_log_def events_ok_def list_all_iff intro: sorted_ids_filter)

text \<open>The cursor after \<open>k\<close> events: the id of the last one, zero at the start.\<close>

definition cursor :: "event_row list \<Rightarrow> nat \<Rightarrow> int" where
  "cursor L k = (if k = 0 then 0 else evr_id (L ! (k - 1)))"

lemma cursor_append: "k \<le> length L \<Longrightarrow> cursor (L @ L') k = cursor L k"
  by (auto simp: cursor_def nth_append)

lemma filter_cursor:
  assumes "log_ordered L" and "k \<le> length L"
  shows "filter (\<lambda>r. cursor L k < evr_id r) L = drop k L"
proof -
  have less: "evr_id (L ! i) < evr_id (L ! j)" if "i < j" "j < length L" for i j
    using assms(1) that by (auto simp: log_ordered_def sorted_wrt_iff_nth_less)
  have "\<not> cursor L k < evr_id r" if "r \<in> set (take k L)" for r
  proof -
    from that obtain i where i: "i < k" "r = L ! i" by (auto simp: in_set_conv_nth)
    then show ?thesis using less [of i "k - 1"] assms(2)
      by (cases "i = k - 1") (auto simp: cursor_def not_less intro: less_imp_le)
  qed
  moreover have "cursor L k < evr_id r" if "r \<in> set (drop k L)" for r
  proof -
    from that obtain j where j: "j < length L - k" "r = L ! (k + j)" by (auto simp: in_set_conv_nth)
    moreover from j have "r \<in> set L" by simp
    ultimately show ?thesis using less [of "k - 1" "k + j"] assms(1)
      by (auto simp: cursor_def log_ordered_def)
  qed
  ultimately have "filter (\<lambda>r. cursor L k < evr_id r) (take k L @ drop k L) = drop k L"
    unfolding filter_append by (simp add: filter_False)
  then show ?thesis by simp
qed

text \<open>What a batch, and then a run of polls, has sent when it stops after the \<open>k\<close>-th event.\<close>

definition sent_upto ::
  "platform \<Rightarrow> scope \<Rightarrow> (nat \<Rightarrow> bool) \<Rightarrow> event_row list \<Rightarrow> nat \<Rightarrow> (proto_event list \<times> int) \<times> bool \<Rightarrow> bool" where
  "sent_upto pf sc takes L k res \<longleftrightarrow>
     k \<le> length L \<and> fst (fst res) = map (row_to_proto pf) (take k L) \<and>
     (snd res \<longrightarrow> snd (fst res) = cursor L k \<and> (\<forall>r \<in> set (take k L). \<not> rows_closing pf sc r)) \<and>
     (\<not> snd res \<longrightarrow> (\<forall>r \<in> set (take (k - 1) L). \<not> rows_closing pf sc r) \<and>
        ((\<forall>n. takes n) \<longrightarrow> 0 < k \<and> rows_closing pf sc (L ! (k - 1))))"

lemma send_batch_sent:
  assumes "k \<le> length L" and "\<forall>r \<in> set (take k L). \<not> rows_closing pf sc r"
  shows "\<exists>k'. sent_upto pf sc takes L k'
      (send_batch pf sc takes (take m (drop k L)) (map (row_to_proto pf) (take k L), cursor L k)) \<and>
    (snd (send_batch pf sc takes (take m (drop k L)) (map (row_to_proto pf) (take k L), cursor L k)) \<longrightarrow>
       k' = min (length L) (k + m))"
  using assms
proof (induction m arbitrary: k)
  case 0
  then show ?case by (intro exI [of _ k]) (simp add: sent_upto_def)
next
  case (Suc m)
  show ?case
  proof (cases "k = length L")
    case True
    with Suc.prems show ?thesis by (intro exI [of _ k]) (simp add: sent_upto_def)
  next
    case False
    with Suc.prems have k: "k < length L" by simp
    then have rows: "take (Suc m) (drop k L) = L ! k # take m (drop (Suc k) L)"
      by (simp add: Cons_nth_drop_Suc [symmetric])
    have next_sent: "map (row_to_proto pf) (take k L) @ [row_to_proto pf (L ! k)] =
        map (row_to_proto pf) (take (Suc k) L)"
      using k by (simp add: take_Suc_conv_app_nth)
    have closing: "(\<forall>r \<in> set (take (Suc k) L). \<not> rows_closing pf sc r) \<longleftrightarrow> \<not> rows_closing pf sc (L ! k)"
      using k Suc.prems(2) by (auto simp: take_Suc_conv_app_nth)
    consider (gone) "\<not> takes k" | (close) "takes k" "rows_closing pf sc (L ! k)"
      | (on) "takes k" "\<not> rows_closing pf sc (L ! k)" by blast
    then show ?thesis
    proof cases
      case gone
      have "set (take (k - 1) L) \<subseteq> set (take k L)" by (rule set_take_subset_set_take) simp
      with gone k Suc.prems show ?thesis
        by (intro exI [of _ k]) (auto simp: rows sent_upto_def Let_def)
    next
      case close
      with k Suc.prems next_sent show ?thesis
        by (intro exI [of _ "Suc k"])
          (simp add: rows sent_upto_def Let_def rows_closing_def [symmetric])
    next
      case on
      then have "send_batch pf sc takes (take (Suc m) (drop k L)) (map (row_to_proto pf) (take k L), cursor L k) =
          send_batch pf sc takes (take m (drop (Suc k) L)) (map (row_to_proto pf) (take (Suc k) L), cursor L (Suc k))"
        using k next_sent by (simp add: rows Let_def rows_closing_def cursor_def)
      with Suc.IH [of "Suc k"] k closing on show ?thesis by auto
    qed
  qed
qed

text \<open>The databases a poller sees: each log extends the one before.\<close>

fun grows :: "engine_db list \<Rightarrow> bool" where
  "grows [] = True"
| "grows [db] = events_ok db"
| "grows (db # db' # dbs) =
     (events_ok db \<and> (\<exists>new. event_rows db' = event_rows db @ new) \<and> grows (db' # dbs))"

lemma grows_events_ok: "grows (db # dbs) \<Longrightarrow> events_ok db"
  by (cases dbs) simp_all

lemma db_step_appends_events:
  assumes "db_step pf a db db'"
  shows "\<exists>new. event_rows db' = event_rows db @ new"
  using assms
proof (cases rule: db_step_kinds)
  case (commit i owner n ex evs clock)
  then show ?thesis by (auto simp: commit_step_Inr(3) [OF commit(3)] committed_def)
qed (auto simp: started_def swept_def expire_abandoned_leases_def Let_def)

lemma sent_upto_extend:
  assumes "sent_upto pf sc takes L k res"
  shows "sent_upto pf sc takes (L @ L') k res"
  using assms by (auto simp: sent_upto_def cursor_append nth_append)

lemma grows_log: "grows (db # dbs) \<Longrightarrow> \<exists>L'. scope_log sc (last (db # dbs)) = scope_log sc db @ L'"
proof (induction dbs arbitrary: db)
  case (Cons db' dbs)
  then obtain new L' where "event_rows db' = event_rows db @ new"
    "scope_log sc (last (db' # dbs)) = scope_log sc db' @ L'" by fastforce
  then show ?case by (simp add: scope_log_def)
qed simp

lemma poll_sent:
  assumes "grows dbs" and "dbs \<noteq> []" and "k \<le> length (scope_log sc (hd dbs))"
    and "\<forall>r \<in> set (take k (scope_log sc (hd dbs))). \<not> rows_closing pf sc r"
  shows "\<exists>k'. sent_upto pf sc takes (scope_log sc (last dbs)) k'
    (poll_forever pf sc takes dbs
      (map (row_to_proto pf) (take k (scope_log sc (hd dbs))), cursor (scope_log sc (hd dbs)) k))"
  using assms
proof (induction dbs arbitrary: k)
  case (Cons db dbs)
  let ?L = "scope_log sc db"
  let ?s = "(map (row_to_proto pf) (take k ?L), cursor ?L k)"
  have ok: "events_ok db" using Cons.prems(1) by (rule grows_events_ok)
  have rows: "poll_rows sc db (snd ?s) = take POLL_BATCH (drop k ?L)"
    using Cons.prems(3) by (simp add: poll_rows_eq [OF ok] filter_cursor [OF scope_log_ordered [OF ok]])
  obtain s' goes_on where b: "send_batch pf sc takes (take POLL_BATCH (drop k ?L)) ?s = (s', goes_on)" by fastforce
  with send_batch_sent [of k ?L pf sc takes POLL_BATCH] Cons.prems(3,4) obtain k1 where
    k1: "sent_upto pf sc takes ?L k1 (s', goes_on)" by auto
  show ?case
  proof (cases "goes_on \<and> dbs \<noteq> []")
    case True
    then obtain db' ds where dbs: "dbs = db' # ds" by (cases dbs) auto
    with Cons.prems(1) obtain new where new: "event_rows db' = event_rows db @ new" and "grows dbs" by auto
    then obtain L' where L': "scope_log sc db' = ?L @ L'" by (simp add: scope_log_def)
    from sent_upto_extend [OF k1, of L'] True have s1: "k1 \<le> length (?L @ L')"
      "s' = (map (row_to_proto pf) (take k1 (?L @ L')), cursor (?L @ L') k1)"
      "\<forall>r \<in> set (take k1 (?L @ L')). \<not> rows_closing pf sc r"
      by (auto simp: sent_upto_def prod_eq_iff)
    from Cons.IH [of k1] \<open>grows dbs\<close> dbs s1 L' obtain k' where
      "sent_upto pf sc takes (scope_log sc (last dbs)) k' (poll_forever pf sc takes dbs s')" by auto
    then show ?thesis using b rows True dbs by auto
  next
    case False
    then have "poll_forever pf sc takes (db # dbs) ?s = (s', goes_on)"
      using b rows by (cases goes_on) auto
    moreover obtain L' where "scope_log sc (last (db # dbs)) = ?L @ L'"
      using grows_log [OF Cons.prems(1)] by blast
    ultimately show ?thesis using sent_upto_extend [OF k1, of L'] by auto
  qed
qed simp

lemma sendable_eq:
  "sendable pf sc L = take (Suc (length (takeWhile (\<lambda>r. \<not> rows_closing pf sc r) L))) L"
proof -
  have "take (Suc (length xs)) (xs @ ys) = xs @ take 1 ys" for xs ys :: "event_row list" by simp
  from this [of "takeWhile (\<lambda>r. \<not> rows_closing pf sc r) L" "dropWhile (\<lambda>r. \<not> rows_closing pf sc r) L"]
  show ?thesis unfolding sendable_def takeWhile_dropWhile_id by (rule sym)
qed

lemma take_sendable:
  assumes "k \<le> length L" and "\<forall>r \<in> set (take (k - 1) L). \<not> rows_closing pf sc r"
  shows "take k (sendable pf sc L) = take k L"
proof -
  let ?P = "\<lambda>r. \<not> rows_closing pf sc r"
  have "takeWhile ?P (take (k - 1) L @ drop (k - 1) L) = take (k - 1) L @ takeWhile ?P (drop (k - 1) L)"
    by (rule takeWhile_append2) (use assms(2) in blast)
  then have "takeWhile ?P L = take (k - 1) L @ takeWhile ?P (drop (k - 1) L)"
    by (simp only: append_take_drop_id)
  then have "length (take (k - 1) L) \<le> length (takeWhile ?P L)" by (metis le_add1 length_append)
  with assms(1) have "k \<le> Suc (length (takeWhile ?P L))" by simp
  then show ?thesis by (simp add: sendable_eq take_take min_absorb1)
qed


text \<open>Every payload the engine stores is streamed under its own kind, with the error or the
  answer it carries and, as its own fields, nothing but what was stored under that kind.\<close>

lemma stored_payload_projects:
  assumes "serde_laws (codec pf)"
  shows "row_to_proto pf (event_to_active_model (codec pf) e) =
    \<lparr>pe_id = show_uuid pf (event_id e), pe_execution_id = show_uuid pf (correlation_id e),
     pe_user_id = map_option (show_uuid pf) (event_user_id e),
     pe_version = min (uint (event_version e)) I16_MAX,
     pe_causation_id = map_option (show_uuid pf) (causation_id e),
     pe_occurred_at = rfc3339 pf (occurred_at e),
     payload_kind = fst (projection (codec pf) (payload e)),
     payload_json = (case stored_fields (write_payload (codec pf) (payload e)) of
        None \<Rightarrow> EMPTY_PAYLOAD | Some inner \<Rightarrow> render_json (codec pf) inner),
     pe_result = fst (snd (projection (codec pf) (payload e))),
     pe_error = snd (snd (projection (codec pf) (payload e)))\<rparr> \<and>
   (terminal_payload (payload e) \<longleftrightarrow> fst (projection (codec pf) (payload e)) \<in> set TERMINAL_KINDS)"
  by (cases "payload e")
    (simp_all add: row_to_proto_def event_to_active_model_def Let_def
      serde_laws.payload_inverse [OF assms] TERMINAL_KINDS_def)

end
