(* ===== verification/Engine_Witnesses.thy ===== *)
theory Engine_Witnesses
  imports Registry Endless Scheduler Tool_Executor Event_Stream
begin

text \<open>
  Concrete databases of the engine service, one per property with hypotheses: the loop graph
  registered and started, the same execution waiting, completed, abandoned by a dead worker or
  left without nodes.
\<close>

section \<open>The sample databases\<close>

abbreviation loop_codec :: serde where
  "loop_codec \<equiv> ref_codec loop_graph"

definition with_row :: "(execution_row \<Rightarrow> execution_row) \<Rightarrow> engine_db" where
  "with_row f = loop_db\<lparr>executions := [f loop_row]\<rparr>"

definition loop_execution :: execution where
  "loop_execution = \<lparr>exec_id = 1, graph_id = ''loop'', graph_version = 1, user_id = None,
    status = Ready, current_nodes = [plain ''a''], state = empty_object, iteration = 0,
    max_iterations = 25, deadline = None, budget = initial_budget\<rparr>"

lemma loop_db_tables:
  "executions loop_db = [loop_row]" "graph_rows loop_db = [loop_graph_row]"
  "checkpoints loop_db = [loop_checkpoint 0]"
  using loop_db_looping by (simp_all add: looping_def)

lemma loop_db_ok: "db_ok loop_codec loop_db"
  using trace_db_ok [OF loop_db_trace] by simp

lemma with_row_ok:
  assumes "row_id (f loop_row) = 1" and "lease_consistent (f loop_row)" and "as_created loop_codec (f loop_row)"
  shows "db_ok loop_codec (with_row f)"
  using loop_db_ok assms
  by (auto simp: db_ok_def with_row_def executions_ok_def checkpoints_ok_def events_ok_def
      loop_db_tables execution_exists_def step_taken_def)

lemma loop_row_created: "as_created loop_codec loop_row"
  by (simp add: as_created_def DEFAULT_MAX_ITERATIONS_def)

lemma with_row_latest:
  "latest loop_codec (with_row f) 1 = Inr (Some \<lparr>schema_version = 1, cp_execution_id = 1,
     cp_step = 0, cp_state = empty_object, cp_current_nodes = [plain ''a'']\<rparr>)"
  using loop_latest [of "with_row f" 0] by (simp add: with_row_def loop_db_tables)

lemma with_row_next: "next_checkpoint_step loop_codec (with_row f) 1 = Inr 1"
  by (simp add: next_checkpoint_step_def with_row_latest step_after_def)

lemma with_row_get:
  assumes "row_id (f loop_row) = 1" and "row_graph_id (f loop_row) = ''loop''"
    and "row_graph_version (f loop_row) = 1" and "row_user_id (f loop_row) = None"
    and "as_created loop_codec (f loop_row)"
    and "columns_to_status loop_codec (row_status (f loop_row)) (row_wait_kind (f loop_row)) = Inr st"
  shows "get_execution loop_codec (with_row f) 1 = Inr (loop_execution\<lparr>status := st\<rparr>)"
  using assms
  by (simp add: get_execution_def execution_row_of_def find_execution_def with_row_def
      latest_checkpoint_def with_row_latest [unfolded with_row_def] to_execution_def
      current_position_def counter_column_def as_created_def DEFAULT_MAX_ITERATIONS_def
      initial_budget_inverse loop_execution_def)

definition waiting_row :: "execution_row \<Rightarrow> execution_row" where
  "waiting_row r = r\<lparr>row_status := DbWaiting, row_wait_kind := Some (ref_write_wait_kind UserInput)\<rparr>"

definition completed_row :: "execution_row \<Rightarrow> execution_row" where
  "completed_row r = r\<lparr>row_status := DbCompleted\<rparr>"

definition abandoned_row :: "execution_row \<Rightarrow> execution_row" where
  "abandoned_row r =
     r\<lparr>row_status := DbRunning, lease_owner := Some ''dead'', lease_until := Some (- 1)\<rparr>"

lemmas row_updates = waiting_row_def completed_row_def abandoned_row_def

lemma row_updates_ok:
  "db_ok loop_codec (with_row waiting_row)" "db_ok loop_codec (with_row completed_row)"
  "db_ok loop_codec (with_row abandoned_row)"
  using loop_row_created
  by (auto intro!: with_row_ok
      simp: row_updates lease_consistent_def as_created_def loop_row_def fresh_row_def)

lemma row_updates_get:
  "get_execution loop_codec (with_row waiting_row) 1 = Inr (loop_execution\<lparr>status := Waiting UserInput\<rparr>)"
  "get_execution loop_codec (with_row completed_row) 1 = Inr (loop_execution\<lparr>status := Completed\<rparr>)"
  "get_execution loop_codec (with_row abandoned_row) 1 = Inr (loop_execution\<lparr>status := Running\<rparr>)"
  using loop_row_created
  by (auto intro!: with_row_get
      simp: row_updates as_created_def columns_to_status_def ref_read_wait_kind_def)

section \<open>Witnesses\<close>


theorem lease_column_refines_lock_table_witness:
  "trace loop_platform [Maintained, Started 1] loop_db \<and>
     lock_holder loop_db = fold lock_step [Maintained, Started 1] (\<lambda>_. None)"
  using lease_column_refines_lock_table [OF loop_db_trace] loop_db_trace by simp

lemma ticks_forget_counters_witness:
  "\<exists>as db n ex evs. trace loop_platform as db \<and>
     prepare loop_platform noop (\<lambda>outs. outs) sample_stamps 0 db 1 = Some (Inr (n, ex, evs)) \<and>
     unat (iteration ex) \<le> 1 \<and> max_iterations ex = 25"
proof -
  define db where "db = fst (claim_one_ready loop_platform (\<lambda>_. False) 0 loop_db ''w'' LEASE_DURATION)"
  note claim = loop_claim [OF loop_db_looping]
  have "db_step loop_platform (Claimed 1 ''w'') loop_db db"
    using claims [OF claim] claim by (simp add: db_def)
  then have t: "trace loop_platform ([Maintained, Started 1] @ [Claimed 1 ''w'']) db"
    by (rule run_snoc [OF loop_db_trace])
  obtain ex evs where "prepare loop_platform noop (\<lambda>outs. outs) sample_stamps 0 db 1 =
      Some (Inr (of_nat (Suc 0), ex, evs))"
    using loop_prepare [of db 0 "''w''" "lease_end loop_platform 0 LEASE_DURATION" 0 sample_stamps 0]
    by (auto simp: db_def claim loop_db_tables)
  with ticks_forget_counters [OF t _ this] t show ?thesis
    using ref_laws.serde_laws_axioms by (metis ref_platform_simps(1))
qed

theorem loop_outlives_max_iterations_witness:
  "\<exists>as db row. trace loop_platform as db \<and> length (filter is_commit as) = 1000000 \<and>
    find_execution db 1 = Some row \<and> row_max_iterations row = 25 \<and> row_status row = DbReady"
  using loop_outlives_max_iterations [of 1000000] by simp

theorem step_committed_once_witness:
  "trace loop_platform [Maintained, Started 1] loop_db \<and> distinct (commits [Maintained, Started 1])"
  using step_committed_once [OF loop_db_trace] loop_db_trace by (simp add: starts_def)


lemma takeover_repeats_the_step_witness:
  "\<exists>db'. claim_one_ready loop_platform (\<lambda>_. False) 0 (with_row abandoned_row) ''w'' LEASE_DURATION = (db', Some 1) \<and>
     prepare loop_platform noop (\<lambda>outs. outs) sample_stamps 0 db' 1 =
       prepare loop_platform noop (\<lambda>outs. outs) sample_stamps 0 (with_row abandoned_row) 1"
proof -
  have "\<exists>db'. claim_one_ready loop_platform (\<lambda>_. False) 0 (with_row abandoned_row) ''w'' LEASE_DURATION = (db', Some 1)"
    by (simp add: claim_one_ready_def with_row_def abandoned_row_def claimable_def)
  moreover have "find_execution (with_row abandoned_row) 1 = Some (abandoned_row loop_row)"
    and "row_status (abandoned_row loop_row) = DbRunning"
    by (simp_all add: find_execution_def with_row_def abandoned_row_def)
  ultimately show ?thesis using takeover_repeats_the_step by blast
qed

theorem commit_is_an_update_witness:
  "\<exists>db'. commit_step loop_codec (\<lambda>_. 0) loop_db 1 None 1 (loop_execution\<lparr>status := Completed\<rparr>) [] = Inr db' \<and>
     get_execution loop_codec db' 1 = Inr (loop_execution\<lparr>status := Completed\<rparr>)"
proof -
  have db: "loop_db = with_row (\<lambda>r. r)" by (simp add: with_row_def loop_db_tables(1) [symmetric])
  have get: "get_execution loop_codec loop_db 1 = Inr loop_execution"
    unfolding db using with_row_get [of "\<lambda>r. r" Ready] loop_row_created
    by (simp add: columns_to_status_def loop_execution_def)
  have nxt: "next_checkpoint_step loop_codec loop_db 1 = Inr 1"
    unfolding db by (rule with_row_next)
  have "\<exists>db'. commit_step loop_codec (\<lambda>_. 0) loop_db 1 None 1 (loop_execution\<lparr>status := Completed\<rparr>) [] = Inr db'"
    by (simp add: commit_step_eq step_taken_def loop_db_tables loop_checkpoint_def held_by_def I32_MAX_def)
  then obtain db' where c: "commit_step loop_codec (\<lambda>_. 0) loop_db 1 None 1 (loop_execution\<lparr>status := Completed\<rparr>) [] = Inr db'"
    by blast
  from commit_is_an_update [OF ref_laws.serde_laws_axioms loop_db_ok get nxt _ c] c show ?thesis
    by (simp add: loop_execution_def)
qed

lemma resume_effect_witness:
  "case resume loop_platform (\<lambda>_. []) (\<lambda>_. 0) (with_row waiting_row) (OwnedExecution 1) ''{}'' of
      Inr db' \<Rightarrow> \<exists>ex'. get_execution loop_codec db' 1 = Inr ex' \<and> status ex' = Ready
    | Inl e \<Rightarrow> False"
  using resume_effect [of loop_platform "with_row waiting_row" 1
      "loop_execution\<lparr>status := Waiting UserInput\<rparr>" 1 "''{}''" empty_object "\<lambda>_. []" "\<lambda>_. 0"]
    ref_laws.serde_laws_axioms row_updates_ok row_updates_get with_row_next
  by (auto simp: ref_parse_json_def loop_execution_def split: sum.splits)

lemma interrupt_revives_witness:
  "\<exists>db' ex'. interrupt_execution loop_platform (9, 0) (\<lambda>_. 0) (with_row completed_row) (OwnedExecution 1) ''{}'' =
      Some (Inr db') \<and> get_execution loop_codec db' 1 = Inr ex' \<and> status ex' = Ready"
  using interrupt_revives [of loop_platform "with_row completed_row" 1
      "loop_execution\<lparr>status := Completed\<rparr>" fmempty 1 "''{}''" empty_object "(9, 0)" "\<lambda>_. 0"]
    ref_laws.serde_laws_axioms row_updates_ok row_updates_get with_row_next
  by (force simp: ref_parse_json_def loop_execution_def)

lemma cancel_effect_witness:
  "\<exists>db'. cancel loop_platform (9, 0) (\<lambda>_. 0) (with_row waiting_row) (OwnedExecution 1) = Inr db' \<and>
     get_execution loop_codec db' 1 = Inr (loop_execution\<lparr>status := Cancelled\<rparr>)"
  using cancel_effect [of loop_platform "with_row waiting_row" 1
      "loop_execution\<lparr>status := Waiting UserInput\<rparr>" 1 "(9, 0)" "\<lambda>_. 0"]
    ref_laws.serde_laws_axioms row_updates_ok row_updates_get with_row_next
  by (simp add: loop_execution_def)

text \<open>The execution without nodes: its only checkpoint carries an empty position.\<close>

definition nodeless_db :: engine_db where
  "nodeless_db = loop_db\<lparr>checkpoints := [(loop_checkpoint 0)\<lparr>cpr_current_nodes :=
     write_active_nodes loop_codec []\<rparr>]\<rparr>"

lemma ready_without_nodes_spins_witness:
  "\<exists>n ex evs. prepare loop_platform noop (\<lambda>outs. outs) sample_stamps 0 nodeless_db 1 = Some (Inr (n, ex, evs)) \<and>
     status ex = Ready \<and> current_nodes ex = [] \<and> evs = []"
proof -
  define ex where "ex = loop_execution\<lparr>current_nodes := []\<rparr>"
  have latest: "latest loop_codec nodeless_db 1 = Inr (Some \<lparr>schema_version = 1, cp_execution_id = 1,
      cp_step = 0, cp_state = empty_object, cp_current_nodes = []\<rparr>)"
    by (simp add: latest_def latest_row_def nodeless_db_def loop_checkpoint_def
        checkpoint_from_model_def CHECKPOINT_SCHEMA_VERSION_def I16_MAX_def
        ref_laws.active_nodes_inverse)
  have get: "get_execution loop_codec nodeless_db 1 = Inr ex"
    using latest
    by (simp add: get_execution_def execution_row_of_def find_execution_def nodeless_db_def
        loop_db_tables latest_checkpoint_def to_execution_def current_position_def
        counter_column_def columns_to_status_def initial_budget_inverse loop_execution_def ex_def)
  have "load_execution_and_graph loop_platform nodeless_db 1 = Inr (loop_row, loop_graph)"
    by (simp add: load_execution_and_graph_def find_execution_def registered_graph_def
        nodeless_db_def loop_db_tables loop_graph_row_def ref_graph_inverse)
  moreover have "load_current_state loop_platform nodeless_db 1 loop_row loop_graph = Inr (ex, 1)"
    using latest
    by (simp add: load_current_state_def current_position_def columns_to_status_def
        counter_column_def initial_budget_inverse step_after_def ex_def loop_execution_def)
  ultimately have "\<exists>e evs. prepare loop_platform noop (\<lambda>outs. outs) sample_stamps 0 nodeless_db 1 =
      Some (Inr (1, e, evs))"
    by (simp add: prepare_def run_active_nodes_def ex_def loop_execution_def step_def
        step_outputs_def case_prod_beta)
  then obtain e evs where "prepare loop_platform noop (\<lambda>outs. outs) sample_stamps 0 nodeless_db 1 =
      Some (Inr (1, e, evs))" by blast
  with ready_without_nodes_spins [OF this, of ex] get show ?thesis
    by (simp add: ex_def loop_execution_def word_less_nat_alt)
qed

theorem register_then_load_witness:
  "\<exists>db' row. register_graph loop_codec 0 empty_db ''loop'' ''graph'' = Inr (db', ''loop'', 1) \<and>
     load_graph loop_codec db' ''loop'' None = Inr (row, loop_graph\<lparr>g_version := version_number 1\<rparr>)"
  using register_then_load [of loop_codec empty_db "''graph''" loop_graph 0 "''loop''"]
    ref_laws.serde_laws_axioms
  by (auto simp: versions_fit_def empty_db_def validated_graph_def ref_graph_inverse
      loop_graph_valid next_version_def newest_graph_row_def)

lemma register_if_changed_idempotent_witness:
  "register_graph_if_changed loop_codec 0 empty_db ''loop'' ''graph'' = Inr (loop_registered, ''loop'', 1) \<and>
     register_graph_if_changed loop_codec 7 loop_registered ''loop'' ''graph'' = Inr (loop_registered, ''loop'', 1)"
proof -
  have "register_graph_if_changed loop_codec 0 empty_db ''loop'' ''graph'' =
      register_graph loop_codec 0 empty_db ''loop'' ''graph''"
    by (simp add: register_graph_if_changed_def register_graph_def newest_graph_row_def empty_db_def
        validated_graph_def ref_graph_inverse loop_graph_valid)
  then have r: "register_graph_if_changed loop_codec 0 empty_db ''loop'' ''graph'' =
      Inr (loop_registered, ''loop'', 1)" using loop_register by simp
  have "versions_fit empty_db" by (simp add: versions_fit_def empty_db_def)
  from register_if_changed_idempotent [OF this r] r show ?thesis by simp
qed

lemma loaded_graph_is_valid_witness:
  "load_execution_and_graph loop_platform loop_db 1 = Inr (loop_row, loop_graph) \<and>
     validate loop_graph = Inr ()"
proof -
  have l: "load_execution_and_graph loop_platform loop_db 1 = Inr (loop_row, loop_graph)"
    by (simp add: load_execution_and_graph_def find_execution_def registered_graph_def
        loop_db_tables loop_graph_row_def ref_graph_inverse)
  with loaded_graph_is_valid [OF loop_db_trace _ l] ref_laws.serde_laws_axioms show ?thesis by simp
qed

lemma start_effect_witness:
  "start_continuing loop_codec (\<lambda>_. 0) 1 loop_registered ''loop'' None ''{}'' None None = Inr (loop_db, 1) \<and>
     (\<exists>ex. get_execution loop_codec loop_db 1 = Inr ex \<and> status ex = Ready \<and> state ex = empty_object)"
proof -
  have "db_ok loop_codec loop_registered"
    using empty_db_ok [of loop_codec]
    by (simp add: loop_registered_def db_ok_def executions_ok_def checkpoints_ok_def events_ok_def empty_db_def)
  from start_effect [OF ref_laws.serde_laws_axioms this loop_start] loop_start show ?thesis
    by (auto simp: load_graph_def loop_registered_def loop_graph_row_def ref_graph_inverse
        execution_input_def ref_parse_json_def inherited_input_def)
qed

lemma ownership_is_enforced_witness:
  "get_execution loop_codec (with_row completed_row) 1 = Inr (loop_execution\<lparr>status := Completed\<rparr>) \<and>
     owned_by_the_caller loop_codec (with_row completed_row) (Some 5) 1 = Inr (OwnedExecution 1)"
  using ownership_is_enforced [OF row_updates_get(2), of "Some 5"] row_updates_get(2)
  by (simp add: loop_execution_def)

text \<open>
  Concrete instances of the properties of the scheduler, the tool executor and the event stream: one
  overdue hourly schedule beside the sample execution, one tool call that succeeds and one that fails,
  and the stream of the sample database.
\<close>

section \<open>Schedules\<close>

definition hourly_row :: schedule_row where
  "hourly_row = \<lparr>sc_id = 1, sc_graph_id = ''loop'', sc_graph_version = None, sc_cron_expr = ''hourly'',
     sc_input_json = empty_object, sc_user_id = None, enabled = True, next_run_at = 0,
     last_execution_id = None, sc_created_at = 0, sc_updated_at = 0\<rparr>"

definition hourly_db :: engine_db where
  "hourly_db = loop_db\<lparr>schedule_rows := [hourly_row]\<rparr>"

lemma poll_consumes_due_time_witness:
  "\<exists>db' r. run_once loop_platform (\<lambda>_. False) (\<lambda>n. int n) 7 hourly_db = (db', r) \<and>
     is_due 0 hourly_row \<and> (\<forall>x \<in> set (schedule_rows db'). sc_id x = 1 \<longrightarrow> \<not> is_due 0 x)"
proof -
  obtain db' r where run: "run_once loop_platform (\<lambda>_. False) (\<lambda>n. int n) 7 hourly_db = (db', r)"
    by fastforce
  have due: "is_due 0 hourly_row" by (simp add: is_due_def hourly_row_def)
  have "hourly_row \<in> set (schedule_rows hourly_db)" by (simp add: hourly_db_def)
  from poll_consumes_due_time [OF ref_platform_laws.platform_laws_axioms _ this _ _ run] due
  have "\<exists>fired \<in> set (schedule_rows hourly_db).
      \<forall>x \<in> set (schedule_rows db'). sc_id x = sc_id fired \<longrightarrow> \<not> is_due 0 x" by auto
  then show ?thesis using run due by (simp add: hourly_db_def hourly_row_def)
qed

lemma created_schedule_is_listed_witness:
  "\<exists>db' row. create_schedule loop_platform (\<lambda>_. 0) loop_db ''loop'' None ''hourly'' ''{}'' None = Inr (db', 1) \<and>
     row \<in> set (list_schedules db' None) \<and> enabled row \<and> 0 < next_run_at row"
proof -
  obtain db' where c: "create_schedule loop_platform (\<lambda>_. 0) loop_db ''loop'' None ''hourly'' ''{}'' None = Inr (db', 1)"
    by (simp add: create_schedule_def next_fire_after_def ref_next_fire_def ref_parse_json_def
        insert_schedule_def loop_db_def started_def loop_registered_def empty_db_def)
  from created_schedule_is_listed [OF ref_platform_laws.platform_laws_axioms c] c show ?thesis by auto
qed

section \<open>Tool steps\<close>

definition failed_step :: "tool_record list" where
  "failed_step = [failed \<lparr>call_name = ''search'', call_args = Null\<rparr> ''unreachable'' ''t1'']"

lemma failed_steps_are_counted_witness:
  "\<exists>st'. apply_reducer empty_object TOOL_RESULT_STATE_KEY AppendEach
       (Array (map (write_tool_record ref_serde) failed_step)) = Some st' \<and>
     consecutive_failed_steps ref_serde st' = 1"
proof -
  have none: "all_under (read_tool_record ref_serde) empty_object TOOL_RESULT_STATE_KEY = []"
    by (simp add: all_under_def)
  have list: "log_is_list empty_object" by (simp add: log_is_list_def)
  have step: "new_step [] failed_step ''t1''"
    by (simp add: new_step_def failed_step_def failed_def tool_record_of_def)
  obtain st' where st': "apply_reducer empty_object TOOL_RESULT_STATE_KEY AppendEach
       (Array (map (write_tool_record ref_serde) failed_step)) = Some st'"
    by (simp add: failed_step_def apply_append_def append_items_def)
  have failing: "nothing_reached_its_source failed_step"
    by (simp add: nothing_reached_its_source_def failed_step_def failed_def tool_record_of_def
        reached_its_source_def)
  from failed_steps_are_counted [OF ref.serde_laws_axioms list _ st'] none step failing st'
  show ?thesis by (simp add: consecutive_failed_steps_def none)
qed

definition answering_service :: tool_service where
  "answering_service tool_slug input key =
     Inr \<lparr>response_status = ExecuteOk, output_json = ''{}'', error_message = ''''\<rparr>"

definition slug_config :: json where
  "slug_config = json_object [(''tool_slug'', String ''search'')]"

lemma tool_node_answers_or_gives_up_witness:
  "\<exists>step. length step = 1 \<and>
     tool_execute ref_serde (\<lambda>_. ''why'') answering_service hd ''t1'' slug_config empty_object ''k'' =
       Inr (Array (map (write_tool_record ref_serde) step))"
proof -
  let ?call = "\<lparr>call_name = ''search'', call_args = json_object [(''query'', String ''why'')]\<rparr>"
  have r: "requested_calls ref_serde (\<lambda>_. ''why'') slug_config empty_object = Inr [?call]"
    by (simp add: requested_calls_def slug_config_def)
  have o: "run_all ref_serde answering_service hd [?call] ''k'' = Inr [Output empty_object]"
    by (simp add: run_all_def call_tool_def answering_service_def ref_serde_def ref_parse_json_def)
  have none: "consecutive_failed_steps ref_serde empty_object = 0"
    by (simp add: consecutive_failed_steps_def all_under_def)
  from tool_node_answers_or_gives_up [OF r _ o, of "''t1''"] none show ?thesis
    by (auto simp: MAX_PARALLEL_TOOL_CALLS_def)
qed

lemma catalog_is_fresh_witness:
  "\<exists>cached' reply. available_tools 0 1 (Inr []) None = (cached', reply) \<and> reply = Inr []"
  using catalog_is_fresh [of 0 1 "Inr []" None]
  by (auto simp: available_tools_def Let_def)

section \<open>The stream\<close>


end
