(* ===== verification/Decision_Budget.thy ===== *)
theory Decision_Budget
  imports Json
begin

text \<open>
  \<^verbatim>\<open>services/llm-router/src/decision.rs\<close> and \<^verbatim>\<open>budget.rs\<close>: the messages of one
  \<^verbatim>\<open>Decide\<close> call, the limits the service holds them to, and the check that turns a request
  into a \<open>decision\<close> or refuses it. \<open>decision_ok\<close> and \<open>reads_as\<close> say, without the order of the
  checks, which requests are accepted and as what; the theorem at the end shows that the check
  decides exactly that.

  Not under the repository are \<^verbatim>\<open>google.protobuf.Value\<close> with its serializer and the JSON
  printer and parser of \<^verbatim>\<open>serde_json\<close>: the protobuf value is a type parameter and these functions
  are the record \<open>json_codec\<close>, together with the decimal rendering of a float. Nothing is assumed of them. Sizes are unbounded natural numbers: the lengths
  of strings held in memory do not overflow \<^verbatim>\<open>usize\<close>.
\<close>

section \<open>The messages of the wire\<close>

record choice_option =
  option_name :: string
  option_description :: "string option"

datatype proto_kind =
    ProtoNoul "string option" "string option"
  | ProtoChoice "choice_option list"
  | ProtoScore "string list"

record 'v proto_question =
  pq_id :: string
  pq_instructions :: "'v option"
  pq_kind :: "proto_kind option"

record 'v decide_request =
  req_state :: "'v option"
  req_questions :: "'v proto_question list"

section \<open>decision.rs\<close>

datatype question_kind =
    Noul "string option" "string option"
  | Choice "choice_option list"
  | Score "string list"

record question =
  question_id :: string
  instructions :: json
  kind :: question_kind

record decision =
  decision_state :: json
  questions :: "question list"
  caller_stops_waiting_at :: "instant option"

section \<open>budget.rs\<close>

record 'v json_codec =
  to_value :: "'v option \<Rightarrow> string + json"
  to_string :: "json \<Rightarrow> string"
  from_slice :: "string \<Rightarrow> string + json"
  show_f64 :: "rat \<Rightarrow> string"

definition MAX_QUESTIONS :: nat where "MAX_QUESTIONS = 64"
definition MAX_CHOICE_OPTIONS :: nat where "MAX_CHOICE_OPTIONS = 255"
definition MAX_SCORE_LEVELS :: nat where "MAX_SCORE_LEVELS = 10"
definition MIN_SCORE_LEVELS :: nat where "MIN_SCORE_LEVELS = 2"
definition MAX_QUESTION_ID_BYTES :: nat where "MAX_QUESTION_ID_BYTES = 64"
definition WORST_CASE_BYTES_PER_TOKEN :: nat where "WORST_CASE_BYTES_PER_TOKEN = 2"
definition VENDOR_STATE_PLUS_QUESTION_TOKENS :: nat where
  "VENDOR_STATE_PLUS_QUESTION_TOKENS = 32768"
definition MAX_STATE_PLUS_QUESTION_BYTES :: nat where
  "MAX_STATE_PLUS_QUESTION_BYTES = VENDOR_STATE_PLUS_QUESTION_TOKENS * WORST_CASE_BYTES_PER_TOKEN"
definition MAX_STATE_BYTES :: nat where "MAX_STATE_BYTES = 49152"
definition MAX_INSTRUCTIONS_BYTES :: nat where "MAX_INSTRUCTIONS_BYTES = 8192"
definition VENDOR_REQUEST_TOKENS :: nat where "VENDOR_REQUEST_TOKENS = 65536"
definition MAX_REQUEST_BYTES :: nat where
  "MAX_REQUEST_BYTES = VENDOR_REQUEST_TOKENS * WORST_CASE_BYTES_PER_TOKEN"
definition MAX_OPTION_NAME_BYTES :: nat where "MAX_OPTION_NAME_BYTES = MAX_QUESTION_ID_BYTES"
definition MAX_OPTION_DESCRIPTION_BYTES :: nat where "MAX_OPTION_DESCRIPTION_BYTES = 1024"
definition MAX_LEVEL_BYTES :: nat where "MAX_LEVEL_BYTES = 1024"

text \<open>\<^verbatim>\<open>i32::try_from(n).unwrap_or(i32::MAX)\<close> of a \<^verbatim>\<open>usize\<close>.\<close>

definition counted :: "nat \<Rightarrow> int" where
  "counted limit = min (int limit) (2 ^ 31 - 1)"

record decision_budget =
  max_questions :: int
  max_question_id_bytes :: int
  max_instructions_bytes :: int
  max_state_bytes :: int
  max_choice_options :: int
  max_option_name_bytes :: int
  max_option_description_bytes :: int
  min_score_levels :: int
  max_score_levels :: int
  max_level_bytes :: int
  max_state_plus_question_bytes :: int
  max_request_bytes :: int

definition published :: decision_budget where
  "published =
     \<lparr>max_questions = counted MAX_QUESTIONS,
      max_question_id_bytes = counted MAX_QUESTION_ID_BYTES,
      max_instructions_bytes = counted MAX_INSTRUCTIONS_BYTES,
      max_state_bytes = counted MAX_STATE_BYTES,
      max_choice_options = counted MAX_CHOICE_OPTIONS,
      max_option_name_bytes = counted MAX_OPTION_NAME_BYTES,
      max_option_description_bytes = counted MAX_OPTION_DESCRIPTION_BYTES,
      min_score_levels = counted MIN_SCORE_LEVELS,
      max_score_levels = counted MAX_SCORE_LEVELS,
      max_level_bytes = counted MAX_LEVEL_BYTES,
      max_state_plus_question_bytes = counted MAX_STATE_PLUS_QUESTION_BYTES,
      max_request_bytes = counted MAX_REQUEST_BYTES\<rparr>"

abbreviation invalid_argument :: "string \<Rightarrow> rpc_error + 'a" where
  "invalid_argument message \<equiv> Inl (InvalidArgument, message)"

text \<open>\<^verbatim>\<open>json_from\<close> of \<^verbatim>\<open>wire.rs\<close>: a field left unset is serialized as JSON null.\<close>

definition json_from :: "'v json_codec \<Rightarrow> 'v option \<Rightarrow> string + json" where
  "json_from c v = map_err (\<lambda>e. ''could not be read as JSON: '' @ e) (to_value c v)"

definition validated_id :: "string \<Rightarrow> string set \<Rightarrow> rpc_error + string set" where
  "validated_id i asked =
     (if i = [] then invalid_argument ''every question needs an id''
      else if MAX_QUESTION_ID_BYTES < length i then
        invalid_argument (''question id '' @ i @ '' is over the '' @ show_nat MAX_QUESTION_ID_BYTES
          @ '' byte limit'')
      else if i \<in> asked then invalid_argument (''question id '' @ i @ '' is asked twice'')
      else Inr (insert i asked))"

definition within_json_budget ::
  "'v json_codec \<Rightarrow> string \<Rightarrow> json \<Rightarrow> nat \<Rightarrow> rpc_error + json" where
  "within_json_budget c what v limit =
     (if is_null v then invalid_argument (what @ '' must be set'')
      else
        let bytes = length (to_string c v) in
        if limit < bytes then
          invalid_argument (what @ '' is '' @ show_nat bytes @ '' bytes of JSON, over the ''
            @ show_nat limit @ '' byte limit'')
        else Inr v)"

text \<open>\<^verbatim>\<open>as_deref().map_or(0, str::len)\<close>.\<close>

definition optional_bytes :: "string option \<Rightarrow> nat" where
  "optional_bytes s = (case s of None \<Rightarrow> 0 | Some t \<Rightarrow> length t)"

fun kind_bytes :: "question_kind \<Rightarrow> nat" where
  "kind_bytes (Noul when_true when_false) = optional_bytes when_true + optional_bytes when_false"
| "kind_bytes (Choice options) =
     sum_list (map (\<lambda>opt. length (option_name opt) + optional_bytes (option_description opt)) options)"
| "kind_bytes (Score levels) = sum_list (map length levels)"

definition question_bytes :: "'v json_codec \<Rightarrow> question \<Rightarrow> nat" where
  "question_bytes c q = length (to_string c (instructions q)) + kind_bytes (kind q)"

definition within_state_and_question_budget ::
  "'v json_codec \<Rightarrow> nat \<Rightarrow> question \<Rightarrow> rpc_error + unit" where
  "within_state_and_question_budget c state_bytes q =
     (let bytes = question_bytes c q;
          combined = state_bytes + bytes in
      if MAX_STATE_PLUS_QUESTION_BYTES < combined then
        invalid_argument (''state is '' @ show_nat state_bytes @ '' bytes and question ''
          @ question_id q @ '' is '' @ show_nat bytes @ '' bytes; together they are ''
          @ show_nat combined @ '' bytes, over the '' @ show_nat MAX_STATE_PLUS_QUESTION_BYTES
          @ '' byte limit the vendor holds state plus one question to'')
      else Inr ())"

definition within_request_budget ::
  "'v json_codec \<Rightarrow> nat \<Rightarrow> question list \<Rightarrow> rpc_error + unit" where
  "within_request_budget c state_bytes qs =
     (let question_bytes_total = sum_list (map (question_bytes c) qs);
          total = state_bytes + question_bytes_total in
      if MAX_REQUEST_BYTES < total then
        invalid_argument (''state is '' @ show_nat state_bytes @ '' bytes and the ''
          @ show_nat (length qs) @ '' questions together are '' @ show_nat question_bytes_total
          @ '' bytes; the whole request is '' @ show_nat total @ '' bytes, over the ''
          @ show_nat MAX_REQUEST_BYTES @ '' byte limit the vendor holds one Decide call to'')
      else Inr ())"

definition bounded :: "string \<Rightarrow> string \<Rightarrow> string \<Rightarrow> nat \<Rightarrow> rpc_error + string" where
  "bounded i what written limit =
     (if limit < length written then
        invalid_argument (what @ '' of question '' @ i @ '' is '' @ show_nat (length written)
          @ '' bytes, over the '' @ show_nat limit @ '' byte limit'')
      else Inr written)"

text \<open>\<^verbatim>\<open>Option<Result<T, E>>::transpose\<close>.\<close>

fun transpose_option :: "('e + 'a) option \<Rightarrow> 'e + 'a option" where
  "transpose_option None = Inr None"
| "transpose_option (Some r) = and_then r (\<lambda>x. Inr (Some x))"

definition criterion :: "string \<Rightarrow> string \<Rightarrow> string option \<Rightarrow> rpc_error + string option" where
  "criterion i what written =
     transpose_option (map_option (\<lambda>w. bounded i what w MAX_LEVEL_BYTES) written)"

definition validated_levels :: "string \<Rightarrow> string list \<Rightarrow> rpc_error + question_kind" where
  "validated_levels i levels =
     (if length levels < MIN_SCORE_LEVELS then
        invalid_argument (''score question '' @ i @ '' needs at least ''
          @ show_nat MIN_SCORE_LEVELS @ '' levels'')
      else if MAX_SCORE_LEVELS < length levels then
        invalid_argument (''score question '' @ i @ '' names more than the ''
          @ show_nat MAX_SCORE_LEVELS @ '' levels this class takes'')
      else
        and_then
          (collect_results
            (map (\<lambda>(index, level). bounded i (''level '' @ show_nat index) level MAX_LEVEL_BYTES)
              (enumerate 0 levels)))
          (\<lambda>named. Inr (Score named)))"

fun offered_options ::
  "string \<Rightarrow> nat \<Rightarrow> string set \<Rightarrow> choice_option list \<Rightarrow> rpc_error + choice_option list" where
  "offered_options i index named [] = Inr []"
| "offered_options i index named (opt # opts) =
     (if option_name opt = [] then
        invalid_argument (''every option of choice question '' @ i @ '' needs a name'')
      else
        and_then (bounded i (''the name of option '' @ show_nat index) (option_name opt)
                    MAX_OPTION_NAME_BYTES) (\<lambda>nm.
        if nm \<in> named then
          invalid_argument (''option '' @ nm @ '' of choice question '' @ i @ '' is offered twice'')
        else
          and_then (transpose_option (map_option (\<lambda>written.
              bounded i (''the description of option '' @ nm) written MAX_OPTION_DESCRIPTION_BYTES)
            (option_description opt))) (\<lambda>description.
          and_then (offered_options i (Suc index) (insert nm named) opts) (\<lambda>offered.
          Inr (opt\<lparr>option_name := nm, option_description := description\<rparr> # offered)))))"

definition validated_options :: "string \<Rightarrow> choice_option list \<Rightarrow> rpc_error + question_kind" where
  "validated_options i options =
     (if options = [] then
        invalid_argument (''choice question '' @ i @ '' names no options'')
      else if MAX_CHOICE_OPTIONS < length options then
        invalid_argument (''choice question '' @ i @ '' names more than the ''
          @ show_nat MAX_CHOICE_OPTIONS @ '' options this class takes'')
      else and_then (offered_options i 0 {} options) (\<lambda>offered. Inr (Choice offered)))"

definition validated_kind :: "string \<Rightarrow> proto_kind option \<Rightarrow> rpc_error + question_kind" where
  "validated_kind i k =
     (case k of
        None \<Rightarrow> invalid_argument (''question '' @ i @ '' names no kind'')
      | Some (ProtoNoul when_true when_false) \<Rightarrow>
          and_then (criterion i ''the whenTrue criterion'' when_true) (\<lambda>t.
          and_then (criterion i ''the whenFalse criterion'' when_false) (\<lambda>f.
          Inr (Noul t f)))
      | Some (ProtoChoice options) \<Rightarrow> validated_options i options
      | Some (ProtoScore levels) \<Rightarrow> validated_levels i levels)"

definition validated_question :: "'v json_codec \<Rightarrow> 'v proto_question \<Rightarrow> rpc_error + question" where
  "validated_question c q =
     (let what = ''the instructions of question '' @ pq_id q in
      and_then (map_err (\<lambda>e. (InvalidArgument, what @ '' '' @ e)) (json_from c (pq_instructions q)))
        (\<lambda>v. and_then (within_json_budget c what v MAX_INSTRUCTIONS_BYTES) (\<lambda>v.
        and_then (validated_kind (pq_id q) (pq_kind q)) (\<lambda>k.
        Inr \<lparr>question_id = pq_id q, instructions = v, kind = k\<rparr>))))"

fun validated_questions ::
  "'v json_codec \<Rightarrow> nat \<Rightarrow> string set \<Rightarrow> 'v proto_question list \<Rightarrow> rpc_error + question list" where
  "validated_questions c state_bytes asked [] = Inr []"
| "validated_questions c state_bytes asked (q # qs) =
     and_then (validated_id (pq_id q) asked) (\<lambda>asked'.
     and_then (validated_question c q) (\<lambda>q'.
     and_then (within_state_and_question_budget c state_bytes q') (\<lambda>_.
     and_then (validated_questions c state_bytes asked' qs) (\<lambda>rest. Inr (q' # rest)))))"

definition validated_decision :: "'v json_codec \<Rightarrow> 'v decide_request \<Rightarrow> rpc_error + decision" where
  "validated_decision c request =
     (if req_questions request = [] then
        invalid_argument ''questions must hold at least one question''
      else if MAX_QUESTIONS < length (req_questions request) then
        invalid_argument (''questions must hold at most '' @ show_nat MAX_QUESTIONS @ '' questions'')
      else
        and_then (map_err (\<lambda>e. (InvalidArgument, ''state '' @ e)) (json_from c (req_state request)))
          (\<lambda>v. and_then (within_json_budget c ''state'' v MAX_STATE_BYTES) (\<lambda>v.
          let state_bytes = length (to_string c v) in
          and_then (validated_questions c state_bytes {} (req_questions request)) (\<lambda>qs.
          and_then (within_request_budget c state_bytes qs) (\<lambda>_.
          Inr \<lparr>decision_state = v, questions = qs, caller_stops_waiting_at = None\<rparr>)))))"

section \<open>What is accepted, and as what\<close>

definition options_ok :: "choice_option list \<Rightarrow> bool" where
  "options_ok opts \<longleftrightarrow>
     distinct (map option_name opts) \<and>
     (\<forall>opt \<in> set opts. option_name opt \<noteq> [] \<and> length (option_name opt) \<le> MAX_OPTION_NAME_BYTES \<and>
        optional_bytes (option_description opt) \<le> MAX_OPTION_DESCRIPTION_BYTES)"

fun kind_ok :: "question_kind \<Rightarrow> bool" where
  "kind_ok (Noul t f) \<longleftrightarrow> optional_bytes t \<le> MAX_LEVEL_BYTES \<and> optional_bytes f \<le> MAX_LEVEL_BYTES"
| "kind_ok (Choice opts) \<longleftrightarrow> opts \<noteq> [] \<and> length opts \<le> MAX_CHOICE_OPTIONS \<and> options_ok opts"
| "kind_ok (Score levels) \<longleftrightarrow>
     length levels \<in> {MIN_SCORE_LEVELS..MAX_SCORE_LEVELS} \<and>
     (\<forall>l \<in> set levels. length l \<le> MAX_LEVEL_BYTES)"

definition question_ok :: "'v json_codec \<Rightarrow> nat \<Rightarrow> question \<Rightarrow> bool" where
  "question_ok c state_bytes q \<longleftrightarrow>
     question_id q \<noteq> [] \<and> length (question_id q) \<le> MAX_QUESTION_ID_BYTES \<and>
     instructions q \<noteq> Null \<and> length (to_string c (instructions q)) \<le> MAX_INSTRUCTIONS_BYTES \<and>
     kind_ok (kind q) \<and> state_bytes + question_bytes c q \<le> MAX_STATE_PLUS_QUESTION_BYTES"

definition decision_ok :: "'v json_codec \<Rightarrow> decision \<Rightarrow> bool" where
  "decision_ok c d \<longleftrightarrow>
     (let state_bytes = length (to_string c (decision_state d)) in
      decision_state d \<noteq> Null \<and> state_bytes \<le> MAX_STATE_BYTES \<and>
      questions d \<noteq> [] \<and> length (questions d) \<le> MAX_QUESTIONS \<and>
      distinct (map question_id (questions d)) \<and>
      (\<forall>q \<in> set (questions d). question_ok c state_bytes q) \<and>
      state_bytes + sum_list (map (question_bytes c) (questions d)) \<le> MAX_REQUEST_BYTES)"

fun kind_reads_as :: "proto_kind \<Rightarrow> question_kind" where
  "kind_reads_as (ProtoNoul t f) = Noul t f"
| "kind_reads_as (ProtoChoice opts) = Choice opts"
| "kind_reads_as (ProtoScore levels) = Score levels"

definition question_reads_as :: "'v json_codec \<Rightarrow> 'v proto_question \<Rightarrow> question \<Rightarrow> bool" where
  "question_reads_as c pq q \<longleftrightarrow>
     question_id q = pq_id pq \<and> to_value c (pq_instructions pq) = Inr (instructions q) \<and>
     map_option kind_reads_as (pq_kind pq) = Some (kind q)"

definition reads_as :: "'v json_codec \<Rightarrow> 'v decide_request \<Rightarrow> decision \<Rightarrow> bool" where
  "reads_as c request d \<longleftrightarrow>
     to_value c (req_state request) = Inr (decision_state d) \<and>
     list_all2 (question_reads_as c) (req_questions request) (questions d) \<and>
     caller_stops_waiting_at d = None"

section \<open>The check decides exactly that\<close>

lemma bounded_eq_Inr [result_simps]:
  "bounded i what w limit = Inr r \<longleftrightarrow> r = w \<and> length w \<le> limit"
  by (auto simp: bounded_def not_less)

lemma transpose_bounded [result_simps]:
  "transpose_option (map_option (\<lambda>w. bounded i what w limit) s) = Inr r \<longleftrightarrow>
     r = s \<and> optional_bytes s \<le> limit"
  by (cases s) (auto simp: result_simps optional_bytes_def)

lemma criterion_eq_Inr [result_simps]:
  "criterion i what s = Inr r \<longleftrightarrow> r = s \<and> optional_bytes s \<le> MAX_LEVEL_BYTES"
  by (simp add: criterion_def result_simps)

lemma validated_id_eq_Inr [result_simps]:
  "validated_id i asked = Inr asked' \<longleftrightarrow>
     i \<noteq> [] \<and> length i \<le> MAX_QUESTION_ID_BYTES \<and> i \<notin> asked \<and> asked' = insert i asked"
  by (auto simp: validated_id_def not_less)

lemma within_json_budget_eq_Inr [result_simps]:
  "within_json_budget c what v limit = Inr r \<longleftrightarrow>
     r = v \<and> v \<noteq> Null \<and> length (to_string c v) \<le> limit"
  by (auto simp: within_json_budget_def is_null_def Let_def not_less)

lemma within_state_and_question_budget_eq_Inr [result_simps]:
  "within_state_and_question_budget c n q = Inr r \<longleftrightarrow>
     n + question_bytes c q \<le> MAX_STATE_PLUS_QUESTION_BYTES"
  by (simp add: within_state_and_question_budget_def Let_def not_less)

lemma within_request_budget_eq_Inr [result_simps]:
  "within_request_budget c n qs = Inr r \<longleftrightarrow>
     n + sum_list (map (question_bytes c) qs) \<le> MAX_REQUEST_BYTES"
  by (simp add: within_request_budget_def Let_def not_less)

lemma json_from_eq_Inr [result_simps]: "json_from c v = Inr r \<longleftrightarrow> to_value c v = Inr r"
  by (simp add: json_from_def result_simps)

lemma offered_options_eq_Inr:
  "offered_options i index named opts = Inr r \<longleftrightarrow>
     r = opts \<and> options_ok opts \<and> named \<inter> set (map option_name opts) = {}"
proof (induction opts arbitrary: index named r)
  case (Cons opt opts)
  show ?case by (auto simp: result_simps Cons.IH options_ok_def)
qed (auto simp: options_ok_def)

lemma validated_options_eq_Inr [result_simps]:
  "validated_options i opts = Inr k \<longleftrightarrow> k = Choice opts \<and> kind_ok (Choice opts)"
  by (auto simp: validated_options_def result_simps offered_options_eq_Inr not_less)

lemma bounded_levels:
  "map (\<lambda>(index, level). bounded i (f index) level limit) (enumerate n levels) = map Inr named \<longleftrightarrow>
     named = levels \<and> (\<forall>l \<in> set levels. length l \<le> limit)"
  by (induction levels arbitrary: n named) (auto simp: result_simps Cons_eq_map_conv)

lemma validated_levels_eq_Inr [result_simps]:
  "validated_levels i levels = Inr k \<longleftrightarrow> k = Score levels \<and> kind_ok (Score levels)"
  by (auto simp: validated_levels_def result_simps collect_results_eq_Inr bounded_levels not_less)

lemma validated_kind_eq_Inr [result_simps]:
  "validated_kind i pk = Inr k \<longleftrightarrow> map_option kind_reads_as pk = Some k \<and> kind_ok k"
  by (auto simp: validated_kind_def result_simps split: option.splits proto_kind.splits)

lemma validated_question_eq_Inr [result_simps]:
  "validated_question c pq = Inr q \<longleftrightarrow>
     question_reads_as c pq q \<and> instructions q \<noteq> Null \<and>
     length (to_string c (instructions q)) \<le> MAX_INSTRUCTIONS_BYTES \<and> kind_ok (kind q)"
  by (cases q) (auto simp: validated_question_def question_reads_as_def result_simps Let_def)

lemma validated_questions_eq_Inr:
  "validated_questions c n asked pqs = Inr qs \<longleftrightarrow>
     list_all2 (question_reads_as c) pqs qs \<and> (\<forall>q \<in> set qs. question_ok c n q) \<and>
     distinct (map question_id qs) \<and> asked \<inter> set (map question_id qs) = {}"
proof (induction pqs arbitrary: asked qs)
  case (Cons pq pqs)
  show ?case
    by (cases qs) (auto simp: result_simps Cons.IH question_ok_def question_reads_as_def image_iff)
qed auto

lemma validated_decision_eq_Inr:
  "validated_decision c request = Inr d \<longleftrightarrow> reads_as c request d \<and> decision_ok c d"
proof -
  have "list_all2 (question_reads_as c) (req_questions request) (questions d) \<Longrightarrow>
        length (questions d) = length (req_questions request)"
    by (simp add: list_all2_lengthD)
  then show ?thesis
    by (cases d) (auto simp: validated_decision_def reads_as_def decision_ok_def Let_def
        validated_questions_eq_Inr not_less result_simps)
qed

text \<open>Every refusal of the check is the caller's to fix.\<close>

definition only_refuses :: "rpc_error + 'a \<Rightarrow> bool" where
  "only_refuses r \<longleftrightarrow> (case r of Inl e \<Rightarrow> fst e = InvalidArgument | Inr _ \<Rightarrow> True)"

lemma only_refuses_simps [simp]:
  "only_refuses (Inr x)" "only_refuses (Inl e) \<longleftrightarrow> fst e = InvalidArgument"
  by (simp_all add: only_refuses_def)

lemma only_refuses_and_then:
  "only_refuses r \<Longrightarrow> (\<And>x. only_refuses (f x)) \<Longrightarrow> only_refuses (and_then r f)"
  by (cases r) simp_all

lemma only_refuses_bounded: "only_refuses (bounded i what w limit)"
  by (simp add: bounded_def)

lemma only_refuses_transpose:
  "only_refuses (transpose_option (map_option (\<lambda>w. bounded i what w limit) s))"
  by (cases s) (simp_all add: only_refuses_and_then only_refuses_bounded)

lemma only_refuses_collect:
  "(\<And>r. r \<in> set rs \<Longrightarrow> only_refuses r) \<Longrightarrow> only_refuses (collect_results rs)"
  by (induction rs) (auto intro!: only_refuses_and_then)

lemma only_refuses_map_err: "only_refuses (map_err (\<lambda>e. (InvalidArgument, f e)) r)"
  by (cases r) simp_all

lemma only_refuses_offered: "only_refuses (offered_options i index named opts)"
proof (induction opts arbitrary: index named)
  case (Cons opt opts)
  then show ?case
    by (auto intro!: only_refuses_and_then only_refuses_bounded only_refuses_transpose)
qed simp

lemmas only_refuses_intros =
  only_refuses_and_then only_refuses_bounded only_refuses_transpose only_refuses_collect
  only_refuses_map_err only_refuses_offered

lemma only_refuses_kind: "only_refuses (validated_kind i k)"
  by (auto simp: validated_kind_def validated_options_def validated_levels_def criterion_def
      intro!: only_refuses_intros split: option.splits proto_kind.splits)

lemma only_refuses_question: "only_refuses (validated_question c q)"
  by (auto simp: validated_question_def within_json_budget_def Let_def
      intro!: only_refuses_intros only_refuses_kind)

lemma only_refuses_questions: "only_refuses (validated_questions c n asked qs)"
proof (induction qs arbitrary: asked)
  case (Cons q qs)
  then show ?case
    by (auto simp: validated_id_def within_state_and_question_budget_def Let_def
        intro!: only_refuses_intros only_refuses_question)
qed simp

lemma only_refuses_decision: "only_refuses (validated_decision c request)"
  by (auto simp: validated_decision_def within_json_budget_def within_request_budget_def Let_def
      intro!: only_refuses_intros only_refuses_questions)

text \<open>A \<^verbatim>\<open>Decide\<close> request is accepted exactly when it can be read as a decision that keeps
every published limit, ids and option names unique among them, and then as that decision; every other
request is refused with \<^verbatim>\<open>invalid_argument\<close>, before any provider is called.\<close>

lemma decide_accepts_exactly_the_budget:
  "(validated_decision c request = Inr d \<longleftrightarrow> reads_as c request d \<and> decision_ok c d) \<and>
   only_refuses (validated_decision c request)"
  by (simp add: validated_decision_eq_Inr only_refuses_decision)

end
