(* ===== verification/Provider.thy ===== *)
theory Provider
  imports Decision_Budget
begin

text \<open>
  \<^verbatim>\<open>services/llm-router/src/provider.rs\<close> and \<^verbatim>\<open>adapters/mod.rs\<close>: the three ways a provider call ends
  badly and what every adapter shares, that is the check of a key, the class of an HTTP status, the
  bounded read of a reply and the reading of a token count.

  The HTTP client is not code of the repository. A response is what the adapters see of it: a status,
  an announced length, and the chunks it delivers one after the other, the last of which may be a
  transport error.
\<close>

section \<open>provider.rs\<close>

datatype call_error = WorthRetrying string | Refused string | Final string

fun message :: "call_error \<Rightarrow> string" where
  "message (WorthRetrying m) = m"
| "message (Refused m) = m"
| "message (Final m) = m"

section \<open>HTTP as the adapters see it\<close>

record http_response =
  status :: nat
  content_length :: "nat option"
  chunks :: "(string + string) list"

record transport_error =
  is_timeout :: bool
  transport_text :: string

definition is_success :: "nat \<Rightarrow> bool" where
  "is_success code \<longleftrightarrow> 200 \<le> code \<and> code < 300"

definition is_client_error :: "nat \<Rightarrow> bool" where
  "is_client_error code \<longleftrightarrow> 400 \<le> code \<and> code < 500"

section \<open>adapters/mod.rs\<close>

definition MAX_PROVIDER_RESPONSE_BYTES :: nat where
  "MAX_PROVIDER_RESPONSE_BYTES = 4 * 1024 * 1024"
definition REQUEST_TIMEOUT :: nat where "REQUEST_TIMEOUT = 408"
definition TOO_MANY_REQUESTS :: nat where "TOO_MANY_REQUESTS = 429"
definition FIRST_SERVER_FAULT :: nat where "FIRST_SERVER_FAULT = 500"
definition BODY_SHAPED_FAULTS :: "nat list" where "BODY_SHAPED_FAULTS = [400, 409, 413, 422]"

datatype key_check = Rejected | Unreachable string

datatype client_faults = AlwaysFinal | RefusedWhenBodyShaped

definition passing_fault :: "nat \<Rightarrow> bool" where
  "passing_fault code \<longleftrightarrow>
     code = REQUEST_TIMEOUT \<or> code = TOO_MANY_REQUESTS \<or> FIRST_SERVER_FAULT \<le> code"

definition key_accepted :: "nat \<Rightarrow> key_check + unit" where
  "key_accepted code =
     (if passing_fault code then
        Inl (Unreachable (''the provider answered '' @ show_nat code @ '' on the key probe''))
      else if is_client_error code then Inl Rejected
      else Inr ())"

definition error_for_status :: "nat \<Rightarrow> string option \<Rightarrow> client_faults \<Rightarrow> call_error" where
  "error_for_status code detail faults =
     (let m = (case detail of
                 Some d \<Rightarrow> ''the provider answered '' @ show_nat code @ '': '' @ d
               | None \<Rightarrow> ''the provider answered '' @ show_nat code) in
      if passing_fault code then WorthRetrying m
      else if faults = RefusedWhenBodyShaped \<and> code \<in> set BODY_SHAPED_FAULTS then Refused m
      else Final m)"

definition unreachable_provider :: "transport_error \<Rightarrow> call_error" where
  "unreachable_provider e =
     WorthRetrying (if is_timeout e then ''the provider did not answer in time''
       else ''could not reach the provider: '' @ transport_text e)"

text \<open>A count that does not read as an \<^verbatim>\<open>i32\<close> is recorded as 0; the warning is left out.\<close>

definition as_count :: "json \<Rightarrow> int" where
  "as_count v =
     (case as_i64 v of
        Some n \<Rightarrow> if - (2 ^ 31) \<le> n \<and> n < 2 ^ 31 then n else 0
      | None \<Rightarrow> 0)"

definition provider_response_too_large :: call_error where
  "provider_response_too_large =
     WorthRetrying (''the provider response is larger than ''
       @ show_nat MAX_PROVIDER_RESPONSE_BYTES @ '' bytes'')"

definition unreadable_reply :: "string \<Rightarrow> call_error" where
  "unreadable_reply e = WorthRetrying (''the provider sent a reply we cannot read: '' @ e)"

fun read_chunks :: "string \<Rightarrow> (string + string) list \<Rightarrow> call_error + string" where
  "read_chunks bytes [] = Inr bytes"
| "read_chunks bytes (Inl e # rest) = Inl (unreadable_reply e)"
| "read_chunks bytes (Inr chunk # rest) =
     (if MAX_PROVIDER_RESPONSE_BYTES - length bytes < length chunk
      then Inl provider_response_too_large
      else read_chunks (bytes @ chunk) rest)"

definition read_provider_response :: "'v json_codec \<Rightarrow> http_response \<Rightarrow> call_error + json" where
  "read_provider_response c response =
     (if (case content_length response of None \<Rightarrow> False | Some n \<Rightarrow> MAX_PROVIDER_RESPONSE_BYTES < n)
      then Inl provider_response_too_large
      else and_then (read_chunks [] (chunks response)) (\<lambda>bytes.
           map_err unreadable_reply (from_slice c bytes)))"

section \<open>What the shared parts promise\<close>

lemma error_for_status_Refused:
  "error_for_status code detail faults = Refused m \<Longrightarrow>
     faults = RefusedWhenBodyShaped \<and> code \<in> set BODY_SHAPED_FAULTS"
  by (auto simp: error_for_status_def Let_def split: if_splits)

lemma body_shaped_not_passing: "code \<in> set BODY_SHAPED_FAULTS \<Longrightarrow> \<not> passing_fault code"
  by (auto simp: BODY_SHAPED_FAULTS_def passing_fault_def REQUEST_TIMEOUT_def TOO_MANY_REQUESTS_def
      FIRST_SERVER_FAULT_def)

lemma error_for_status_body_shaped:
  "code \<in> set BODY_SHAPED_FAULTS \<Longrightarrow> \<exists>m. error_for_status code detail RefusedWhenBodyShaped = Refused m"
  by (simp add: error_for_status_def Let_def body_shaped_not_passing)

lemma body_shaped_not_success: "code \<in> set BODY_SHAPED_FAULTS \<Longrightarrow> \<not> is_success code"
  by (auto simp: BODY_SHAPED_FAULTS_def is_success_def)

text \<open>The buffer never exceeds the limit, and what is read is all that was delivered.\<close>

lemma read_chunks_Inr:
  assumes "read_chunks bytes cs = Inr r" and "length bytes \<le> MAX_PROVIDER_RESPONSE_BYTES"
  shows "length r \<le> MAX_PROVIDER_RESPONSE_BYTES \<and>
         (\<exists>ps. cs = map Inr ps \<and> r = bytes @ concat ps)"
  using assms
proof (induction bytes cs rule: read_chunks.induct)
  case (1 bytes)
  then show ?case by simp
next
  case (3 bytes chunk rest)
  then have room: "length (bytes @ chunk) \<le> MAX_PROVIDER_RESPONSE_BYTES"
    and rest: "\<not> MAX_PROVIDER_RESPONSE_BYTES - length bytes < length chunk"
      "read_chunks (bytes @ chunk) rest = Inr r"
    by (auto split: if_splits)
  from 3(1) [OF rest room] obtain ps where "rest = map Inr ps" and "r = (bytes @ chunk) @ concat ps"
    and "length r \<le> MAX_PROVIDER_RESPONSE_BYTES" by blast
  then show ?case by (intro conjI exI [of _ "chunk # ps"]) simp_all
qed simp

lemma read_chunks_complete:
  "length bytes + length (concat ps) \<le> MAX_PROVIDER_RESPONSE_BYTES \<Longrightarrow>
     read_chunks bytes (map Inr ps) = Inr (bytes @ concat ps)"
  by (induction ps arbitrary: bytes) auto

lemma read_chunks_not_refused:
  "read_chunks bytes cs = Inl e \<Longrightarrow> \<exists>m. e = WorthRetrying m"
  by (induction bytes cs rule: read_chunks.induct)
    (auto simp: unreadable_reply_def provider_response_too_large_def split: if_splits)

lemma read_provider_response_error:
  assumes "read_provider_response c response = Inl e"
  shows "\<exists>m. e = WorthRetrying m"
  using assms read_chunks_not_refused [of "[]" "chunks response" e]
  by (auto simp: read_provider_response_def and_then_def map_err_def unreadable_reply_def
      provider_response_too_large_def split: if_splits sum.splits)

end
