(* ===== verification/Text_Search.thy ===== *)
theory Text_Search
  imports Prelude "HOL-Library.Sublist"
begin

text \<open>
  The operations of \<^verbatim>\<open>str\<close> that the sources use, on the bytes of the string: its characters, \<^verbatim>\<open>contains\<close>,
  \<^verbatim>\<open>replace\<close> (leftmost matches that do not overlap), \<^verbatim>\<open>split\<close> on an ASCII character, \<^verbatim>\<open>lines\<close>, and the
  quoting of \<^verbatim>\<open>Debug\<close>. Shown: what a replacement can contain, and that a text whose pattern shares no
  character with its replacement no longer contains the pattern.
\<close>

section \<open>Searching and replacing\<close>

text \<open>No caller passes an empty pattern, for which \<^verbatim>\<open>replace\<close> would insert at every boundary.\<close>

function replace_all :: "string \<Rightarrow> string \<Rightarrow> string \<Rightarrow> string" where
  "replace_all pat rep [] = []"
| "replace_all pat rep (c # cs) =
     (if pat \<noteq> [] \<and> prefix pat (c # cs) then rep @ replace_all pat rep (drop (length pat) (c # cs))
      else c # replace_all pat rep cs)"
  by pat_completeness auto
termination
  by (relation "measure (length \<circ> snd \<circ> snd)") (auto simp: neq_Nil_conv)

fun contains_text :: "string \<Rightarrow> string \<Rightarrow> bool" where
  "contains_text pat [] = (pat = [])"
| "contains_text pat (c # cs) = (prefix pat (c # cs) \<or> contains_text pat cs)"

lemma contains_text_iff: "contains_text pat s \<longleftrightarrow> sublist pat s"
  by (induction s) (auto simp: sublist_Cons_right)

fun split_on :: "char \<Rightarrow> string \<Rightarrow> string list" where
  "split_on c [] = [[]]"
| "split_on c (x # xs) =
     (if x = c then [] # split_on c xs
      else (case split_on c xs of [] \<Rightarrow> [[x]] | p # ps \<Rightarrow> (x # p) # ps))"

text \<open>\<^verbatim>\<open>str::lines\<close> drops the empty piece after a final line feed; the carriage return before a line feed
  is white space, which the one caller trims.\<close>

definition lines_of :: "string \<Rightarrow> string list" where
  "lines_of s = (let ls = split_on (CHR 0x0A) s in if last ls = [] then butlast ls else ls)"

section \<open>Characters\<close>

text \<open>\<^verbatim>\<open>str::chars().count()\<close>: the bytes that do not continue a character.\<close>

definition is_continuation :: "char \<Rightarrow> bool" where
  "is_continuation ch \<longleftrightarrow> (of_char ch :: nat) div 64 = 2"

definition char_count :: "string \<Rightarrow> nat" where
  "char_count s = length (filter (\<lambda>ch. \<not> is_continuation ch) s)"

function utf8_chars :: "string \<Rightarrow> string list" where
  "utf8_chars [] = []"
| "utf8_chars (b # bs) = (b # takeWhile is_continuation bs) # utf8_chars (dropWhile is_continuation bs)"
  by pat_completeness auto
termination by (relation "measure length") (auto simp: length_dropWhile_le le_imp_less_Suc)

definition starts_with :: "string \<Rightarrow> string \<Rightarrow> bool" where
  "starts_with s opening \<longleftrightarrow> take (length opening) s = opening"

definition trim_start :: "string \<Rightarrow> string" where
  "trim_start s = dropWhile is_whitespace s"

definition ascii_lower :: "char \<Rightarrow> char" where
  "ascii_lower ch =
     (if 65 \<le> (of_char ch :: nat) \<and> (of_char ch :: nat) \<le> 90 then char_of ((of_char ch :: nat) + 32) else ch)"

definition eq_ignore_ascii_case :: "string \<Rightarrow> string \<Rightarrow> bool" where
  "eq_ignore_ascii_case s t \<longleftrightarrow> map ascii_lower s = map ascii_lower t"

definition strip_prefix :: "string \<Rightarrow> string \<Rightarrow> string option" where
  "strip_prefix pre s = (if starts_with s pre then Some (drop (length pre) s) else None)"

definition split_once :: "char \<Rightarrow> string \<Rightarrow> (string \<times> string) option" where
  "split_once ch s =
     (if ch \<in> set s
      then Some (takeWhile (\<lambda>x. x \<noteq> ch) s, tl (dropWhile (\<lambda>x. x \<noteq> ch) s)) else None)"

section \<open>Numbers\<close>

text \<open>\<^verbatim>\<open>str::parse::<u32>\<close>: an optional plus sign, then at least one digit, in range.\<close>

definition ascii_digit :: "char \<Rightarrow> bool" where
  "ascii_digit ch \<longleftrightarrow> 48 \<le> (of_char ch :: nat) \<and> (of_char ch :: nat) \<le> 57"

definition digits_value :: "string \<Rightarrow> nat" where
  "digits_value ds = foldl (\<lambda>n ch. 10 * n + (of_char ch - 48)) 0 ds"

definition parse_u32 :: "string \<Rightarrow> u32 option" where
  "parse_u32 s =
     (let ds = (case s of ch # rest \<Rightarrow> if ch = CHR ''+'' then rest else s | [] \<Rightarrow> []) in
      if ds \<noteq> [] \<and> list_all ascii_digit ds \<and> digits_value ds < 2 ^ 32
      then Some (of_nat (digits_value ds)) else None)"

text \<open>\<^verbatim>\<open>str::parse::<i64>\<close>.\<close>

definition parse_i64 :: "string \<Rightarrow> int option" where
  "parse_i64 s =
     (let (sign, ds) = (case s of
            ch # rest \<Rightarrow> if ch = CHR ''+'' then (1, rest) else if ch = CHR ''-'' then (- 1, rest) else (1, s)
          | [] \<Rightarrow> (1, []));
          n = sign * int (digits_value ds) in
      if ds \<noteq> [] \<and> list_all ascii_digit ds \<and> - (2 ^ 63) \<le> n \<and> n < 2 ^ 63 then Some n else None)"

text \<open>\<^verbatim>\<open>str::parse::<usize>\<close>, on 64 bits.\<close>

definition parse_usize :: "string \<Rightarrow> nat option" where
  "parse_usize s =
     (let ds = (case s of ch # rest \<Rightarrow> if ch = CHR ''+'' then rest else s | [] \<Rightarrow> []) in
      if ds \<noteq> [] \<and> list_all ascii_digit ds \<and> digits_value ds < 2 ^ 64 then Some (digits_value ds) else None)"

section \<open>Quoting\<close>

text \<open>\<^verbatim>\<open>{:?}\<close> of a string. The escapes of the control characters other than these three and of the
  unprintable characters above ASCII are left out.\<close>

fun escaped :: "char \<Rightarrow> string" where
  "escaped c =
     (if c = CHR 0x22 then [CHR 0x5C, CHR 0x22]
      else if c = CHR 0x5C then [CHR 0x5C, CHR 0x5C]
      else if c = CHR 0x0A then [CHR 0x5C, CHR ''n'']
      else if c = CHR 0x0D then [CHR 0x5C, CHR ''r'']
      else if c = CHR 0x09 then [CHR 0x5C, CHR ''t'']
      else [c])"

definition quoted :: "string \<Rightarrow> string" where
  "quoted s = [CHR 0x22] @ concat (map escaped s) @ [CHR 0x22]"

section \<open>What a replacement contains\<close>

lemma split_on_not_Nil [simp]: "split_on c s \<noteq> []"
  by (induction s) (auto split: list.splits)

lemma length_split_on: "length (split_on c s) = Suc (length (filter ((=) c) s))"
  by (induction s) (auto split: list.splits)

lemma set_replace_all: "set (replace_all pat rep s) \<subseteq> set s \<union> set rep"
proof (induction pat rep s rule: replace_all.induct)
  case (2 pat rep c cs)
  show ?case
  proof (cases "pat \<noteq> [] \<and> prefix pat (c # cs)")
    case True
    have "set (drop (length pat) (c # cs)) \<subseteq> set (c # cs)" by (rule set_drop_subset)
    with 2(1) [OF True] True show ?thesis by auto
  qed (use 2 in auto)
qed simp

lemma count_replace_all:
  "x \<notin> set rep \<Longrightarrow> length (filter ((=) x) (replace_all pat rep s)) \<le> length (filter ((=) x) s)"
proof (induction pat rep s rule: replace_all.induct)
  case (2 pat rep c cs)
  show ?case
  proof (cases "pat \<noteq> [] \<and> prefix pat (c # cs)")
    case True
    have "length (filter ((=) x) (drop n ys)) \<le> length (filter ((=) x) ys)" for n ys
      by (metis append_take_drop_id filter_append le_add2 length_append)
    from this [of "length pat" "c # cs"] 2(1) [OF True 2(3)]
    have "length (filter ((=) x) (replace_all pat rep (drop (length pat) (c # cs))))
      \<le> length (filter ((=) x) (c # cs))" by (rule order.trans [rotated])
    moreover have "filter ((=) x) rep = []" using 2(3) by (auto simp: filter_empty_conv)
    ultimately show ?thesis using True by simp
  qed (use 2 in auto)
qed simp

lemma replace_all_absent: "\<not> sublist pat s \<Longrightarrow> replace_all pat rep s = s"
  by (induction pat rep s rule: replace_all.induct) (auto simp: sublist_Cons_right)

text \<open>
  A text over a marked alphabet: a pattern that avoids the characters of the replacement can only sit where
  nothing was replaced, so replacing makes no new occurrence of it, and leaves none of the pattern replaced.
\<close>

lemma prefix_append_avoid:
  assumes "prefix t (r @ s)" and "t \<noteq> []" and "r \<noteq> []" and "set t \<inter> set r = {}"
  shows False
  using assms by (cases t; cases r) auto

lemma sublist_append_avoid:
  assumes "sublist t (r @ s)" and "t \<noteq> []" and "set t \<inter> set r = {}"
  shows "sublist t s"
  using assms(1,3)
proof (induction r)
  case (Cons c r)
  from Cons.prems have "prefix t (c # r @ s) \<or> sublist t (r @ s)" by (simp add: sublist_Cons_right)
  then show ?case
  proof
    assume "prefix t (c # r @ s)"
    then have False using prefix_append_avoid [of t "c # r" s] assms(2) Cons.prems(2) by simp
    then show ?thesis ..
  qed (use Cons in auto)
qed simp

lemma prefix_of_replace_all:
  assumes "prefix t (replace_all pat rep s)" and "set t \<inter> set rep = {}" and "rep \<noteq> []"
  shows "prefix t s"
  using assms
proof (induction pat rep s arbitrary: t rule: replace_all.induct)
  case (2 pat rep c cs)
  show ?case
  proof (cases "pat \<noteq> [] \<and> prefix pat (c # cs)")
    case True
    then have "prefix t (rep @ replace_all pat rep (drop (length pat) (c # cs)))" using 2(3) by simp
    then have "t = []" using prefix_append_avoid 2(4,5) by blast
    then show ?thesis by simp
  next
    case False
    show ?thesis
    proof (cases t)
      case (Cons a t')
      then show ?thesis using 2(2) [OF False, of t'] 2(3-5) False by auto
    qed simp
  qed
qed simp

lemma replace_all_makes_no_new:
  assumes "sublist t (replace_all pat rep s)" and "set t \<inter> set rep = {}" and "rep \<noteq> []"
  shows "sublist t s"
  using assms
proof (induction pat rep s rule: replace_all.induct)
  case (2 pat rep c cs)
  show ?case
  proof (cases "t = []")
    case False
    show ?thesis
    proof (cases "pat \<noteq> [] \<and> prefix pat (c # cs)")
      case True
      then have "sublist t (rep @ replace_all pat rep (drop (length pat) (c # cs)))" using 2(3) by simp
      then have "sublist t (replace_all pat rep (drop (length pat) (c # cs)))"
        using sublist_append_avoid False 2(4) by blast
      then have "sublist t (drop (length pat) (c # cs))" using 2(1) [OF True] 2(4,5) by simp
      then show ?thesis by (metis sublist_drop sublist_order.order.trans)
    next
      case no: False
      from 2(3) no have "prefix t (replace_all pat rep (c # cs)) \<or> sublist t (replace_all pat rep cs)"
        by (auto simp: sublist_Cons_right)
      then show ?thesis
        using prefix_of_replace_all [of t pat rep "c # cs"] 2(2) [OF no] 2(4,5)
        by (auto simp: sublist_Cons_right)
    qed
  qed simp
qed simp

lemma replace_all_removes:
  assumes "pat \<noteq> []" and "set pat \<inter> set rep = {}" and "rep \<noteq> []"
  shows "\<not> sublist pat (replace_all pat rep s)"
  using assms
proof (induction pat rep s rule: replace_all.induct)
  case (2 pat rep c cs)
  show ?case
  proof (cases "prefix pat (c # cs)")
    case True
    then have "\<not> sublist pat (replace_all pat rep (drop (length pat) (c # cs)))" using 2(1,3-5) by simp
    then have "\<not> sublist pat (rep @ replace_all pat rep (drop (length pat) (c # cs)))"
      using sublist_append_avoid 2(3,4) by blast
    then show ?thesis using True 2(3) by simp
  next
    case False
    then have "\<not> sublist pat (replace_all pat rep cs)" using 2(2-5) by simp
    moreover have "\<not> prefix pat (replace_all pat rep (c # cs))"
      using prefix_of_replace_all [OF _ 2(4,5)] False by blast
    ultimately show ?thesis using False by (simp add: sublist_Cons_right)
  qed
qed simp

section \<open>Decimal numbers read back\<close>

lemma digits_value_snoc: "digits_value (ds @ [ch]) = 10 * digits_value ds + (of_char ch - 48)"
  by (simp add: digits_value_def)

lemma of_char_digit: "n < 10 \<Longrightarrow> (of_char (char_of (48 + n)) :: nat) = 48 + n"
  by (simp add: of_char_of)

lemma show_nat_digits: "list_all ascii_digit (show_nat n) \<and> digits_value (show_nat n) = n \<and> show_nat n \<noteq> []"
proof (induction n rule: show_nat.induct)
  case (1 n)
  show ?case
  proof (cases "n < 10")
    case True
    then show ?thesis by (subst (1 2 3) show_nat.simps) (simp add: ascii_digit_def of_char_digit digits_value_def)
  next
    case False
    have d: "n mod 10 < 10" by simp
    then have "ascii_digit (char_of (48 + n mod 10))" unfolding ascii_digit_def of_char_digit [OF d] by simp
    with of_char_digit [OF d] False 1 show ?thesis
      by (subst (1 2 3) show_nat.simps) (simp add: digits_value_snoc)
  qed
qed

lemma parse_show_i64:
  assumes "- (2 ^ 63) \<le> i" and "i < 2 ^ 63"
  shows "parse_i64 (show_int i) = Some i"
proof (cases "i < 0")
  case True
  with assms show_nat_digits [of "nat (- i)"] show ?thesis by (simp add: parse_i64_def show_int_def)
next
  case False
  obtain ch rest where s: "show_nat (nat i) = ch # rest" using show_nat_digits [of "nat i"] by (cases "show_nat (nat i)") auto
  have "ascii_digit ch" using show_nat_digits [of "nat i"] s by simp
  then have "ch \<noteq> CHR ''+''" "ch \<noteq> CHR ''-''" by (auto simp: ascii_digit_def)
  with False assms show_nat_digits [of "nat i"] s show ?thesis by (simp add: parse_i64_def show_int_def)
qed

end
