(* ===== verification/System_One.thy ===== *)
theory System_One
  imports Provider Text_Search "HOL-Library.Char_ord" "HOL-Library.List_Lexorder"
begin

text \<open>
  \<^verbatim>\<open>services/llm-router/src/adapters/system_one/\<close>: the body a decision is sent as, the reading of
  the provider's reply against the questions that produced it, and the adapter that composes them.
  \<^verbatim>\<open>serde_json\<close> keeps an object as a map ordered by key, so an iteration over its entries visits the
  keys in ascending order of their bytes. The key order inside the text that is sent is not
  represented: ids and option names are unique in every decision that reaches the adapter.
\<close>

section \<open>body.rs\<close>

fun type_name :: "question_kind \<Rightarrow> string" where
  "type_name (Noul _ _) = ''noul''"
| "type_name (Choice _) = ''choice''"
| "type_name (Score _) = ''score''"

definition optional_string :: "string option \<Rightarrow> json" where
  "optional_string s = (case s of None \<Rightarrow> Null | Some t \<Rightarrow> String t)"

definition noul_criteria :: "string option \<Rightarrow> string option \<Rightarrow> (string \<times> json) list" where
  "noul_criteria when_true when_false =
     (case when_true of None \<Rightarrow> [] | Some t \<Rightarrow> [(''true'', String t)]) @
     (case when_false of None \<Rightarrow> [] | Some f \<Rightarrow> [(''false'', String f)])"

definition asked_criteria :: "question_kind \<Rightarrow> (string \<times> json) list" where
  "asked_criteria k =
     (case k of
        Noul t f \<Rightarrow>
          if noul_criteria t f = [] then [] else [(''criteria'', json_object (noul_criteria t f))]
      | Choice options \<Rightarrow>
          [(''criteria'', json_object
             (map (\<lambda>opt. (option_name opt, optional_string (option_description opt))) options))]
      | Score levels \<Rightarrow> [(''criteria'', Array (map String levels))])"

definition asked_question :: "question \<Rightarrow> json" where
  "asked_question q =
     json_object ([(''type'', String (type_name (kind q))), (''instructions'', instructions q)] @
       asked_criteria (kind q))"

definition decide_body :: "string \<Rightarrow> decision \<Rightarrow> json" where
  "decide_body model d =
     json_object
       [(''state'', decision_state d),
        (''model'', String model),
        (''questions'', json_object (map (\<lambda>q. (question_id q, asked_question q)) (questions d)))]"

definition audited_criteria :: "question_kind \<Rightarrow> (string \<times> json) list" where
  "audited_criteria k =
     (case k of
        Noul t f \<Rightarrow>
          if noul_criteria t f = [] then [] else [(''criteria'', json_object (noul_criteria t f))]
      | Choice options \<Rightarrow>
          [(''criteria'', Array (map (\<lambda>opt. json_object
             [(''name'', String (option_name opt)),
              (''description'', optional_string (option_description opt))]) options))]
      | Score levels \<Rightarrow> [(''criteria'', Array (map String levels))])"

definition audited_question :: "question \<Rightarrow> json" where
  "audited_question q =
     json_object ([(''id'', String (question_id q)), (''type'', String (type_name (kind q))),
       (''instructions'', instructions q)] @ audited_criteria (kind q))"

definition audit_body :: "string \<Rightarrow> decision \<Rightarrow> json" where
  "audit_body model d =
     json_object
       [(''model'', String model),
        (''state'', decision_state d),
        (''questions'', Array (map audited_question (questions d)))]"

section \<open>answers.rs\<close>

datatype given =
    NoulAnswer rat
  | ChoiceAnswer string "(string, rat) fmap" rat
  | ScoreAnswer rat "(u32, string) fmap" "(u32, rat) fmap" rat

record typed_answer =
  answer_id :: string
  given_answer :: given

record verdict =
  model_used :: string
  answers :: "typed_answer list"
  tokens_in :: int
  tokens_out :: int
  sent :: json
  reply :: json

record model_card =
  card_name :: string
  card_description :: string
  card_release_date :: string

definition model_card_of :: "json \<Rightarrow> model_card" where
  "model_card_of m =
     \<lparr>card_name = str_or_empty (at_key m ''name''),
      card_description = str_or_empty (at_key m ''description''),
      card_release_date = str_or_empty (at_key m ''release_date'')\<rparr>"

text \<open>The entries of an object in iteration order, and \<^verbatim>\<open>collect\<close> into a map: the last entry of
a key is the one kept.\<close>

definition entries :: "(string, json) fmap \<Rightarrow> (string \<times> json) list" where
  "entries m = map (\<lambda>k. (k, the (fmlookup m k))) (sorted_list_of_fset (fmdom m))"

definition collect_map :: "('k \<times> 'a) list \<Rightarrow> ('k, 'a) fmap" where
  "collect_map kvs = fold (\<lambda>(k, v). fmupd k v) kvs fmempty"

abbreviation answered :: "string \<Rightarrow> string" where
  "answered i \<equiv> ''the provider answered '' @ i @ '' with ''"

definition given_value :: "json \<Rightarrow> string \<Rightarrow> json option" where
  "given_value a field = (case get a field of None \<Rightarrow> None | Some v \<Rightarrow> if is_null v then None else Some v)"

definition caller_legend :: "string list \<Rightarrow> (u32 \<times> string) list" where
  "caller_legend levels = map (\<lambda>(i, level). (clamp_to_word i, level)) (enumerate 0 levels)"

definition offered :: "choice_option list \<Rightarrow> string \<Rightarrow> bool" where
  "offered options nm \<longleftrightarrow> list_ex (\<lambda>opt. option_name opt = nm) options"

definition chosen_option :: "string \<Rightarrow> json \<Rightarrow> choice_option list \<Rightarrow> call_error + string" where
  "chosen_option i v options =
     (case as_str v of
        None \<Rightarrow> Inl (Final (answered i @ ''no readable choice''))
      | Some chosen \<Rightarrow>
          if offered options chosen then Inr chosen
          else Inl (Final (answered i @ chosen @ '', which was never offered'')))"

definition read_number :: "string \<Rightarrow> string \<Rightarrow> json \<Rightarrow> call_error + rat" where
  "read_number i field v = ok_or (Final (answered i @ ''no readable '' @ field)) (as_f64 v)"

definition probability :: "'v json_codec \<Rightarrow> string \<Rightarrow> string \<Rightarrow> json \<Rightarrow> call_error + rat" where
  "probability c i field v =
     and_then (read_number i field v) (\<lambda>x.
     if 0 \<le> x \<and> x \<le> 1 then Inr x
     else Inl (Final (answered i @ ''a '' @ field @ '' of '' @ show_f64 c x
       @ '', which is not between 0 and 1'')))"

definition scored :: "'v json_codec \<Rightarrow> string \<Rightarrow> json \<Rightarrow> nat \<Rightarrow> call_error + rat" where
  "scored c i v levels =
     and_then (read_number i ''score'' v) (\<lambda>x.
     let highest = of_nat (unat (clamp_to_word (levels - 1) :: u32)) in
     if 0 \<le> x \<and> x \<le> highest then Inr x
     else Inl (Final (answered i @ ''a score of '' @ show_f64 c x @ '', outside the 0 to ''
       @ show_f64 c highest @ '' scale of the '' @ show_nat levels
       @ '' levels it was asked about'')))"

definition confidence :: "'v json_codec \<Rightarrow> string \<Rightarrow> json option \<Rightarrow> call_error + rat" where
  "confidence c i v =
     (case v of None \<Rightarrow> Inr 0 | Some w \<Rightarrow> probability c i ''confidence'' w)"

definition object_field ::
  "string \<Rightarrow> string \<Rightarrow> json option \<Rightarrow> call_error + (string, json) fmap option" where
  "object_field i field v =
     (case v of
        None \<Rightarrow> Inr None
      | Some w \<Rightarrow> ok_or (Final (answered i @ ''a '' @ field @ '' that is not an object''))
                   (map_option Some (as_object w)))"

definition levelled_entry ::
  "'v json_codec \<Rightarrow> string \<Rightarrow> nat \<Rightarrow> string \<times> json \<Rightarrow> call_error + u32 \<times> rat" where
  "levelled_entry c i levels = (\<lambda>(level, weight).
     and_then (ok_or (Final (answered i @ ''a level '' @ level @ '' that is not a number''))
                (parse_u32 level)) (\<lambda>n.
     if levels \<le> unat n then
       Inl (Final (answered i @ ''a level '' @ show_nat (unat n) @ '', past the ''
         @ show_nat levels @ '' levels it was asked about''))
     else and_then (probability c i ''probability'' weight) (\<lambda>p. Inr (n, p))))"

definition levelled_probabilities ::
  "'v json_codec \<Rightarrow> string \<Rightarrow> json option \<Rightarrow> nat \<Rightarrow> call_error + (u32 \<times> rat) list" where
  "levelled_probabilities c i v levels =
     and_then (object_field i ''probabilities'' v) (\<lambda>found.
     case found of
       None \<Rightarrow> Inr []
     | Some m \<Rightarrow> collect_results (map (levelled_entry c i levels) (entries m)))"

definition named_entry ::
  "'v json_codec \<Rightarrow> string \<Rightarrow> choice_option list \<Rightarrow> string \<times> json \<Rightarrow> call_error + string \<times> rat" where
  "named_entry c i options = (\<lambda>(nm, weight).
     if \<not> offered options nm then
       Inl (Final (answered i @ ''a probability for '' @ nm @ '', which was never offered''))
     else and_then (probability c i ''probability'' weight) (\<lambda>p. Inr (nm, p)))"

definition named_probabilities ::
  "'v json_codec \<Rightarrow> string \<Rightarrow> json option \<Rightarrow> choice_option list \<Rightarrow>
   call_error + (string \<times> rat) list" where
  "named_probabilities c i v options =
     and_then (object_field i ''probabilities'' v) (\<lambda>found.
     case found of
       None \<Rightarrow> Inr []
     | Some m \<Rightarrow> collect_results (map (named_entry c i options) (entries m)))"

definition read_given ::
  "'v json_codec \<Rightarrow> string \<Rightarrow> question_kind \<Rightarrow> json \<Rightarrow> call_error + given" where
  "read_given c i k a =
     (let reported = str_or_empty (at_key a ''type'') in
      if reported \<noteq> type_name k then
        Inl (Final (answered i @ ''a '' @ reported @ '', not the '' @ type_name k @ '' it was asked''))
      else case k of
        Noul _ _ \<Rightarrow>
          and_then (probability c i ''noul'' (at_key a ''noul'')) (\<lambda>x. Inr (NoulAnswer x))
      | Choice options \<Rightarrow>
          and_then (chosen_option i (at_key a ''choice'') options) (\<lambda>chosen.
          and_then (named_probabilities c i (given_value a ''probabilities'') options) (\<lambda>ps.
          and_then (confidence c i (given_value a ''confidence'')) (\<lambda>conf.
          Inr (ChoiceAnswer chosen (collect_map ps) conf))))
      | Score levels \<Rightarrow>
          and_then (scored c i (at_key a ''score'') (length levels)) (\<lambda>x.
          and_then (levelled_probabilities c i (given_value a ''probabilities'') (length levels)) (\<lambda>ps.
          and_then (confidence c i (given_value a ''confidence'')) (\<lambda>conf.
          Inr (ScoreAnswer x (collect_map (caller_legend levels)) (collect_map ps) conf)))))"

definition read_answer :: "'v json_codec \<Rightarrow> question \<Rightarrow> json \<Rightarrow> call_error + typed_answer" where
  "read_answer c q a =
     and_then (read_given c (question_id q) (kind q) a) (\<lambda>g.
     Inr \<lparr>answer_id = question_id q, given_answer = g\<rparr>)"

fun read_answers ::
  "'v json_codec \<Rightarrow> (string, json) fmap \<Rightarrow> question list \<Rightarrow> call_error + typed_answer list" where
  "read_answers c m [] = Inr []"
| "read_answers c m (q # qs) =
     (case fmlookup m (question_id q) of
        None \<Rightarrow> Inl (Final (''the provider left '' @ question_id q @ '' unanswered''))
      | Some a \<Rightarrow>
          and_then (read_answer c q a) (\<lambda>r.
          and_then (read_answers c m qs) (\<lambda>rs. Inr (r # rs))))"

definition read_verdict ::
  "'v json_codec \<Rightarrow> json \<Rightarrow> question list \<Rightarrow> json \<Rightarrow> call_error + verdict" where
  "read_verdict c body qs was_sent =
     (case as_object (at_key body ''answers'') of
        None \<Rightarrow> Inl (WorthRetrying ''the reply carried no answers'')
      | Some m \<Rightarrow>
          (case List.find (\<lambda>i. \<not> list_ex (\<lambda>q. question_id q = i) qs) (map fst (entries m)) of
             Some unknown \<Rightarrow>
               Inl (Final (''the provider answered '' @ unknown @ '', which was never asked''))
           | None \<Rightarrow>
               and_then (read_answers c m qs) (\<lambda>given.
               Inr \<lparr>model_used = str_or_empty (at_key body ''model''),
                    answers = given,
                    tokens_in = as_count (at_key (at_key body ''usage'') ''input_tokens''),
                    tokens_out = as_count (at_key (at_key body ''usage'') ''output_tokens''),
                    sent = was_sent,
                    reply = body\<rparr>)))"

section \<open>mod.rs: the adapter\<close>

definition DECIDE_PATH :: string where "DECIDE_PATH = ''/v1/systemone''"
definition MODELS_PATH :: string where "MODELS_PATH = ''/v1/models''"

text \<open>Durations are counted in nanoseconds, as instants are.\<close>

definition millis :: "int \<Rightarrow> int" where "millis n = n * 1000000"

definition SYSTEM_ONE_TIMEOUT :: int where "SYSTEM_ONE_TIMEOUT = millis 1500"
definition ROOM_TO_RECORD_THE_ATTEMPT :: int where "ROOM_TO_RECORD_THE_ATTEMPT = millis 400"
definition TOO_LITTLE_TIME_IS_STILL_ONE_ATTEMPT :: int where
  "TOO_LITTLE_TIME_IS_STILL_ONE_ATTEMPT = millis 100"

record system_one =
  base_url :: string
  api_key :: string
  ceiling :: int

definition new_system_one :: "string \<Rightarrow> string \<Rightarrow> int \<Rightarrow> system_one" where
  "new_system_one url key limit =
     \<lparr>base_url = rev (dropWhile (\<lambda>ch. ch = CHR ''/'') (rev url)), api_key = key, ceiling = limit\<rparr>"

definition call_within :: "system_one \<Rightarrow> instant \<Rightarrow> instant option \<Rightarrow> int" where
  "call_within s now deadline =
     (case deadline of
        None \<Rightarrow> ceiling s
      | Some d \<Rightarrow>
          max (min (max 0 (max 0 (d - now) - ROOM_TO_RECORD_THE_ATTEMPT)) (ceiling s))
            TOO_LITTLE_TIME_IS_STILL_ONE_ATTEMPT)"

text \<open>A request as the client sends it; what comes back is the parameter \<open>send\<close>.\<close>

record http_request =
  url :: string
  bearer :: string
  timeout :: "int option"
  request_json :: "json option"

type_synonym http = "http_request \<Rightarrow> transport_error + http_response"

definition verify_key :: "http \<Rightarrow> system_one \<Rightarrow> key_check + unit" where
  "verify_key send s =
     (case send \<lparr>url = base_url s @ MODELS_PATH, bearer = api_key s, timeout = None,
                 request_json = None\<rparr> of
        Inl e \<Rightarrow> Inl (Unreachable (transport_text e))
      | Inr response \<Rightarrow> key_accepted (status response))"

definition location_step :: "'v json_codec \<Rightarrow> json \<Rightarrow> string" where
  "location_step c step = (case as_str step of Some s \<Rightarrow> s | None \<Rightarrow> to_string c step)"

definition validation_failure :: "'v json_codec \<Rightarrow> json \<Rightarrow> string" where
  "validation_failure c f =
     (let location = (case as_array (at_key f ''loc'') of
                        Some path \<Rightarrow> join ''.'' (map (location_step c) path)
                      | None \<Rightarrow> []);
          said = str_or_empty (at_key f ''msg'') in
      if location = [] then said
      else if said = [] then location
      else location @ '': '' @ said)"

definition detailed :: "'v json_codec \<Rightarrow> json \<Rightarrow> string option" where
  "detailed c detail =
     (case as_object detail of
        Some refusal \<Rightarrow>
          Option.bind (case fmlookup refusal ''message'' of
                         Some m \<Rightarrow> Some m
                       | None \<Rightarrow> fmlookup refusal ''error_type'') as_str
      | None \<Rightarrow>
          Option.bind (as_array detail) (\<lambda>fs.
          if fs = [] then None else Some (join ''; '' (map (validation_failure c) fs))))"

definition provider_message :: "'v json_codec \<Rightarrow> json \<Rightarrow> string option" where
  "provider_message c body =
     (case detailed c (at_key body ''detail'') of
        Some m \<Rightarrow> Some m
      | None \<Rightarrow> find_map (\<lambda>field. as_str (at_key body field)) [''error'', ''message'', ''detail''])"

definition failure :: "'v json_codec \<Rightarrow> http_response \<Rightarrow> client_faults \<Rightarrow> call_error" where
  "failure c response faults =
     (let detail = (case read_provider_response c response of
                      Inr body \<Rightarrow> provider_message c body
                    | Inl _ \<Rightarrow> None) in
      error_for_status (status response) detail faults)"

definition ask_request :: "system_one \<Rightarrow> instant \<Rightarrow> string \<Rightarrow> decision \<Rightarrow> http_request" where
  "ask_request s now model d =
     \<lparr>url = base_url s @ DECIDE_PATH, bearer = api_key s,
      timeout = Some (call_within s now (caller_stops_waiting_at d)),
      request_json = Some (decide_body model d)\<rparr>"

definition ask ::
  "'v json_codec \<Rightarrow> http \<Rightarrow> system_one \<Rightarrow> instant \<Rightarrow> string \<Rightarrow> decision \<Rightarrow> call_error + json" where
  "ask c send s now model d =
     and_then (map_err unreachable_provider (send (ask_request s now model d))) (\<lambda>response.
     if \<not> is_success (status response) then Inl (failure c response RefusedWhenBodyShaped)
     else read_provider_response c response)"

record not_decided =
  not_sent :: json
  decide_error :: call_error

definition system_one_decide ::
  "'v json_codec \<Rightarrow> http \<Rightarrow> system_one \<Rightarrow> instant \<Rightarrow> string \<Rightarrow> decision \<Rightarrow> not_decided + verdict" where
  "system_one_decide c send s now model d =
     (let body_sent = audit_body model d in
      map_err (\<lambda>e. \<lparr>not_sent = body_sent, decide_error = e\<rparr>)
        (and_then (ask c send s now model d) (\<lambda>body. read_verdict c body (questions d) body_sent)))"

definition system_one_models ::
  "'v json_codec \<Rightarrow> http \<Rightarrow> system_one \<Rightarrow> call_error + model_card list" where
  "system_one_models c send s =
     and_then (map_err unreachable_provider
       (send \<lparr>url = base_url s @ MODELS_PATH, bearer = api_key s, timeout = None,
              request_json = None\<rparr>)) (\<lambda>response.
     if \<not> is_success (status response) then Inl (failure c response AlwaysFinal)
     else
       and_then (read_provider_response c response) (\<lambda>body.
       case as_array (at_key body ''models'') of
         None \<Rightarrow> Inl (Final ''the provider listed its models in a shape this adapter cannot read'')
       | Some ms \<Rightarrow> Inr (map model_card_of ms)))"

section \<open>An answer fits the question it answers\<close>

abbreviation unit_interval :: "rat \<Rightarrow> bool" where
  "unit_interval x \<equiv> 0 \<le> x \<and> x \<le> 1"

text \<open>
  What the reader promises of one answer: it is of the kind that was asked, its value is the one the
  reply carries, on the caller's own scale and among the caller's own options, and the legend is the
  caller's levels by position.
\<close>

fun fits :: "question_kind \<Rightarrow> json \<Rightarrow> given \<Rightarrow> bool" where
  "fits (Noul _ _) a (NoulAnswer x) \<longleftrightarrow> as_f64 (at_key a ''noul'') = Some x \<and> unit_interval x"
| "fits (Choice options) a (ChoiceAnswer chosen ps conf) \<longleftrightarrow>
     at_key a ''choice'' = String chosen \<and> chosen \<in> option_name ` set options \<and>
     fset (fmdom ps) \<subseteq> option_name ` set options \<and> fmpred (\<lambda>_. unit_interval) ps \<and>
     unit_interval conf"
| "fits (Score levels) a (ScoreAnswer x legend ps conf) \<longleftrightarrow>
     as_f64 (at_key a ''score'') = Some x \<and> 0 \<le> x \<and> x \<le> of_nat (length levels - 1) \<and>
     (\<forall>i. fmlookup legend i = (if unat i < length levels then Some (levels ! unat i) else None)) \<and>
     (\<forall>i \<in> fset (fmdom ps). unat i < length levels) \<and> fmpred (\<lambda>_. unit_interval) ps \<and>
     unit_interval conf"
| "fits _ _ _ \<longleftrightarrow> False"

lemma fmlookup_collect_map: "fmlookup (collect_map kvs) k = map_of (rev kvs) k"
proof -
  have "fmlookup (fold (\<lambda>(k, v). fmupd k v) kvs m) k =
        (case map_of (rev kvs) k of Some v \<Rightarrow> Some v | None \<Rightarrow> fmlookup m k)" for m
    by (induction kvs arbitrary: m) (auto simp: map_add_def split: option.splits)
  then show ?thesis by (simp add: collect_map_def split: option.splits)
qed

lemma fmdom_collect_map: "fset (fmdom (collect_map kvs)) = fst ` set kvs"
proof -
  have "k \<in> fset (fmdom (collect_map kvs)) \<longleftrightarrow> map_of (rev kvs) k \<noteq> None" for k
    by (simp add: fmlookup_dom_iff fmlookup_collect_map)
  then show ?thesis by (auto simp: map_of_eq_None_iff)
qed

lemma fmlookup_collect_graph:
  assumes "\<And>k v. (k, v) \<in> set kvs \<longleftrightarrow> f k = Some v"
  shows "fmlookup (collect_map kvs) k = f k"
proof (cases "map_of (rev kvs) k")
  case None
  then have "(k, v) \<notin> set kvs" for v by (auto simp: map_of_eq_None_iff image_iff)
  with assms None show ?thesis by (cases "f k") (auto simp: fmlookup_collect_map)
next
  case (Some v)
  then have "(k, v) \<in> set kvs" by (auto dest: map_of_SomeD)
  with assms Some show ?thesis by (simp add: fmlookup_collect_map)
qed

lemma fmpred_collect_map:
  "(\<And>k v. (k, v) \<in> set kvs \<Longrightarrow> P k v) \<Longrightarrow> fmpred P (collect_map kvs)"
  by (rule fmpredI) (auto simp: fmlookup_collect_map dest!: map_of_SomeD)

lemma set_entries: "(k, v) \<in> set (entries m) \<longleftrightarrow> fmlookup m k = Some v"
  by (auto simp: entries_def fmlookup_dom_iff)

lemma probability_eq_Inr [result_simps]:
  "probability c i field v = Inr x \<longleftrightarrow> as_f64 v = Some x \<and> unit_interval x"
  by (auto simp: probability_def read_number_def result_simps split: if_splits)

lemma confidence_in_unit: "confidence c i v = Inr x \<Longrightarrow> unit_interval x"
  by (auto simp: confidence_def result_simps split: option.splits)

lemma unat_clamp_u32: "n < 2 ^ 32 \<Longrightarrow> unat (clamp_to_word n :: u32) = n"
  by (simp add: clamp_to_word_def unat_of_nat)

lemma scored_eq_Inr [result_simps]:
  assumes "levels < 2 ^ 32"
  shows "scored c i v levels = Inr x \<longleftrightarrow> as_f64 v = Some x \<and> 0 \<le> x \<and> x \<le> of_nat (levels - 1)"
proof -
  have "unat (clamp_to_word (levels - 1) :: u32) = levels - 1"
    using assms by (intro unat_clamp_u32 less_imp_diff_less)
  then show ?thesis
    by (auto simp: scored_def read_number_def result_simps Let_def split: if_splits)
qed

lemma offered_iff: "offered options nm \<longleftrightarrow> nm \<in> option_name ` set options"
  by (auto simp: offered_def list_ex_iff)

lemma chosen_option_eq_Inr [result_simps]:
  "chosen_option i v options = Inr x \<longleftrightarrow> v = String x \<and> x \<in> option_name ` set options"
  by (auto simp: chosen_option_def offered_iff split: option.splits if_splits)

lemma named_probabilities_fit:
  assumes "named_probabilities c i v options = Inr ps" and "(k, p) \<in> set ps"
  shows "k \<in> option_name ` set options \<and> unit_interval p"
proof -
  from assms obtain e where "named_entry c i options e = Inr (k, p)"
    by (auto simp: named_probabilities_def result_simps split: option.splits
        dest!: collect_results_map_elem)
  then show ?thesis
    by (auto simp: named_entry_def result_simps offered_iff split: prod.splits if_splits)
qed

lemma levelled_probabilities_fit:
  assumes "levelled_probabilities c i v levels = Inr ps" and "(k, p) \<in> set ps"
  shows "unat k < levels \<and> unit_interval p"
proof -
  from assms obtain e where "levelled_entry c i levels e = Inr (k, p)"
    by (auto simp: levelled_probabilities_def result_simps split: option.splits
        dest!: collect_results_map_elem)
  then show ?thesis
    by (auto simp: levelled_entry_def result_simps not_le split: prod.splits if_splits)
qed

lemma caller_legend_lookup:
  assumes "length levels < 2 ^ 32"
  shows "fmlookup (collect_map (caller_legend levels)) i =
         (if unat i < length levels then Some (levels ! unat i) else None)"
proof -
  have conv: "unat (clamp_to_word n :: u32) = n" if "n < length levels" for n
    using assms that by (intro unat_clamp_u32) (rule less_trans)
  have mem: "(j, l) \<in> set (caller_legend levels) \<longleftrightarrow> unat j < length levels \<and> l = levels ! unat j" for j l
  proof
    assume "(j, l) \<in> set (caller_legend levels)"
    then show "unat j < length levels \<and> l = levels ! unat j"
      by (auto simp: caller_legend_def in_set_enumerate_eq conv)
  next
    assume h: "unat j < length levels \<and> l = levels ! unat j"
    have "j = clamp_to_word (unat j)" by (rule word_unat_eq_iff [THEN iffD2]) (simp add: conv h)
    then show "(j, l) \<in> set (caller_legend levels)"
      using h by (auto simp: caller_legend_def in_set_enumerate_eq intro!: image_eqI [of _ _ "(unat j, l)"])
  qed
  show ?thesis by (rule fmlookup_collect_graph) (auto simp: mem)
qed

lemma kind_ok_levels: "kind_ok (Score levels) \<Longrightarrow> length levels < 2 ^ 32"
  by (simp add: MAX_SCORE_LEVELS_def)

lemma named_probabilities_map:
  assumes "named_probabilities c i v options = Inr ps"
  shows "fset (fmdom (collect_map ps)) \<subseteq> option_name ` set options \<and>
         fmpred (\<lambda>_. unit_interval) (collect_map ps)"
  using named_probabilities_fit [OF assms]
  by (intro conjI fmpred_collect_map) (auto simp: fmdom_collect_map simp del: image_iff)

lemma levelled_probabilities_map:
  assumes "levelled_probabilities c i v levels = Inr ps"
  shows "(\<forall>i \<in> fset (fmdom (collect_map ps)). unat i < levels) \<and>
         fmpred (\<lambda>_. unit_interval) (collect_map ps)"
  using levelled_probabilities_fit [OF assms]
  by (intro conjI fmpred_collect_map) (auto simp: fmdom_collect_map)

lemma read_given_fits:
  assumes "read_given c i k a = Inr g" and "kind_ok k"
  shows "fits k a g"
proof (cases k)
  case (Noul t f)
  with assms show ?thesis by (auto simp: read_given_def Let_def result_simps split: if_splits)
next
  case (Choice options)
  with assms(1) obtain chosen ps conf where "g = ChoiceAnswer chosen (collect_map ps) conf"
    and "at_key a ''choice'' = String chosen" "chosen \<in> option_name ` set options"
    and ps: "named_probabilities c i (given_value a ''probabilities'') options = Inr ps"
    and conf: "confidence c i (given_value a ''confidence'') = Inr conf"
    by (auto simp: read_given_def Let_def result_simps split: if_splits)
  with Choice named_probabilities_map [OF ps] confidence_in_unit [OF conf] show ?thesis by simp
next
  case (Score levels)
  with assms have small: "length levels < 2 ^ 32" by (metis kind_ok_levels)
  with Score assms(1) obtain x ps conf
    where "g = ScoreAnswer x (collect_map (caller_legend levels)) (collect_map ps) conf"
    and "as_f64 (at_key a ''score'') = Some x" "0 \<le> x" "x \<le> of_nat (length levels - 1)"
    and ps: "levelled_probabilities c i (given_value a ''probabilities'') (length levels) = Inr ps"
    and conf: "confidence c i (given_value a ''confidence'') = Inr conf"
    by (auto simp: read_given_def Let_def result_simps split: if_splits)
  with Score levelled_probabilities_map [OF ps] confidence_in_unit [OF conf]
    caller_legend_lookup [OF small] show ?thesis by simp
qed

lemma read_answers_fit:
  assumes "read_answers c m qs = Inr rs" and "\<forall>q \<in> set qs. kind_ok (kind q)"
  shows "list_all2 (\<lambda>q r. answer_id r = question_id q \<and>
           (\<exists>a. fmlookup m (question_id q) = Some a \<and> fits (kind q) a (given_answer r))) qs rs"
  using assms
proof (induction qs arbitrary: rs)
  case (Cons q qs)
  then show ?case
    by (auto simp: result_simps read_answer_def split: option.splits dest!: read_given_fits)
qed simp

text \<open>What the reader promises of a whole reply.\<close>

definition answers_fit :: "question list \<Rightarrow> json \<Rightarrow> typed_answer list \<Rightarrow> bool" where
  "answers_fit qs body rs \<longleftrightarrow>
     (\<exists>m. get body ''answers'' = Some (Object m) \<and> fset (fmdom m) = question_id ` set qs \<and>
        list_all2 (\<lambda>q r. answer_id r = question_id q \<and>
          (\<exists>a. fmlookup m (question_id q) = Some a \<and> fits (kind q) a (given_answer r))) qs rs)"

lemma read_verdict_fits:
  assumes "read_verdict c body qs was_sent = Inr v" and "\<forall>q \<in> set qs. kind_ok (kind q)"
  shows "answers_fit qs body (answers v) \<and> sent v = was_sent \<and> reply v = body"
proof -
  from assms(1) obtain m where m: "get body ''answers'' = Some (Object m)"
    and known: "List.find (\<lambda>i. \<not> list_ex (\<lambda>q. question_id q = i) qs) (map fst (entries m)) = None"
    and read: "read_answers c m qs = Inr (answers v)" and rest: "sent v = was_sent" "reply v = body"
    by (auto simp: read_verdict_def result_simps at_key_eq_Object split: option.splits)
  from read_answers_fit [OF read assms(2)] have fit: "list_all2 (\<lambda>q r. answer_id r = question_id q \<and>
      (\<exists>a. fmlookup m (question_id q) = Some a \<and> fits (kind q) a (given_answer r))) qs (answers v)" .
  have "fset (fmdom m) \<subseteq> question_id ` set qs"
    using known by (force simp: find_None_iff list_ex_iff fmlookup_dom_iff set_entries [symmetric])
  moreover have "question_id ` set qs \<subseteq> fset (fmdom m)"
    using fit by (force simp: list_all2_conv_all_nth in_set_conv_nth fmlookup_dom_iff)
  ultimately show ?thesis using m fit rest by (auto simp: answers_fit_def)
qed

text \<open>The reader never blames the caller for a reply it cannot use.\<close>

definition blames_no_caller :: "call_error + 'a \<Rightarrow> bool" where
  "blames_no_caller r \<longleftrightarrow> (case r of Inl (Refused _) \<Rightarrow> False | _ \<Rightarrow> True)"

lemma blames_no_caller_simps [simp]:
  "blames_no_caller (Inr x)" "blames_no_caller (Inl (Final m))"
  "blames_no_caller (Inl (WorthRetrying m))" "\<not> blames_no_caller (Inl (Refused m))"
  by (simp_all add: blames_no_caller_def)

lemma blames_no_caller_and_then:
  "blames_no_caller r \<Longrightarrow> (\<And>x. blames_no_caller (f x)) \<Longrightarrow> blames_no_caller (and_then r f)"
  by (cases r) (auto simp: blames_no_caller_def)

lemma blames_no_caller_ok_or: "blames_no_caller (ok_or (Final m) v)"
  by (cases v) simp_all

lemma blames_no_caller_collect:
  "(\<And>r. r \<in> set rs \<Longrightarrow> blames_no_caller r) \<Longrightarrow> blames_no_caller (collect_results rs)"
  by (induction rs) (auto intro!: blames_no_caller_and_then)

lemma blames_no_caller_probability: "blames_no_caller (probability c i field v)"
  by (auto simp: probability_def read_number_def intro!: blames_no_caller_and_then blames_no_caller_ok_or)

lemmas blames_no_caller_intros =
  blames_no_caller_and_then blames_no_caller_ok_or blames_no_caller_collect
  blames_no_caller_probability

lemma blames_no_caller_named: "blames_no_caller (named_probabilities c i v options)"
  by (auto simp: named_probabilities_def object_field_def named_entry_def split: option.splits
      intro!: blames_no_caller_intros)

lemma blames_no_caller_levelled: "blames_no_caller (levelled_probabilities c i v levels)"
  by (auto simp: levelled_probabilities_def object_field_def levelled_entry_def split: option.splits
      intro!: blames_no_caller_intros)

lemma blames_no_caller_confidence: "blames_no_caller (confidence c i v)"
  by (auto simp: confidence_def split: option.splits intro!: blames_no_caller_intros)

lemma blames_no_caller_scored: "blames_no_caller (scored c i v levels)"
  by (auto simp: scored_def read_number_def Let_def intro!: blames_no_caller_intros)

lemma blames_no_caller_chosen: "blames_no_caller (chosen_option i v options)"
  by (auto simp: chosen_option_def split: option.splits)

lemma blames_no_caller_given: "blames_no_caller (read_given c i k a)"
  by (auto simp: read_given_def Let_def split: question_kind.splits
      intro!: blames_no_caller_intros blames_no_caller_named blames_no_caller_levelled
        blames_no_caller_confidence blames_no_caller_scored blames_no_caller_chosen)

lemma blames_no_caller_answers: "blames_no_caller (read_answers c m qs)"
  by (induction qs)
    (auto simp: read_answer_def split: option.splits
      intro!: blames_no_caller_and_then blames_no_caller_given)

lemma read_verdict_blames_no_caller: "blames_no_caller (read_verdict c body qs was_sent)"
  by (auto simp: read_verdict_def split: option.splits
      intro!: blames_no_caller_and_then blames_no_caller_answers)

lemma read_verdict_not_refused: "read_verdict c body qs was_sent \<noteq> Inl (Refused m)"
  by (metis blames_no_caller_simps(4) read_verdict_blames_no_caller)

text \<open>
  A refusal of the caller's own request comes from exactly the statuses that describe its body.
\<close>

lemma ask_Refused:
  "(\<exists>m. ask c send s now model d = Inl (Refused m)) \<longleftrightarrow>
   (\<exists>response. send (ask_request s now model d) = Inr response \<and>
      status response \<in> set BODY_SHAPED_FAULTS)"
proof (cases "send (ask_request s now model d)")
  case (Inl e)
  then show ?thesis by (simp add: ask_def unreachable_provider_def)
next
  case (Inr response)
  show ?thesis
  proof (cases "status response \<in> set BODY_SHAPED_FAULTS")
    case True
    with Inr show ?thesis
      using error_for_status_body_shaped [OF True] body_shaped_not_success [OF True]
      by (simp add: ask_def failure_def Let_def)
  next
    case False
    with Inr show ?thesis
      by (auto simp: ask_def failure_def Let_def dest: read_provider_response_error
          dest!: error_for_status_Refused split: if_splits)
  qed
qed

end
