(* ===== verification/Completions.thy ===== *)
theory Completions
  imports System_One
begin

text \<open>
  The completion class of \<^verbatim>\<open>services/llm-router\<close>: \<^verbatim>\<open>llm.rs\<close> (the contract of each tier),
  \<^verbatim>\<open>tiers.rs\<close> (the models behind it), \<^verbatim>\<open>adapters/openai_compatible.rs\<close> (one provider call),
  \<^verbatim>\<open>router.rs\<close> (the fallback to the backup vendor), \<^verbatim>\<open>service.rs\<close> (validation, the audit record
  and what the caller is told) and the part of \<^verbatim>\<open>wire.rs\<close> they use.

  The provider is a function of the number of the call, the model and the prompt, so that two calls
  with the same arguments may end differently. Provider calls and the pause before the backup are
  returned as a trace. \<open>show_tier\<close> is the generated \<^verbatim>\<open>Debug\<close> text of a tier.
\<close>

section \<open>The messages of the wire\<close>

datatype quality_tier = TierUnspecified | Low | Medium | High
datatype response_format = FormatUnspecified | FormatText | JsonObject
datatype reasoning_mode = ReasoningUnspecified | Off | On
datatype finish_reason = FinishUnspecified | Stop | FinishLength | ContentFilter | FinishToolCalls

text \<open>An open protobuf enum: the value may be one this build does not know.\<close>

datatype 'e enum_value = Known 'e | Unknown int

fun as_known :: "'e enum_value \<Rightarrow> 'e option" where
  "as_known (Known e) = Some e"
| "as_known (Unknown _) = None"

text \<open>A double off the wire: a finite number, or an infinity or NaN.\<close>

datatype f64 = Finite rat | NotFinite

record sampling =
  temperature :: "f64 option"
  top_p :: "f64 option"
  max_tokens :: "int option"
  stop :: "string list"
  frequency_penalty :: "f64 option"
  presence_penalty :: "f64 option"
  seed :: "int option"
  logit_bias :: "(string, f64) fmap"
  logprobs :: "bool option"
  top_logprobs :: "int option"
  format :: "response_format enum_value option"

definition default_sampling :: sampling where
  "default_sampling =
     \<lparr>temperature = None, top_p = None, max_tokens = None, stop = [], frequency_penalty = None,
      presence_penalty = None, seed = None, logit_bias = fmempty, logprobs = None,
      top_logprobs = None, format = None\<rparr>"

record complete_request =
  cr_tier :: "quality_tier enum_value"
  cr_system_prompt :: string
  cr_user_prompt :: string
  cr_sampling :: "sampling option"

record complete_response =
  content :: string
  cresp_model_used :: string
  cresp_tokens_in :: int
  cresp_tokens_out :: int
  cresp_used_backup :: bool
  cresp_finish_reason :: finish_reason

record prompt =
  tier :: quality_tier
  system :: string
  user :: string
  prompt_sampling :: sampling

record completion =
  completion_content :: string
  completion_tokens_in :: int
  completion_tokens_out :: int
  completion_finish_reason :: finish_reason
  completion_reply :: json

section \<open>llm.rs\<close>

definition CHARS_PER_TOKEN :: nat where "CHARS_PER_TOKEN = 4"
definition WIDE_CONTEXT_TOKENS :: int where "WIDE_CONTEXT_TOKENS = 131072"
definition SHORT_ANSWER_TOKENS :: int where "SHORT_ANSWER_TOKENS = 8192"
definition LONG_ANSWER_TOKENS :: int where "LONG_ANSWER_TOKENS = 32768"
definition SERVED_TIERS :: "quality_tier list" where "SERVED_TIERS = [Low, Medium, High]"
definition RESPONSE_FORMATS :: "response_format list" where
  "RESPONSE_FORMATS = [FormatText, JsonObject]"

record tier_limits =
  max_input_tokens :: int
  max_output_tokens :: int
  reasoning :: reasoning_mode

fun limits :: "quality_tier \<Rightarrow> tier_limits option" where
  "limits TierUnspecified = None"
| "limits High =
     Some \<lparr>max_input_tokens = WIDE_CONTEXT_TOKENS, max_output_tokens = LONG_ANSWER_TOKENS,
           reasoning = On\<rparr>"
| "limits _ =
     Some \<lparr>max_input_tokens = WIDE_CONTEXT_TOKENS, max_output_tokens = SHORT_ANSWER_TOKENS,
           reasoning = Off\<rparr>"

definition reasoning_enabled :: "quality_tier \<Rightarrow> bool" where
  "reasoning_enabled t = (case limits t of None \<Rightarrow> False | Some l \<Rightarrow> reasoning l = On)"

definition estimated_tokens :: "string \<Rightarrow> string \<Rightarrow> int" where
  "estimated_tokens sys usr =
     (let characters = char_count sys + char_count usr in
      counted ((characters + CHARS_PER_TOKEN - 1) div CHARS_PER_TOKEN))"

definition fit_to_limits ::
  "string \<Rightarrow> string \<Rightarrow> sampling \<Rightarrow> tier_limits \<Rightarrow> string + sampling" where
  "fit_to_limits sys usr s l =
     (let estimated_input = estimated_tokens sys usr in
      if max_input_tokens l < estimated_input then
        Inl (''the prompt is about '' @ show_int estimated_input @ '' tokens, over this tier's ''
          @ show_int (max_input_tokens l) @ '' token input limit'')
      else case max_tokens s of
        Some asked \<Rightarrow>
          if max_output_tokens l < asked then
            Inl (''max_tokens '' @ show_int asked @ '' is over this tier's ''
              @ show_int (max_output_tokens l) @ '' token output limit'')
          else if asked \<le> 0 then
            Inl (''max_tokens '' @ show_int asked @ '' asks for no output'')
          else Inr s
      | None \<Rightarrow> Inr (s\<lparr>max_tokens := Some (max_output_tokens l)\<rparr>))"

section \<open>tiers.rs\<close>

record tier_models =
  primary :: string
  backup :: string

record tiers =
  low_models :: tier_models
  medium_models :: tier_models
  high_models :: tier_models

definition required :: "(string \<Rightarrow> string option) \<Rightarrow> string \<Rightarrow> string + string" where
  "required lookup nm =
     ok_or (nm @ '' is not set'')
       (case lookup nm of None \<Rightarrow> None | Some v \<Rightarrow> if trim v = [] then None else Some v)"

definition tier_models_from_vars :: "(string \<Rightarrow> string option) \<Rightarrow> string \<Rightarrow> string + tier_models" where
  "tier_models_from_vars lookup t =
     and_then (required lookup (''LLM_'' @ t @ ''_PRIMARY'')) (\<lambda>p.
     and_then (required lookup (''LLM_'' @ t @ ''_BACKUP'')) (\<lambda>b.
     Inr \<lparr>primary = p, backup = b\<rparr>))"

definition tiers_from_vars :: "(string \<Rightarrow> string option) \<Rightarrow> string + tiers" where
  "tiers_from_vars lookup =
     and_then (tier_models_from_vars lookup ''LOW'') (\<lambda>l.
     and_then (tier_models_from_vars lookup ''MEDIUM'') (\<lambda>m.
     and_then (tier_models_from_vars lookup ''HIGH'') (\<lambda>h.
     Inr \<lparr>low_models = l, medium_models = m, high_models = h\<rparr>)))"

fun models :: "tiers \<Rightarrow> quality_tier \<Rightarrow> tier_models option" where
  "models ts Low = Some (low_models ts)"
| "models ts Medium = Some (medium_models ts)"
| "models ts High = Some (high_models ts)"
| "models ts TierUnspecified = None"

section \<open>adapters/openai\_compatible.rs\<close>

definition COMPLETIONS_PATH :: string where "COMPLETIONS_PATH = ''/chat/completions''"
definition KEY_PATH :: string where "KEY_PATH = ''/key''"

record openai_compatible =
  oc_base_url :: string
  oc_api_key :: string
  oc_provider_routing :: "json option"

text \<open>\<^verbatim>\<open>Value::from\<close> for the wire types: a double that is not finite has no JSON number and becomes null,
an \<^verbatim>\<open>i32\<close> keeps its sign.\<close>

fun json_of_f64 :: "f64 \<Rightarrow> json" where
  "json_of_f64 (Finite r) = Number (Float r)"
| "json_of_f64 NotFinite = Null"

definition json_of_i32 :: "int \<Rightarrow> json" where
  "json_of_i32 n = Number (if 0 \<le> n then PosInt (of_int n) else NegInt n)"

definition set_if_present ::
  "string \<Rightarrow> json option \<Rightarrow> (string, json) fmap \<Rightarrow> (string, json) fmap" where
  "set_if_present field v body = (case v of None \<Rightarrow> body | Some w \<Rightarrow> fmupd field w body)"

definition format_name :: "response_format enum_value option \<Rightarrow> string option" where
  "format_name f =
     (case Option.bind f as_known of
        Some FormatText \<Rightarrow> Some ''text''
      | Some JsonObject \<Rightarrow> Some ''json_object''
      | _ \<Rightarrow> None)"

definition apply_sampling :: "sampling \<Rightarrow> (string, json) fmap \<Rightarrow> (string, json) fmap" where
  "apply_sampling s body =
     (let body = set_if_present ''temperature'' (map_option json_of_f64 (temperature s)) body;
          body = set_if_present ''top_p'' (map_option json_of_f64 (top_p s)) body;
          body = set_if_present ''max_tokens'' (map_option json_of_i32 (max_tokens s)) body;
          body = set_if_present ''frequency_penalty'' (map_option json_of_f64 (frequency_penalty s)) body;
          body = set_if_present ''presence_penalty'' (map_option json_of_f64 (presence_penalty s)) body;
          body = set_if_present ''seed'' (map_option json_of_i32 (seed s)) body;
          body = set_if_present ''logprobs'' (map_option Bool (logprobs s)) body;
          body = set_if_present ''top_logprobs'' (map_option json_of_i32 (top_logprobs s)) body;
          body = (if stop s = [] then body else fmupd ''stop'' (Array (map String (stop s))) body);
          body = (if logit_bias s = fmempty then body
                  else fmupd ''logit_bias'' (Object (fmmap json_of_f64 (logit_bias s))) body)
      in set_if_present ''response_format''
           (map_option (\<lambda>nm. json_object [(''type'', String nm)]) (format_name (format s))) body)"

definition chat_message :: "string \<Rightarrow> string \<Rightarrow> json" where
  "chat_message role said = json_object [(''role'', String role), (''content'', String said)]"

definition request_body :: "string \<Rightarrow> prompt \<Rightarrow> json option \<Rightarrow> json" where
  "request_body model p routing =
     (let messages = (if system p = [] then [] else [chat_message ''system'' (system p)]) @
                     [chat_message ''user'' (user p)];
          body = json_fields [(''model'', String model), (''messages'', Array messages)];
          body = apply_sampling (prompt_sampling p) body;
          body = (if reasoning_enabled (tier p) then body
                  else fmupd ''reasoning'' (json_object [(''effort'', String ''none'')]) body)
      in Object (set_if_present ''provider'' routing body))"

definition why_not_an_answer :: "json \<Rightarrow> string option" where
  "why_not_an_answer choice =
     (let e = at_key choice ''error'' in
      if as_str (at_key choice ''finish_reason'') \<noteq> Some ''error'' \<and> \<not> is_object e then None
      else
        let detail = (case as_str (at_key e ''message'') of
                        Some m \<Rightarrow> m
                      | None \<Rightarrow> ''the provider stopped partway through generating'') in
        Some (case as_i64 (at_key e ''code'') of
                Some code \<Rightarrow> detail @ '' (provider code '' @ show_int code @ '')''
              | None \<Rightarrow> detail))"

definition finish_reason_from :: "string \<Rightarrow> finish_reason" where
  "finish_reason_from reported =
     (if reported = ''stop'' then Stop
      else if reported = ''length'' then FinishLength
      else if reported = ''content_filter'' then ContentFilter
      else if reported = ''tool_calls'' then FinishToolCalls
      else FinishUnspecified)"

definition usage_count :: "json \<Rightarrow> string \<Rightarrow> int" where
  "usage_count body field = as_count (at_key (at_key body ''usage'') field)"

text \<open>\<^verbatim>\<open>value.get(0)\<close> answers only on an array.\<close>

definition first_item :: "json \<Rightarrow> json option" where
  "first_item v = (case as_array v of Some (x # _) \<Rightarrow> Some x | _ \<Rightarrow> None)"

definition read_completion :: "json \<Rightarrow> call_error + completion" where
  "read_completion body =
     (case first_item (at_key body ''choices'') of
        None \<Rightarrow>
          Inl (WorthRetrying (case as_str (at_key (at_key body ''error'') ''message'') of
                                Some m \<Rightarrow> m | None \<Rightarrow> ''the reply carried no choices''))
      | Some choice \<Rightarrow>
          (case why_not_an_answer choice of
             Some detail \<Rightarrow> Inl (WorthRetrying detail)
           | None \<Rightarrow>
               let said = str_or_empty (at_key (at_key choice ''message'') ''content'') in
               if said = [] then
                 let reasoning_tokens =
                   as_count (at_key (at_key (at_key body ''usage'') ''completion_tokens_details'')
                     ''reasoning_tokens'') in
                 if 0 < reasoning_tokens then
                   Inl (Final (''the model spent '' @ show_int reasoning_tokens
                     @ '' completion tokens on reasoning and returned no content''))
                 else Inl (WorthRetrying ''the model returned no content'')
               else
                 Inr \<lparr>completion_content = said,
                      completion_tokens_in = usage_count body ''prompt_tokens'',
                      completion_tokens_out = usage_count body ''completion_tokens'',
                      completion_finish_reason =
                        finish_reason_from (str_or_empty (at_key choice ''finish_reason'')),
                      completion_reply = body\<rparr>))"

definition openai_complete ::
  "'v json_codec \<Rightarrow> http \<Rightarrow> openai_compatible \<Rightarrow> string \<Rightarrow> prompt \<Rightarrow> call_error + completion" where
  "openai_complete c send a model p =
     and_then (map_err unreachable_provider
       (send \<lparr>url = oc_base_url a @ COMPLETIONS_PATH, bearer = oc_api_key a, timeout = None,
              request_json = Some (request_body model p (oc_provider_routing a))\<rparr>)) (\<lambda>response.
     if \<not> is_success (status response) then
       Inl (error_for_status (status response) None AlwaysFinal)
     else and_then (read_provider_response c response) read_completion)"

definition openai_verify_key :: "http \<Rightarrow> openai_compatible \<Rightarrow> key_check + unit" where
  "openai_verify_key send a =
     (case send \<lparr>url = oc_base_url a @ KEY_PATH, bearer = oc_api_key a, timeout = None,
                 request_json = None\<rparr> of
        Inl e \<Rightarrow> Inl (Unreachable (transport_text e))
      | Inr response \<Rightarrow> key_accepted (status response))"

section \<open>router.rs\<close>

definition PAUSE_BEFORE_BACKUP :: int where "PAUSE_BEFORE_BACKUP = millis 250"

record routed_answer =
  routed_completion :: completion
  routed_model_used :: string
  routed_used_backup :: bool

record failed_call =
  failed_error :: call_error
  failed_model_used :: string
  failed_used_backup :: bool

datatype router_event = Called string | Slept int

type_synonym provider = "nat \<Rightarrow> string \<Rightarrow> prompt \<Rightarrow> call_error + completion"

definition route ::
  "(quality_tier \<Rightarrow> string) \<Rightarrow> provider \<Rightarrow> tiers \<Rightarrow> prompt \<Rightarrow>
   (failed_call + routed_answer) \<times> router_event list" where
  "route show_tier provider ts p =
     (case models ts (tier p) of
        None \<Rightarrow>
          (Inl \<lparr>failed_error = Final (''no models are configured for tier '' @ show_tier (tier p)),
                failed_model_used = [], failed_used_backup = False\<rparr>, [])
      | Some t \<Rightarrow>
          (case provider 0 (primary t) p of
             Inr done \<Rightarrow>
               (Inr \<lparr>routed_completion = done, routed_model_used = primary t,
                     routed_used_backup = False\<rparr>, [Called (primary t)])
           | Inl (WorthRetrying _) \<Rightarrow>
               (case provider 1 (backup t) p of
                  Inr done \<Rightarrow> Inr \<lparr>routed_completion = done, routed_model_used = backup t,
                                   routed_used_backup = True\<rparr>
                | Inl e \<Rightarrow> Inl \<lparr>failed_error = e, failed_model_used = backup t,
                                failed_used_backup = True\<rparr>,
                [Called (primary t), Slept PAUSE_BEFORE_BACKUP, Called (backup t)])
           | Inl rejected \<Rightarrow>
               (Inl \<lparr>failed_error = rejected, failed_model_used = primary t,
                     failed_used_backup = False\<rparr>, [Called (primary t)])))"

end
