(* ===== verification/Router_Service.thy ===== *)
theory Router_Service
  imports Completions
begin

text \<open>
  \<^verbatim>\<open>services/llm-router/src/service.rs\<close>, \<^verbatim>\<open>decisions.rs\<close>, \<^verbatim>\<open>log.rs\<close>, \<^verbatim>\<open>audit/\<close> and \<^verbatim>\<open>wire.rs\<close>: what a
  caller of \<^verbatim>\<open>Complete\<close> and \<^verbatim>\<open>Decide\<close> is told, and what each call leaves in the audit tables.

  An operation returns its answer together with the attempts it handed to the log. Whether the log
  could store one changes nothing for the caller; the tables themselves are the record \<open>audit_db\<close>, and a
  database fault is an argument that says at which statement of the transaction it struck.
\<close>

section \<open>wire.rs\<close>

record tier_contract =
  tc_tier :: quality_tier
  tc_max_input_tokens :: int
  tc_max_output_tokens :: int
  tc_reasoning :: reasoning_mode
  tc_response_formats :: "response_format list"

definition tier_contracts :: "tier_contract list" where
  "tier_contracts =
     List.map_filter (\<lambda>t. map_option (\<lambda>l.
       \<lparr>tc_tier = t, tc_max_input_tokens = max_input_tokens l,
        tc_max_output_tokens = max_output_tokens l, tc_reasoning = reasoning l,
        tc_response_formats = RESPONSE_FORMATS\<rparr>) (limits t)) SERVED_TIERS"

definition response_from :: "routed_answer \<Rightarrow> complete_response" where
  "response_from a =
     \<lparr>content = completion_content (routed_completion a),
      cresp_model_used = routed_model_used a,
      cresp_tokens_in = completion_tokens_in (routed_completion a),
      cresp_tokens_out = completion_tokens_out (routed_completion a),
      cresp_used_backup = routed_used_backup a,
      cresp_finish_reason = completion_finish_reason (routed_completion a)\<rparr>"

definition known_tier :: "quality_tier enum_value \<Rightarrow> quality_tier" where
  "known_tier t = (case as_known t of Some k \<Rightarrow> k | None \<Rightarrow> TierUnspecified)"

record decide_response =
  dr_model_used :: string
  dr_answers :: "typed_answer list"
  dr_tokens_in :: int
  dr_tokens_out :: int

definition decide_response_from :: "verdict \<Rightarrow> decide_response" where
  "decide_response_from v =
     \<lparr>dr_model_used = model_used v, dr_answers = answers v, dr_tokens_in = tokens_in v,
      dr_tokens_out = tokens_out v\<rparr>"

section \<open>service.rs: validation\<close>

definition NO_MODEL_ANSWERED :: string where
  "NO_MODEL_ANSWERED = ''no model on this tier answered; the request log holds the provider's reply''"
definition PROVIDER_REFUSED :: string where
  "PROVIDER_REFUSED = ''the provider refused this request; the request log holds the provider's reply''"
definition MAX_STOP_SEQUENCES :: nat where "MAX_STOP_SEQUENCES = 4"
definition MAX_STOP_SEQUENCE_BYTES :: nat where "MAX_STOP_SEQUENCE_BYTES = 1024"
definition MAX_TOTAL_STOP_BYTES :: nat where "MAX_TOTAL_STOP_BYTES = 2048"
definition MAX_LOGIT_BIAS_ENTRIES :: nat where "MAX_LOGIT_BIAS_ENTRIES = 300"
definition MAX_TOP_LOGPROBS :: int where "MAX_TOP_LOGPROBS = 20"

fun number_between :: "int \<Rightarrow> int \<Rightarrow> f64 \<Rightarrow> bool" where
  "number_between lowest highest (Finite r) \<longleftrightarrow> of_int lowest \<le> r \<and> r \<le> of_int highest"
| "number_between lowest highest NotFinite \<longleftrightarrow> False"

definition not_between :: "string \<Rightarrow> int \<Rightarrow> int \<Rightarrow> rpc_error + unit" where
  "not_between field lowest highest =
     invalid_argument (field @ '' must be a finite number between '' @ show_int lowest
       @ '' and '' @ show_int highest)"

definition validate_number ::
  "string \<Rightarrow> f64 option \<Rightarrow> int \<Rightarrow> int \<Rightarrow> rpc_error + unit" where
  "validate_number field v lowest highest =
     (if (case v of None \<Rightarrow> False | Some x \<Rightarrow> \<not> number_between lowest highest x)
      then not_between field lowest highest else Inr ())"

definition validate_stop_sequences :: "string list \<Rightarrow> rpc_error + unit" where
  "validate_stop_sequences stops =
     (if MAX_STOP_SEQUENCES < length stops then
        invalid_argument (''stop must hold at most '' @ show_nat MAX_STOP_SEQUENCES @ '' sequences'')
      else if list_ex (\<lambda>s. MAX_STOP_SEQUENCE_BYTES < length s) stops then
        invalid_argument (''each stop sequence must be at most '' @ show_nat MAX_STOP_SEQUENCE_BYTES
          @ '' bytes'')
      else if MAX_TOTAL_STOP_BYTES < sum_list (map length stops) then
        invalid_argument (''stop sequences must total at most '' @ show_nat MAX_TOTAL_STOP_BYTES
          @ '' bytes'')
      else Inr ())"

text \<open>The values of the map are visited in no particular order; every one that is refused is refused
with the same message.\<close>

definition validate_logit_bias :: "sampling \<Rightarrow> rpc_error + unit" where
  "validate_logit_bias s =
     (if MAX_LOGIT_BIAS_ENTRIES < fcard (fmdom (logit_bias s)) then
        invalid_argument (''logit_bias must hold at most '' @ show_nat MAX_LOGIT_BIAS_ENTRIES
          @ '' entries'')
      else if \<not> fmpred (\<lambda>_. number_between (- 100) 100) (logit_bias s) then
        not_between ''each logit_bias value'' (- 100) 100
      else Inr ())"

definition validate_sampling :: "sampling \<Rightarrow> rpc_error + unit" where
  "validate_sampling s =
     and_then (validate_number ''temperature'' (temperature s) 0 2) (\<lambda>_.
     and_then (validate_number ''top_p'' (top_p s) 0 1) (\<lambda>_.
     and_then (validate_number ''frequency_penalty'' (frequency_penalty s) (- 2) 2) (\<lambda>_.
     and_then (validate_number ''presence_penalty'' (presence_penalty s) (- 2) 2) (\<lambda>_.
     and_then (validate_stop_sequences (stop s)) (\<lambda>_.
     and_then (validate_logit_bias s) (\<lambda>_.
     if (case top_logprobs s of None \<Rightarrow> False | Some n \<Rightarrow> \<not> (0 \<le> n \<and> n \<le> MAX_TOP_LOGPROBS)) then
       invalid_argument (''top_logprobs must be between 0 and '' @ show_int MAX_TOP_LOGPROBS)
     else Inr ()))))))"

definition validated_prompt ::
  "(quality_tier \<Rightarrow> string) \<Rightarrow> complete_request \<Rightarrow> rpc_error + prompt" where
  "validated_prompt show_tier request =
     (let t = known_tier (cr_tier request) in
      case limits t of
        None \<Rightarrow> invalid_argument (''tier '' @ show_tier t @ '' is not served'')
      | Some contract \<Rightarrow>
          if trim (cr_user_prompt request) = [] then invalid_argument ''user_prompt is required''
          else
            let s = (case cr_sampling request of Some s \<Rightarrow> s | None \<Rightarrow> default_sampling) in
            and_then (validate_sampling s) (\<lambda>_.
            and_then (map_err (Pair InvalidArgument)
                (fit_to_limits (cr_system_prompt request) (cr_user_prompt request) s contract)) (\<lambda>s.
            Inr \<lparr>tier = t, system = cr_system_prompt request, user = cr_user_prompt request,
                 prompt_sampling = s\<rparr>)))"

section \<open>service.rs: the call and its audit record\<close>

datatype outcome = Answered | Failed

record attempt =
  attempt_tier :: quality_tier
  attempt_model_used :: string
  attempt_used_backup :: bool
  attempt_tokens_in :: int
  attempt_tokens_out :: int
  attempt_latency_ms :: int
  attempt_outcome :: outcome
  attempt_finish_reason :: finish_reason
  attempt_sent :: json
  attempt_received :: json

text \<open>\<^verbatim>\<open>i32::try_from(elapsed.as_millis()).unwrap_or(i32::MAX)\<close> is \<^const>\<open>counted\<close>; the elapsed
milliseconds are an argument.\<close>

definition complete_call ::
  "(quality_tier \<Rightarrow> string) \<Rightarrow> provider \<Rightarrow> tiers \<Rightarrow> nat \<Rightarrow> complete_request \<Rightarrow>
   (rpc_error + complete_response) \<times> attempt list \<times> router_event list" where
  "complete_call show_tier provider ts elapsed request =
     (case validated_prompt show_tier request of
        Inl e \<Rightarrow> (Inl e, [], [])
      | Inr p \<Rightarrow>
          let (routed, trace) = route show_tier provider ts p;
              latency_ms = counted elapsed in
          (case routed of
             Inr a \<Rightarrow>
               (Inr (response_from a),
                [\<lparr>attempt_tier = tier p, attempt_model_used = routed_model_used a,
                  attempt_used_backup = routed_used_backup a,
                  attempt_tokens_in = completion_tokens_in (routed_completion a),
                  attempt_tokens_out = completion_tokens_out (routed_completion a),
                  attempt_latency_ms = latency_ms, attempt_outcome = Answered,
                  attempt_finish_reason = completion_finish_reason (routed_completion a),
                  attempt_sent = request_body (routed_model_used a) p None,
                  attempt_received = completion_reply (routed_completion a)\<rparr>], trace)
           | Inl f \<Rightarrow>
               (Inl (case failed_error f of
                       WorthRetrying _ \<Rightarrow> (Unavailable, NO_MODEL_ANSWERED)
                     | _ \<Rightarrow> (Internal, PROVIDER_REFUSED)),
                [\<lparr>attempt_tier = tier p, attempt_model_used = failed_model_used f,
                  attempt_used_backup = failed_used_backup f,
                  attempt_tokens_in = 0, attempt_tokens_out = 0,
                  attempt_latency_ms = latency_ms, attempt_outcome = Failed,
                  attempt_finish_reason = FinishUnspecified,
                  attempt_sent = request_body (failed_model_used f) p None,
                  attempt_received = json_object [(''error'', String (message (failed_error f)))]\<rparr>],
                trace)))"

section \<open>decisions.rs\<close>

definition NO_DECISION :: string where
  "NO_DECISION = ''the model did not decide; the decision log holds the provider's reply''"
definition NOT_CONFIGURED :: string where
  "NOT_CONFIGURED = ''structured decisions are not configured for this deployment''"
definition DECISION_REFUSED :: string where
  "DECISION_REFUSED = ''the provider refused this decision; the decision log holds the provider's reply''"
definition UNLISTED :: string where "UNLISTED = ''the provider did not list its models''"
definition CANNOT_LIST :: string where
  "CANNOT_LIST = ''the models of this class could not be listed; this service's own logs hold why''"

record decision_attempt =
  da_model_used :: string
  da_questions :: int
  da_tokens_in :: int
  da_tokens_out :: int
  da_latency_ms :: int
  da_outcome :: outcome
  da_sent :: json
  da_received :: json

text \<open>The decider and its model are one setting; a deployment that does not serve the class has none.\<close>

type_synonym decider = "string \<Rightarrow> decision \<Rightarrow> not_decided + verdict"

definition configured :: "('d \<times> string) option \<Rightarrow> rpc_error + 'd \<times> string" where
  "configured setting = ok_or (FailedPrecondition, NOT_CONFIGURED) setting"

fun reported :: "call_error \<Rightarrow> rpc_error" where
  "reported (WorthRetrying _) = (Unavailable, NO_DECISION)"
| "reported (Refused m) = (InvalidArgument, m)"
| "reported (Final _) = (Internal, DECISION_REFUSED)"

definition counted_i16 :: "nat \<Rightarrow> int" where
  "counted_i16 n = min (int n) (2 ^ 15 - 1)"

definition decide ::
  "'v json_codec \<Rightarrow> (decider \<times> string) option \<Rightarrow> nat \<Rightarrow> 'v decide_request \<Rightarrow> instant option \<Rightarrow>
   (rpc_error + decide_response) \<times> decision_attempt list" where
  "decide c setting elapsed request deadline =
     (case configured setting of
        Inl e \<Rightarrow> (Inl e, [])
      | Inr (decider, model) \<Rightarrow>
          (case validated_decision c request of
             Inl e \<Rightarrow> (Inl e, [])
           | Inr d \<Rightarrow>
               let d = d\<lparr>caller_stops_waiting_at := deadline\<rparr>;
                   asked = counted_i16 (length (questions d));
                   latency_ms = counted elapsed in
               (case decider model d of
                  Inr v \<Rightarrow>
                    (Inr (decide_response_from v),
                     [\<lparr>da_model_used = model_used v, da_questions = asked,
                       da_tokens_in = tokens_in v, da_tokens_out = tokens_out v,
                       da_latency_ms = latency_ms, da_outcome = Answered, da_sent = sent v,
                       da_received = reply v\<rparr>])
                | Inl f \<Rightarrow>
                    (Inl (reported (decide_error f)),
                     [\<lparr>da_model_used = model, da_questions = asked,
                       da_tokens_in = 0, da_tokens_out = 0,
                       da_latency_ms = latency_ms, da_outcome = Failed, da_sent = not_sent f,
                       da_received =
                         json_object [(''error'', String (message (decide_error f)))]\<rparr>]))))"

record describe_models_response =
  dm_models :: "model_card list"
  dm_budget :: decision_budget

definition describe_models ::
  "((call_error + model_card list) \<times> string) option \<Rightarrow> rpc_error + describe_models_response" where
  "describe_models setting =
     and_then (configured setting) (\<lambda>(listing, _).
     and_then (map_err (\<lambda>failed. case failed of
         WorthRetrying _ \<Rightarrow> (Unavailable, UNLISTED)
       | _ \<Rightarrow> (Internal, CANNOT_LIST)) listing) (\<lambda>ms.
     Inr \<lparr>dm_models = ms, dm_budget = published\<rparr>))"

section \<open>audit and log.rs\<close>

definition MODEL_NAME_BYTES :: nat where "MODEL_NAME_BYTES = 128"

definition is_char_boundary :: "string \<Rightarrow> nat \<Rightarrow> bool" where
  "is_char_boundary s i \<longleftrightarrow> i = 0 \<or> i = length s \<or> (i < length s \<and> \<not> is_continuation (s ! i))"

definition bounded_model_name :: "string \<Rightarrow> string" where
  "bounded_model_name nm =
     (if MODEL_NAME_BYTES < length nm then
        take (case List.find (is_char_boundary nm) (rev [0..<Suc MODEL_NAME_BYTES]) of
                Some boundary \<Rightarrow> boundary | None \<Rightarrow> 0) nm
      else nm)"

record request_row =
  rr_id :: int
  rr_attempt :: attempt
  rr_model_used :: string
  rr_created_at :: instant

record decision_row =
  dr_id :: int
  dr_attempt :: decision_attempt
  dr_model_name :: string
  dr_created_at :: instant

record payload_row =
  pr_id :: int
  pr_of :: int
  pr_sent :: json
  pr_received :: json
  pr_created_at :: instant

text \<open>
  The four audit tables with the sequence behind each id. A statistics row carries the attempt it was
  written from; its columns are that record's, the model name cut to the column.
\<close>

record audit_db =
  request_rows :: "request_row list"
  request_payload_rows :: "payload_row list"
  decision_rows :: "decision_row list"
  decision_payload_rows :: "payload_row list"
  request_seq :: int
  request_payload_seq :: int
  decision_seq :: int
  decision_payload_seq :: int

text \<open>Where a transaction may fail. A sequence keeps the numbers a failed transaction drew.\<close>

datatype db_fault = AtBegin | AtStatistics | AtPayload | AtCommit

definition drew_statistics :: "db_fault option \<Rightarrow> bool" where
  "drew_statistics fault \<longleftrightarrow> fault \<noteq> Some AtBegin"

definition drew_payload :: "db_fault option \<Rightarrow> bool" where
  "drew_payload fault \<longleftrightarrow> fault \<noteq> Some AtBegin \<and> fault \<noteq> Some AtStatistics"

definition bump :: "bool \<Rightarrow> int \<Rightarrow> int" where
  "bump drawn n = (if drawn then n + 1 else n)"

definition record_attempt ::
  "instant \<Rightarrow> db_fault option \<Rightarrow> attempt \<Rightarrow> audit_db \<Rightarrow> bool \<times> audit_db" where
  "record_attempt now fault a db =
     (let i = request_seq db; j = request_payload_seq db;
          db' = db\<lparr>request_seq := bump (drew_statistics fault) i,
                   request_payload_seq := bump (drew_payload fault) j\<rparr> in
      if fault \<noteq> None then (False, db')
      else
        (True, db'\<lparr>request_rows := request_rows db @
                     [\<lparr>rr_id = i, rr_attempt = a,
                       rr_model_used = bounded_model_name (attempt_model_used a),
                       rr_created_at = now\<rparr>],
                   request_payload_rows := request_payload_rows db @
                     [\<lparr>pr_id = j, pr_of = i, pr_sent = attempt_sent a,
                       pr_received = attempt_received a, pr_created_at = now\<rparr>]\<rparr>))"

definition record_decision ::
  "instant \<Rightarrow> db_fault option \<Rightarrow> decision_attempt \<Rightarrow> audit_db \<Rightarrow> bool \<times> audit_db" where
  "record_decision now fault a db =
     (let i = decision_seq db; j = decision_payload_seq db;
          db' = db\<lparr>decision_seq := bump (drew_statistics fault) i,
                   decision_payload_seq := bump (drew_payload fault) j\<rparr> in
      if fault \<noteq> None then (False, db')
      else
        (True, db'\<lparr>decision_rows := decision_rows db @
                     [\<lparr>dr_id = i, dr_attempt = a,
                       dr_model_name = bounded_model_name (da_model_used a),
                       dr_created_at = now\<rparr>],
                   decision_payload_rows := decision_payload_rows db @
                     [\<lparr>pr_id = j, pr_of = i, pr_sent = da_sent a,
                       pr_received = da_received a, pr_created_at = now\<rparr>]\<rparr>))"

end
