(* ===== verification/Router_Props.thy ===== *)
theory Router_Props
  imports Router_Service
begin

text \<open>
  What the router promises its callers: a prompt that is accepted keeps its tier's contract, the backup
  is called exactly when the primary's failure is worth retrying, every accepted call leaves one audit
  attempt that names the model the answer came from, and a structured decision answers exactly the
  questions that were asked.
\<close>

section \<open>Accepted prompts\<close>

lemma served_tier_has_models: "limits t \<noteq> None \<Longrightarrow> models ts t \<noteq> None"
  by (cases t) simp_all

lemma limits_positive: "limits t = Some l \<Longrightarrow> 0 < max_output_tokens l"
  by (cases t) (auto simp: SHORT_ANSWER_TOKENS_def LONG_ANSWER_TOKENS_def)

lemma validate_number_eq_Inr [result_simps]:
  "validate_number field v lowest highest = Inr u \<longleftrightarrow> pred_option (number_between lowest highest) v"
  by (auto simp: validate_number_def not_between_def split: option.splits)

definition sampling_ok :: "sampling \<Rightarrow> bool" where
  "sampling_ok s \<longleftrightarrow>
     pred_option (number_between 0 2) (temperature s) \<and>
     pred_option (number_between 0 1) (top_p s) \<and>
     pred_option (number_between (- 2) 2) (frequency_penalty s) \<and>
     pred_option (number_between (- 2) 2) (presence_penalty s) \<and>
     length (stop s) \<le> MAX_STOP_SEQUENCES \<and>
     (\<forall>x \<in> set (stop s). length x \<le> MAX_STOP_SEQUENCE_BYTES) \<and>
     sum_list (map length (stop s)) \<le> MAX_TOTAL_STOP_BYTES \<and>
     fcard (fmdom (logit_bias s)) \<le> MAX_LOGIT_BIAS_ENTRIES \<and>
     fmpred (\<lambda>_. number_between (- 100) 100) (logit_bias s) \<and>
     pred_option (\<lambda>n. 0 \<le> n \<and> n \<le> MAX_TOP_LOGPROBS) (top_logprobs s)"

lemma validate_sampling_eq_Inr [result_simps]: "validate_sampling s = Inr u \<longleftrightarrow> sampling_ok s"
  by (auto simp: validate_sampling_def result_simps validate_stop_sequences_def validate_logit_bias_def
      sampling_ok_def not_between_def not_less not_le list_ex_iff split: option.splits if_splits)

lemma fit_to_limits_eq_Inr [result_simps]:
  "fit_to_limits sys usr s l = Inr s' \<longleftrightarrow>
     estimated_tokens sys usr \<le> max_input_tokens l \<and>
     (case max_tokens s of
        None \<Rightarrow> s' = s\<lparr>max_tokens := Some (max_output_tokens l)\<rparr>
      | Some n \<Rightarrow> 0 < n \<and> n \<le> max_output_tokens l \<and> s' = s)"
  by (auto simp: fit_to_limits_def Let_def not_less split: option.splits)

text \<open>What an accepted prompt is, whichever way it was asked for.\<close>

definition prompt_ok :: "prompt \<Rightarrow> bool" where
  "prompt_ok p \<longleftrightarrow>
     (case limits (tier p) of
        None \<Rightarrow> False
      | Some l \<Rightarrow>
          trim (user p) \<noteq> [] \<and> sampling_ok (prompt_sampling p) \<and>
          estimated_tokens (system p) (user p) \<le> max_input_tokens l \<and>
          (case max_tokens (prompt_sampling p) of
             None \<Rightarrow> False
           | Some n \<Rightarrow> 0 < n \<and> n \<le> max_output_tokens l))"

lemma sampling_ok_max_tokens [simp]: "sampling_ok (s\<lparr>max_tokens := n\<rparr>) \<longleftrightarrow> sampling_ok s"
  by (simp add: sampling_ok_def)

lemma validated_prompt_ok:
  assumes "validated_prompt show_tier request = Inr p"
  shows "prompt_ok p"
  using assms
  by (auto simp: validated_prompt_def prompt_ok_def Let_def result_simps
      split: option.splits if_splits dest: limits_positive)

lemma validated_prompt_complete:
  assumes "prompt_ok p"
  shows "validated_prompt show_tier
           \<lparr>cr_tier = Known (tier p), cr_system_prompt = system p, cr_user_prompt = user p,
            cr_sampling = Some (prompt_sampling p)\<rparr> = Inr p"
proof -
  from assms obtain l n where "limits (tier p) = Some l" "trim (user p) \<noteq> []"
    "sampling_ok (prompt_sampling p)" "estimated_tokens (system p) (user p) \<le> max_input_tokens l"
    "max_tokens (prompt_sampling p) = Some n" "0 < n" "n \<le> max_output_tokens l"
    by (auto simp: prompt_ok_def split: option.splits)
  then show ?thesis
    by (simp add: validated_prompt_def known_tier_def Let_def result_simps)
qed

section \<open>The fallback\<close>

text \<open>The one call whose result decides what the caller is told.\<close>

definition deciding_call :: "provider \<Rightarrow> tier_models \<Rightarrow> prompt \<Rightarrow> string \<times> (call_error + completion)" where
  "deciding_call provider t p =
     (case provider 0 (primary t) p of
        Inl (WorthRetrying _) \<Rightarrow> (backup t, provider 1 (backup t) p)
      | r \<Rightarrow> (primary t, r))"

lemma route_cases:
  assumes "models ts (tier p) = Some t"
  shows "route show_tier provider ts p =
    (let (m, r) = deciding_call provider t p;
         retried = (\<exists>w. provider 0 (primary t) p = Inl (WorthRetrying w)) in
     (case r of
        Inr done \<Rightarrow> Inr \<lparr>routed_completion = done, routed_model_used = m, routed_used_backup = retried\<rparr>
      | Inl e \<Rightarrow> Inl \<lparr>failed_error = e, failed_model_used = m, failed_used_backup = retried\<rparr>,
      Called (primary t) # (if retried then [Slept PAUSE_BEFORE_BACKUP, Called (backup t)] else [])))"
  using assms
  by (auto simp: route_def deciding_call_def Let_def split: sum.splits call_error.splits)

text \<open>
  What the caller is told of one call result, and the audit attempt that belongs to it.
\<close>

fun told :: "string \<Rightarrow> bool \<Rightarrow> call_error + completion \<Rightarrow> rpc_error + complete_response" where
  "told m retried (Inr done) =
     Inr \<lparr>content = completion_content done, cresp_model_used = m,
          cresp_tokens_in = completion_tokens_in done, cresp_tokens_out = completion_tokens_out done,
          cresp_used_backup = retried, cresp_finish_reason = completion_finish_reason done\<rparr>"
| "told m retried (Inl (WorthRetrying _)) = Inl (Unavailable, NO_MODEL_ANSWERED)"
| "told m retried (Inl _) = Inl (Internal, PROVIDER_REFUSED)"

fun records_call :: "attempt \<Rightarrow> prompt \<Rightarrow> string \<Rightarrow> bool \<Rightarrow> call_error + completion \<Rightarrow> bool" where
  "records_call a p m retried r \<longleftrightarrow>
     attempt_tier a = tier p \<and> attempt_model_used a = m \<and> attempt_used_backup a = retried \<and>
     attempt_sent a = request_body m p None \<and>
     (case r of
        Inr done \<Rightarrow> attempt_outcome a = Answered \<and> attempt_received a = completion_reply done \<and>
          attempt_tokens_in a = completion_tokens_in done \<and>
          attempt_tokens_out a = completion_tokens_out done
      | Inl e \<Rightarrow> attempt_outcome a = Failed \<and>
          attempt_received a = json_object [(''error'', String (message e))] \<and>
          attempt_tokens_in a = 0 \<and> attempt_tokens_out a = 0)"

text \<open>C19: an accepted completion request keeps its tier's contract and calls its tier's primary model
once; the backup vendor is called, once and after the pause, exactly when the primary's failure was worth
retrying. The call leaves one audit attempt, for the last model that was asked, and the caller is told
that model's answer, or that the service is unavailable when the last failure was worth retrying, and an
internal error otherwise; a provider's refusal is never handed back as the caller's fault.\<close>

theorem backup_exactly_when_worth_retrying:
  assumes "validated_prompt show_tier request = Inr p"
    and "complete_call show_tier provider ts elapsed request = (r, attempts, trace)"
  shows "prompt_ok p \<and>
    (\<exists>t a m result retried.
       models ts (tier p) = Some t \<and> attempts = [a] \<and>
       (retried \<longleftrightarrow> (\<exists>w. provider 0 (primary t) p = Inl (WorthRetrying w))) \<and>
       (m, result) = (if retried then (backup t, provider 1 (backup t) p)
                      else (primary t, provider 0 (primary t) p)) \<and>
       trace = Called (primary t) #
         (if retried then [Slept PAUSE_BEFORE_BACKUP, Called (backup t)] else []) \<and>
       records_call a p m retried result \<and> r = told m retried result)"
proof -
  have ok: "prompt_ok p" using assms(1) by (rule validated_prompt_ok)
  then obtain t where t: "models ts (tier p) = Some t"
    using served_tier_has_models [of "tier p" ts] by (auto simp: prompt_ok_def split: option.splits)
  define retried where "retried \<longleftrightarrow> (\<exists>w. provider 0 (primary t) p = Inl (WorthRetrying w))"
  define m where "m = (if retried then backup t else primary t)"
  define result where "result = (if retried then provider 1 (backup t) p else provider 0 (primary t) p)"
  have call: "deciding_call provider t p = (m, result)"
    by (auto simp: deciding_call_def m_def result_def retried_def split: sum.splits call_error.splits)
  from assms t obtain a where "attempts = [a]" and "records_call a p m retried result"
    and "r = told m retried result"
    and "trace = Called (primary t) #
         (if retried then [Slept PAUSE_BEFORE_BACKUP, Called (backup t)] else [])"
    by (cases result; cases "projl result")
      (auto simp: complete_call_def route_cases [OF t] call retried_def [symmetric] response_from_def)
  with ok t show ?thesis
    by (intro conjI exI [of _ t] exI [of _ a] exI [of _ m] exI [of _ result] exI [of _ retried])
      (auto simp: retried_def m_def result_def)
qed

section \<open>Structured decisions\<close>

lemma question_kinds_ok: "decision_ok c d \<Longrightarrow> \<forall>q \<in> set (questions d). kind_ok (kind q)"
  by (simp add: decision_ok_def question_ok_def Let_def)

lemma decided_fits:
  assumes "decide c (Some (system_one_decide c send s now, model)) elapsed request deadline =
             (Inr response, attempts)"
  shows "\<exists>d body a. reads_as c request d \<and> decision_ok c d \<and>
    ask c send s now model (d\<lparr>caller_stops_waiting_at := deadline\<rparr>) = Inr body \<and>
    answers_fit (questions d) body (dr_answers response) \<and>
    attempts = [a] \<and> da_outcome a = Answered \<and> da_received a = body \<and>
    da_sent a = audit_body model (d\<lparr>caller_stops_waiting_at := deadline\<rparr>)"
proof -
  from assms obtain d v a where d: "validated_decision c request = Inr d"
    and v: "system_one_decide c send s now model (d\<lparr>caller_stops_waiting_at := deadline\<rparr>) = Inr v"
    and rest: "response = decide_response_from v" "attempts = [a]" "da_outcome a = Answered"
      "da_received a = reply v" "da_sent a = sent v"
    by (auto simp: decide_def configured_def Let_def split: sum.splits)
  from v obtain body where ask: "ask c send s now model (d\<lparr>caller_stops_waiting_at := deadline\<rparr>) = Inr body"
    and read: "read_verdict c body (questions d)
      (audit_body model (d\<lparr>caller_stops_waiting_at := deadline\<rparr>)) = Inr v"
    by (auto simp: system_one_decide_def Let_def result_simps)
  from d have ok: "reads_as c request d" "decision_ok c d" by (auto simp: validated_decision_eq_Inr)
  from read_verdict_fits [OF read question_kinds_ok [OF ok(2)]] ok ask rest show ?thesis
    by (auto simp: decide_response_from_def)
qed

text \<open>C5: when \<^verbatim>\<open>Decide\<close> answers, the request was one the published budget admits, the provider was sent
that decision and nothing else, its reply held an answer to every question asked and to no other, and each
answer returned is of the kind, on the scale and among the options the caller gave; the audit row holds
what was sent and what came back.\<close>

theorem decide_answers_what_was_asked:
  assumes "decide c (Some (system_one_decide c send s now, model)) elapsed request deadline =
             (Inr response, attempts)"
  shows "\<exists>d body a. reads_as c request d \<and> decision_ok c d \<and>
    ask c send s now model (d\<lparr>caller_stops_waiting_at := deadline\<rparr>) = Inr body \<and>
    answers_fit (questions d) body (dr_answers response) \<and>
    attempts = [a] \<and> da_outcome a = Answered \<and> da_received a = body \<and>
    da_sent a = audit_body model (d\<lparr>caller_stops_waiting_at := deadline\<rparr>)"
  using decided_fits [OF assms] .

text \<open>A caller of a configured deployment is told that its request is invalid exactly when the request is outside
the published budget or the provider answered with one of the four statuses that describe a request body;
a rejected key, an exhausted balance, a mistyped address or a reply that cannot be used is never blamed on the
caller.\<close>

lemma caller_is_blamed_for_its_own_request_only:
  "(\<exists>m attempts. decide c (Some (system_one_decide c send s now, model)) elapsed request deadline =
      (Inl (InvalidArgument, m), attempts)) \<longleftrightarrow>
   (\<exists>e. validated_decision c request = Inl e) \<or>
   (\<exists>d response. validated_decision c request = Inr d \<and>
      send (ask_request s now model (d\<lparr>caller_stops_waiting_at := deadline\<rparr>)) = Inr response \<and>
      status response \<in> set BODY_SHAPED_FAULTS)"
proof (cases "validated_decision c request")
  case (Inl e)
  then have "fst e = InvalidArgument" using only_refuses_decision [of c request] by simp
  with Inl show ?thesis by (cases e) (simp add: decide_def configured_def)
next
  case (Inr d)
  let ?d = "d\<lparr>caller_stops_waiting_at := deadline\<rparr>"
  have "(\<exists>m. system_one_decide c send s now model ?d = Inl f \<and> decide_error f = Refused m) \<Longrightarrow>
        \<exists>m. ask c send s now model ?d = Inl (Refused m)" for f
    by (cases "ask c send s now model ?d")
      (auto simp: system_one_decide_def Let_def map_err_def read_verdict_not_refused split: sum.splits)
  moreover have "ask c send s now model ?d = Inl (Refused m) \<Longrightarrow>
        system_one_decide c send s now model ?d =
          Inl \<lparr>not_sent = audit_body model ?d, decide_error = Refused m\<rparr>" for m
    by (simp add: system_one_decide_def Let_def)
  moreover have "reported e = (InvalidArgument, m) \<longleftrightarrow> e = Refused m" for e m
    by (cases e) auto
  ultimately have "(\<exists>m attempts. decide c (Some (system_one_decide c send s now, model)) elapsed request
      deadline = (Inl (InvalidArgument, m), attempts)) \<longleftrightarrow>
      (\<exists>m. ask c send s now model ?d = Inl (Refused m))"
    using Inr by (auto simp: decide_def configured_def Let_def split: sum.splits)
  with Inr ask_Refused [of c send s now model ?d] show ?thesis by simp
qed

section \<open>The audit tables\<close>

lemma bounded_model_name_prefix:
  "\<exists>n. bounded_model_name nm = take n nm \<and> is_char_boundary nm (min n (length nm)) \<and>
     length (bounded_model_name nm) \<le> MODEL_NAME_BYTES"
proof (cases "MODEL_NAME_BYTES < length nm")
  case True
  have "List.find (is_char_boundary nm) (rev [0..<Suc MODEL_NAME_BYTES]) \<noteq> None"
    unfolding find_None_iff by (auto simp: is_char_boundary_def simp del: upt_Suc)
  then obtain n where
    n: "List.find (is_char_boundary nm) (rev [0..<Suc MODEL_NAME_BYTES]) = Some n" by blast
  then have "is_char_boundary nm n" and "n \<le> MODEL_NAME_BYTES"
    using nth_mem by (fastforce simp: find_Some_iff rev_nth simp del: upt_Suc)+
  with True n show ?thesis
    by (intro exI [of _ n]) (simp add: bounded_model_name_def min_absorb1)
next
  case False
  then show ?thesis
    by (intro exI [of _ "length nm"]) (simp add: bounded_model_name_def is_char_boundary_def)
qed

datatype audit_op =
    LogRequest instant "db_fault option" attempt
  | LogDecision instant "db_fault option" decision_attempt

fun apply_audit :: "audit_op \<Rightarrow> audit_db \<Rightarrow> audit_db" where
  "apply_audit (LogRequest now fault a) db = snd (record_attempt now fault a db)"
| "apply_audit (LogDecision now fault a) db = snd (record_decision now fault a db)"

definition empty_audit :: audit_db where
  "empty_audit =
     \<lparr>request_rows = [], request_payload_rows = [], decision_rows = [], decision_payload_rows = [],
      request_seq = 1, request_payload_seq = 1, decision_seq = 1, decision_payload_seq = 1\<rparr>"

text \<open>
  One payload for each statistics row, written with it and naming it; ids drawn from a sequence, so none
  is used twice; every model name fits its column.
\<close>

definition pairs_with :: "(int \<times> instant) list \<Rightarrow> payload_row list \<Rightarrow> int \<Rightarrow> int \<Rightarrow> bool" where
  "pairs_with stats payloads seq payload_seq \<longleftrightarrow>
     map (\<lambda>p. (pr_of p, pr_created_at p)) payloads = stats \<and>
     distinct (map fst stats) \<and> (\<forall>i \<in> set (map fst stats). i < seq) \<and>
     distinct (map pr_id payloads) \<and> (\<forall>i \<in> set (map pr_id payloads). i < payload_seq)"

definition audit_ok :: "audit_db \<Rightarrow> bool" where
  "audit_ok db \<longleftrightarrow>
     pairs_with (map (\<lambda>r. (rr_id r, rr_created_at r)) (request_rows db)) (request_payload_rows db)
       (request_seq db) (request_payload_seq db) \<and>
     pairs_with (map (\<lambda>r. (dr_id r, dr_created_at r)) (decision_rows db)) (decision_payload_rows db)
       (decision_seq db) (decision_payload_seq db) \<and>
     (\<forall>r \<in> set (request_rows db). length (rr_model_used r) \<le> MODEL_NAME_BYTES) \<and>
     (\<forall>r \<in> set (decision_rows db). length (dr_model_name r) \<le> MODEL_NAME_BYTES)"

lemma pairs_with_bump:
  "pairs_with stats payloads m n \<Longrightarrow> pairs_with stats payloads (bump b m) (bump b' n)"
  by (auto simp: pairs_with_def bump_def)

lemma pairs_with_snoc:
  assumes "pairs_with stats payloads m n" and "pr_of p = m" "pr_created_at p = now" "pr_id p = n"
  shows "pairs_with (stats @ [(m, now)]) (payloads @ [p]) (m + 1) (n + 1)"
  using assms by (force simp: pairs_with_def)

lemma bump_simps [simp]: "bump True n = n + 1" "bump False n = n"
  by (simp_all add: bump_def)

lemma record_attempt_ok: "audit_ok db \<Longrightarrow> audit_ok (snd (record_attempt now fault a db))"
  using bounded_model_name_prefix [of "attempt_model_used a"]
  by (cases fault)
    (auto simp: record_attempt_def audit_ok_def Let_def drew_statistics_def drew_payload_def
      intro!: pairs_with_bump pairs_with_snoc)

lemma record_decision_ok: "audit_ok db \<Longrightarrow> audit_ok (snd (record_decision now fault a db))"
  using bounded_model_name_prefix [of "da_model_used a"]
  by (cases fault)
    (auto simp: record_decision_def audit_ok_def Let_def drew_statistics_def drew_payload_def
      intro!: pairs_with_bump pairs_with_snoc)

lemma apply_audit_ok: "audit_ok db \<Longrightarrow> audit_ok (apply_audit op db)"
  by (cases op) (simp_all add: record_attempt_ok record_decision_ok)

fun logged_attempt :: "audit_op \<Rightarrow> attempt option" where
  "logged_attempt (LogRequest now None a) = Some a"
| "logged_attempt _ = None"

lemma apply_audit_rows:
  "map rr_attempt (request_rows (apply_audit op db)) =
   map rr_attempt (request_rows db) @ (case logged_attempt op of None \<Rightarrow> [] | Some a \<Rightarrow> [a])"
  by (cases op rule: logged_attempt.cases)
    (auto simp: record_attempt_def record_decision_def Let_def)

text \<open>Whatever faults strike its transactions, the audit log holds for every call it stored both the
statistics row and its payload, written at the same instant, and for every other call neither; ids are never
reused, every model name fits its column, and the rows are the stored attempts in the order they were made.\<close>

lemma audit_keeps_both_rows_or_neither:
  "audit_ok (fold apply_audit ops empty_audit) \<and>
   map rr_attempt (request_rows (fold apply_audit ops empty_audit)) =
     List.map_filter logged_attempt ops"
proof -
  have "audit_ok db \<Longrightarrow> audit_ok (fold apply_audit ops db)" for db
    by (induction ops arbitrary: db) (simp_all add: apply_audit_ok)
  moreover have "audit_ok empty_audit"
    by (simp add: audit_ok_def empty_audit_def pairs_with_def)
  moreover have "map rr_attempt (request_rows (fold apply_audit ops db)) =
      map rr_attempt (request_rows db) @ List.map_filter logged_attempt ops" for db
    by (induction ops arbitrary: db)
      (auto simp: apply_audit_rows map_filter_simps split: option.splits)
  ultimately show ?thesis by (simp add: empty_audit_def)
qed

end
