(* ===== verification/Router_Witnesses.thy ===== *)
theory Router_Witnesses
  imports Router_Props
begin

text \<open>
  Concrete calls of the router: a completion whose primary vendor is busy and whose backup answers, and a
  decision with one question of each kind that a System One provider answers.
\<close>

section \<open>A completion that falls back\<close>

definition sample_prompt :: prompt where
  "sample_prompt = \<lparr>tier = Low, system = [], user = ''hi'',
     prompt_sampling = default_sampling\<lparr>max_tokens := Some 10\<rparr>\<rparr>"

definition sample_completion_request :: complete_request where
  "sample_completion_request =
     \<lparr>cr_tier = Known Low, cr_system_prompt = [], cr_user_prompt = ''hi'',
      cr_sampling = Some (default_sampling\<lparr>max_tokens := Some 10\<rparr>)\<rparr>"

definition sample_completion :: completion where
  "sample_completion = \<lparr>completion_content = ''hello'', completion_tokens_in = 1,
     completion_tokens_out = 1, completion_finish_reason = Stop, completion_reply = Null\<rparr>"

definition busy_primary :: provider where
  "busy_primary n model p = (if n = 0 then Inl (WorthRetrying ''busy'') else Inr sample_completion)"

definition sample_tiers :: tiers where
  "sample_tiers =
     (let t = \<lparr>primary = ''first'', backup = ''second''\<rparr> in
      \<lparr>low_models = t, medium_models = t, high_models = t\<rparr>)"

lemma sample_prompt_ok: "prompt_ok sample_prompt"
  by (simp add: prompt_ok_def sample_prompt_def sampling_ok_def default_sampling_def
      trim_def is_whitespace_def estimated_tokens_def char_count_def is_continuation_def counted_def
      CHARS_PER_TOKEN_def WIDE_CONTEXT_TOKENS_def SHORT_ANSWER_TOKENS_def MAX_LOGIT_BIAS_ENTRIES_def
      fcard_def)

lemma sample_validated:
  "validated_prompt (\<lambda>_. []) sample_completion_request = Inr sample_prompt"
  using validated_prompt_complete [OF sample_prompt_ok, of "\<lambda>_. []"]
  by (simp add: sample_completion_request_def sample_prompt_def)

theorem backup_exactly_when_worth_retrying_witness:
  "\<exists>r attempts. complete_call (\<lambda>_. []) busy_primary sample_tiers 5 sample_completion_request =
       (r, attempts, [Called ''first'', Slept PAUSE_BEFORE_BACKUP, Called ''second'']) \<and>
     r = told ''second'' True (Inr sample_completion)"
proof -
  obtain r attempts trace where
    call: "complete_call (\<lambda>_. []) busy_primary sample_tiers 5 sample_completion_request =
      (r, attempts, trace)" by (metis prod_cases3)
  have models: "models sample_tiers (tier sample_prompt) = Some \<lparr>primary = ''first'', backup = ''second''\<rparr>"
    by (simp add: sample_prompt_def sample_tiers_def Let_def)
  from backup_exactly_when_worth_retrying [OF sample_validated call] call models show ?thesis
    by (auto simp: busy_primary_def)
qed

section \<open>A decision that is answered\<close>

definition sample_options :: "choice_option list" where
  "sample_options = [\<lparr>option_name = ''billing'', option_description = None\<rparr>]"

definition sample_request :: "unit decide_request" where
  "sample_request =
     \<lparr>req_state = Some (),
      req_questions =
        [\<lparr>pq_id = ''urgent'', pq_instructions = Some (), pq_kind = Some (ProtoNoul None None)\<rparr>,
         \<lparr>pq_id = ''where'', pq_instructions = Some (), pq_kind = Some (ProtoChoice sample_options)\<rparr>,
         \<lparr>pq_id = ''mood'', pq_instructions = Some (),
          pq_kind = Some (ProtoScore [''calm'', ''cross''])\<rparr>]\<rparr>"

definition sample_reply :: json where
  "sample_reply = json_object
     [(''answers'', json_object
        [(''urgent'', json_object [(''type'', String ''noul''), (''noul'', Number (Float 1))]),
         (''where'', json_object [(''type'', String ''choice''), (''choice'', String ''billing'')]),
         (''mood'', json_object [(''type'', String ''score''), (''score'', Number (Float 0))])])]"

definition sample_codec :: "unit json_codec" where
  "sample_codec =
     \<lparr>to_value = (\<lambda>_. Inr (String ''ticket'')), to_string = (\<lambda>_. ''ticket''),
      from_slice = (\<lambda>_. Inr sample_reply), show_f64 = (\<lambda>_. [])\<rparr>"

definition answering :: http where
  "answering request = Inr \<lparr>status = 200, content_length = None, chunks = []\<rparr>"

definition sample_adapter :: system_one where
  "sample_adapter = new_system_one ''http://vendor/'' ''key'' SYSTEM_ONE_TIMEOUT"

definition sample_decision :: decision where
  "sample_decision =
     \<lparr>decision_state = String ''ticket'',
      questions =
        [\<lparr>question_id = ''urgent'', instructions = String ''ticket'', kind = Noul None None\<rparr>,
         \<lparr>question_id = ''where'', instructions = String ''ticket'', kind = Choice sample_options\<rparr>,
         \<lparr>question_id = ''mood'', instructions = String ''ticket'', kind = Score [''calm'', ''cross'']\<rparr>],
      caller_stops_waiting_at = None\<rparr>"

lemma sample_accepted: "validated_decision sample_codec sample_request = Inr sample_decision"
  by (simp add: validated_decision_eq_Inr reads_as_def question_reads_as_def sample_codec_def
      sample_request_def sample_decision_def decision_ok_def question_ok_def question_bytes_def
      optional_bytes_def options_ok_def sample_options_def MAX_QUESTIONS_def MAX_STATE_BYTES_def
      MAX_QUESTION_ID_BYTES_def MAX_INSTRUCTIONS_BYTES_def MAX_LEVEL_BYTES_def MAX_CHOICE_OPTIONS_def
      MAX_OPTION_NAME_BYTES_def MAX_OPTION_DESCRIPTION_BYTES_def MIN_SCORE_LEVELS_def
      MAX_SCORE_LEVELS_def MAX_STATE_PLUS_QUESTION_BYTES_def VENDOR_STATE_PLUS_QUESTION_TOKENS_def
      WORST_CASE_BYTES_PER_TOKEN_def MAX_REQUEST_BYTES_def VENDOR_REQUEST_TOKENS_def)

lemma sample_read:
  "\<exists>v. read_verdict sample_codec sample_reply (questions sample_decision) was_sent = Inr v"
proof -
  have keys: "List.find (\<lambda>i. \<not> list_ex (\<lambda>q. question_id q = i) (questions sample_decision))
      (map fst (entries m)) = None"
    if "fset (fmdom m) = {''urgent'', ''where'', ''mood''}" for m
    using that by (auto simp: find_None_iff entries_def sample_decision_def)
  show ?thesis
    by (simp add: read_verdict_def sample_reply_def at_key_def json_object_def keys)
      (simp add: sample_decision_def read_answer_def read_given_def Let_def at_key_def json_object_def
        str_or_empty_def probability_def read_number_def chosen_option_def offered_def sample_options_def
        named_probabilities_def levelled_probabilities_def object_field_def given_value_def
        confidence_def scored_def unat_clamp_u32)
qed

theorem decide_answers_what_was_asked_witness:
  "\<exists>response attempts. decide sample_codec
       (Some (system_one_decide sample_codec answering sample_adapter 0, ''jev'')) 5 sample_request None =
         (Inr response, attempts) \<and>
     answers_fit (questions sample_decision) sample_reply (dr_answers response) \<and> length attempts = 1"
proof -
  have ask: "ask sample_codec answering sample_adapter 0 ''jev'' d = Inr sample_reply" for d
    by (simp add: ask_def answering_def is_success_def read_provider_response_def sample_codec_def)
  obtain v where v: "read_verdict sample_codec sample_reply (questions sample_decision)
      (audit_body ''jev'' (sample_decision\<lparr>caller_stops_waiting_at := None\<rparr>)) = Inr v"
    using sample_read by blast
  obtain response attempts where d: "decide sample_codec
      (Some (system_one_decide sample_codec answering sample_adapter 0, ''jev'')) 5 sample_request None =
      (Inr response, attempts)"
    by (simp add: decide_def configured_def sample_accepted system_one_decide_def Let_def ask v)
  from decide_answers_what_was_asked [OF d] obtain d' where
    "validated_decision sample_codec sample_request = Inr d'"
    and "answers_fit (questions d') sample_reply (dr_answers response)" and "length attempts = 1"
    by (auto simp: ask validated_decision_eq_Inr)
  with sample_accepted d show ?thesis by simp
qed

end
