(* ===== verification/Agent_Text.thy ===== *)
theory Agent_Text
  imports Tool_Executor Text_Search
begin

text \<open>
  The words of the agent: \<^verbatim>\<open>common/src/agent_replies.rs\<close>, the replies it writes about itself, and the
  prompt texts, question texts and limits at the head of \<^verbatim>\<open>services/engine/src/executors/llm.rs\<close>.
  A text of several lines is the list of its lines. A string is the list of its UTF-8 bytes, so the dash
  and the ellipsis are three bytes each.
\<close>

section \<open>Texts of several lines\<close>

definition NEWLINE :: string where "NEWLINE = [CHR 0x0A]"
definition ELLIPSIS :: string where "ELLIPSIS = [CHR 0xE2, CHR 0x80, CHR 0xA6]"

definition text_lines :: "string list \<Rightarrow> string" where
  "text_lines ls = join NEWLINE ls"

section \<open>agent\_replies.rs\<close>

definition DECLINE_OPENING :: string where
  "DECLINE_OPENING = ''I can only answer from what I'm connected to: ''"

definition CLARIFY_OPENING :: string where
  "CLARIFY_OPENING = ''I can look that up, but I need ''"

definition NOTHING_CONNECTED :: string where
  "NOTHING_CONNECTED = ''I'm not connected to anything I can answer from at the moment. Please try '' @
       ''again shortly.''"

definition COMPOSE_FAILURE :: string where
  "COMPOSE_FAILURE = ''I couldn't work out what to look up for that. Could you say it again with '' @
       ''the name in it?''"

definition PROMISE_REFUSED :: string where
  "PROMISE_REFUSED = ''I couldn't get that just now. Ask me again and I'll try.''"

definition UNGROUNDED_REFUSED :: string where
  "UNGROUNDED_REFUSED = ''I got something back but couldn't read the answer out of it.''"

definition EVERY_REPLY_THE_AGENT_WRITES_ABOUT_ITSELF :: "string list" where
  "EVERY_REPLY_THE_AGENT_WRITES_ABOUT_ITSELF =
     [DECLINE_OPENING, CLARIFY_OPENING, NOTHING_CONNECTED, COMPOSE_FAILURE, PROMISE_REFUSED,
      UNGROUNDED_REFUSED]"

definition is_about_itself :: "string \<Rightarrow> bool" where
  "is_about_itself said \<longleftrightarrow>
     list_ex (starts_with (trim_start said)) EVERY_REPLY_THE_AGENT_WRITES_ABOUT_ITSELF"

section \<open>llm.rs: texts\<close>

definition DEFAULT_SYSTEM_PROMPT :: string where
  "DEFAULT_SYSTEM_PROMPT = ''You are a helpful assistant.''"

definition TOOL_SLUG_PLACEHOLDER :: string where
  "TOOL_SLUG_PLACEHOLDER = ''<tool slug>''"

definition ARGUMENT_NAME_PLACEHOLDER :: string where
  "ARGUMENT_NAME_PLACEHOLDER = ''<argument name>''"

definition ARGUMENT_VALUE_PLACEHOLDER :: string where
  "ARGUMENT_VALUE_PLACEHOLDER = ''<argument value>''"

definition ANSWER_PLACEHOLDER :: string where
  "ANSWER_PLACEHOLDER = ''<your answer>''"

definition FINAL_ANSWER_STYLE :: string where
  "FINAL_ANSWER_STYLE = text_lines
     [[],
      ''Final answer style, overriding any instinct to be thorough or helpful: your '' @
       ''\"reply\" is read aloud.'',
      ''Your reply is either the value you were asked for, or an admission that you '' @
       ''could not get it.'',
      ''There is no third option: naming a place the value could be found is not an '' @
       ''answer, it is the'',
      ''admission with extra words. If you do not have the value, the whole reply '' @
       ''is a handful of words'',
      ''saying so.'',
      ''Answer only what was asked, in as few words as it takes '' @ EM_DASH @
       '' a fragment is better than a sentence,'',
      ''and one line is the maximum. Give the value, not a write-up of it.'',
      ''Never narrate your process, never list sources, never use markdown. Never '' @
       ''add advice, suggestions,'',
      ''next steps, alternatives, caveats or offers of further help: the user asked '' @
       ''a question, not for'',
      ''instructions.'',
      ''A bare value, a fragment, or \"Couldn't get it.\" are all complete answers. A '' @
       ''sentence that opens'',
      ''with \"Based on my search\" or closes by suggesting where else to look is not.'',
      []]"

definition TOOL_USE_POLICY :: string where
  "TOOL_USE_POLICY = text_lines
     [[],
      ''The tools listed above are live and connected. Use one rather than '' @
       ''answering from memory'',
      ''whenever you are not certain your answer is correct and current '' @ EM_DASH @
       '' anything that could have'',
      ''changed since you were trained, any specific fact you would be guessing at, '' @
       ''and anything about'',
      ''this system's own data. Only answer directly when the question needs no '' @
       ''outside information, or'',
      ''when the tools have already given you what you need.'',
      ''Never reply that you lack access, cannot browse, or that your knowledge has '' @
       ''a cutoff while a'',
      ''tool that could answer is listed above '' @ EM_DASH @
       '' call it instead. Never decline because you are unsure a'',
      ''tool is available or working: call it, and if it fails you will be shown '' @
       ''the error and can try'',
      ''another. Never tell the user to go look somewhere else.'',
      ''Keep going until you have the actual value. If one tool's result does not '' @
       ''yet contain the'',
      ''concrete answer, use what it gave you to call another '' @ EM_DASH @
       '' and when several candidates would each'',
      ''answer the question, pass them together so whichever responds first wins, '' @
       ''instead of spending a'',
      ''turn per failure.'',
      ''Your response is either a tool_call or the finished answer '' @ EM_DASH @
       '' never a description of what you are'',
      ''about to do. If your next step is a tool call, make that call in this very '' @
       ''response.'',
      ''Every specific value you state '' @ EM_DASH @
       '' a number, a name, a date, a status '' @ EM_DASH @
       '' must appear in a tool result'',
      ''you were shown in this conversation. Never fill one in from memory, and '' @
       ''never carry one over from'',
      ''what you knew before: a value you remember is out of date by definition, '' @
       ''and a plausible wrong'',
      ''value is worse than none. If a tool result does not contain what was asked, '' @
       ''call another tool; if'',
      ''nothing gives it to you, say you could not get it rather than supplying it '' @
       ''yourself.'',
      []]"

definition TRUNCATION_MARK :: string where
  "TRUNCATION_MARK = ELLIPSIS @ '' (truncated)''"

definition PROMISE_ID :: string where
  "PROMISE_ID = ''promise''"

definition PROMISE_INSTRUCTIONS :: string where
  "PROMISE_INSTRUCTIONS = ''Does this text undertake to do something, rather than report something '' @
       ''already done or known?''"

definition PROMISE_WHEN_TRUE :: string where
  "PROMISE_WHEN_TRUE = ''it says what it is about to do, will do, or needs to do '' @ EM_DASH @
       '' work that has not happened yet''"

definition PROMISE_WHEN_FALSE :: string where
  "PROMISE_WHEN_FALSE = ''it states what is the case, gives a value, answers, asks the person '' @
       ''something, or says plainly that it could not find out''"

definition PROMISE_CORRECTION :: string where
  "PROMISE_CORRECTION = text_lines
     ['' It undertook to do something rather than'',
      ''reporting what came back. Nothing runs after your reply. Answer from what '' @
       ''is already in front of'',
      ''you.'',
      []]"

definition POINTED_AT_ID :: string where
  "POINTED_AT_ID = ''pointed_at''"

definition POINTED_AT_INSTRUCTIONS :: string where
  "POINTED_AT_INSTRUCTIONS = ''Does `message` refer to `value`, by that name or by any description that '' @
       ''can only mean it?''"

definition POINTED_AT_WHEN_TRUE :: string where
  "POINTED_AT_WHEN_TRUE = ''the message points at this one thing, whether by naming it or by describing '' @
       ''it unambiguously''"

definition POINTED_AT_WHEN_FALSE :: string where
  "POINTED_AT_WHEN_FALSE = ''the message does not point at this thing at all, or points at it only '' @
       ''vaguely''"

definition GROUNDED_ID :: string where
  "GROUNDED_ID = ''grounded''"

definition GROUNDED_INSTRUCTIONS :: string where
  "GROUNDED_INSTRUCTIONS = ''Is every specific value in the reply present in the material?''"

definition GROUNDED_WHEN_TRUE :: string where
  "GROUNDED_WHEN_TRUE = ''every name, number and fact in the reply can be found in the material''"

definition GROUNDED_WHEN_FALSE :: string where
  "GROUNDED_WHEN_FALSE = ''the reply states a name, number or fact the material does not contain''"

definition UNGROUNDED_CORRECTION :: string where
  "UNGROUNDED_CORRECTION = text_lines
     ['' Nothing in what came back says it.'',
      ''Write the reply again using only the values in front of you, and do not '' @
       ''repeat the refused words.'',
      ''The question names a subject; what came back holds what was measured about '' @
       ''it, and the measurement'',
      ''is the answer '' @ EM_DASH @
       '' never the subject's own name. If what came back does not hold the answer, '' @
       ''say so.'',
      []]"

definition TOOL_QUESTION_ID :: string where
  "TOOL_QUESTION_ID = ''tool''"

definition NO_TOOL_OPTION :: string where
  "NO_TOOL_OPTION = ''none''"

definition PRIOR_OPTION :: string where
  "PRIOR_OPTION = ''already_found''"

definition PRIOR_DESCRIPTION :: string where
  "PRIOR_DESCRIPTION = ''the material already shown above. Choose this when the answer is somewhere '' @
       ''in that material '' @ EM_DASH @
       '' including what was asked for, which the material records beside each '' @
       ''result '' @ EM_DASH @ '' so nothing new needs looking up''"

definition TOOL_QUESTION_INSTRUCTIONS :: string where
  "TOOL_QUESTION_INSTRUCTIONS = ''Which of these sources can answer this question? Choose the one whose '' @
       ''material covers what is being asked. Choose the option for none of them '' @
       ''when none does.''"

definition DECLINE_CLOSING :: string where
  "DECLINE_CLOSING = ''Which of those did you mean?''"

definition MISSING_VALUE_FALLBACK :: string where
  "MISSING_VALUE_FALLBACK = ''to know what to look it up for''"

definition NO_TOOL_DESCRIPTION :: string where
  "NO_TOOL_DESCRIPTION = ''no source listed here holds what this question asks for, or the message '' @
       ''asks for nothing''"

definition VALUE_QUESTION_PREFIX :: string where
  "VALUE_QUESTION_PREFIX = ''value::''"

definition VALUE_STATED_PREFIX :: string where
  "VALUE_STATED_PREFIX = ''stated::''"

definition VALUE_ONE_ONLY_PREFIX :: string where
  "VALUE_ONE_ONLY_PREFIX = ''one_only::''"

definition NO_VALUE_OPTION :: string where
  "NO_VALUE_OPTION = ''none''"

definition COMPOSE_REFUSAL :: string where
  "COMPOSE_REFUSAL = text_lines
     [[],
      [],
      ''Your previous response was refused: it carried no tool call. Saying that '' @
       ''you will look something'',
      ''up does nothing '' @ EM_DASH @
       '' nothing runs after your reply. Call the tool now.'',
      []]"

definition COMPOSE_ONLY_INSTRUCTIONS :: "string \<Rightarrow> string" where
  "COMPOSE_ONLY_INSTRUCTIONS a_call = text_lines
     [[],
      ''Call one of the tools below. Respond with exactly this JSON and nothing '' @
       ''else:'',
      a_call,
      ''Argument values come from the message itself, or from material already '' @
       ''shown to you. Never supply'',
      ''one of your own.'',
      ''Do not answer from your own knowledge, and do not describe what you are '' @
       ''about to do '' @ EM_DASH @ '' a reply'',
      ''without a tool call is not accepted here.'',
      []]"

definition FROM_MATERIAL_INSTRUCTIONS :: "string \<Rightarrow> string" where
  "FROM_MATERIAL_INSTRUCTIONS an_answer = text_lines
     [[],
      ''Answer from the material below, which this system looked up earlier in this '' @
       ''conversation. Use'',
      ''only what is there '' @ EM_DASH @
       '' including what was asked for, which the material records beside each '' @
       ''result.'',
      ''Respond with exactly this JSON and nothing else:'',
      an_answer,
      []]"

definition TOOL_CALLING_INSTRUCTIONS :: "string \<Rightarrow> string \<Rightarrow> string" where
  "TOOL_CALLING_INSTRUCTIONS a_call an_answer = text_lines
     [[],
      ''If you need a tool, respond with exactly this JSON and nothing else:'',
      a_call,
      ''Otherwise, respond with exactly this JSON and nothing else:'',
      an_answer,
      ''A tool result shown as an ERROR means that call failed, not that the task '' @
       ''is over: fix the'',
      ''arguments and call the tool again, call a different tool that can answer '' @
       ''the question, or reply'',
      ''with the best answer you can give from what you already have. Do not repeat '' @
       ''a call that has'',
      ''already failed the same way.'',
      []]"

definition UNCHECKED_REFUSED :: string where "UNCHECKED_REFUSED = PROMISE_REFUSED"

section \<open>llm.rs: numbers\<close>

text \<open>Durations in milliseconds, thresholds as exact fractions.\<close>

definition RETRY_ATTEMPTS :: nat where "RETRY_ATTEMPTS = 3"
definition RETRY_BASE_DELAY :: nat where "RETRY_BASE_DELAY = 200"
definition MAX_CHARS_PER_RENDERED_TOOL_RESULT :: nat where
  "MAX_CHARS_PER_RENDERED_TOOL_RESULT = 12000"
definition MAX_CHARS_OF_TOOL_RESULTS_SHOWN_AT_ONCE :: nat where
  "MAX_CHARS_OF_TOOL_RESULTS_SHOWN_AT_ONCE =
     RENDERED_TOOL_RESULTS * MAX_CHARS_PER_RENDERED_TOOL_RESULT"
definition MAX_CHARS_OF_WHAT_WAS_ASKED :: nat where "MAX_CHARS_OF_WHAT_WAS_ASKED = 1000"
definition PROMISE_ENOUGH_TO_REFUSE :: rat where "PROMISE_ENOUGH_TO_REFUSE = 1 / 2"
definition POINTED_AT_ENOUGH_TO_DISPATCH :: rat where "POINTED_AT_ENOUGH_TO_DISPATCH = 4 / 5"
definition BELOW_EVERY_THRESHOLD :: rat where "BELOW_EVERY_THRESHOLD = 0"
definition CARRIED_MATERIAL_GOES_STALE_AFTER :: int where
  "CARRIED_MATERIAL_GOES_STALE_AFTER = 10 * 60 * 1000000000"
definition GROUNDED_ENOUGH_TO_SEND :: rat where "GROUNDED_ENOUGH_TO_SEND = 1 / 2"
definition TOOL_CHOICE_CONFIDENT_ENOUGH_TO_ACT_ON :: rat where
  "TOOL_CHOICE_CONFIDENT_ENOUGH_TO_ACT_ON = 1 / 2"
definition MAX_CHARS_SENT_TO_A_TOOL_VERBATIM :: nat where "MAX_CHARS_SENT_TO_A_TOOL_VERBATIM = 200"
definition VALUE_CHOICE_CONFIDENT_ENOUGH_TO_DISPATCH :: rat where
  "VALUE_CHOICE_CONFIDENT_ENOUGH_TO_DISPATCH = 3 / 5"
definition VALUE_STATED_ENOUGH_TO_DISPATCH :: rat where "VALUE_STATED_ENOUGH_TO_DISPATCH = 1 / 2"
definition VALUE_ONE_ONLY_ENOUGH_TO_DISPATCH :: rat where "VALUE_ONE_ONLY_ENOUGH_TO_DISPATCH = 1 / 2"
definition MAX_SPAN_WORDS :: nat where "MAX_SPAN_WORDS = 3"
definition MAX_SPAN_OPTIONS :: nat where "MAX_SPAN_OPTIONS = 200"
definition OPTION_NAME_LIMIT :: nat where "OPTION_NAME_LIMIT = 64"
definition OPTION_DESCRIPTION_LIMIT :: nat where "OPTION_DESCRIPTION_LIMIT = 1024"
definition STATE_BYTES_BEYOND_WHICH_THE_DECIDER_REFUSES :: nat where
  "STATE_BYTES_BEYOND_WHICH_THE_DECIDER_REFUSES = 49152"
definition STATE_BYTES_KEPT_FREE_FOR_THE_MESSAGE_AND_THE_REPLY :: nat where
  "STATE_BYTES_KEPT_FREE_FOR_THE_MESSAGE_AND_THE_REPLY = 8192"
definition WORST_CASE_BYTES_PER_CHAR_OF_JSON :: nat where "WORST_CASE_BYTES_PER_CHAR_OF_JSON = 4"
definition MAX_CHARS_OF_MATERIAL_IN_A_DECISION :: nat where
  "MAX_CHARS_OF_MATERIAL_IN_A_DECISION =
     (STATE_BYTES_BEYOND_WHICH_THE_DECIDER_REFUSES -
      STATE_BYTES_KEPT_FREE_FOR_THE_MESSAGE_AND_THE_REPLY) div WORST_CASE_BYTES_PER_CHAR_OF_JSON"
definition TRIES_TO_FIT_THE_MATERIAL :: nat where "TRIES_TO_FIT_THE_MATERIAL = 8"
definition EACH_TRY_AIMS_AT_PERCENT_OF_THE_LIMIT :: nat where
  "EACH_TRY_AIMS_AT_PERCENT_OF_THE_LIMIT = 90"
definition MAX_ARGUMENTS_ASKED_ABOUT_AT_ONCE :: nat where "MAX_ARGUMENTS_ASKED_ABOUT_AT_ONCE = 4"

end
