(* ===== verification/Agent_Decisions.thy ===== *)
theory Agent_Decisions
  imports Router_Service Agent_Text
begin

text \<open>
  The pure half of \<^verbatim>\<open>services/engine/src/executors/llm.rs\<close>: what the model is shown of the material, the
  prompt, the reading of its output, the typed decisions the agent asks for and what it makes of their
  answers. The messages to and from llm-router are those of the router's own theories, so the requests
  built here can be handed to the router's own check.

  Parameters, in the record \<open>agent_codec\<close>: the derived codecs of \<^verbatim>\<open>LlmOutput\<close>, \<^verbatim>\<open>ToolCall\<close> and
  \<^verbatim>\<open>ExecutionInput\<close>, the conversion of JSON to a protobuf value, RFC 3339, and the Unicode classes
  of a character.
\<close>

section \<open>Parameters\<close>

record 'v agent_codec =
  base :: serde
  write_llm_output :: "llm_output \<Rightarrow> json"
  show_llm_output :: "llm_output \<Rightarrow> string"
  read_llm_output_text :: "string \<Rightarrow> llm_output option"
  read_llm_output_prefix :: "string \<Rightarrow> llm_output option"
  write_tool_call :: "tool_call \<Rightarrow> json"
  question_in :: "json \<Rightarrow> string"
  proto_value :: "json \<Rightarrow> 'v option"
  read_instant :: "string \<Rightarrow> instant option"
  write_instant :: "instant \<Rightarrow> string"
  white_space :: "string \<Rightarrow> bool"
  alphanumeric :: "string \<Rightarrow> bool"

section \<open>tool\_schema.rs\<close>

definition ACCEPTS_FREE_TEXT :: string where "ACCEPTS_FREE_TEXT = ''x-accepts-free-text''"
definition VALUE_IN_MESSAGE :: string where "VALUE_IN_MESSAGE = ''x-value-in-message''"

definition flagged :: "json \<Rightarrow> string \<Rightarrow> bool" where
  "flagged property k = (case Option.bind (get property k) as_bool of None \<Rightarrow> False | Some b \<Rightarrow> b)"

definition accepts_free_text :: "json \<Rightarrow> bool" where
  "accepts_free_text property = flagged property ACCEPTS_FREE_TEXT"

definition value_in_message :: "json \<Rightarrow> bool" where
  "value_in_message property = flagged property VALUE_IN_MESSAGE"

section \<open>Characters of a UTF-8 string\<close>

definition truncated_to :: "string \<Rightarrow> nat \<Rightarrow> string" where
  "truncated_to s n =
     (if length (utf8_chars s) \<le> n then s else concat (take n (utf8_chars s)) @ TRUNCATION_MARK)"

fun last_boundary_from :: "string \<Rightarrow> nat \<Rightarrow> nat" where
  "last_boundary_from s 0 = 0"
| "last_boundary_from s (Suc n) = (if is_char_boundary s (Suc n) then Suc n else last_boundary_from s n)"

definition last_char_boundary_within :: "string \<Rightarrow> nat \<Rightarrow> nat" where
  "last_char_boundary_within s n = last_boundary_from s (min n (length s))"

definition clamped_to :: "string \<Rightarrow> nat \<Rightarrow> string" where
  "clamped_to s n =
     (if length s \<le> n then s
      else take (last_char_boundary_within s (n - length TRUNCATION_MARK)) s @ TRUNCATION_MARK)"

section \<open>Material\<close>

datatype mode = Loop | ComposeOnly | FromMaterial

record material =
  carried :: "tool_record list"
  fetched :: "tool_record list"

definition material_of :: "'v agent_codec \<Rightarrow> json \<Rightarrow> material" where
  "material_of c st =
     \<lparr>carried = all_under (read_tool_record (base c)) st PRIOR_MATERIAL_STATE_KEY,
      fetched = all_under (read_tool_record (base c)) st TOOL_RESULT_STATE_KEY\<rparr>"

definition fetched_recently :: "'v agent_codec \<Rightarrow> instant \<Rightarrow> tool_record \<Rightarrow> bool" where
  "fetched_recently c now r =
     (case read_instant c (fetched_at r) of
        None \<Rightarrow> False
      | Some at_then \<Rightarrow> now - at_then < CARRIED_MATERIAL_GOES_STALE_AFTER)"

definition only_carried_and_fresh :: "'v agent_codec \<Rightarrow> instant \<Rightarrow> material \<Rightarrow> material" where
  "only_carried_and_fresh c now m =
     \<lparr>carried = filter (fetched_recently c now) (carried m), fetched = []\<rparr>"

definition material_for_mode :: "'v agent_codec \<Rightarrow> instant \<Rightarrow> json \<Rightarrow> mode \<Rightarrow> material" where
  "material_for_mode c now st md =
     (if md = FromMaterial then only_carried_and_fresh c now (material_of c st) else material_of c st)"

definition with_lookup :: "material \<Rightarrow> tool_record \<Rightarrow> material" where
  "with_lookup m r = m\<lparr>fetched := fetched m @ [r]\<rparr>"

record shown =
  shown_index :: nat
  shown_record :: tool_record
  carried_from_an_earlier_turn :: bool
  shown_chars :: nat

definition shown_of :: "tool_record list \<Rightarrow> tool_record list \<Rightarrow> shown list" where
  "shown_of carr fetch =
     (let both = carr @ fetch;
          first = first_shown both;
          chars_each = min MAX_CHARS_PER_RENDERED_TOOL_RESULT
            (MAX_CHARS_OF_TOOL_RESULTS_SHOWN_AT_ONCE div max 1 (length both - first)) in
      map (\<lambda>(i, r). \<lparr>shown_index = i, shown_record = r,
                     carried_from_an_earlier_turn = i < length carr, shown_chars = chars_each\<rparr>)
        (drop first (enumerate 0 both)))"

definition material_shown :: "material \<Rightarrow> shown list" where
  "material_shown m = shown_of (carried m) (fetched m)"

definition asked_for :: "'v agent_codec \<Rightarrow> tool_record \<Rightarrow> string" where
  "asked_for c r =
     (if is_null (rec_args r) then []
      else '' (asked for '' @
        truncated_to (render_json (base c) (rec_args r)) MAX_CHARS_OF_WHAT_WAS_ASKED @ '')'')"

definition rendered :: "'v agent_codec \<Rightarrow> nat \<Rightarrow> string \<Rightarrow> json \<Rightarrow> nat \<Rightarrow> string" where
  "rendered c i asked res n =
     (let heading = NEWLINE @ NEWLINE @ ''Tool result '' @ show_nat i @ asked in
      case Option.bind (get res TOOL_RESULT_ERROR_KEY) as_str of
        Some e \<Rightarrow> heading @ '' '' @ EM_DASH @ '' ERROR: '' @ truncated_to e n
      | None \<Rightarrow> heading @ '': '' @ truncated_to (render_json (base c) res) n)"

definition in_the_prompt :: "'v agent_codec \<Rightarrow> shown \<Rightarrow> string" where
  "in_the_prompt c s =
     rendered c (shown_index s) (asked_for c (shown_record s)) (rec_result (shown_record s)) (shown_chars s)"

definition as_checked :: "'v agent_codec \<Rightarrow> shown \<Rightarrow> string" where
  "as_checked c s =
     trim_start (rendered c (shown_index s)
       (if carried_from_an_earlier_turn s then asked_for c (shown_record s) else [])
       (rec_result (shown_record s)) (shown_chars s))"

definition rendered_carried :: "'v agent_codec \<Rightarrow> material \<Rightarrow> string option" where
  "rendered_carried c m =
     (if carried m = [] then None
      else Some (concat (map (in_the_prompt c) (shown_of (carried m) []))))"

section \<open>The prompt\<close>

definition call_shape :: "'v agent_codec \<Rightarrow> string" where
  "call_shape c =
     show_llm_output c
       \<lparr>out_tool_call = write_tool_call c
          \<lparr>call_name = TOOL_SLUG_PLACEHOLDER,
           call_args = json_object [(ARGUMENT_NAME_PLACEHOLDER, String ARGUMENT_VALUE_PLACEHOLDER)]\<rparr>,
        out_reply = Null\<rparr>"

definition answer_shape :: "'v agent_codec \<Rightarrow> string" where
  "answer_shape c = show_llm_output c \<lparr>out_tool_call = Null, out_reply = String ANSWER_PLACEHOLDER\<rparr>"

definition mode_instructions :: "'v agent_codec \<Rightarrow> mode \<Rightarrow> string" where
  "mode_instructions c md =
     (case md of
        Loop \<Rightarrow> TOOL_CALLING_INSTRUCTIONS (call_shape c) (answer_shape c)
      | ComposeOnly \<Rightarrow> COMPOSE_ONLY_INSTRUCTIONS (call_shape c)
      | FromMaterial \<Rightarrow> FROM_MATERIAL_INSTRUCTIONS (answer_shape c))"

definition prompt_for ::
  "'v agent_codec \<Rightarrow> llm_node_config \<Rightarrow> json \<Rightarrow> mode \<Rightarrow> material \<Rightarrow> string \<times> string" where
  "prompt_for c config st md m =
     (let sys = (case system_prompt config of Some p \<Rightarrow> p | None \<Rightarrow> DEFAULT_SYSTEM_PROMPT);
          sys = (if tool_calling config then sys @ mode_instructions c md else sys);
          answer_is_already_in_hand = (md = FromMaterial);
          sys = (if available config \<noteq> [] \<and> \<not> answer_is_already_in_hand
                 then sys @ NEWLINE @ NEWLINE @ ''Available tools:'' @ NEWLINE @
                   concat (map (\<lambda>t. ''- '' @ entry_name t @ '': '' @ entry_description t @ NEWLINE)
                     (available config))
                 else sys);
          sys = (if tool_calling config \<and> \<not> answer_is_already_in_hand then sys @ TOOL_USE_POLICY else sys);
          there_is_a_reply_to_style = (md \<noteq> ComposeOnly);
          sys = (if there_is_a_reply_to_style then sys @ FINAL_ANSWER_STYLE else sys) in
      (sys, question_in c st @ concat (map (in_the_prompt c) (material_shown m))))"

definition build_prompt_for ::
  "'v agent_codec \<Rightarrow> instant \<Rightarrow> llm_node_config \<Rightarrow> json \<Rightarrow> mode \<Rightarrow> string \<times> string" where
  "build_prompt_for c now config st md = prompt_for c config st md (material_for_mode c now st md)"

definition build_prompt :: "'v agent_codec \<Rightarrow> instant \<Rightarrow> llm_node_config \<Rightarrow> json \<Rightarrow> string \<times> string" where
  "build_prompt c now config st = build_prompt_for c now config st Loop"

definition complete_request_for ::
  "'v agent_codec \<Rightarrow> llm_node_config \<Rightarrow> json \<Rightarrow> mode \<Rightarrow> material \<Rightarrow> complete_request" where
  "complete_request_for c config st md m =
     (let (sys, usr) = prompt_for c config st md m in
      \<lparr>cr_tier = Known Medium, cr_system_prompt = sys, cr_user_prompt = usr,
       cr_sampling = Some (default_sampling
         \<lparr>format := if tool_calling config then Some (Known JsonObject) else None\<rparr>)\<rparr>)"

section \<open>Reading the model's output\<close>

fun text_suffixes :: "string \<Rightarrow> string list" where
  "text_suffixes [] = []"
| "text_suffixes (b # bs) = (b # bs) # text_suffixes bs"

definition first_envelope :: "'v agent_codec \<Rightarrow> string \<Rightarrow> llm_output option" where
  "first_envelope c said =
     find_map (\<lambda>s. case read_llm_output_prefix c s of
         None \<Rightarrow> None
       | Some out \<Rightarrow> if is_blank out then None else Some out)
       (filter (\<lambda>s. hd s = CHR 0x7B) (text_suffixes said))"

definition parse_llm_output :: "'v agent_codec \<Rightarrow> string \<Rightarrow> json" where
  "parse_llm_output c said =
     (let parsed = (case read_llm_output_text c said of Some out \<Rightarrow> out | None \<Rightarrow> blank_output) in
      write_llm_output c
        (if \<not> is_blank parsed then parsed
         else case first_envelope c said of
           Some recovered \<Rightarrow> recovered
         | None \<Rightarrow> \<lparr>out_tool_call = Null, out_reply = String said\<rparr>))"

definition set_field :: "string \<Rightarrow> json \<Rightarrow> json \<Rightarrow> json" where
  "set_field k v out = (case out of Object m \<Rightarrow> Object (fmupd k v m) | _ \<Rightarrow> out)"

definition usage_json :: "json \<Rightarrow> json \<Rightarrow> json" where
  "usage_json tin tout = json_object [(''tokens_in'', tin), (''tokens_out'', tout)]"

definition response_to_output :: "'v agent_codec \<Rightarrow> complete_response \<Rightarrow> json" where
  "response_to_output c r =
     set_field ''usage''
       (usage_json (json_of_i32 (cresp_tokens_in r)) (json_of_i32 (cresp_tokens_out r)))
       (parse_llm_output c (content r))"

definition decide_usage_value :: "decide_response \<Rightarrow> json" where
  "decide_usage_value d =
     json_object [(''usage'', usage_json (json_of_i32 (dr_tokens_in d)) (json_of_i32 (dr_tokens_out d)))]"

definition spent_tokens :: "json \<Rightarrow> string \<Rightarrow> u64" where
  "spent_tokens v field = (case as_u64 (at_key (at_key v ''usage'') field) of None \<Rightarrow> 0 | Some n \<Rightarrow> n)"

definition merge_usage :: "json \<Rightarrow> json \<Rightarrow> json" where
  "merge_usage first second =
     set_field ''usage''
       (usage_json
         (Number (PosInt (spent_tokens first ''tokens_in'' + spent_tokens second ''tokens_in'')))
         (Number (PosInt (spent_tokens first ''tokens_out'' + spent_tokens second ''tokens_out''))))
       second"

definition composed_call :: "'v agent_codec \<Rightarrow> json \<Rightarrow> tool_call option" where
  "composed_call c out =
     Option.bind (read_llm_output (base c) out) (\<lambda>written. read_tool_call (base c) (out_tool_call written))"

definition attach_fast_tool_call :: "'v agent_codec \<Rightarrow> json \<Rightarrow> tool_record \<Rightarrow> json" where
  "attach_fast_tool_call c out r = set_field FAST_TOOL_CALL_FIELD (write_tool_record (base c) r) out"

definition refused :: "json \<Rightarrow> string \<Rightarrow> json" where
  "refused out said = set_field REPLY_FIELD (String said) out"

definition without_tool_call :: "json \<Rightarrow> json" where
  "without_tool_call out = set_field TOOL_CALL_FIELD Null out"

definition plain_reply :: "string \<Rightarrow> json" where
  "plain_reply said = json_object [(TOOL_CALL_FIELD, Null), (REPLY_FIELD, String said)]"

definition tool_result_value :: "'v agent_codec \<Rightarrow> tool_response \<Rightarrow> json" where
  "tool_result_value c r =
     (if response_status r = ExecuteOk then
        (case parse_json (base c) (output_json r) of
           Inr v \<Rightarrow> v
         | Inl _ \<Rightarrow> json_object [(TOOL_RESULT_ERROR_KEY, String ''tool returned invalid JSON'')])
      else
        json_object [(TOOL_RESULT_ERROR_KEY,
          String (if error_message r = [] then ''tool call failed'' else error_message r))])"

definition looked_up :: "'v agent_codec \<Rightarrow> instant \<Rightarrow> tool_call \<Rightarrow> json \<Rightarrow> tool_record" where
  "looked_up c now call res = tool_record_of call res (write_instant c now)"

end
