(* ===== verification/Agent_Questions.thy ===== *)
theory Agent_Questions
  imports Agent_Decisions
begin

text \<open>
  The typed decisions of \<^verbatim>\<open>services/engine/src/executors/llm.rs\<close>: which source to ask and with what
  value, whether the message points at a composed value, and whether a reply holds up against what came
  back; how the questions are built, and what the agent makes of their answers. \<^term>\<open>None\<close> stands for a
  question that cannot be put.
\<close>

section \<open>Questions\<close>

definition instructed :: "'v agent_codec \<Rightarrow> string \<Rightarrow> json \<Rightarrow> proto_kind \<Rightarrow> 'v proto_question option" where
  "instructed c i instr k =
     map_option (\<lambda>v. \<lparr>pq_id = i, pq_instructions = Some v, pq_kind = Some k\<rparr>) (proto_value c instr)"

definition noul_question ::
  "'v agent_codec \<Rightarrow> string \<Rightarrow> string \<Rightarrow> string \<Rightarrow> string \<Rightarrow> 'v proto_question option" where
  "noul_question c i instr when_true when_false =
     instructed c i (String instr) (ProtoNoul (Some when_true) (Some when_false))"

definition offered_option :: "string \<Rightarrow> string option \<Rightarrow> choice_option option" where
  "offered_option nm description =
     (if nm = [] \<or> OPTION_NAME_LIMIT < length nm then None
      else Some \<lparr>option_name = nm,
        option_description =
          (case description of
             None \<Rightarrow> None
           | Some line \<Rightarrow> if line = [] then None else Some (clamped_to line OPTION_DESCRIPTION_LIMIT))\<rparr>)"

definition tool_question ::
  "'v agent_codec \<Rightarrow> catalog_entry list \<Rightarrow> bool \<Rightarrow> 'v proto_question option" where
  "tool_question c tools has_prior =
     instructed c TOOL_QUESTION_ID (String TOOL_QUESTION_INSTRUCTIONS)
       (ProtoChoice
         (List.map_filter (\<lambda>t. offered_option (entry_name t) (Some (entry_description t))) tools @
          (if has_prior
           then [\<lparr>option_name = PRIOR_OPTION, option_description = Some PRIOR_DESCRIPTION\<rparr>] else []) @
          [\<lparr>option_name = NO_TOOL_OPTION, option_description = Some NO_TOOL_DESCRIPTION\<rparr>]))"

section \<open>The spans of a message\<close>

text \<open>\<^verbatim>\<open>split_whitespace\<close> and \<^verbatim>\<open>trim_matches\<close> on characters.\<close>

function split_at_space :: "(string \<Rightarrow> bool) \<Rightarrow> string list \<Rightarrow> string list list" where
  "split_at_space white cs =
     (case dropWhile white cs of
        [] \<Rightarrow> []
      | d # ds \<Rightarrow>
          takeWhile (\<lambda>ch. \<not> white ch) (d # ds) #
          split_at_space white (dropWhile (\<lambda>ch. \<not> white ch) (d # ds)))"
  by pat_completeness auto
termination
proof (relation "measure (length \<circ> snd)")
  fix white :: "string \<Rightarrow> bool" and cs d ds
  assume h: "dropWhile white cs = d # ds"
  then have "\<not> white d" by (metis hd_dropWhile list.distinct(1) list.sel(1))
  then have "length (dropWhile (\<lambda>ch. \<not> white ch) (d # ds)) < length (d # ds)"
    by (simp add: length_dropWhile_le le_imp_less_Suc)
  also have "length (d # ds) \<le> length cs" using length_dropWhile_le [of white cs] h by simp
  finally show "((white, dropWhile (\<lambda>ch. \<not> white ch) (d # ds)), white, cs) \<in> measure (length \<circ> snd)"
    by simp
qed simp

declare split_at_space.simps [simp del]

definition trim_matches :: "(string \<Rightarrow> bool) \<Rightarrow> string list \<Rightarrow> string list" where
  "trim_matches p cs = rev (dropWhile p (rev (dropWhile p cs)))"

definition message_words :: "'v agent_codec \<Rightarrow> string \<Rightarrow> string list" where
  "message_words c msg =
     filter (\<lambda>w. w \<noteq> [])
       (map (\<lambda>w. concat (trim_matches (\<lambda>ch. \<not> alphanumeric c ch) w))
         (split_at_space (white_space c) (utf8_chars msg)))"

definition windows :: "nat \<Rightarrow> 'a list \<Rightarrow> 'a list list" where
  "windows n xs = map (\<lambda>i. take n (drop i xs)) [0..<Suc (length xs) - n]"

text \<open>Once the limit is reached the code returns, so no later run adds anything.\<close>

definition add_span :: "string list \<Rightarrow> string list \<Rightarrow> string list" where
  "add_span run found =
     (if MAX_SPAN_OPTIONS \<le> length found then found
      else
        let candidate = join '' '' run in
        if eq_ignore_ascii_case candidate NO_VALUE_OPTION \<or> OPTION_NAME_LIMIT < length candidate \<or>
           candidate \<in> set found
        then found else found @ [candidate])"

definition spans :: "'v agent_codec \<Rightarrow> string \<Rightarrow> string list" where
  "spans c msg =
     fold add_span
       (concat (map (\<lambda>n. windows n (message_words c msg)) [1..<Suc MAX_SPAN_WORDS])) []"

section \<open>The one argument a decision can fill\<close>

datatype value_options = Closed "(string \<times> string option) list" | Spans

text \<open>\<^verbatim>\<open>then_some\<close> on a list that must not be empty.\<close>

definition unless_empty :: "'a list \<Rightarrow> 'a list option" where
  "unless_empty xs = (if xs = [] then None else Some xs)"

definition closed_list :: "json \<Rightarrow> (string \<times> string option) list option" where
  "closed_list property =
     (case Option.bind (get property ''oneOf'') as_array of
        Some variants \<Rightarrow>
          unless_empty (List.map_filter (\<lambda>variant.
            map_option (\<lambda>v. (v, Option.bind (get variant ''description'') as_str))
              (Option.bind (get variant ''const'') as_str)) variants)
      | None \<Rightarrow>
          Option.bind (Option.bind (get property ''enum'') as_array) (\<lambda>vs.
          unless_empty (List.map_filter (\<lambda>v. map_option (\<lambda>s. (s, None)) (as_str v)) vs)))"

text \<open>The schema's only required field and its property, if that is a string.\<close>

definition only_required_string :: "serde \<Rightarrow> string \<Rightarrow> (string \<times> json) option" where
  "only_required_string sj schema_json =
     (case parse_json sj schema_json of
        Inl _ \<Rightarrow> None
      | Inr schema \<Rightarrow>
          (case Option.bind (get schema ''required'') as_array of
             Some [only] \<Rightarrow>
               (case as_str only of
                  None \<Rightarrow> None
                | Some field \<Rightarrow>
                    (case Option.bind (get schema ''properties'') (\<lambda>ps. get ps field) of
                       None \<Rightarrow> None
                     | Some property \<Rightarrow>
                         if Option.bind (get property ''type'') as_str = Some ''string''
                         then Some (field, property) else None))
           | _ \<Rightarrow> None))"

definition decidable_field ::
  "'v agent_codec \<Rightarrow> string \<Rightarrow> (string \<times> string \<times> value_options) option" where
  "decidable_field c schema_json =
     Option.bind (only_required_string (base c) schema_json) (\<lambda>(field, property).
     Option.bind
       (case closed_list property of
          Some listed \<Rightarrow> Some (Closed listed)
        | None \<Rightarrow> if value_in_message property then Some Spans else None) (\<lambda>options.
     Some (field,
       case Option.bind (get property ''description'') as_str of Some d \<Rightarrow> d | None \<Rightarrow> field,
       options)))"

definition decidable_argument :: "'v agent_codec \<Rightarrow> string \<Rightarrow> (string \<times> string) option" where
  "decidable_argument c schema_json =
     map_option (\<lambda>(field, description, _). (field, description)) (decidable_field c schema_json)"

definition single_required_free_text_field :: "'v agent_codec \<Rightarrow> string \<Rightarrow> string option" where
  "single_required_free_text_field c schema_json =
     Option.bind (only_required_string (base c) schema_json) (\<lambda>(field, property).
     if accepts_free_text property then Some field else None)"

definition question_set_for ::
  "'v agent_codec \<Rightarrow> string \<Rightarrow> string \<Rightarrow> (string \<times> string option) list \<Rightarrow> 'v proto_question list option"
  where
  "question_set_for c tool description candidates =
     (let options = List.map_filter (\<lambda>(v, line). offered_option v line) candidates in
      if options = [] then None
      else
        Option.bind (instructed c (VALUE_QUESTION_PREFIX @ tool)
            (json_object
              [(''field'', String description),
               (''question'', String ''Which option is the value of `field` in `message`?'')])
            (ProtoChoice (options @
              [\<lparr>option_name = NO_VALUE_OPTION, option_description = Some ''no option is that value''\<rparr>])))
          (\<lambda>value_q.
        Option.bind (noul_question c (VALUE_STATED_PREFIX @ tool)
            (''Does `message` name '' @ description @ '' outright?'')
            ''the message names it in so many words''
            ''it is implied, absent, or would have to be worked out from something else'') (\<lambda>stated.
        Option.bind (noul_question c (VALUE_ONE_ONLY_PREFIX @ tool)
            (''Does `message` name exactly one '' @ description @ '', rather than several?'')
            ''exactly one'' ''two or more, or a list'') (\<lambda>one_only.
        Some [value_q, stated, one_only]))))"

definition asked_about ::
  "'v agent_codec \<Rightarrow> string list \<Rightarrow> catalog_entry \<Rightarrow>
     (string \<times> string \<times> (string \<times> string option) list) option" where
  "asked_about c candidates t =
     Option.bind (decidable_field c (input_schema_json t)) (\<lambda>(_, description, options).
     let listed = (case options of
                     Closed listed \<Rightarrow> listed
                   | Spans \<Rightarrow> map (\<lambda>s. (s, None)) candidates) in
     if listed \<noteq> [] \<and> length listed \<le> MAX_SPAN_OPTIONS
     then Some (entry_name t, description, listed) else None)"

definition decidable_questions ::
  "'v agent_codec \<Rightarrow> string \<Rightarrow> catalog_entry list \<Rightarrow> 'v proto_question list" where
  "decidable_questions c msg tools =
     concat (map (\<lambda>(nm, description, listed).
         case question_set_for c nm description listed of Some qs \<Rightarrow> qs | None \<Rightarrow> [])
       (take MAX_ARGUMENTS_ASKED_ABOUT_AT_ONCE
         (List.map_filter (asked_about c (spans c msg)) tools)))"

section \<open>The requests\<close>

definition request_about ::
  "'v agent_codec \<Rightarrow> json \<Rightarrow> 'v proto_question list option \<Rightarrow> 'v decide_request option" where
  "request_about c st qs =
     Option.bind (proto_value c st) (\<lambda>v.
     map_option (\<lambda>qs. \<lparr>req_state = Some v, req_questions = qs\<rparr>) qs)"

definition scope_request ::
  "'v agent_codec \<Rightarrow> string \<Rightarrow> catalog_entry list \<Rightarrow> string option \<Rightarrow> 'v decide_request option" where
  "scope_request c msg tools prior =
     request_about c
       (case prior of
          Some text \<Rightarrow> json_object
            [(''message'', String msg),
             (''already_found'', String (truncated_to text MAX_CHARS_OF_MATERIAL_IN_A_DECISION))]
        | None \<Rightarrow> String msg)
       (map_option (\<lambda>q. q # decidable_questions c msg tools) (tool_question c tools (prior \<noteq> None)))"

definition pointed_at_request :: "'v agent_codec \<Rightarrow> string \<Rightarrow> json \<Rightarrow> 'v decide_request option" where
  "pointed_at_request c msg args =
     request_about c (json_object [(''message'', String msg), (''value'', args)])
       (map_option (\<lambda>q. [q])
         (noul_question c POINTED_AT_ID POINTED_AT_INSTRUCTIONS POINTED_AT_WHEN_TRUE POINTED_AT_WHEN_FALSE))"

definition what_came_back :: "'v agent_codec \<Rightarrow> material \<Rightarrow> string list" where
  "what_came_back c m = map (as_checked c) (material_shown m)"

definition each_within :: "string list \<Rightarrow> nat \<Rightarrow> json" where
  "each_within texts n = Array (map (\<lambda>t. String (clamped_to t n)) texts)"

definition checked_state :: "string list \<Rightarrow> nat \<Rightarrow> string \<Rightarrow> json" where
  "checked_state read share said =
     json_object [(''material'', each_within read share), (''reply'', String said)]"

fun fit_state :: "'v agent_codec \<Rightarrow> string list \<Rightarrow> string \<Rightarrow> nat \<Rightarrow> nat \<Rightarrow> json option" where
  "fit_state c read said share 0 = None"
| "fit_state c read said share (Suc tries) =
     (let st = checked_state read share said;
          bytes = length (render_json (base c) st) in
      if bytes \<le> STATE_BYTES_BEYOND_WHICH_THE_DECIDER_REFUSES then Some st
      else fit_state c read said
        (share * STATE_BYTES_BEYOND_WHICH_THE_DECIDER_REFUSES div bytes
          * EACH_TRY_AIMS_AT_PERCENT_OF_THE_LIMIT div 100) tries)"

definition state_the_decider_takes :: "'v agent_codec \<Rightarrow> material \<Rightarrow> string \<Rightarrow> json option" where
  "state_the_decider_takes c m said =
     (let read = what_came_back c m in
      fit_state c read said (fold max (map length read) 0) TRIES_TO_FIT_THE_MATERIAL)"

definition reply_check_request :: "'v agent_codec \<Rightarrow> material \<Rightarrow> string \<Rightarrow> 'v decide_request option" where
  "reply_check_request c m said =
     Option.bind (state_the_decider_takes c m said) (\<lambda>st.
     request_about c st
       (Option.bind (noul_question c PROMISE_ID PROMISE_INSTRUCTIONS PROMISE_WHEN_TRUE PROMISE_WHEN_FALSE)
         (\<lambda>promise.
        Option.bind (noul_question c GROUNDED_ID GROUNDED_INSTRUCTIONS GROUNDED_WHEN_TRUE GROUNDED_WHEN_FALSE)
         (\<lambda>grounded. Some [promise, grounded]))))"

section \<open>What the answers say\<close>

definition find_noul :: "typed_answer list \<Rightarrow> string \<Rightarrow> rat option" where
  "find_noul given i =
     Option.bind (List.find (\<lambda>a. answer_id a = i) given) (\<lambda>a.
     case given_answer a of NoulAnswer x \<Rightarrow> Some x | _ \<Rightarrow> None)"

definition find_choice :: "typed_answer list \<Rightarrow> string \<Rightarrow> (string \<times> rat) option" where
  "find_choice given i =
     Option.bind (List.find (\<lambda>a. answer_id a = i) given) (\<lambda>a.
     case given_answer a of ChoiceAnswer chosen _ conf \<Rightarrow> Some (chosen, conf) | _ \<Rightarrow> None)"

definition picked_value :: "typed_answer list \<Rightarrow> string \<Rightarrow> string option" where
  "picked_value given tool =
     Option.bind (find_choice given (VALUE_QUESTION_PREFIX @ tool)) (\<lambda>(chosen, conf).
     Option.bind (find_noul given (VALUE_STATED_PREFIX @ tool)) (\<lambda>stated.
     Option.bind (find_noul given (VALUE_ONE_ONLY_PREFIX @ tool)) (\<lambda>one_only.
     if chosen \<noteq> NO_VALUE_OPTION \<and> VALUE_CHOICE_CONFIDENT_ENOUGH_TO_DISPATCH \<le> conf \<and>
        VALUE_STATED_ENOUGH_TO_DISPATCH \<le> stated \<and> VALUE_ONE_ONLY_ENOUGH_TO_DISPATCH \<le> one_only
     then Some chosen else None)))"

definition confident_tool_choice :: "typed_answer list \<Rightarrow> string option" where
  "confident_tool_choice given =
     Option.bind (find_choice given TOOL_QUESTION_ID) (\<lambda>(chosen, conf).
     if chosen \<noteq> NO_TOOL_OPTION \<and> TOOL_CHOICE_CONFIDENT_ENOUGH_TO_ACT_ON \<le> conf
     then Some chosen else None)"

definition call_with_the_picked_value ::
  "'v agent_codec \<Rightarrow> catalog_entry \<Rightarrow> typed_answer list \<Rightarrow> tool_call option" where
  "call_with_the_picked_value c t given =
     Option.bind (decidable_argument c (input_schema_json t)) (\<lambda>(field, _).
     map_option (\<lambda>v. \<lparr>call_name = entry_name t, call_args = json_object [(field, String v)]\<rparr>)
       (picked_value given (entry_name t)))"

definition safe_to_send_verbatim :: "string \<Rightarrow> bool" where
  "safe_to_send_verbatim msg \<longleftrightarrow>
     (let trimmed = trim msg in
      trimmed \<noteq> [] \<and> CHR 0x0A \<notin> set trimmed \<and>
      length (utf8_chars trimmed) \<le> MAX_CHARS_SENT_TO_A_TOOL_VERBATIM)"

definition call_with_the_question_verbatim ::
  "'v agent_codec \<Rightarrow> catalog_entry \<Rightarrow> string \<Rightarrow> tool_call option" where
  "call_with_the_question_verbatim c t msg =
     (if \<not> safe_to_send_verbatim msg then None
      else map_option (\<lambda>field. \<lparr>call_name = entry_name t, call_args = json_object [(field, String msg)]\<rparr>)
        (single_required_free_text_field c (input_schema_json t)))"

definition fast_dispatchable_tool_call ::
  "'v agent_codec \<Rightarrow> string \<Rightarrow> catalog_entry list \<Rightarrow> string \<Rightarrow> typed_answer list \<Rightarrow> tool_call option" where
  "fast_dispatchable_tool_call c chosen tools msg given =
     Option.bind (List.find (\<lambda>t. entry_name t = chosen) tools) (\<lambda>t.
     case call_with_the_picked_value c t given of
       Some call \<Rightarrow> Some call
     | None \<Rightarrow> call_with_the_question_verbatim c t msg)"

definition names_a_live_tool :: "string \<Rightarrow> catalog_entry list \<Rightarrow> bool" where
  "names_a_live_tool chosen tools \<longleftrightarrow> list_ex (\<lambda>t. entry_name t = chosen) tools"

section \<open>Replies the agent writes itself\<close>

definition as_the_operator_named_it :: "catalog_entry \<Rightarrow> string" where
  "as_the_operator_named_it t = (if entry_title t = [] then entry_name t else entry_title t)"

definition sources_named_once_each :: "llm_node_config \<Rightarrow> string list" where
  "sources_named_once_each config =
     fold (\<lambda>t names. let nm = as_the_operator_named_it t in if nm \<in> set names then names else names @ [nm])
       (available config) []"

definition listed_in_a_sentence :: "string list \<Rightarrow> string" where
  "listed_in_a_sentence names =
     (if names = [] then []
      else if length names = 1 then hd names
      else join '', '' (butlast names) @ '', and '' @ last names)"

definition decline :: "llm_node_config \<Rightarrow> json \<Rightarrow> json" where
  "decline config usage =
     (let names = sources_named_once_each config in
      merge_usage usage (plain_reply
        (if names = [] then NOTHING_CONNECTED
         else DECLINE_OPENING @ listed_in_a_sentence names @ ''. '' @ DECLINE_CLOSING)))"

definition clarify :: "'v agent_codec \<Rightarrow> string \<Rightarrow> json \<Rightarrow> json" where
  "clarify c schema_json usage =
     (let wanted = (case decidable_argument c schema_json of
                      Some (_, description) \<Rightarrow> description
                    | None \<Rightarrow> MISSING_VALUE_FALLBACK) in
      merge_usage usage (plain_reply (CLARIFY_OPENING @ wanted @ ''.'')))"

definition schema_of :: "llm_node_config \<Rightarrow> string \<Rightarrow> string" where
  "schema_of config nm =
     (case List.find (\<lambda>t. entry_name t = nm) (available config) of
        Some t \<Rightarrow> input_schema_json t | None \<Rightarrow> [])"

definition in_catalog :: "llm_node_config \<Rightarrow> tool_call \<Rightarrow> bool" where
  "in_catalog config call \<longleftrightarrow> list_ex (\<lambda>t. entry_name t = call_name call) (available config)"

end
