(* ===== verification/Requests.thy ===== *)
theory Requests
  imports Prelude "HOL-Library.State_Monad"
begin

text \<open>Requests as computations of the state monad over the world of the services they call.\<close>

text \<open>The question mark: an error ends the computation.\<close>

definition attempted ::
  "('w, 'e + 'a) state \<Rightarrow> ('a \<Rightarrow> ('w, 'e + 'b) state) \<Rightarrow> ('w, 'e + 'b) state" where
  "attempted m f =
     State_Monad.bind m (\<lambda>r. case r of Inl e \<Rightarrow> State_Monad.return (Inl e) | Inr x \<Rightarrow> f x)"

end
