(* ===== verification/Llm_Executor.thy ===== *)
theory Llm_Executor
  imports Agent_Questions Requests
begin

text \<open>
  The effectful half of \<^verbatim>\<open>services/engine/src/executors/llm.rs\<close>: one turn of the agent, as a computation
  of the state monad over the world its three services and its clock live in. The world is a type
  variable: nothing is assumed of what a service does to it or of what it answers, so every call may be
  answered differently from the one before.
\<close>

section \<open>The services of a turn\<close>

record ('w, 'v) services =
  client :: "complete_request \<Rightarrow> ('w, string + complete_response) state"
  decider :: "'v decide_request \<Rightarrow> ('w, string + decide_response) state"
  tool_svc :: "string \<Rightarrow> string \<Rightarrow> string \<Rightarrow> ('w, string + tool_response) state"
  utc_now :: "('w, instant) state"
  sleep :: "nat \<Rightarrow> ('w, unit) state"

section \<open>Calling the model and the decider\<close>

text \<open>\<open>tries\<close> is the number of attempts left after this one.\<close>

fun complete_attempts ::
  "('w, 'v) services \<Rightarrow> 'v agent_codec \<Rightarrow> complete_request \<Rightarrow> nat \<Rightarrow> ('w, task_error + json) state" where
  "complete_attempts s c request tries =
     do {
       answered \<leftarrow> client s request;
       case answered of
         Inr response \<Rightarrow> State_Monad.return (Inr (response_to_output c response))
       | Inl e \<Rightarrow>
           (case tries of
              0 \<Rightarrow> State_Monad.return (Inl e)
            | Suc tries' \<Rightarrow>
                do {
                  sleep s (RETRY_BASE_DELAY * (RETRY_ATTEMPTS - tries));
                  complete_attempts s c request tries'
                })
     }"

declare complete_attempts.simps [simp del]

definition complete_with_retries ::
  "('w, 'v) services \<Rightarrow> 'v agent_codec \<Rightarrow> complete_request \<Rightarrow> ('w, task_error + json) state" where
  "complete_with_retries s c request = complete_attempts s c request (RETRY_ATTEMPTS - 1)"

definition decided_once_more_on_error ::
  "('w, 'v) services \<Rightarrow> 'v decide_request \<Rightarrow> ('w, decide_response option) state" where
  "decided_once_more_on_error s request =
     do {
       first \<leftarrow> decider s request;
       case first of
         Inr response \<Rightarrow> State_Monad.return (Some response)
       | Inl _ \<Rightarrow>
           do {
             second \<leftarrow> decider s request;
             State_Monad.return (case second of Inr response \<Rightarrow> Some response | Inl _ \<Rightarrow> None)
           }
     }"

section \<open>The check of a reply\<close>

record faults =
  promises :: bool
  ungrounded :: bool
  faults_spent :: json

datatype reply_check = NotNeeded | Ran faults | CouldNotRun

definition sound :: "faults \<Rightarrow> bool" where
  "sound f \<longleftrightarrow> \<not> promises f \<and> \<not> ungrounded f"

definition correction :: "faults \<Rightarrow> string \<Rightarrow> string" where
  "correction f rejected =
     NEWLINE @ NEWLINE @ ''Your previous reply was refused: \"'' @ rejected @ ''\".'' @
     (if ungrounded f then UNGROUNDED_CORRECTION else PROMISE_CORRECTION)"

definition refusal :: "faults \<Rightarrow> string" where
  "refusal f = (if ungrounded f then UNGROUNDED_REFUSED else PROMISE_REFUSED)"

definition faults_of :: "decide_response \<Rightarrow> faults" where
  "faults_of d =
     \<lparr>promises =
        (case find_noul (dr_answers d) PROMISE_ID of None \<Rightarrow> False | Some x \<Rightarrow> PROMISE_ENOUGH_TO_REFUSE < x),
      ungrounded =
        (case find_noul (dr_answers d) GROUNDED_ID of None \<Rightarrow> False | Some x \<Rightarrow> x < GROUNDED_ENOUGH_TO_SEND),
      faults_spent = decide_usage_value d\<rparr>"

text \<open>The reply that has to be checked: a text that is not empty, where no tool is called.\<close>

definition reply_to_check :: "json \<Rightarrow> string option" where
  "reply_to_check out =
     (case Option.bind (get out REPLY_FIELD) as_str of
        None \<Rightarrow> None
      | Some said \<Rightarrow>
          if said \<noteq> [] \<and> (case get out TOOL_CALL_FIELD of None \<Rightarrow> True | Some v \<Rightarrow> is_null v)
          then Some said else None)"

definition faults_in ::
  "('w, 'v) services \<Rightarrow> 'v agent_codec \<Rightarrow> material \<Rightarrow> json \<Rightarrow> ('w, reply_check) state" where
  "faults_in s c m out =
     (case reply_to_check out of
        None \<Rightarrow> State_Monad.return NotNeeded
      | Some said \<Rightarrow>
          (case reply_check_request c m said of
             None \<Rightarrow> State_Monad.return CouldNotRun
           | Some request \<Rightarrow>
               do {
                 decided \<leftarrow> decided_once_more_on_error s request;
                 State_Monad.return (case decided of None \<Rightarrow> CouldNotRun | Some d \<Rightarrow> Ran (faults_of d))
               }))"

definition asked_again_with ::
  "('w, 'v) services \<Rightarrow> 'v agent_codec \<Rightarrow> complete_request \<Rightarrow> faults \<Rightarrow> json \<Rightarrow> ('w, task_error + json) state"
  where
  "asked_again_with s c request f rejected_in =
     complete_with_retries s c
       (request\<lparr>cr_system_prompt :=
          cr_system_prompt request @ correction f (case Option.bind (get rejected_in REPLY_FIELD) as_str of None \<Rightarrow> [] | Some said \<Rightarrow> said)\<rparr>)"

definition second_reply_checked_against ::
  "('w, 'v) services \<Rightarrow> 'v agent_codec \<Rightarrow> material \<Rightarrow> json \<Rightarrow> ('w, json) state" where
  "second_reply_checked_against s c m second =
     do {
       check \<leftarrow> faults_in s c m second;
       State_Monad.return
         (case check of
            Ran again \<Rightarrow>
              if \<not> sound again then refused (merge_usage (faults_spent again) second) (refusal again)
              else merge_usage (faults_spent again) second
          | NotNeeded \<Rightarrow> second
          | CouldNotRun \<Rightarrow> refused second UNCHECKED_REFUSED)
     }"

definition checked_against ::
  "('w, 'v) services \<Rightarrow> 'v agent_codec \<Rightarrow> complete_request \<Rightarrow> material \<Rightarrow> json \<Rightarrow> ('w, json) state" where
  "checked_against s c request m out =
     do {
       check \<leftarrow> faults_in s c m out;
       case check of
         NotNeeded \<Rightarrow> State_Monad.return out
       | CouldNotRun \<Rightarrow> State_Monad.return (refused out UNCHECKED_REFUSED)
       | Ran f \<Rightarrow>
           let out = merge_usage (faults_spent f) out in
           if sound f then State_Monad.return out
           else
             do {
               again \<leftarrow> asked_again_with s c request f out;
               case again of
                 Inl _ \<Rightarrow> State_Monad.return (refused out (refusal f))
               | Inr second \<Rightarrow> second_reply_checked_against s c m (merge_usage out second)
             }
     }"

section \<open>Composing a call\<close>

definition composed ::
  "('w, 'v) services \<Rightarrow> 'v agent_codec \<Rightarrow> llm_node_config \<Rightarrow> json \<Rightarrow> material \<Rightarrow> ('w, task_error + json) state"
  where
  "composed s c config st m =
     (let request = complete_request_for c config st ComposeOnly m in
      attempted (complete_with_retries s c request) (\<lambda>spent.
      if composed_call c spent \<noteq> None then State_Monad.return (Inr spent)
      else
        attempted (complete_with_retries s c
            (request\<lparr>cr_system_prompt := cr_system_prompt request @ COMPOSE_REFUSAL\<rparr>)) (\<lambda>second.
        State_Monad.return (Inr (merge_usage spent second)))))"

text \<open>The arguments the message does not point at; \<^term>\<open>None\<close> when it does.\<close>

definition not_pointed_at ::
  "('w, 'v) services \<Rightarrow> 'v agent_codec \<Rightarrow> json \<Rightarrow> tool_call \<Rightarrow> ('w, string option) state" where
  "not_pointed_at s c st call =
     (let asked = Some (render_json (base c) (call_args call)) in
      case pointed_at_request c (question_in c st) (call_args call) of
        None \<Rightarrow> State_Monad.return asked
      | Some request \<Rightarrow>
          do {
            decided \<leftarrow> decided_once_more_on_error s request;
            State_Monad.return
              (case decided of
                 None \<Rightarrow> asked
               | Some d \<Rightarrow>
                   if (case find_noul (dr_answers d) POINTED_AT_ID of
                         Some x \<Rightarrow> x | None \<Rightarrow> BELOW_EVERY_THRESHOLD) < POINTED_AT_ENOUGH_TO_DISPATCH
                   then asked else None)
          })"

definition asked_for_instead ::
  "('w, 'v) services \<Rightarrow> 'v agent_codec \<Rightarrow> llm_node_config \<Rightarrow> json \<Rightarrow> tool_call \<Rightarrow> ('w, json option) state" where
  "asked_for_instead s c config st call =
     do {
       asked \<leftarrow> not_pointed_at s c st call;
       State_Monad.return
         (map_option (\<lambda>_. clarify c (schema_of config (call_name call)) Null) asked)
     }"

definition DECIDE_TOOL_SUFFIX :: string where "DECIDE_TOOL_SUFFIX = '':decide-tool''"

definition dispatch_tool_fast ::
  "('w, 'v) services \<Rightarrow> 'v agent_codec \<Rightarrow> tool_call \<Rightarrow> string \<Rightarrow> ('w, json) state" where
  "dispatch_tool_fast s c call key =
     do {
       answered \<leftarrow> tool_svc s (call_name call) (render_json (base c) (call_args call)) (key @ DECIDE_TOOL_SUFFIX);
       State_Monad.return
         (case answered of
            Inr response \<Rightarrow> tool_result_value c response
          | Inl e \<Rightarrow> json_object [(TOOL_RESULT_ERROR_KEY, String e)])
     }"

definition answered_with_the_lookup ::
  "('w, 'v) services \<Rightarrow> 'v agent_codec \<Rightarrow> llm_node_config \<Rightarrow> json \<Rightarrow> material \<Rightarrow> tool_call \<Rightarrow> string \<Rightarrow>
     ('w, task_error + json) state" where
  "answered_with_the_lookup s c config st m call key =
     do {
       res \<leftarrow> dispatch_tool_fast s c call key;
       now \<leftarrow> utc_now s;
       let r = looked_up c now call res;
           m = with_lookup m r;
           request = complete_request_for c config st Loop m
       in attempted (complete_with_retries s c request) (\<lambda>out.
         do {
           out \<leftarrow> checked_against s c request m out;
           State_Monad.return (Inr (attach_fast_tool_call c out r))
         })
     }"

definition run_fast_tool_call ::
  "('w, 'v) services \<Rightarrow> 'v agent_codec \<Rightarrow> llm_node_config \<Rightarrow> json \<Rightarrow> material \<Rightarrow> tool_call \<Rightarrow> json \<Rightarrow> string \<Rightarrow>
     ('w, task_error + json) state" where
  "run_fast_tool_call s c config st m call usage key =
     attempted (answered_with_the_lookup s c config st m call key) (\<lambda>out.
     State_Monad.return (Inr (merge_usage usage out)))"

definition compose_tool_call ::
  "('w, 'v) services \<Rightarrow> 'v agent_codec \<Rightarrow> llm_node_config \<Rightarrow> json \<Rightarrow> material \<Rightarrow> json \<Rightarrow> string \<Rightarrow>
     ('w, task_error + json) state" where
  "compose_tool_call s c config st m usage key =
     attempted (composed s c config st m) (\<lambda>spent.
       case Option.bind (composed_call c spent) (\<lambda>call. if in_catalog config call then Some call else None) of
         None \<Rightarrow>
           State_Monad.return (Inr (merge_usage usage (merge_usage spent (plain_reply COMPOSE_FAILURE))))
       | Some call \<Rightarrow>
           do {
             instead \<leftarrow> asked_for_instead s c config st call;
             case instead of
               Some asking \<Rightarrow> State_Monad.return (Inr (merge_usage usage (merge_usage spent asking)))
             | None \<Rightarrow>
                 attempted (answered_with_the_lookup s c config st m call key) (\<lambda>out.
                 State_Monad.return (Inr (merge_usage usage (merge_usage spent out))))
           })"

section \<open>The fast path\<close>

text \<open>Every variant carries what the decision cost.\<close>

datatype fast_path = FastToolCall tool_call json | FastComposeOnly string json
  | FastFromMaterial json | FastDecline json

definition path_of_the_answers ::
  "'v agent_codec \<Rightarrow> llm_node_config \<Rightarrow> string \<Rightarrow> decide_response \<Rightarrow> fast_path" where
  "path_of_the_answers c config msg d =
     (let usage = decide_usage_value d in
      case confident_tool_choice (dr_answers d) of
        None \<Rightarrow> FastDecline usage
      | Some chosen \<Rightarrow>
          if chosen = PRIOR_OPTION then FastFromMaterial usage
          else
            (case fast_dispatchable_tool_call c chosen (available config) msg (dr_answers d) of
               Some call \<Rightarrow> FastToolCall call usage
             | None \<Rightarrow>
                 if names_a_live_tool chosen (available config) then FastComposeOnly chosen usage
                 else FastDecline usage))"

definition decide_fast_path ::
  "('w, 'v) services \<Rightarrow> 'v agent_codec \<Rightarrow> llm_node_config \<Rightarrow> string \<Rightarrow> string option \<Rightarrow> ('w, fast_path) state"
  where
  "decide_fast_path s c config msg prior =
     (case scope_request c msg (available config) prior of
        None \<Rightarrow> State_Monad.return (FastDecline Null)
      | Some request \<Rightarrow>
          do {
            decided \<leftarrow> decider s request;
            State_Monad.return
              (case decided of
                 Inl _ \<Rightarrow> FastDecline Null
               | Inr d \<Rightarrow> path_of_the_answers c config msg d)
          })"

definition answer_from_material ::
  "('w, 'v) services \<Rightarrow> 'v agent_codec \<Rightarrow> llm_node_config \<Rightarrow> json \<Rightarrow> material \<Rightarrow> json \<Rightarrow>
     ('w, task_error + json) state" where
  "answer_from_material s c config st m usage =
     do {
       now \<leftarrow> utc_now s;
       let m = only_carried_and_fresh c now m in
       if carried m = [] then State_Monad.return (Inr (decline config usage))
       else
         let request = complete_request_for c config st FromMaterial m in
         attempted (complete_with_retries s c request) (\<lambda>out.
           do {
             out \<leftarrow> checked_against s c request m out;
             State_Monad.return (Inr (merge_usage usage (without_tool_call out)))
           })
     }"

definition try_fast_path ::
  "('w, 'v) services \<Rightarrow> 'v agent_codec \<Rightarrow> llm_node_config \<Rightarrow> json \<Rightarrow> material \<Rightarrow> string \<Rightarrow>
     ('w, (task_error + json) option) state" where
  "try_fast_path s c config st m key =
     (if \<not> tool_calling config \<or> fetched m \<noteq> [] then State_Monad.return None
      else
        do {
          path \<leftarrow> decide_fast_path s c config (question_in c st) (rendered_carried c m);
          out \<leftarrow> (case path of
             FastToolCall call usage \<Rightarrow> run_fast_tool_call s c config st m call usage key
           | FastComposeOnly _ usage \<Rightarrow> compose_tool_call s c config st m usage key
           | FastFromMaterial usage \<Rightarrow> answer_from_material s c config st m usage
           | FastDecline usage \<Rightarrow> State_Monad.return (Inr (decline config usage)));
          State_Monad.return (Some out)
        })"

section \<open>The turn\<close>

text \<open>\<open>read_config\<close> is the derived decoder of \<^verbatim>\<open>LlmNodeConfig\<close>.\<close>

definition parse_config ::
  "(json \<Rightarrow> string + llm_node_config) \<Rightarrow> json \<Rightarrow> task_error + llm_node_config" where
  "parse_config read_config config =
     map_err (\<lambda>e. ''llm node config is not usable: '' @ e) (read_config config)"

definition turn ::
  "('w, 'v) services \<Rightarrow> 'v agent_codec \<Rightarrow> llm_node_config \<Rightarrow> json \<Rightarrow> string \<Rightarrow> ('w, task_error + json) state" where
  "turn s c config st key =
     (let m = material_of c st in
      do {
        quick \<leftarrow> try_fast_path s c config st m key;
        case quick of
          Some done_already \<Rightarrow> State_Monad.return done_already
        | None \<Rightarrow>
            let request = complete_request_for c config st Loop m in
            attempted (complete_with_retries s c request) (\<lambda>out.
              do {
                out \<leftarrow> checked_against s c request m out;
                State_Monad.return (Inr out)
              })
      })"

definition llm_execute ::
  "('w, 'v) services \<Rightarrow> 'v agent_codec \<Rightarrow> (json \<Rightarrow> string + llm_node_config) \<Rightarrow> json \<Rightarrow> json \<Rightarrow> string \<Rightarrow>
     ('w, task_error + json) state" where
  "llm_execute s c read_config config st key =
     (case parse_config read_config config of
        Inl e \<Rightarrow> State_Monad.return (Inl e)
      | Inr parsed \<Rightarrow> turn s c parsed st key)"

end
