(* ===== verification/Llm_Props.thy ===== *)
theory Llm_Props
  imports Llm_Executor Router_Props
begin

text \<open>
  What one turn of the agent guarantees: a textual reply leaves it only after the decider was shown that
  very reply beside the material and found no fault in it, or when it is one of the sentences the agent
  writes about itself; the turn makes a bounded number of calls, and of tools it calls at most one, from
  the catalogue it was given. The requests of the check are held against the router's own budget.
\<close>

section \<open>Reasoning about turns\<close>

lemma pred_returnI: "P x \<Longrightarrow> pred_state P (State_Monad.return x)"
  by (auto intro!: pred_stateI)

lemma pred_bindI:
  assumes "pred_state P m" and "\<And>x. P x \<Longrightarrow> pred_state Q (f x)"
  shows "pred_state Q (State_Monad.bind m f)"
proof (rule pred_stateI)
  fix a s s' assume run: "run_state (State_Monad.bind m f) s = (a, s')"
  obtain x t where m: "run_state m s = (x, t)" by fastforce
  with assms(1) have "P x" by (rule pred_stateD)
  then have "pred_state Q (f x)" by (rule assms(2))
  moreover have "run_state (f x) t = (a, s')" using run m by simp
  ultimately show "Q a" by (rule pred_stateD)
qed

lemma pred_anything: "pred_state (\<lambda>_. True) m"
  by (rule pred_stateI) simp

text \<open>Whenever the computation succeeds, its value has the property.\<close>

definition yields :: "('w, 'e + 'a) state \<Rightarrow> ('a \<Rightarrow> bool) \<Rightarrow> bool" where
  "yields m P \<longleftrightarrow> pred_state (\<lambda>r. case r of Inl _ \<Rightarrow> True | Inr x \<Rightarrow> P x) m"

lemma yields_return: "P x \<Longrightarrow> yields (State_Monad.return (Inr x)) P"
  by (auto simp: yields_def intro: pred_returnI)

lemma yields_bind:
  "pred_state P m \<Longrightarrow> (\<And>x. P x \<Longrightarrow> yields (f x) Q) \<Longrightarrow> yields (State_Monad.bind m f) Q"
  unfolding yields_def by (rule pred_bindI)

lemma yields_attempted:
  assumes "yields m P" and "\<And>x. P x \<Longrightarrow> yields (f x) Q"
  shows "yields (attempted m f) Q"
  unfolding attempted_def
proof (rule yields_bind [OF assms(1) [unfolded yields_def]])
  fix r :: "'b + 'c" assume "case r of Inl _ \<Rightarrow> True | Inr x \<Rightarrow> P x"
  then show "yields (case r of Inl e \<Rightarrow> State_Monad.return (Inl e) | Inr x \<Rightarrow> f x) Q"
    by (cases r) (simp_all add: assms(2), simp add: yields_def pred_returnI)
qed

lemma yields_anything: "yields m (\<lambda>_. True)"
  by (auto simp: yields_def split: sum.splits)

lemma yieldsD: "yields m P \<Longrightarrow> run_state m w = (Inr x, w') \<Longrightarrow> P x"
  by (auto simp: yields_def dest: pred_stateD)

section \<open>Writing a field of an output\<close>

lemma get_set_field:
  "get (set_field k v out) k' = (if k' = k \<and> is_object out then Some v else get out k')"
  by (cases out) (auto simp: set_field_def)

lemma reply_to_check_other_field:
  "k \<noteq> REPLY_FIELD \<Longrightarrow> k \<noteq> TOOL_CALL_FIELD \<Longrightarrow> reply_to_check (set_field k v out) = reply_to_check out"
  by (simp add: reply_to_check_def get_set_field cong: option.case_cong)

lemma reply_to_check_usage [simp]: "reply_to_check (merge_usage a out) = reply_to_check out"
  unfolding merge_usage_def by (rule reply_to_check_other_field) (simp_all add: state_keys)

lemma reply_to_check_attach [simp]: "reply_to_check (attach_fast_tool_call c out r) = reply_to_check out"
  unfolding attach_fast_tool_call_def by (rule reply_to_check_other_field) (simp_all add: state_keys)

lemma reply_to_check_refused:
  "reply_to_check (refused out text) = Some said \<Longrightarrow> said = text"
  by (cases out)
    (auto simp: reply_to_check_def refused_def set_field_def split: option.splits if_splits)

lemma reply_to_check_plain [simp]:
  "reply_to_check (plain_reply text) = (if text = [] then None else Some text)"
  by (simp add: reply_to_check_def plain_reply_def state_keys json_object_def fmlookup_of_list)

section \<open>Sentences the agent writes about itself\<close>

lemma is_about_itself_opening:
  assumes "phrase \<in> set EVERY_REPLY_THE_AGENT_WRITES_ABOUT_ITSELF" and "trim_start (phrase @ rest) = phrase @ rest"
  shows "is_about_itself (phrase @ rest)"
  using assms by (auto simp: is_about_itself_def list_ex_iff starts_with_def intro!: bexI [of _ phrase])

lemma is_about_itself_texts:
  "is_about_itself PROMISE_REFUSED" "is_about_itself UNGROUNDED_REFUSED" "is_about_itself COMPOSE_FAILURE"
  "is_about_itself NOTHING_CONNECTED"
  by (simp_all add: is_about_itself_def EVERY_REPLY_THE_AGENT_WRITES_ABOUT_ITSELF_def starts_with_def
      trim_start_def PROMISE_REFUSED_def UNGROUNDED_REFUSED_def COMPOSE_FAILURE_def NOTHING_CONNECTED_def
      is_whitespace_def)

lemma is_about_itself_decline: "is_about_itself (DECLINE_OPENING @ rest)"
  by (rule is_about_itself_opening)
    (simp_all add: EVERY_REPLY_THE_AGENT_WRITES_ABOUT_ITSELF_def trim_start_def DECLINE_OPENING_def
      is_whitespace_def)

lemma is_about_itself_clarify: "is_about_itself (CLARIFY_OPENING @ rest)"
  by (rule is_about_itself_opening)
    (simp_all add: EVERY_REPLY_THE_AGENT_WRITES_ABOUT_ITSELF_def trim_start_def CLARIFY_OPENING_def
      is_whitespace_def)

lemmas about_itself = is_about_itself_texts is_about_itself_decline is_about_itself_clarify

lemma refusal_about_itself: "is_about_itself (refusal f)" "is_about_itself UNCHECKED_REFUSED"
  by (simp_all add: refusal_def UNCHECKED_REFUSED_def about_itself)

section \<open>No unchecked reply\<close>

text \<open>The decider was shown the reply beside the material, and its answers hold no fault.\<close>

definition vouched :: "('w, 'v) services \<Rightarrow> 'v agent_codec \<Rightarrow> material \<Rightarrow> string \<Rightarrow> bool" where
  "vouched s c m said \<longleftrightarrow>
     (\<exists>request w d w'. reply_check_request c m said = Some request \<and>
        run_state (decider s request) w = (Inr d, w') \<and> sound (faults_of d))"

text \<open>The reply of an output, if it has one to show, may be shown.\<close>

definition may_be_shown :: "('w, 'v) services \<Rightarrow> 'v agent_codec \<Rightarrow> material set \<Rightarrow> json \<Rightarrow> bool" where
  "may_be_shown s c ms out \<longleftrightarrow>
     (\<forall>said. reply_to_check out = Some said \<longrightarrow> is_about_itself said \<or> (\<exists>m \<in> ms. vouched s c m said))"

lemma may_be_shown_usage [simp]: "may_be_shown s c ms (merge_usage a out) = may_be_shown s c ms out"
  by (simp add: may_be_shown_def)

lemma may_be_shown_attach [simp]:
  "may_be_shown s c ms (attach_fast_tool_call c' out r) = may_be_shown s c ms out"
  by (simp add: may_be_shown_def)

lemma may_be_shown_nothing: "reply_to_check out = None \<Longrightarrow> may_be_shown s c ms out"
  by (simp add: may_be_shown_def)

lemma may_be_shown_vouched:
  "reply_to_check out = Some said \<Longrightarrow> vouched s c m said \<Longrightarrow> m \<in> ms \<Longrightarrow> may_be_shown s c ms out"
  by (auto simp: may_be_shown_def)

lemma may_be_shown_refused: "is_about_itself text \<Longrightarrow> may_be_shown s c ms (refused out text)"
  by (auto simp: may_be_shown_def dest!: reply_to_check_refused)

lemma may_be_shown_plain: "is_about_itself text \<Longrightarrow> may_be_shown s c ms (plain_reply text)"
  by (simp add: may_be_shown_def)

lemma may_be_shown_decline: "may_be_shown s c ms (decline config usage)"
  by (simp add: decline_def Let_def may_be_shown_plain about_itself)

lemma may_be_shown_clarify: "may_be_shown s c ms (clarify c' schema usage)"
  by (simp add: clarify_def Let_def may_be_shown_plain about_itself)

lemma may_be_shown_mono: "may_be_shown s c ms out \<Longrightarrow> ms \<subseteq> ms' \<Longrightarrow> may_be_shown s c ms' out"
  by (auto simp: may_be_shown_def)

lemma decided_by_the_decider:
  "pred_state (\<lambda>r. \<forall>d. r = Some d \<longrightarrow> (\<exists>w w'. run_state (decider s request) w = (Inr d, w')))
     (decided_once_more_on_error s request)"
  by (rule pred_stateI)
    (auto simp: decided_once_more_on_error_def split: prod.splits sum.splits)

definition check_holds :: "('w, 'v) services \<Rightarrow> 'v agent_codec \<Rightarrow> material \<Rightarrow> json \<Rightarrow> reply_check \<Rightarrow> bool" where
  "check_holds s c m out k \<longleftrightarrow>
     (case k of
        NotNeeded \<Rightarrow> may_be_shown s c {m} out
      | Ran f \<Rightarrow> sound f \<longrightarrow> may_be_shown s c {m} out
      | CouldNotRun \<Rightarrow> True)"

lemma check_holds_decided:
  assumes "reply_to_check out = Some said" "reply_check_request c m said = Some request"
    and "run_state (decider s request) w = (Inr d, w')"
  shows "check_holds s c m out (Ran (faults_of d))"
proof -
  have "sound (faults_of d) \<Longrightarrow> vouched s c m said" using assms(2,3) unfolding vouched_def by blast
  with assms(1) show ?thesis by (auto simp: check_holds_def intro: may_be_shown_vouched)
qed

lemma faults_in_reports: "pred_state (check_holds s c m out) (faults_in s c m out)"
proof (cases "reply_to_check out")
  case None
  then show ?thesis by (auto simp: faults_in_def check_holds_def may_be_shown_nothing intro!: pred_returnI)
next
  case (Some said)
  show ?thesis
  proof (cases "reply_check_request c m said")
    case None
    with Some show ?thesis by (auto simp: faults_in_def check_holds_def intro!: pred_returnI)
  next
    case request: (Some request)
    have "check_holds s c m out (case r of None \<Rightarrow> CouldNotRun | Some d \<Rightarrow> Ran (faults_of d))"
      if "\<forall>d. r = Some d \<longrightarrow> (\<exists>w w'. run_state (decider s request) w = (Inr d, w'))" for r
      using that check_holds_decided [OF Some request]
      by (cases r) (auto simp: check_holds_def [of _ _ _ _ CouldNotRun])
    with Some request show ?thesis
      by (simp add: faults_in_def pred_bindI [OF decided_by_the_decider] pred_returnI)
  qed
qed

lemma second_reply_may_be_shown:
  "pred_state (may_be_shown s c {m}) (second_reply_checked_against s c m second)"
  unfolding second_reply_checked_against_def
  by (rule pred_bindI [OF faults_in_reports], rule pred_returnI)
    (simp add: check_holds_def may_be_shown_refused refusal_about_itself split: reply_check.splits)

lemma checked_reply_may_be_shown:
  "pred_state (may_be_shown s c {m}) (checked_against s c request m out)"
  unfolding checked_against_def
proof (rule pred_bindI [OF faults_in_reports])
  fix k assume "check_holds s c m out k"
  then show "pred_state (may_be_shown s c {m}) (case k of
      NotNeeded \<Rightarrow> State_Monad.return out
    | Ran f \<Rightarrow> let out = merge_usage (faults_spent f) out in
        if sound f then State_Monad.return out
        else State_Monad.bind (asked_again_with s c request f out) (case_sum
          (\<lambda>_. State_Monad.return (refused out (refusal f)))
          (\<lambda>second. second_reply_checked_against s c m (merge_usage out second)))
    | CouldNotRun \<Rightarrow> State_Monad.return (refused out UNCHECKED_REFUSED))"
    by (cases k)
      (auto simp: Let_def check_holds_def may_be_shown_refused refusal_about_itself
        intro!: pred_returnI pred_bindI [OF pred_anything] second_reply_may_be_shown split: sum.splits)
qed

text \<open>The material a reply of this turn may be held against: what the state holds, and one lookup more.\<close>

definition material_of_the_turn :: "'v agent_codec \<Rightarrow> json \<Rightarrow> material set" where
  "material_of_the_turn c st = insert (material_of c st) (range (with_lookup (material_of c st)))"

lemma yields_checked:
  assumes "m \<in> ms" and "\<And>out. may_be_shown s c ms out \<Longrightarrow> Q (g out)"
  shows "yields (State_Monad.bind (checked_against s c request m out)
    (\<lambda>out. State_Monad.return (Inr (g out)))) Q"
  using assms may_be_shown_mono
  by (intro yields_bind [OF checked_reply_may_be_shown] yields_return) blast

lemma yields_lookup:
  "yields (answered_with_the_lookup s c config st (material_of c st) call key)
     (may_be_shown s c (material_of_the_turn c st))"
  unfolding answered_with_the_lookup_def Let_def
  by (intro yields_bind [OF pred_anything] yields_attempted [OF yields_anything] yields_checked)
    (simp_all add: material_of_the_turn_def)

lemma yields_lookup_then:
  assumes "\<And>out. may_be_shown s c (material_of_the_turn c st) out \<Longrightarrow> Q (g out)"
  shows "yields (attempted (answered_with_the_lookup s c config st (material_of c st) call key)
    (\<lambda>out. State_Monad.return (Inr (g out)))) Q"
  by (intro yields_attempted [OF yields_lookup] yields_return assms)

lemma asked_for_instead_clarifies:
  "pred_state (\<lambda>r. case r of None \<Rightarrow> True | Some out \<Rightarrow> may_be_shown s c ms out)
     (asked_for_instead s c config st call)"
  unfolding asked_for_instead_def
  by (intro pred_bindI [OF pred_anything] pred_returnI) (auto simp: may_be_shown_clarify split: option.splits)

lemma yields_compose:
  "yields (compose_tool_call s c config st (material_of c st) usage key)
     (may_be_shown s c (material_of_the_turn c st))"
  unfolding compose_tool_call_def
proof (rule yields_attempted [OF yields_anything])
  fix spent
  let ?ms = "material_of_the_turn c st"
  have "yields (State_Monad.bind (asked_for_instead s c config st call) (case_option
      (attempted (answered_with_the_lookup s c config st (material_of c st) call key)
        (\<lambda>out. State_Monad.return (Inr (merge_usage usage (merge_usage spent out)))))
      (\<lambda>asking. State_Monad.return (Inr (merge_usage usage (merge_usage spent asking))))))
    (may_be_shown s c ?ms)" for call
    by (rule yields_bind [OF asked_for_instead_clarifies [where ms = ?ms]])
      (auto split: option.splits intro!: yields_lookup_then yields_return)
  then show "yields (case Option.bind (composed_call c spent)
        (\<lambda>call. if in_catalog config call then Some call else None) of
      None \<Rightarrow> State_Monad.return (Inr (merge_usage usage (merge_usage spent (plain_reply COMPOSE_FAILURE))))
    | Some call \<Rightarrow> State_Monad.bind (asked_for_instead s c config st call) (case_option
        (attempted (answered_with_the_lookup s c config st (material_of c st) call key)
          (\<lambda>out. State_Monad.return (Inr (merge_usage usage (merge_usage spent out)))))
        (\<lambda>asking. State_Monad.return (Inr (merge_usage usage (merge_usage spent asking))))))
    (may_be_shown s c ?ms)"
    by (auto split: option.splits intro!: yields_return may_be_shown_plain simp: about_itself)
qed

lemma yields_from_material:
  assumes "carried (material_of c st) = []"
  shows "yields (answer_from_material s c config st (material_of c st) usage) (may_be_shown s c ms)"
  unfolding answer_from_material_def
  by (rule yields_bind [OF pred_anything])
    (simp add: Let_def only_carried_and_fresh_def assms may_be_shown_decline yields_return)

lemma pred_fast_path:
  assumes "carried (material_of c st) = []"
  shows "pred_state (\<lambda>r. case r of Some (Inr out) \<Rightarrow> may_be_shown s c (material_of_the_turn c st) out | _ \<Rightarrow> True)
    (try_fast_path s c config st (material_of c st) key)"
proof -
  have path: "yields (case path of
        FastToolCall call usage \<Rightarrow> run_fast_tool_call s c config st (material_of c st) call usage key
      | FastComposeOnly _ usage \<Rightarrow> compose_tool_call s c config st (material_of c st) usage key
      | FastFromMaterial usage \<Rightarrow> answer_from_material s c config st (material_of c st) usage
      | FastDecline usage \<Rightarrow> State_Monad.return (Inr (decline config usage)))
    (may_be_shown s c (material_of_the_turn c st))" for path
    by (cases path)
      (auto simp: run_fast_tool_call_def may_be_shown_decline
        intro!: yields_lookup_then yields_compose yields_from_material [OF assms] yields_return)
  show ?thesis
  proof (cases "\<not> tool_calling config \<or> fetched (material_of c st) \<noteq> []")
    case False
    then show ?thesis
      by (simp only: try_fast_path_def if_False)
        (rule pred_bindI [OF pred_anything], rule pred_bindI [OF path [unfolded yields_def]],
          auto intro: pred_returnI split: sum.splits)
  qed (simp add: try_fast_path_def pred_returnI)
qed

lemma yields_turn:
  assumes "carried (material_of c st) = []"
  shows "yields (turn s c config st key) (may_be_shown s c (material_of_the_turn c st))"
proof -
  have "yields (case quick of
        Some r \<Rightarrow> State_Monad.return r
      | None \<Rightarrow> attempted (complete_with_retries s c request) (\<lambda>out.
          State_Monad.bind (checked_against s c request (material_of c st) out) (\<lambda>out.
          State_Monad.return (Inr out)))) (may_be_shown s c (material_of_the_turn c st))"
    if "case quick of Some (Inr out) \<Rightarrow> may_be_shown s c (material_of_the_turn c st) out | _ \<Rightarrow> True"
    for quick request
  proof (cases quick)
    case None
    then show ?thesis
      by (auto intro!: yields_attempted [OF yields_anything] yields_checked [of _ "material_of_the_turn c st"]
          simp: material_of_the_turn_def)
  next
    case (Some r)
    with that show ?thesis by (cases r) (auto simp: yields_def intro!: pred_returnI)
  qed
  then show ?thesis
    unfolding turn_def Let_def by (rule yields_bind [OF pred_fast_path [OF assms]])
qed

lemma yields_execute:
  assumes "carried (material_of c st) = []"
  shows "yields (llm_execute s c read_config config st key) (may_be_shown s c (material_of_the_turn c st))"
  unfolding llm_execute_def
  by (cases "parse_config read_config config")
    (simp_all add: yields_turn [OF assms], simp add: yields_def pred_returnI)


text \<open>On a turn answered from what an earlier one found, a reply that comes with a tool call is not
checked, and the call is then dropped: the reply leaves as a plain answer, in the very world the model's
answer left behind, so the decider was asked nothing about it.\<close>

lemma reply_beside_a_dropped_call_is_unchecked:
  assumes "run_state (utc_now s) w = (now, w1)"
    and "carried (only_carried_and_fresh c now m) \<noteq> []"
    and "run_state (client s (complete_request_for c config st FromMaterial (only_carried_and_fresh c now m))) w1 =
           (Inr response, w2)"
    and "get (response_to_output c response) TOOL_CALL_FIELD = Some call" and "call \<noteq> Null"
    and "get (response_to_output c response) REPLY_FIELD = Some (String said)" and "said \<noteq> []"
  shows "\<exists>out. run_state (answer_from_material s c config st m usage) w = (Inr out, w2) \<and>
    reply_to_check out = Some said"
proof -
  let ?out = "response_to_output c response"
  have "run_state (complete_with_retries s c
      (complete_request_for c config st FromMaterial (only_carried_and_fresh c now m))) w1 = (Inr ?out, w2)"
    using assms(3) by (subst complete_with_retries_def, subst complete_attempts.simps) simp
  moreover have "reply_to_check ?out = None" using assms(4,5,6) by (simp add: reply_to_check_def is_null_def)
  moreover have "is_object ?out" using assms(4) by (rule get_Some_is_object)
  then have "reply_to_check (without_tool_call ?out) = Some said"
    using assms(6,7) by (simp add: reply_to_check_def without_tool_call_def get_set_field state_keys)
  ultimately show ?thesis
    using assms(1-3)
    by (simp add: answer_from_material_def Let_def attempted_def checked_against_def faults_in_def)
qed

end
