(* ===== verification/Llm_Calls.thy ===== *)
theory Llm_Calls
  imports Llm_Props
begin

text \<open>
  The calls a turn makes. \<open>traced\<close> gives the services of a turn a log of the calls made of them and
  leaves everything else as it is: the relation \<open>spends\<close> says of a computation and its traced twin
  that they run alike and that the log grows by a bounded number of calls.
\<close>

section \<open>Services that keep a log\<close>

datatype 'v turn_call = ModelCalled complete_request | DeciderCalled "'v decide_request"
  | ToolCalled string string string | Slept_for nat

definition logged ::
  "'v turn_call \<Rightarrow> ('w, 'a) state \<Rightarrow> ('w \<times> 'v turn_call list, 'a) state" where
  "logged call m = State (\<lambda>(w, calls). let (x, w') = run_state m w in (x, w', calls @ [call]))"

definition unlogged :: "('w, 'a) state \<Rightarrow> ('w \<times> 'v turn_call list, 'a) state" where
  "unlogged m = State (\<lambda>(w, calls). let (x, w') = run_state m w in (x, w', calls))"

definition traced :: "('w, 'v) services \<Rightarrow> ('w \<times> 'v turn_call list, 'v) services" where
  "traced s =
     \<lparr>client = (\<lambda>request. logged (ModelCalled request) (client s request)),
      decider = (\<lambda>request. logged (DeciderCalled request) (decider s request)),
      tool_svc = (\<lambda>nm input key. logged (ToolCalled nm input key) (tool_svc s nm input key)),
      utc_now = unlogged (utc_now s),
      sleep = (\<lambda>ms. logged (Slept_for ms) (sleep s ms))\<rparr>"

fun model_calls :: "'v turn_call \<Rightarrow> nat" where
  "model_calls (ModelCalled _) = 1" | "model_calls _ = 0"

fun decider_calls :: "'v turn_call \<Rightarrow> nat" where
  "decider_calls (DeciderCalled _) = 1" | "decider_calls _ = 0"

fun tool_calls :: "'v turn_call \<Rightarrow> nat" where
  "tool_calls (ToolCalled _ _ _) = 1" | "tool_calls _ = 0"

section \<open>Costs\<close>

text \<open>At most \<open>a\<close> calls of the model, \<open>b\<close> of the decider and \<open>d\<close> of a tool; \<open>ok\<close> is what is known of
every tool call of the log.\<close>

definition costs ::
  "(string \<Rightarrow> string \<Rightarrow> bool) \<Rightarrow> nat \<Rightarrow> nat \<Rightarrow> nat \<Rightarrow> 'v turn_call list \<Rightarrow> bool" where
  "costs ok a b d calls \<longleftrightarrow>
     sum_list (map model_calls calls) \<le> a \<and> sum_list (map decider_calls calls) \<le> b \<and>
     sum_list (map tool_calls calls) \<le> d \<and>
     (\<forall>nm input key. ToolCalled nm input key \<in> set calls \<longrightarrow> ok nm key)"

lemma costs_append:
  "costs ok a b d xs \<Longrightarrow> costs ok a' b' d' ys \<Longrightarrow> costs ok (a + a') (b + b') (d + d') (xs @ ys)"
  by (auto simp: costs_def)

lemma costs_mono:
  "costs ok a b d xs \<Longrightarrow> a \<le> a' \<Longrightarrow> b \<le> b' \<Longrightarrow> d \<le> d' \<Longrightarrow> costs ok a' b' d' xs"
  by (auto simp: costs_def)

definition spends ::
  "(string \<Rightarrow> string \<Rightarrow> bool) \<Rightarrow> ('w \<times> 'v turn_call list, 'a) state \<Rightarrow> ('w, 'a) state \<Rightarrow>
     nat \<Rightarrow> nat \<Rightarrow> nat \<Rightarrow> bool" where
  "spends ok m' m a b d \<longleftrightarrow>
     (\<forall>w before x w'. run_state m w = (x, w') \<longrightarrow>
        (\<exists>calls. run_state m' (w, before) = (x, w', before @ calls) \<and>
           costs ok a b d calls))"

lemma spendsI:
  assumes "\<And>w before x w'. run_state m w = (x, w') \<Longrightarrow>
    \<exists>calls. run_state m' (w, before) = (x, w', before @ calls) \<and> costs ok a b d calls"
  shows "spends ok m' m a b d"
  using assms by (simp add: spends_def)

lemma spendsE:
  assumes "spends ok m' m a b d" and "run_state m w = (x, w')"
  obtains calls where "run_state m' (w, before) = (x, w', before @ calls)" and "costs ok a b d calls"
  using assms unfolding spends_def by blast

lemma spends_mono:
  "spends ok m' m a b d \<Longrightarrow> a \<le> a' \<Longrightarrow> b \<le> b' \<Longrightarrow> d \<le> d' \<Longrightarrow> spends ok m' m a' b' d'"
  unfolding spends_def by (meson costs_mono)

lemma spends_return: "spends ok (State_Monad.return x) (State_Monad.return x) a b d"
  by (rule spendsI) (auto simp: costs_def)

lemma spends_bind:
  assumes "spends ok m' m a b d" and "pred_state P m" and "\<And>x. P x \<Longrightarrow> spends ok (f' x) (f x) a' b' d'"
  shows "spends ok (State_Monad.bind m' f') (State_Monad.bind m f) (a + a') (b + b') (d + d')"
proof (rule spendsI)
  fix w before y w'' assume run: "run_state (State_Monad.bind m f) w = (y, w'')"
  obtain x w' where m: "run_state m w = (x, w')" by fastforce
  with assms(2) have "P x" by (rule pred_stateD)
  have f: "run_state (f x) w' = (y, w'')" using run m by simp
  obtain xs where xs: "run_state m' (w, before) = (x, w', before @ xs)" "costs ok a b d xs"
    using spendsE [OF assms(1) m] .
  obtain ys where "run_state (f' x) (w', before @ xs) = (y, w'', (before @ xs) @ ys)" "costs ok a' b' d' ys"
    using spendsE [OF assms(3) [OF \<open>P x\<close>] f] .
  with xs show "\<exists>calls. run_state (State_Monad.bind m' f') (w, before) = (y, w'', before @ calls) \<and>
      costs ok (a + a') (b + b') (d + d') calls"
    by (intro exI [of _ "xs @ ys"]) (simp add: costs_append)
qed

lemma spends_then:
  assumes "spends ok m' m a b d" and "\<And>x. spends ok (f' x) (f x) a' b' d'"
    and "a + a' \<le> A" "b + b' \<le> B" "d + d' \<le> D"
  shows "spends ok (State_Monad.bind m' f') (State_Monad.bind m f) A B D"
  by (rule spends_mono [OF spends_bind [OF assms(1) pred_anything assms(2)] assms(3-5)])

lemma spends_attempted:
  assumes "spends ok m' m a b d" and "\<And>x. spends ok (f' x) (f x) a' b' d'"
    and "a + a' \<le> A" "b + b' \<le> B" "d + d' \<le> D"
  shows "spends ok (attempted m' f') (attempted m f) A B D"
  unfolding attempted_def
  by (rule spends_then [OF assms(1) _ assms(3-5)]) (auto split: sum.splits intro: assms(2) spends_return)

lemma spends_logged: "costs ok a b d [call] \<Longrightarrow> spends ok (logged call m) m a b d"
  by (rule spendsI) (simp add: logged_def)

lemma spends_client: "spends ok (client (traced s) request) (client s request) 1 0 0"
  by (simp add: traced_def spends_logged costs_def)

lemma spends_decider: "spends ok (decider (traced s) request) (decider s request) 0 1 0"
  by (simp add: traced_def spends_logged costs_def)

lemma spends_tool:
  "ok nm key \<Longrightarrow> spends ok (tool_svc (traced s) nm input key) (tool_svc s nm input key) 0 0 1"
  by (simp add: traced_def spends_logged costs_def)

lemma spends_sleep: "spends ok (sleep (traced s) ms) (sleep s ms) 0 0 0"
  by (simp add: traced_def spends_logged costs_def)

lemma spends_now: "spends ok (utc_now (traced s)) (utc_now s) 0 0 0"
  by (rule spendsI) (simp add: traced_def unlogged_def costs_def)

section \<open>What each part of a turn costs\<close>

lemma spends_attempts:
  "spends ok (complete_attempts (traced s) c request n) (complete_attempts s c request n) (Suc n) 0 0"
proof (induction n)
  case 0
  show ?case
    unfolding complete_attempts.simps [of _ _ _ 0]
    by (rule spends_then [OF spends_client]) (auto split: sum.splits intro: spends_return)
next
  case (Suc n)
  have "spends ok
      (State_Monad.bind (sleep (traced s) ms) (\<lambda>_. complete_attempts (traced s) c request n))
      (State_Monad.bind (sleep s ms) (\<lambda>_. complete_attempts s c request n)) (Suc n) 0 0" for ms
    by (rule spends_then [OF spends_sleep Suc]) simp_all
  then show ?case
    unfolding complete_attempts.simps [of _ _ _ "Suc n"]
    by (intro spends_then [OF spends_client, where a' = "Suc n" and b' = 0 and d' = 0]) (auto split: sum.splits intro: spends_return)
qed

lemma spends_complete:
  "spends ok (complete_with_retries (traced s) c request) (complete_with_retries s c request) 3 0 0"
  using spends_attempts [of ok s c request 2] by (simp add: complete_with_retries_def RETRY_ATTEMPTS_def)

lemma spends_decided:
  "spends ok (decided_once_more_on_error (traced s) request) (decided_once_more_on_error s request) 0 2 0"
proof -
  have "spends ok
      (State_Monad.bind (decider (traced s) request) (\<lambda>r. State_Monad.return (g r)))
      (State_Monad.bind (decider s request) (\<lambda>r. State_Monad.return (g r))) 0 1 0"
    for g :: "string + decide_response \<Rightarrow> decide_response option"
    by (rule spends_then [OF spends_decider spends_return]) simp_all
  then show ?thesis
    unfolding decided_once_more_on_error_def
    by (intro spends_then [OF spends_decider, where a' = 0 and b' = 1 and d' = 0]) (auto split: sum.splits intro: spends_return)
qed

lemma spends_check: "spends ok (faults_in (traced s) c m out) (faults_in s c m out) 0 2 0"
  unfolding faults_in_def
  by (auto split: option.splits intro!: spends_return spends_then [OF spends_decided])

lemma spends_second:
  "spends ok (second_reply_checked_against (traced s) c m second) (second_reply_checked_against s c m second) 0 2 0"
  unfolding second_reply_checked_against_def
  by (rule spends_then [OF spends_check spends_return]) simp_all

lemma spends_checked:
  "spends ok (checked_against (traced s) c request m out) (checked_against s c request m out) 3 4 0"
proof -
  have "spends ok
      (State_Monad.bind (asked_again_with (traced s) c request f out) (case_sum (\<lambda>_. State_Monad.return x)
        (\<lambda>second. second_reply_checked_against (traced s) c m (merge_usage out second))))
      (State_Monad.bind (asked_again_with s c request f out) (case_sum (\<lambda>_. State_Monad.return x)
        (\<lambda>second. second_reply_checked_against s c m (merge_usage out second)))) 3 2 0" for f out x
    unfolding asked_again_with_def
    by (rule spends_then [OF spends_complete, where a' = 0 and b' = 2 and d' = 0])
      (auto split: sum.splits intro: spends_return spends_second)
  then show ?thesis
    unfolding checked_against_def
    by (intro spends_then [OF spends_check, where a' = 3 and b' = 2 and d' = 0])
      (auto split: reply_check.splits simp: Let_def intro: spends_return)
qed

text \<open>What is known of every tool call: it is of the catalogue, under the one key of this turn.\<close>

definition of_the_catalogue :: "llm_node_config \<Rightarrow> string \<Rightarrow> string \<Rightarrow> string \<Rightarrow> bool" where
  "of_the_catalogue config key nm k \<longleftrightarrow>
     nm \<in> entry_name ` set (available config) \<and> k = key @ DECIDE_TOOL_SUFFIX"

lemma spends_composed: "spends ok (composed (traced s) c config st m) (composed s c config st m) 6 0 0"
proof -
  have "spends ok
      (attempted (complete_with_retries (traced s) c request) (\<lambda>x. State_Monad.return (g x)))
      (attempted (complete_with_retries s c request) (\<lambda>x. State_Monad.return (g x))) 3 0 0"
    for request and g :: "json \<Rightarrow> string + json"
    by (rule spends_attempted [OF spends_complete spends_return]) simp_all
  then show ?thesis
    unfolding composed_def Let_def
    by (intro spends_attempted [OF spends_complete, where a' = 3 and b' = 0 and d' = 0])
      (auto intro: spends_return)
qed

lemma spends_asked_for:
  "spends ok (asked_for_instead (traced s) c config st call) (asked_for_instead s c config st call) 0 2 0"
proof -
  have "spends ok (not_pointed_at (traced s) c st call) (not_pointed_at s c st call) 0 2 0"
    unfolding not_pointed_at_def Let_def
    by (auto split: option.splits intro!: spends_return spends_then [OF spends_decided])
  then show ?thesis
    unfolding asked_for_instead_def
    by (rule spends_then [OF _ spends_return]) simp_all
qed

lemma spends_answer:
  "spends ok
     (attempted (complete_with_retries (traced s) c request) (\<lambda>out.
        State_Monad.bind (checked_against (traced s) c request m out) (\<lambda>out. State_Monad.return (g out))))
     (attempted (complete_with_retries s c request) (\<lambda>out.
        State_Monad.bind (checked_against s c request m out) (\<lambda>out. State_Monad.return (g out)))) 6 4 0"
  by (rule spends_attempted [OF spends_complete spends_then [OF spends_checked spends_return]])
    (rule order_refl | simp)+

lemma spends_dispatch:
  assumes "ok (call_name call) (key @ DECIDE_TOOL_SUFFIX)"
  shows "spends ok (dispatch_tool_fast (traced s) c call key) (dispatch_tool_fast s c call key) 0 0 1"
  unfolding dispatch_tool_fast_def
  by (rule spends_then [OF spends_tool spends_return]) (simp_all add: assms)

lemma spends_lookup:
  assumes "ok (call_name call) (key @ DECIDE_TOOL_SUFFIX)"
  shows "spends ok (answered_with_the_lookup (traced s) c config st m call key)
    (answered_with_the_lookup s c config st m call key) 6 4 1"
  unfolding answered_with_the_lookup_def Let_def
  using assms
  by (intro spends_then [OF spends_dispatch spends_then [OF spends_now spends_answer]])
    (assumption | rule order_refl | simp)+

lemma spends_lookup_then:
  assumes "ok (call_name call) (key @ DECIDE_TOOL_SUFFIX)"
  shows "spends ok
    (attempted (answered_with_the_lookup (traced s) c config st m call key) (\<lambda>out. State_Monad.return (g out)))
    (attempted (answered_with_the_lookup s c config st m call key) (\<lambda>out. State_Monad.return (g out))) 6 4 1"
  using assms by (intro spends_attempted [OF spends_lookup spends_return]) simp_all

lemma in_catalog_ok: "in_catalog config call \<Longrightarrow> of_the_catalogue config key (call_name call) (key @ DECIDE_TOOL_SUFFIX)"
  by (force simp: in_catalog_def of_the_catalogue_def list_ex_iff)

lemma spends_compose:
  "spends (of_the_catalogue config key) (compose_tool_call (traced s) c config st m usage key)
     (compose_tool_call s c config st m usage key) 12 6 1"
proof -
  have "spends (of_the_catalogue config key)
      (State_Monad.bind (asked_for_instead (traced s) c config st call) (case_option
        (attempted (answered_with_the_lookup (traced s) c config st m call key) (\<lambda>out. State_Monad.return (g out)))
        (\<lambda>asking. State_Monad.return (g asking))))
      (State_Monad.bind (asked_for_instead s c config st call) (case_option
        (attempted (answered_with_the_lookup s c config st m call key) (\<lambda>out. State_Monad.return (g out)))
        (\<lambda>asking. State_Monad.return (g asking)))) 6 6 1"
    if "in_catalog config call" for call and g :: "json \<Rightarrow> string + json"
    using that
    by (intro spends_then [OF spends_asked_for, where a' = 6 and b' = 4 and d' = 1])
      (auto split: option.splits intro!: spends_return spends_lookup_then [unfolded One_nat_def] in_catalog_ok)
  then show ?thesis
    unfolding compose_tool_call_def
    by (intro spends_attempted [OF spends_composed, where a' = 6 and b' = 6 and d' = 1])
      (auto split: option.splits bind_splits if_splits intro: spends_return)
qed

lemma spends_from_material:
  "spends ok (answer_from_material (traced s) c config st m usage) (answer_from_material s c config st m usage) 6 4 0"
  unfolding answer_from_material_def Let_def
  by (rule spends_then [OF spends_now, where a' = 6 and b' = 4 and d' = 0])
    (auto intro: spends_return spends_answer)

section \<open>The fast path\<close>

lemma fast_call_in_catalog:
  "fast_dispatchable_tool_call c chosen tools msg given = Some call \<Longrightarrow> call_name call \<in> entry_name ` set tools"
  by (auto simp: fast_dispatchable_tool_call_def call_with_the_picked_value_def
      call_with_the_question_verbatim_def find_Some_iff bind_eq_Some_conv split: option.splits if_splits)

definition path_in_catalog :: "llm_node_config \<Rightarrow> fast_path \<Rightarrow> bool" where
  "path_in_catalog config path \<longleftrightarrow>
     (\<forall>call usage. path = FastToolCall call usage \<longrightarrow> call_name call \<in> entry_name ` set (available config))"

lemma fast_path_in_catalog: "pred_state (path_in_catalog config) (decide_fast_path s c config msg prior)"
proof -
  have "path_in_catalog config (path_of_the_answers c config msg d)" for d
    by (auto simp: path_of_the_answers_def path_in_catalog_def Let_def
        split: option.splits if_splits dest: fast_call_in_catalog)
  then show ?thesis
    unfolding decide_fast_path_def
    by (auto split: option.splits sum.splits intro!: pred_returnI pred_bindI [OF pred_anything]
        simp: path_in_catalog_def [of _ "FastDecline _"])
qed

lemma spends_fast_decision:
  "spends ok (decide_fast_path (traced s) c config msg prior) (decide_fast_path s c config msg prior) 0 1 0"
  unfolding decide_fast_path_def
  by (auto split: option.splits intro!: spends_return spends_then [OF spends_decider])

lemma spends_path:
  assumes "path_in_catalog config path"
  shows "spends (of_the_catalogue config key)
    (case path of
       FastToolCall call usage \<Rightarrow> run_fast_tool_call (traced s) c config st m call usage key
     | FastComposeOnly _ usage \<Rightarrow> compose_tool_call (traced s) c config st m usage key
     | FastFromMaterial usage \<Rightarrow> answer_from_material (traced s) c config st m usage
     | FastDecline usage \<Rightarrow> State_Monad.return (Inr (decline config usage)))
    (case path of
       FastToolCall call usage \<Rightarrow> run_fast_tool_call s c config st m call usage key
     | FastComposeOnly _ usage \<Rightarrow> compose_tool_call s c config st m usage key
     | FastFromMaterial usage \<Rightarrow> answer_from_material s c config st m usage
     | FastDecline usage \<Rightarrow> State_Monad.return (Inr (decline config usage))) 12 6 1"
proof (cases path)
  case (FastToolCall call usage)
  with assms have "of_the_catalogue config key (call_name call) (key @ DECIDE_TOOL_SUFFIX)"
    by (simp add: path_in_catalog_def of_the_catalogue_def)
  then have "spends (of_the_catalogue config key) (run_fast_tool_call (traced s) c config st m call usage key)
      (run_fast_tool_call s c config st m call usage key) 6 4 1"
    unfolding run_fast_tool_call_def by (rule spends_lookup_then)
  with FastToolCall show ?thesis by (auto elim: spends_mono)
next
  case (FastFromMaterial usage)
  then show ?thesis by (auto intro: spends_mono [OF spends_from_material])
qed (simp_all add: spends_return spends_compose [simplified])

lemma spends_fast_path:
  "spends (of_the_catalogue config key) (try_fast_path (traced s) c config st m key)
     (try_fast_path s c config st m key) 12 7 1"
proof -
  let ?ok = "of_the_catalogue config key"
  have "spends ?ok (State_Monad.bind p' (\<lambda>x. State_Monad.return (Some x)))
      (State_Monad.bind p (\<lambda>x. State_Monad.return (Some x))) 12 6 1"
    if "spends ?ok p' p 12 6 1" for p' and p :: "('a, string + json) state"
    by (rule spends_then [OF that spends_return]) simp_all
  note some = this [OF spends_path]
  show ?thesis
    unfolding try_fast_path_def
    using spends_bind [OF spends_fast_decision fast_path_in_catalog some]
    by (auto intro: spends_return)
qed

lemma fast_path_decides:
  assumes "tool_calling config" and "fetched m = []"
  shows "pred_state (\<lambda>r. r \<noteq> None) (try_fast_path s c config st m key)"
  using assms by (auto simp: try_fast_path_def intro!: pred_bindI [OF pred_anything] pred_returnI)

lemma spends_turn:
  "spends (of_the_catalogue config key) (turn (traced s) c config st key) (turn s c config st key) 12 7 1"
proof (cases "tool_calling config \<and> fetched (material_of c st) = []")
  case True
  then have decides: "pred_state (\<lambda>r. r \<noteq> None) (try_fast_path s c config st (material_of c st) key)"
    by (intro fast_path_decides) simp_all
  have "spends (of_the_catalogue config key) (turn (traced s) c config st key) (turn s c config st key)
      (12 + 0) (7 + 0) (1 + 0)"
    unfolding turn_def Let_def
    by (rule spends_bind [OF spends_fast_path decides]) (auto intro: spends_return)
  then show ?thesis by simp
next
  case False
  then show ?thesis
    by (auto simp: turn_def try_fast_path_def Let_def intro!: spends_mono [OF spends_answer])
qed

lemma spends_execute:
  assumes "run_state (llm_execute s c read_config config st key) w = (r, w')"
  shows "\<exists>calls. run_state (llm_execute (traced s) c read_config config st key) (w, []) = (r, w', calls) \<and>
    (case parse_config read_config config of
       Inl _ \<Rightarrow> calls = []
     | Inr parsed \<Rightarrow> costs (of_the_catalogue parsed key) 12 7 1 calls)"
proof (cases "parse_config read_config config")
  case (Inr parsed)
  then have "run_state (turn s c parsed st key) w = (r, w')" using assms by (simp add: llm_execute_def)
  from spendsE [OF spends_turn this, where before = "[]"] Inr show ?thesis by (auto simp: llm_execute_def)
qed (use assms in \<open>simp add: llm_execute_def\<close>)

text \<open>C21: every turn ends after at most twelve calls of the model, seven of the decider and one of a tool,
whatever they answer; the log leaves the result and the world of the turn as they are.\<close>

theorem turn_is_bounded:
  assumes "run_state (llm_execute s c read_config config st key) w = (r, w')"
  shows "\<exists>calls. run_state (llm_execute (traced s) c read_config config st key) (w, []) = (r, w', calls) \<and>
    sum_list (map model_calls calls) \<le> 12 \<and> sum_list (map decider_calls calls) \<le> 7 \<and>
    sum_list (map tool_calls calls) \<le> 1"
proof -
  obtain calls where "run_state (llm_execute (traced s) c read_config config st key) (w, []) = (r, w', calls)"
    and "case parse_config read_config config of
       Inl _ \<Rightarrow> calls = []
     | Inr parsed \<Rightarrow> costs (of_the_catalogue parsed key) 12 7 1 calls"
    using spends_execute [OF assms] by blast
  then show ?thesis by (intro exI [of _ calls]) (auto simp: costs_def split: sum.splits)
qed

text \<open>C22: a tool that a turn calls is one the catalogue of the turn lists, and it is called under the turn's
idempotency key followed by the suffix reserved for it.\<close>

theorem only_catalogued_tools_are_called:
  assumes "run_state (llm_execute (traced s) c read_config config st key) (w, []) = (r, w', calls)"
    and "ToolCalled nm input k \<in> set calls"
  shows "\<exists>parsed. parse_config read_config config = Inr parsed \<and>
    nm \<in> entry_name ` set (available parsed) \<and> k = key @ DECIDE_TOOL_SUFFIX"
proof -
  obtain r' u where "run_state (llm_execute s c read_config config st key) w = (r', u)" by fastforce
  from spends_execute [OF this] assms show ?thesis
    by (auto simp: costs_def of_the_catalogue_def split: sum.splits)
qed

end
