(* ===== verification/Llm_Router.thy ===== *)
theory Llm_Router
  imports Llm_Calls
begin

text \<open>
  The agent and the router together. What the two sides rely on of the wire between them is the locale
  \<open>decision_wire\<close>: they print JSON alike, a value without numbers survives the protobuf message, and a
  string costs at most six bytes a byte when it is printed. Shown: the request that checks a reply
  is one the router takes, whatever the material; a sound verdict of the router really holds both
  readings; and a catalogue that lists a decidable tool with a name over fifty-four bytes makes the router
  refuse every decision of the turn, which then declines.
\<close>

section \<open>The wire\<close>

text \<open>Protobuf carries every number as a double, so only values without numbers are carried exactly.\<close>

primrec number_free :: "json \<Rightarrow> bool" where
  "number_free Null \<longleftrightarrow> True"
| "number_free (Bool b) \<longleftrightarrow> True"
| "number_free (Number n) \<longleftrightarrow> False"
| "number_free (String s) \<longleftrightarrow> True"
| "number_free (Array vs) \<longleftrightarrow> list_all id (map number_free vs)"
| "number_free (Object m) \<longleftrightarrow> fmpred (\<lambda>_ b. b) (fmmap number_free m)"

locale decision_wire =
  fixes ac :: "'v agent_codec" and jc :: "'v json_codec"
  assumes printed_alike: "to_string jc v = render_json (base ac) v"
    and carried_exactly: "number_free v \<Longrightarrow> proto_value ac v = Some p \<Longrightarrow> to_value jc (Some p) = Inr v"
    and escaped_string: "length (to_string jc (String s)) \<le> 6 * length s + 2"
begin

lemma noul_question_reads_as:
  assumes "noul_question ac i asks when_true when_false = Some q"
  shows "question_reads_as jc q
    \<lparr>question_id = i, instructions = String asks, kind = Noul (Some when_true) (Some when_false)\<rparr>"
  using assms carried_exactly [of "String asks"]
  by (auto simp: noul_question_def instructed_def question_reads_as_def)

lemma noul_question_ok:
  assumes "i \<noteq> []" "length i \<le> 64" "length asks \<le> 1024" "length when_true \<le> 1024" "length when_false \<le> 1024"
    and "state_bytes \<le> MAX_STATE_BYTES"
  shows "question_ok jc state_bytes
    \<lparr>question_id = i, instructions = String asks, kind = Noul (Some when_true) (Some when_false)\<rparr>"
  using assms escaped_string [of asks]
  by (simp add: question_ok_def question_bytes_def optional_bytes_def MAX_QUESTION_ID_BYTES_def
      MAX_INSTRUCTIONS_BYTES_def MAX_LEVEL_BYTES_def MAX_STATE_PLUS_QUESTION_BYTES_def MAX_STATE_BYTES_def
      VENDOR_STATE_PLUS_QUESTION_TOKENS_def WORST_CASE_BYTES_PER_TOKEN_def)

end

section \<open>The request that checks a reply\<close>

definition promise_question :: question where
  "promise_question = \<lparr>question_id = PROMISE_ID, instructions = String PROMISE_INSTRUCTIONS,
     kind = Noul (Some PROMISE_WHEN_TRUE) (Some PROMISE_WHEN_FALSE)\<rparr>"

definition grounded_question :: question where
  "grounded_question = \<lparr>question_id = GROUNDED_ID, instructions = String GROUNDED_INSTRUCTIONS,
     kind = Noul (Some GROUNDED_WHEN_TRUE) (Some GROUNDED_WHEN_FALSE)\<rparr>"

lemma reply_check_request_cases:
  assumes "reply_check_request c m said = Some request"
  obtains st v p g where "state_the_decider_takes c m said = Some st" and "proto_value c st = Some v"
    and "noul_question c PROMISE_ID PROMISE_INSTRUCTIONS PROMISE_WHEN_TRUE PROMISE_WHEN_FALSE = Some p"
    and "noul_question c GROUNDED_ID GROUNDED_INSTRUCTIONS GROUNDED_WHEN_TRUE GROUNDED_WHEN_FALSE = Some g"
    and "request = \<lparr>req_state = Some v, req_questions = [p, g]\<rparr>"
  using assms by (auto simp: reply_check_request_def request_about_def bind_eq_Some_conv)

lemma fit_state_fits:
  assumes "fit_state c read said share tries = Some st"
  shows "length (render_json (base c) st) \<le> MAX_STATE_BYTES \<and> (\<exists>n. st = checked_state read n said)"
  using assms
proof (induction c read said share tries rule: fit_state.induct)
  case (2 c read said share tries)
  then show ?case
    by (auto simp: Let_def MAX_STATE_BYTES_def STATE_BYTES_BEYOND_WHICH_THE_DECIDER_REFUSES_def
        split: if_splits)
qed simp

lemma checked_state_number_free: "number_free (checked_state read n said)"
  by (auto simp: checked_state_def each_within_def json_object_def list_all_iff fmlookup_of_list
      intro!: fmpredI split: if_splits)

lemma check_questions_ok:
  assumes "decision_wire ac jc" and "state_bytes \<le> MAX_STATE_BYTES"
  shows "question_ok jc state_bytes promise_question" "question_ok jc state_bytes grounded_question"
  unfolding promise_question_def grounded_question_def
  by (rule decision_wire.noul_question_ok [OF assms(1) _ _ _ _ _ assms(2)];
    simp add: PROMISE_ID_def PROMISE_INSTRUCTIONS_def PROMISE_WHEN_TRUE_def PROMISE_WHEN_FALSE_def
      GROUNDED_ID_def GROUNDED_INSTRUCTIONS_def GROUNDED_WHEN_TRUE_def GROUNDED_WHEN_FALSE_def
      EM_DASH_def)+

definition check_decision :: "json \<Rightarrow> decision" where
  "check_decision st =
     \<lparr>decision_state = st, questions = [promise_question, grounded_question], caller_stops_waiting_at = None\<rparr>"

lemma check_request_accepted:
  assumes wire: "decision_wire ac jc" and "reply_check_request ac m said = Some request"
  shows "\<exists>n. validated_decision jc request = Inr (check_decision (checked_state (what_came_back ac m) n said))"
proof -
  obtain st v p g where st: "state_the_decider_takes ac m said = Some st" and v: "proto_value ac st = Some v"
    and p: "noul_question ac PROMISE_ID PROMISE_INSTRUCTIONS PROMISE_WHEN_TRUE PROMISE_WHEN_FALSE = Some p"
    and g: "noul_question ac GROUNDED_ID GROUNDED_INSTRUCTIONS GROUNDED_WHEN_TRUE GROUNDED_WHEN_FALSE = Some g"
    and request: "request = \<lparr>req_state = Some v, req_questions = [p, g]\<rparr>"
    using assms(2) by (rule reply_check_request_cases)
  from st obtain n where n: "st = checked_state (what_came_back ac m) n said"
    and bytes: "length (to_string jc st) \<le> MAX_STATE_BYTES"
    using fit_state_fits decision_wire.printed_alike [OF wire]
    by (fastforce simp: state_the_decider_takes_def Let_def)
  note ok = check_questions_ok [OF wire bytes]
  have "reads_as jc request (check_decision st)"
    using v n decision_wire.carried_exactly [OF wire checked_state_number_free]
      decision_wire.noul_question_reads_as [OF wire p] decision_wire.noul_question_reads_as [OF wire g]
    by (simp add: reads_as_def check_decision_def request promise_question_def grounded_question_def)
  moreover have "decision_ok jc (check_decision st)"
    using bytes ok n
    by (auto simp: decision_ok_def check_decision_def Let_def MAX_QUESTIONS_def question_ok_def
        MAX_STATE_PLUS_QUESTION_BYTES_def MAX_REQUEST_BYTES_def VENDOR_REQUEST_TOKENS_def MAX_STATE_BYTES_def
        VENDOR_STATE_PLUS_QUESTION_TOKENS_def WORST_CASE_BYTES_PER_TOKEN_def promise_question_def
        grounded_question_def PROMISE_ID_def GROUNDED_ID_def checked_state_def json_object_def)
  ultimately show ?thesis using n by (auto simp: validated_decision_eq_Inr)
qed

text \<open>C23: whatever the material and however long it is, the request with which the agent has a reply checked
is inside the budget the router publishes: the router reads it as the two questions about exactly this
reply, beside the material cut to fit.\<close>

theorem check_requests_fit_the_router:
  assumes "decision_wire ac jc" and "reply_check_request ac m said = Some request"
  shows "\<exists>n d. validated_decision jc request = Inr d \<and>
    decision_state d = checked_state (what_came_back ac m) n said \<and>
    questions d = [promise_question, grounded_question]"
  using check_request_accepted [OF assms] by (auto simp: check_decision_def)

section \<open>What a verdict of the router holds\<close>

lemma find_noul_fits:
  assumes "list_all2 (\<lambda>q r. answer_id r = question_id q \<and>
      (\<exists>a. fmlookup m (question_id q) = Some a \<and> fits (kind q) a (given_answer r))) qs rs"
    and "distinct (map question_id qs)" and "q \<in> set qs" and "kind q = Noul t f"
  shows "\<exists>x. find_noul rs (question_id q) = Some x"
  using assms
proof (induction qs rs rule: list_all2_induct)
  case (Cons p ps r rs)
  then show ?case
    by (cases "q = p"; cases "given_answer r") (auto simp: find_noul_def)
qed simp

lemma answers_fit_find_noul:
  assumes "answers_fit qs body rs" "distinct (map question_id qs)" "q \<in> set qs" "kind q = Noul t f"
  shows "\<exists>x. find_noul rs (question_id q) = Some x"
  using assms(1) find_noul_fits [OF _ assms(2-4)] by (auto simp: answers_fit_def)

lemma reads_as_ids: "reads_as c request d \<Longrightarrow> map question_id (questions d) = map pq_id (req_questions request)"
  by (auto simp: reads_as_def question_reads_as_def list_all2_conv_all_nth intro: nth_equalityI)

text \<open>A reply is vouched for by readings, not by silence: when the router answers a check, its answer
holds a reading of both questions, so a verdict without fault says that the reply promises nothing with at
least even odds, and that it is grounded with at least even odds.\<close>

lemma sound_verdict_has_both_readings:
  assumes "reply_check_request ac m said = Some request"
    and "decide jc (Some (system_one_decide jc send s now, model)) elapsed request stops_at =
           (Inr response, attempts)"
    and "sound (faults_of response)"
  shows "\<exists>p g. find_noul (dr_answers response) PROMISE_ID = Some p \<and> p \<le> 1 / 2 \<and>
    find_noul (dr_answers response) GROUNDED_ID = Some g \<and> 1 / 2 \<le> g"
proof -
  from decided_fits [OF assms(2)] obtain d body where d: "reads_as jc request d" "decision_ok jc d"
    and fit: "answers_fit (questions d) body (dr_answers response)" by blast
  from assms(1) obtain v p g where request: "request = \<lparr>req_state = Some v, req_questions = [p, g]\<rparr>"
    and p: "pq_id p = PROMISE_ID" "pq_kind p = Some (ProtoNoul (Some PROMISE_WHEN_TRUE) (Some PROMISE_WHEN_FALSE))"
    and g: "pq_id g = GROUNDED_ID" "pq_kind g = Some (ProtoNoul (Some GROUNDED_WHEN_TRUE) (Some GROUNDED_WHEN_FALSE))"
    by (rule reply_check_request_cases) (auto simp: noul_question_def instructed_def)
  from d(1) request obtain p' g' where q: "questions d = [p', g']"
    and "question_reads_as jc p p'" "question_reads_as jc g g'"
    by (auto simp: reads_as_def list_all2_Cons1)
  with p g have "question_id p' = PROMISE_ID" "kind p' = Noul (Some PROMISE_WHEN_TRUE) (Some PROMISE_WHEN_FALSE)"
    "question_id g' = GROUNDED_ID" "kind g' = Noul (Some GROUNDED_WHEN_TRUE) (Some GROUNDED_WHEN_FALSE)"
    by (auto simp: question_reads_as_def)
  note noul = this
  have "distinct (map question_id (questions d))" using d(2) by (simp add: decision_ok_def Let_def)
  note read = answers_fit_find_noul [OF fit this]
  obtain x y where "find_noul (dr_answers response) PROMISE_ID = Some x"
    and "find_noul (dr_answers response) GROUNDED_ID = Some y"
    using read [OF _ noul(2)] read [OF _ noul(4)] by (auto simp: q noul)
  with assms(3) show ?thesis
    by (simp add: sound_def faults_of_def PROMISE_ENOUGH_TO_REFUSE_def GROUNDED_ENOUGH_TO_SEND_def not_less)
qed

section \<open>A name that is too long\<close>

lemma decidable_question_asked:
  assumes "asked_about c (spans c msg) t = Some (nm, description, listed)"
    and "(nm, description, listed) \<in>
      set (take MAX_ARGUMENTS_ASKED_ABOUT_AT_ONCE (List.map_filter (asked_about c (spans c msg)) tools))"
    and "question_set_for c nm description listed = Some qs"
  shows "\<exists>q \<in> set (decidable_questions c msg tools). pq_id q = VALUE_ONE_ONLY_PREFIX @ nm"
proof -
  have "\<exists>q \<in> set qs. pq_id q = VALUE_ONE_ONLY_PREFIX @ nm"
    using assms(3) by (auto simp: question_set_for_def Let_def bind_eq_Some_conv noul_question_def
        instructed_def split: if_splits)
  moreover have "set qs \<subseteq> set (decidable_questions c msg tools)"
    using assms(2,3) by (force simp: decidable_questions_def)
  ultimately show ?thesis by blast
qed

text \<open>A listed tool whose argument the decision is asked about and whose name is longer than fifty-four
bytes (the tool service takes sixty-four) makes the router refuse the whole scope decision, before any
provider is asked; the agent then declines the turn, whatever it was asked.\<close>

lemma long_tool_name_blocks_the_turn:
  assumes "scope_request ac msg (available config) prior = Some request"
    and "asked_about ac (spans ac msg) t = Some (entry_name t, description, listed)"
    and "(entry_name t, description, listed) \<in> set (take MAX_ARGUMENTS_ASKED_ABOUT_AT_ONCE
           (List.map_filter (asked_about ac (spans ac msg)) (available config)))"
    and "question_set_for ac (entry_name t) description listed = Some qs"
    and "54 < length (entry_name t)"
  shows "\<exists>e. decide jc (Some (asker, model)) elapsed request stops_at = (Inl e, [])"
proof (rule ccontr)
  assume "\<not> ?thesis"
  then obtain d where "validated_decision jc request = Inr d"
    by (auto simp: decide_def configured_def split: sum.splits)
  then have d: "reads_as jc request d" "decision_ok jc d" by (auto simp: validated_decision_eq_Inr)
  have "set (decidable_questions ac msg (available config)) \<subseteq> set (req_questions request)"
    using assms(1) by (auto simp: scope_request_def request_about_def bind_eq_Some_conv)
  with decidable_question_asked [OF assms(2-4)] obtain q
    where "q \<in> set (req_questions request)" "pq_id q = VALUE_ONE_ONLY_PREFIX @ entry_name t" by blast
  then have "VALUE_ONE_ONLY_PREFIX @ entry_name t \<in> set (map question_id (questions d))"
    by (force simp: reads_as_ids [OF d(1)])
  moreover have "\<forall>i \<in> set (map question_id (questions d)). length i \<le> MAX_QUESTION_ID_BYTES"
    using d(2) by (simp add: decision_ok_def Let_def question_ok_def)
  ultimately have "length (VALUE_ONE_ONLY_PREFIX @ entry_name t) \<le> MAX_QUESTION_ID_BYTES" by blast
  with assms(5) show False by (simp add: MAX_QUESTION_ID_BYTES_def VALUE_ONE_ONLY_PREFIX_def)
qed

end
