(* ===== verification/Agent_Witnesses.thy ===== *)
theory Agent_Witnesses
  imports Llm_Router Router_Witnesses
begin

text \<open>
  A reference codec for the agent and the router that satisfies \<open>decision_wire\<close>, and concrete turns
  with it: one that answers plainly, one that calls a tool of its catalogue, one that answers from what an
  earlier turn found.
\<close>

section \<open>The reference codec\<close>

definition ref_schema :: json where
  "ref_schema = json_object
     [(''required'', Array [String ''name'']),
      (''properties'', json_object [(''name'', json_object
         [(''type'', String ''string''), (''enum'', Array [String ''it'']),
          (ACCEPTS_FREE_TEXT, Bool True)])])]"

definition both_output :: llm_output where
  "both_output = \<lparr>out_tool_call = Bool True, out_reply = String ''done''\<rparr>"

text \<open>Values cross the wire as they are; a schema is always the one above, and the one text that parses as
a model output is the one with a call and a reply.\<close>

definition ref_agent :: "json agent_codec" where
  "ref_agent =
     \<lparr>base = ref_serde\<lparr>parse_json := \<lambda>_. Inr ref_schema\<rparr>,
      write_llm_output = (\<lambda>out. json_object
        [(TOOL_CALL_FIELD, out_tool_call out), (REPLY_FIELD, out_reply out)]),
      show_llm_output = (\<lambda>_. ''{}''),
      read_llm_output_text = (\<lambda>s. if s = ''both'' then Some both_output else None),
      read_llm_output_prefix = (\<lambda>_. None),
      write_tool_call = (\<lambda>call. json_object [(''name'', String (call_name call)), (''args'', call_args call)]),
      question_in = (\<lambda>st. str_or_empty (at_key st ''question'')),
      proto_value = Some,
      read_instant = (\<lambda>_. Some 0),
      write_instant = (\<lambda>_. ''now''),
      white_space = (\<lambda>ch. ch = '' ''),
      alphanumeric = (\<lambda>ch. ch \<noteq> '' '')\<rparr>"

definition check_reply :: json where
  "check_reply = json_object
     [(''answers'', json_object
        [(PROMISE_ID, json_object [(''type'', String ''noul''), (''noul'', Number (Float 0))]),
         (GROUNDED_ID, json_object [(''type'', String ''noul''), (''noul'', Number (Float 1))])])]"

definition ref_wire_codec :: "json json_codec" where
  "ref_wire_codec =
     \<lparr>to_value = (\<lambda>v. Inr (case v of None \<Rightarrow> Null | Some j \<Rightarrow> j)), to_string = ref_render_json,
      from_slice = (\<lambda>_. Inr check_reply), show_f64 = (\<lambda>_. [])\<rparr>"

interpretation ref_wire: decision_wire ref_agent ref_wire_codec
  by unfold_locales
    (simp_all add: ref_agent_def ref_wire_codec_def ref_serde_def ref_render_json_def)

lemma ref_agent_simps:
  "proto_value ref_agent = Some" "base ref_agent = ref_serde\<lparr>parse_json := \<lambda>_. Inr ref_schema\<rparr>"
  "write_llm_output ref_agent out = json_object
     [(TOOL_CALL_FIELD, out_tool_call out), (REPLY_FIELD, out_reply out)]"
  "read_llm_output_text ref_agent said = (if said = ''both'' then Some both_output else None)"
  "read_llm_output_prefix ref_agent = (\<lambda>_. None)" "read_instant ref_agent = (\<lambda>_. Some 0)"
  "question_in ref_agent st = str_or_empty (at_key st ''question'')"
  by (simp_all add: ref_agent_def)

section \<open>The services\<close>

definition said_by_the_model :: "string \<Rightarrow> complete_response" where
  "said_by_the_model said =
     \<lparr>content = said, cresp_model_used = ''m'', cresp_tokens_in = 1, cresp_tokens_out = 1,
      cresp_used_backup = False, cresp_finish_reason = Stop\<rparr>"

definition decided :: "typed_answer list \<Rightarrow> decide_response" where
  "decided given = \<lparr>dr_model_used = ''d'', dr_answers = given, dr_tokens_in = 1, dr_tokens_out = 1\<rparr>"

definition ref_services :: "string \<Rightarrow> typed_answer list \<Rightarrow> (unit, json) services" where
  "ref_services said given =
     \<lparr>client = (\<lambda>_. State_Monad.return (Inr (said_by_the_model said))),
      decider = (\<lambda>_. State_Monad.return (Inr (decided given))),
      tool_svc = (\<lambda>_ _ _. State_Monad.return (Inl ''unreachable'')),
      utc_now = State_Monad.return 0,
      sleep = (\<lambda>_. State_Monad.return ())\<rparr>"

lemma ref_services_simps [simp]:
  "client (ref_services said given) request = State_Monad.return (Inr (said_by_the_model said))"
  "decider (ref_services said given) asks = State_Monad.return (Inr (decided given))"
  "tool_svc (ref_services said given) nm input key = State_Monad.return (Inl ''unreachable'')"
  "utc_now (ref_services said given) = State_Monad.return 0"
  by (simp_all add: ref_services_def)

definition sound_answers :: "typed_answer list" where
  "sound_answers = [\<lparr>answer_id = PROMISE_ID, given_answer = NoulAnswer 0\<rparr>,
     \<lparr>answer_id = GROUNDED_ID, given_answer = NoulAnswer 1\<rparr>]"

lemma sound_answers_sound: "sound (faults_of (decided sound_answers))"
  by (simp add: sound_def faults_of_def find_noul_def decided_def sound_answers_def PROMISE_ID_def
      GROUNDED_ID_def PROMISE_ENOUGH_TO_REFUSE_def GROUNDED_ENOUGH_TO_SEND_def)

lemma ref_complete:
  "complete_with_retries (ref_services said given) ref_agent request =
     State_Monad.return (Inr (response_to_output ref_agent (said_by_the_model said)))"
  by (subst complete_with_retries_def, subst complete_attempts.simps) simp

section \<open>A plain answer\<close>

definition plain_config :: llm_node_config where
  "plain_config = \<lparr>system_prompt = None, tool_calling = False, available = []\<rparr>"

lemma ref_material_empty: "material_of ref_agent empty_object = \<lparr>carried = [], fetched = []\<rparr>"
  by (simp add: material_of_def all_under_def)

lemma ref_fit_state: "0 < n \<Longrightarrow> fit_state ref_agent read said share n = Some (checked_state read share said)"
  by (cases n)
    (simp_all add: ref_agent_simps ref_serde_def ref_render_json_def checked_state_def
      json_object_def STATE_BYTES_BEYOND_WHICH_THE_DECIDER_REFUSES_def)

lemma ref_check_request: "\<exists>request. reply_check_request ref_agent m said = Some request"
  by (simp add: reply_check_request_def request_about_def noul_question_def instructed_def ref_agent_simps
      state_the_decider_takes_def Let_def TRIES_TO_FIT_THE_MATERIAL_def ref_fit_state)

lemma find_map_nothing: "find_map (\<lambda>_. None) xs = None"
  by (simp add: find_map_None)

lemma ref_plain_output:
  assumes "said \<noteq> ''both''" and "said \<noteq> []"
  shows "reply_to_check (response_to_output ref_agent (said_by_the_model said)) = Some said"
proof -
  have "response_to_output ref_agent (said_by_the_model said) = set_field ''usage'' (usage_json (json_of_i32 1) (json_of_i32 1)) (plain_reply said)"
    using assms by (simp add: response_to_output_def said_by_the_model_def parse_llm_output_def first_envelope_def
      ref_agent_simps plain_reply_def blank_output_def is_blank_def find_map_nothing)
  with assms show ?thesis by (simp add: reply_to_check_other_field state_keys)
qed

lemma ref_checked:
  assumes "reply_to_check out = Some said"
  shows "checked_against (ref_services spoken sound_answers) ref_agent request m out =
    State_Monad.return (merge_usage (faults_spent (faults_of (decided sound_answers))) out)"
proof -
  obtain asks where "reply_check_request ref_agent m said = Some asks" using ref_check_request by blast
  with assms show ?thesis
    by (simp add: checked_against_def faults_in_def decided_once_more_on_error_def Let_def sound_answers_sound)
qed

lemma plain_turn:
  "\<exists>out. run_state (llm_execute (ref_services ''hello'' sound_answers) ref_agent (\<lambda>_. Inr plain_config)
       Null empty_object ''k'') () = (Inr out, ()) \<and> reply_to_check out = Some ''hello''"
  by (simp add: llm_execute_def parse_config_def turn_def try_fast_path_def plain_config_def Let_def
      attempted_def ref_complete ref_checked [OF ref_plain_output] ref_plain_output)


section \<open>An answer from what an earlier turn found\<close>

definition carried_record :: tool_record where
  "carried_record = \<lparr>rec_name = ''wiki'', rec_args = Null, rec_result = Null, fetched_at = ''now''\<rparr>"

lemma reply_beside_a_dropped_call_is_unchecked_witness:
  "\<exists>out. run_state (answer_from_material (ref_services ''both'' []) ref_agent plain_config empty_object
      \<lparr>carried = [carried_record], fetched = []\<rparr> Null) () = (Inr out, ()) \<and>
    reply_to_check out = Some ''done''"
proof (rule reply_beside_a_dropped_call_is_unchecked)
  let ?m = "\<lparr>carried = [carried_record], fetched = []\<rparr> :: material"
  show "run_state (utc_now (ref_services ''both'' [])) () = (0, ())" by simp
  show "carried (only_carried_and_fresh ref_agent 0 ?m) \<noteq> []"
    by (simp add: only_carried_and_fresh_def fetched_recently_def ref_agent_simps
        CARRIED_MATERIAL_GOES_STALE_AFTER_def)
  show "run_state (client (ref_services ''both'' []) (complete_request_for ref_agent plain_config empty_object
      FromMaterial (only_carried_and_fresh ref_agent 0 ?m))) () = (Inr (said_by_the_model ''both''), ())"
    by simp
  have out: "response_to_output ref_agent (said_by_the_model ''both'') =
      set_field ''usage'' (usage_json (json_of_i32 1) (json_of_i32 1))
        (json_object [(TOOL_CALL_FIELD, Bool True), (REPLY_FIELD, String ''done'')])"
    by (simp add: response_to_output_def said_by_the_model_def parse_llm_output_def ref_agent_simps both_output_def
        is_blank_def)
  show "get (response_to_output ref_agent (said_by_the_model ''both'')) TOOL_CALL_FIELD = Some (Bool True)"
    by (simp add: out get_set_field state_keys json_object_def fmlookup_of_list)
  show "get (response_to_output ref_agent (said_by_the_model ''both'')) REPLY_FIELD = Some (String ''done'')"
    by (simp add: out get_set_field state_keys json_object_def fmlookup_of_list)
qed simp_all

section \<open>The calls of a turn\<close>

theorem turn_is_bounded_witness:
  "\<exists>out calls. run_state (llm_execute (traced (ref_services ''hello'' sound_answers)) ref_agent
      (\<lambda>_. Inr plain_config) Null empty_object ''k'') ((), []) = (Inr out, (), calls) \<and>
    sum_list (map model_calls calls) \<le> 12"
proof -
  obtain out where "run_state (llm_execute (ref_services ''hello'' sound_answers) ref_agent
      (\<lambda>_. Inr plain_config) Null empty_object ''k'') () = (Inr out, ())" using plain_turn by blast
  from turn_is_bounded [OF this] show ?thesis by blast
qed

lemma run_traced [simp]:
  "run_state (client (traced (ref_services said given)) request) (w, calls) =
     (Inr (said_by_the_model said), (), calls @ [ModelCalled request])"
  "run_state (decider (traced (ref_services said given)) asks) (w, calls) =
     (Inr (decided given), (), calls @ [DeciderCalled asks])"
  "run_state (tool_svc (traced (ref_services said given)) nm input key) (w, calls) =
     (Inl ''unreachable'', (), calls @ [ToolCalled nm input key])"
  "run_state (utc_now (traced (ref_services said given))) (w, calls) = (0, (), calls)"
  by (simp_all add: traced_def logged_def unlogged_def)

lemma run_traced_complete [simp]:
  "run_state (complete_with_retries (traced (ref_services said given)) ref_agent request) (w, calls) =
     (Inr (response_to_output ref_agent (said_by_the_model said)), (), calls @ [ModelCalled request])"
  by (subst complete_with_retries_def, subst complete_attempts.simps) simp

definition tool_entry :: "string \<Rightarrow> catalog_entry" where
  "tool_entry nm = \<lparr>entry_name = nm, entry_title = [], entry_description = [], input_schema_json = []\<rparr>"

definition tool_config :: "string \<Rightarrow> llm_node_config" where
  "tool_config nm = \<lparr>system_prompt = None, tool_calling = True, available = [tool_entry nm]\<rparr>"

definition chooses_wiki :: "typed_answer list" where
  "chooses_wiki = [\<lparr>answer_id = TOOL_QUESTION_ID, given_answer = ChoiceAnswer ''wiki'' fmempty 1\<rparr>]"

definition asking_state :: json where
  "asking_state = json_object [(''question'', String ''hi'')]"

lemma ref_only_required:
  "only_required_string (base ref_agent) schema =
     Some (''name'', json_object
       [(''type'', String ''string''), (''enum'', Array [String ''it'']), (ACCEPTS_FREE_TEXT, Bool True)])"
  by (simp add: only_required_string_def ref_agent_simps ref_serde_def ref_schema_def json_object_def)

lemma ref_decidable_field:
  "decidable_field ref_agent schema = Some (''name'', ''name'', Closed [(''it'', None)])"
  by (simp add: decidable_field_def ref_only_required closed_list_def json_object_def ACCEPTS_FREE_TEXT_def
      unless_empty_def List.map_filter_def)

lemma wiki_path:
  "path_of_the_answers ref_agent (tool_config ''wiki'') ''hi'' (decided chooses_wiki) =
     FastToolCall \<lparr>call_name = ''wiki'', call_args = json_object [(''name'', String ''hi'')]\<rparr>
       (decide_usage_value (decided chooses_wiki))"
  by (simp add: path_of_the_answers_def Let_def confident_tool_choice_def find_choice_def decided_def
      chooses_wiki_def TOOL_QUESTION_ID_def NO_TOOL_OPTION_def PRIOR_OPTION_def tool_config_def tool_entry_def
      TOOL_CHOICE_CONFIDENT_ENOUGH_TO_ACT_ON_def fast_dispatchable_tool_call_def
      call_with_the_picked_value_def picked_value_def decidable_argument_def ref_decidable_field
      VALUE_QUESTION_PREFIX_def call_with_the_question_verbatim_def safe_to_send_verbatim_def trim_def
      is_whitespace_def is_continuation_def MAX_CHARS_SENT_TO_A_TOOL_VERBATIM_def
      single_required_free_text_field_def ref_only_required accepts_free_text_def flagged_def
      json_object_def ACCEPTS_FREE_TEXT_def)

lemma ref_both_output: "reply_to_check (response_to_output ref_agent (said_by_the_model ''both'')) = None"
proof -
  have "reply_to_check (json_object [(TOOL_CALL_FIELD, Bool True), (REPLY_FIELD, String ''done'')]) = None"
    by (simp add: reply_to_check_def state_keys json_object_def)
  then show ?thesis
    by (simp add: response_to_output_def said_by_the_model_def parse_llm_output_def ref_agent_simps both_output_def
        is_blank_def reply_to_check_other_field state_keys)
qed

lemma ref_scope_request: "\<exists>request. scope_request ref_agent msg tools prior = Some request"
  by (simp add: scope_request_def request_about_def tool_question_def instructed_def ref_agent_simps)

lemma asking_state_simps:
  "material_of ref_agent asking_state = \<lparr>carried = [], fetched = []\<rparr>" "question_in ref_agent asking_state = ''hi''"
  by (simp_all add: material_of_def all_under_def asking_state_def json_object_def state_keys ref_agent_simps
      at_key_def)

lemma wiki_turn:
  "\<exists>r request asks. run_state (llm_execute (traced (ref_services ''both'' chooses_wiki)) ref_agent
       (\<lambda>_. Inr (tool_config ''wiki'')) Null asking_state ''k'') ((), []) =
     (r, (), [DeciderCalled asks, ToolCalled ''wiki'' ''{}'' (''k'' @ DECIDE_TOOL_SUFFIX), ModelCalled request])"
proof -
  obtain asks where asks: "scope_request ref_agent ''hi'' (available (tool_config ''wiki'')) None = Some asks"
    using ref_scope_request by blast
  have "tool_calling (tool_config ''wiki'')" by (simp add: tool_config_def)
  then show ?thesis
    by (simp add: llm_execute_def parse_config_def turn_def try_fast_path_def Let_def asking_state_simps
        rendered_carried_def decide_fast_path_def asks wiki_path run_fast_tool_call_def attempted_def
        answered_with_the_lookup_def dispatch_tool_fast_def checked_against_def faults_in_def ref_both_output)
      (simp add: ref_agent_simps ref_serde_def ref_render_json_def json_object_def)
qed

theorem only_catalogued_tools_are_called_witness:
  "\<exists>parsed. parse_config (\<lambda>_. Inr (tool_config ''wiki'')) Null = Inr parsed \<and>
     ''wiki'' \<in> entry_name ` set (available parsed) \<and> ''k:decide-tool'' = ''k'' @ DECIDE_TOOL_SUFFIX"
proof -
  obtain r request asks where "run_state (llm_execute (traced (ref_services ''both'' chooses_wiki)) ref_agent
       (\<lambda>_. Inr (tool_config ''wiki'')) Null asking_state ''k'') ((), []) =
     (r, (), [DeciderCalled asks, ToolCalled ''wiki'' ''{}'' (''k'' @ DECIDE_TOOL_SUFFIX), ModelCalled request])"
    using wiki_turn by blast
  from only_catalogued_tools_are_called [OF this, of "''wiki''" "''{}''" "''k'' @ DECIDE_TOOL_SUFFIX"]
  show ?thesis by (simp add: DECIDE_TOOL_SUFFIX_def)
qed

section \<open>The check and the router\<close>

theorem check_requests_fit_the_router_witness:
  "\<exists>request d. reply_check_request ref_agent \<lparr>carried = [], fetched = []\<rparr> ''hello'' = Some request \<and>
    validated_decision ref_wire_codec request = Inr d \<and> questions d = [promise_question, grounded_question]"
proof -
  obtain request where
    request: "reply_check_request ref_agent \<lparr>carried = [], fetched = []\<rparr> ''hello'' = Some request"
    using ref_check_request by blast
  from check_requests_fit_the_router [OF ref_wire.decision_wire_axioms this] request show ?thesis by blast
qed

lemma check_reply_read:
  "\<exists>v. read_verdict ref_wire_codec check_reply [promise_question, grounded_question] was_sent = Inr v \<and>
     answers v = sound_answers"
proof -
  define qs where "qs = [promise_question, grounded_question]"
  have keys: "List.find (\<lambda>i. \<not> list_ex (\<lambda>q. question_id q = i) qs) (map fst (entries m)) = None"
    if "fset (fmdom m) = {PROMISE_ID, GROUNDED_ID}" for m
    using that by (auto simp: find_None_iff entries_def qs_def promise_question_def grounded_question_def)
  show ?thesis
    unfolding qs_def [symmetric]
    by (simp add: read_verdict_def check_reply_def at_key_def json_object_def keys)
      (simp add: qs_def promise_question_def grounded_question_def PROMISE_ID_def GROUNDED_ID_def read_answer_def
        read_given_def Let_def at_key_def json_object_def str_or_empty_def probability_def read_number_def
        sound_answers_def)
qed

lemma sound_verdict_has_both_readings_witness:
  "\<exists>response attempts request.
     reply_check_request ref_agent \<lparr>carried = [], fetched = []\<rparr> ''hello'' = Some request \<and>
     decide ref_wire_codec (Some (system_one_decide ref_wire_codec answering sample_adapter 0, ''jev'')) 5
         request None =
       (Inr response, attempts) \<and>
     (\<exists>g. find_noul (dr_answers response) GROUNDED_ID = Some g \<and> 1 / 2 \<le> g)"
proof -
  obtain request where
    request: "reply_check_request ref_agent \<lparr>carried = [], fetched = []\<rparr> ''hello'' = Some request"
    using ref_check_request by blast
  obtain st where ok: "validated_decision ref_wire_codec request = Inr (check_decision st)"
    using check_request_accepted [OF ref_wire.decision_wire_axioms request] by blast
  have ask: "ask ref_wire_codec answering sample_adapter 0 ''jev'' d = Inr check_reply" for d
    by (simp add: ask_def answering_def is_success_def read_provider_response_def ref_wire_codec_def)
  obtain v where v: "read_verdict ref_wire_codec check_reply [promise_question, grounded_question]
      (audit_body ''jev'' (check_decision st\<lparr>caller_stops_waiting_at := None\<rparr>)) = Inr v"
    and given: "answers v = sound_answers"
    using check_reply_read by blast
  obtain attempts where d: "decide ref_wire_codec (Some (system_one_decide ref_wire_codec answering sample_adapter 0, ''jev'')) 5
      request None = (Inr (decide_response_from v), attempts)"
    using v by (simp add: decide_def configured_def ok system_one_decide_def Let_def ask check_decision_def)
  have "sound (faults_of (decide_response_from v))"
    using sound_answers_sound by (simp add: sound_def faults_of_def decided_def decide_response_from_def given)
  from sound_verdict_has_both_readings [OF request d this] request d show ?thesis by blast
qed

section \<open>A name that is too long\<close>

definition long_name :: string where "long_name = replicate 55 CHR ''a''"

lemma long_name_asked:
  "asked_about ref_agent candidates (tool_entry nm) = Some (nm, ''name'', [(''it'', None)])"
  by (simp add: asked_about_def ref_decidable_field Let_def tool_entry_def MAX_SPAN_OPTIONS_def)

lemma long_tool_name_blocks_the_turn_witness:
  "\<exists>request e. scope_request ref_agent ''hi'' (available (tool_config long_name)) None = Some request \<and>
     decide ref_wire_codec (Some (\<lambda>_ _. Inl \<lparr>not_sent = Null, decide_error = Final []\<rparr>, ''jev'')) 5 request None = (Inl e, [])"
proof -
  obtain request where
    request: "scope_request ref_agent ''hi'' (available (tool_config long_name)) None = Some request"
    using ref_scope_request by blast
  have name: "entry_name (tool_entry long_name) = long_name" by (simp add: tool_entry_def)
  have asked: "asked_about ref_agent (spans ref_agent ''hi'') (tool_entry long_name) =
      Some (entry_name (tool_entry long_name), ''name'', [(''it'', None)])"
    by (simp only: long_name_asked name)
  obtain qs where "question_set_for ref_agent (entry_name (tool_entry long_name)) ''name'' [(''it'', None)] = Some qs"
    by (simp add: question_set_for_def Let_def offered_option_def OPTION_NAME_LIMIT_def List.map_filter_def
        instructed_def noul_question_def ref_agent_simps)
  moreover have "(entry_name (tool_entry long_name), ''name'', [(''it'', None)]) \<in>
      set (take MAX_ARGUMENTS_ASKED_ABOUT_AT_ONCE
        (List.map_filter (asked_about ref_agent (spans ref_agent ''hi'')) (available (tool_config long_name))))"
    by (simp add: tool_config_def List.map_filter_def long_name_asked name MAX_ARGUMENTS_ASKED_ABOUT_AT_ONCE_def)
  moreover have "54 < length (entry_name (tool_entry long_name))" unfolding name by (simp add: long_name_def)
  ultimately show ?thesis
    using long_tool_name_blocks_the_turn [OF request asked, where jc = ref_wire_codec] request by blast
qed

end
