(* ===== verification/Chat_Intent.thy ===== *)
theory Chat_Intent
  imports Agent_Text Llm_Executor
begin

text \<open>
  The texts and limits of \<^verbatim>\<open>services/chat/src/intent.rs\<close>: the questions a routing decision asks, the prompts
  that split a message and that rewrite one, and the thresholds, as exact fractions.
\<close>

section \<open>Texts\<close>

definition CLARIFICATION_TEXT :: string where
  "CLARIFICATION_TEXT = ''I didn't catch a request in that '' @ EM_DASH @
       '' what would you like me to find out?''"

definition ENGINE_BUSY_TEXT :: string where
  "ENGINE_BUSY_TEXT = ''Still working on the previous question '' @ EM_DASH @
       '' send that again in a moment.''"

definition NEW_TOPIC_OPTION :: string where
  "NEW_TOPIC_OPTION = ''new''"

definition TOPIC_OPTION_PREFIX :: string where
  "TOPIC_OPTION_PREFIX = ''topic_''"

definition ROUTE_ID :: string where
  "ROUTE_ID = ''route''"

definition ACTIONABLE_ID :: string where
  "ACTIONABLE_ID = ''actionable''"

definition SEPARATE_THEMES_ID :: string where
  "SEPARATE_THEMES_ID = ''separate_themes''"

definition COVERS_EVERYTHING_ID :: string where
  "COVERS_EVERYTHING_ID = ''covers_everything''"

definition STANDS_ALONE_PER_QUESTION_PREFIX :: string where
  "STANDS_ALONE_PER_QUESTION_PREFIX = ''stands_alone_''"

definition STANDS_ALONE_MESSAGE_ID :: string where
  "STANDS_ALONE_MESSAGE_ID = ''stands_alone''"

definition ROUTE_INSTRUCTIONS :: string where
  "ROUTE_INSTRUCTIONS = ''Which of these should the new message go to: one of the named existing '' @
       ''topics it continues, or a new topic?''"

definition ACTIONABLE_INSTRUCTIONS :: string where
  "ACTIONABLE_INSTRUCTIONS = ''Does the new message, on its own, carry a request the assistant should act '' @
       ''on?''"

definition ACTIONABLE_WHEN_TRUE :: string where
  "ACTIONABLE_WHEN_TRUE = ''it states or clearly implies something to find out, do, or answer''"

definition ACTIONABLE_WHEN_FALSE :: string where
  "ACTIONABLE_WHEN_FALSE = ''it is a bare fragment, acknowledgment, or nudge '' @ EM_DASH @
       '' e.g. \"and?\", \"i'm still waiting\", \"more details please\", \"that's not what '' @
       ''I asked\" '' @ EM_DASH @ '' with no request of its own''"

definition SEPARATE_THEMES_INSTRUCTIONS :: string where
  "SEPARATE_THEMES_INSTRUCTIONS = ''Does the new message raise more than one independent theme, each deserving '' @
       ''its own topic?''"

definition SEPARATE_THEMES_WHEN_TRUE :: string where
  "SEPARATE_THEMES_WHEN_TRUE = ''the message names two or more unrelated subjects, each a separate task on '' @
       ''its own''"

definition SEPARATE_THEMES_WHEN_FALSE :: string where
  "SEPARATE_THEMES_WHEN_FALSE = ''the message is about one subject, however long''"

definition COVERS_EVERYTHING_INSTRUCTIONS :: string where
  "COVERS_EVERYTHING_INSTRUCTIONS = ''Between them, do the questions in `questions` ask for everything `message` '' @
       ''asks for?''"

definition COVERS_EVERYTHING_WHEN_TRUE :: string where
  "COVERS_EVERYTHING_WHEN_TRUE = ''every distinct thing the message asks about is asked for by one of the '' @
       ''questions''"

definition COVERS_EVERYTHING_WHEN_FALSE :: string where
  "COVERS_EVERYTHING_WHEN_FALSE = ''the message asks about something none of the questions asks for, so '' @
       ''answering all of them would leave part of the message unanswered''"

definition STANDS_ALONE_INSTRUCTIONS :: string where
  "STANDS_ALONE_INSTRUCTIONS = ''Could this question be answered by someone shown only it, who had never '' @
       ''seen the message it came from?''"

definition STANDS_ALONE_MESSAGE_INSTRUCTIONS :: string where
  "STANDS_ALONE_MESSAGE_INSTRUCTIONS = ''Could the new message be answered by someone shown only it, who had never '' @
       ''seen the conversation it came from?''"

definition STANDS_ALONE_WHEN_TRUE :: string where
  "STANDS_ALONE_WHEN_TRUE = ''it names in full what it is about, and needs nothing else to be understood''"

definition STANDS_ALONE_WHEN_FALSE :: string where
  "STANDS_ALONE_WHEN_FALSE = ''it leans on something outside itself '' @ EM_DASH @
       '' \"there\", \"it\", \"that one\", \"the same\" '' @ EM_DASH @
       '' so alone nobody could tell what it asks about''"

definition RESOLVE_SYSTEM_PROMPT :: string where
  "RESOLVE_SYSTEM_PROMPT = text_lines
     [''The new message below leans on something said earlier '' @ EM_DASH @
       '' \"there\", \"it\", \"that one\", \"the same\". Rewrite it so it stands on its own.'',
      [],
      ''Rules:'',
      ''- Keep it the user's own request, first person, near-verbatim. Change only '' @
       ''what the reference needs.'',
      ''- Replace the reference with what the earlier turns say it is, taking those '' @
       ''words from them and no further. \"what is the capital of Japan?\" then '' @
       ''\"weather there?\" gives \"what is the weather in the capital of Japan?\" '' @
       EM_DASH @
       '' never \"in Tokyo\", which nobody said. Working out what they meant is not '' @
       ''your job, and working it out wrongly would be invisible from here.'',
      ''- A bare question word '' @ EM_DASH @ '' \"where?\", \"when?\", \"which one?\" '' @
       EM_DASH @
       '' asks about the earlier lookup itself, not about its subject. Rewrite it to '' @
       ''ask that of the earlier question: after \"what is the weather in Tokyo?\" '' @
       ''answered \"22.49\", \"where?\" becomes \"which place was that weather reading '' @
       ''taken for?\". Never \"where is Tokyo?\", which asks about the subject, and '' @
       ''never \"where is 22.49?\", which asks about the figure.'',
      ''- If the earlier turns do not say what the reference points at, return the '' @
       ''message unchanged.'',
      ''- Answer with the rewritten message and nothing else. No quotes, no '' @
       ''explanation.'',
      []]"

definition EXAMPLE_QUESTION_1 :: string where
  "EXAMPLE_QUESTION_1 = ''What is Claude Code?''"

definition EXAMPLE_QUESTION_2 :: string where
  "EXAMPLE_QUESTION_2 = ''Which Academy courses exist?''"

definition SPLIT_PROMPT_RULES :: string where
  "SPLIT_PROMPT_RULES = text_lines
     [''A message can name several separate, independent themes at once. Your job '' @
       ''is to split it into one new topic per theme.'',
      [],
      ''Rules:'',
      ''- Open one new topic per genuinely separate theme. Do not split a single '' @
       ''theme into multiple topics just because it has several parts.'',
      ''- For every topic, `question` must be the user's OWN request for that '' @
       ''theme, first person, near-verbatim '' @ EM_DASH @
       '' copy their wording for that part of the message.'',
      ''- A topic is answered on its own, with nothing but its `question`, so a '' @
       ''theme that says \"there\", \"it\" or \"that one\" must say instead what the rest '' @
       ''of the message says it is. Take those words from the message and no further '' @
       EM_DASH @
       '' never \"in Bishkek\", which the message does not say. Answering the other '' @
       ''theme is not your job and guessing its answer wrongly would be invisible '' @
       ''from here.'',
      ''- Resolving a reference this way never consumes the theme it points at. '' @
       ''That theme was asked for too and still gets its own topic. \"the capital of '' @
       ''Kyrgyzstan, and the weather there\" is two topics '' @ EM_DASH @
       '' \"what is the capital of Kyrgyzstan?\" and \"what is the weather in the '' @
       ''capital of Kyrgyzstan?\" '' @ EM_DASH @ '' never the second one alone.'',
      ''- Never write a paraphrased instruction about \"the user\" (e.g. never \"the '' @
       ''user asked about X, please answer it\") '' @ EM_DASH @
       '' `question` is what the user themselves would have typed, not a description '' @
       ''of their request.'',
      []]"

definition SPLIT_RETRY_NOTE :: string where
  "SPLIT_RETRY_NOTE = text_lines
     [[],
      ''Your previous split was refused: between them, the questions did not ask '' @
       ''for everything this message asks for. Something in it was left with no '' @
       ''topic of its own. Split it again, covering all of it.'',
      []]"

section \<open>Numbers\<close>

definition MAX_TITLE_CHARS :: nat where "MAX_TITLE_CHARS = 60"
definition CLARIFY_WHEN_ACTIONABLE_BELOW :: rat where "CLARIFY_WHEN_ACTIONABLE_BELOW = 35 / 100"
definition CONTINUE_FOCUS_WHEN_ROUTE_CONFIDENCE_BELOW :: rat where
  "CONTINUE_FOCUS_WHEN_ROUTE_CONFIDENCE_BELOW = 1 / 2"
definition SPLIT_WHEN_SEPARATE_THEMES_ABOVE :: rat where "SPLIT_WHEN_SEPARATE_THEMES_ABOVE = 3 / 4"
definition KEEP_SPLIT_WHEN_COVERS_EVERYTHING_ABOVE :: rat where
  "KEEP_SPLIT_WHEN_COVERS_EVERYTHING_ABOVE = 1 / 2"
definition REWRITE_WHEN_STANDS_ALONE_BELOW :: rat where "REWRITE_WHEN_STANDS_ALONE_BELOW = 1 / 2"
definition EARLIER_TURNS_A_REWRITE_MAY_DRAW_ON :: nat where "EARLIER_TURNS_A_REWRITE_MAY_DRAW_ON = 4"

text \<open>
  \<^verbatim>\<open>services/chat/src/intent.rs\<close> and \<^verbatim>\<open>topic_status.rs\<close>: which topics a message goes to. One typed decision
  says whether it continues a topic, opens one, or says too little to act on; a message of several themes
  is split by the model and the split is judged by a second decision. The two services of llm-router are
  computations of the state monad over an arbitrary world, as in the agent's executor.
\<close>

section \<open>topic\_status.rs\<close>

datatype topic_status = Queued | TopicRunning | TopicCompleted | TopicFailed | TopicCancelled

text \<open>The name of the enum's value in the contract, without its prefix, in lower case.\<close>

fun status_word :: "topic_status \<Rightarrow> string" where
  "status_word Queued = ''queued''"
| "status_word TopicRunning = ''running''"
| "status_word TopicCompleted = ''completed''"
| "status_word TopicFailed = ''failed''"
| "status_word TopicCancelled = ''cancelled''"

section \<open>The data of a routing decision\<close>

record topic_summary =
  ts_id :: int
  ts_title :: string
  ts_status :: topic_status
  ts_result_summary :: "string option"
  ts_last_active_at :: instant

datatype turn_action = Continue int string | NewTopic string string

datatype split_verdict = Keeps "turn_action list" | MissingATheme | SplitUnavailable

datatype routing = Clarify | Act "turn_action list"

datatype raw_action = RawContinue int | RawNew "string option" "string option"

datatype route_outcome = OutcomeContinue int | Fallback | ConfidentNew

datatype route_choice = ChoiceTopic int | ChoiceNew

text \<open>
  The derived codec of \<^verbatim>\<open>RawAction\<close> and the JSON text of a plan, besides what the agent's codec has.
\<close>

record 'v chat_codec =
  agent :: "'v agent_codec"
  read_raw_action :: "json \<Rightarrow> raw_action option"
  show_plan :: "raw_action list \<Rightarrow> string"

section \<open>Helpers\<close>

definition truncate_chars :: "string \<Rightarrow> nat \<Rightarrow> string" where
  "truncate_chars s n = concat (take n (utf8_chars (trim s)))"

definition noul_above :: "typed_answer list \<Rightarrow> string \<Rightarrow> rat \<Rightarrow> bool" where
  "noul_above given i threshold = (case find_noul given i of None \<Rightarrow> False | Some x \<Rightarrow> threshold < x)"

definition noul_below :: "typed_answer list \<Rightarrow> string \<Rightarrow> rat \<Rightarrow> bool" where
  "noul_below given i threshold = (case find_noul given i of None \<Rightarrow> False | Some x \<Rightarrow> x < threshold)"

definition leans_on_the_conversation :: "typed_answer list \<Rightarrow> bool" where
  "leans_on_the_conversation given =
     noul_below given STANDS_ALONE_MESSAGE_ID REWRITE_WHEN_STANDS_ALONE_BELOW"

definition stands_alone_or_no_verdict_arrived :: "typed_answer list \<Rightarrow> string \<Rightarrow> bool" where
  "stands_alone_or_no_verdict_arrived given i =
     (case find_noul given i of None \<Rightarrow> True | Some x \<Rightarrow> REWRITE_WHEN_STANDS_ALONE_BELOW < x)"

text \<open>\<^verbatim>\<open>max_by_key\<close> answers the last of several maxima.\<close>

definition most_recently_active :: "topic_summary list \<Rightarrow> int option" where
  "most_recently_active topics =
     map_option ts_id
       (fold (\<lambda>t best. case best of
          None \<Rightarrow> Some t
        | Some b \<Rightarrow> if ts_last_active_at b \<le> ts_last_active_at t then Some t else best) topics None)"

definition knows_topic :: "topic_summary list \<Rightarrow> int \<Rightarrow> bool" where
  "knows_topic topics i = list_ex (\<lambda>t. ts_id t = i) topics"

definition continue_focus_or_open_one_topic ::
  "topic_summary list \<Rightarrow> int option \<Rightarrow> string \<Rightarrow> turn_action list" where
  "continue_focus_or_open_one_topic topics focus msg =
     (case focus of
        Some i \<Rightarrow>
          if knows_topic topics i then [Continue i msg] else [NewTopic (truncate_chars msg MAX_TITLE_CHARS) msg]
      | None \<Rightarrow> [NewTopic (truncate_chars msg MAX_TITLE_CHARS) msg])"

section \<open>The request\<close>

definition chat_noul_question ::
  "'v agent_codec \<Rightarrow> string \<Rightarrow> json \<Rightarrow> string \<Rightarrow> string \<Rightarrow> 'v proto_question option" where
  "chat_noul_question c i instr when_true when_false =
     instructed c i instr (ProtoNoul (Some when_true) (Some when_false))"

definition most_recent_topics_leaving_room_for_new ::
  "topic_summary list \<Rightarrow> nat option \<Rightarrow> topic_summary list" where
  "most_recent_topics_leaving_room_for_new topics options_cap =
     (case options_cap of
        None \<Rightarrow> topics
      | Some cap \<Rightarrow>
          let keep = min (cap - 1) (length topics) in drop (length topics - keep) topics)"

definition topic_option_name :: "int \<Rightarrow> string" where
  "topic_option_name i = TOPIC_OPTION_PREFIX @ show_int i"

definition route_question ::
  "'v agent_codec \<Rightarrow> topic_summary list \<Rightarrow> nat option \<Rightarrow> 'v proto_question option" where
  "route_question c topics options_cap =
     instructed c ROUTE_ID (String ROUTE_INSTRUCTIONS)
       (ProtoChoice
         (map (\<lambda>t. \<lparr>option_name = topic_option_name (ts_id t), option_description = Some (ts_title t)\<rparr>)
            (most_recent_topics_leaving_room_for_new topics options_cap) @
          [\<lparr>option_name = NEW_TOPIC_OPTION, option_description = None\<rparr>]))"

definition chat_decision_state :: "topic_summary list \<Rightarrow> int option \<Rightarrow> string \<Rightarrow> json" where
  "chat_decision_state topics focus msg =
     (let ordered = filter (\<lambda>t. Some (ts_id t) = focus) topics @ filter (\<lambda>t. Some (ts_id t) \<noteq> focus) topics in
      Array
        [json_object [(''topics'', Array (map (\<lambda>t. json_object
           [(''id'', json_of_i32 (ts_id t)), (''title'', String (ts_title t)),
            (''status'', String (status_word (ts_status t))),
            (''focused'', Bool (Some (ts_id t) = focus))]) ordered))],
         json_object [(''message'', String msg)]])"

definition build_request ::
  "'v agent_codec \<Rightarrow> topic_summary list \<Rightarrow> int option \<Rightarrow> string \<Rightarrow> nat option \<Rightarrow> 'v decide_request option" where
  "build_request c topics focus msg options_cap =
     Option.bind (if topics = [] then Some [] else map_option (\<lambda>q. [q]) (route_question c topics options_cap))
       (\<lambda>asked_route.
     Option.bind (chat_noul_question c ACTIONABLE_ID (String ACTIONABLE_INSTRUCTIONS)
         ACTIONABLE_WHEN_TRUE ACTIONABLE_WHEN_FALSE) (\<lambda>actionable.
     Option.bind (chat_noul_question c SEPARATE_THEMES_ID (String SEPARATE_THEMES_INSTRUCTIONS)
         SEPARATE_THEMES_WHEN_TRUE SEPARATE_THEMES_WHEN_FALSE) (\<lambda>separate.
     Option.bind (chat_noul_question c STANDS_ALONE_MESSAGE_ID (String STANDS_ALONE_MESSAGE_INSTRUCTIONS)
         STANDS_ALONE_WHEN_TRUE STANDS_ALONE_WHEN_FALSE) (\<lambda>stands_alone.
     request_about c (chat_decision_state topics focus msg)
       (Some (asked_route @ [actionable, separate, stands_alone]))))))"

section \<open>Reading the answers\<close>

definition parse_route_choice :: "string \<Rightarrow> route_choice option" where
  "parse_route_choice chosen =
     (if chosen = NEW_TOPIC_OPTION then Some ChoiceNew
      else if starts_with chosen TOPIC_OPTION_PREFIX
      then map_option ChoiceTopic (parse_i64 (drop (length TOPIC_OPTION_PREFIX) chosen))
      else None)"

definition route_outcome_of :: "typed_answer list \<Rightarrow> topic_summary list \<Rightarrow> route_outcome" where
  "route_outcome_of given topics =
     (case find_choice given ROUTE_ID of
        None \<Rightarrow> Fallback
      | Some (chosen, conf) \<Rightarrow>
          if conf < CONTINUE_FOCUS_WHEN_ROUTE_CONFIDENCE_BELOW then Fallback
          else
            (case parse_route_choice chosen of
               Some (ChoiceTopic i) \<Rightarrow> if knows_topic topics i then OutcomeContinue i else Fallback
             | Some ChoiceNew \<Rightarrow> ConfidentNew
             | None \<Rightarrow> Fallback))"

definition answered_without_talking_about_itself :: "topic_summary \<Rightarrow> bool" where
  "answered_without_talking_about_itself t \<longleftrightarrow>
     ts_status t = TopicCompleted \<and>
     (case ts_result_summary t of None \<Rightarrow> False | Some said \<Rightarrow> \<not> is_about_itself said)"

definition earlier_turn :: "topic_summary \<Rightarrow> string" where
  "earlier_turn t =
     (case ts_result_summary t of
        Some said \<Rightarrow>
          if answered_without_talking_about_itself t
          then ''asked: '' @ ts_title t @ NEWLINE @ ''answered: '' @ said else ''asked: '' @ ts_title t
      | None \<Rightarrow> ''asked: '' @ ts_title t)"

definition recent_turns_newest_last :: "topic_summary list \<Rightarrow> string option" where
  "recent_turns_newest_last topics =
     (let turns = map earlier_turn (take EARLIER_TURNS_A_REWRITE_MAY_DRAW_ON (rev topics)) in
      if turns = [] then None else Some (join NEWLINE (rev turns)))"

text \<open>\<^verbatim>\<open>find\<close> and \<^verbatim>\<open>rfind\<close> of a brace.\<close>

definition outermost_json_object :: "string \<Rightarrow> string option" where
  "outermost_json_object said =
     (let before = takeWhile (\<lambda>ch. ch \<noteq> CHR 0x7B) said;
          beyond = takeWhile (\<lambda>ch. ch \<noteq> CHR 0x7D) (rev said) in
      if CHR 0x7B \<in> set said \<and> CHR 0x7D \<in> set said \<and> length before < length said - 1 - length beyond
      then Some (drop (length before) (take (length said - length beyond) said)) else None)"

definition action_of :: "topic_summary list \<Rightarrow> raw_action \<Rightarrow> turn_action option" where
  "action_of topics raw =
     (case raw of
        RawContinue i \<Rightarrow> if knows_topic topics i then Some (Continue i []) else None
      | RawNew title asks \<Rightarrow>
          (case asks of
             None \<Rightarrow> None
           | Some q \<Rightarrow>
               if trim q = [] then None
               else Some (NewTopic
                 (truncate_chars (case title of Some t \<Rightarrow> if trim t = [] then q else t | None \<Rightarrow> q) MAX_TITLE_CHARS)
                 q)))"

definition parse_actions :: "'v chat_codec \<Rightarrow> string \<Rightarrow> topic_summary list \<Rightarrow> turn_action list option" where
  "parse_actions c said topics =
     Option.bind (outermost_json_object said) (\<lambda>object.
     case parse_json (base (agent c)) object of
       Inl _ \<Rightarrow> None
     | Inr plan \<Rightarrow>
         Option.bind (Option.bind (get plan ''actions'') as_array) (\<lambda>raws.
         unless_empty (List.map_filter (\<lambda>v. Option.bind (read_raw_action c v) (action_of topics)) raws)))"

section \<open>Judging a split\<close>

definition stands_alone_id :: "nat \<Rightarrow> string" where
  "stands_alone_id n = STANDS_ALONE_PER_QUESTION_PREFIX @ show_nat n"

definition split_judgement_questions :: "'v agent_codec \<Rightarrow> nat \<Rightarrow> 'v proto_question list option" where
  "split_judgement_questions c n =
     Option.bind (chat_noul_question c COVERS_EVERYTHING_ID (String COVERS_EVERYTHING_INSTRUCTIONS)
         COVERS_EVERYTHING_WHEN_TRUE COVERS_EVERYTHING_WHEN_FALSE) (\<lambda>covers.
     map_option (\<lambda>rest. covers # rest)
       (traverse (\<lambda>at_index. chat_noul_question c (stands_alone_id at_index)
           (Array [String (''About `questions['' @ show_nat at_index @ '']`, and nothing else:''),
                   String STANDS_ALONE_INSTRUCTIONS])
           STANDS_ALONE_WHEN_TRUE STANDS_ALONE_WHEN_FALSE) [0..<n]))"

definition whole_message_scoped_to_title :: "string \<Rightarrow> string \<Rightarrow> string" where
  "whole_message_scoped_to_title msg title =
     msg @ NEWLINE @ NEWLINE @ ''Answer only this part of it: '' @ title"

fun made_to_stand_alone :: "typed_answer list \<Rightarrow> string \<Rightarrow> nat \<Rightarrow> turn_action list \<Rightarrow> turn_action list" where
  "made_to_stand_alone given msg n [] = []"
| "made_to_stand_alone given msg n (NewTopic title asks # rest) =
     NewTopic title
       (if stands_alone_or_no_verdict_arrived given (stands_alone_id n) then asks
        else whole_message_scoped_to_title msg title) # made_to_stand_alone given msg (Suc n) rest"
| "made_to_stand_alone given msg n (Continue i asks # rest) =
     Continue i asks # made_to_stand_alone given msg n rest"

definition questions_made_to_stand_alone ::
  "turn_action list \<Rightarrow> typed_answer list \<Rightarrow> string \<Rightarrow> turn_action list" where
  "questions_made_to_stand_alone actions given msg = made_to_stand_alone given msg 0 actions"

fun new_question :: "turn_action \<Rightarrow> string option" where
  "new_question (NewTopic _ asks) = Some asks"
| "new_question (Continue _ _) = None"

section \<open>The services\<close>

record ('w, 'v) intent_services =
  intent_llm :: "complete_request \<Rightarrow> ('w, string + complete_response) state"
  intent_decider :: "'v decide_request \<Rightarrow> ('w, string + decide_response) state"

text \<open>\<open>options_cap\<close> is \<^verbatim>\<open>route_options_cap\<close>: the published maximum, if it was read and is positive.\<close>

definition route_options_cap :: "decision_budget option \<Rightarrow> nat option" where
  "route_options_cap known =
     (case known of
        None \<Rightarrow> None
      | Some b \<Rightarrow> if 0 < max_choice_options b then Some (nat (max_choice_options b)) else None)"

definition split_prompt_examples :: "'v chat_codec \<Rightarrow> string" where
  "split_prompt_examples c = text_lines
     [[],
      ''Example:'',
      [],
      ''User (first message of the session): \"'' @ EXAMPLE_QUESTION_1 @ '' And '' @ EXAMPLE_QUESTION_2 @ ''\"'',
      show_plan c [RawNew (Some ''Claude Code'') (Some EXAMPLE_QUESTION_1),
                   RawNew (Some ''Academy courses'') (Some EXAMPLE_QUESTION_2)],
      [],
      ''Answer with strict JSON and nothing else, in exactly this shape:'',
      show_plan c [RawNew (Some ELLIPSIS) (Some ELLIPSIS)],
      ''At least one action. Several actions are allowed.'']"

definition split_system_prompt :: "'v chat_codec \<Rightarrow> string" where
  "split_system_prompt c =
     SPLIT_PROMPT_RULES @ ''- `title` is a short label (at most '' @ show_nat MAX_TITLE_CHARS @
     '' characters) for the topic list.'' @ NEWLINE @ split_prompt_examples c"

definition ask_split ::
  "('w, 'v) intent_services \<Rightarrow> 'v chat_codec \<Rightarrow> topic_summary list \<Rightarrow> string \<Rightarrow> string \<Rightarrow>
     ('w, turn_action list option) state" where
  "ask_split s c topics msg retry_note =
     do {
       answered \<leftarrow> intent_llm s
         \<lparr>cr_tier = Known Low, cr_system_prompt = split_system_prompt c,
          cr_user_prompt = ''New user message:'' @ NEWLINE @ msg @ NEWLINE @ retry_note,
          cr_sampling = Some (default_sampling\<lparr>format := Some (Known JsonObject)\<rparr>)\<rparr>;
       State_Monad.return
         (case answered of Inl _ \<Rightarrow> None | Inr response \<Rightarrow> parse_actions c (content response) topics)
     }"

definition judge_and_repair_split ::
  "('w, 'v) intent_services \<Rightarrow> 'v chat_codec \<Rightarrow> string \<Rightarrow> turn_action list \<Rightarrow> ('w, split_verdict) state" where
  "judge_and_repair_split s c msg actions =
     (let qs = List.map_filter new_question actions in
      if qs = [] then State_Monad.return (Keeps actions)
      else
        (case Option.bind (split_judgement_questions (agent c) (length qs)) (\<lambda>asked.
            request_about (agent c)
              (json_object [(''message'', String msg), (''questions'', Array (map String qs))]) (Some asked)) of
           None \<Rightarrow> State_Monad.return SplitUnavailable
         | Some request \<Rightarrow>
             do {
               decided \<leftarrow> intent_decider s request;
               State_Monad.return
                 (case decided of
                    Inl _ \<Rightarrow> SplitUnavailable
                  | Inr d \<Rightarrow>
                      if \<not> noul_above (dr_answers d) COVERS_EVERYTHING_ID KEEP_SPLIT_WHEN_COVERS_EVERYTHING_ABOVE
                      then MissingATheme
                      else Keeps (questions_made_to_stand_alone actions (dr_answers d) msg))
             }))"

definition split_message ::
  "('w, 'v) intent_services \<Rightarrow> 'v chat_codec \<Rightarrow> topic_summary list \<Rightarrow> string \<Rightarrow>
     ('w, turn_action list option) state" where
  "split_message s c topics msg =
     do {
       first \<leftarrow> ask_split s c topics msg [];
       case first of
         None \<Rightarrow> State_Monad.return None
       | Some actions \<Rightarrow>
           do {
             verdict \<leftarrow> judge_and_repair_split s c msg actions;
             case verdict of
               Keeps kept \<Rightarrow> State_Monad.return (Some kept)
             | SplitUnavailable \<Rightarrow> State_Monad.return None
             | MissingATheme \<Rightarrow>
                 do {
                   again \<leftarrow> ask_split s c topics msg SPLIT_RETRY_NOTE;
                   case again of
                     None \<Rightarrow> State_Monad.return None
                   | Some actions \<Rightarrow>
                       do {
                         verdict \<leftarrow> judge_and_repair_split s c msg actions;
                         State_Monad.return (case verdict of Keeps kept \<Rightarrow> Some kept | _ \<Rightarrow> None)
                       }
                 }
           }
     }"

section \<open>Routing\<close>

definition rewritten_against_the_conversation ::
  "('w, 'v) intent_services \<Rightarrow> topic_summary list \<Rightarrow> string \<Rightarrow> ('w, string) state" where
  "rewritten_against_the_conversation s topics msg =
     (case recent_turns_newest_last topics of
        None \<Rightarrow> State_Monad.return msg
      | Some earlier \<Rightarrow>
          do {
            answered \<leftarrow> intent_llm s
              \<lparr>cr_tier = Known Low, cr_system_prompt = RESOLVE_SYSTEM_PROMPT,
               cr_user_prompt = ''Earlier in this conversation:'' @ NEWLINE @ earlier @ NEWLINE @ NEWLINE @
                 ''New message: '' @ msg @ NEWLINE,
               cr_sampling = None\<rparr>;
            State_Monad.return
              (case answered of
                 Inl _ \<Rightarrow> msg
               | Inr response \<Rightarrow> let resolved = trim (content response) in if resolved = [] then msg else resolved)
          })"

definition question_that_stands_alone ::
  "('w, 'v) intent_services \<Rightarrow> typed_answer list \<Rightarrow> topic_summary list \<Rightarrow> string \<Rightarrow> ('w, string) state" where
  "question_that_stands_alone s given topics msg =
     (if leans_on_the_conversation given then rewritten_against_the_conversation s topics msg
      else State_Monad.return msg)"

definition unplaced ::
  "('w, 'v) intent_services \<Rightarrow> typed_answer list \<Rightarrow> topic_summary list \<Rightarrow> int option \<Rightarrow> string \<Rightarrow>
     ('w, routing) state" where
  "unplaced s given topics focus msg =
     do {
       asks \<leftarrow> question_that_stands_alone s given topics msg;
       let continued = (if leans_on_the_conversation given
                        then (case focus of Some i \<Rightarrow> Some i | None \<Rightarrow> most_recently_active topics)
                        else focus)
       in State_Monad.return (Act (continue_focus_or_open_one_topic topics continued asks))
     }"

definition open_or_clarify ::
  "('w, 'v) intent_services \<Rightarrow> typed_answer list \<Rightarrow> topic_summary list \<Rightarrow> string \<Rightarrow> ('w, routing) state" where
  "open_or_clarify s given topics msg =
     (if noul_below given ACTIONABLE_ID CLARIFY_WHEN_ACTIONABLE_BELOW then State_Monad.return Clarify
      else
        do {
          asks \<leftarrow> question_that_stands_alone s given topics msg;
          State_Monad.return (Act [NewTopic (truncate_chars msg MAX_TITLE_CHARS) asks])
        })"

text \<open>\<^verbatim>\<open>route\<close> from the point where the answers are there.\<close>

definition placed_by_the_answers ::
  "('w, 'v) intent_services \<Rightarrow> 'v chat_codec \<Rightarrow> typed_answer list \<Rightarrow> topic_summary list \<Rightarrow> int option \<Rightarrow>
     string \<Rightarrow> ('w, routing) state" where
  "placed_by_the_answers s c given topics focus msg =
     (case if topics = [] then ConfidentNew else route_outcome_of given topics of
        OutcomeContinue i \<Rightarrow>
          do {
            asks \<leftarrow> question_that_stands_alone s given topics msg;
            State_Monad.return (Act [Continue i asks])
          }
      | Fallback \<Rightarrow> unplaced s given topics focus msg
      | ConfidentNew \<Rightarrow>
          do {
            parts \<leftarrow> (if noul_above given SEPARATE_THEMES_ID SPLIT_WHEN_SEPARATE_THEMES_ABOVE
                      then split_message s c topics msg else State_Monad.return None);
            case parts of
              Some actions \<Rightarrow> State_Monad.return (Act actions)
            | None \<Rightarrow> open_or_clarify s given topics msg
          })"

definition route_message ::
  "('w, 'v) intent_services \<Rightarrow> 'v chat_codec \<Rightarrow> decision_budget option \<Rightarrow> topic_summary list \<Rightarrow> int option \<Rightarrow>
     string \<Rightarrow> ('w, routing) state" where
  "route_message s c known topics focus msg =
     (case build_request (agent c) topics focus msg (route_options_cap known) of
        None \<Rightarrow> State_Monad.return (Act (continue_focus_or_open_one_topic topics focus msg))
      | Some request \<Rightarrow>
          do {
            decided \<leftarrow> intent_decider s request;
            case decided of
              Inl _ \<Rightarrow> State_Monad.return (Act (continue_focus_or_open_one_topic topics focus msg))
            | Inr d \<Rightarrow>
                if dr_answers d = []
                then State_Monad.return (Act (continue_focus_or_open_one_topic topics focus msg))
                else placed_by_the_answers s c (dr_answers d) topics focus msg
          })"

end
