(* ===== verification/Chat_Routing.thy ===== *)
theory Chat_Routing
  imports Chat_Intent Llm_Props
begin

text \<open>
  What routing guarantees whatever the two services of llm-router answer: at least one action, only topics
  of the session, titles that fit their column; and that a confident answer naming an offered topic is
  read back as that topic.
\<close>

section \<open>Titles\<close>

lemma concat_utf8_chars_start:
  "concat (take n (utf8_chars (dropWhile is_continuation bs))) = [] \<or>
   \<not> is_continuation (hd (concat (take n (utf8_chars (dropWhile is_continuation bs)))))"
proof (cases "dropWhile is_continuation bs")
  case (Cons d ds)
  then have "\<not> is_continuation d" by (metis hd_dropWhile list.distinct(1) list.sel(1))
  with Cons show ?thesis by (cases n) simp_all
next
  case Nil
  then show ?thesis by (simp only: utf8_chars.simps take_Nil concat.simps simp_thms)
qed

lemma takeWhile_append_stop:
  assumes "xs = [] \<or> \<not> p (hd xs)"
  shows "takeWhile p (takeWhile p bs @ xs) = takeWhile p bs \<and> dropWhile p (takeWhile p bs @ xs) = xs"
proof -
  have "takeWhile p xs = []" and "dropWhile p xs = xs" using assms by (cases xs; simp)+
  then show ?thesis by (induction bs) simp_all
qed

lemma utf8_chars_take: "utf8_chars (concat (take n (utf8_chars s))) = take n (utf8_chars s)"
proof (induction s arbitrary: n rule: utf8_chars.induct)
  case (2 b bs)
  show ?case
  proof (cases n)
    case (Suc k)
    note stop = takeWhile_append_stop [where p = is_continuation, OF concat_utf8_chars_start, of bs k bs]
    from Suc show ?thesis by (simp add: stop "2.IH")
  qed simp
qed simp

lemma truncated_title: "length (utf8_chars (truncate_chars s n)) \<le> n"
  by (simp add: truncate_chars_def utf8_chars_take)

section \<open>What routing answers\<close>

text \<open>An action names a topic of the session, or opens one under a title that fits, asking something when
the message says something.\<close>

fun action_ok :: "topic_summary list \<Rightarrow> string \<Rightarrow> turn_action \<Rightarrow> bool" where
  "action_ok topics msg (Continue i asks) \<longleftrightarrow> knows_topic topics i"
| "action_ok topics msg (NewTopic title asks) \<longleftrightarrow>
     length (utf8_chars title) \<le> MAX_TITLE_CHARS \<and> (asks = [] \<longrightarrow> msg = [])"

definition actions_ok :: "topic_summary list \<Rightarrow> string \<Rightarrow> turn_action list \<Rightarrow> bool" where
  "actions_ok topics msg actions \<longleftrightarrow> actions \<noteq> [] \<and> list_all (action_ok topics msg) actions"

fun routing_ok :: "topic_summary list \<Rightarrow> string \<Rightarrow> routing \<Rightarrow> bool" where
  "routing_ok topics msg Clarify \<longleftrightarrow> True"
| "routing_ok topics msg (Act actions) \<longleftrightarrow> actions_ok topics msg actions"

lemma fallback_ok:
  "asks = [] \<longrightarrow> msg = [] \<Longrightarrow> actions_ok topics msg (continue_focus_or_open_one_topic topics focus asks)"
  by (auto simp: continue_focus_or_open_one_topic_def actions_ok_def truncated_title split: option.splits)

lemma route_outcome_known: "route_outcome_of given topics = OutcomeContinue i \<Longrightarrow> knows_topic topics i"
  by (auto simp: route_outcome_of_def split: option.splits route_choice.splits if_splits)

lemma action_of_ok: "action_of topics raw = Some a \<Longrightarrow> action_ok topics msg a"
  by (cases raw) (auto simp: action_of_def truncated_title trim_def split: option.splits if_splits)

lemma list_all_map_filter: "(\<And>x y. f x = Some y \<Longrightarrow> P y) \<Longrightarrow> list_all P (List.map_filter f xs)"
  by (auto simp: List.map_filter_def list_all_iff)

lemma unless_empty_eq_Some: "unless_empty xs = Some ys \<longleftrightarrow> ys = xs \<and> xs \<noteq> []"
  by (auto simp: unless_empty_def)

lemma parsed_actions_ok:
  assumes "parse_actions c said topics = Some actions"
  shows "actions_ok topics msg actions"
proof -
  obtain raws where "actions = List.map_filter (\<lambda>v. Option.bind (read_raw_action c v) (action_of topics)) raws"
    and "actions \<noteq> []"
  proof -
    obtain object where "(case parse_json (base (agent c)) object of
        Inl _ \<Rightarrow> None
      | Inr plan \<Rightarrow>
          Option.bind (Option.bind (get plan ''actions'') as_array) (\<lambda>raws.
          unless_empty (List.map_filter (\<lambda>v. Option.bind (read_raw_action c v) (action_of topics)) raws))) =
        Some actions"
      using assms by (auto simp: parse_actions_def bind_eq_Some_conv)
    then show thesis
      using that by (cases "parse_json (base (agent c)) object") (auto simp: bind_eq_Some_conv unless_empty_eq_Some)
  qed
  moreover have "list_all (action_ok topics msg)
      (List.map_filter (\<lambda>v. Option.bind (read_raw_action c v) (action_of topics)) raws)"
    by (rule list_all_map_filter) (auto simp: bind_eq_Some_conv intro: action_of_ok)
  ultimately show ?thesis by (simp add: actions_ok_def)
qed

lemma made_to_stand_alone_ok:
  "list_all (action_ok topics msg) actions \<Longrightarrow> list_all (action_ok topics msg) (made_to_stand_alone given msg n actions)"
  by (induction given msg n actions rule: made_to_stand_alone.induct)
    (auto simp: whole_message_scoped_to_title_def NEWLINE_def)

lemma made_to_stand_alone_empty: "made_to_stand_alone given msg n actions = [] \<longleftrightarrow> actions = []"
  by (cases actions; cases "hd actions") simp_all

lemma asked_split_ok:
  "pred_state (\<lambda>r. \<forall>actions. r = Some actions \<longrightarrow> actions_ok topics msg actions) (ask_split s c topics m note)"
  unfolding ask_split_def
  by (intro pred_bindI [OF pred_anything] pred_returnI) (auto split: sum.splits intro: parsed_actions_ok)

lemma repaired_split_ok:
  "actions_ok topics msg actions \<Longrightarrow> actions_ok topics msg (questions_made_to_stand_alone actions given msg)"
  by (simp add: questions_made_to_stand_alone_def actions_ok_def made_to_stand_alone_ok made_to_stand_alone_empty)

lemma judged_split_ok:
  assumes "actions_ok topics msg actions"
  shows "pred_state (\<lambda>v. \<forall>kept. v = Keeps kept \<longrightarrow> actions_ok topics msg kept)
    (judge_and_repair_split s c msg actions)"
proof -
  let ?qs = "List.map_filter new_question actions"
  let ?request = "Option.bind (split_judgement_questions (agent c) (length ?qs)) (\<lambda>asked.
    request_about (agent c)
      (json_object [(''message'', String msg), (''questions'', Array (map String ?qs))]) (Some asked))"
  show ?thesis
    using assms unfolding judge_and_repair_split_def Let_def
    by (cases "?qs = []"; cases ?request)
      (auto split: sum.splits if_splits intro!: pred_returnI pred_bindI [OF pred_anything]
        simp: repaired_split_ok)
qed

lemma split_ok:
  "pred_state (\<lambda>r. \<forall>actions. r = Some actions \<longrightarrow> actions_ok topics msg actions) (split_message s c topics msg)"
  unfolding split_message_def
  by (rule pred_bindI [OF asked_split_ok [where msg = msg]])
    (auto split: option.splits split_verdict.splits
      intro!: pred_returnI pred_bindI [OF judged_split_ok] pred_bindI [OF asked_split_ok [where msg = msg]])

lemma rewritten_ok:
  "pred_state (\<lambda>asks. asks = [] \<longrightarrow> msg = []) (question_that_stands_alone s given topics msg)"
  unfolding question_that_stands_alone_def rewritten_against_the_conversation_def
  by (auto split: option.splits sum.splits if_splits
      intro!: pred_returnI pred_bindI [OF pred_anything] simp: Let_def)

lemma open_or_clarify_ok: "pred_state (routing_ok topics msg) (open_or_clarify s given topics msg)"
  unfolding open_or_clarify_def
  by (auto intro!: pred_returnI pred_bindI [OF rewritten_ok] simp: actions_ok_def truncated_title)

lemma unplaced_ok: "pred_state (routing_ok topics msg) (unplaced s given topics focus msg)"
  unfolding unplaced_def Let_def
  by (rule pred_bindI [OF rewritten_ok], rule pred_returnI) (simp add: fallback_ok)

lemma placed_ok: "pred_state (routing_ok topics msg) (placed_by_the_answers s c given topics focus msg)"
proof (cases "if topics = [] then ConfidentNew else route_outcome_of given topics")
  case (OutcomeContinue i)
  then have "knows_topic topics i" by (auto intro: route_outcome_known split: if_splits)
  with OutcomeContinue show ?thesis
    by (auto simp: placed_by_the_answers_def actions_ok_def intro!: pred_returnI pred_bindI [OF rewritten_ok])
next
  case ConfidentNew
  have "pred_state (\<lambda>r. \<forall>actions. r = Some actions \<longrightarrow> actions_ok topics msg actions)
      (if noul_above given SEPARATE_THEMES_ID SPLIT_WHEN_SEPARATE_THEMES_ABOVE
       then split_message s c topics msg else State_Monad.return None)"
    by (auto intro!: split_ok pred_returnI)
  note split = this
  show ?thesis
    unfolding placed_by_the_answers_def ConfidentNew route_outcome.case
    by (rule pred_bindI [OF split]) (auto intro!: pred_returnI open_or_clarify_ok split: option.splits)
qed (simp add: placed_by_the_answers_def unplaced_ok)

text \<open>Whatever the decider and the model answer, or fail to, a message is either met with a request to
say more or routed: onto at least one action, each of which continues a topic of the session or opens one
whose title fits its column; and no new topic asks nothing unless the message itself is empty.\<close>

lemma every_message_is_routed:
  assumes "run_state (route_message s c known topics focus msg) w = (routed, w')"
  shows "routing_ok topics msg routed"
proof -
  have "pred_state (routing_ok topics msg) (route_message s c known topics focus msg)"
    unfolding route_message_def
    by (auto split: option.splits sum.splits simp: fallback_ok
        intro!: pred_returnI pred_bindI [OF pred_anything] placed_ok)
  then show ?thesis using assms by (rule pred_stateD)
qed

section \<open>Offered topics are recognised\<close>

lemma parse_offered_topic:
  "- (2 ^ 63) \<le> i \<Longrightarrow> i < 2 ^ 63 \<Longrightarrow> parse_route_choice (topic_option_name i) = Some (ChoiceTopic i)"
  by (simp add: parse_route_choice_def topic_option_name_def TOPIC_OPTION_PREFIX_def NEW_TOPIC_OPTION_def
      starts_with_def parse_show_i64)

text \<open>The name under which a topic is offered reads back as that topic: when the decider picks an offered
topic with at least even confidence, the message continues exactly that topic, whichever topic has the
focus.\<close>

lemma confident_choice_is_followed:
  assumes "find_choice given ROUTE_ID = Some (topic_option_name i, conf)" and "1 / 2 \<le> conf"
    and "knows_topic topics i" and "- (2 ^ 63) \<le> i" and "i < 2 ^ 63"
    and "run_state (placed_by_the_answers s c given topics focus msg) w = (routed, w')"
  shows "\<exists>asks. routed = Act [Continue i asks]"
proof -
  have "topics \<noteq> []" using assms(3) by (auto simp: knows_topic_def)
  moreover have "route_outcome_of given topics = OutcomeContinue i"
    using assms(1-3) parse_offered_topic [OF assms(4,5)]
    by (simp add: route_outcome_of_def CONTINUE_FOCUS_WHEN_ROUTE_CONFIDENCE_BELOW_def not_less)
  ultimately show ?thesis
    using assms(6) by (auto simp: placed_by_the_answers_def split: prod.splits)
qed

end
