(* ===== verification/Partition.thy ===== *)
theory Partition
  imports Chat_Intent "HOL-Library.List_Lexorder" "HOL-Library.Char_ord"
begin

text \<open>
  \<^verbatim>\<open>common/src/partition.rs\<close>: monthly range partitions, which the event and audit tables share. The calendar
  is that of \<^verbatim>\<open>chrono\<close> and not under the repository: the record \<open>calendar\<close> holds what the code uses of it.
  The catalogue of the database is the list of the names of a table's partitions, in name order.
\<close>

record calendar =
  year_of :: "instant \<Rightarrow> int"
  month_of_year :: "instant \<Rightarrow> nat"
  first_of :: "int \<Rightarrow> nat \<Rightarrow> instant option"
  plus_months :: "instant \<Rightarrow> nat \<Rightarrow> instant option"
  minus_months :: "instant \<Rightarrow> nat \<Rightarrow> instant option"

definition or_else :: "'a option \<Rightarrow> 'a \<Rightarrow> 'a" where
  "or_else v d = (case v of None \<Rightarrow> d | Some x \<Rightarrow> x)"

definition month_start :: "calendar \<Rightarrow> instant \<Rightarrow> instant" where
  "month_start cal t = or_else (first_of cal (year_of cal t) (month_of_year cal t)) t"

definition add_months :: "calendar \<Rightarrow> instant \<Rightarrow> nat \<Rightarrow> instant" where
  "add_months cal t n = or_else (plus_months cal t n) t"

definition subtract_months :: "calendar \<Rightarrow> instant \<Rightarrow> nat \<Rightarrow> instant" where
  "subtract_months cal t n = or_else (minus_months cal t n) t"

definition MICROSECOND :: int where "MICROSECOND = 1000"

text \<open>\<^verbatim>\<open>Ord::clamp\<close>, for a lower bound that is not above the upper.\<close>

definition clamp_to_open_window :: "calendar \<Rightarrow> instant \<Rightarrow> instant \<Rightarrow> nat \<Rightarrow> instant" where
  "clamp_to_open_window cal t now months_open_ahead =
     (let earliest = month_start cal now;
          last_instant = add_months cal earliest (months_open_ahead + 1) - MICROSECOND in
      min (max t earliest) last_instant)"

record monthly =
  schema_name :: string
  parent_table :: string
  key_column :: string

text \<open>\<^verbatim>\<open>{:04}\<close> and \<^verbatim>\<open>{:02}\<close>: zeros in front of the digits, after the sign.\<close>

definition padded :: "nat \<Rightarrow> string \<Rightarrow> string" where
  "padded n ds = replicate (n - length ds) CHR ''0'' @ ds"

definition padded_int :: "nat \<Rightarrow> int \<Rightarrow> string" where
  "padded_int n i = (if i < 0 then CHR ''-'' # padded (n - 1) (show_nat (nat (- i))) else padded n (show_nat (nat i)))"

definition partition_name :: "calendar \<Rightarrow> monthly \<Rightarrow> instant \<Rightarrow> string" where
  "partition_name cal p month =
     (let start = month_start cal month in
      parent_table p @ ''_y'' @ padded_int 4 (year_of cal start) @ ''m'' @
        padded 2 (show_nat (month_of_year cal start)))"

text \<open>\<^verbatim>\<open>str::parse\<close> to \<^verbatim>\<open>i32\<close> and \<^verbatim>\<open>u32\<close>.\<close>

definition parse_i32 :: "string \<Rightarrow> int option" where
  "parse_i32 s = Option.bind (parse_i64 s) (\<lambda>i. if - (2 ^ 31) \<le> i \<and> i < 2 ^ 31 then Some i else None)"

definition partition_month :: "calendar \<Rightarrow> monthly \<Rightarrow> string \<Rightarrow> instant option" where
  "partition_month cal p nm =
     Option.bind (strip_prefix (parent_table p) nm) (\<lambda>rest.
     Option.bind (strip_prefix ''_y'' rest) (\<lambda>rest.
     Option.bind (split_once CHR ''m'' rest) (\<lambda>(y, m).
     if length y \<noteq> 4 \<or> length m \<noteq> 2 then None
     else
       Option.bind (parse_i32 y) (\<lambda>year.
       Option.bind (parse_u32 m) (\<lambda>month. first_of cal year (unat month))))))"

definition ensure_open_through ::
  "calendar \<Rightarrow> monthly \<Rightarrow> instant \<Rightarrow> nat \<Rightarrow> string list \<Rightarrow> string list" where
  "ensure_open_through cal p now months_ahead names =
     fold (\<lambda>ahead names.
         let nm = partition_name cal p (add_months cal (month_start cal now) ahead) in
         if nm \<in> set names then names else insort nm names) [0..<Suc months_ahead] names"

definition drop_older_than ::
  "calendar \<Rightarrow> monthly \<Rightarrow> instant \<Rightarrow> nat \<Rightarrow> string list \<Rightarrow> string list \<times> string list" where
  "drop_older_than cal p now retention_months names =
     (let cutoff = subtract_months cal (month_start cal now) retention_months;
          old = (\<lambda>nm. case partition_month cal p nm of None \<Rightarrow> False | Some start \<Rightarrow> start < cutoff) in
      (filter old names, filter (\<lambda>nm. \<not> old nm) names))"

end
