(* ===== verification/Chat_Db.thy ===== *)
theory Chat_Db
  imports Partition
begin

text \<open>
  The tables of \<^verbatim>\<open>services/chat/src/entity\<close> and \<^verbatim>\<open>event_log.rs\<close>, and the transactions of
  \<^verbatim>\<open>session_manager.rs\<close>, \<^verbatim>\<open>topic_queue.rs\<close>, \<^verbatim>\<open>topic_focus.rs\<close> and \<^verbatim>\<open>topic_manager.rs\<close> on them. A transaction
  is a function on the tables; each of those that count the running topics or move the focus holds the row
  lock of its session from its first statement to its commit, so that two of the same session never
  interleave. What the engine and the clock answered within a transaction is an argument.
\<close>

section \<open>Rows\<close>

record chat_session =
  cs_id :: uuid
  cs_user :: uuid
  cs_focus :: "int option"
  cs_created_at :: instant

record topic =
  tp_id :: int
  tp_session :: uuid
  tp_parent :: "int option"
  tp_title :: string
  tp_status :: topic_status
  tp_execution :: "uuid option"
  tp_input_json :: json
  tp_result_summary :: "string option"
  tp_artifact_ids :: json
  tp_created_at :: instant
  tp_updated_at :: instant

record message_row =
  ms_id :: int
  ms_topic :: int
  ms_turn :: uuid
  ms_content :: string
  ms_created_at :: instant

datatype topic_event_kind = TopicCreated | TopicQueued | TopicStarted | TopicProgress | TopicWasCompleted
  | TopicHasFailed | TopicWasCancelled | FocusChanged | Notification | SessionReset | ClarificationNeeded
  | EngineBusyKind

record topic_event =
  te_event_id :: uuid
  te_session :: uuid
  te_topic :: "int option"
  te_kind :: topic_event_kind
  te_payload :: json
  te_occurred_at :: instant

text \<open>The kind is stored as the text serde gives it and read back the same way; a row keeps the kind.\<close>

record chat_event_row =
  ce_id :: int
  ce_event :: topic_event

record chat_db =
  chat_sessions :: "chat_session list"
  topics_table :: "topic list"
  chat_messages :: "message_row list"
  chat_events :: "chat_event_row list"
  topic_seq :: int
  message_seq :: int
  chat_event_seq :: int

section \<open>error.rs\<close>

datatype chat_error = InvalidRequest string | TopicNotFound int | TopicNotRunning int | NoFocus
  | ChatEngine string | EngineBusy int string

definition INTERNAL_FAILURE_MESSAGE :: string where
  "INTERNAL_FAILURE_MESSAGE = ''chat could not complete the request''"

fun chat_error_text :: "chat_error \<Rightarrow> string" where
  "chat_error_text (InvalidRequest e) = ''invalid request: '' @ e"
| "chat_error_text (TopicNotFound i) = ''topic not found: '' @ show_int i"
| "chat_error_text (TopicNotRunning i) =
     ''topic '' @ show_int i @ '' has already finished '' @ EM_DASH @
     '' create a new topic or choose another one with SetFocus''"
| "chat_error_text NoFocus = ''no focus topic set''"
| "chat_error_text (ChatEngine e) = ''engine call failed: '' @ e"
| "chat_error_text (EngineBusy i e) = ''topic '' @ show_int i @ '' is still busy: '' @ e"

fun chat_connect_error :: "chat_error \<Rightarrow> rpc_error" where
  "chat_connect_error (InvalidRequest e) = (InvalidArgument, chat_error_text (InvalidRequest e))"
| "chat_connect_error (TopicNotFound i) = (NotFound, chat_error_text (TopicNotFound i))"
| "chat_connect_error NoFocus = (FailedPrecondition, chat_error_text NoFocus)"
| "chat_connect_error (TopicNotRunning i) = (FailedPrecondition, chat_error_text (TopicNotRunning i))"
| "chat_connect_error (ChatEngine e) = (Internal, INTERNAL_FAILURE_MESSAGE)"
| "chat_connect_error (EngineBusy i e) = (Unavailable, chat_error_text (EngineBusy i e))"

section \<open>session\_manager.rs\<close>

definition session_by_id :: "chat_db \<Rightarrow> uuid \<Rightarrow> chat_session option" where
  "session_by_id db i = List.find (\<lambda>r. cs_id r = i) (chat_sessions db)"

definition session_of_user :: "chat_db \<Rightarrow> uuid \<Rightarrow> chat_session option" where
  "session_of_user db u = List.find (\<lambda>r. cs_user r = u) (chat_sessions db)"

definition topic_by_id :: "chat_db \<Rightarrow> int \<Rightarrow> topic option" where
  "topic_by_id db i = List.find (\<lambda>t. tp_id t = i) (topics_table db)"

definition session_vanished :: chat_error where
  "session_vanished = InvalidRequest ''session vanished''"

text \<open>\<^verbatim>\<open>INSERT .. ON CONFLICT (user_id) DO NOTHING\<close>.\<close>

definition insert_session :: "uuid \<Rightarrow> uuid \<Rightarrow> instant \<Rightarrow> chat_db \<Rightarrow> chat_db" where
  "insert_session i u now db =
     (if list_ex (\<lambda>r. cs_user r = u) (chat_sessions db) then db
      else db\<lparr>chat_sessions := chat_sessions db @
        [\<lparr>cs_id = i, cs_user = u, cs_focus = None, cs_created_at = now\<rparr>]\<rparr>)"

definition session_of_topic :: "chat_db \<Rightarrow> int \<Rightarrow> chat_error + chat_session" where
  "session_of_topic db i =
     (case topic_by_id db i of
        None \<Rightarrow> Inl (TopicNotFound i)
      | Some t \<Rightarrow> (case session_by_id db (tp_session t) of None \<Rightarrow> Inl session_vanished | Some r \<Rightarrow> Inr r))"

text \<open>\<^verbatim>\<open>ORDER BY created_at\<close>; rows of one instant keep the order of the table.\<close>

definition topics_of_session :: "chat_db \<Rightarrow> uuid \<Rightarrow> topic list" where
  "topics_of_session db i = sort_key tp_created_at (filter (\<lambda>t. tp_session t = i) (topics_table db))"

definition set_focus_row :: "uuid \<Rightarrow> int option \<Rightarrow> chat_db \<Rightarrow> chat_db" where
  "set_focus_row i f db =
     db\<lparr>chat_sessions := map (\<lambda>r. if cs_id r = i then r\<lparr>cs_focus := f\<rparr> else r) (chat_sessions db)\<rparr>"

definition update_topic :: "int \<Rightarrow> (topic \<Rightarrow> topic) \<Rightarrow> chat_db \<Rightarrow> chat_db" where
  "update_topic i f db = db\<lparr>topics_table := map (\<lambda>t. if tp_id t = i then f t else t) (topics_table db)\<rparr>"

section \<open>topic\_queue.rs\<close>

definition MAX_CONCURRENT_TOPICS :: nat where "MAX_CONCURRENT_TOPICS = 3"

definition topics_in :: "chat_db \<Rightarrow> uuid \<Rightarrow> topic_status set \<Rightarrow> topic list" where
  "topics_in db i sts = filter (\<lambda>t. tp_session t = i \<and> tp_status t \<in> sts) (topics_table db)"

definition admission_status :: "chat_db \<Rightarrow> uuid \<Rightarrow> topic_status" where
  "admission_status db i =
     (if length (topics_in db i {TopicRunning}) < MAX_CONCURRENT_TOPICS then TopicRunning else Queued)"

text \<open>\<^verbatim>\<open>ORDER BY created_at LIMIT 1\<close>.\<close>

definition oldest :: "topic list \<Rightarrow> topic option" where
  "oldest ts = (case sort_key tp_created_at ts of [] \<Rightarrow> None | t # _ \<Rightarrow> Some t)"

definition next_queued :: "chat_db \<Rightarrow> uuid \<Rightarrow> topic option" where
  "next_queued db i =
     (if admission_status db i = TopicRunning then oldest (topics_in db i {Queued}) else None)"

definition parent_execution_of :: "chat_db \<Rightarrow> int option \<Rightarrow> uuid option" where
  "parent_execution_of db parent =
     Option.bind parent (\<lambda>i. Option.bind (topic_by_id db i) tp_execution)"

definition promote_row :: "int \<Rightarrow> uuid \<Rightarrow> instant \<Rightarrow> chat_db \<Rightarrow> chat_db" where
  "promote_row i execution now db =
     update_topic i (\<lambda>t. t\<lparr>tp_status := TopicRunning, tp_execution := Some execution, tp_updated_at := now\<rparr>) db"

section \<open>topic\_manager.rs: the insert and the reset\<close>

definition insert_topic_row ::
  "uuid \<Rightarrow> int option \<Rightarrow> string \<Rightarrow> json \<Rightarrow> uuid option \<Rightarrow> instant \<Rightarrow> chat_db \<Rightarrow> topic \<times> chat_db" where
  "insert_topic_row sid parent title input execution now db =
     (let row = \<lparr>tp_id = topic_seq db, tp_session = sid, tp_parent = parent, tp_title = title,
            tp_status = admission_status db sid, tp_execution = execution, tp_input_json = input,
            tp_result_summary = None, tp_artifact_ids = Array [], tp_created_at = now, tp_updated_at = now\<rparr>;
          db' = db\<lparr>topics_table := topics_table db @ [row], topic_seq := topic_seq db + 1\<rparr> in
      (row,
       case session_by_id db sid of
         Some r \<Rightarrow> if cs_focus r = None then set_focus_row sid (Some (tp_id row)) db' else db'
       | None \<Rightarrow> db'))"

text \<open>\<open>from_month\<close> is the start of the month the session was created in: older partitions hold no row of it.\<close>

definition delete_session :: "uuid \<Rightarrow> instant \<Rightarrow> chat_db \<Rightarrow> chat_db" where
  "delete_session sid from_month db =
     (let ids = map tp_id (filter (\<lambda>t. tp_session t = sid) (topics_table db)) in
      db\<lparr>chat_messages := filter (\<lambda>m. ms_topic m \<notin> set ids) (chat_messages db),
         topics_table := filter (\<lambda>t. tp_id t \<notin> set ids) (topics_table db),
         chat_events := filter (\<lambda>e. \<not> (te_session (ce_event e) = sid \<and> from_month \<le> te_occurred_at (ce_event e)))
           (chat_events db),
         chat_sessions := filter (\<lambda>r. cs_id r \<noteq> sid) (chat_sessions db)\<rparr>)"

section \<open>topic\_focus.rs\<close>

definition move_focus_off_completed ::
  "chat_session \<Rightarrow> int \<Rightarrow> chat_db \<Rightarrow> (int option \<times> int) option \<times> chat_db" where
  "move_focus_off_completed r completed db =
     (if cs_focus r \<noteq> Some completed then (None, db)
      else
        let successor = map_option tp_id (oldest (topics_in db (cs_id r) {TopicRunning, Queued})) in
        (Some (successor, completed), set_focus_row (cs_id r) successor db))"

definition finish_row ::
  "int \<Rightarrow> topic_status \<Rightarrow> string option \<Rightarrow> instant \<Rightarrow> chat_session \<Rightarrow> chat_db \<Rightarrow>
     (int option \<times> int) option \<times> chat_db" where
  "finish_row i st summary now r db =
     (let db' = update_topic i
            (\<lambda>t. t\<lparr>tp_status := st, tp_result_summary := summary, tp_updated_at := now\<rparr>) db in
      if st = TopicCompleted then move_focus_off_completed r i db' else (None, db'))"

section \<open>Messages and events\<close>

text \<open>\<^verbatim>\<open>ON CONFLICT (topic_id, turn_id) DO NOTHING\<close>; a conflicting row still draws an id.\<close>

definition insert_message :: "int \<Rightarrow> uuid \<Rightarrow> string \<Rightarrow> instant \<Rightarrow> chat_db \<Rightarrow> chat_db" where
  "insert_message i turn_id said now db =
     (if list_ex (\<lambda>m. ms_topic m = i \<and> ms_turn m = turn_id) (chat_messages db)
      then db\<lparr>message_seq := message_seq db + 1\<rparr>
      else db\<lparr>chat_messages := chat_messages db @
          [\<lparr>ms_id = message_seq db, ms_topic = i, ms_turn = turn_id, ms_content = said, ms_created_at = now\<rparr>],
        message_seq := message_seq db + 1\<rparr>)"

definition delivered_to :: "chat_db \<Rightarrow> uuid \<Rightarrow> int list \<Rightarrow> int list" where
  "delivered_to db turn_id ids =
     map ms_topic (sort_key ms_id
       (filter (\<lambda>m. ms_turn m = turn_id \<and> ms_topic m \<in> set ids) (chat_messages db)))"

definition MONTHS_OPEN_AHEAD :: nat where "MONTHS_OPEN_AHEAD = 1"

definition row_for :: "calendar \<Rightarrow> instant \<Rightarrow> topic_event \<Rightarrow> topic_event" where
  "row_for cal now e =
     e\<lparr>te_occurred_at := clamp_to_open_window cal (te_occurred_at e) now MONTHS_OPEN_AHEAD\<rparr>"

text \<open>\<^verbatim>\<open>ON CONFLICT (occurred_at, event_id) DO NOTHING\<close>.\<close>

definition insert_event_row :: "topic_event \<Rightarrow> chat_db \<Rightarrow> chat_db" where
  "insert_event_row row db =
     (if list_ex (\<lambda>r. te_occurred_at (ce_event r) = te_occurred_at row \<and>
           te_event_id (ce_event r) = te_event_id row) (chat_events db)
      then db\<lparr>chat_event_seq := chat_event_seq db + 1\<rparr>
      else db\<lparr>chat_events := chat_events db @ [\<lparr>ce_id = chat_event_seq db, ce_event = row\<rparr>],
        chat_event_seq := chat_event_seq db + 1\<rparr>)"

definition stored_events :: "calendar \<Rightarrow> chat_session \<Rightarrow> chat_db \<Rightarrow> topic_event list" where
  "stored_events cal r db =
     map ce_event (sort_key ce_id
       (filter (\<lambda>e. te_session (ce_event e) = cs_id r \<and>
          month_start cal (cs_created_at r) \<le> te_occurred_at (ce_event e)) (chat_events db)))"

definition has_no_record_but_the_event_log :: "topic_event_kind \<Rightarrow> bool" where
  "has_no_record_but_the_event_log k \<longleftrightarrow> k = ClarificationNeeded \<or> k = EngineBusyKind"

end
