(* ===== verification/Chat_Turn.thy ===== *)
theory Chat_Turn
  imports Chat_Db
begin

text \<open>
  One request of the chat service: \<^verbatim>\<open>topic_turn.rs\<close>, \<^verbatim>\<open>topic_manager.rs\<close>, \<^verbatim>\<open>topic_events.rs\<close>,
  \<^verbatim>\<open>topic_focus.rs\<close> and the promotion of \<^verbatim>\<open>topic_queue.rs\<close>, each as a computation of the state monad. The
  state is the tables, what the bus has carried, the watchers that were spawned, and the world of the engine,
  of llm-router and of the clock, which is a type variable. A statement on a connection of the pool takes
  effect when it is made, whatever becomes of the request: the transaction that holds the lock of the turn
  carries no write of its own.
\<close>

section \<open>State and services\<close>

record 'w chat =
  cdb :: chat_db
  told :: "topic_event list"
  watched :: "(int \<times> uuid) list"
  outer :: 'w

record principal =
  user_id :: uuid
  session_id :: string

text \<open>
  The engine as \<^verbatim>\<open>engine_client.rs\<close> calls it, the services of \<^verbatim>\<open>intent.rs\<close>, the clock, the generator of
  UUIDs, and the texts of JSON values and UUIDs.
\<close>

record ('w, 'v) chat_services =
  engine_start :: "principal \<Rightarrow> string \<Rightarrow> string \<Rightarrow> string option \<Rightarrow> ('w, string + uuid) state"
  engine_interrupt :: "principal \<Rightarrow> uuid \<Rightarrow> string \<Rightarrow> ('w, rpc_error + unit) state"
  clock :: "('w, instant) state"
  draw_uuid :: "('w, uuid) state"
  intent :: "('w, 'v) intent_services"
  chat_code :: "'v chat_codec"
  known_budget :: "decision_budget option"
  json_text :: "json \<Rightarrow> string"
  uuid_text :: "uuid \<Rightarrow> string"
  rpc_error_text :: "rpc_error \<Rightarrow> string"
  utc_calendar :: calendar

definition outside :: "('w, 'a) state \<Rightarrow> ('w chat, 'a) state" where
  "outside m = State (\<lambda>y. let (r, w) = run_state m (outer y) in (r, y\<lparr>outer := w\<rparr>))"

definition reading :: "(chat_db \<Rightarrow> 'a) \<Rightarrow> ('w chat, 'a) state" where
  "reading f = State (\<lambda>y. (f (cdb y), y))"

definition writing :: "(chat_db \<Rightarrow> chat_db) \<Rightarrow> ('w chat, unit) state" where
  "writing f = State (\<lambda>y. ((), y\<lparr>cdb := f (cdb y)\<rparr>))"

definition tell_live_subscribers :: "topic_event list \<Rightarrow> ('w chat, unit) state" where
  "tell_live_subscribers es = State (\<lambda>y. ((), y\<lparr>told := told y @ es\<rparr>))"

definition spawn_watch :: "int \<Rightarrow> uuid \<Rightarrow> ('w chat, unit) state" where
  "spawn_watch i execution = State (\<lambda>y. ((), y\<lparr>watched := watched y @ [(i, execution)]\<rparr>))"

definition principal_of :: "('w, 'v) chat_services \<Rightarrow> chat_session \<Rightarrow> principal" where
  "principal_of s r = \<lparr>user_id = cs_user r, session_id = uuid_text s (cs_id r)\<rparr>"

definition AGENT_GRAPH_ID :: string where "AGENT_GRAPH_ID = ''agent''"

definition execution_input_json :: "string \<Rightarrow> json" where
  "execution_input_json question = json_object [(''question'', String question)]"

section \<open>topic\_events.rs and events.rs\<close>

definition new_event ::
  "('w, 'v) chat_services \<Rightarrow> uuid \<Rightarrow> int option \<Rightarrow> topic_event_kind \<Rightarrow> instant \<Rightarrow> json \<Rightarrow>
     ('w chat, topic_event) state" where
  "new_event s sid i k t body =
     do {
       e \<leftarrow> outside (draw_uuid s);
       State_Monad.return \<lparr>te_event_id = e, te_session = sid, te_topic = i, te_kind = k, te_payload = body,
         te_occurred_at = t\<rparr>
     }"

text \<open>Each row reads the clock before the one statement that inserts them all.\<close>

fun rows_for :: "('w, 'v) chat_services \<Rightarrow> topic_event list \<Rightarrow> ('w chat, topic_event list) state" where
  "rows_for s [] = State_Monad.return []"
| "rows_for s (e # es) =
     do {
       now \<leftarrow> outside (clock s);
       rows \<leftarrow> rows_for s es;
       State_Monad.return (row_for (utc_calendar s) now e # rows)
     }"

definition store_events :: "('w, 'v) chat_services \<Rightarrow> topic_event list \<Rightarrow> ('w chat, unit) state" where
  "store_events s es =
     do {
       rows \<leftarrow> rows_for s es;
       writing (fold insert_event_row rows)
     }"

definition publish_all :: "('w, 'v) chat_services \<Rightarrow> topic_event list \<Rightarrow> ('w chat, unit) state" where
  "publish_all s es =
     (if list_ex (\<lambda>e. has_no_record_but_the_event_log (te_kind e)) es
      then do { store_events s es; tell_live_subscribers es }
      else do { tell_live_subscribers es; store_events s es })"

definition publish ::
  "('w, 'v) chat_services \<Rightarrow> uuid \<Rightarrow> int option \<Rightarrow> topic_event_kind \<Rightarrow> instant \<Rightarrow> json \<Rightarrow>
     ('w chat, unit) state" where
  "publish s sid i k t body =
     do {
       e \<leftarrow> new_event s sid i k t body;
       publish_all s [e]
     }"

definition publish_now ::
  "('w, 'v) chat_services \<Rightarrow> uuid \<Rightarrow> int option \<Rightarrow> topic_event_kind \<Rightarrow> json \<Rightarrow> ('w chat, unit) state" where
  "publish_now s sid i k body =
     do {
       now \<leftarrow> outside (clock s);
       publish s sid i k now body
     }"

section \<open>session\_manager.rs\<close>

definition get_or_create_session ::
  "('w, 'v) chat_services \<Rightarrow> uuid \<Rightarrow> ('w chat, chat_error + chat_session) state" where
  "get_or_create_session s u =
     do {
       existing \<leftarrow> reading (\<lambda>db. session_of_user db u);
       case existing of
         Some r \<Rightarrow> State_Monad.return (Inr r)
       | None \<Rightarrow>
           do {
             i \<leftarrow> outside (draw_uuid s);
             now \<leftarrow> outside (clock s);
             writing (insert_session i u now);
             found \<leftarrow> reading (\<lambda>db. session_of_user db u);
             State_Monad.return (case found of Some r \<Rightarrow> Inr r | None \<Rightarrow> Inl session_vanished)
           }
     }"

definition get_session_view ::
  "('w, 'v) chat_services \<Rightarrow> uuid \<Rightarrow> ('w chat, chat_error + int option \<times> topic list) state" where
  "get_session_view s u =
     attempted (get_or_create_session s u) (\<lambda>r.
       do {
         ts \<leftarrow> reading (\<lambda>db. topics_of_session db (cs_id r));
         State_Monad.return (Inr (cs_focus r, ts))
       })"

definition found_session :: "uuid \<Rightarrow> chat_db \<Rightarrow> chat_error + chat_session" where
  "found_session i db = (case session_by_id db i of Some r \<Rightarrow> Inr r | None \<Rightarrow> Inl session_vanished)"

section \<open>topic\_manager.rs: a topic\<close>

text \<open>
  The transaction of the insert: the lock of the session, the count, the start of the execution, the insert.
  A refusal of the engine rolls it back, and it has written nothing.
\<close>

definition start_if_admitted ::
  "('w, 'v) chat_services \<Rightarrow> chat_session \<Rightarrow> json \<Rightarrow> uuid option \<Rightarrow> topic_status \<Rightarrow>
     ('w chat, chat_error + uuid option) state" where
  "start_if_admitted s locked input continues st =
     (if st = TopicRunning
      then do {
        answered \<leftarrow> outside (engine_start s (principal_of s locked) AGENT_GRAPH_ID (json_text s input)
          (map_option (uuid_text s) continues));
        State_Monad.return (case answered of Inl e \<Rightarrow> Inl (ChatEngine e) | Inr i \<Rightarrow> Inr (Some i))
      }
      else State_Monad.return (Inr None))"

definition insert_admitted ::
  "('w, 'v) chat_services \<Rightarrow> uuid \<Rightarrow> int option \<Rightarrow> string \<Rightarrow> json \<Rightarrow> uuid option \<Rightarrow>
     ('w chat, chat_error + topic) state" where
  "insert_admitted s sid parent title input execution =
     do {
       now \<leftarrow> outside (clock s);
       row \<leftarrow> reading (\<lambda>db. fst (insert_topic_row sid parent title input execution now db));
       writing (\<lambda>db. snd (insert_topic_row sid parent title input execution now db));
       State_Monad.return (Inr row)
     }"

definition insert_topic ::
  "('w, 'v) chat_services \<Rightarrow> uuid \<Rightarrow> int option \<Rightarrow> string \<Rightarrow> json \<Rightarrow> uuid option \<Rightarrow>
     ('w chat, chat_error + topic) state" where
  "insert_topic s sid parent title input continues =
     attempted (reading (found_session sid)) (\<lambda>locked.
       do {
         st \<leftarrow> reading (\<lambda>db. admission_status db sid);
         attempted (start_if_admitted s locked input continues st)
           (insert_admitted s sid parent title input)
       })"

definition optional_id :: "int option \<Rightarrow> json" where
  "optional_id i = (case i of None \<Rightarrow> Null | Some n \<Rightarrow> json_of_i32 n)"

definition announce_topic ::
  "('w, 'v) chat_services \<Rightarrow> chat_session \<Rightarrow> int option \<Rightarrow> topic \<Rightarrow> ('w chat, unit) state" where
  "announce_topic s r parent row =
     do {
       publish s (cs_id r) (Some (tp_id row)) TopicCreated (tp_created_at row)
         (json_object [(''title'', String (tp_title row)), (''parent_id'', optional_id parent)]);
       publish s (cs_id r) (Some (tp_id row))
         (if tp_status row = TopicRunning then TopicStarted else TopicQueued) (tp_created_at row)
         (json_object [])
     }"

definition create_topic_continuing ::
  "('w, 'v) chat_services \<Rightarrow> uuid \<Rightarrow> int option \<Rightarrow> string \<Rightarrow> json \<Rightarrow> uuid option \<Rightarrow>
     ('w chat, chat_error + int \<times> topic_status) state" where
  "create_topic_continuing s u parent title input continues =
     attempted (get_or_create_session s u) (\<lambda>r.
     attempted (insert_topic s (cs_id r) parent title input continues) (\<lambda>row.
       do {
         announce_topic s r parent row;
         (case (tp_status row, tp_execution row) of
            (TopicRunning, Some execution) \<Rightarrow> spawn_watch (tp_id row) execution
          | _ \<Rightarrow> State_Monad.return ());
         State_Monad.return (Inr (tp_id row, tp_status row))
       }))"

definition create_topic ::
  "('w, 'v) chat_services \<Rightarrow> uuid \<Rightarrow> int option \<Rightarrow> string \<Rightarrow> json \<Rightarrow>
     ('w chat, chat_error + int \<times> topic_status) state" where
  "create_topic s u parent title input = create_topic_continuing s u parent title input None"

section \<open>topic\_focus.rs: the focus on request\<close>

definition set_focus ::
  "('w, 'v) chat_services \<Rightarrow> uuid \<Rightarrow> int \<Rightarrow> ('w chat, chat_error + unit) state" where
  "set_focus s u i =
     attempted (get_or_create_session s u) (\<lambda>r.
       do {
         found \<leftarrow> reading (\<lambda>db. topic_by_id db i);
         case found of
           None \<Rightarrow> State_Monad.return (Inl (TopicNotFound i))
         | Some t \<Rightarrow>
             if tp_session t \<noteq> cs_id r then State_Monad.return (Inl (TopicNotFound i))
             else
               attempted (reading (found_session (cs_id r))) (\<lambda>_.
                 do {
                   writing (set_focus_row (cs_id r) (Some i));
                   publish_now s (cs_id r) (Some i) FocusChanged
                     (json_object [(''from'', optional_id (cs_focus r)), (''to'', json_of_i32 i),
                        (''reason'', String ''user'')]);
                   State_Monad.return (Inr ())
                 })
       })"

section \<open>topic\_turn.rs: the actions of a turn\<close>

datatype delivery = Existing int | Child int | Refused chat_error

definition engine_call_error :: "('w, 'v) chat_services \<Rightarrow> int \<Rightarrow> rpc_error \<Rightarrow> chat_error" where
  "engine_call_error s i e =
     (if fst e = Unavailable then EngineBusy i (rpc_error_text s e) else ChatEngine (rpc_error_text s e))"

definition continue_in_child ::
  "('w, 'v) chat_services \<Rightarrow> uuid \<Rightarrow> topic \<Rightarrow> string \<Rightarrow> ('w chat, chat_error + int) state" where
  "continue_in_child s u parent said =
     attempted (create_topic_continuing s u (Some (tp_id parent)) (truncate_chars said MAX_TITLE_CHARS)
         (execution_input_json said) (tp_execution parent)) (\<lambda>(child, _).
       State_Monad.return (Inr child))"

definition apply_continue ::
  "('w, 'v) chat_services \<Rightarrow> uuid \<Rightarrow> topic \<Rightarrow> string \<Rightarrow> ('w chat, chat_error + delivery) state" where
  "apply_continue s u t said =
     (case tp_status t of
        TopicCompleted \<Rightarrow>
          attempted (continue_in_child s u t said) (\<lambda>child. State_Monad.return (Inr (Child child)))
      | TopicRunning \<Rightarrow>
          (case tp_execution t of
             None \<Rightarrow> State_Monad.return (Inl (InvalidRequest
               (''topic '' @ show_int (tp_id t) @ '' has no running execution to interrupt'')))
           | Some execution \<Rightarrow>
               attempted (reading (found_session (tp_session t))) (\<lambda>r.
                 do {
                   answered \<leftarrow> outside (engine_interrupt s (principal_of s r) execution
                     (json_text s (execution_input_json said)));
                   State_Monad.return (case answered of
                     Inl e \<Rightarrow> Inl (engine_call_error s (tp_id t) e)
                   | Inr _ \<Rightarrow> Inr (Existing (tp_id t)))
                 }))
      | Queued \<Rightarrow> State_Monad.return (Inr (Existing (tp_id t)))
      | _ \<Rightarrow> State_Monad.return (Inr (Refused (TopicNotRunning (tp_id t)))))"

text \<open>What a turn has come to: the topics that received it, the new focus, the first refusal.\<close>

record turn_tally =
  received :: "int list"
  new_focus :: "int option"
  refused_with :: "chat_error option"

definition first_of_both :: "'a option \<Rightarrow> 'a \<Rightarrow> 'a option" where
  "first_of_both v d = Some (or_else v d)"

fun tally_delivery :: "turn_tally \<Rightarrow> delivery \<Rightarrow> turn_tally" where
  "tally_delivery acc (Existing i) = acc\<lparr>received := received acc @ [i]\<rparr>"
| "tally_delivery acc (Child i) =
     acc\<lparr>received := received acc @ [i], new_focus := first_of_both (new_focus acc) i\<rparr>"
| "tally_delivery acc (Refused e) = acc\<lparr>refused_with := first_of_both (refused_with acc) e\<rparr>"

fun apply_each ::
  "('w, 'v) chat_services \<Rightarrow> uuid \<Rightarrow> topic list \<Rightarrow> string \<Rightarrow> turn_action list \<Rightarrow> turn_tally \<Rightarrow>
     ('w chat, chat_error + turn_tally) state" where
  "apply_each s u ts said [] acc = State_Monad.return (Inr acc)"
| "apply_each s u ts said (NewTopic title question # rest) acc =
     attempted (create_topic s u None title (execution_input_json question)) (\<lambda>(i, _).
       apply_each s u ts said rest (tally_delivery acc (Child i)))"
| "apply_each s u ts said (Continue i question # rest) acc =
     (case List.find (\<lambda>t. tp_id t = i) ts of
        None \<Rightarrow> apply_each s u ts said rest acc
      | Some t \<Rightarrow>
          attempted (apply_continue s u t (if question = [] then said else question)) (\<lambda>d.
            apply_each s u ts said rest (tally_delivery acc d)))"

definition apply_actions ::
  "('w, 'v) chat_services \<Rightarrow> uuid \<Rightarrow> topic list \<Rightarrow> string \<Rightarrow> turn_action list \<Rightarrow>
     ('w chat, chat_error + int list \<times> int option) state" where
  "apply_actions s u ts said actions =
     attempted (apply_each s u ts said actions \<lparr>received = [], new_focus = None, refused_with = None\<rparr>)
       (\<lambda>acc. State_Monad.return
          (if received acc = [] then Inl (or_else (refused_with acc) NoFocus)
           else Inr (received acc, new_focus acc)))"

section \<open>topic\_turn.rs: a turn\<close>

definition already_delivered :: "uuid \<Rightarrow> topic list \<Rightarrow> chat_db \<Rightarrow> int list option" where
  "already_delivered turn_id ts db =
     (let delivered = delivered_to db turn_id (map tp_id ts) in
      if delivered = [] then None else Some delivered)"

definition record_turn ::
  "('w, 'v) chat_services \<Rightarrow> uuid \<Rightarrow> string \<Rightarrow> int list \<Rightarrow> ('w chat, unit) state" where
  "record_turn s turn_id said ids =
     do {
       now \<leftarrow> outside (clock s);
       writing (fold (\<lambda>i. insert_message i turn_id said now) ids)
     }"

definition deliver_turn ::
  "('w, 'v) chat_services \<Rightarrow> uuid \<Rightarrow> uuid \<Rightarrow> string \<Rightarrow> turn_action list \<Rightarrow>
     ('w chat, chat_error + int list) state" where
  "deliver_turn s u turn_id said actions =
     attempted (get_session_view s u) (\<lambda>(_, ts).
       do {
         found \<leftarrow> reading (already_delivered turn_id ts);
         case found of
           Some delivered \<Rightarrow> State_Monad.return (Inr delivered)
         | None \<Rightarrow>
             attempted (apply_actions s u ts said actions) (\<lambda>(ids, focus).
               do {
                 record_turn s turn_id said ids;
                 case focus of
                   None \<Rightarrow> State_Monad.return (Inr ids)
                 | Some i \<Rightarrow> attempted (set_focus s u i) (\<lambda>_. State_Monad.return (Inr ids))
               })
       })"

definition say_instead ::
  "('w, 'v) chat_services \<Rightarrow> uuid \<Rightarrow> int option \<Rightarrow> topic_event_kind \<Rightarrow> string \<Rightarrow> uuid \<Rightarrow> string \<Rightarrow>
     ('w chat, chat_error + int list) state" where
  "say_instead s u i k words turn_id said =
     attempted (get_or_create_session s u) (\<lambda>r.
       do {
         publish_now s (cs_id r) i k
           (json_object [(''text'', String words), (''turn_id'', String (uuid_text s turn_id)),
              (''content'', String said)]);
         State_Monad.return (Inr [])
       })"

definition publish_clarification_without_starting_a_topic ::
  "('w, 'v) chat_services \<Rightarrow> uuid \<Rightarrow> uuid \<Rightarrow> string \<Rightarrow> ('w chat, chat_error + int list) state" where
  "publish_clarification_without_starting_a_topic s u turn_id said =
     say_instead s u None ClarificationNeeded CLARIFICATION_TEXT turn_id said"

definition note_engine_busy_instead_of_queueing ::
  "('w, 'v) chat_services \<Rightarrow> uuid \<Rightarrow> int \<Rightarrow> uuid \<Rightarrow> string \<Rightarrow> ('w chat, chat_error + int list) state" where
  "note_engine_busy_instead_of_queueing s u i turn_id said =
     say_instead s u (Some i) EngineBusyKind ENGINE_BUSY_TEXT turn_id said"

definition summaries :: "topic list \<Rightarrow> topic_summary list" where
  "summaries ts =
     map (\<lambda>t. \<lparr>ts_id = tp_id t, ts_title = tp_title t, ts_status = tp_status t,
       ts_result_summary = tp_result_summary t, ts_last_active_at = tp_updated_at t\<rparr>) ts"

text \<open>The delivery runs while the request holds the advisory lock of the turn.\<close>

definition delivered_or_busy ::
  "('w, 'v) chat_services \<Rightarrow> uuid \<Rightarrow> uuid \<Rightarrow> string \<Rightarrow> turn_action list \<Rightarrow>
     ('w chat, chat_error + int list) state" where
  "delivered_or_busy s u turn_id said actions =
     do {
       delivered \<leftarrow> deliver_turn s u turn_id said actions;
       case delivered of
         Inl (EngineBusy i _) \<Rightarrow> note_engine_busy_instead_of_queueing s u i turn_id said
       | _ \<Rightarrow> State_Monad.return delivered
     }"

definition send_turn ::
  "('w, 'v) chat_services \<Rightarrow> uuid \<Rightarrow> uuid \<Rightarrow> string \<Rightarrow> ('w chat, chat_error + int list) state" where
  "send_turn s u turn_id said =
     attempted (get_session_view s u) (\<lambda>(focus, ts).
       do {
         found \<leftarrow> reading (already_delivered turn_id ts);
         case found of
           Some delivered \<Rightarrow> State_Monad.return (Inr delivered)
         | None \<Rightarrow>
             do {
               routed \<leftarrow> outside (route_message (intent s) (chat_code s) (known_budget s) (summaries ts) focus said);
               case routed of
                 Clarify \<Rightarrow> publish_clarification_without_starting_a_topic s u turn_id said
               | Act actions \<Rightarrow> delivered_or_busy s u turn_id said actions
             }
       })"

section \<open>topic\_queue.rs and topic\_manager.rs: promotion and reset\<close>

definition start_queued ::
  "('w, 'v) chat_services \<Rightarrow> chat_session \<Rightarrow> uuid \<Rightarrow> topic \<Rightarrow> ('w chat, chat_error + unit) state" where
  "start_queued s locked sid t =
     do {
       continues \<leftarrow> reading (\<lambda>db. parent_execution_of db (tp_parent t));
       answered \<leftarrow> outside (engine_start s (principal_of s locked) AGENT_GRAPH_ID
         (json_text s (tp_input_json t)) (map_option (uuid_text s) continues));
       case answered of
         Inl e \<Rightarrow> State_Monad.return (Inl (ChatEngine e))
       | Inr execution \<Rightarrow>
           do {
             now \<leftarrow> outside (clock s);
             writing (promote_row (tp_id t) execution now);
             publish_now s sid (Some (tp_id t)) TopicStarted (json_object []);
             spawn_watch (tp_id t) execution;
             State_Monad.return (Inr ())
           }
     }"

definition promote_next_queued ::
  "('w, 'v) chat_services \<Rightarrow> uuid \<Rightarrow> ('w chat, chat_error + unit) state" where
  "promote_next_queued s sid =
     attempted (reading (found_session sid)) (\<lambda>locked.
       do {
         candidate \<leftarrow> reading (\<lambda>db. next_queued db sid);
         case candidate of None \<Rightarrow> State_Monad.return (Inr ()) | Some t \<Rightarrow> start_queued s locked sid t
       })"

fun interrupt_running ::
  "('w, 'v) chat_services \<Rightarrow> principal \<Rightarrow> topic list \<Rightarrow> ('w chat, unit) state" where
  "interrupt_running s p [] = State_Monad.return ()"
| "interrupt_running s p (t # ts) =
     do {
       (case (tp_status t, tp_execution t) of
          (TopicRunning, Some execution) \<Rightarrow>
            do { answered \<leftarrow> outside (engine_interrupt s p execution ''{}''); State_Monad.return () }
        | _ \<Rightarrow> State_Monad.return ());
       interrupt_running s p ts
     }"

definition reset_session ::
  "('w, 'v) chat_services \<Rightarrow> uuid \<Rightarrow> ('w chat, chat_error + unit) state" where
  "reset_session s u =
     attempted (get_or_create_session s u) (\<lambda>r.
     attempted (reading (found_session (cs_id r))) (\<lambda>locked.
       do {
         ts \<leftarrow> reading (\<lambda>db. topics_in db (cs_id locked) UNIV);
         interrupt_running s (principal_of s locked) ts;
         writing (delete_session (cs_id locked) (month_start (utc_calendar s) (cs_created_at locked)));
         now \<leftarrow> outside (clock s);
         e \<leftarrow> new_event s (cs_id r) None SessionReset now (json_object []);
         tell_live_subscribers [e];
         State_Monad.return (Inr ())
       }))"

end
