(* ===== verification/Chat_Queue.thy ===== *)
theory Chat_Queue
  imports Chat_Db
begin

text \<open>
  The chat service under concurrency: every transaction of every request and of every watcher as one
  step, in any order. Moving the focus on request is two statements outside a transaction, so it is two
  steps, with whatever in between: the check that the topic is of the session \<open>sid\<close>, which was read earlier,
  and the update. A new id is one that was never drawn before. Shown of every reachable
  state: at most three topics of a session run, a running topic has its execution, and a focus points at
  a topic of its own session.
\<close>

section \<open>The transition system\<close>

record chat_sys =
  tables :: chat_db
  drawn_ids :: "uuid set"
  pending_focus :: "(uuid \<times> int) set"

definition empty_chat_db :: chat_db where
  "empty_chat_db =
     \<lparr>chat_sessions = [], topics_table = [], chat_messages = [], chat_events = [], topic_seq = 1,
      message_seq = 1, chat_event_seq = 1\<rparr>"

definition start_sys :: chat_sys where
  "start_sys = \<lparr>tables = empty_chat_db, drawn_ids = {}, pending_focus = {}\<rparr>"

inductive chat_step :: "chat_sys \<Rightarrow> chat_sys \<Rightarrow> bool" where
  open_session: "i \<notin> drawn_ids y \<Longrightarrow>
    chat_step y (y\<lparr>tables := insert_session i u now (tables y), drawn_ids := insert i (drawn_ids y)\<rparr>)"
| insert_topic: "session_by_id (tables y) sid = Some r \<Longrightarrow>
    (execution \<noteq> None \<longleftrightarrow> admission_status (tables y) sid = TopicRunning) \<Longrightarrow>
    chat_step y (y\<lparr>tables := snd (insert_topic_row sid parent title input execution now (tables y))\<rparr>)"
| promote: "session_by_id (tables y) sid = Some r \<Longrightarrow> next_queued (tables y) sid = Some t \<Longrightarrow>
    chat_step y (y\<lparr>tables := promote_row (tp_id t) execution now (tables y)\<rparr>)"
| finish: "session_of_topic (tables y) i = Inr r \<Longrightarrow>
    st \<in> {TopicCompleted, TopicFailed, TopicCancelled} \<Longrightarrow>
    chat_step y (y\<lparr>tables := snd (finish_row i st summary now r (tables y))\<rparr>)"
| check_focus: "sid \<in> drawn_ids y \<Longrightarrow> topic_by_id (tables y) i = Some t \<Longrightarrow> tp_session t = sid \<Longrightarrow>
    chat_step y (y\<lparr>pending_focus := insert (sid, i) (pending_focus y)\<rparr>)"
| move_focus: "(sid, i) \<in> pending_focus y \<Longrightarrow>
    chat_step y (y\<lparr>tables := set_focus_row sid (Some i) (tables y)\<rparr>)"
| record_message: "chat_step y (y\<lparr>tables := insert_message i turn_id said now (tables y)\<rparr>)"
| log_event: "chat_step y (y\<lparr>tables := insert_event_row e (tables y)\<rparr>)"
| reset: "session_by_id (tables y) sid = Some r \<Longrightarrow>
    chat_step y (y\<lparr>tables := delete_session sid from_month (tables y)\<rparr>)"

inductive_cases chat_stepE: "chat_step y z"

abbreviation chat_reachable :: "chat_sys \<Rightarrow> bool" where
  "chat_reachable \<equiv> chat_step\<^sup>*\<^sup>* start_sys"

section \<open>The invariant\<close>

definition topics_ok :: "chat_db \<Rightarrow> bool" where
  "topics_ok db \<longleftrightarrow>
     distinct (map tp_id (topics_table db)) \<and>
     (\<forall>t \<in> set (topics_table db). tp_id t < topic_seq db \<and>
        (tp_status t = TopicRunning \<longrightarrow> tp_execution t \<noteq> None))"

definition slots_ok :: "chat_db \<Rightarrow> bool" where
  "slots_ok db \<longleftrightarrow> (\<forall>i. length (topics_in db i {TopicRunning}) \<le> MAX_CONCURRENT_TOPICS)"

definition belongs :: "chat_db \<Rightarrow> uuid \<Rightarrow> int \<Rightarrow> bool" where
  "belongs db sid i \<longleftrightarrow> (i, sid) \<in> set (map (\<lambda>t. (tp_id t, tp_session t)) (topics_table db))"

definition focus_ok :: "chat_db \<Rightarrow> bool" where
  "focus_ok db \<longleftrightarrow>
     (\<forall>r \<in> set (chat_sessions db). \<forall>i. cs_focus r = Some i \<longrightarrow> belongs db (cs_id r) i)"

definition sys_ok :: "chat_sys \<Rightarrow> bool" where
  "sys_ok y \<longleftrightarrow>
     topics_ok (tables y) \<and> slots_ok (tables y) \<and> focus_ok (tables y) \<and>
     cs_id ` set (chat_sessions (tables y)) \<subseteq> drawn_ids y \<and>
     fst ` pending_focus y \<subseteq> drawn_ids y \<and>
     (\<forall>(sid, i) \<in> pending_focus y. sid \<in> cs_id ` set (chat_sessions (tables y)) \<longrightarrow> belongs (tables y) sid i)"

named_theorems chat_frame

lemma frames [chat_frame]:
  "topics_table (set_focus_row sid f db) = topics_table db"
  "topic_seq (set_focus_row sid f db) = topic_seq db"
  "topics_table (insert_message i turn_id said now db) = topics_table db"
  "topic_seq (insert_message i turn_id said now db) = topic_seq db"
  "chat_sessions (insert_message i turn_id said now db) = chat_sessions db"
  "topics_table (insert_event_row e db) = topics_table db"
  "topic_seq (insert_event_row e db) = topic_seq db"
  "chat_sessions (insert_event_row e db) = chat_sessions db"
  "topics_table (insert_session j u now db) = topics_table db"
  "topic_seq (insert_session j u now db) = topic_seq db"
  "chat_sessions (update_topic i g db) = chat_sessions db"
  "topic_seq (update_topic i g db) = topic_seq db"
  by (simp_all add: set_focus_row_def insert_message_def insert_event_row_def insert_session_def update_topic_def Let_def)

lemma session_ids_set_focus [chat_frame]:
  "cs_id ` set (chat_sessions (set_focus_row sid f db)) = cs_id ` set (chat_sessions db)"
proof -
  have "map cs_id (chat_sessions (set_focus_row sid f db)) = map cs_id (chat_sessions db)"
    by (simp add: set_focus_row_def)
  then show ?thesis by (metis set_map)
qed

text \<open>The tables that the invariant reads only through the topics.\<close>

lemma same_topics:
  assumes "topics_table db' = topics_table db" and "topic_seq db' = topic_seq db"
  shows "topics_ok db' = topics_ok db" "slots_ok db' = slots_ok db" "belongs db' = belongs db"
  using assms by (simp_all add: topics_ok_def slots_ok_def topics_in_def belongs_def fun_eq_iff)

lemma focus_ok_set_focus:
  "focus_ok db \<Longrightarrow> (sid \<in> cs_id ` set (chat_sessions db) \<Longrightarrow> \<forall>i. f = Some i \<longrightarrow> belongs db sid i) \<Longrightarrow>
   focus_ok (set_focus_row sid f db)"
  by (auto simp: focus_ok_def set_focus_row_def belongs_def)

lemma map_update_topic:
  assumes "\<And>t. h (g t) = h t"
  shows "map h (topics_table (update_topic i g db)) = map h (topics_table db)"
  using assms by (simp add: update_topic_def)

lemma belongs_update_topic:
  assumes "\<And>t. tp_id (g t) = tp_id t" and "\<And>t. tp_session (g t) = tp_session t"
  shows "belongs (update_topic i g db) = belongs db"
  using map_update_topic [of "\<lambda>t. (tp_id t, tp_session t)" g i db] assms by (simp add: belongs_def fun_eq_iff)

lemma topics_ok_update_topic:
  assumes "topics_ok db" and "\<And>t. tp_id (g t) = tp_id t"
    and "\<And>t. tp_status (g t) = TopicRunning \<Longrightarrow> tp_execution (g t) \<noteq> None"
  shows "topics_ok (update_topic i g db)"
  using assms map_update_topic [of tp_id g i db, OF assms(2)]
  by (auto simp: topics_ok_def chat_frame) (auto simp: update_topic_def split: if_splits)

lemma count_update:
  "length (filter P (map (\<lambda>t. if tp_id t = i then g t else t) ts)) \<le>
   length (filter P ts) + length (filter (\<lambda>t. tp_id t = i \<and> P (g t) \<and> \<not> P t) ts)"
  by (induction ts) auto

lemma length_filter_id:
  assumes "distinct (map tp_id ts)"
  shows "length (filter (\<lambda>t. tp_id t = i \<and> Q t) ts) \<le> 1"
proof -
  let ?ids = "map tp_id (filter (\<lambda>t. tp_id t = i \<and> Q t) ts)"
  have "distinct ?ids" using assms by (rule distinct_map_filter)
  then have "length ?ids = card (set ?ids)" by (simp only: distinct_card)
  also have "\<dots> \<le> card {i}" by (rule card_mono) auto
  finally show ?thesis by simp
qed

section \<open>Every step keeps it\<close>

lemma slots_ok_update_topic:
  assumes "topics_ok db" "slots_ok db" and "\<And>t. tp_session (g t) = tp_session t"
    and "\<And>t. t \<in> set (topics_table db) \<Longrightarrow> tp_id t = i \<Longrightarrow> tp_status (g t) = TopicRunning \<Longrightarrow>
      tp_status t \<noteq> TopicRunning \<Longrightarrow> admission_status db (tp_session t) = TopicRunning"
  shows "slots_ok (update_topic i g db)"
  unfolding slots_ok_def
proof
  fix j
  let ?P = "\<lambda>t. tp_session t = j \<and> tp_status t \<in> {TopicRunning}"
  let ?new = "filter (\<lambda>t. tp_id t = i \<and> ?P (g t) \<and> \<not> ?P t) (topics_table db)"
  have count: "length (topics_in (update_topic i g db) j {TopicRunning}) \<le>
      length (topics_in db j {TopicRunning}) + length ?new"
    unfolding topics_in_def update_topic_def using count_update [of ?P i g "topics_table db"] by simp
  show "length (topics_in (update_topic i g db) j {TopicRunning}) \<le> MAX_CONCURRENT_TOPICS"
  proof (cases "?new = []")
    case True
    then have "length ?new = 0" by (rule arg_cong [where f = length, THEN trans]) (rule list.size)
    moreover have "length (topics_in db j {TopicRunning}) \<le> MAX_CONCURRENT_TOPICS"
      using assms(2) unfolding slots_ok_def by blast
    ultimately show ?thesis using count by linarith
  next
    case False
    then have "hd ?new \<in> set ?new" by (rule hd_in_set)
    then obtain t where t: "t \<in> set (topics_table db)" "tp_id t = i" "?P (g t)" "\<not> ?P t"
      unfolding set_filter by blast
    then have "tp_session t = j" "tp_status (g t) = TopicRunning" "tp_status t \<noteq> TopicRunning"
      using assms(3) [of t] by simp_all
    then have "admission_status db j = TopicRunning" using assms(4) [of t] t by simp
    then have "length (topics_in db j {TopicRunning}) < MAX_CONCURRENT_TOPICS"
      by (simp add: admission_status_def split: if_splits)
    moreover have "length ?new \<le> 1" using assms(1) by (intro length_filter_id) (simp add: topics_ok_def)
    ultimately show ?thesis using count by linarith
  qed
qed

lemma oldest_mem:
  assumes "oldest ts = Some t"
  shows "t \<in> set ts"
proof -
  obtain rest where "sort_key tp_created_at ts = t # rest"
    using assms by (auto simp: oldest_def split: list.splits)
  then show ?thesis by (metis list.set_intros(1) set_sort)
qed

text \<open>The insert: one row more, of a fresh id, in a slot that was free if it runs.\<close>

lemma insert_topic_row_tables:
  "topics_table (snd (insert_topic_row sid parent title input execution now db)) =
     topics_table db @ [fst (insert_topic_row sid parent title input execution now db)]"
  "topic_seq (snd (insert_topic_row sid parent title input execution now db)) = topic_seq db + 1"
  "cs_id ` set (chat_sessions (snd (insert_topic_row sid parent title input execution now db))) =
     cs_id ` set (chat_sessions db)"
  by (simp_all add: insert_topic_row_def Let_def chat_frame split: option.split)

lemma inserted_row [simp]:
  "tp_id (fst (insert_topic_row sid parent title input execution now db)) = topic_seq db"
  "tp_session (fst (insert_topic_row sid parent title input execution now db)) = sid"
  "tp_status (fst (insert_topic_row sid parent title input execution now db)) = admission_status db sid"
  "tp_execution (fst (insert_topic_row sid parent title input execution now db)) = execution"
  by (simp_all add: insert_topic_row_def Let_def)

lemma belongs_insert:
  "belongs (snd (insert_topic_row sid parent title input execution now db)) j i \<longleftrightarrow>
     belongs db j i \<or> (i = topic_seq db \<and> j = sid)"
  by (auto simp: belongs_def insert_topic_row_tables)

lemma insert_keeps_topics_ok:
  assumes "topics_ok db" and "execution \<noteq> None \<longleftrightarrow> admission_status db sid = TopicRunning"
  shows "topics_ok (snd (insert_topic_row sid parent title input execution now db))"
  using assms by (fastforce simp: topics_ok_def insert_topic_row_tables)

lemma insert_keeps_slots_ok:
  assumes "slots_ok db"
  shows "slots_ok (snd (insert_topic_row sid parent title input execution now db))"
  unfolding slots_ok_def
proof
  fix j
  have "length (topics_in db j {TopicRunning}) \<le> MAX_CONCURRENT_TOPICS"
    using assms unfolding slots_ok_def by blast
  moreover have "admission_status db sid = TopicRunning \<Longrightarrow>
      length (topics_in db sid {TopicRunning}) < MAX_CONCURRENT_TOPICS"
    by (simp add: admission_status_def split: if_splits)
  ultimately show "length (topics_in (snd (insert_topic_row sid parent title input execution now db)) j
      {TopicRunning}) \<le> MAX_CONCURRENT_TOPICS"
    by (cases "sid = j") (auto simp: topics_in_def insert_topic_row_tables Suc_le_eq)
qed

lemma insert_keeps_focus_ok:
  assumes "focus_ok db"
  shows "focus_ok (snd (insert_topic_row sid parent title input execution now db))"
proof -
  have "\<exists>q \<in> set (chat_sessions db). cs_id q = cs_id r \<and>
      (cs_focus r = cs_focus q \<or> (cs_id r = sid \<and> cs_focus r = Some (topic_seq db)))"
    if "r \<in> set (chat_sessions (snd (insert_topic_row sid parent title input execution now db)))" for r
    using that by (auto simp: insert_topic_row_def Let_def set_focus_row_def split: option.splits if_splits)
  then show ?thesis using assms unfolding focus_ok_def belongs_insert by fastforce
qed

text \<open>The deletion: the rows of the other sessions stay.\<close>

lemma belongs_delete:
  assumes "topics_ok db" "belongs db j i" "j \<noteq> sid"
  shows "belongs (delete_session sid from_month db) j i"
proof -
  obtain t where t: "t \<in> set (topics_table db)" "tp_id t = i" "tp_session t = j"
    using assms(2) by (auto simp: belongs_def)
  have "tp_id q \<noteq> i" if "q \<in> set (topics_table db)" "tp_session q = sid" for q
    using assms(1,3) t that by (auto simp: topics_ok_def distinct_map inj_on_def)
  with t show ?thesis unfolding belongs_def delete_session_def Let_def by (simp add: image_iff) metis
qed

lemma delete_tables:
  "set (topics_table (delete_session sid from_month db)) \<subseteq> set (topics_table db)"
  "set (chat_sessions (delete_session sid from_month db)) = {r \<in> set (chat_sessions db). cs_id r \<noteq> sid}"
  "topic_seq (delete_session sid from_month db) = topic_seq db"
  by (auto simp: delete_session_def Let_def)

lemma delete_keeps_topics_ok: "topics_ok db \<Longrightarrow> topics_ok (delete_session sid from_month db)"
  by (auto simp: topics_ok_def delete_session_def Let_def distinct_map_filter)

lemma delete_keeps_slots_ok:
  assumes "slots_ok db"
  shows "slots_ok (delete_session sid from_month db)"
proof -
  have "length (topics_in (delete_session sid from_month db) j sts) \<le> length (topics_in db j sts)" for j sts
    unfolding topics_in_def delete_session_def Let_def
    by (simp add: length_filter_le filter_filter conj_commute) (metis filter_filter length_filter_le)
  with assms show ?thesis unfolding slots_ok_def by (meson le_trans)
qed

lemma delete_keeps_focus_ok:
  assumes "topics_ok db" "focus_ok db"
  shows "focus_ok (delete_session sid from_month db)"
  using assms belongs_delete [OF assms(1)] by (simp add: focus_ok_def delete_tables)

text \<open>The end of a topic frees its slot and moves the focus to a topic of the same session.\<close>

lemma belongs_mem: "t \<in> set (topics_table db) \<Longrightarrow> belongs db (tp_session t) (tp_id t)"
  by (auto simp: belongs_def)

lemma belongs_oldest: "oldest (topics_in db sid sts) = Some t \<Longrightarrow> belongs db sid (tp_id t)"
  using belongs_mem [of t db] by (auto dest!: oldest_mem simp: topics_in_def)

lemma move_focus_tables:
  "topics_table (snd (move_focus_off_completed r i db)) = topics_table db"
  "topic_seq (snd (move_focus_off_completed r i db)) = topic_seq db"
  "cs_id ` set (chat_sessions (snd (move_focus_off_completed r i db))) = cs_id ` set (chat_sessions db)"
  by (simp_all add: move_focus_off_completed_def Let_def chat_frame)

lemma move_focus_keeps_focus_ok: "focus_ok db \<Longrightarrow> focus_ok (snd (move_focus_off_completed r i db))"
  by (auto simp: move_focus_off_completed_def Let_def intro!: focus_ok_set_focus belongs_oldest)

lemma finish_row_cases:
  obtains "snd (finish_row i st summary now r db) =
      update_topic i (\<lambda>t. t\<lparr>tp_status := st, tp_result_summary := summary, tp_updated_at := now\<rparr>) db"
  | "snd (finish_row i st summary now r db) = snd (move_focus_off_completed r i
      (update_topic i (\<lambda>t. t\<lparr>tp_status := st, tp_result_summary := summary, tp_updated_at := now\<rparr>) db))"
  by (cases "st = TopicCompleted") (simp_all add: finish_row_def Let_def)

lemma update_topic_keeps:
  assumes "topics_ok db" "slots_ok db" "focus_ok db"
    and "\<And>t. tp_id (g t) = tp_id t" "\<And>t. tp_session (g t) = tp_session t"
    and "\<And>t. tp_status (g t) = TopicRunning \<Longrightarrow> tp_execution (g t) \<noteq> None"
    and "\<And>t. t \<in> set (topics_table db) \<Longrightarrow> tp_id t = i \<Longrightarrow> tp_status (g t) = TopicRunning \<Longrightarrow>
      tp_status t \<noteq> TopicRunning \<Longrightarrow> admission_status db (tp_session t) = TopicRunning"
  shows "topics_ok (update_topic i g db)" "slots_ok (update_topic i g db)" "focus_ok (update_topic i g db)"
    "belongs (update_topic i g db) = belongs db"
proof -
  show "topics_ok (update_topic i g db)" using assms(1,4,6) by (rule topics_ok_update_topic)
  show "slots_ok (update_topic i g db)" using assms(1,2,5,7) by (rule slots_ok_update_topic)
  show same: "belongs (update_topic i g db) = belongs db" using assms(4,5) by (rule belongs_update_topic)
  show "focus_ok (update_topic i g db)" using assms(3) by (simp add: focus_ok_def same chat_frame)
qed

lemma promote_keeps:
  assumes "topics_ok db" "slots_ok db" "focus_ok db" "next_queued db sid = Some t"
  shows "topics_ok (promote_row (tp_id t) execution now db)" "slots_ok (promote_row (tp_id t) execution now db)"
    "focus_ok (promote_row (tp_id t) execution now db)"
    "belongs (promote_row (tp_id t) execution now db) = belongs db"
proof -
  have open_slot: "admission_status db sid = TopicRunning" and t: "t \<in> set (topics_table db)" "tp_session t = sid"
    using assms(4) by (auto simp: next_queued_def topics_in_def dest!: oldest_mem split: if_splits)
  have same: "q = t" if "q \<in> set (topics_table db)" "tp_id q = tp_id t" for q
    using assms(1) t(1) that by (auto simp: topics_ok_def distinct_map inj_on_def)
  show "topics_ok (promote_row (tp_id t) execution now db)" "slots_ok (promote_row (tp_id t) execution now db)"
    "focus_ok (promote_row (tp_id t) execution now db)"
    "belongs (promote_row (tp_id t) execution now db) = belongs db"
    unfolding promote_row_def using assms(1-3) open_slot t(2) same
    by (auto intro!: update_topic_keeps)
qed

lemma finish_keeps:
  assumes "topics_ok db" "slots_ok db" "focus_ok db" "st \<noteq> TopicRunning"
  shows "topics_ok (snd (finish_row i st summary now r db))" "slots_ok (snd (finish_row i st summary now r db))"
    "focus_ok (snd (finish_row i st summary now r db))"
    "belongs (snd (finish_row i st summary now r db)) = belongs db"
    "cs_id ` set (chat_sessions (snd (finish_row i st summary now r db))) = cs_id ` set (chat_sessions db)"
proof -
  let ?db = "update_topic i (\<lambda>t. t\<lparr>tp_status := st, tp_result_summary := summary, tp_updated_at := now\<rparr>) db"
  let ?moved = "snd (move_focus_off_completed r i ?db)"
  have updated: "topics_ok ?db" "slots_ok ?db" "focus_ok ?db" "belongs ?db = belongs db"
    using assms by (auto intro!: update_topic_keeps)
  moreover have "topics_ok ?moved" "slots_ok ?moved" "belongs ?moved = belongs db" "focus_ok ?moved"
    using updated same_topics [OF move_focus_tables(1,2), of r i ?db] by (simp_all add: move_focus_keeps_focus_ok)
  ultimately show "topics_ok (snd (finish_row i st summary now r db))"
    "slots_ok (snd (finish_row i st summary now r db))" "focus_ok (snd (finish_row i st summary now r db))"
    "belongs (snd (finish_row i st summary now r db)) = belongs db"
    "cs_id ` set (chat_sessions (snd (finish_row i st summary now r db))) = cs_id ` set (chat_sessions db)"
    by (cases rule: finish_row_cases [of i st summary now r db]; simp add: move_focus_tables chat_frame)+
qed

lemma sys_ok_parts:
  assumes "sys_ok y"
  shows "topics_ok (tables y)" "slots_ok (tables y)" "focus_ok (tables y)"
    "cs_id ` set (chat_sessions (tables y)) \<subseteq> drawn_ids y" "fst ` pending_focus y \<subseteq> drawn_ids y"
  using assms by (simp_all add: sys_ok_def)

lemma sys_ok_pending:
  assumes "sys_ok y" "(sid, i) \<in> pending_focus y" "sid \<in> cs_id ` set (chat_sessions (tables y))"
  shows "belongs (tables y) sid i"
  using assms by (fastforce simp: sys_ok_def)

lemma sys_ok_tables:
  assumes y: "sys_ok y" and db: "topics_ok db" "slots_ok db" "focus_ok db"
    and sessions: "cs_id ` set (chat_sessions db) \<subseteq> cs_id ` set (chat_sessions (tables y))"
    and kept: "\<And>sid i. belongs (tables y) sid i \<Longrightarrow> sid \<in> cs_id ` set (chat_sessions db) \<Longrightarrow> belongs db sid i"
  shows "sys_ok (y\<lparr>tables := db\<rparr>)"
proof -
  have "\<forall>(sid, i) \<in> pending_focus y. sid \<in> cs_id ` set (chat_sessions db) \<longrightarrow> belongs db sid i"
  proof clarify
    fix sid i r
    assume pending: "(cs_id r, i) \<in> pending_focus y" and r: "r \<in> set (chat_sessions db)"
    then have mem: "cs_id r \<in> cs_id ` set (chat_sessions db)" by (intro imageI)
    with sessions have "cs_id r \<in> cs_id ` set (chat_sessions (tables y))" by (rule subsetD)
    with y pending have "belongs (tables y) (cs_id r) i" by (rule sys_ok_pending)
    then show "belongs db (cs_id r) i" using mem by (rule kept)
  qed
  moreover have "cs_id ` set (chat_sessions db) \<subseteq> drawn_ids y"
    using sessions sys_ok_parts(4) [OF y] by (rule subset_trans)
  ultimately show ?thesis using db sys_ok_parts(5) [OF y] by (simp add: sys_ok_def)
qed

text \<open>A new session: an id nobody drew before, so no move of a focus is pending on it.\<close>

lemma insert_session_cases:
  obtains "insert_session i u now db = db"
  | "chat_sessions (insert_session i u now db) =
      chat_sessions db @ [\<lparr>cs_id = i, cs_user = u, cs_focus = None, cs_created_at = now\<rparr>]"
  by (cases "list_ex (\<lambda>r. cs_user r = u) (chat_sessions db)") (simp_all add: insert_session_def)

lemma open_session_keeps:
  assumes "sys_ok y" "i \<notin> drawn_ids y"
  shows "sys_ok (y\<lparr>tables := insert_session i u now (tables y), drawn_ids := insert i (drawn_ids y)\<rparr>)"
proof -
  let ?db = "insert_session i u now (tables y)"
  have same: "topics_ok ?db = topics_ok (tables y)" "slots_ok ?db = slots_ok (tables y)"
    "belongs ?db = belongs (tables y)"
    by (rule same_topics; simp add: chat_frame)+
  have sessions: "cs_id ` set (chat_sessions ?db) \<subseteq> insert i (cs_id ` set (chat_sessions (tables y)))"
    and "focus_ok ?db"
    using sys_ok_parts(3) [OF assms(1)]
    by (cases rule: insert_session_cases [of i u now "tables y"]; auto simp: focus_ok_def same)+
  moreover have "\<forall>(sid, k) \<in> pending_focus y. sid \<in> cs_id ` set (chat_sessions ?db) \<longrightarrow> belongs (tables y) sid k"
  proof clarify
    fix k r
    assume pending: "(cs_id r, k) \<in> pending_focus y" and "r \<in> set (chat_sessions ?db)"
    then have "cs_id r \<in> insert i (cs_id ` set (chat_sessions (tables y)))" using sessions by blast
    moreover have "cs_id r \<noteq> i" using sys_ok_parts(5) [OF assms(1)] assms(2) pending by force
    ultimately have "cs_id r \<in> cs_id ` set (chat_sessions (tables y))" by blast
    with assms(1) pending show "belongs (tables y) (cs_id r) k" by (rule sys_ok_pending)
  qed
  moreover have "cs_id ` set (chat_sessions ?db) \<subseteq> insert i (drawn_ids y)"
    using sessions sys_ok_parts(4) [OF assms(1)] by blast
  ultimately show ?thesis using sys_ok_parts [OF assms(1)] by (auto simp: sys_ok_def same)
qed

lemma quiet_keeps:
  assumes "sys_ok y" "topics_table db = topics_table (tables y)" "topic_seq db = topic_seq (tables y)"
    and "chat_sessions db = chat_sessions (tables y)"
  shows "sys_ok (y\<lparr>tables := db\<rparr>)"
proof (rule sys_ok_tables [OF assms(1)])
  show "topics_ok db" "slots_ok db" "focus_ok db"
    using same_topics [OF assms(2,3)] sys_ok_parts [OF assms(1)] assms(4) by (simp_all add: focus_ok_def)
qed (simp_all add: assms(4) same_topics [OF assms(2,3)])

lemma topic_by_id_mem:
  assumes "topic_by_id db i = Some t"
  shows "t \<in> set (topics_table db)" "tp_id t = i"
  using assms by (auto simp: topic_by_id_def find_Some_iff)

lemma check_focus_keeps:
  assumes "sys_ok y" "sid \<in> drawn_ids y" "topic_by_id (tables y) i = Some t" "tp_session t = sid"
  shows "sys_ok (y\<lparr>pending_focus := insert (sid, i) (pending_focus y)\<rparr>)"
proof -
  have "belongs (tables y) sid i"
    using belongs_mem [OF topic_by_id_mem(1) [OF assms(3)]] topic_by_id_mem(2) [OF assms(3)] assms(4) by simp
  then show ?thesis using assms(1,2) by (simp add: sys_ok_def)
qed

lemma move_focus_keeps:
  assumes "sys_ok y" "(sid, i) \<in> pending_focus y"
  shows "sys_ok (y\<lparr>tables := set_focus_row sid (Some i) (tables y)\<rparr>)"
proof (rule sys_ok_tables [OF assms(1)])
  let ?db = "set_focus_row sid (Some i) (tables y)"
  show "topics_ok ?db" "slots_ok ?db"
    using sys_ok_parts [OF assms(1)] same_topics [of ?db "tables y"] by (simp_all add: chat_frame)
  show "focus_ok ?db"
    using sys_ok_parts(3) [OF assms(1)] sys_ok_pending [OF assms] by (intro focus_ok_set_focus) simp_all
qed (simp_all add: chat_frame same_topics(3) [of "set_focus_row sid (Some i) (tables y)" "tables y"])

lemma insert_topic_keeps:
  assumes "sys_ok y" "execution \<noteq> None \<longleftrightarrow> admission_status (tables y) sid = TopicRunning"
  shows "sys_ok (y\<lparr>tables := snd (insert_topic_row sid parent title input execution now (tables y))\<rparr>)"
  using assms sys_ok_parts [OF assms(1)]
  by (intro sys_ok_tables insert_keeps_topics_ok insert_keeps_slots_ok insert_keeps_focus_ok)
    (simp_all add: insert_topic_row_tables belongs_insert)

lemma delete_keeps:
  assumes "sys_ok y"
  shows "sys_ok (y\<lparr>tables := delete_session sid from_month (tables y)\<rparr>)"
  using assms sys_ok_parts [OF assms]
  by (intro sys_ok_tables delete_keeps_topics_ok delete_keeps_slots_ok delete_keeps_focus_ok)
    (auto simp: delete_tables intro: belongs_delete)

section \<open>Every reachable state\<close>

lemma step_keeps: "chat_step y z \<Longrightarrow> sys_ok y \<Longrightarrow> sys_ok z"
proof (induction rule: chat_step.induct)
  case (promote y sid r t execution now)
  then show ?case
    using sys_ok_parts [OF promote.prems] promote_keeps [of "tables y" sid t]
    by (intro sys_ok_tables) (simp_all add: promote_row_def chat_frame)
next
  case (finish y i r st summary now)
  then have "st \<noteq> TopicRunning" by auto
  with finish show ?case
    using sys_ok_parts [OF finish.prems] finish_keeps [of "tables y" st]
    by (intro sys_ok_tables) simp_all
qed (simp_all add: open_session_keeps check_focus_keeps move_focus_keeps insert_topic_keeps delete_keeps
  quiet_keeps chat_frame)

lemma reachable_ok: "chat_reachable y \<Longrightarrow> sys_ok y"
proof (induction rule: rtranclp_induct)
  case base
  show ?case
    by (simp add: start_sys_def empty_chat_db_def sys_ok_def topics_ok_def slots_ok_def topics_in_def focus_ok_def)
qed (rule step_keeps)

text \<open>C10: however the requests of a user, the watchers and the promotions interleave, at most three topics of a
session are running at any moment.\<close>

theorem at_most_three_topics_run:
  assumes "chat_reachable y"
  shows "length (topics_in (tables y) sid {TopicRunning}) \<le> 3"
  using sys_ok_parts(2) [OF reachable_ok [OF assms]] by (simp add: slots_ok_def MAX_CONCURRENT_TOPICS_def)

text \<open>However requests and watchers interleave, and even though a focus is checked and moved in two
statements, the focus of a session is a topic of that same session.\<close>

lemma focus_points_into_its_session:
  assumes "chat_reachable y" and "r \<in> set (chat_sessions (tables y))" and "cs_focus r = Some i"
  shows "\<exists>t \<in> set (topics_table (tables y)). tp_id t = i \<and> tp_session t = cs_id r"
  using sys_ok_parts(3) [OF reachable_ok [OF assms(1)]] assms(2,3) by (fastforce simp: focus_ok_def belongs_def)

end
