(* ===== verification/Chat_Delivery.thy ===== *)
theory Chat_Delivery
  imports Chat_Turn Chat_Queue
begin

text \<open>
  A turn is delivered once: a message that names the turn is written to every topic that received it, after
  it did, and to no other; a turn that fails or is answered otherwise leaves none. The proofs follow what a
  request does to the tables through a triple over them.
\<close>

section \<open>Triples over the tables\<close>

definition holds :: "(chat_db \<Rightarrow> bool) \<Rightarrow> ('w chat, 'a) state \<Rightarrow> ('a \<Rightarrow> chat_db \<Rightarrow> bool) \<Rightarrow> bool" where
  "holds P m Q \<longleftrightarrow> (\<forall>y r y'. P (cdb y) \<longrightarrow> run_state m y = (r, y') \<longrightarrow> Q r (cdb y'))"

lemma holdsI: "(\<And>y r y'. P (cdb y) \<Longrightarrow> run_state m y = (r, y') \<Longrightarrow> Q r (cdb y')) \<Longrightarrow> holds P m Q"
  by (auto simp: holds_def)

lemma holdsD: "holds P m Q \<Longrightarrow> run_state m y = (r, y') \<Longrightarrow> P (cdb y) \<Longrightarrow> Q r (cdb y')"
  by (auto simp: holds_def)

lemma holds_return: "(\<And>db. P db \<Longrightarrow> Q x db) \<Longrightarrow> holds P (State_Monad.return x) Q"
  by (auto simp: holds_def)

lemma holds_bind:
  assumes "holds P m R" and "\<And>x. holds (R x) (f x) Q"
  shows "holds P (State_Monad.bind m f) Q"
proof (rule holdsI)
  fix y r y' assume "P (cdb y)" and run: "run_state (State_Monad.bind m f) y = (r, y')"
  obtain x z where m: "run_state m y = (x, z)" by fastforce
  with run have "run_state (f x) z = (r, y')" by simp
  then show "Q r (cdb y')" using holdsD [OF assms(1) m \<open>P (cdb y)\<close>] by (rule holdsD [OF assms(2)])
qed

text \<open>Steps that keep what was known.\<close>

lemma holds_then: "holds P m (\<lambda>_. P) \<Longrightarrow> (\<And>x. holds P (f x) Q) \<Longrightarrow> holds P (State_Monad.bind m f) Q"
  by (rule holds_bind)

lemma holds_attempted:
  assumes "holds P m (\<lambda>r db. case r of Inl e \<Rightarrow> Q (Inl e) db | Inr x \<Rightarrow> R x db)"
    and "\<And>x. holds (R x) (f x) Q"
  shows "holds P (attempted m f) Q"
  unfolding attempted_def
proof (rule holds_bind [OF assms(1)])
  fix r show "holds (\<lambda>db. case r of Inl e \<Rightarrow> Q (Inl e) db | Inr x \<Rightarrow> R x db)
      (case r of Inl e \<Rightarrow> State_Monad.return (Inl e) | Inr x \<Rightarrow> f x) Q"
    by (cases r) (simp_all add: assms(2) holds_return)
qed

lemma holds_outside: "(\<And>r db. P db \<Longrightarrow> Q r db) \<Longrightarrow> holds P (outside m) Q"
  by (auto simp: holds_def outside_def split: prod.splits)

lemma holds_reading: "(\<And>db. P db \<Longrightarrow> Q (f db) db) \<Longrightarrow> holds P (reading f) Q"
  by (auto simp: holds_def reading_def)

lemma holds_writing: "(\<And>db. P db \<Longrightarrow> Q () (f db)) \<Longrightarrow> holds P (writing f) Q"
  by (auto simp: holds_def writing_def)

lemma holds_tell: "(\<And>db. P db \<Longrightarrow> Q () db) \<Longrightarrow> holds P (tell_live_subscribers es) Q"
  by (auto simp: holds_def tell_live_subscribers_def)

lemma holds_spawn: "(\<And>db. P db \<Longrightarrow> Q () db) \<Longrightarrow> holds P (spawn_watch i execution) Q"
  by (auto simp: holds_def spawn_watch_def)

lemma holds_weaken: "holds P m Q \<Longrightarrow> (\<And>r db. Q r db \<Longrightarrow> R r db) \<Longrightarrow> holds P m R"
  by (auto simp: holds_def)

lemma holds_pre: "holds P m Q \<Longrightarrow> (\<And>db. P' db \<Longrightarrow> P db) \<Longrightarrow> holds P' m Q"
  by (auto simp: holds_def)

text \<open>What does not look at the event log is kept by everything that is published.\<close>

definition quiet :: "(chat_db \<Rightarrow> bool) \<Rightarrow> bool" where
  "quiet P \<longleftrightarrow> (\<forall>db row. P db \<longrightarrow> P (insert_event_row row db))"

lemma quiet_rows: "quiet P \<Longrightarrow> P db \<Longrightarrow> P (fold insert_event_row rows db)"
  by (induction rows arbitrary: db) (auto simp: quiet_def)

lemma stays_outside: "holds P (outside m) (\<lambda>_. P)"
  by (rule holds_outside)

lemma stays_rows_for: "holds P (rows_for s es) (\<lambda>_. P)"
proof (induction es)
  case (Cons e es)
  then show ?case by (auto intro!: holds_then [OF stays_outside] holds_then [OF Cons] holds_return)
qed (simp add: holds_return)

lemma stays_store_events: "quiet P \<Longrightarrow> holds P (store_events s es) (\<lambda>_. P)"
  unfolding store_events_def by (rule holds_then [OF stays_rows_for]) (auto intro!: holds_writing quiet_rows)

lemma stays_tell: "holds P (tell_live_subscribers es) (\<lambda>_. P)"
  by (rule holds_tell)

lemma stays_publish_all: "quiet P \<Longrightarrow> holds P (publish_all s es) (\<lambda>_. P)"
  unfolding publish_all_def by (simp add: holds_then stays_store_events stays_tell)

lemma stays_publish: "quiet P \<Longrightarrow> holds P (publish s sid i k t body) (\<lambda>_. P)"
  unfolding publish_def new_event_def
  by (simp add: holds_then stays_outside holds_return stays_publish_all)

lemma stays_publish_now: "quiet P \<Longrightarrow> holds P (publish_now s sid i k body) (\<lambda>_. P)"
  unfolding publish_now_def by (simp add: holds_then stays_outside stays_publish)

lemma stays_announce: "quiet P \<Longrightarrow> holds P (announce_topic s r parent row) (\<lambda>_. P)"
  unfolding announce_topic_def by (simp add: holds_then stays_publish)

section \<open>What a delivery keeps in sight\<close>

definition session_is :: "chat_db \<Rightarrow> uuid \<Rightarrow> uuid \<Rightarrow> bool" where
  "session_is db u sid \<longleftrightarrow> (\<exists>r. session_of_user db u = Some r \<and> cs_id r = sid)"

text \<open>
  Since \<open>db0\<close> no message was written, the topics that joined the session are new, and those of \<open>known\<close> are
  its topics.
\<close>

definition tracked :: "chat_db \<Rightarrow> uuid \<Rightarrow> uuid \<Rightarrow> int set \<Rightarrow> chat_db \<Rightarrow> bool" where
  "tracked db0 u sid known db \<longleftrightarrow>
     chat_messages db = chat_messages db0 \<and> topics_ok db \<and> topic_seq db0 \<le> topic_seq db \<and>
     (\<forall>i. belongs db sid i \<longrightarrow> belongs db0 sid i \<or> topic_seq db0 \<le> i) \<and>
     (\<forall>i \<in> known. belongs db sid i) \<and> session_is db u sid"

lemma tracked_fewer: "tracked db0 u sid known db \<Longrightarrow> fewer \<subseteq> known \<Longrightarrow> tracked db0 u sid fewer db"
  by (auto simp: tracked_def)

lemma frames_event:
  "chat_messages (insert_event_row row db) = chat_messages db"
  "session_is (insert_event_row row db) u sid = session_is db u sid"
  "topics_ok (insert_event_row row db) = topics_ok db"
  "belongs (insert_event_row row db) = belongs db"
  using same_topics [of "insert_event_row row db" db]
  by (simp_all add: chat_frame insert_event_row_def session_is_def session_of_user_def)

lemma quiet_tracked: "quiet (tracked db0 u sid known)"
  by (simp add: quiet_def tracked_def frames_event chat_frame)

lemma session_found:
  assumes "session_is db u sid"
  shows "\<exists>r. found_session sid db = Inr r"
proof -
  obtain r where "List.find (\<lambda>r. cs_user r = u) (chat_sessions db) = Some r" and "cs_id r = sid"
    using assms by (auto simp: session_is_def session_of_user_def)
  moreover from this have "r \<in> set (chat_sessions db)" by (auto simp: find_Some_iff)
  ultimately have "r \<in> set (chat_sessions db)" "cs_id r = sid" by simp_all
  then have "session_by_id db sid \<noteq> None" by (auto simp: session_by_id_def find_None_iff)
  then show ?thesis by (auto simp: found_session_def)
qed

lemma find_map_same:
  "(\<And>r. P (f r) = P r) \<Longrightarrow> List.find P (map f rs) = map_option f (List.find P rs)"
  by (induction rs) auto

lemma session_is_set_focus [simp]: "session_is (set_focus_row j f db) u sid = session_is db u sid"
proof -
  let ?g = "\<lambda>r. if cs_id r = j then r\<lparr>cs_focus := f\<rparr> else r"
  have "session_of_user (set_focus_row j f db) u = map_option ?g (session_of_user db u)"
    unfolding session_of_user_def set_focus_row_def by (simp add: find_map_same)
  moreover have "cs_id (?g r) = cs_id r" for r by simp
  ultimately show ?thesis unfolding session_is_def by (cases "session_of_user db u") (simp_all del: if_split)
qed

lemma session_is_insert_topic:
  "session_is (snd (insert_topic_row j parent title input execution now db)) u sid = session_is db u sid"
proof -
  have same: "session_is (db\<lparr>topics_table := ts, topic_seq := n\<rparr>) u sid = session_is db u sid" for ts n
    by (simp add: session_is_def session_of_user_def)
  show ?thesis by (simp add: insert_topic_row_def Let_def same split: option.split)
qed

lemma messages_insert_topic:
  "chat_messages (snd (insert_topic_row j parent title input execution now db)) = chat_messages db"
  by (simp add: insert_topic_row_def Let_def set_focus_row_def split: option.split)

lemma tracked_insert:
  assumes "tracked db0 u sid known db" "execution \<noteq> None \<longleftrightarrow> admission_status db sid = TopicRunning"
  shows "tracked db0 u sid (insert (topic_seq db) known)
    (snd (insert_topic_row sid parent title input execution now db))"
  using assms insert_keeps_topics_ok [of db execution sid]
  by (auto simp: tracked_def belongs_insert insert_topic_row_tables session_is_insert_topic messages_insert_topic)

section \<open>The steps of a delivery\<close>

lemma get_session_found:
  assumes "\<And>db. P db \<Longrightarrow> session_is db u sid"
  shows "holds P (get_or_create_session s u) (\<lambda>r db. case r of Inl e \<Rightarrow> False | Inr x \<Rightarrow> cs_id x = sid \<and> P db)"
proof (rule holdsI)
  fix y r y'
  assume "P (cdb y)" "run_state (get_or_create_session s u) y = (r, y')"
  moreover from this obtain x where "session_of_user (cdb y) u = Some x" "cs_id x = sid"
    using assms by (auto simp: session_is_def)
  ultimately show "case r of Inl e \<Rightarrow> False | Inr x \<Rightarrow> cs_id x = sid \<and> P (cdb y')"
    by (auto simp: get_or_create_session_def reading_def)
qed

lemma get_session_in_sight:
  "holds (tracked db0 u sid known) (get_or_create_session s u)
     (\<lambda>r db. case r of Inl e \<Rightarrow> False | Inr x \<Rightarrow> cs_id x = sid \<and> tracked db0 u sid known db)"
  by (rule get_session_found) (simp add: tracked_def)

lemma start_in_sight:
  "holds (\<lambda>db. tracked db0 u sid known db \<and> admission_status db sid = st) (start_if_admitted s locked input continues st)
     (\<lambda>r db. case r of Inl e \<Rightarrow> tracked db0 u sid known db
        | Inr execution \<Rightarrow> tracked db0 u sid known db \<and> (execution \<noteq> None \<longleftrightarrow> admission_status db sid = TopicRunning))"
  unfolding start_if_admitted_def
  by (auto intro!: holds_then [OF stays_outside] holds_return split: sum.splits)

lemma insert_admitted_in_sight:
  "holds (\<lambda>db. tracked db0 u sid known db \<and> (execution \<noteq> None \<longleftrightarrow> admission_status db sid = TopicRunning))
     (insert_admitted s sid parent title input execution)
     (\<lambda>r db. case r of Inl e \<Rightarrow> tracked db0 u sid known db
        | Inr row \<Rightarrow> tracked db0 u sid (insert (tp_id row) known) db)"
  (is "holds ?P _ ?Q")
  unfolding insert_admitted_def
proof (rule holds_then [OF stays_outside])
  fix now
  let ?row = "\<lambda>db. fst (insert_topic_row sid parent title input execution now db)"
  show "holds ?P
      (do { row \<leftarrow> reading ?row;
            writing (\<lambda>db. snd (insert_topic_row sid parent title input execution now db));
            State_Monad.return (Inr row) }) ?Q"
    by (rule holds_bind [where R = "\<lambda>row db. ?P db \<and> row = ?row db"], force intro: holds_reading,
        rule holds_bind [where R = "\<lambda>_. ?Q (Inr _)"])
      (auto intro!: holds_writing holds_return tracked_insert)
qed

lemma insert_topic_in_sight:
  "holds (tracked db0 u sid known) (insert_topic s sid parent title input continues)
     (\<lambda>r db. case r of Inl e \<Rightarrow> tracked db0 u sid known db
        | Inr row \<Rightarrow> tracked db0 u sid (insert (tp_id row) known) db)"
  (is "holds ?T _ ?Q")
  unfolding insert_topic_def
proof (rule holds_attempted [where R = "\<lambda>_. ?T"])
  show "holds ?T (reading (found_session sid)) (\<lambda>r db. case r of Inl e \<Rightarrow> ?Q (Inl e) db | Inr x \<Rightarrow> ?T db)"
    by (rule holds_reading) (auto split: sum.splits)
next
  fix locked
  show "holds ?T (do {
         st \<leftarrow> reading (\<lambda>db. admission_status db sid);
         attempted (start_if_admitted s locked input continues st)
           (insert_admitted s sid parent title input)
       }) ?Q"
  proof (rule holds_bind [where R = "\<lambda>st db. ?T db \<and> admission_status db sid = st"])
    show "holds ?T (reading (\<lambda>db. admission_status db sid)) (\<lambda>st db. ?T db \<and> admission_status db sid = st)"
      by (rule holds_reading) simp
  next
    fix st
    show "holds (\<lambda>db. ?T db \<and> admission_status db sid = st)
        (attempted (start_if_admitted s locked input continues st) (insert_admitted s sid parent title input)) ?Q"
      by (rule holds_attempted [OF _ insert_admitted_in_sight], rule holds_weaken [OF start_in_sight])
        (auto split: sum.splits)
  qed
qed

text \<open>What an outcome adds to the topics that are known to be of the session.\<close>

definition in_sight ::
  "chat_db \<Rightarrow> uuid \<Rightarrow> uuid \<Rightarrow> int set \<Rightarrow> ('a \<Rightarrow> int set) \<Rightarrow> chat_error + 'a \<Rightarrow> chat_db \<Rightarrow> bool" where
  "in_sight db0 u sid known new r db =
     (case r of Inl e \<Rightarrow> tracked db0 u sid known db | Inr x \<Rightarrow> tracked db0 u sid (known \<union> new x) db)"

lemma in_sight_simps [simp]:
  "in_sight db0 u sid known new (Inl e) = tracked db0 u sid known"
  "in_sight db0 u sid known new (Inr x) = tracked db0 u sid (known \<union> new x)"
  by (simp_all add: in_sight_def fun_eq_iff)

text \<open>A question mark in the middle of a delivery.\<close>

lemma in_sight_attempted:
  assumes "holds (tracked db0 u sid known) m (in_sight db0 u sid known new)"
    and "\<And>x. holds (tracked db0 u sid (known \<union> new x)) (f x) Q"
    and "\<And>e db. tracked db0 u sid known db \<Longrightarrow> Q (Inl e) db"
  shows "holds (tracked db0 u sid known) (attempted m f) Q"
  by (rule holds_attempted [OF _ assms(2)], rule holds_weaken [OF assms(1)])
    (auto simp: in_sight_def assms(3) split: sum.splits)

lemma create_in_sight:
  "holds (tracked db0 u sid known) (create_topic_continuing s u parent title input continues)
     (in_sight db0 u sid known (\<lambda>(i, _). {i}))"
  unfolding create_topic_continuing_def
proof (rule holds_attempted [where R = "\<lambda>r db. cs_id r = sid \<and> tracked db0 u sid known db"])
  show "holds (tracked db0 u sid known) (get_or_create_session s u)
      (\<lambda>r db. case r of Inl e \<Rightarrow> in_sight db0 u sid known (\<lambda>(i, _). {i}) (Inl e) db
         | Inr x \<Rightarrow> cs_id x = sid \<and> tracked db0 u sid known db)"
    by (rule holds_weaken [OF get_session_in_sight]) (auto split: sum.splits)
next
  fix r
  let ?f = "\<lambda>row. do {
        announce_topic s r parent row;
        (case (tp_status row, tp_execution row) of
           (TopicRunning, Some execution) \<Rightarrow> spawn_watch (tp_id row) execution
         | _ \<Rightarrow> State_Monad.return ());
        State_Monad.return (Inr (tp_id row, tp_status row)) }"
  have watch: "holds P (case (tp_status row, tp_execution row) of
           (TopicRunning, Some execution) \<Rightarrow> spawn_watch (tp_id row) execution
         | _ \<Rightarrow> State_Monad.return ()) (\<lambda>_. P)" for P and row :: topic
    by (auto split: topic_status.split option.split intro: holds_return holds_spawn)
  have told: "holds (tracked db0 u sid (insert (tp_id row) known)) (?f row) (in_sight db0 u sid known (\<lambda>(i, _). {i}))" for row
    by (rule holds_then [OF stays_announce [OF quiet_tracked]], rule holds_then [OF watch]) (auto intro: holds_return)
  have "holds (tracked db0 u sid known) (attempted (insert_topic s sid parent title input continues) ?f)
      (in_sight db0 u sid known (\<lambda>(i, _). {i}))"
    by (rule holds_attempted [OF _ told], rule holds_weaken [OF insert_topic_in_sight]) (auto split: sum.splits)
  then show "holds (\<lambda>db. cs_id r = sid \<and> tracked db0 u sid known db)
      (attempted (insert_topic s (cs_id r) parent title input continues) ?f)
      (in_sight db0 u sid known (\<lambda>(i, _). {i}))"
    by (auto simp: holds_def)
qed

definition delivery_ids :: "delivery \<Rightarrow> int set" where
  "delivery_ids d = (case d of Existing i \<Rightarrow> {i} | Child i \<Rightarrow> {i} | Refused e \<Rightarrow> {})"

lemma continue_in_sight:
  assumes "tp_id t \<in> known"
  shows "holds (tracked db0 u sid known) (apply_continue s u t said) (in_sight db0 u sid known delivery_ids)"
proof -
  have kept: "known \<union> delivery_ids (Existing (tp_id t)) = known" using assms by (auto simp: delivery_ids_def)
  have child: "holds (tracked db0 u sid known) (continue_in_child s u t said) (in_sight db0 u sid known (\<lambda>i. {i}))"
    unfolding continue_in_child_def
    by (rule in_sight_attempted [OF create_in_sight]) (auto intro: holds_return split: prod.splits)
  have completed: "holds (tracked db0 u sid known)
      (attempted (continue_in_child s u t said) (\<lambda>child. State_Monad.return (Inr (Child child))))
      (in_sight db0 u sid known delivery_ids)"
    by (rule in_sight_attempted [OF child]) (auto intro: holds_return simp: delivery_ids_def)
  have running: "holds (tracked db0 u sid known) (attempted (reading (found_session (tp_session t))) (\<lambda>r.
        do {
          answered \<leftarrow> outside (engine_interrupt s (principal_of s r) execution
            (json_text s (execution_input_json said)));
          State_Monad.return (case answered of
            Inl e \<Rightarrow> Inl (engine_call_error s (tp_id t) e)
          | Inr _ \<Rightarrow> Inr (Existing (tp_id t)))
        })) (in_sight db0 u sid known delivery_ids)" for execution
    by (rule holds_attempted [where R = "\<lambda>_. tracked db0 u sid known"])
      (auto intro!: holds_reading holds_then [OF stays_outside] holds_return simp: kept split: sum.splits)
  show ?thesis
    unfolding apply_continue_def using completed running
    by (auto intro!: holds_return simp: kept delivery_ids_def insert_absorb [OF assms]
        split: topic_status.split option.split)
qed

definition tally_ids :: "turn_tally \<Rightarrow> int set" where
  "tally_ids acc = set (received acc) \<union> set_option (new_focus acc)"

lemma tally_delivery_ids: "tally_ids (tally_delivery acc d) \<subseteq> tally_ids acc \<union> delivery_ids d"
  by (cases d) (auto simp: tally_ids_def delivery_ids_def first_of_both_def or_else_def split: option.splits)

lemma each_in_sight:
  assumes "set (map tp_id ts) \<subseteq> known"
  shows "holds (tracked db0 u sid (known \<union> tally_ids acc)) (apply_each s u ts said actions acc)
     (\<lambda>r db. case r of Inl e \<Rightarrow> tracked db0 u sid known db
        | Inr out \<Rightarrow> tracked db0 u sid (known \<union> tally_ids out) db)"
  (is "holds _ _ ?Q")
proof (induction actions arbitrary: acc)
  case Nil
  show ?case by (auto intro: holds_return)
next
  case (Cons action rest)
  have next_one: "holds (tracked db0 u sid (known \<union> tally_ids acc \<union> delivery_ids d))
      (apply_each s u ts said rest (tally_delivery acc d)) ?Q" for d
    by (rule holds_pre [OF Cons]) (use tally_delivery_ids [of acc d] in \<open>auto elim!: tracked_fewer\<close>)
  show ?case
  proof (cases action)
    case (NewTopic title question)
    then show ?thesis using next_one [of "Child _"]
      by (auto simp: create_topic_def delivery_ids_def elim!: tracked_fewer
          intro!: in_sight_attempted [OF create_in_sight])
  next
    case (Continue i question)
    show ?thesis
    proof (cases "List.find (\<lambda>t. tp_id t = i) ts")
      case None
      then show ?thesis using Continue Cons by simp
    next
      case (Some t)
      then have "tp_id t \<in> known \<union> tally_ids acc" using assms by (auto simp: find_Some_iff)
      then have "holds (tracked db0 u sid (known \<union> tally_ids acc))
          (attempted (apply_continue s u t asked) (\<lambda>d. apply_each s u ts said rest (tally_delivery acc d))) ?Q" for asked
        by (rule in_sight_attempted [OF continue_in_sight next_one]) (auto elim!: tracked_fewer)
      then show ?thesis using Continue Some by simp
    qed
  qed
qed

lemma actions_in_sight:
  assumes "set (map tp_id ts) \<subseteq> known"
  shows "holds (tracked db0 u sid known) (apply_actions s u ts said actions)
     (\<lambda>r db. case r of Inl e \<Rightarrow> tracked db0 u sid known db
        | Inr (ids, focus) \<Rightarrow> ids \<noteq> [] \<and> tracked db0 u sid (known \<union> set ids \<union> set_option focus) db)"
  unfolding apply_actions_def
proof (rule holds_attempted)
  let ?none = "\<lparr>received = [], new_focus = None, refused_with = None\<rparr>"
  have "tally_ids ?none = {}" by (simp add: tally_ids_def)
  then show "holds (tracked db0 u sid known) (apply_each s u ts said actions ?none)
     (\<lambda>r db. case r of Inl e \<Rightarrow> (case Inl e of Inl e \<Rightarrow> tracked db0 u sid known db
        | Inr (ids, focus) \<Rightarrow> ids \<noteq> [] \<and> tracked db0 u sid (known \<union> set ids \<union> set_option focus) db)
      | Inr acc \<Rightarrow> tracked db0 u sid (known \<union> tally_ids acc) db)"
    using each_in_sight [OF assms, of db0 u sid ?none s said actions]
    by (auto elim!: holds_weaken split: sum.splits)
qed (auto intro!: holds_return simp: tally_ids_def Un_assoc elim: tracked_fewer)

section \<open>The mark of a turn\<close>

definition marks :: "chat_db \<Rightarrow> (int \<times> uuid) set" where
  "marks db = (\<lambda>m. (ms_topic m, ms_turn m)) ` set (chat_messages db)"

definition messages_ok :: "chat_db \<Rightarrow> bool" where
  "messages_ok db \<longleftrightarrow> (\<forall>(i, turn_id) \<in> marks db. i < topic_seq db)"

text \<open>The topics of a session that hold a turn.\<close>

definition holders :: "chat_db \<Rightarrow> uuid \<Rightarrow> uuid \<Rightarrow> int set" where
  "holders db sid turn_id = {i. (i, turn_id) \<in> marks db \<and> belongs db sid i}"

lemma set_delivered_to:
  "set (delivered_to db turn_id (map tp_id (topics_of_session db sid))) = holders db sid turn_id"
  unfolding delivered_to_def holders_def marks_def belongs_def topics_of_session_def
  by (auto simp: image_iff)

lemma marks_insert_message: "marks (insert_message i turn_id said now db) = insert (i, turn_id) (marks db)"
  by (auto simp: marks_def insert_message_def list_ex_iff image_iff)

lemma marks_record:
  "marks (fold (\<lambda>i. insert_message i turn_id said now) ids db) = marks db \<union> set ids \<times> {turn_id}"
  by (induction ids arbitrary: db) (auto simp: marks_insert_message)

lemma frames_messages:
  "topics_ok (insert_message i turn_id said now db) = topics_ok db"
  "belongs (insert_message i turn_id said now db) = belongs db"
  "session_is (insert_message i turn_id said now db) u sid = session_is db u sid"
  using same_topics [of "insert_message i turn_id said now db" db]
  by (simp_all add: chat_frame session_is_def session_of_user_def)

lemma frames_record:
  "topics_ok (fold (\<lambda>i. insert_message i turn_id said now) ids db) = topics_ok db"
  "belongs (fold (\<lambda>i. insert_message i turn_id said now) ids db) = belongs db"
  "session_is (fold (\<lambda>i. insert_message i turn_id said now) ids db) u sid = session_is db u sid"
  by (induction ids arbitrary: db) (simp_all add: frames_messages)

definition marked :: "uuid \<Rightarrow> uuid \<Rightarrow> uuid \<Rightarrow> int set \<Rightarrow> chat_db \<Rightarrow> bool" where
  "marked u sid turn_id ids db \<longleftrightarrow> topics_ok db \<and> session_is db u sid \<and> holders db sid turn_id = ids"

lemma marks_frames [simp]:
  "marks (insert_event_row row db) = marks db" "marks (set_focus_row sid f db) = marks db"
  by (simp_all add: marks_def frames_event) (simp add: set_focus_row_def)

lemma holders_frames [simp]:
  "holders (insert_event_row row db) = holders db" "holders (set_focus_row j f db) = holders db"
  using same_topics(3) [of "set_focus_row j f db" db]
  by (simp_all add: holders_def fun_eq_iff frames_event chat_frame)

lemma quiet_marked: "quiet (marked u sid turn_id ids)"
  by (simp add: quiet_def marked_def frames_event)

lemma marked_set_focus: "marked u sid turn_id ids db \<Longrightarrow> marked u sid turn_id ids (set_focus_row j f db)"
  using same_topics(1) [of "set_focus_row j f db" db] by (simp add: marked_def chat_frame)

lemma tracked_unmarked:
  assumes "tracked db0 u sid known db" and "messages_ok db0" and "holders db0 sid turn_id = {}"
  shows "holders db sid turn_id = {}"
  using assms by (fastforce simp: tracked_def holders_def messages_ok_def marks_def)

text \<open>Nothing held the turn when the delivery began, so what holds it after is what received it.\<close>

lemma record_marks:
  assumes "tracked db0 u sid known db" and "set ids \<subseteq> known"
    and "messages_ok db0" and "holders db0 sid turn_id = {}"
  shows "marked u sid turn_id (set ids) (fold (\<lambda>i. insert_message i turn_id said now) ids db)"
proof -
  have "i \<in> set ids \<longleftrightarrow> belongs db sid i \<and> ((i, turn_id) \<in> marks db0 \<or> i \<in> set ids)" for i
    using assms by (fastforce simp: tracked_def holders_def messages_ok_def)
  moreover have "marks db = marks db0" using assms(1) by (simp add: tracked_def marks_def)
  ultimately have "holders (fold (\<lambda>i. insert_message i turn_id said now) ids db) sid turn_id = set ids"
    unfolding holders_def marks_record frames_record by blast
  with assms(1) show ?thesis by (simp add: marked_def tracked_def frames_record)
qed

section \<open>A turn\<close>

lemma focus_found:
  assumes "topics_ok db" "belongs db sid i"
  shows "\<exists>t. topic_by_id db i = Some t \<and> tp_session t = sid"
proof -
  obtain t where t: "t \<in> set (topics_table db)" "tp_id t = i" "tp_session t = sid"
    using assms(2) by (auto simp: belongs_def)
  then obtain q where q: "topic_by_id db i = Some q"
    by (cases "topic_by_id db i") (auto simp: topic_by_id_def find_None_iff)
  with assms(1) t topic_by_id_mem [OF q] have "q = t" by (auto simp: topics_ok_def distinct_map inj_on_def)
  with q t show ?thesis by simp
qed

lemma set_focus_keeps_marks:
  "holds (\<lambda>db. marked u sid turn_id ids db \<and> belongs db sid i) (set_focus s u i)
     (\<lambda>r db. r = Inr () \<and> marked u sid turn_id ids db)"
  (is "holds ?P _ ?Q")
  unfolding set_focus_def
proof (rule holds_attempted [where R = "\<lambda>r db. cs_id r = sid \<and> ?P db"])
  show "holds ?P (get_or_create_session s u)
      (\<lambda>r db. case r of Inl e \<Rightarrow> ?Q (Inl e) db | Inr x \<Rightarrow> cs_id x = sid \<and> ?P db)"
    by (rule holds_weaken [OF get_session_found]) (auto simp: marked_def split: sum.splits)
next
  fix r
  let ?moved = "\<lambda>r. attempted (reading (found_session (cs_id r))) (\<lambda>_.
       do {
         writing (set_focus_row (cs_id r) (Some i));
         publish_now s (cs_id r) (Some i) FocusChanged
           (json_object [(''from'', optional_id (cs_focus r)), (''to'', json_of_i32 i),
              (''reason'', String ''user'')]);
         State_Monad.return (Inr ())
       })"
  have moved: "holds ?P (?moved r) ?Q" if r: "cs_id r = sid"
  proof (rule holds_attempted [where R = "\<lambda>_. ?P"])
    show "holds ?P (reading (found_session (cs_id r))) (\<lambda>x db. case x of Inl e \<Rightarrow> ?Q (Inl e) db | Inr _ \<Rightarrow> ?P db)"
      using session_found r by (fastforce intro!: holds_reading simp: marked_def split: sum.splits)
  next
    show "holds ?P (do {
         writing (set_focus_row (cs_id r) (Some i));
         publish_now s (cs_id r) (Some i) FocusChanged
           (json_object [(''from'', optional_id (cs_focus r)), (''to'', json_of_i32 i),
              (''reason'', String ''user'')]);
         State_Monad.return (Inr ())
       }) ?Q"
      by (rule holds_bind [where R = "\<lambda>_. marked u sid turn_id ids"])
        (auto intro!: holds_writing holds_then [OF stays_publish_now [OF quiet_marked]] holds_return
          simp: marked_set_focus)
  qed
  let ?P' = "\<lambda>db. cs_id r = sid \<and> ?P db"
  show "holds ?P' (do {
       found \<leftarrow> reading (\<lambda>db. topic_by_id db i);
       case found of
         None \<Rightarrow> State_Monad.return (Inl (TopicNotFound i))
       | Some t \<Rightarrow> if tp_session t \<noteq> cs_id r then State_Monad.return (Inl (TopicNotFound i)) else ?moved r
     }) ?Q"
  proof (rule holds_bind [where R = "\<lambda>found db. ?P' db \<and> (\<exists>t. found = Some t \<and> tp_session t = sid)"])
    show "holds ?P' (reading (\<lambda>db. topic_by_id db i)) (\<lambda>found db. ?P' db \<and> (\<exists>t. found = Some t \<and> tp_session t = sid))"
      using focus_found by (auto intro!: holds_reading simp: marked_def)
  next
    fix found
    show "holds (\<lambda>db. ?P' db \<and> (\<exists>t. found = Some t \<and> tp_session t = sid))
        (case found of
           None \<Rightarrow> State_Monad.return (Inl (TopicNotFound i))
         | Some t \<Rightarrow> if tp_session t \<noteq> cs_id r then State_Monad.return (Inl (TopicNotFound i)) else ?moved r) ?Q"
      using moved by (cases found) (auto simp: holds_def)
  qed
qed

lemma view_found:
  assumes "\<And>db. P db \<Longrightarrow> session_is db u sid"
  shows "holds P (get_session_view s u)
     (\<lambda>r db. case r of Inl e \<Rightarrow> False | Inr (focus, ts) \<Rightarrow> ts = topics_of_session db sid \<and> P db)"
  unfolding get_session_view_def
proof (rule holds_attempted [where R = "\<lambda>r db. cs_id r = sid \<and> P db"])
  show "holds P (get_or_create_session s u) (\<lambda>r db. case r of
       Inl e \<Rightarrow> (case Inl e of Inl e \<Rightarrow> False | Inr (focus, ts) \<Rightarrow> ts = topics_of_session db sid \<and> P db)
     | Inr x \<Rightarrow> cs_id x = sid \<and> P db)"
    by (rule holds_weaken [OF get_session_found [OF assms]]) (auto split: sum.splits)
next
  fix r
  show "holds (\<lambda>db. cs_id r = sid \<and> P db)
      (do { ts \<leftarrow> reading (\<lambda>db. topics_of_session db (cs_id r)); State_Monad.return (Inr (cs_focus r, ts)) })
      (\<lambda>r db. case r of Inl e \<Rightarrow> False | Inr (focus, ts) \<Rightarrow> ts = topics_of_session db sid \<and> P db)"
    by (auto simp: holds_def reading_def)
qed

lemma already_delivered_cases:
  "case already_delivered turn_id (topics_of_session db sid) db of
     None \<Rightarrow> holders db sid turn_id = {}
   | Some d \<Rightarrow> d \<noteq> [] \<and> set d = holders db sid turn_id"
  by (simp add: already_delivered_def Let_def flip: set_delivered_to)

lemma topics_of_session_belong: "i \<in> set (map tp_id (topics_of_session db sid)) \<Longrightarrow> belongs db sid i"
  by (auto simp: topics_of_session_def belongs_def)

definition turn_outcome :: "chat_db \<Rightarrow> uuid \<Rightarrow> uuid \<Rightarrow> uuid \<Rightarrow> chat_error + int list \<Rightarrow> chat_db \<Rightarrow> bool" where
  "turn_outcome db0 u sid turn_id r db =
     (case r of
        Inl e \<Rightarrow> chat_messages db = chat_messages db0
      | Inr ids \<Rightarrow> if ids = [] then chat_messages db = chat_messages db0 else marked u sid turn_id (set ids) db)"

lemma recorded_outcome:
  assumes "messages_ok db0" and "holders db0 sid turn_id = {}" and "ids \<noteq> []"
  shows "holds (tracked db0 u sid (set ids \<union> set_option focus))
     (do {
        record_turn s turn_id said ids;
        case focus of
          None \<Rightarrow> State_Monad.return (Inr ids)
        | Some i \<Rightarrow> attempted (set_focus s u i) (\<lambda>_. State_Monad.return (Inr ids))
      }) (\<lambda>r db. r = Inr ids \<and> turn_outcome db0 u sid turn_id r db)"
  (is "holds _ _ ?Q")
proof (rule holds_bind [where R = "\<lambda>_ db. marked u sid turn_id (set ids) db \<and> (\<forall>i \<in> set_option focus. belongs db sid i)"])
  show "holds (tracked db0 u sid (set ids \<union> set_option focus)) (record_turn s turn_id said ids)
     (\<lambda>_ db. marked u sid turn_id (set ids) db \<and> (\<forall>i \<in> set_option focus. belongs db sid i))"
    unfolding record_turn_def
  proof (rule holds_then [OF stays_outside], rule holds_writing)
    fix now db assume t: "tracked db0 u sid (set ids \<union> set_option focus) db"
    then have "\<forall>i \<in> set_option focus. belongs db sid i" by (simp add: tracked_def)
    moreover have "marked u sid turn_id (set ids) (fold (\<lambda>i. insert_message i turn_id said now) ids db)"
      by (rule record_marks [OF t _ assms(1,2)]) simp
    ultimately show "marked u sid turn_id (set ids) (fold (\<lambda>i. insert_message i turn_id said now) ids db) \<and>
        (\<forall>i \<in> set_option focus. belongs (fold (\<lambda>i. insert_message i turn_id said now) ids db) sid i)"
      by (simp add: frames_record)
  qed
next
  fix nothing
  have "holds (\<lambda>db. marked u sid turn_id (set ids) db \<and> belongs db sid i)
      (attempted (set_focus s u i) (\<lambda>_. State_Monad.return (Inr ids))) ?Q" for i
    by (rule holds_attempted [where R = "\<lambda>_. marked u sid turn_id (set ids)"], rule holds_weaken [OF set_focus_keeps_marks])
      (auto intro: holds_return simp: turn_outcome_def assms(3))
  then show "holds (\<lambda>db. marked u sid turn_id (set ids) db \<and> (\<forall>i \<in> set_option focus. belongs db sid i))
      (case focus of
         None \<Rightarrow> State_Monad.return (Inr ids)
       | Some i \<Rightarrow> attempted (set_focus s u i) (\<lambda>_. State_Monad.return (Inr ids))) ?Q"
    by (cases focus) (auto intro: holds_return simp: turn_outcome_def assms(3))
qed

lemma deliver_outcome:
  assumes "topics_ok db0" "messages_ok db0" "session_is db0 u sid"
  shows "holds (\<lambda>db. db = db0) (deliver_turn s u turn_id said actions) (turn_outcome db0 u sid turn_id)"
  unfolding deliver_turn_def
proof (rule holds_attempted [where R = "\<lambda>(focus, ts) db. ts = topics_of_session db0 sid \<and> db = db0"])
  show "holds (\<lambda>db. db = db0) (get_session_view s u) (\<lambda>r db. case r of
       Inl e \<Rightarrow> turn_outcome db0 u sid turn_id (Inl e) db
     | Inr x \<Rightarrow> (case x of (focus, ts) \<Rightarrow> \<lambda>db. ts = topics_of_session db0 sid \<and> db = db0) db)"
    by (rule holds_weaken [OF view_found [where sid = sid]]) (auto simp: assms(3) split: sum.splits)
next
  fix x :: "int option \<times> topic list"
  obtain focus0 ts where x: "x = (focus0, ts)" by fastforce
  let ?acted = "attempted (apply_actions s u ts said actions) (\<lambda>(ids, focus).
     do {
       record_turn s turn_id said ids;
       case focus of
         None \<Rightarrow> State_Monad.return (Inr ids)
       | Some i \<Rightarrow> attempted (set_focus s u i) (\<lambda>_. State_Monad.return (Inr ids))
     })"
  have acted: "holds (\<lambda>db. db = db0) ?acted (turn_outcome db0 u sid turn_id)"
    if ts: "ts = topics_of_session db0 sid" and none: "holders db0 sid turn_id = {}"
  proof -
    let ?known = "set (map tp_id ts)"
    let ?R = "\<lambda>(ids, focus) db. ids \<noteq> [] \<and> tracked db0 u sid (set ids \<union> set_option focus) db"
    have "holds (tracked db0 u sid ?known) ?acted (turn_outcome db0 u sid turn_id)"
    proof (rule holds_attempted [where R = ?R])
      show "holds (tracked db0 u sid ?known) (apply_actions s u ts said actions)
          (\<lambda>r db. case r of Inl e \<Rightarrow> turn_outcome db0 u sid turn_id (Inl e) db | Inr x \<Rightarrow> ?R x db)"
        by (rule holds_weaken [OF actions_in_sight [OF subset_refl]])
          (auto simp: turn_outcome_def tracked_def split: sum.splits)
    next
      fix x :: "int list \<times> int option"
      show "holds (?R x) (case x of (ids, focus) \<Rightarrow> do {
          record_turn s turn_id said ids;
          case focus of
            None \<Rightarrow> State_Monad.return (Inr ids)
          | Some i \<Rightarrow> attempted (set_focus s u i) (\<lambda>_. State_Monad.return (Inr ids)) })
        (turn_outcome db0 u sid turn_id)"
      proof (cases "fst x = []")
        case False
        then show ?thesis
          by (cases x) (auto intro: holds_pre [OF holds_weaken [OF recorded_outcome [OF assms(2) none]]])
      qed (auto simp: holds_def split_beta)
    qed
    moreover have "tracked db0 u sid ?known db0"
      using assms topics_of_session_belong by (auto simp: tracked_def ts)
    ultimately show ?thesis by (auto simp: holds_def)
  qed
  let ?R = "\<lambda>found db. ts = topics_of_session db0 sid \<and> db = db0 \<and> found = already_delivered turn_id ts db0"
  have "holds (\<lambda>db. ts = topics_of_session db0 sid \<and> db = db0)
     (do {
        found \<leftarrow> reading (already_delivered turn_id ts);
        case found of Some delivered \<Rightarrow> State_Monad.return (Inr delivered) | None \<Rightarrow> ?acted
      }) (turn_outcome db0 u sid turn_id)"
  proof (rule holds_bind [where R = ?R])
    fix found
    show "holds (?R found) (case found of Some delivered \<Rightarrow> State_Monad.return (Inr delivered) | None \<Rightarrow> ?acted)
        (turn_outcome db0 u sid turn_id)"
    proof (cases "found = already_delivered turn_id ts db0 \<and> ts = topics_of_session db0 sid")
      case True
      with already_delivered_cases [where turn_id = turn_id and db = db0 and sid = sid]
      have "case found of None \<Rightarrow> holders db0 sid turn_id = {}
          | Some d \<Rightarrow> d \<noteq> [] \<and> set d = holders db0 sid turn_id" by simp
      then show ?thesis
      proof (cases found)
        case None
        with True \<open>case found of None \<Rightarrow> _ | Some d \<Rightarrow> _\<close>
        have "holds (\<lambda>db. db = db0) ?acted (turn_outcome db0 u sid turn_id)" by (intro acted) simp_all
        then show ?thesis unfolding None option.case by (rule holds_pre) simp
      next
        case (Some d)
        with \<open>case found of None \<Rightarrow> _ | Some d \<Rightarrow> _\<close> assms show ?thesis
          by (auto intro!: holds_return simp: turn_outcome_def marked_def)
      qed
    qed (auto simp: holds_def)
  qed (auto intro: holds_reading)
  then show "holds ((case x of (focus, ts) \<Rightarrow> \<lambda>db. ts = topics_of_session db0 sid \<and> db = db0))
      (case x of (_, ts) \<Rightarrow> do {
        found \<leftarrow> reading (already_delivered turn_id ts);
        case found of
          Some delivered \<Rightarrow> State_Monad.return (Inr delivered)
        | None \<Rightarrow> attempted (apply_actions s u ts said actions) (\<lambda>(ids, focus).
            do {
              record_turn s turn_id said ids;
              case focus of
                None \<Rightarrow> State_Monad.return (Inr ids)
              | Some i \<Rightarrow> attempted (set_focus s u i) (\<lambda>_. State_Monad.return (Inr ids))
            })
      }) (turn_outcome db0 u sid turn_id)"
    by (simp add: x)
qed

text \<open>The words said instead leave every message as it is.\<close>

lemma quiet_messages: "quiet (\<lambda>db. chat_messages db = ms)"
  by (simp add: quiet_def frames_event)

lemma insert_session_messages: "chat_messages (insert_session i u now db) = chat_messages db"
  by (simp add: insert_session_def)

lemma get_session_messages:
  "holds (\<lambda>db. chat_messages db = ms) (get_or_create_session s u) (\<lambda>_ db. chat_messages db = ms)"
  unfolding get_or_create_session_def
  by (auto simp: holds_def reading_def writing_def outside_def insert_session_messages
      split: option.splits prod.splits)

lemma say_instead_messages:
  "holds (\<lambda>db. chat_messages db = ms) (say_instead s u i k words turn_id said)
     (\<lambda>r db. chat_messages db = ms \<and> (\<forall>ids. r = Inr ids \<longrightarrow> ids = []))"
  unfolding say_instead_def
proof (rule holds_attempted [where R = "\<lambda>_ db. chat_messages db = ms"])
  show "holds (\<lambda>db. chat_messages db = ms) (get_or_create_session s u)
     (\<lambda>r db. case r of Inl e \<Rightarrow> chat_messages db = ms \<and> (\<forall>ids. Inl e = Inr ids \<longrightarrow> ids = [])
        | Inr _ \<Rightarrow> chat_messages db = ms)"
    by (rule holds_weaken [OF get_session_messages]) (auto split: sum.splits)
qed (auto intro!: holds_then [OF stays_publish_now [OF quiet_messages]] holds_return)

lemma delivered_or_busy_outcome:
  assumes "topics_ok db0" "messages_ok db0" "session_is db0 u sid"
  shows "holds (\<lambda>db. db = db0) (delivered_or_busy s u turn_id said actions) (turn_outcome db0 u sid turn_id)"
  unfolding delivered_or_busy_def
proof (rule holds_bind [OF deliver_outcome [OF assms]])
  fix r
  have instead: "holds (turn_outcome db0 u sid turn_id (Inl e))
      (note_engine_busy_instead_of_queueing s u i turn_id said) (turn_outcome db0 u sid turn_id)" for e i
    unfolding note_engine_busy_instead_of_queueing_def turn_outcome_def sum.case
    by (rule holds_weaken [OF say_instead_messages]) (auto split: sum.splits)
  show "holds (turn_outcome db0 u sid turn_id r)
      (case r of Inl (EngineBusy i _) \<Rightarrow> note_engine_busy_instead_of_queueing s u i turn_id said
         | _ \<Rightarrow> State_Monad.return r) (turn_outcome db0 u sid turn_id)"
    using instead by (auto intro: holds_return split: sum.split chat_error.split)
qed

text \<open>The view of a session that may have to be created first.\<close>

definition viewed :: "chat_db \<Rightarrow> uuid \<Rightarrow> topic list \<Rightarrow> chat_db \<Rightarrow> bool" where
  "viewed db0 u ts db \<longleftrightarrow>
     chat_messages db = chat_messages db0 \<and> topics_ok db \<and> messages_ok db \<and>
     (\<exists>sid. session_is db u sid \<and> ts = topics_of_session db sid)"

lemma insert_session_ok:
  "topics_ok (insert_session i u now db) = topics_ok db" "messages_ok (insert_session i u now db) = messages_ok db"
  using same_topics(1) [of "insert_session i u now db" db]
  by (simp_all add: chat_frame messages_ok_def marks_def insert_session_messages)

lemma get_session_created:
  assumes "topics_ok db0" "messages_ok db0"
  shows "holds (\<lambda>db. db = db0) (get_or_create_session s u)
     (\<lambda>r db. chat_messages db = chat_messages db0 \<and>
        (\<forall>x. r = Inr x \<longrightarrow> session_is db u (cs_id x) \<and> topics_ok db \<and> messages_ok db))"
  unfolding get_or_create_session_def using assms
  by (auto simp: holds_def reading_def writing_def outside_def insert_session_messages session_is_def insert_session_ok
      split: option.splits prod.splits)

lemma view_created:
  assumes "topics_ok db0" "messages_ok db0"
  shows "holds (\<lambda>db. db = db0) (get_session_view s u)
     (\<lambda>r db. case r of Inl e \<Rightarrow> chat_messages db = chat_messages db0 | Inr (focus, ts) \<Rightarrow> viewed db0 u ts db)"
  unfolding get_session_view_def
proof (rule holds_attempted)
  show "holds (\<lambda>db. db = db0) (get_or_create_session s u) (\<lambda>r db. case r of
       Inl e \<Rightarrow> (case Inl e of Inl e \<Rightarrow> chat_messages db = chat_messages db0 | Inr (focus, ts) \<Rightarrow> viewed db0 u ts db)
     | Inr x \<Rightarrow> chat_messages db = chat_messages db0 \<and> session_is db u (cs_id x) \<and> topics_ok db \<and> messages_ok db)"
    by (rule holds_weaken [OF get_session_created [OF assms]]) (auto split: sum.splits)
next
  fix x
  show "holds (\<lambda>db. chat_messages db = chat_messages db0 \<and> session_is db u (cs_id x) \<and> topics_ok db \<and> messages_ok db)
      (do { ts \<leftarrow> reading (\<lambda>db. topics_of_session db (cs_id x)); State_Monad.return (Inr (cs_focus x, ts)) })
      (\<lambda>r db. case r of Inl e \<Rightarrow> chat_messages db = chat_messages db0 | Inr (focus, ts) \<Rightarrow> viewed db0 u ts db)"
    by (auto simp: holds_def reading_def viewed_def)
qed

text \<open>A turn ends with the turn on every topic that received it, or with no message more.\<close>

lemma turn_ends:
  assumes "topics_ok db0" "messages_ok db0"
  shows "holds (\<lambda>db. db = db0) (send_turn s u turn_id said) (\<lambda>r db. \<exists>sid. turn_outcome db0 u sid turn_id r db)"
  unfolding send_turn_def
proof (rule holds_attempted [where R = "\<lambda>(focus, ts). viewed db0 u ts"])
  show "holds (\<lambda>db. db = db0) (get_session_view s u) (\<lambda>r db. case r of
       Inl e \<Rightarrow> \<exists>sid. turn_outcome db0 u sid turn_id (Inl e) db | Inr x \<Rightarrow> (case x of (focus, ts) \<Rightarrow> viewed db0 u ts) db)"
    by (rule holds_weaken [OF view_created [OF assms]]) (auto simp: turn_outcome_def split: sum.splits)
next
  fix x :: "int option \<times> topic list"
  obtain focus ts where x: "x = (focus, ts)" by fastforce
  let ?Q = "\<lambda>r db. \<exists>sid. turn_outcome db0 u sid turn_id r db"
  let ?routed = "do {
      routed \<leftarrow> outside (route_message (intent s) (chat_code s) (known_budget s) (summaries ts) focus said);
      case routed of
        Clarify \<Rightarrow> publish_clarification_without_starting_a_topic s u turn_id said
      | Act actions \<Rightarrow> delivered_or_busy s u turn_id said actions
    }"
  have act: "holds (viewed db0 u ts) (delivered_or_busy s u turn_id said actions) ?Q" for actions
  proof (rule holdsI)
    fix y r y'
    assume v: "viewed db0 u ts (cdb y)" and run: "run_state (delivered_or_busy s u turn_id said actions) y = (r, y')"
    then obtain sid where "session_is (cdb y) u sid" by (auto simp: viewed_def)
    with v have "turn_outcome (cdb y) u sid turn_id r (cdb y')"
      using holdsD [OF delivered_or_busy_outcome run] by (simp add: viewed_def)
    with v have "turn_outcome db0 u sid turn_id r (cdb y')"
      by (cases r) (simp_all add: turn_outcome_def viewed_def split: if_splits)
    then show "\<exists>sid. turn_outcome db0 u sid turn_id r (cdb y')" ..
  qed
  have "holds (\<lambda>db. chat_messages db = chat_messages db0)
      (publish_clarification_without_starting_a_topic s u turn_id said) ?Q"
    unfolding publish_clarification_without_starting_a_topic_def
    by (rule holds_weaken [OF say_instead_messages]) (auto simp: turn_outcome_def split: sum.splits)
  then have clarify: "holds (viewed db0 u ts) (publish_clarification_without_starting_a_topic s u turn_id said) ?Q"
    by (rule holds_pre) (simp add: viewed_def)
  have routed: "holds (viewed db0 u ts) ?routed ?Q"
    by (rule holds_then [OF stays_outside]) (auto intro: act clarify split: routing.split)
  let ?R = "\<lambda>found db. viewed db0 u ts db \<and> found = already_delivered turn_id ts db"
  have "holds (viewed db0 u ts)
     (do {
        found \<leftarrow> reading (already_delivered turn_id ts);
        case found of Some delivered \<Rightarrow> State_Monad.return (Inr delivered) | None \<Rightarrow> ?routed
      }) ?Q"
  proof (rule holds_bind [where R = ?R])
    fix found
    show "holds (?R found) (case found of Some delivered \<Rightarrow> State_Monad.return (Inr delivered) | None \<Rightarrow> ?routed) ?Q"
    proof (cases found)
      case None
      then show ?thesis using routed by (auto simp: holds_def)
    next
      case (Some d)
      have "\<exists>sid. turn_outcome db0 u sid turn_id (Inr d) db" if seen: "?R (Some d) db" for db
      proof -
        obtain sid where sid: "session_is db u sid" "ts = topics_of_session db sid" "topics_ok db"
          using seen by (auto simp: viewed_def)
        with seen already_delivered_cases [where turn_id = turn_id and db = db and sid = sid]
        have "d \<noteq> []" "marked u sid turn_id (set d) db" by (auto simp: marked_def split: option.splits)
        then show ?thesis by (auto simp: turn_outcome_def)
      qed
      then show ?thesis unfolding Some by (auto intro: holds_return)
    qed
  qed (auto intro: holds_reading)
  then show "holds ((case x of (focus, ts) \<Rightarrow> viewed db0 u ts)) (case x of (focus, ts) \<Rightarrow> do {
        found \<leftarrow> reading (already_delivered turn_id ts);
        case found of Some delivered \<Rightarrow> State_Monad.return (Inr delivered)
        | None \<Rightarrow> do {
            routed \<leftarrow> outside (route_message (intent s) (chat_code s) (known_budget s) (summaries ts) focus said);
            case routed of
              Clarify \<Rightarrow> publish_clarification_without_starting_a_topic s u turn_id said
            | Act actions \<Rightarrow> delivered_or_busy s u turn_id said actions
          }
      }) ?Q"
    by (simp add: x)
qed

text \<open>A turn that is marked is answered from its marks.\<close>

lemma marked_turn_stops:
  assumes "marked u sid turn_id ids (cdb y)" and "ids \<noteq> {}"
    and run: "run_state (send_turn s u turn_id said) y = (again, z)"
  shows "z = y \<and> (\<exists>d. again = Inr d \<and> set d = ids)"
proof -
  obtain r where r: "session_of_user (cdb y) u = Some r" "cs_id r = sid" "holders (cdb y) sid turn_id = ids"
    using assms(1) by (auto simp: marked_def session_is_def)
  then obtain d where d: "already_delivered turn_id (topics_of_session (cdb y) sid) (cdb y) = Some d" "set d = ids"
    using already_delivered_cases [where turn_id = turn_id and db = "cdb y" and sid = sid] assms(2)
    by (auto split: option.splits)
  from run have "again = Inr d \<and> z = y"
    by (auto simp: send_turn_def get_session_view_def get_or_create_session_def attempted_def reading_def r d)
  with d show ?thesis by blast
qed

section \<open>Delivered once\<close>



section \<open>Delivered in part\<close>

lemma run_attempted:
  "run_state (attempted m f) y =
     (case run_state m y of (Inl e, z) \<Rightarrow> (Inl e, z) | (Inr x, z) \<Rightarrow> run_state (f x) z)"
  by (auto simp: attempted_def split: prod.split sum.split)

lemma insert_topic_draws:
  "holds (\<lambda>db. topic_seq db = n) (insert_topic s sid parent title input continues)
     (\<lambda>r _. \<forall>row. r = Inr row \<longrightarrow> tp_id row = n)"
  unfolding insert_topic_def start_if_admitted_def insert_admitted_def
  by (auto simp: holds_def run_attempted reading_def writing_def outside_def split: prod.splits sum.splits if_splits)

lemma created_id_is_new:
  assumes "session_is (cdb y) u sid"
    and "run_state (create_topic_continuing s u parent title input continues) y = (Inr (i, st), z)"
  shows "i = topic_seq (cdb y)"
proof -
  obtain r where r: "session_of_user (cdb y) u = Some r" "cs_id r = sid"
    using assms(1) by (auto simp: session_is_def)
  obtain row z' where row: "run_state (insert_topic s sid parent title input continues) y = (Inr row, z')"
    and "i = tp_id row"
    using assms(2) r
    by (auto simp: create_topic_continuing_def run_attempted get_or_create_session_def reading_def
        split: prod.splits sum.splits)
  with holdsD [OF insert_topic_draws row, of "topic_seq (cdb y)"] show ?thesis by simp
qed

text \<open>When a later action of a turn fails, the topic that its first action created stays in the session and
no topic is marked with the turn: the delivery is neither complete nor undone, and a retry creates the topic
again.\<close>

lemma failed_turn_keeps_its_first_topic:
  assumes "topics_ok (cdb y)" and "messages_ok (cdb y)" and "session_is (cdb y) u sid"
    and "holders (cdb y) sid turn_id = {}"
    and created: "run_state (create_topic s u None title (execution_input_json question)) y = (Inr (i, st), y1)"
    and run: "run_state (deliver_turn s u turn_id said (NewTopic title question # rest)) y = (Inl e, z)"
  shows "belongs (cdb z) sid i \<and> \<not> belongs (cdb y) sid i \<and> holders (cdb z) sid turn_id = {}"
proof -
  obtain r where r: "session_of_user (cdb y) u = Some r" "cs_id r = sid"
    using assms(3) by (auto simp: session_is_def)
  define ts where "ts = topics_of_session (cdb y) sid"
  define known where "known = insert i (set (map tp_id ts))"
  let ?acc = "\<lparr>received = [i], new_focus = Some i, refused_with = None\<rparr>"
  have undelivered: "already_delivered turn_id ts (cdb y) = None"
    using already_delivered_cases [where turn_id = turn_id and db = "cdb y" and sid = sid] assms(4)
    by (auto simp: ts_def split: option.splits)
  have "tracked (cdb y) u sid (set (map tp_id ts)) (cdb y)"
    using assms(1,3) topics_of_session_belong by (auto simp: tracked_def ts_def)
  with holdsD [OF create_in_sight created [unfolded create_topic_def]]
  have y1: "tracked (cdb y) u sid (known \<union> tally_ids ?acc) (cdb y1)"
    by (simp add: known_def tally_ids_def insert_commute)
  obtain out z' where each: "run_state (apply_each s u ts said rest ?acc) y1 = (out, z')" by fastforce
  have in_sight: "case out of Inl e \<Rightarrow> tracked (cdb y) u sid known (cdb z')
      | Inr acc \<Rightarrow> tracked (cdb y) u sid (known \<union> tally_ids acc) (cdb z')"
    using holdsD [OF each_in_sight [where known = known] each y1] by (auto simp: known_def)
  let ?recorded = "\<lambda>(ids, focus). do {
       record_turn s turn_id said ids;
       case focus of
         None \<Rightarrow> State_Monad.return (Inr ids)
       | Some i \<Rightarrow> attempted (set_focus s u i) (\<lambda>_. State_Monad.return (Inr ids))
     }"
  have run': "(case out of Inl e \<Rightarrow> (Inl e, z')
      | Inr acc \<Rightarrow> if received acc = [] then (Inl (or_else (refused_with acc) NoFocus), z')
          else run_state (?recorded (received acc, new_focus acc)) z') = (Inl e, z)"
    using run created undelivered each
    by (auto simp: deliver_turn_def get_session_view_def run_attempted get_or_create_session_def reading_def r
        apply_actions_def first_of_both_def or_else_def simp flip: ts_def split: sum.splits if_splits)
  have never_fails: False
    if "out = Inr acc" "received acc \<noteq> []" "run_state (?recorded (received acc, new_focus acc)) z' = (Inl e, z)" for acc
  proof -
    have "tracked (cdb y) u sid (set (received acc) \<union> set_option (new_focus acc)) (cdb z')"
      using in_sight that(1) by (auto simp: tally_ids_def elim: tracked_fewer)
    with holdsD [OF recorded_outcome [OF assms(2,4) that(2)] that(3) [unfolded prod.case]] show False by simp
  qed
  have "z' = z" using run' never_fails by (auto split: sum.splits if_splits)
  moreover have "tracked (cdb y) u sid known (cdb z')"
    using in_sight by (auto elim: tracked_fewer split: sum.splits)
  ultimately have kept: "tracked (cdb y) u sid known (cdb z)" by simp
  have new: "i = topic_seq (cdb y)"
    using assms(3) created unfolding create_topic_def by (rule created_id_is_new)
  have "\<not> belongs (cdb y) sid i" using assms(1) by (auto simp: new topics_ok_def belongs_def)
  moreover have "belongs (cdb z) sid i" using kept by (simp add: tracked_def known_def)
  moreover have "holders (cdb z) sid turn_id = {}" using kept assms(2,4) by (rule tracked_unmarked)
  ultimately show ?thesis by blast
qed

end
