(* ===== verification/Chat_Watch.thy ===== *)
theory Chat_Watch
  imports Chat_Delivery Event_Stream
begin

text \<open>
  \<^verbatim>\<open>services/chat/src/topic_watcher.rs\<close> and the end of a topic in \<^verbatim>\<open>topic_focus.rs\<close>: the task that follows
  the engine's events of one topic, reconnects when the stream breaks and settles the topic when a terminal
  event arrives. A stream is the list of what it sent before it ended. The loop of a watcher may go on for ever,
  so it is given the number of streams it may open.
\<close>

section \<open>What the watcher remembers\<close>

definition MAX_REMEMBERED_EVENT_IDS :: nat where "MAX_REMEMBERED_EVENT_IDS = 1024"
definition MAX_RESULT_SUMMARY_CHARS :: nat where "MAX_RESULT_SUMMARY_CHARS = 8 * 1024"
definition EXECUTION_EVENT_KIND_NAME_PREFIX :: string where
  "EXECUTION_EVENT_KIND_NAME_PREFIX = ''EXECUTION_EVENT_KIND_''"

text \<open>Milliseconds.\<close>

definition RECONNECT_BASE_DELAY :: nat where "RECONNECT_BASE_DELAY = 1000"
definition RECONNECT_MAX_DELAY :: nat where "RECONNECT_MAX_DELAY = 30000"

record recent_event_ids =
  remembered_ids :: "string set"
  remembered_order :: "string list"

definition no_event_ids :: recent_event_ids where
  "no_event_ids = \<lparr>remembered_ids = {}, remembered_order = []\<rparr>"

definition remember :: "string \<Rightarrow> recent_event_ids \<Rightarrow> bool \<times> recent_event_ids" where
  "remember i seen =
     (if i \<in> remembered_ids seen then (False, seen)
      else
        let ids = insert i (remembered_ids seen); order = remembered_order seen @ [i] in
        (True,
         if MAX_REMEMBERED_EVENT_IDS < length order
         then \<lparr>remembered_ids = ids - {hd order}, remembered_order = tl order\<rparr>
         else \<lparr>remembered_ids = ids, remembered_order = order\<rparr>))"

text \<open>The ids that are reported as new, of those that come in one after the other.\<close>

fun reported_ids :: "string list \<Rightarrow> recent_event_ids \<Rightarrow> string list \<times> recent_event_ids" where
  "reported_ids [] seen = ([], seen)"
| "reported_ids (i # is) seen =
     (let (new, seen') = remember i seen; (rest, seen'') = reported_ids is seen' in
      (if new then i # rest else rest, seen''))"

section \<open>Events of the engine\<close>

record engine_event =
  ee_id :: string
  ee_kind :: event_kind
  ee_payload_json :: string
  ee_result :: "string option"
  ee_error :: "string option"
  ee_occurred_at :: instant

fun terminal_status_of_kind :: "event_kind \<Rightarrow> topic_status option" where
  "terminal_status_of_kind KExecutionCompleted = Some TopicCompleted"
| "terminal_status_of_kind KExecutionFailed = Some TopicFailed"
| "terminal_status_of_kind KExecutionCancelled = Some TopicCancelled"
| "terminal_status_of_kind _ = None"

definition terminal_status :: "engine_event \<Rightarrow> topic_status option" where
  "terminal_status e = terminal_status_of_kind (ee_kind e)"

definition final_summary :: "engine_event \<Rightarrow> string option" where
  "final_summary e =
     map_option (\<lambda>said. truncate_chars said MAX_RESULT_SUMMARY_CHARS)
       (case ee_result e of Some said \<Rightarrow> Some said | None \<Rightarrow> ee_error e)"

text \<open>The declared name of the enum's value without its prefix, in lower case.\<close>

fun progress_step :: "event_kind \<Rightarrow> string" where
  "progress_step KUnspecified = ''unspecified''"
| "progress_step KExecutionStarted = ''execution_started''"
| "progress_step KNodeStarted = ''node_started''"
| "progress_step KNodeCompleted = ''node_completed''"
| "progress_step KNodeFailed = ''node_failed''"
| "progress_step KTaskOutput = ''task_output''"
| "progress_step KWaiting = ''waiting''"
| "progress_step KResumed = ''resumed''"
| "progress_step KInterrupted = ''interrupted''"
| "progress_step KExecutionCompleted = ''execution_completed''"
| "progress_step KExecutionFailed = ''execution_failed''"
| "progress_step KExecutionCancelled = ''execution_cancelled''"

text \<open>
  Besides the services of a request: the stream of an execution's events, the pause before another try, the
  UUID that a text is hashed to, and the parser of the detail.
\<close>

record ('w, 'v) watch_services =
  request_services :: "('w, 'v) chat_services"
  stream_events :: "principal \<Rightarrow> uuid \<Rightarrow> ('w, string + engine_event list) state"
  pause :: "nat \<Rightarrow> ('w, unit) state"
  hashed_id :: "string \<Rightarrow> uuid"
  parse_detail :: "string \<Rightarrow> json option"

definition event_id_of :: "('w, 'v) watch_services \<Rightarrow> engine_event \<Rightarrow> uuid" where
  "event_id_of ws e = hashed_id ws (ee_id e)"

section \<open>topic\_focus.rs: the end of a topic\<close>

definition update_topic_status_and_move_focus ::
  "('w, 'v) chat_services \<Rightarrow> int \<Rightarrow> topic_status \<Rightarrow> string option \<Rightarrow>
     ('w chat, chat_error + topic \<times> (int option \<times> int) option) state" where
  "update_topic_status_and_move_focus s i st summary =
     attempted (reading (\<lambda>db. session_of_topic db i)) (\<lambda>r.
     attempted (reading (found_session (cs_id r))) (\<lambda>locked.
       do {
         now \<leftarrow> outside (clock s);
         moved \<leftarrow> reading (\<lambda>db. fst (finish_row i st summary now locked db));
         writing (\<lambda>db. snd (finish_row i st summary now locked db));
         row \<leftarrow> reading (\<lambda>db. topic_by_id db i);
         State_Monad.return (case row of None \<Rightarrow> Inl (TopicNotFound i) | Some t \<Rightarrow> Inr (t, moved))
       }))"

definition publish_focus_change ::
  "('w, 'v) chat_services \<Rightarrow> uuid \<Rightarrow> int option \<Rightarrow> int \<Rightarrow> ('w chat, unit) state" where
  "publish_focus_change s sid successor from_topic =
     publish_now s sid successor FocusChanged
       (json_object [(''from'', json_of_i32 from_topic), (''to'', optional_id successor),
          (''reason'', String ''completion'')])"

section \<open>Settling a topic\<close>

fun terminal_kind :: "topic_status \<Rightarrow> topic_event_kind" where
  "terminal_kind TopicCompleted = TopicWasCompleted"
| "terminal_kind TopicCancelled = TopicWasCancelled"
| "terminal_kind _ = TopicHasFailed"

definition optional_text :: "string option \<Rightarrow> json" where
  "optional_text v = (case v of None \<Rightarrow> Null | Some said \<Rightarrow> String said)"

definition publish_terminal_events ::
  "('w, 'v) chat_services \<Rightarrow> topic \<Rightarrow> topic_status \<Rightarrow> string option \<Rightarrow> ('w chat, unit) state" where
  "publish_terminal_events s t st summary =
     do {
       ended \<leftarrow> new_event s (tp_session t) (Some (tp_id t)) (terminal_kind st) (tp_updated_at t)
         (json_object [(''summary'', optional_text summary)]);
       notice \<leftarrow> new_event s (tp_session t) (Some (tp_id t)) Notification (tp_updated_at t)
         (json_object [(''kind'', String (status_word st)), (''text'', optional_text summary)]);
       publish_all s [ended, notice]
     }"

definition finish_topic ::
  "('w, 'v) chat_services \<Rightarrow> int \<Rightarrow> topic_status \<Rightarrow> engine_event \<Rightarrow> ('w chat, chat_error + unit) state" where
  "finish_topic s i st e =
     attempted (update_topic_status_and_move_focus s i st (final_summary e)) (\<lambda>(t, moved).
       do {
         publish_terminal_events s t st (final_summary e);
         (case moved of
            Some (successor, from_topic) \<Rightarrow> publish_focus_change s (tp_session t) successor from_topic
          | None \<Rightarrow> State_Monad.return ());
         promote_next_queued s (tp_session t)
       })"

definition handle_engine_event ::
  "('w, 'v) watch_services \<Rightarrow> int \<Rightarrow> engine_event \<Rightarrow> ('w chat, chat_error + unit) state" where
  "handle_engine_event ws i e =
     (case terminal_status e of
        Some st \<Rightarrow> finish_topic (request_services ws) i st e
      | None \<Rightarrow>
          attempted (reading (\<lambda>db. session_of_topic db i)) (\<lambda>r.
            do {
              publish_all (request_services ws)
                [\<lparr>te_event_id = event_id_of ws e, te_session = cs_id r, te_topic = Some i, te_kind = TopicProgress,
                  te_payload = json_object [(''step'', String (progress_step (ee_kind e))),
                    (''detail'', case parse_detail ws (ee_payload_json e) of
                       Some v \<Rightarrow> v | None \<Rightarrow> json_object [(''text'', String (ee_payload_json e))])],
                  te_occurred_at = ee_occurred_at e\<rparr>];
              State_Monad.return (Inr ())
            }))"

section \<open>The loop\<close>

text \<open>An error of the handler is logged; the flag says whether a terminal event was among the events.\<close>

fun consume_events ::
  "('w, 'v) watch_services \<Rightarrow> int \<Rightarrow> engine_event list \<Rightarrow> recent_event_ids \<Rightarrow>
     ('w chat, bool \<times> recent_event_ids) state" where
  "consume_events ws i [] seen = State_Monad.return (False, seen)"
| "consume_events ws i (e # es) seen =
     (case remember (ee_id e) seen of
        (False, seen') \<Rightarrow> consume_events ws i es seen'
      | (True, seen') \<Rightarrow>
          do {
            handled \<leftarrow> handle_engine_event ws i e;
            (saw_terminal, seen'') \<leftarrow> consume_events ws i es seen';
            State_Monad.return (terminal_status e \<noteq> None \<or> saw_terminal, seen'')
          })"

definition consume_one_stream ::
  "('w, 'v) watch_services \<Rightarrow> int \<Rightarrow> uuid \<Rightarrow> principal \<Rightarrow> recent_event_ids \<Rightarrow>
     ('w chat, bool \<times> recent_event_ids) state" where
  "consume_one_stream ws i execution p seen =
     do {
       opened \<leftarrow> outside (stream_events ws p execution);
       case opened of
         Inl e \<Rightarrow> State_Monad.return (False, seen)
       | Inr es \<Rightarrow> consume_events ws i es seen
     }"

text \<open>\<^verbatim>\<open>1u32.checked_shl\<close> with its default, times the base, at most the maximum.\<close>

definition reconnect_delay :: "nat \<Rightarrow> nat" where
  "reconnect_delay attempt =
     min (RECONNECT_BASE_DELAY * (if attempt - 1 < 32 then 2 ^ (attempt - 1) else 2 ^ 32 - 1)) RECONNECT_MAX_DELAY"

definition wait_before_reconnect ::
  "('w, 'v) watch_services \<Rightarrow> int \<Rightarrow> nat \<Rightarrow> ('w chat, bool) state" where
  "wait_before_reconnect ws i attempt =
     do {
       row \<leftarrow> reading (\<lambda>db. topic_by_id db i);
       if map_option tp_status row = Some TopicRunning
       then do { outside (pause ws (reconnect_delay attempt)); State_Monad.return True }
       else State_Monad.return False
     }"

text \<open>\<open>streams\<close> bounds the streams that are opened; the answer says whether the watcher has returned.\<close>

fun watch_rounds ::
  "('w, 'v) watch_services \<Rightarrow> int \<Rightarrow> uuid \<Rightarrow> principal \<Rightarrow> recent_event_ids \<Rightarrow> nat \<Rightarrow> nat \<Rightarrow>
     ('w chat, bool) state" where
  "watch_rounds ws i execution p seen attempt 0 = State_Monad.return False"
| "watch_rounds ws i execution p seen attempt (Suc streams) =
     do {
       (saw_terminal, seen') \<leftarrow> consume_one_stream ws i execution p seen;
       if saw_terminal then State_Monad.return True
       else do {
         again \<leftarrow> wait_before_reconnect ws i (attempt + 1);
         if again then watch_rounds ws i execution p seen' (attempt + 1) streams else State_Monad.return True
       }
     }"

definition watch_topic ::
  "('w, 'v) watch_services \<Rightarrow> int \<Rightarrow> uuid \<Rightarrow> nat \<Rightarrow> ('w chat, bool) state" where
  "watch_topic ws i execution streams =
     do {
       found \<leftarrow> reading (\<lambda>db. session_of_topic db i);
       case found of
         Inl _ \<Rightarrow> State_Monad.return True
       | Inr r \<Rightarrow> watch_rounds ws i execution (principal_of (request_services ws) r) no_event_ids 0 streams
     }"

text \<open>
  What a watcher guarantees. The ids it remembers are the last ones it reported, so an event is reported once as
  long as no more than the window of them is replayed; a longer history is reported again from its first event.
  The end of a topic hands its slot on.
\<close>

section \<open>The window of remembered ids\<close>

definition last_of :: "nat \<Rightarrow> 'a list \<Rightarrow> 'a list" where
  "last_of n xs = drop (length xs - n) xs"

lemma last_of_snoc:
  assumes "0 < n"
  shows "last_of n (xs @ [x]) =
     (if length (last_of n xs) < n then last_of n xs @ [x] else tl (last_of n xs) @ [x])"
  using assms by (auto simp: last_of_def Suc_diff_le drop_Suc tl_drop not_le)

definition window :: "string list \<Rightarrow> recent_event_ids \<Rightarrow> bool" where
  "window news seen \<longleftrightarrow>
     remembered_order seen = last_of MAX_REMEMBERED_EVENT_IDS news \<and>
     remembered_ids seen = set (remembered_order seen) \<and> distinct (remembered_order seen)"

lemma window_start: "window [] no_event_ids"
  by (simp add: window_def no_event_ids_def last_of_def)

lemma window_size: "length (last_of n xs) \<le> n"
  by (simp add: last_of_def)

lemma last_of_whole: "length xs \<le> n \<Longrightarrow> last_of n xs = xs"
  by (simp add: last_of_def)

lemma MAX_pos: "0 < MAX_REMEMBERED_EVENT_IDS"
  by (simp add: MAX_REMEMBERED_EVENT_IDS_def)

text \<open>One id: it is new exactly when it is outside the window, and then the window moves by one.\<close>

lemma remember_window:
  assumes "window news seen"
  shows "fst (remember i seen) \<longleftrightarrow> i \<notin> set (last_of MAX_REMEMBERED_EVENT_IDS news)"
    and "window (if fst (remember i seen) then news @ [i] else news) (snd (remember i seen))"
proof -
  let ?N = MAX_REMEMBERED_EVENT_IDS
  let ?w = "last_of ?N news"
  have seen: "remembered_order seen = ?w" "remembered_ids seen = set ?w" "distinct ?w"
    using assms unfolding window_def by auto
  show new: "fst (remember i seen) \<longleftrightarrow> i \<notin> set ?w"
    by (simp add: remember_def Let_def seen)
  show "window (if fst (remember i seen) then news @ [i] else news) (snd (remember i seen))"
  proof (cases "i \<in> set ?w")
    case True
    with assms show ?thesis by (simp add: remember_def seen)
  next
    case out: False
    show ?thesis
    proof (cases "length ?w < ?N")
      case True
      with out seen show ?thesis
        by (simp add: remember_def Let_def window_def last_of_snoc [OF MAX_pos] not_less)
    next
      case False
      then have "?w \<noteq> []" using MAX_pos by auto
      then obtain h t where w: "?w = h # t" by (cases ?w) auto
      have "length ?w = ?N" using False window_size [of ?N news] by linarith
      with out seen w False show ?thesis
        by (auto simp: remember_def Let_def window_def last_of_snoc [OF MAX_pos])
    qed
  qed
qed

lemma reported_cons:
  "reported_ids (i # is) seen =
     (if fst (remember i seen) then i # fst (reported_ids is (snd (remember i seen))) else fst (reported_ids is (snd (remember i seen))),
      snd (reported_ids is (snd (remember i seen))))"
  by (simp add: Let_def split_beta)

declare reported_ids.simps(2) [simp del]

lemma reported_window:
  "window news seen \<Longrightarrow> window (news @ fst (reported_ids is seen)) (snd (reported_ids is seen))"
proof (induction "is" arbitrary: news seen)
  case (Cons i "is")
  have "window (if fst (remember i seen) then news @ [i] else news) (snd (remember i seen))"
    using Cons.prems by (rule remember_window(2))
  from Cons.IH [OF this] show ?case by (auto simp: reported_cons split: if_splits)
qed simp

lemma reported_append:
  "reported_ids (is @ js) seen =
     (let (a, mid) = reported_ids is seen; (b, out) = reported_ids js mid in (a @ b, out))"
  by (induction "is" arbitrary: seen) (auto simp: reported_cons Let_def split_beta)

text \<open>While at most the window of ids was reported, an id is reported once.\<close>

lemma reported_once:
  assumes "window news seen" and "distinct news" and "length news + length is \<le> MAX_REMEMBERED_EVENT_IDS"
  shows "distinct (news @ fst (reported_ids is seen))"
  using assms
proof (induction "is" arbitrary: news seen)
  case (Cons i "is")
  have all: "last_of MAX_REMEMBERED_EVENT_IDS news = news" using Cons.prems(3) by (simp add: last_of_def)
  show ?case
  proof (cases "fst (remember i seen)")
    case True
    then have "i \<notin> set news" using remember_window(1) [OF Cons.prems(1)] all by simp
    then have "distinct ((news @ [i]) @ fst (reported_ids is (snd (remember i seen))))"
      using Cons.prems remember_window(2) [OF Cons.prems(1), of i] True by (intro Cons.IH) simp_all
    with True show ?thesis by (simp add: reported_cons)
  next
    case False
    then have "distinct (news @ fst (reported_ids is (snd (remember i seen))))"
      using Cons.prems remember_window(2) [OF Cons.prems(1), of i] by (intro Cons.IH) simp_all
    with False show ?thesis by (simp add: reported_cons)
  qed
qed simp

text \<open>Ids that are outside the window when their turn comes are all reported.\<close>

lemma reported_all:
  assumes "window news seen"
    and "\<And>k. k < length is \<Longrightarrow> is ! k \<notin> set (last_of MAX_REMEMBERED_EVENT_IDS (news @ take k is))"
  shows "fst (reported_ids is seen) = is"
  using assms
proof (induction "is" arbitrary: news seen)
  case (Cons i "is")
  have new: "fst (remember i seen)" using remember_window(1) [OF Cons.prems(1)] Cons.prems(2) [of 0] by simp
  have "fst (reported_ids is (snd (remember i seen))) = is"
  proof (rule Cons.IH)
    show "window (news @ [i]) (snd (remember i seen))" using remember_window(2) [OF Cons.prems(1), of i] new by simp
    fix k assume "k < length is"
    then show "is ! k \<notin> set (last_of MAX_REMEMBERED_EVENT_IDS ((news @ [i]) @ take k is))"
      using Cons.prems(2) [of "Suc k"] by simp
  qed
  with new show ?case by (simp add: reported_cons)
qed simp

lemma not_in_last_of_distinct:
  assumes "distinct xs" "k < length xs"
  shows "xs ! k \<notin> set (last_of n (take k xs))"
proof -
  have "set (last_of n (take k xs)) \<subseteq> set (take k xs)" by (simp add: last_of_def set_drop_subset)
  moreover have "xs ! k \<notin> set (take k xs)" using assms by (auto simp: in_set_conv_nth nth_eq_iff_index_eq)
  ultimately show ?thesis by blast
qed

lemma not_in_window_of_replay:
  assumes "distinct xs" "n < length xs" "k < length xs"
  shows "xs ! k \<notin> set (last_of n (xs @ take k xs))"
proof -
  have "set (last_of n (xs @ take k xs)) \<subseteq> set (drop (length xs + k - n) xs) \<union> set (take k xs)"
    using assms(3) by (auto simp: last_of_def min_absorb2 dest!: in_set_dropD)
  moreover have "set (drop (length xs + k - n) xs) \<subseteq> set (drop (Suc k) xs)"
    using assms(2) by (intro set_drop_subset_set_drop) simp
  moreover have "xs ! k \<notin> set (drop (Suc k) xs)"
    using assms(1,3) by (auto simp: in_set_conv_nth nth_eq_iff_index_eq)
  moreover have "xs ! k \<notin> set (take k xs)" using assms(1,3) by (auto simp: in_set_conv_nth nth_eq_iff_index_eq)
  ultimately show ?thesis by blast
qed

lemma reported_set:
  assumes "window news seen" and "length news + length is \<le> MAX_REMEMBERED_EVENT_IDS"
  shows "set news \<union> set is = set (news @ fst (reported_ids is seen)) \<and>
    length (fst (reported_ids is seen)) \<le> length is"
  using assms
proof (induction "is" arbitrary: news seen)
  case (Cons i "is")
  have all: "last_of MAX_REMEMBERED_EVENT_IDS news = news" using Cons.prems(2) by (simp add: last_of_def)
  define next_seen where "next_seen = snd (remember i seen)"
  show ?case
  proof (cases "fst (remember i seen)")
    case True
    then have "window (news @ [i]) next_seen"
      using remember_window(2) [OF Cons.prems(1), of i] by (simp add: next_seen_def)
    from Cons.IH [OF this] Cons.prems(2) True show ?thesis by (auto simp: reported_cons next_seen_def)
  next
    case False
    then have "window news next_seen" "i \<in> set news"
      using remember_window [OF Cons.prems(1), of i] all by (simp_all add: next_seen_def)
    from Cons.IH [OF this(1)] this(2) Cons.prems(2) False show ?thesis by (auto simp: reported_cons next_seen_def)
  qed
qed simp

lemma reported_silent:
  assumes "window news seen" and "set is \<subseteq> set (last_of MAX_REMEMBERED_EVENT_IDS news)"
  shows "fst (reported_ids is seen) = []"
  using assms
proof (induction "is" arbitrary: seen)
  case (Cons i "is")
  then have "\<not> fst (remember i seen)" using remember_window(1) by auto
  with Cons remember_window(2) [OF Cons.prems(1), of i] show ?case by (simp add: reported_cons)
qed simp

text \<open>A watcher whose execution sent at most 1024 events handles each of them once, however much of them a
reconnect replays.\<close>

lemma replay_within_the_window_is_silent:
  assumes "length ids \<le> 1024" and "set replay \<subseteq> set ids"
  shows "distinct (fst (reported_ids (ids @ replay) no_event_ids)) \<and>
    set (fst (reported_ids (ids @ replay) no_event_ids)) = set ids"
proof -
  let ?N = MAX_REMEMBERED_EVENT_IDS
  let ?news = "fst (reported_ids ids no_event_ids)"
  have "length ids \<le> ?N" using assms(1) by (simp add: MAX_REMEMBERED_EVENT_IDS_def)
  then have d: "distinct ?news" and e: "set ?news = set ids" "length ?news \<le> ?N"
    using reported_once [OF window_start, of ids] reported_set [OF window_start, of ids] by auto
  have "window ?news (snd (reported_ids ids no_event_ids))" using reported_window [OF window_start, of ids] by simp
  moreover have "last_of ?N ?news = ?news" using e(2) by (rule last_of_whole)
  ultimately have "fst (reported_ids replay (snd (reported_ids ids no_event_ids))) = []"
    using assms(2) e(1) by (intro reported_silent [where news = ?news]) simp_all
  with d e show ?thesis by (simp add: reported_append Let_def split_beta)
qed

text \<open>An execution that sent more than 1024 events has every one of them handled again when a reconnect replays
its history from the first.\<close>

lemma long_history_is_told_again:
  assumes "distinct ids" and "1024 < length ids"
  shows "fst (reported_ids (ids @ ids) no_event_ids) = ids @ ids"
proof -
  have first: "fst (reported_ids ids no_event_ids) = ids"
    by (rule reported_all [OF window_start]) (use assms(1) in \<open>simp add: not_in_last_of_distinct\<close>)
  then have w: "window ids (snd (reported_ids ids no_event_ids))" using reported_window [OF window_start, of ids] by simp
  have "fst (reported_ids ids (snd (reported_ids ids no_event_ids))) = ids"
    by (rule reported_all [OF w]) (use assms in \<open>simp add: not_in_window_of_replay MAX_REMEMBERED_EVENT_IDS_def\<close>)
  with first show ?thesis by (simp add: reported_append Let_def split_beta)
qed

section \<open>A slot that is freed is handed on\<close>

text \<open>No topic waits while a slot is free; and the same short of one slot, in between.\<close>

definition slots_busy :: "nat \<Rightarrow> uuid \<Rightarrow> chat_db \<Rightarrow> bool" where
  "slots_busy n sid db \<longleftrightarrow>
     topics_ok db \<and> (topics_in db sid {Queued} = [] \<or> n \<le> length (topics_in db sid {TopicRunning}))"

lemma topics_in_event: "topics_in (insert_event_row row db) = topics_in db"
  by (simp add: topics_in_def chat_frame fun_eq_iff)

lemma quiet_busy: "quiet (slots_busy n sid)"
  by (simp add: quiet_def slots_busy_def topics_in_event frames_event)

lemma count_gains:
  assumes "t \<in> set ts" "tp_id t = i" "\<not> P t" "\<And>x. x \<in> set ts \<Longrightarrow> tp_id x = i \<Longrightarrow> P (g x)"
  shows "length (filter P ts) < length (filter P (map (\<lambda>t. if tp_id t = i then g t else t) ts))"
  using assms
proof (induction ts)
  case (Cons x ts)
  have more: "length (filter P us) \<le> length (filter P (map (\<lambda>t. if tp_id t = i then g t else t) us))"
    if "\<And>x. x \<in> set us \<Longrightarrow> tp_id x = i \<Longrightarrow> P (g x)" for us
    using that by (induction us) (auto simp: le_SucI)
  show ?case
  proof (cases "t \<in> set ts")
    case True
    with Cons show ?thesis by (auto simp: less_SucI)
  next
    case False
    with Cons.prems have "x = t" by simp
    with Cons.prems more [of ts] show ?thesis by (simp add: less_Suc_eq_le)
  qed
qed simp

lemma count_loses:
  "length (filter P ts) \<le>
     length (filter P (map (\<lambda>t. if tp_id t = i then g t else t) ts)) + length (filter (\<lambda>t. tp_id t = i \<and> P t) ts)"
  by (induction ts) auto

lemma update_frees_one:
  assumes "slots_busy 3 sid db" and "\<And>t. tp_id (g t) = tp_id t" "\<And>t. tp_session (g t) = tp_session t"
    and "\<And>t. tp_status (g t) \<notin> {Queued, TopicRunning}"
  shows "slots_busy 2 sid (update_topic i g db)"
proof -
  let ?P = "\<lambda>t. tp_session t = sid \<and> tp_status t \<in> {TopicRunning}"
  let ?Q = "\<lambda>t. tp_session t = sid \<and> tp_status t \<in> {Queued}"
  let ?upd = "map (\<lambda>t. if tp_id t = i then g t else t) (topics_table db)"
  have ok: "topics_ok db" using assms(1) by (simp add: slots_busy_def)
  then have "length (filter (\<lambda>t. tp_id t = i \<and> ?P t) (topics_table db)) \<le> 1"
    by (intro length_filter_id) (simp add: topics_ok_def)
  with count_loses [of ?P "topics_table db" i g]
  have "length (filter ?P (topics_table db)) \<le> length (filter ?P ?upd) + 1" by linarith
  moreover have "filter ?Q (topics_table db) = [] \<Longrightarrow> filter ?Q ?upd = []"
    using assms(3,4) by (auto simp: filter_empty_conv)
  moreover have "topics_ok (update_topic i g db)"
    using ok assms(2,4) by (intro topics_ok_update_topic) auto
  ultimately show ?thesis
    using assms(1) unfolding slots_busy_def topics_in_def update_topic_def by auto
qed

lemma promote_fills_one:
  assumes "slots_busy 2 sid db" "next_queued db sid = Some t"
  shows "slots_busy 3 sid (promote_row (tp_id t) execution now db)"
proof -
  let ?P = "\<lambda>t. tp_session t = sid \<and> tp_status t \<in> {TopicRunning}"
  have t: "t \<in> set (topics_table db)" "tp_session t = sid" "tp_status t = Queued"
    using assms(2) by (auto simp: next_queued_def topics_in_def dest!: oldest_mem split: if_splits)
  then have "topics_in db sid {Queued} \<noteq> []" by (auto simp: topics_in_def filter_empty_conv)
  then have two: "2 \<le> length (topics_in db sid {TopicRunning})" using assms(1) by (simp add: slots_busy_def)
  have ok: "topics_ok db" using assms(1) by (simp add: slots_busy_def)
  have same: "x = t" if "x \<in> set (topics_table db)" "tp_id x = tp_id t" for x
    using ok t(1) that by (auto simp: topics_ok_def distinct_map inj_on_def)
  let ?g = "\<lambda>t. t\<lparr>tp_status := TopicRunning, tp_execution := Some execution, tp_updated_at := now\<rparr>"
  have "?P (?g x)" if "x \<in> set (topics_table db)" "tp_id x = tp_id t" for x
    using same [OF that] t(2) by simp
  then have "length (filter ?P (topics_table db)) <
      length (filter ?P (map (\<lambda>x. if tp_id x = tp_id t then ?g x else x) (topics_table db)))"
    using t(1,3) by (intro count_gains [where t = t]) simp_all
  then have "length (topics_in db sid {TopicRunning}) < length (topics_in (promote_row (tp_id t) execution now db) sid {TopicRunning})"
    unfolding topics_in_def promote_row_def update_topic_def by simp
  moreover have "topics_ok (promote_row (tp_id t) execution now db)"
    unfolding promote_row_def using ok by (intro topics_ok_update_topic) auto
  ultimately show ?thesis using two by (simp add: slots_busy_def)
qed

lemma nothing_queued:
  assumes "slots_busy 2 sid db" "next_queued db sid = None"
  shows "slots_busy 3 sid db"
proof (cases "admission_status db sid = TopicRunning")
  case True
  then have "sort_key tp_created_at (topics_in db sid {Queued}) = []"
    using assms(2) by (auto simp: next_queued_def oldest_def split: list.splits)
  then have "topics_in db sid {Queued} = []" by (metis length_0_conv length_sort)
  with assms(1) show ?thesis by (simp add: slots_busy_def)
next
  case False
  then have "3 \<le> length (topics_in db sid {TopicRunning})"
    by (simp add: admission_status_def MAX_CONCURRENT_TOPICS_def split: if_splits)
  with assms(1) show ?thesis by (simp add: slots_busy_def)
qed

lemma started_fills_one:
  "holds (\<lambda>db. slots_busy 2 sid db \<and> next_queued db sid = Some t) (start_queued s locked sid t)
     (\<lambda>r db. r = Inr () \<longrightarrow> slots_busy 3 sid db)"
  (is "holds ?P _ ?Q")
  unfolding start_queued_def
proof (rule holds_then [OF holds_reading], simp, rule holds_then [OF stays_outside])
  fix answered
  have "holds ?P (do {
         now \<leftarrow> outside (clock s);
         writing (promote_row (tp_id t) execution now);
         publish_now s sid (Some (tp_id t)) TopicStarted (json_object []);
         spawn_watch (tp_id t) execution;
         State_Monad.return (Inr ()) }) ?Q" for execution
    by (rule holds_then [OF stays_outside], rule holds_bind [where R = "\<lambda>_. slots_busy 3 sid"])
      (auto intro!: holds_writing promote_fills_one holds_then [OF stays_publish_now [OF quiet_busy]]
        holds_bind [where R = "\<lambda>_. slots_busy 3 sid"] holds_spawn holds_return)
  then show "holds ?P (case answered of
        Inl e \<Rightarrow> State_Monad.return (Inl (ChatEngine e))
      | Inr execution \<Rightarrow>
          do {
            now \<leftarrow> outside (clock s);
            writing (promote_row (tp_id t) execution now);
            publish_now s sid (Some (tp_id t)) TopicStarted (json_object []);
            spawn_watch (tp_id t) execution;
            State_Monad.return (Inr ())
          }) ?Q"
    by (cases answered) (auto intro: holds_return)
qed

lemma promote_keeps_busy:
  "holds (slots_busy 2 sid) (promote_next_queued s sid) (\<lambda>r db. r = Inr () \<longrightarrow> slots_busy 3 sid db)"
  (is "holds ?B _ ?Q")
  unfolding promote_next_queued_def
proof (rule holds_attempted [where R = "\<lambda>_. ?B"])
  show "holds ?B (reading (found_session sid)) (\<lambda>r db. case r of Inl e \<Rightarrow> ?Q (Inl e) db | Inr _ \<Rightarrow> ?B db)"
    by (rule holds_reading) (auto split: sum.splits)
next
  fix locked
  show "holds ?B (do {
         candidate \<leftarrow> reading (\<lambda>db. next_queued db sid);
         case candidate of None \<Rightarrow> State_Monad.return (Inr ()) | Some t \<Rightarrow> start_queued s locked sid t
       }) ?Q"
  proof (rule holds_bind [where R = "\<lambda>candidate db. ?B db \<and> next_queued db sid = candidate"])
    fix candidate
    show "holds (\<lambda>db. ?B db \<and> next_queued db sid = candidate)
        (case candidate of None \<Rightarrow> State_Monad.return (Inr ()) | Some t \<Rightarrow> start_queued s locked sid t) ?Q"
      using started_fills_one nothing_queued by (cases candidate) (auto intro!: holds_return)
  qed (auto intro: holds_reading)
qed

text \<open>The events of the end leave the slots as they are.\<close>

lemma terminal_events_keep:
  "holds (slots_busy n sid) (publish_terminal_events s t st summary) (\<lambda>_. slots_busy n sid)"
  unfolding publish_terminal_events_def new_event_def
  by (simp add: holds_then stays_outside holds_return stays_publish_all [OF quiet_busy])

lemma focus_change_keeps:
  "holds (slots_busy n sid) (publish_focus_change s i successor from_topic) (\<lambda>_. slots_busy n sid)"
  unfolding publish_focus_change_def by (rule stays_publish_now [OF quiet_busy])

lemma finish_row_frees_one:
  assumes "slots_busy 3 sid db" "st \<notin> {Queued, TopicRunning}"
  shows "slots_busy 2 sid (snd (finish_row i st summary now r db))"
proof -
  let ?db = "update_topic i (\<lambda>t. t\<lparr>tp_status := st, tp_result_summary := summary, tp_updated_at := now\<rparr>) db"
  have freed: "slots_busy 2 sid ?db" using assms by (intro update_frees_one) auto
  have "slots_busy 2 sid (snd (move_focus_off_completed r i ?db))"
    using freed same_topics(1) [OF move_focus_tables(1,2), of r i ?db]
    by (simp add: slots_busy_def topics_in_def move_focus_tables)
  with freed show ?thesis by (cases rule: finish_row_cases [of i st summary now r db]) simp_all
qed

lemma update_settles:
  assumes "st \<notin> {Queued, TopicRunning}"
  shows "holds (\<lambda>db. slots_busy 3 sid db \<and> belongs db sid i) (update_topic_status_and_move_focus s i st summary)
     (\<lambda>r db. case r of Inl e \<Rightarrow> True | Inr (t, moved) \<Rightarrow> tp_session t = sid \<and> slots_busy 2 sid db)"
  (is "holds ?P _ ?Q")
  unfolding update_topic_status_and_move_focus_def
proof (rule holds_attempted [where R = "\<lambda>_. ?P"])
  show "holds ?P (reading (\<lambda>db. session_of_topic db i)) (\<lambda>r db. case r of Inl e \<Rightarrow> ?Q (Inl e) db | Inr _ \<Rightarrow> ?P db)"
    by (rule holds_reading) (auto split: sum.splits)
next
  fix r
  show "holds ?P (attempted (reading (found_session (cs_id r))) (\<lambda>locked.
       do {
         now \<leftarrow> outside (clock s);
         moved \<leftarrow> reading (\<lambda>db. fst (finish_row i st summary now locked db));
         writing (\<lambda>db. snd (finish_row i st summary now locked db));
         row \<leftarrow> reading (\<lambda>db. topic_by_id db i);
         State_Monad.return (case row of None \<Rightarrow> Inl (TopicNotFound i) | Some t \<Rightarrow> Inr (t, moved))
       })) ?Q"
  proof (rule holds_attempted [where R = "\<lambda>_. ?P"])
    show "holds ?P (reading (found_session (cs_id r))) (\<lambda>r db. case r of Inl e \<Rightarrow> ?Q (Inl e) db | Inr _ \<Rightarrow> ?P db)"
      by (rule holds_reading) (auto split: sum.splits)
  next
    fix locked
    let ?S = "\<lambda>db. slots_busy 2 sid db \<and> belongs db sid i"
    have settled: "?S (snd (finish_row i st summary now locked db))" if "?P db" for now db
    proof -
      have "topics_ok db" "slots_busy 3 sid db" "belongs db sid i" using that by (simp_all add: slots_busy_def)
      moreover have "belongs (snd (finish_row i st summary now locked db)) = belongs db"
        by (cases rule: finish_row_cases [of i st summary now locked db])
          (simp_all add: belongs_update_topic same_topics(3) [OF move_focus_tables(1,2)])
      ultimately show ?thesis using assms finish_row_frees_one by simp
    qed
    have found: "tp_session t = sid" if "?S db" "topic_by_id db i = Some t" for db t
      using focus_found [of db sid i] that by (auto simp: slots_busy_def)
    show "holds ?P (do {
         now \<leftarrow> outside (clock s);
         moved \<leftarrow> reading (\<lambda>db. fst (finish_row i st summary now locked db));
         writing (\<lambda>db. snd (finish_row i st summary now locked db));
         row \<leftarrow> reading (\<lambda>db. topic_by_id db i);
         State_Monad.return (case row of None \<Rightarrow> Inl (TopicNotFound i) | Some t \<Rightarrow> Inr (t, moved))
       }) ?Q"
      by (rule holds_then [OF stays_outside], rule holds_then [OF holds_reading], simp,
          rule holds_bind [where R = "\<lambda>_. ?S"])
        (auto intro!: holds_writing settled holds_bind [where R = "\<lambda>row db. ?S db \<and> topic_by_id db i = row", OF holds_reading]
          holds_return found split: option.splits)
  qed
qed

text \<open>C25: if no topic of a session waits while one of its three slots is free, then neither does one after a
terminal event was handled without an error: the slot that the ended topic leaves is taken by the oldest topic
that waits.\<close>

theorem freed_slot_is_handed_on:
  assumes "slots_busy 3 sid (cdb y)" and "belongs (cdb y) sid i" and "terminal_status e = Some st"
    and "run_state (handle_engine_event ws i e) y = (Inr (), z)"
  shows "slots_busy 3 sid (cdb z)"
proof -
  let ?s = "request_services ws"
  have st: "st \<notin> {Queued, TopicRunning}"
    using assms(3) by (cases "ee_kind e") (auto simp: terminal_status_def)
  have moved: "holds (slots_busy 2 sid) (case moved of
        Some (successor, from_topic) \<Rightarrow> publish_focus_change ?s sid successor from_topic
      | None \<Rightarrow> State_Monad.return ()) (\<lambda>_. slots_busy 2 sid)" for moved
    by (cases moved) (auto intro: focus_change_keeps holds_return)
  have "holds (slots_busy 2 sid)
      (do {
         publish_terminal_events ?s t st (final_summary e);
         (case moved of
            Some (successor, from_topic) \<Rightarrow> publish_focus_change ?s sid successor from_topic
          | None \<Rightarrow> State_Monad.return ());
         promote_next_queued ?s sid
       }) (\<lambda>r db. r = Inr () \<longrightarrow> slots_busy 3 sid db)" for t moved
    by (rule holds_then [OF terminal_events_keep], rule holds_then [OF moved], rule promote_keeps_busy)
  then have "holds (\<lambda>db. slots_busy 3 sid db \<and> belongs db sid i) (finish_topic ?s i st e)
      (\<lambda>r db. r = Inr () \<longrightarrow> slots_busy 3 sid db)"
    unfolding finish_topic_def
    by (intro holds_attempted [where R = "\<lambda>(t, moved) db. tp_session t = sid \<and> slots_busy 2 sid db"]
        holds_weaken [OF update_settles [OF st]])
      (fastforce simp: holds_def split: sum.splits prod.splits)+
  moreover have "run_state (finish_topic ?s i st e) y = (Inr (), z)"
    using assms(3,4) by (simp add: handle_engine_event_def)
  ultimately show ?thesis using assms(1,2) by (auto simp: holds_def)
qed

end
