(* ===== verification/Chat_Witnesses.thy ===== *)
theory Chat_Witnesses
  imports Chat_Routing Chat_Watch Agent_Witnesses Ref_Platform
begin

text \<open>
  A chat service whose decider is unreachable and whose engine starts one execution and refuses every other,
  and the sessions, topics and turns that come of it.
\<close>

section \<open>The services\<close>

definition ref_intent :: "(nat, json) intent_services" where
  "ref_intent =
     \<lparr>intent_llm = (\<lambda>_. State_Monad.return (Inl ''unreachable'')),
      intent_decider = (\<lambda>_. State_Monad.return (Inl ''unreachable''))\<rparr>"

definition ref_chat_codec :: "json chat_codec" where
  "ref_chat_codec = \<lparr>agent = ref_agent, read_raw_action = (\<lambda>_. None), show_plan = (\<lambda>_. ''{}'')\<rparr>"

definition ref_calendar :: calendar where
  "ref_calendar =
     \<lparr>year_of = (\<lambda>_. 1970), month_of_year = (\<lambda>_. 1), first_of = (\<lambda>_ _. Some 0),
      plus_months = (\<lambda>t n. Some (t + int n * 2678400000000000)), minus_months = (\<lambda>t n. Some t)\<rparr>"

definition one_start :: "(nat, string + uuid) state" where
  "one_start = State (\<lambda>n. (if n = 0 then Inr 7 else Inl ''full'', Suc n))"

definition ref_chat :: "(nat, json) chat_services" where
  "ref_chat =
     \<lparr>engine_start = (\<lambda>_ _ _ _. one_start),
      engine_interrupt = (\<lambda>_ _ _. State_Monad.return (Inr ())),
      clock = State_Monad.return 0, draw_uuid = State_Monad.return 5,
      intent = ref_intent, chat_code = ref_chat_codec, known_budget = None,
      json_text = (\<lambda>_. ''{}''), uuid_text = (\<lambda>_. ''u''), rpc_error_text = snd, utc_calendar = ref_calendar\<rparr>"

definition ref_start :: "nat chat" where
  "ref_start = \<lparr>cdb = empty_chat_db, told = [], watched = [], outer = 0\<rparr>"

lemma ref_route:
  "run_state (route_message ref_intent ref_chat_codec None [] None said) w =
     (Act [NewTopic (truncate_chars said MAX_TITLE_CHARS) said], w)"
  by (auto simp: route_message_def ref_intent_def continue_focus_or_open_one_topic_def split: option.split)

section \<open>Routing\<close>

lemma every_message_is_routed_witness:
  "routing_ok [] ''hi'' (Act [NewTopic (truncate_chars ''hi'' MAX_TITLE_CHARS) ''hi''])"
  by (rule every_message_is_routed [OF ref_route])

definition known_topic :: topic_summary where
  "known_topic = \<lparr>ts_id = 3, ts_title = ''t'', ts_status = TopicRunning, ts_result_summary = None, ts_last_active_at = 0\<rparr>"

definition picks_known_topic :: "typed_answer list" where
  "picks_known_topic = [\<lparr>answer_id = ROUTE_ID, given_answer = ChoiceAnswer (topic_option_name 3) fmempty 1\<rparr>]"

lemma confident_choice_is_followed_witness:
  "\<exists>asks. fst (run_state (placed_by_the_answers ref_intent ref_chat_codec picks_known_topic [known_topic] None
     ''and then?'') 0) = Act [Continue 3 asks]"
  by (rule confident_choice_is_followed [where conf = 1, OF _ _ _ _ _ prod.collapse [symmetric]])
    (simp_all add: picks_known_topic_def find_choice_def knows_topic_def known_topic_def)

section \<open>A session with a running topic\<close>

definition one_session :: chat_sys where
  "one_session = start_sys\<lparr>tables := insert_session 1 9 0 (tables start_sys), drawn_ids := insert 1 (drawn_ids start_sys)\<rparr>"

definition one_topic :: chat_sys where
  "one_topic = one_session\<lparr>tables := snd (insert_topic_row 1 None ''t'' Null (Some 7) 0 (tables one_session))\<rparr>"

lemmas ref_tables = one_topic_def one_session_def start_sys_def empty_chat_db_def insert_session_def
  insert_topic_row_def session_by_id_def admission_status_def topics_in_def MAX_CONCURRENT_TOPICS_def set_focus_row_def

lemma one_topic_reachable: "chat_reachable one_topic"
proof -
  have "chat_step start_sys one_session" unfolding one_session_def by (rule open_session) (simp add: start_sys_def)
  moreover have "\<exists>r. session_by_id (tables one_session) 1 = Some r"
    "admission_status (tables one_session) 1 = TopicRunning"
    by (simp_all add: ref_tables)
  then have "chat_step one_session one_topic" unfolding one_topic_def by (auto intro: chat_step.insert_topic)
  ultimately show ?thesis by (metis converse_rtranclp_into_rtranclp rtranclp.rtrancl_refl)
qed

lemma one_topic_tables:
  "topics_in (tables one_topic) 1 {TopicRunning} = topics_table (tables one_topic)"
  "length (topics_table (tables one_topic)) = 1"
  "map cs_focus (chat_sessions (tables one_topic)) = [Some 1]"
  by (simp_all add: ref_tables Let_def)

theorem at_most_three_topics_run_witness:
  "length (topics_in (tables one_topic) 1 {TopicRunning}) = 1 \<and>
   length (topics_in (tables one_topic) 1 {TopicRunning}) \<le> 3"
  using at_most_three_topics_run [OF one_topic_reachable] by (simp add: one_topic_tables)

lemma focus_points_into_its_session_witness:
  "\<exists>r :: chat_session. cs_focus r = Some 1 \<and> (\<exists>t \<in> set (topics_table (tables one_topic)). tp_id t = 1 \<and> tp_session t = cs_id r)"
proof -
  obtain r where "r \<in> set (chat_sessions (tables one_topic))" "cs_focus r = Some 1"
    using one_topic_tables(3) by (cases "chat_sessions (tables one_topic)") auto
  with focus_points_into_its_session [OF one_topic_reachable] show ?thesis by blast
qed

section \<open>Turns\<close>

lemma ref_ok: "topics_ok (cdb ref_start)" "messages_ok (cdb ref_start)"
  by (simp_all add: ref_start_def empty_chat_db_def topics_ok_def messages_ok_def marks_def)

definition first_turn :: "(chat_error + int list) \<times> nat chat" where
  "first_turn = run_state (send_turn ref_chat 9 1 ''hi'') ref_start"

lemma ref_chat_simps:
  "engine_start ref_chat p g j c = one_start" "engine_interrupt ref_chat p e j = State_Monad.return (Inr ())"
  "clock ref_chat = State_Monad.return 0" "draw_uuid ref_chat = State_Monad.return 5"
  "intent ref_chat = ref_intent" "chat_code ref_chat = ref_chat_codec" "known_budget ref_chat = None"
  "utc_calendar ref_chat = ref_calendar"
  by (simp_all add: ref_chat_def)

lemma run_plumbing:
  "run_state (outside m) y = (let (r, w) = run_state m (outer y) in (r, y\<lparr>outer := w\<rparr>))"
  "run_state (reading f) y = (f (cdb y), y)"
  "run_state (writing g) y = ((), y\<lparr>cdb := g (cdb y)\<rparr>)"
  "run_state (tell_live_subscribers es) y = ((), y\<lparr>told := told y @ es\<rparr>)"
  "run_state (spawn_watch i execution) y = ((), y\<lparr>watched := watched y @ [(i, execution)]\<rparr>)"
  by (simp_all add: outside_def reading_def writing_def tell_live_subscribers_def spawn_watch_def)

lemma ref_clamp: "clamp_to_open_window ref_calendar 0 0 MONTHS_OPEN_AHEAD = 0"
  by (simp add: clamp_to_open_window_def month_start_def add_months_def or_else_def ref_calendar_def
      MONTHS_OPEN_AHEAD_def MICROSECOND_def)

lemmas turn_defs = send_turn_def get_session_view_def get_or_create_session_def deliver_turn_def
  delivered_or_busy_def apply_actions_def create_topic_def create_topic_continuing_def insert_topic_def
  start_if_admitted_def insert_admitted_def announce_topic_def publish_def publish_now_def new_event_def
  publish_all_def store_events_def record_turn_def set_focus_def found_session_def already_delivered_def
  delivered_to_def run_plumbing run_attempted has_no_record_but_the_event_log_def or_else_def first_of_both_def

lemmas table_defs = session_of_user_def empty_chat_db_def insert_session_def session_by_id_def topic_by_id_def
  admission_status_def topics_in_def MAX_CONCURRENT_TOPICS_def insert_topic_row_def set_focus_row_def
  insert_event_row_def row_for_def ref_clamp insert_message_def topics_of_session_def

lemma first_turn_delivered: "fst first_turn = Inr [1]"
  by (simp add: first_turn_def turn_defs table_defs ref_chat_simps ref_start_def summaries_def ref_route
      one_start_def Let_def)


text \<open>The engine that is full refuses the turn.\<close>

definition full_turn :: "(chat_error + int list) \<times> nat chat" where
  "full_turn = run_state (send_turn ref_chat 9 1 ''hi'') (ref_start\<lparr>outer := 1\<rparr>)"

lemma full_turn_fails: "fst full_turn = Inl (ChatEngine ''full'')"
  by (simp add: full_turn_def turn_defs table_defs ref_chat_simps ref_start_def summaries_def ref_route
      one_start_def Let_def)


definition session_opened :: "nat chat" where
  "session_opened = snd (run_state (get_or_create_session ref_chat 9) ref_start)"

lemma session_opened_eq:
  "session_opened = ref_start\<lparr>cdb := insert_session 5 9 0 empty_chat_db\<rparr>"
  by (simp add: session_opened_def turn_defs table_defs ref_chat_simps ref_start_def Let_def)

lemma session_opened_ok:
  "topics_ok (cdb session_opened)" "messages_ok (cdb session_opened)" "session_is (cdb session_opened) 9 5"
  "holders (cdb session_opened) 5 1 = {}"
  by (simp_all add: session_opened_eq topics_ok_def messages_ok_def marks_def session_is_def holders_def table_defs)

lemma first_theme_starts:
  "fst (run_state (create_topic ref_chat 9 None ''a'' (execution_input_json ''one?'')) session_opened) =
     Inr (1, TopicRunning)"
  by (simp add: session_opened_eq turn_defs table_defs ref_chat_simps ref_start_def one_start_def Let_def)

definition two_themes :: "(chat_error + int list) \<times> nat chat" where
  "two_themes = run_state (deliver_turn ref_chat 9 1 ''hi'' [NewTopic ''a'' ''one?'', NewTopic ''b'' ''two?''])
     session_opened"

lemma two_themes_fails: "fst two_themes = Inl (ChatEngine ''full'')"
  by (simp add: two_themes_def session_opened_eq turn_defs table_defs ref_chat_simps ref_start_def one_start_def Let_def)

lemma failed_turn_keeps_its_first_topic_witness:
  "belongs (cdb (snd two_themes)) 5 1 \<and> holders (cdb (snd two_themes)) 5 1 = {}"
proof -
  have created: "run_state (create_topic ref_chat 9 None ''a'' (execution_input_json ''one?'')) session_opened =
      (Inr (1, TopicRunning),
       snd (run_state (create_topic ref_chat 9 None ''a'' (execution_input_json ''one?'')) session_opened))"
    using first_theme_starts by (metis prod.collapse)
  have run: "run_state (deliver_turn ref_chat 9 1 ''hi'' [NewTopic ''a'' ''one?'', NewTopic ''b'' ''two?''])
      session_opened = (Inl (ChatEngine ''full''), snd two_themes)"
    using two_themes_fails by (metis two_themes_def prod.collapse)
  from failed_turn_keeps_its_first_topic [OF session_opened_ok created run] show ?thesis by blast
qed

section \<open>A watcher\<close>

lemma replay_within_the_window_is_silent_witness:
  "distinct (fst (reported_ids [''a'', ''b'', ''b''] no_event_ids)) \<and>
   set (fst (reported_ids [''a'', ''b'', ''b''] no_event_ids)) = {''a'', ''b''}"
  using replay_within_the_window_is_silent [of "[''a'', ''b'']" "[''b'']"] by simp

definition long_history :: "string list" where
  "long_history = map show_nat [0..<1025]"

lemma long_history_is_told_again_witness:
  "fst (reported_ids (long_history @ long_history) no_event_ids) = long_history @ long_history"
  by (rule long_history_is_told_again)
    (simp_all add: long_history_def distinct_map inj_on_def show_nat_inj)

definition ref_watch :: "(nat, json) watch_services" where
  "ref_watch =
     \<lparr>request_services = ref_chat, stream_events = (\<lambda>_ _. State_Monad.return (Inr [])),
      pause = (\<lambda>_. State_Monad.return ()), hashed_id = (\<lambda>_. 3), parse_detail = (\<lambda>_. None)\<rparr>"

definition completed_event :: engine_event where
  "completed_event =
     \<lparr>ee_id = ''e'', ee_kind = KExecutionCompleted, ee_payload_json = ''{}'', ee_result = Some ''done'',
      ee_error = None, ee_occurred_at = 0\<rparr>"

definition watched_topic :: "nat chat" where
  "watched_topic = ref_start\<lparr>cdb := snd (insert_topic_row 5 None ''t'' Null (Some 7) 0 (insert_session 5 9 0 empty_chat_db))\<rparr>"

lemma watched_topic_busy: "slots_busy 3 5 (cdb watched_topic)" "belongs (cdb watched_topic) 5 1"
  by (simp_all add: watched_topic_def slots_busy_def topics_ok_def belongs_def table_defs Let_def)

lemma completed_event_handled:
  "fst (run_state (handle_engine_event ref_watch 1 completed_event) watched_topic) = Inr ()"
  by (simp add: watched_topic_def handle_engine_event_def terminal_status_def completed_event_def ref_watch_def
      finish_topic_def update_topic_status_and_move_focus_def session_of_topic_def finish_row_def update_topic_def
      move_focus_off_completed_def oldest_def publish_terminal_events_def publish_focus_change_def
      promote_next_queued_def next_queued_def turn_defs table_defs ref_chat_simps ref_start_def Let_def)

theorem freed_slot_is_handed_on_witness:
  "slots_busy 3 5 (cdb (snd (run_state (handle_engine_event ref_watch 1 completed_event) watched_topic)))"
proof (rule freed_slot_is_handed_on [OF watched_topic_busy])
  show "terminal_status completed_event = Some TopicCompleted" by (simp add: terminal_status_def completed_event_def)
  show "run_state (handle_engine_event ref_watch 1 completed_event) watched_topic =
      (Inr (), snd (run_state (handle_engine_event ref_watch 1 completed_event) watched_topic))"
    using completed_event_handled by (metis prod.collapse)
qed

end
