(* ===== verification/Tool_Registry.thy ===== *)
theory Tool_Registry
  imports Text_Search Json Decision_Budget System_One
begin

text \<open>
  The registry of \<^verbatim>\<open>services/tool\<close>: \<^verbatim>\<open>entity/tool.rs\<close>, \<^verbatim>\<open>error.rs\<close>, \<^verbatim>\<open>policy.rs\<close>, \<^verbatim>\<open>slugs.rs\<close> and the
  lifecycle of \<^verbatim>\<open>service.rs\<close>, from a submitted definition through its review to the catalog. The table is
  a list of rows with the unique index the service creates; a statement on it takes effect when it is made,
  and fails here only where that index refuses it. A review reads its row, asks the decider, and writes the
  verdict later: the two halves are definitions of their own, because other requests come in between.
\<close>

section \<open>entity/tool.rs\<close>

datatype risk = ReadOnly | Write | Destructive

datatype tool_status = Draft | Validated | Active

record tool_row =
  tl_id :: int
  tl_user :: "uuid option"
  tl_slug :: string
  tl_name :: string
  tl_description :: string
  tl_input_schema :: json
  tl_output_schema :: json
  tl_sources :: "json option"
  tl_connection :: "int option"
  tl_risk :: risk
  tl_timeout :: int
  tl_status :: tool_status
  tl_created_at :: instant
  tl_updated_at :: instant

record tool_db =
  tools_table :: "tool_row list"
  next_tool_id :: int

text \<open>The key of \<^verbatim>\<open>tools_owner_slug_idx\<close>: the owner, or the zero UUID for the system, and the slug.\<close>

definition owner_slug :: "tool_row \<Rightarrow> uuid \<times> string" where
  "owner_slug r = (case tl_user r of None \<Rightarrow> 0 | Some u \<Rightarrow> u, tl_slug r)"

section \<open>error.rs, policy.rs, slugs.rs\<close>

datatype tool_error =
    InvalidRequest string
  | ToolNotFound int
  | DbFailure string
  | BadJson string
  | ReviewUnavailable string

fun tool_error_text :: "tool_error \<Rightarrow> string" where
  "tool_error_text (InvalidRequest e) = ''invalid request: '' @ e"
| "tool_error_text (ToolNotFound i) = ''tool not found: '' @ show_int i"
| "tool_error_text (DbFailure e) = ''database error: '' @ e"
| "tool_error_text (BadJson e) = ''invalid json: '' @ e"
| "tool_error_text (ReviewUnavailable e) = ''tool review is unavailable: '' @ e"

definition INTERNAL_MESSAGE_WITHOUT_STORAGE_DETAIL :: string where
  "INTERNAL_MESSAGE_WITHOUT_STORAGE_DETAIL = ''the request could not be completed''"

fun tool_connect_error :: "tool_error \<Rightarrow> rpc_error" where
  "tool_connect_error (InvalidRequest e) = (InvalidArgument, tool_error_text (InvalidRequest e))"
| "tool_connect_error (ToolNotFound i) = (NotFound, tool_error_text (ToolNotFound i))"
| "tool_connect_error (DbFailure e) = (Internal, INTERNAL_MESSAGE_WITHOUT_STORAGE_DETAIL)"
| "tool_connect_error (BadJson e) = (Internal, INTERNAL_MESSAGE_WITHOUT_STORAGE_DETAIL)"
| "tool_connect_error (ReviewUnavailable e) = (Unavailable, tool_error_text (ReviewUnavailable e))"

datatype policy_decision = PolicyExecute | PolicyRequiresApproval

fun check_policy :: "risk \<Rightarrow> policy_decision" where
  "check_policy ReadOnly = PolicyExecute"
| "check_policy Write = PolicyRequiresApproval"
| "check_policy Destructive = PolicyRequiresApproval"

definition WEB_SEARCH :: string where "WEB_SEARCH = ''web_search''"
definition WEB_FETCH :: string where "WEB_FETCH = ''web_fetch''"
definition KB_SEARCH :: string where "KB_SEARCH = ''kb_search''"
definition KB_READ_DOCUMENT :: string where "KB_READ_DOCUMENT = ''kb_read_document''"

definition RESERVED_FOR_SYSTEM_TOOLS :: "string list" where
  "RESERVED_FOR_SYSTEM_TOOLS = [WEB_SEARCH, WEB_FETCH, KB_SEARCH, KB_READ_DOCUMENT]"

section \<open>service.rs: definitions\<close>

definition MAX_SLUG_CHARS :: nat where "MAX_SLUG_CHARS = 64"
definition MAX_NAME_CHARS :: nat where "MAX_NAME_CHARS = 128"
definition MAX_DESCRIPTION_CHARS :: nat where "MAX_DESCRIPTION_CHARS = 8192"
definition MIN_TIMEOUT_SECONDS :: int where "MIN_TIMEOUT_SECONDS = 1"
definition MAX_TIMEOUT_SECONDS :: int where "MAX_TIMEOUT_SECONDS = 300"
definition APPROVAL_THRESHOLD :: rat where "APPROVAL_THRESHOLD = 7 / 10"

record new_tool =
  nt_slug :: string
  nt_name :: string
  nt_description :: string
  nt_input_schema :: json
  nt_output_schema :: json
  nt_risk :: risk
  nt_timeout :: int

definition bounded_field :: "string \<Rightarrow> string \<Rightarrow> nat \<Rightarrow> tool_error + unit" where
  "bounded_field field v max_chars =
     (if trim v = [] then Inl (InvalidRequest (field @ '' is required''))
      else if max_chars < char_count v
      then Inl (InvalidRequest (field @ '' is '' @ show_nat (char_count v) @ '' characters, the maximum is '' @
        show_nat max_chars))
      else Inr ())"

definition new_tool_checked :: "new_tool \<Rightarrow> tool_error + new_tool" where
  "new_tool_checked t =
     and_then (bounded_field ''slug'' (nt_slug t) MAX_SLUG_CHARS) (\<lambda>_.
     and_then (bounded_field ''name'' (nt_name t) MAX_NAME_CHARS) (\<lambda>_.
     and_then (bounded_field ''description'' (nt_description t) MAX_DESCRIPTION_CHARS) (\<lambda>_.
     if \<not> is_object (nt_input_schema t) \<or> \<not> is_object (nt_output_schema t)
     then Inl (InvalidRequest ''input_schema and output_schema must be JSON objects'')
     else if nt_timeout t < MIN_TIMEOUT_SECONDS \<or> MAX_TIMEOUT_SECONDS < nt_timeout t
     then Inl (InvalidRequest (''timeout_seconds must be between '' @ show_int MIN_TIMEOUT_SECONDS @ '' and '' @
       show_int MAX_TIMEOUT_SECONDS @ '', got '' @ show_int (nt_timeout t)))
     else Inr t)))"

definition registered_timeout :: "int \<Rightarrow> nat" where
  "registered_timeout seconds = nat \<bar>max MIN_TIMEOUT_SECONDS (min MAX_TIMEOUT_SECONDS seconds)\<bar>"

definition claims_reserved_slug :: "uuid option \<Rightarrow> string \<Rightarrow> bool" where
  "claims_reserved_slug owner s \<longleftrightarrow> owner \<noteq> None \<and> s \<in> set RESERVED_FOR_SYSTEM_TOOLS"

section \<open>service.rs: the table\<close>

definition draft_row :: "int \<Rightarrow> uuid option \<Rightarrow> new_tool \<Rightarrow> instant \<Rightarrow> tool_row" where
  "draft_row i owner t now =
     \<lparr>tl_id = i, tl_user = owner, tl_slug = nt_slug t, tl_name = nt_name t, tl_description = nt_description t,
      tl_input_schema = nt_input_schema t, tl_output_schema = nt_output_schema t, tl_sources = None,
      tl_connection = None, tl_risk = nt_risk t, tl_timeout = nt_timeout t, tl_status = Draft,
      tl_created_at = now, tl_updated_at = now\<rparr>"

text \<open>The sequence of ids moves on even where the index refuses the row.\<close>

definition insert_tool :: "tool_row \<Rightarrow> tool_db \<Rightarrow> (tool_error + int) \<times> tool_db" where
  "insert_tool r db =
     (if owner_slug r \<in> owner_slug ` set (tools_table db)
      then (Inl (DbFailure ''duplicate key value violates unique constraint'') , db\<lparr>next_tool_id := next_tool_id db + 1\<rparr>)
      else (Inr (tl_id r), db\<lparr>tools_table := tools_table db @ [r], next_tool_id := next_tool_id db + 1\<rparr>))"

definition create_tool ::
  "uuid option \<Rightarrow> new_tool \<Rightarrow> instant \<Rightarrow> tool_db \<Rightarrow> (tool_error + int) \<times> tool_db" where
  "create_tool owner t now db =
     (if claims_reserved_slug owner (nt_slug t)
      then (Inl (InvalidRequest (''slug '' @ quoted (nt_slug t) @ '' is reserved for a system tool'')), db)
      else insert_tool (draft_row (next_tool_id db) owner t now) db)"

definition update_tool :: "int \<Rightarrow> (tool_row \<Rightarrow> tool_row) \<Rightarrow> tool_db \<Rightarrow> tool_db" where
  "update_tool i f db = db\<lparr>tools_table := update_where (\<lambda>r. tl_id r = i) f (tools_table db)\<rparr>"

definition tool_by_id :: "tool_db \<Rightarrow> int \<Rightarrow> tool_row option" where
  "tool_by_id db i = List.find (\<lambda>r. tl_id r = i) (tools_table db)"

definition user_owned_tool :: "tool_db \<Rightarrow> int \<Rightarrow> uuid \<Rightarrow> tool_error + tool_row" where
  "user_owned_tool db i u =
     ok_or (ToolNotFound i) (List.find (\<lambda>r. tl_id r = i \<and> tl_user r = Some u) (tools_table db))"

definition list_tools :: "tool_db \<Rightarrow> uuid option \<Rightarrow> tool_row list" where
  "list_tools db owner =
     filter (\<lambda>r. (tl_user r = None \<or> (owner \<noteq> None \<and> tl_user r = owner)) \<and> tl_status r = Active) (tools_table db)"

datatype circulation = InUse | AnyStatus

definition in_circulation :: "circulation \<Rightarrow> tool_row \<Rightarrow> bool" where
  "in_circulation c r \<longleftrightarrow> (case c of InUse \<Rightarrow> tl_status r = Active | AnyStatus \<Rightarrow> True)"

definition find_tool :: "tool_db \<Rightarrow> uuid option \<Rightarrow> string \<Rightarrow> circulation \<Rightarrow> tool_row option" where
  "find_tool db caller s c =
     (let named = (\<lambda>owner. List.find (\<lambda>r. tl_user r = owner \<and> tl_slug r = s \<and> in_circulation c r) (tools_table db)) in
      case caller of
        None \<Rightarrow> named None
      | Some u \<Rightarrow> (case named (Some u) of Some own \<Rightarrow> Some own | None \<Rightarrow> named None))"

definition why_unavailable :: "tool_db \<Rightarrow> uuid option \<Rightarrow> string \<Rightarrow> string" where
  "why_unavailable db caller s =
     (if find_tool db caller s AnyStatus \<noteq> None then ''tool '' @ quoted s @ '' is not available''
      else ''no tool with slug '' @ quoted s)"

section \<open>service.rs: the review\<close>

record review_criterion =
  cr_id :: string
  cr_instructions :: string
  cr_when_true :: string
  cr_when_false :: string

definition INPUT_SCHEMA_CRITERION :: review_criterion where
  "INPUT_SCHEMA_CRITERION =
     \<lparr>cr_id = ''input_schema'',
      cr_instructions = ''Is input_schema a plausible JSON Schema object for what this tool takes as input?'',
      cr_when_true = ''input_schema is a plausible JSON Schema object describing the tool'' @ [CHR 0x27] @ ''s input'',
      cr_when_false = ''input_schema is missing, not an object, or not a plausible JSON Schema for this tool'' @
        [CHR 0x27] @ ''s input''\<rparr>"

definition OUTPUT_SCHEMA_CRITERION :: review_criterion where
  "OUTPUT_SCHEMA_CRITERION =
     \<lparr>cr_id = ''output_schema'',
      cr_instructions = ''Is output_schema a plausible JSON Schema object for what this tool returns?'',
      cr_when_true = ''output_schema is a plausible JSON Schema object describing the tool'' @ [CHR 0x27] @
        ''s output'',
      cr_when_false = ''output_schema is missing, not an object, or not a plausible JSON Schema for this tool'' @
        [CHR 0x27] @ ''s output''\<rparr>"

definition DESCRIPTION_PURPOSE_CRITERION :: review_criterion where
  "DESCRIPTION_PURPOSE_CRITERION =
     \<lparr>cr_id = ''description_purpose'',
      cr_instructions = ''Does the description clearly state what the tool does?'',
      cr_when_true = ''the description clearly states what the tool does'',
      cr_when_false = ''the description is missing, vague, or does not say what the tool does''\<rparr>"

definition DESCRIPTION_CHANGES_CRITERION :: review_criterion where
  "DESCRIPTION_CHANGES_CRITERION =
     \<lparr>cr_id = ''description_changes'',
      cr_instructions = ''Does the description state what this tool changes when it runs?'',
      cr_when_true = ''the description states what this tool changes when it runs'',
      cr_when_false = ''the description does not say what this tool changes when it runs''\<rparr>"

definition TIMEOUT_CRITERION :: review_criterion where
  "TIMEOUT_CRITERION =
     \<lparr>cr_id = ''timeout'',
      cr_instructions = ''Is timeout_seconds plausible for the work this tool does?'',
      cr_when_true = ''timeout_seconds is a plausible amount of time for this tool'' @ [CHR 0x27] @ ''s work'',
      cr_when_false = ''timeout_seconds is implausible for this tool'' @ [CHR 0x27] @ ''s work '' @
        [CHR 0xE2, CHR 0x80, CHR 0x94] @ '' too short to complete it, or far longer than it should need''\<rparr>"

definition criteria_for :: "risk \<Rightarrow> review_criterion list" where
  "criteria_for r =
     [INPUT_SCHEMA_CRITERION, OUTPUT_SCHEMA_CRITERION, DESCRIPTION_PURPOSE_CRITERION, TIMEOUT_CRITERION] @
     (if r = Write \<or> r = Destructive then [DESCRIPTION_CHANGES_CRITERION] else [])"

text \<open>An \<^verbatim>\<open>Answer\<close> of the wire: its id and, where the message carries one, what was given.\<close>

type_synonym wire_answer = "string \<times> given option"

definition criterion_met :: "review_criterion \<Rightarrow> wire_answer list \<Rightarrow> bool" where
  "criterion_met c answered_all =
     (case Option.bind (List.find (\<lambda>a. fst a = cr_id c) answered_all) snd of
        Some (NoulAnswer x) \<Rightarrow> APPROVAL_THRESHOLD \<le> x
      | _ \<Rightarrow> False)"

definition compose_refusal :: "review_criterion list \<Rightarrow> string" where
  "compose_refusal failed_ones =
     ''This tool definition does not meet the requirements:'' @ [CHR 0x0A] @
     join [CHR 0x0A] (map (\<lambda>c. ''- '' @ cr_id c @ '': '' @ cr_when_false c) failed_ones)"

definition review_verdict :: "risk \<Rightarrow> wire_answer list \<Rightarrow> bool \<times> string" where
  "review_verdict r answered_all =
     (let unmet = filter (\<lambda>c. \<not> criterion_met c answered_all) (criteria_for r) in
      (unmet = [], if unmet = [] then [] else compose_refusal unmet))"

definition already_reviewed :: "tool_status \<Rightarrow> bool" where
  "already_reviewed st \<longleftrightarrow> st \<noteq> Draft"

fun debug_risk :: "risk \<Rightarrow> string" where
  "debug_risk ReadOnly = ''ReadOnly''"
| "debug_risk Write = ''Write''"
| "debug_risk Destructive = ''Destructive''"

definition definition_text :: "(json \<Rightarrow> string) \<Rightarrow> tool_row \<Rightarrow> string" where
  "definition_text text_of r =
     join [CHR 0x0A]
       [''name: '' @ tl_name r, ''description: '' @ tl_description r,
        ''input_schema: '' @ text_of (tl_input_schema r), ''output_schema: '' @ text_of (tl_output_schema r),
        ''risk: '' @ debug_risk (tl_risk r), ''timeout_seconds: '' @ show_int (tl_timeout r)]"

text \<open>\<open>proto_of\<close> is the conversion of JSON to a protobuf value.\<close>

definition criterion_question ::
  "(json \<Rightarrow> string + 'v) \<Rightarrow> review_criterion \<Rightarrow> tool_error + 'v proto_question" where
  "criterion_question proto_of c =
     and_then (map_err (\<lambda>e. InvalidRequest (''could not build the question: '' @ e))
       (proto_of (String (cr_instructions c)))) (\<lambda>v.
     Inr \<lparr>pq_id = cr_id c, pq_instructions = Some v,
       pq_kind = Some (ProtoNoul (Some (cr_when_true c)) (Some (cr_when_false c)))\<rparr>)"

definition review_request ::
  "(json \<Rightarrow> string + 'v) \<Rightarrow> (json \<Rightarrow> string) \<Rightarrow> tool_row \<Rightarrow> tool_error + 'v decide_request" where
  "review_request proto_of text_of r =
     and_then (map_err (\<lambda>e. InvalidRequest (''could not build the decision: '' @ e))
       (proto_of (String (definition_text text_of r)))) (\<lambda>v.
     and_then (collect_results (map (criterion_question proto_of) (criteria_for (tl_risk r)))) (\<lambda>qs.
     Inr \<lparr>req_state = Some v, req_questions = qs\<rparr>))"

definition decide_call_error :: "(rpc_error \<Rightarrow> string) \<Rightarrow> rpc_error \<Rightarrow> tool_error" where
  "decide_call_error display e =
     (if fst e = InvalidArgument
      then InvalidRequest (''the tool definition could not be reviewed: '' @ display e)
      else ReviewUnavailable (''tool review is temporarily unavailable: '' @ display e))"

definition begin_review :: "tool_db \<Rightarrow> int \<Rightarrow> uuid \<Rightarrow> tool_error + tool_row" where
  "begin_review db i u =
     and_then (user_owned_tool db i u) (\<lambda>r.
     if already_reviewed (tl_status r)
     then Inl (InvalidRequest (''tool '' @ show_int i @ '' is not Draft'')) else Inr r)"

text \<open>An active model changes the columns that were set and no other.\<close>

definition set_status :: "int \<Rightarrow> tool_status \<Rightarrow> instant \<Rightarrow> tool_db \<Rightarrow> tool_db" where
  "set_status i st now = update_tool i (\<lambda>r. r\<lparr>tl_status := st, tl_updated_at := now\<rparr>)"

definition end_review :: "tool_row \<Rightarrow> wire_answer list \<Rightarrow> instant \<Rightarrow> tool_db \<Rightarrow> tool_db" where
  "end_review r answered_all now =
     set_status (tl_id r) (if fst (review_verdict (tl_risk r) answered_all) then Validated else Draft) now"

definition begin_activation :: "tool_db \<Rightarrow> int \<Rightarrow> uuid \<Rightarrow> tool_error + tool_row" where
  "begin_activation db i u =
     and_then (user_owned_tool db i u) (\<lambda>r.
     if tl_status r \<noteq> Validated
     then Inl (InvalidRequest (''tool '' @ show_int i @ '' is not Validated'')) else Inr r)"

definition end_activation :: "tool_row \<Rightarrow> instant \<Rightarrow> tool_db \<Rightarrow> tool_db" where
  "end_activation r now = set_status (tl_id r) Active now"

end
