(* ===== verification/Url_Guard.thy ===== *)
theory Url_Guard
  imports Requests Text_Search "HOL-Library.Word"
begin

text \<open>
  The guard of \<^verbatim>\<open>services/tool/src/tools/web_fetch.rs\<close> against requests to addresses that are not
  public, and the record of what a request of the tool service does to the network: which URLs passed
  the guard and which requests were sent, in order. Parameters: the parsers of the \<^verbatim>\<open>http\<close> and \<^verbatim>\<open>url\<close>
  crates and of \<^verbatim>\<open>IpAddr\<close>, name resolution, and the client. Shown: the addresses the guard refuses, as
  ranges; and the rules by which a computation is seen to send only what passed.
\<close>

section \<open>Addresses\<close>

type_synonym ipv4 = "32 word"
type_synonym ipv6 = "128 word"

datatype ip = V4 ipv4 | V6 ipv6

text \<open>The predicates of \<^verbatim>\<open>std::net\<close> that the guard asks.\<close>

definition v4_loopback :: "ipv4 \<Rightarrow> bool" where "v4_loopback a \<longleftrightarrow> drop_bit 24 a = 127"

definition v4_private :: "ipv4 \<Rightarrow> bool" where
  "v4_private a \<longleftrightarrow> drop_bit 24 a = 10 \<or> drop_bit 20 a = 0xAC1 \<or> drop_bit 16 a = 0xC0A8"

definition v4_link_local :: "ipv4 \<Rightarrow> bool" where "v4_link_local a \<longleftrightarrow> drop_bit 16 a = 0xA9FE"

definition v4_multicast :: "ipv4 \<Rightarrow> bool" where "v4_multicast a \<longleftrightarrow> drop_bit 28 a = 0xE"

definition v6_multicast :: "ipv6 \<Rightarrow> bool" where "v6_multicast a \<longleftrightarrow> drop_bit 120 a = 0xFF"

definition v6_unique_local :: "ipv6 \<Rightarrow> bool" where "v6_unique_local a \<longleftrightarrow> drop_bit 121 a = 0x7E"

definition v6_unicast_link_local :: "ipv6 \<Rightarrow> bool" where
  "v6_unicast_link_local a \<longleftrightarrow> drop_bit 118 a = 0x3FA"

definition to_ipv4_mapped :: "ipv6 \<Rightarrow> ipv4 option" where
  "to_ipv4_mapped a = (if drop_bit 32 a = 0xFFFF then Some (ucast a) else None)"

section \<open>web\_fetch.rs: the guard\<close>

definition MAX_URL_CHARS :: nat where "MAX_URL_CHARS = 4096"

definition is_private_v4 :: "ipv4 \<Rightarrow> bool" where
  "is_private_v4 a \<longleftrightarrow>
     v4_loopback a \<or> v4_private a \<or> v4_link_local a \<or> a = 0 \<or> a = - 1 \<or> v4_multicast a"

fun is_private_ip :: "ip \<Rightarrow> bool" where
  "is_private_ip (V4 a) = is_private_v4 a"
| "is_private_ip (V6 a) =
     (a = 1 \<or> a = 0 \<or> v6_multicast a \<or> v6_unique_local a \<or> v6_unicast_link_local a \<or>
      (case to_ipv4_mapped a of None \<Rightarrow> False | Some v4 \<Rightarrow> is_private_v4 v4))"

definition NOT_PUBLIC :: string where
  "NOT_PUBLIC = ''url must point at a public host, not a loopback, private, or link-local address''"

definition public_ip :: "ip \<Rightarrow> string + unit" where
  "public_ip a = (if is_private_ip a then Inl NOT_PUBLIC else Inr ())"

subsection \<open>The network\<close>

datatype net_event = Guarded string | Requested string "(string \<times> string) list"

record 'w net =
  trace :: "net_event list"
  world :: 'w

text \<open>\<^verbatim>\<open>reqwest::Error\<close> as the code asks it, and a response whose body comes in pieces.\<close>

record send_error =
  send_timed_out :: bool
  is_connect :: bool
  is_redirect :: bool
  is_body_or_decode :: bool
  source_texts :: "string list"
  error_text :: string

record page_response =
  status_code :: nat
  status_line :: string
  location :: "string option"
  body_chunks :: "(send_error + string) list"

record url_parts =
  url_scheme :: string
  url_host :: "string option"
  url_port :: "nat option"

text \<open>
  \<open>parse_uri\<close> is \<^verbatim>\<open>http::Uri\<close> (scheme and host); \<open>parse_url\<close> and \<open>join_url\<close> are \<^verbatim>\<open>url::Url\<close>, whose
  port is the known default of the scheme where the URL names none. \<open>http_get\<close> is one request of the
  client that follows no redirect.
\<close>

record 'w net_services =
  parse_uri :: "string \<Rightarrow> (string option \<times> string option) option"
  parse_ip :: "string \<Rightarrow> ip option"
  parse_url :: "string \<Rightarrow> string + url_parts"
  join_url :: "string \<Rightarrow> string \<Rightarrow> string + string"
  lookup_host :: "string \<Rightarrow> ('w, string + ip list) state"
  http_get :: "string \<Rightarrow> (string \<times> string) list \<Rightarrow> nat \<Rightarrow> ('w, send_error + page_response) state"

definition in_world :: "('w, 'a) state \<Rightarrow> ('w net, 'a) state" where
  "in_world m = State (\<lambda>n. let (r, w) = run_state m (world n) in (r, n\<lparr>world := w\<rparr>))"

definition record_event :: "net_event \<Rightarrow> ('w net, unit) state" where
  "record_event e = State (\<lambda>n. ((), n\<lparr>trace := trace n @ [e]\<rparr>))"

subsection \<open>The guard\<close>

definition ends_with :: "string \<Rightarrow> string \<Rightarrow> bool" where
  "ends_with s t \<longleftrightarrow> length t \<le> length s \<and> drop (length s - length t) s = t"

definition http_host :: "'w net_services \<Rightarrow> string \<Rightarrow> string option" where
  "http_host s raw =
     (case parse_uri s raw of
        None \<Rightarrow> None
      | Some (scheme, host) \<Rightarrow> if scheme \<in> {Some ''http'', Some ''https''} then host else None)"

definition names_this_host :: "string \<Rightarrow> bool" where
  "names_this_host host \<longleftrightarrow>
     host = [] \<or> eq_ignore_ascii_case host ''localhost'' \<or> ends_with host ''.localhost''"

definition without_brackets :: "string \<Rightarrow> string" where
  "without_brackets host =
     rev (dropWhile ((=) CHR '']'') (rev (dropWhile ((=) CHR ''['') host)))"

definition all_public :: "ip list \<Rightarrow> string + unit" where
  "all_public addresses =
     and_then (collect_results (map public_ip addresses)) (\<lambda>_.
       if addresses = [] then Inl ''url host did not resolve to an address'' else Inr ())"

definition host_verdict :: "'w net_services \<Rightarrow> string \<Rightarrow> ('w net, string + unit) state" where
  "host_verdict s host =
     (if names_this_host host then State_Monad.return (Inl NOT_PUBLIC)
      else case parse_ip s (without_brackets host) of
        Some a \<Rightarrow> State_Monad.return (public_ip a)
      | None \<Rightarrow>
          do {
            resolved \<leftarrow> in_world (lookup_host s (without_brackets host));
            State_Monad.return
              (and_then (map_err (\<lambda>e. ''url host could not be resolved: '' @ e) resolved) all_public)
          })"

definition url_verdict :: "'w net_services \<Rightarrow> string \<Rightarrow> ('w net, string + unit) state" where
  "url_verdict s raw =
     (if raw = [] then State_Monad.return (Inl ''url is required'')
      else if MAX_URL_CHARS < char_count raw
      then State_Monad.return (Inl (''url is longer than '' @ show_nat MAX_URL_CHARS @ '' characters''))
      else case http_host s raw of
        None \<Rightarrow> State_Monad.return (Inl ''url must be an absolute http or https URL'')
      | Some host \<Rightarrow> host_verdict s host)"

definition ensure_public_url :: "'w net_services \<Rightarrow> string \<Rightarrow> ('w net, string + unit) state" where
  "ensure_public_url s raw =
     attempted (url_verdict s raw) (\<lambda>_. do { record_event (Guarded raw); State_Monad.return (Inr ()) })"

section \<open>What the guard refuses\<close>

lemma div_eq_range: "0 < k \<Longrightarrow> x div k = c \<longleftrightarrow> c * k \<le> x \<and> x < c * k + k" for x k c :: nat
  by (metis add.commute div_nat_eqI div_times_less_eq_dividend dividend_less_div_times mult.commute mult_Suc)

lemma shifted_to: "drop_bit n a = c \<longleftrightarrow> unat c * 2 ^ n \<le> unat a \<and> unat a < unat c * 2 ^ n + 2 ^ n"
  for a c :: "'a::len word"
  by (simp only: word_unat_eq_iff unat_drop_bit_eq drop_bit_eq_div [where 'a = nat] div_eq_range
      zero_less_power zero_less_numeral)

lemmas v4_ranges = v4_loopback_def v4_private_def v4_link_local_def v4_multicast_def shifted_to

text \<open>Of the version 4 addresses the guard refuses exactly the loopback, private, link-local and multicast
ranges, the unspecified address and the broadcast address.\<close>

lemma refused_v4_ranges:
  "public_ip (V4 a) = Inl NOT_PUBLIC \<longleftrightarrow>
    unat a \<in> {0} \<union> {0x0A000000..0x0AFFFFFF} \<union> {0x7F000000..0x7FFFFFFF} \<union> {0xA9FE0000..0xA9FEFFFF} \<union>
      {0xAC100000..0xAC1FFFFF} \<union> {0xC0A80000..0xC0A8FFFF} \<union> {0xE0000000..0xEFFFFFFF} \<union> {0xFFFFFFFF}"
proof -
  have "v4_loopback a \<longleftrightarrow> unat a \<in> {0x7F000000..0x7FFFFFFF}"
    by (auto simp: v4_ranges)
  moreover have "v4_private a \<longleftrightarrow>
      unat a \<in> {0x0A000000..0x0AFFFFFF} \<union> {0xAC100000..0xAC1FFFFF} \<union> {0xC0A80000..0xC0A8FFFF}"
    by (auto simp: v4_ranges)
  moreover have "v4_link_local a \<longleftrightarrow> unat a \<in> {0xA9FE0000..0xA9FEFFFF}"
    by (auto simp: v4_ranges)
  moreover have "v4_multicast a \<longleftrightarrow> unat a \<in> {0xE0000000..0xEFFFFFFF}"
    by (auto simp: v4_ranges)
  moreover have "a = 0 \<longleftrightarrow> unat a = 0" by (simp add: unat_eq_0)
  moreover have "a = - 1 \<longleftrightarrow> unat a = 0xFFFFFFFF" by (simp add: word_unat_eq_iff unat_word_max)
  ultimately have "is_private_v4 a \<longleftrightarrow>
    unat a \<in> {0} \<union> {0x0A000000..0x0AFFFFFF} \<union> {0x7F000000..0x7FFFFFFF} \<union> {0xA9FE0000..0xA9FEFFFF} \<union>
      {0xAC100000..0xAC1FFFFF} \<union> {0xC0A80000..0xC0A8FFFF} \<union> {0xE0000000..0xEFFFFFFF} \<union> {0xFFFFFFFF}"
    unfolding is_private_v4_def by simp blast
  then show ?thesis by (simp add: public_ip_def)
qed

section \<open>Who is asked first\<close>

text \<open>
  \<open>guarded_from passed\<close>: every request of the events is for a URL of \<open>passed\<close> or one that passed the guard
  earlier among them. \<open>asks_first passed m Q\<close>: the computation appends such events, and where it answers
  \<open>r\<close> the URLs of \<open>Q r\<close> have passed as well.
\<close>

fun guarded_from :: "string set \<Rightarrow> net_event list \<Rightarrow> bool" where
  "guarded_from passed [] = True"
| "guarded_from passed (Guarded u # es) = guarded_from (insert u passed) es"
| "guarded_from passed (Requested u h # es) = (u \<in> passed \<and> guarded_from passed es)"

definition let_through :: "net_event list \<Rightarrow> string set" where
  "let_through es = {u. Guarded u \<in> set es}"

lemma let_through_simps [simp]:
  "let_through [] = {}" "let_through (Guarded u # es) = insert u (let_through es)"
  "let_through (Requested u h # es) = let_through es"
  "let_through (es @ fs) = let_through es \<union> let_through fs"
  by (auto simp: let_through_def)

lemma guarded_from_mono: "guarded_from G es \<Longrightarrow> G \<subseteq> H \<Longrightarrow> guarded_from H es"
  by (induction G es arbitrary: H rule: guarded_from.induct) (auto intro: insert_mono)

lemma guarded_from_append:
  "guarded_from G (es @ fs) \<longleftrightarrow> guarded_from G es \<and> guarded_from (G \<union> let_through es) fs"
  by (induction G es rule: guarded_from.induct) (auto simp: Un_commute insert_commute)

definition asks_first :: "string set \<Rightarrow> ('w net, 'a) state \<Rightarrow> ('a \<Rightarrow> string set) \<Rightarrow> bool" where
  "asks_first G m Q \<longleftrightarrow>
     (\<forall>n r n'. run_state m n = (r, n') \<longrightarrow>
       (\<exists>es. trace n' = trace n @ es \<and> guarded_from G es \<and> Q r \<subseteq> G \<union> let_through es))"

lemma asks_firstI:
  assumes "\<And>n r n'. run_state m n = (r, n') \<Longrightarrow>
    \<exists>es. trace n' = trace n @ es \<and> guarded_from G es \<and> Q r \<subseteq> G \<union> let_through es"
  shows "asks_first G m Q"
  using assms by (auto simp: asks_first_def)

lemma asks_firstE:
  assumes "asks_first G m Q" and "run_state m n = (r, n')"
  obtains es where "trace n' = trace n @ es" and "guarded_from G es" and "Q r \<subseteq> G \<union> let_through es"
  using assms unfolding asks_first_def by blast

lemma asks_first_return: "Q x \<subseteq> G \<Longrightarrow> asks_first G (State_Monad.return x) Q"
  by (rule asks_firstI) (auto intro!: exI [of _ "[]"])

lemma asks_first_in_world: "(\<And>r. Q r \<subseteq> G) \<Longrightarrow> asks_first G (in_world m) Q"
  by (rule asks_firstI) (auto simp: in_world_def split: prod.splits intro!: exI [of _ "[]"])

lemma asks_first_bind:
  assumes m: "asks_first G m R" and f: "\<And>x. asks_first (R x) (f x) Q"
  shows "asks_first G (State_Monad.bind m f) Q"
proof (rule asks_firstI)
  fix n r n' assume run: "run_state (State_Monad.bind m f) n = (r, n')"
  obtain x k where x: "run_state m n = (x, k)" by fastforce
  with run have "run_state (f x) k = (r, n')" by simp
  from asks_firstE [OF f this] obtain fs where
    fs: "trace n' = trace k @ fs" "guarded_from (R x) fs" "Q r \<subseteq> R x \<union> let_through fs" .
  from asks_firstE [OF m x] obtain es where
    es: "trace k = trace n @ es" "guarded_from G es" "R x \<subseteq> G \<union> let_through es" .
  have "guarded_from G (es @ fs)"
    using es fs by (simp add: guarded_from_append guarded_from_mono)
  then show "\<exists>es. trace n' = trace n @ es \<and> guarded_from G es \<and> Q r \<subseteq> G \<union> let_through es"
    using es fs by (intro exI [of _ "es @ fs"]) auto
qed

lemma asks_first_weaken:
  assumes "asks_first G m Q" and "G \<subseteq> H" and "\<And>r. R r \<subseteq> Q r \<union> H"
  shows "asks_first H m R"
proof (rule asks_firstI)
  fix n r n' assume "run_state m n = (r, n')"
  from asks_firstE [OF assms(1) this] obtain es where
    "trace n' = trace n @ es" "guarded_from G es" "Q r \<subseteq> G \<union> let_through es" .
  then show "\<exists>es. trace n' = trace n @ es \<and> guarded_from H es \<and> R r \<subseteq> H \<union> let_through es"
    using assms(2) assms(3) [of r] by (intro exI [of _ es]) (auto intro: guarded_from_mono)
qed

lemma asks_first_attempted:
  assumes "asks_first G m (\<lambda>r. case r of Inl e \<Rightarrow> G | Inr x \<Rightarrow> R x)"
    and "\<And>x. asks_first (R x) (f x) Q" and "\<And>e. Q (Inl e) \<subseteq> G"
  shows "asks_first G (attempted m f) Q"
  unfolding attempted_def
proof (rule asks_first_bind [OF assms(1)])
  fix r
  show "asks_first (case r of Inl e \<Rightarrow> G | Inr x \<Rightarrow> R x)
      (case r of Inl e \<Rightarrow> State_Monad.return (Inl e) | Inr x \<Rightarrow> f x) Q"
    using assms(2,3) by (cases r) (auto intro: asks_first_return)
qed

lemma asks_first_record_guarded: "Q () \<subseteq> insert u G \<Longrightarrow> asks_first G (record_event (Guarded u)) Q"
  by (rule asks_firstI) (auto simp: record_event_def intro!: exI [of _ "[Guarded u]"])

lemma asks_first_record_requested:
  "u \<in> G \<Longrightarrow> Q () \<subseteq> G \<Longrightarrow> asks_first G (record_event (Requested u h)) Q"
  by (rule asks_firstI) (auto simp: record_event_def intro!: exI [of _ "[Requested u h]"])

lemma asks_first_url_verdict: "asks_first G (url_verdict s raw) (\<lambda>_. G)"
  by (auto simp: url_verdict_def host_verdict_def split: option.splits
      intro!: asks_first_return asks_first_bind [where R = "\<lambda>_. G"] asks_first_in_world)

lemma asks_first_guard:
  "asks_first G (ensure_public_url s raw) (\<lambda>r. case r of Inl e \<Rightarrow> G | Inr _ \<Rightarrow> insert raw G)"
  unfolding ensure_public_url_def
  by (rule asks_first_attempted [where R = "\<lambda>_. G"])
    (auto split: sum.splits intro!: asks_first_bind [where R = "\<lambda>_. insert raw G"]
      asks_first_return asks_first_record_guarded
      asks_first_weaken [OF asks_first_url_verdict [of G]])

end
