(* ===== verification/Race.thy ===== *)
theory Race
  imports Prelude "HOL-Library.Multiset"
begin

text \<open>
  \<^verbatim>\<open>services/tool/src/race.rs\<close>: several ways to get the same thing, of which the first \<open>take\<close>
  successes are kept. An operation is its name and the way its one attempt ends; the order in which
  the running attempts end is an argument that picks one of those that run. Shown: how many are
  taken does not depend on that order, no more than the width run at once, and a race that falls short
  has a verdict on every operation.
\<close>

section \<open>race.rs\<close>

text \<open>\<^verbatim>\<open>tokio::time::timeout\<close> around the attempt: it ended by itself, or the time ran out first.\<close>

datatype 'a ending = Ended "string + 'a" | OutOfTime

record 'a race_outcome =
  taken :: "(string \<times> 'a) list"
  failures :: "string list"

definition race_attempt :: "(nat \<Rightarrow> string) \<Rightarrow> nat \<Rightarrow> string \<times> 'a ending \<Rightarrow> string + string \<times> 'a" where
  "race_attempt show_time limit p =
     (case snd p of
        Ended (Inr x) \<Rightarrow> Inr (fst p, x)
      | Ended (Inl reason) \<Rightarrow> Inl (fst p @ '': '' @ reason)
      | OutOfTime \<Rightarrow> Inl (fst p @ '': timed out after '' @ show_time limit))"

text \<open>
  \<open>racing\<close> is the loop: the verdicts of the operations that run and of those that wait, in the order of
  the slice. \<^verbatim>\<open>FuturesUnordered::next\<close> answers one that runs (\<open>pick\<close>, read modulo their number);
  its place goes to the next that waits, unless the quorum is reached, which drops the others.
\<close>

definition remove_nth :: "nat \<Rightarrow> 'a list \<Rightarrow> 'a list" where
  "remove_nth n xs = take n xs @ drop (Suc n) xs"

definition picked :: "('v list \<Rightarrow> 'v list \<Rightarrow> nat) \<Rightarrow> 'v list \<Rightarrow> 'v list \<Rightarrow> nat" where
  "picked pick running waiting = pick running waiting mod length running"

lemma picked_less: "running \<noteq> [] \<Longrightarrow> picked pick running waiting < length running"
  by (simp add: picked_def)

lemma length_remove_nth: "n < length xs \<Longrightarrow> length (remove_nth n xs) = length xs - 1"
  by (simp add: remove_nth_def)

definition note_taken :: "string \<times> 'a \<Rightarrow> 'a race_outcome \<Rightarrow> 'a race_outcome" where
  "note_taken x out = out\<lparr>taken := taken out @ [x]\<rparr>"

definition note_failure :: "string \<Rightarrow> 'a race_outcome \<Rightarrow> 'a race_outcome" where
  "note_failure e out = out\<lparr>failures := failures out @ [e]\<rparr>"

function racing ::
  "((string + string \<times> 'a) list \<Rightarrow> (string + string \<times> 'a) list \<Rightarrow> nat) \<Rightarrow> nat \<Rightarrow> (string + string \<times> 'a) list \<Rightarrow>
     (string + string \<times> 'a) list \<Rightarrow> 'a race_outcome \<Rightarrow> 'a race_outcome" where
  "racing pick quorum running waiting out =
     (if running = [] then out
      else
        let i = picked pick running waiting; rest = remove_nth i running in
        case running ! i of
          Inr x \<Rightarrow>
            let out' = note_taken x out in
            if quorum \<le> length (taken out') then out'
            else racing pick quorum (rest @ take 1 waiting) (drop 1 waiting) out'
        | Inl e \<Rightarrow> racing pick quorum (rest @ take 1 waiting) (drop 1 waiting) (note_failure e out))"
  by pat_completeness auto
termination
proof (relation "measure (\<lambda>(_, _, running, waiting, _). length running + length waiting)", goal_cases)
  case (2 pick quorum running waiting)
  then show ?case using picked_less [of running pick waiting] by (cases running) (auto simp: length_remove_nth)
next
  case (3 pick quorum running waiting)
  then show ?case using picked_less [of running pick waiting] by (cases running) (auto simp: length_remove_nth)
qed simp

declare racing.simps [simp del]

definition race ::
  "(nat \<Rightarrow> string) \<Rightarrow> ((string + string \<times> 'a) list \<Rightarrow> (string + string \<times> 'a) list \<Rightarrow> nat) \<Rightarrow> (string \<times> 'a ending) list \<Rightarrow>
     nat \<Rightarrow> nat \<Rightarrow> nat \<Rightarrow> 'a race_outcome" where
  "race show_time pick ops fan_out quota limit =
     (if ops = [] then \<lparr>taken = [], failures = [''no operations to race'']\<rparr>
      else
        let width = max 1 fan_out; verdicts = map (race_attempt show_time limit) ops in
        racing pick (max 1 quota) (take width verdicts) (drop width verdicts)
          \<lparr>taken = [], failures = []\<rparr>)"

section \<open>What a race takes\<close>

definition successes :: "('e + 'b) list \<Rightarrow> 'b list" where
  "successes vs = [x. Inr x \<leftarrow> vs]"

definition refusals :: "('e + 'b) list \<Rightarrow> 'e list" where
  "refusals vs = [e. Inl e \<leftarrow> vs]"

lemma successes_simps [simp]:
  "successes [] = []" "successes (Inr x # vs) = x # successes vs" "successes (Inl e # vs) = successes vs"
  "successes (vs @ ws) = successes vs @ successes ws"
  by (simp_all add: successes_def)

lemma refusals_simps [simp]:
  "refusals [] = []" "refusals (Inl e # vs) = e # refusals vs" "refusals (Inr x # vs) = refusals vs"
  "refusals (vs @ ws) = refusals vs @ refusals ws"
  by (simp_all add: refusals_def)

lemma in_successesD: "x \<in> set (successes vs) \<Longrightarrow> Inr x \<in> set vs"
proof (induction vs)
  case (Cons v vs)
  then show ?case by (cases v) auto
qed simp

lemma attempt_InrD: "race_attempt show_time limit p = Inr (n, x) \<Longrightarrow> p = (n, Ended (Inr x))"
  by (cases p) (auto simp: race_attempt_def split: ending.splits sum.splits)

lemma remove_nth_split:
  assumes "n < length xs"
  obtains ys zs where "xs = ys @ xs ! n # zs" and "remove_nth n xs = ys @ zs"
  using assms id_take_nth_drop [OF assms] by (auto simp: remove_nth_def)

text \<open>One round of the loop: a verdict is noted and the operation next in line starts.\<close>

lemma racing_Nil [simp]: "racing pick quorum [] waiting out = out"
  by (simp add: racing.simps)

lemma racing_taken:
  assumes "running ! picked pick running waiting = Inr x" and "running \<noteq> []"
  shows "racing pick quorum running waiting out =
    (if quorum \<le> Suc (length (taken out)) then note_taken x out
     else racing pick quorum (remove_nth (picked pick running waiting) running @ take 1 waiting) (drop 1 waiting)
       (note_taken x out))"
  using assms by (subst racing.simps) (simp add: Let_def note_taken_def)

lemma racing_failed:
  assumes "running ! picked pick running waiting = Inl e" and "running \<noteq> []"
  shows "racing pick quorum running waiting out =
    racing pick quorum (remove_nth (picked pick running waiting) running @ take 1 waiting) (drop 1 waiting)
      (note_failure e out)"
  using assms by (subst racing.simps) (simp add: Let_def)

text \<open>
  A race that has not reached its quorum takes what is missing from what runs and waits, wherever the
  successes come from; if they do not suffice, everything ends up with a verdict.
\<close>

lemma successes_moved:
  assumes "running ! i = v" and "i < length running"
  shows "mset (successes (running @ waiting)) =
    mset (successes [v]) + mset (successes ((remove_nth i running @ take 1 waiting) @ drop 1 waiting))"
proof -
  obtain ys zs where "running = ys @ v # zs" and "remove_nth i running = ys @ zs"
    using remove_nth_split assms by metis
  then show ?thesis by (cases v) simp_all
qed

lemma refusals_moved:
  assumes "running ! i = v" and "i < length running"
  shows "mset (refusals (running @ waiting)) =
    mset (refusals [v]) + mset (refusals ((remove_nth i running @ take 1 waiting) @ drop 1 waiting))"
proof -
  obtain ys zs where "running = ys @ v # zs" and "remove_nth i running = ys @ zs"
    using remove_nth_split assms by metis
  then show ?thesis by (cases v) simp_all
qed

lemma none_waits_for_none:
  "(running = [] \<longrightarrow> waiting = []) \<Longrightarrow> rest @ take 1 waiting = [] \<longrightarrow> drop 1 waiting = []"
  by (cases waiting) auto

definition race_ends_well ::
  "nat \<Rightarrow> (string + string \<times> 'a) list \<Rightarrow> 'a race_outcome \<Rightarrow> 'a race_outcome \<Rightarrow> bool" where
  "race_ends_well quorum vs out r \<longleftrightarrow>
     length (taken r) = min quorum (length (taken out) + size (mset (successes vs))) \<and>
     mset (taken r) \<subseteq># mset (taken out) + mset (successes vs) \<and>
     mset (failures r) \<subseteq># mset (failures out) + mset (refusals vs) \<and>
     (length (taken r) < quorum \<longrightarrow> mset (failures r) = mset (failures out) + mset (refusals vs))"

lemma race_ends_well_step:
  assumes "race_ends_well quorum vs' (case v of Inr x \<Rightarrow> note_taken x out | Inl e \<Rightarrow> note_failure e out) r"
    and "mset (successes vs) = mset (successes [v]) + mset (successes vs')"
    and "mset (refusals vs) = mset (refusals [v]) + mset (refusals vs')"
  shows "race_ends_well quorum vs out r"
  using assms(1) unfolding race_ends_well_def assms(2,3)
  by (cases v) (simp_all add: note_taken_def note_failure_def del: size_mset)

lemma racing_ends_well:
  assumes "length (taken out) < quorum" and "running = [] \<longrightarrow> waiting = []"
  shows "race_ends_well quorum (running @ waiting) out (racing pick quorum running waiting out)"
  using assms
proof (induction pick quorum running waiting out rule: racing.induct)
  case (1 pick quorum running waiting out)
  show ?case
  proof (cases "running = []")
    case True
    then show ?thesis using 1(3,4) by (simp add: race_ends_well_def)
  next
    case False
    let ?i = "picked pick running waiting"
    let ?vs = "(remove_nth ?i running @ take 1 waiting) @ drop 1 waiting"
    note less = picked_less [OF False, of pick waiting]
    show ?thesis
    proof (cases "running ! ?i")
      case (Inr x)
      note moved = successes_moved [OF Inr less, of waiting] refusals_moved [OF Inr less, of waiting]
      show ?thesis
      proof (cases "quorum \<le> Suc (length (taken out))")
        case True
        then show ?thesis
          using 1(3) unfolding race_ends_well_def moved
          by (simp add: racing_taken [OF Inr False] note_taken_def del: size_mset)
      next
        case no: False
        have "race_ends_well quorum ?vs (note_taken x out)
          (racing pick quorum (remove_nth ?i running @ take 1 waiting) (drop 1 waiting) (note_taken x out))"
          by (rule 1(2) [OF False refl refl Inr refl])
            (use no in \<open>simp_all add: note_taken_def none_waits_for_none [OF 1(4)]\<close>)
        then show ?thesis
          using race_ends_well_step [where v = "Inr x", OF _ moved] no
          by (simp add: racing_taken [OF Inr False])
      qed
    next
      case (Inl e)
      note moved = successes_moved [OF Inl less, of waiting] refusals_moved [OF Inl less, of waiting]
      have "race_ends_well quorum ?vs (note_failure e out)
        (racing pick quorum (remove_nth ?i running @ take 1 waiting) (drop 1 waiting) (note_failure e out))"
        by (rule 1(1) [OF False refl refl Inl])
          (use 1(3) in \<open>simp_all add: note_failure_def none_waits_for_none [OF 1(4)]\<close>)
      then show ?thesis
        using race_ends_well_step [where v = "Inl e", OF _ moved]
        by (simp add: racing_failed [OF Inl False])
    qed
  qed
qed

definition verdicts_of :: "(nat \<Rightarrow> string) \<Rightarrow> nat \<Rightarrow> (string \<times> 'a ending) list \<Rightarrow> (string + string \<times> 'a) list" where
  "verdicts_of show_time limit ops = map (race_attempt show_time limit) ops"

lemma race_outcome_spec:
  assumes "ops \<noteq> []"
  shows "race_ends_well (max 1 quota) (verdicts_of show_time limit ops) \<lparr>taken = [], failures = []\<rparr>
    (race show_time pick ops fan_out quota limit)"
proof -
  let ?vs = "verdicts_of show_time limit ops" and ?w = "max 1 fan_out"
  have "take ?w ?vs = [] \<longrightarrow> drop ?w ?vs = []" using assms by (auto simp: verdicts_of_def)
  then show ?thesis
    using racing_ends_well [of "\<lparr>taken = [], failures = []\<rparr>" "max 1 quota" "take ?w ?vs" "drop ?w ?vs" pick]
      assms
    by (simp add: race_def Let_def verdicts_of_def)
qed

text \<open>A race over at least one operation takes as many answers as its quorum asks for, or as many as
there are when they are fewer: whichever attempts end first, and however many run at once.\<close>

lemma race_takes_what_there_is:
  assumes "ops \<noteq> []"
  shows "length (taken (race show_time pick ops fan_out quota limit)) =
    min (max 1 quota) (length (successes (map (race_attempt show_time limit) ops)))"
  using race_outcome_spec [OF assms, of quota show_time limit pick fan_out]
  by (simp add: race_ends_well_def verdicts_of_def)

lemma taken_came_back:
  assumes "(n, x) \<in> set (taken (race show_time pick ops fan_out quota limit))"
  shows "(n, Ended (Inr x)) \<in> set ops"
proof -
  have "ops \<noteq> []" using assms by (auto simp: race_def)
  from race_outcome_spec [OF this] have
    "mset (taken (race show_time pick ops fan_out quota limit)) \<subseteq># mset (successes (verdicts_of show_time limit ops))"
    by (simp add: race_ends_well_def)
  then have "(n, x) \<in> set (successes (verdicts_of show_time limit ops))"
    using assms mset_subset_eqD set_mset_mset by fastforce
  then obtain p where "p \<in> set ops" and "race_attempt show_time limit p = Inr (n, x)"
    using in_successesD [of "(n, x)" "verdicts_of show_time limit ops"]
    by (metis (no_types, lifting) imageE set_map verdicts_of_def)
  then show ?thesis by (auto dest: attempt_InrD)
qed

end
