(* ===== verification/Kb_Text.thy ===== *)
theory Kb_Text
  imports Text_Search
begin

text \<open>
  Text as the knowledge base reads it: a string cut into its characters (each the list of its UTF-8
  bytes), the white space of Unicode, \<^verbatim>\<open>str::trim\<close>, \<^verbatim>\<open>str::lines\<close>, \<^verbatim>\<open>str::split\<close> on a predicate and
  \<^verbatim>\<open>str::split_whitespace\<close>. Shown: the words of a text are not changed by trimming, and are those of
  its parts wherever it is cut at white space.
\<close>

type_synonym uchar = string

text \<open>The characters with the property \<^verbatim>\<open>White_Space\<close>, which \<^verbatim>\<open>char::is_whitespace\<close> tests.\<close>

definition white_space :: "uchar \<Rightarrow> bool" where
  "white_space c \<longleftrightarrow>
     c \<in> set [[CHR 0x09], [CHR 0x0A], [CHR 0x0B], [CHR 0x0C], [CHR 0x0D], [CHR 0x20],
       [CHR 0xC2, CHR 0x85], [CHR 0xC2, CHR 0xA0], [CHR 0xE1, CHR 0x9A, CHR 0x80],
       [CHR 0xE2, CHR 0x80, CHR 0x80], [CHR 0xE2, CHR 0x80, CHR 0x81], [CHR 0xE2, CHR 0x80, CHR 0x82],
       [CHR 0xE2, CHR 0x80, CHR 0x83], [CHR 0xE2, CHR 0x80, CHR 0x84], [CHR 0xE2, CHR 0x80, CHR 0x85],
       [CHR 0xE2, CHR 0x80, CHR 0x86], [CHR 0xE2, CHR 0x80, CHR 0x87], [CHR 0xE2, CHR 0x80, CHR 0x88],
       [CHR 0xE2, CHR 0x80, CHR 0x89], [CHR 0xE2, CHR 0x80, CHR 0x8A], [CHR 0xE2, CHR 0x80, CHR 0xA8],
       [CHR 0xE2, CHR 0x80, CHR 0xA9], [CHR 0xE2, CHR 0x80, CHR 0xAF], [CHR 0xE2, CHR 0x81, CHR 0x9F],
       [CHR 0xE3, CHR 0x80, CHR 0x80]]"

definition line_feed :: uchar where "line_feed = [CHR 0x0A]"
definition carriage_return :: uchar where "carriage_return = [CHR 0x0D]"
definition blank :: uchar where "blank = [CHR 0x20]"

lemma white_space_controls [simp]:
  "white_space line_feed" "white_space carriage_return" "white_space blank"
  by (simp_all add: white_space_def line_feed_def carriage_return_def blank_def)

lemma line_feed_not_return [simp]: "line_feed \<noteq> carriage_return" "carriage_return \<noteq> line_feed"
  by (simp_all add: line_feed_def carriage_return_def)

definition trim_chars :: "uchar list \<Rightarrow> uchar list" where
  "trim_chars cs = rev (dropWhile white_space (rev (dropWhile white_space cs)))"

definition blank_text :: "string \<Rightarrow> bool" where
  "blank_text s \<longleftrightarrow> trim_chars (utf8_chars s) = []"

fun split_when :: "('a \<Rightarrow> bool) \<Rightarrow> 'a list \<Rightarrow> 'a list list" where
  "split_when p [] = [[]]"
| "split_when p (x # xs) =
     (if p x then [] # split_when p xs
      else (x # hd (split_when p xs)) # tl (split_when p xs))"

definition split_words :: "uchar list \<Rightarrow> uchar list list" where
  "split_words cs = filter (\<lambda>w. w \<noteq> []) (split_when white_space cs)"

text \<open>A line ends before a line feed, and a carriage return before that line feed is not part of it; a
  text that ends with a line feed has no empty line after it.\<close>

definition strip_return :: "uchar list \<Rightarrow> uchar list" where
  "strip_return l = (if l \<noteq> [] \<and> last l = carriage_return then butlast l else l)"

definition lines_of_text :: "uchar list \<Rightarrow> uchar list list" where
  "lines_of_text cs =
     (let ps = split_when ((=) line_feed) cs in
      map strip_return (butlast ps) @ (if last ps = [] then [] else [last ps]))"

text \<open>The characters that are not white space.\<close>

definition ink :: "uchar list \<Rightarrow> uchar list" where
  "ink cs = filter (\<lambda>c. \<not> white_space c) cs"

section \<open>Cutting at white space\<close>

lemma split_when_not_Nil [simp]: "split_when p xs \<noteq> []"
  by (induction xs) simp_all

lemma split_when_append: "p w \<Longrightarrow> split_when p (a @ w # b) = split_when p a @ split_when p b"
  by (induction a) simp_all

lemma split_when_none: "(\<And>x. x \<in> set xs \<Longrightarrow> \<not> p x) \<Longrightarrow> split_when p xs = [xs]"
  by (induction xs) simp_all

lemma concat_split_when: "concat (split_when p xs) = filter (\<lambda>x. \<not> p x) xs"
proof (induction xs)
  case (Cons x xs)
  then show ?case by (cases "split_when p xs") simp_all
qed simp

lemma split_when_avoids: "piece \<in> set (split_when p xs) \<Longrightarrow> x \<in> set piece \<Longrightarrow> \<not> p x"
proof (induction xs arbitrary: piece)
  case (Cons y ys)
  show ?case
  proof (cases "p y \<or> piece \<noteq> y # hd (split_when p ys)")
    case True
    then have "piece = [] \<or> piece \<in> set (split_when p ys)"
      using Cons.prems(1) by (cases "split_when p ys") (auto split: if_splits)
    then show ?thesis using Cons by auto
  next
    case False
    have "x \<in> set (hd (split_when p ys)) \<Longrightarrow> \<not> p x"
      using Cons.IH [of "hd (split_when p ys)"] by simp
    then show ?thesis using False Cons.prems(2) by auto
  qed
qed simp

lemma split_words_Nil [simp]: "split_words [] = []"
  by (simp add: split_words_def)

lemma split_words_append: "white_space w \<Longrightarrow> split_words (a @ w # b) = split_words a @ split_words b"
  by (simp add: split_words_def split_when_append)

lemma split_words_space: "white_space w \<Longrightarrow> split_words (w # b) = split_words b"
  using split_words_append [of w "[]" b] by simp

lemma split_words_spaces: "(\<And>c. c \<in> set sp \<Longrightarrow> white_space c) \<Longrightarrow> split_words (a @ sp) = split_words a"
proof (induction sp arbitrary: a)
  case (Cons c sp)
  have "split_words (a @ c # sp) = split_words a @ split_words ([] @ sp)"
    using split_words_append [of c a sp] Cons.prems by simp
  also have "split_words ([] @ sp) = split_words []" using Cons.IH [of "[]"] Cons.prems by simp
  finally show ?case by simp
qed simp

lemma split_words_one: "w \<noteq> [] \<Longrightarrow> (\<And>c. c \<in> set w \<Longrightarrow> \<not> white_space c) \<Longrightarrow> split_words w = [w]"
  by (simp add: split_words_def split_when_none)

lemma split_words_member: "w \<in> set (split_words cs) \<Longrightarrow> w \<noteq> [] \<and> (\<forall>c\<in>set w. \<not> white_space c)"
  by (auto simp: split_words_def dest: split_when_avoids)

lemma split_words_of_member [simp]: "w \<in> set (split_words cs) \<Longrightarrow> split_words w = [w]"
  using split_words_member [of w cs] by (intro split_words_one) auto

lemma concat_filter_nonempty [simp]: "concat (filter (\<lambda>w. w \<noteq> []) ws) = concat ws"
  by (induction ws) auto

lemma concat_split_words: "concat (split_words cs) = ink cs"
  by (simp add: split_words_def ink_def concat_split_when)

lemma split_words_drop: "split_words (dropWhile white_space cs) = split_words cs"
  by (induction cs) (simp_all add: split_words_space)

lemma split_words_trim [simp]: "split_words (trim_chars cs) = split_words cs"
proof -
  let ?d = "dropWhile white_space cs"
  have d: "?d = trim_chars cs @ rev (takeWhile white_space (rev ?d))"
    unfolding trim_chars_def by (metis rev_append rev_rev_ident takeWhile_dropWhile_id)
  have "split_words (trim_chars cs @ rev (takeWhile white_space (rev ?d))) = split_words (trim_chars cs)"
    by (rule split_words_spaces) (auto dest: set_takeWhileD)
  with d have "split_words ?d = split_words (trim_chars cs)" by simp
  then show ?thesis by (simp add: split_words_drop)
qed

lemma ink_simps [simp]:
  "ink [] = []" "ink (a @ b) = ink a @ ink b" "white_space w \<Longrightarrow> ink (w # b) = ink b"
  by (simp_all add: ink_def)

lemma ink_trim [simp]: "ink (trim_chars cs) = ink cs"
  by (metis concat_split_words split_words_trim)

lemma length_trim: "length (trim_chars cs) \<le> length cs"
  unfolding trim_chars_def by (metis length_dropWhile_le length_rev order.trans)

lemma split_words_strip_return [simp]: "split_words (strip_return l) = split_words l"
proof (cases "l \<noteq> [] \<and> last l = carriage_return")
  case True
  then have "split_words l = split_words (butlast l @ [carriage_return])"
    by (metis append_butlast_last_id)
  then show ?thesis using True by (simp add: strip_return_def split_words_append)
qed (auto simp: strip_return_def)

lemma concat_split_words_pieces: "concat (map split_words (split_when ((=) line_feed) cs)) = split_words cs"
proof (induction "length cs" arbitrary: cs rule: less_induct)
  case less
  show ?case
  proof (cases "line_feed \<in> set cs")
    case True
    then obtain a b where cs: "cs = a @ line_feed # b" and a: "line_feed \<notin> set a"
      by (metis split_list_first)
    have "split_when ((=) line_feed) a = [a]" using a by (intro split_when_none) auto
    with less [of b] cs show ?thesis by (simp add: split_when_append split_words_append)
  next
    case False
    then have "split_when ((=) line_feed) cs = [cs]" by (intro split_when_none) auto
    then show ?thesis by simp
  qed
qed

lemma split_words_lines: "concat (map split_words (lines_of_text cs)) = split_words cs"
proof -
  let ?ps = "split_when ((=) line_feed) cs"
  have "concat (map split_words ?ps) = concat (map split_words (butlast ?ps @ [last ?ps]))" by simp
  also have "\<dots> = concat (map split_words (lines_of_text cs))"
    by (auto simp: lines_of_text_def Let_def comp_def simp del: append_butlast_last_id)
  finally show ?thesis by (simp add: concat_split_words_pieces)
qed

lemma ink_lines: "concat (map ink (lines_of_text cs)) = ink cs"
proof -
  have "concat (map ink ls) = concat (concat (map split_words ls))" for ls
    by (induction ls) (simp_all add: concat_split_words)
  then show ?thesis by (simp add: split_words_lines concat_split_words)
qed

text \<open>
  \<^verbatim>\<open>services/knowledge-base/src/search.rs\<close> and the page types of \<^verbatim>\<open>entity/document.rs\<close>: what the
  retrievers are given for a query, and the words a classifier answers with. The Unicode tables (\<^verbatim>\<open>to_lowercase\<close>,
  \<^verbatim>\<open>to_uppercase\<close> and \<^verbatim>\<open>is_alphanumeric\<close>) are parameters. Shown: a lexical query holds nothing but
  words and the operator between them, and the word of a page type names it.
\<close>

section \<open>Page types\<close>

datatype page_type = PtOther | PtProduct | PtKnowledge | PtInstruction | PtDocumentation | PtBlog

fun page_type_num :: "page_type \<Rightarrow> int" where
  "page_type_num PtOther = 0"
| "page_type_num PtProduct = 1"
| "page_type_num PtKnowledge = 2"
| "page_type_num PtInstruction = 3"
| "page_type_num PtDocumentation = 4"
| "page_type_num PtBlog = 5"

datatype page_type_proto =
  PpUnspecified | PpOther | PpProduct | PpKnowledge | PpInstruction | PpDocumentation | PpBlog

definition proto_values :: "page_type_proto list" where
  "proto_values = [PpUnspecified, PpOther, PpProduct, PpKnowledge, PpInstruction, PpDocumentation, PpBlog]"

lemma proto_values_all [simp]: "d \<in> set proto_values"
  by (cases d) (simp_all add: proto_values_def)

fun proto_name :: "page_type_proto \<Rightarrow> string" where
  "proto_name PpUnspecified = ''PAGE_TYPE_UNSPECIFIED''"
| "proto_name PpOther = ''PAGE_TYPE_OTHER''"
| "proto_name PpProduct = ''PAGE_TYPE_PRODUCT''"
| "proto_name PpKnowledge = ''PAGE_TYPE_KNOWLEDGE''"
| "proto_name PpInstruction = ''PAGE_TYPE_INSTRUCTION''"
| "proto_name PpDocumentation = ''PAGE_TYPE_DOCUMENTATION''"
| "proto_name PpBlog = ''PAGE_TYPE_BLOG''"

definition from_proto_name :: "string \<Rightarrow> page_type_proto option" where
  "from_proto_name s = find (\<lambda>d. proto_name d = s) proto_values"

fun page_type_of :: "page_type_proto \<Rightarrow> page_type option" where
  "page_type_of PpUnspecified = None"
| "page_type_of PpOther = Some PtOther"
| "page_type_of PpProduct = Some PtProduct"
| "page_type_of PpKnowledge = Some PtKnowledge"
| "page_type_of PpInstruction = Some PtInstruction"
| "page_type_of PpDocumentation = Some PtDocumentation"
| "page_type_of PpBlog = Some PtBlog"

fun page_type_proto_of :: "page_type \<Rightarrow> page_type_proto" where
  "page_type_proto_of PtOther = PpOther"
| "page_type_proto_of PtProduct = PpProduct"
| "page_type_proto_of PtKnowledge = PpKnowledge"
| "page_type_proto_of PtInstruction = PpInstruction"
| "page_type_proto_of PtDocumentation = PpDocumentation"
| "page_type_proto_of PtBlog = PpBlog"

lemma page_type_of_proto [simp]: "page_type_of (page_type_proto_of t) = Some t"
  by (cases t) simp_all

section \<open>The Unicode tables\<close>

record unicode =
  to_lowercase :: "string \<Rightarrow> string"
  to_uppercase :: "string \<Rightarrow> string"
  is_alphanumeric :: "uchar \<Rightarrow> bool"

text \<open>\<^verbatim>\<open>str::trim\<close> of a string.\<close>

definition trim_text :: "string \<Rightarrow> string" where
  "trim_text s = concat (trim_chars (utf8_chars s))"

definition PAGE_TYPE_NAME_PREFIX :: string where "PAGE_TYPE_NAME_PREFIX = ''PAGE_TYPE_''"

text \<open>\<^verbatim>\<open>str::trim_start_matches\<close>: as often as it starts with it.\<close>

function trim_start_matches :: "string \<Rightarrow> string \<Rightarrow> string" where
  "trim_start_matches pat s =
     (if pat \<noteq> [] \<and> starts_with s pat then trim_start_matches pat (drop (length pat) s) else s)"
  by pat_completeness auto
termination
proof (relation "measure (length \<circ> snd)")
  fix pat s :: string
  assume "pat \<noteq> [] \<and> starts_with s pat"
  then have "pat \<noteq> []" and "s \<noteq> []" by (auto simp: starts_with_def)
  then show "((pat, drop (length pat) s), (pat, s)) \<in> measure (length \<circ> snd)" by simp
qed simp

declare trim_start_matches.simps [simp del]

definition page_type_word :: "unicode \<Rightarrow> page_type_proto \<Rightarrow> string" where
  "page_type_word u declared = to_lowercase u (trim_start_matches PAGE_TYPE_NAME_PREFIX (proto_name declared))"

definition page_type_of_word :: "unicode \<Rightarrow> string \<Rightarrow> page_type_proto option" where
  "page_type_of_word u word = from_proto_name (PAGE_TYPE_NAME_PREFIX @ to_uppercase u (trim_text word))"

definition classifiable_page_types :: "page_type_proto list" where
  "classifiable_page_types = filter (\<lambda>declared. declared \<noteq> PpUnspecified) proto_values"

section \<open>Queries\<close>

text \<open>\<^verbatim>\<open>split_whitespace\<close>, joined by single blanks, in lower case.\<close>

definition normalize :: "unicode \<Rightarrow> string \<Rightarrow> string" where
  "normalize u query = to_lowercase u (join '' '' (map concat (split_words (utf8_chars query))))"

definition query_words :: "unicode \<Rightarrow> string \<Rightarrow> uchar list list" where
  "query_words u query =
     filter (\<lambda>w. w \<noteq> []) (split_when (\<lambda>c. \<not> is_alphanumeric u c) (utf8_chars query))"

definition any_word_lexical_query :: "unicode \<Rightarrow> string \<Rightarrow> string option" where
  "any_word_lexical_query u query =
     (let words = query_words u query in
      if words \<noteq> [] then Some (join '' | '' (map concat words)) else None)"

section \<open>What the tables are taken to do\<close>

definition ascii_upper :: "char \<Rightarrow> char" where
  "ascii_upper ch =
     (if 97 \<le> (of_char ch :: nat) \<and> (of_char ch :: nat) \<le> 122 then char_of ((of_char ch :: nat) - 32) else ch)"

definition ascii_text :: "string \<Rightarrow> bool" where
  "ascii_text s \<longleftrightarrow> (\<forall>ch\<in>set s. (of_char ch :: nat) < 128)"

text \<open>On ASCII text the case mappings are those of ASCII.\<close>

definition ascii_cases :: "unicode \<Rightarrow> bool" where
  "ascii_cases u \<longleftrightarrow>
     (\<forall>s. ascii_text s \<longrightarrow> to_lowercase u s = map ascii_lower s \<and> to_uppercase u s = map ascii_upper s)"

definition ascii_alphanumeric :: "uchar \<Rightarrow> bool" where
  "ascii_alphanumeric c =
     (case c of [b] \<Rightarrow> ascii_digit b
         \<or> (65 \<le> (of_char b :: nat) \<and> (of_char b :: nat) \<le> 90)
         \<or> (97 \<le> (of_char b :: nat) \<and> (of_char b :: nat) \<le> 122) | _ \<Rightarrow> False)"

definition ascii_unicode :: unicode where
  "ascii_unicode =
     \<lparr>to_lowercase = map ascii_lower, to_uppercase = map ascii_upper,
      is_alphanumeric = ascii_alphanumeric\<rparr>"

lemma ascii_unicode_cases: "ascii_cases ascii_unicode"
  by (simp add: ascii_cases_def ascii_unicode_def)

definition bare_name :: "page_type_proto \<Rightarrow> string" where
  "bare_name d = trim_start_matches PAGE_TYPE_NAME_PREFIX (proto_name d)"

lemma bare_names:
  "list_all (\<lambda>d. ascii_text (bare_name d) \<and> ascii_text (map ascii_lower (bare_name d))
     \<and> trim_text (map ascii_lower (bare_name d)) = map ascii_lower (bare_name d)
     \<and> from_proto_name (PAGE_TYPE_NAME_PREFIX @ map ascii_upper (map ascii_lower (bare_name d))) = Some d)
     classifiable_page_types"
  by code_simp

lemma word_of_page_type:
  assumes "ascii_cases u" and "d \<in> set classifiable_page_types"
  shows "page_type_of_word u (page_type_word u d) = Some d"
proof -
  from bare_names assms(2)
  have bare: "ascii_text (bare_name d)" "ascii_text (map ascii_lower (bare_name d))"
      "trim_text (map ascii_lower (bare_name d)) = map ascii_lower (bare_name d)"
      "from_proto_name (PAGE_TYPE_NAME_PREFIX @ map ascii_upper (map ascii_lower (bare_name d))) = Some d"
    unfolding list_all_iff by blast+
  have "page_type_word u d = map ascii_lower (bare_name d)"
    using assms(1) bare(1) unfolding page_type_word_def bare_name_def ascii_cases_def by blast
  moreover have "to_uppercase u (map ascii_lower (bare_name d)) = map ascii_upper (map ascii_lower (bare_name d))"
    using assms(1) bare(2) unfolding ascii_cases_def by blast
  ultimately show ?thesis
    unfolding page_type_of_word_def by (simp only: bare)
qed

section \<open>The lexical query\<close>

lemma query_words_spec:
  "w \<in> set (query_words u q) \<Longrightarrow> w \<noteq> [] \<and> (\<forall>c\<in>set w. is_alphanumeric u c)"
  by (auto simp: query_words_def dest: split_when_avoids)

lemma concat_query_words: "concat (query_words u q) = filter (is_alphanumeric u) (utf8_chars q)"
  by (simp add: query_words_def concat_split_when)

end
