(* ===== verification/Extract.thy ===== *)
theory Extract
  imports Kb_Text
begin

text \<open>
  \<^verbatim>\<open>common/src/extract.rs\<close>: the title, the main text and its hash out of fetched HTML, for the crawler and
  the page fetcher of the tool service. The readability library and SHA-256 are parameters.
\<close>

definition hex_digit :: "nat \<Rightarrow> char" where
  "hex_digit n = (if n < 10 then char_of (48 + n) else char_of (87 + n))"

record extracted =
  extracted_title :: string
  main_text :: string
  content_hash :: string

text \<open>\<open>readability html url\<close> is \<^verbatim>\<open>Readability::new\<close>, where it succeeds with the title it falls back to and
  what \<^verbatim>\<open>parse\<close> returns: the title and the text of the article. \<open>sha256_digest\<close> gives the bytes of the digest.\<close>

record extraction =
  readability :: "string \<Rightarrow> string \<Rightarrow> (string \<times> (string \<times> string) option) option"
  sha256_digest :: "string \<Rightarrow> string"
  utf8_lossy :: "string \<Rightarrow> string"

definition TITLE_COLUMN_MAX_CHARS :: nat where "TITLE_COLUMN_MAX_CHARS = 512"

definition trim_lines_and_drop_blank :: "string \<Rightarrow> string" where
  "trim_lines_and_drop_blank s =
     join [CHR 0x0A] (map concat (filter (\<lambda>l. l \<noteq> []) (map trim_chars (lines_of_text (utf8_chars s)))))"

definition extract_sha256_hex :: "extraction \<Rightarrow> string \<Rightarrow> string" where
  "extract_sha256_hex x s =
     concat (map (\<lambda>byte. [hex_digit (of_char byte div 16), hex_digit (of_char byte mod 16)]) (sha256_digest x s))"

definition extract_page :: "extraction \<Rightarrow> string \<Rightarrow> string \<Rightarrow> extracted" where
  "extract_page x url html =
     (let (title, body) =
        (case readability x html url of
           None \<Rightarrow> ([], [])
         | Some (fallback, None) \<Rightarrow> (fallback, [])
         | Some (_, Some article) \<Rightarrow> article);
        main = trim_lines_and_drop_blank body in
      \<lparr>extracted_title = concat (take TITLE_COLUMN_MAX_CHARS (trim_chars (utf8_chars title))),
       main_text = main, content_hash = extract_sha256_hex x main\<rparr>)"

lemma extract_page_title:
  "\<exists>title. extracted_title (extract_page x u html) = concat (take TITLE_COLUMN_MAX_CHARS (trim_chars (utf8_chars title)))"
  by (simp add: extract_page_def Let_def split: prod.split) blast

lemma extract_page_hash: "content_hash (extract_page x u html) = extract_sha256_hex x (main_text (extract_page x u html))"
  by (simp add: extract_page_def Let_def split: prod.split)

lemma length_sha256_hex: "length (extract_sha256_hex x s) = 2 * length (sha256_digest x s)"
  by (simp add: extract_sha256_hex_def length_concat comp_def sum_list_triv)

end
