(* ===== verification/Web_Fetch.thy ===== *)
theory Web_Fetch
  imports Url_Guard Race Json Extract
begin

text \<open>
  \<^verbatim>\<open>services/tool/src/tools/web_fetch.rs\<close> behind the guard: a GET that follows redirects by
  hand, the reading of a body under a cap, one page, and the fullest of several. Shown: every hop beyond the first passed the guard
  before it was asked for, the hops are bounded, and a header bound to its origin stays on it.
\<close>

section \<open>web\_fetch.rs\<close>

definition MAX_FETCH_BYTES :: nat where "MAX_FETCH_BYTES = 5 * 1024 * 1024"
definition MIN_READABLE_TEXT_CHARS :: nat where "MIN_READABLE_TEXT_CHARS = 40"
definition ANSWERS_BEFORE_CHOOSING :: nat where "ANSWERS_BEFORE_CHOOSING = 2"
definition MAX_REDIRECT_HOPS :: nat where "MAX_REDIRECT_HOPS = 10"

definition HEADERS_BOUND_TO_THEIR_ORIGIN :: "string list" where
  "HEADERS_BOUND_TO_THEIR_ORIGIN =
     [''authorization'', ''cookie'', ''proxy-authorization'', ''www-authenticate'']"

definition readable_page_json :: "extracted \<Rightarrow> json" where
  "readable_page_json page =
     json_object [(''title'', String (extracted_title page)), (''text'', String (main_text page))]"

subsection \<open>Failures\<close>

definition deepest_source :: "send_error \<Rightarrow> string" where
  "deepest_source e = (if source_texts e = [] then [] else last (source_texts e))"

text \<open>\<^verbatim>\<open>to_lowercase\<close> is written for ASCII, which is where the three texts looked for can come from.\<close>

definition send_failure_reason :: "send_error \<Rightarrow> string" where
  "send_failure_reason e =
     (if send_timed_out e then ''timed out''
      else if is_connect e then
        let detail = deepest_source e; lowered = map ascii_lower detail in
        if contains_text ''dns'' lowered \<or> contains_text ''name or service not known'' lowered
        then ''host could not be resolved ('' @ detail @ '')''
        else if contains_text ''refused'' lowered then ''connection refused ('' @ detail @ '')''
        else if detail = [] then ''could not connect''
        else ''could not connect ('' @ detail @ '')''
      else if is_redirect e then ''too many redirects''
      else if is_body_or_decode e then ''the response body could not be read''
      else ''the request failed ('' @ error_text e @ '')'')"

definition readable_send_failure :: "string \<Rightarrow> send_error \<Rightarrow> string" where
  "readable_send_failure url e = ''fetch '' @ url @ '' failed: '' @ send_failure_reason e"

subsection \<open>Redirects\<close>

definition is_bound_to_its_origin :: "string \<Rightarrow> bool" where
  "is_bound_to_its_origin nm \<longleftrightarrow> list_ex (eq_ignore_ascii_case nm) HEADERS_BOUND_TO_THEIR_ORIGIN"

definition origin_of :: "'w net_services \<Rightarrow> string \<Rightarrow> (string \<times> string \<times> nat) option" where
  "origin_of s url =
     (case parse_url s url of
        Inl _ \<Rightarrow> None
      | Inr p \<Rightarrow>
          Option.bind (url_host p) (\<lambda>host.
          Option.bind (url_port p) (\<lambda>port.
          Some (map ascii_lower (url_scheme p), map ascii_lower host, port))))"

definition same_origin :: "'w net_services \<Rightarrow> string \<Rightarrow> string \<Rightarrow> bool" where
  "same_origin s one other =
     (case (origin_of s one, origin_of s other) of (Some x, Some y) \<Rightarrow> x = y | _ \<Rightarrow> False)"

definition hop_headers ::
  "'w net_services \<Rightarrow> string \<Rightarrow> string \<Rightarrow> (string \<times> string) list \<Rightarrow> (string \<times> string) list" where
  "hop_headers s asked_for here headers =
     filter (\<lambda>(nm, _). same_origin s asked_for here \<or> \<not> is_bound_to_its_origin nm) headers"

definition hop_request ::
  "'w net_services \<Rightarrow> string \<Rightarrow> string \<Rightarrow> (string \<times> string) list \<Rightarrow> nat \<Rightarrow>
     ('w net, send_error + page_response) state" where
  "hop_request s asked_for here headers limit =
     do {
       record_event (Requested here (hop_headers s asked_for here headers));
       in_world (http_get s here (hop_headers s asked_for here headers) limit)
     }"

definition is_redirection :: "page_response \<Rightarrow> bool" where
  "is_redirection r \<longleftrightarrow> status_code r div 100 = 3"

definition success_status :: "page_response \<Rightarrow> bool" where
  "success_status r \<longleftrightarrow> status_code r div 100 = 2"

definition redirect_target :: "page_response \<Rightarrow> string option" where
  "redirect_target r = (if is_redirection r then location r else None)"

definition resolve :: "'w net_services \<Rightarrow> string \<Rightarrow> string \<Rightarrow> string + string" where
  "resolve s from_url loc =
     and_then (map_err (\<lambda>e. ''could not read '' @ from_url @ '' as a URL: '' @ e) (parse_url s from_url)) (\<lambda>_.
     map_err (\<lambda>e. ''could not resolve redirect target '' @ quoted loc @ '': '' @ e) (join_url s from_url loc))"

definition redirect_refused :: "string \<Rightarrow> string \<Rightarrow> string" where
  "redirect_refused there reason = ''redirect to '' @ there @ '' was refused: '' @ reason"

text \<open>\<open>hops\<close> counts down the iterations of \<^verbatim>\<open>for _ in 0..=MAX_REDIRECT_HOPS\<close>.\<close>

fun follow ::
  "'w net_services \<Rightarrow> string \<Rightarrow> (string \<times> string) list \<Rightarrow> nat \<Rightarrow> nat \<Rightarrow> string \<Rightarrow>
     ('w net, string + page_response) state" where
  "follow s url headers limit 0 here =
     State_Monad.return (Inl (url @ '' redirected more than '' @ show_nat MAX_REDIRECT_HOPS @
       '' times, so the chain was abandoned''))"
| "follow s url headers limit (Suc hops) here =
     do {
       answered \<leftarrow> hop_request s url here headers limit;
       case answered of
         Inl e \<Rightarrow> State_Monad.return (Inl (readable_send_failure here e))
       | Inr response \<Rightarrow>
           (case redirect_target response of
              None \<Rightarrow> State_Monad.return (Inr response)
            | Some loc \<Rightarrow>
                (case resolve s here loc of
                   Inl e \<Rightarrow> State_Monad.return (Inl e)
                 | Inr there \<Rightarrow>
                     do {
                       verdict \<leftarrow> ensure_public_url s there;
                       case verdict of
                         Inl reason \<Rightarrow> State_Monad.return (Inl (redirect_refused there reason))
                       | Inr _ \<Rightarrow> follow s url headers limit hops there
                     }))
     }"

definition get_guarded ::
  "'w net_services \<Rightarrow> string \<Rightarrow> (string \<times> string) list \<Rightarrow> nat \<Rightarrow> ('w net, string + page_response) state" where
  "get_guarded s url headers limit = follow s url headers limit (Suc MAX_REDIRECT_HOPS) url"

subsection \<open>Bodies\<close>

fun read_body ::
  "nat \<Rightarrow> (send_error \<Rightarrow> string) \<Rightarrow> string \<Rightarrow> string \<Rightarrow> (send_error + string) list \<Rightarrow> string + string" where
  "read_body limit broken too_long body [] = Inr body"
| "read_body limit broken too_long body (Inl e # cs) = Inl (broken e)"
| "read_body limit broken too_long body (Inr c # cs) =
     (if limit < length (body @ c) then Inl too_long else read_body limit broken too_long (body @ c) cs)"

definition page_of ::
  "extraction \<Rightarrow> string \<Rightarrow> page_response \<Rightarrow> string + extracted" where
  "page_of x url response =
     (if \<not> success_status response then Inl (''fetch '' @ url @ '' returned '' @ status_line response)
      else
        and_then (read_body MAX_FETCH_BYTES (readable_send_failure url)
            (url @ '' exceeded '' @ show_nat MAX_FETCH_BYTES @ '' bytes, refusing to download the rest'')
            [] (body_chunks response)) (\<lambda>body.
        let page = extract_page x url (utf8_lossy x body) in
        if char_count (main_text page) < MIN_READABLE_TEXT_CHARS
        then Inl (''fetch '' @ url @ '' extracted under '' @ show_nat MIN_READABLE_TEXT_CHARS @
          '' characters of text, so the page carried no readable content to answer from'')
        else Inr page))"

definition fetch ::
  "'w net_services \<Rightarrow> extraction \<Rightarrow> string \<Rightarrow> nat \<Rightarrow> ('w net, string + extracted) state" where
  "fetch s x url limit =
     attempted (get_guarded s url [] limit) (\<lambda>response. State_Monad.return (page_of x url response))"

subsection \<open>Racing\<close>

text \<open>
  What a race does to the world is not decided by the code: \<open>at_start\<close> is the world an operation meets,
  \<open>runs_late\<close> whether its time runs out, \<open>arrives\<close> which of those that run ends next, \<open>afterwards\<close>
  the world the race leaves. Each attempt has its own events; they are recorded whole and one attempt after
  the other, which is more than is sent where an attempt is cancelled or never starts.
\<close>

record ('w, 'a) arena =
  at_start :: "nat \<Rightarrow> 'w"
  runs_late :: "nat \<Rightarrow> bool"
  arrives :: "(string + string \<times> 'a) list \<Rightarrow> (string + string \<times> 'a) list \<Rightarrow> nat"
  afterwards :: 'w

type_synonym ('w, 'a) operation = "string \<times> ('w net, string + 'a) state"

definition attempt_of :: "('w, 'a) arena \<Rightarrow> ('w, 'a) operation list \<Rightarrow> nat \<Rightarrow> (string + 'a) \<times> 'w net" where
  "attempt_of a ops i = run_state (snd (ops ! i)) \<lparr>trace = [], world = at_start a i\<rparr>"

definition endings :: "('w, 'a) arena \<Rightarrow> ('w, 'a) operation list \<Rightarrow> (string \<times> 'a ending) list" where
  "endings a ops =
     map (\<lambda>i. (fst (ops ! i), if runs_late a i then OutOfTime else Ended (fst (attempt_of a ops i))))
       [0..<length ops]"

definition race_on ::
  "('w, ('w, 'a) arena) state \<Rightarrow> (nat \<Rightarrow> string) \<Rightarrow> ('w, 'a) operation list \<Rightarrow> nat \<Rightarrow> nat \<Rightarrow> nat \<Rightarrow>
     ('w net, 'a race_outcome) state" where
  "race_on meet show_time ops fan_out quota limit =
     State (\<lambda>n.
       let a = fst (run_state meet (world n)) in
       (race show_time (arrives a) (endings a ops) fan_out quota limit,
        \<lparr>trace = trace n @ concat (map (\<lambda>i. trace (snd (attempt_of a ops i))) [0..<length ops]),
         world = afterwards a\<rparr>))"

text \<open>\<^verbatim>\<open>max_by_key\<close> answers the last of the elements whose key is the greatest.\<close>

fun last_max :: "('a \<Rightarrow> nat) \<Rightarrow> 'a list \<Rightarrow> 'a option" where
  "last_max key [] = None"
| "last_max key (x # xs) =
     (case last_max key xs of None \<Rightarrow> Some x | Some y \<Rightarrow> Some (if key x \<le> key y then y else x))"

definition richest :: "extracted race_outcome \<Rightarrow> string + extracted" where
  "richest out =
     ok_or (''every url failed '' @ [CHR 0xE2, CHR 0x80, CHR 0x94] @ '' '' @ join ''; '' (failures out))
       (last_max (\<lambda>page. length (main_text page)) (map snd (taken out)))"

definition fetch_richest ::
  "'w net_services \<Rightarrow> extraction \<Rightarrow> ('w, ('w, extracted) arena) state \<Rightarrow> (nat \<Rightarrow> string) \<Rightarrow> string list \<Rightarrow> nat \<Rightarrow>
     ('w net, string + extracted) state" where
  "fetch_richest s x meet show_time urls limit =
     do {
       out \<leftarrow> race_on meet show_time (map (\<lambda>url. (url, fetch s x url limit)) urls)
         (length urls) ANSWERS_BEFORE_CHOOSING limit;
       State_Monad.return (richest out)
     }"

section \<open>Hops\<close>

lemma asks_first_hop_request: "here \<in> G \<Longrightarrow> asks_first G (hop_request s url here headers limit) (\<lambda>_. G)"
  unfolding hop_request_def
  by (auto intro!: asks_first_bind [where R = "\<lambda>_. G"] asks_first_record_requested asks_first_in_world)

lemma asks_first_follow:
  "here \<in> G \<Longrightarrow> asks_first G (follow s url headers limit hops here) (\<lambda>_. G)"
proof (induction hops arbitrary: here G)
  case (Suc hops)
  have on: "asks_first (insert there G) (follow s url headers limit hops there) (\<lambda>_. G)" for there
    by (rule asks_first_weaken [OF Suc.IH [of there "insert there G"]]) auto
  have checked: "asks_first G (do {
      verdict \<leftarrow> ensure_public_url s there;
      case verdict of
        Inl reason \<Rightarrow> State_Monad.return (Inl (redirect_refused there reason))
      | Inr _ \<Rightarrow> follow s url headers limit hops there }) (\<lambda>_. G)" for there
    by (rule asks_first_bind [OF asks_first_guard]) (auto split: sum.splits intro!: asks_first_return on)
  show ?case
    unfolding follow.simps
    by (rule asks_first_bind [OF asks_first_hop_request [OF Suc.prems]])
      (auto split: sum.splits option.splits intro!: asks_first_return checked)
qed (simp add: asks_first_return)

lemma asks_first_get_guarded:
  "url \<in> G \<Longrightarrow> asks_first G (get_guarded s url headers limit) (\<lambda>_. G)"
  unfolding get_guarded_def by (rule asks_first_follow)

lemma asks_first_fetch: "url \<in> G \<Longrightarrow> asks_first G (fetch s x url limit) (\<lambda>_. G)"
  unfolding fetch_def
  by (rule asks_first_attempted [where R = "\<lambda>_. G"])
    (auto split: sum.splits intro!: asks_first_return asks_first_weaken [OF asks_first_get_guarded [of url G]])

text \<open>A race over operations that send only what has passed sends only what has passed.\<close>

lemma guarded_from_concat: "(\<And>es. es \<in> set ess \<Longrightarrow> guarded_from G es) \<Longrightarrow> guarded_from G (concat ess)"
  by (induction ess) (auto simp: guarded_from_append intro: guarded_from_mono)

lemma asks_first_race_on:
  assumes "\<And>nm m. (nm, m) \<in> set ops \<Longrightarrow> asks_first G m (\<lambda>_. G)"
  shows "asks_first G (race_on meet show_time ops fan_out quota limit) (\<lambda>_. G)"
proof (rule asks_firstI)
  fix n r n' assume "run_state (race_on meet show_time ops fan_out quota limit) n = (r, n')"
  then have n': "trace n' = trace n @ concat (map (\<lambda>i.
      trace (snd (attempt_of (fst (run_state meet (world n))) ops i))) [0..<length ops])"
    by (auto simp: race_on_def Let_def)
  have "guarded_from G (trace (snd (attempt_of a ops i)))" if "i < length ops" for a i
  proof -
    obtain r' k where k: "attempt_of a ops i = (r', k)" by fastforce
    have "asks_first G (snd (ops ! i)) (\<lambda>_. G)" using assms [of "fst (ops ! i)"] that by (simp add: nth_mem)
    from asks_firstE [OF this k [unfolded attempt_of_def]] k show ?thesis by auto
  qed
  then have "guarded_from G (concat (map (\<lambda>i.
      trace (snd (attempt_of (fst (run_state meet (world n))) ops i))) [0..<length ops]))"
    by (intro guarded_from_concat) auto
  then show "\<exists>es. trace n' = trace n @ es \<and> guarded_from G es \<and> G \<subseteq> G \<union> let_through es"
    using n' by auto
qed

lemma asks_first_fetch_richest:
  assumes "set urls \<subseteq> G"
  shows "asks_first G (fetch_richest s x meet show_time urls limit) (\<lambda>_. G)"
  unfolding fetch_richest_def
  by (rule asks_first_bind [OF asks_first_race_on])
    (use assms in \<open>auto intro!: asks_first_return asks_first_fetch\<close>)

text \<open>Headers and the number of hops.\<close>

fun is_request :: "net_event \<Rightarrow> bool" where
  "is_request (Requested _ _) = True"
| "is_request (Guarded _) = False"

fun keeps_credentials :: "'w net_services \<Rightarrow> string \<Rightarrow> net_event \<Rightarrow> bool" where
  "keeps_credentials s url (Requested u h) =
     list_all (\<lambda>(nm, _). is_bound_to_its_origin nm \<longrightarrow> same_origin s url u) h"
| "keeps_credentials s url (Guarded u) = True"

lemma run_url_verdict: "run_state (url_verdict s raw) n = (r, n') \<Longrightarrow> trace n' = trace n"
  by (auto simp: url_verdict_def host_verdict_def in_world_def split: if_splits option.splits prod.splits)

lemma run_guard:
  "run_state (ensure_public_url s raw) n = (r, n') \<Longrightarrow> trace n' = trace n @ (if isl r then [] else [Guarded raw])"
  by (auto simp: ensure_public_url_def attempted_def record_event_def
      dest!: run_url_verdict split: prod.splits sum.splits)

lemma run_hop_request:
  "run_state (hop_request s url here headers limit) n = (r, n') \<Longrightarrow>
    trace n' = trace n @ [Requested here (hop_headers s url here headers)]"
  by (auto simp: hop_request_def record_event_def in_world_def split: prod.splits)

lemma hop_keeps_credentials: "keeps_credentials s url (Requested here (hop_headers s url here headers))"
  by (auto simp: hop_headers_def list_all_iff)

lemma run_follow:
  "run_state (follow s url headers limit hops here) n = (r, n') \<Longrightarrow>
    \<exists>es. trace n' = trace n @ es \<and> list_all (keeps_credentials s url) es \<and> length (filter is_request es) \<le> hops"
proof (induction hops arbitrary: here n)
  case (Suc hops)
  obtain answered k where hop: "run_state (hop_request s url here headers limit) n = (answered, k)" by fastforce
  let ?e = "Requested here (hop_headers s url here headers)"
  note k = run_hop_request [OF hop]
  show ?case
  proof (cases "\<exists>response loc there. answered = Inr response \<and> redirect_target response = Some loc \<and>
      resolve s here loc = Inr there")
    case True
    then obtain response loc there where there: "answered = Inr response" "redirect_target response = Some loc"
      "resolve s here loc = Inr there" by blast
    obtain verdict l where guard: "run_state (ensure_public_url s there) k = (verdict, l)" by fastforce
    note l = run_guard [OF guard]
    show ?thesis
    proof (cases verdict)
      case (Inl e)
      then show ?thesis using Suc.prems hop there guard k l hop_keeps_credentials
        by (auto intro!: exI [of _ "[?e]"])
    next
      case (Inr v)
      with Suc.prems hop there guard
      have "run_state (follow s url headers limit hops there) l = (r, n')" by simp
      from Suc.IH [OF this] obtain es where "trace n' = trace l @ es" "list_all (keeps_credentials s url) es"
        "length (filter is_request es) \<le> hops" by blast
      then show ?thesis using Inr k l hop_keeps_credentials
        by (intro exI [of _ "?e # Guarded there # es"]) simp
    qed
  next
    case False
    then have "n' = k" using Suc.prems hop by (auto split: sum.splits option.splits)
    then show ?thesis using k hop_keeps_credentials by (intro exI [of _ "[?e]"]) simp
  qed
qed simp

text \<open>C28: a header that is bound to its origin is sent only with requests to the origin of the URL that was
asked for, wherever redirects lead.\<close>

theorem bound_headers_stay_on_their_origin:
  assumes "run_state (get_guarded s url headers limit) n = (r, n')"
    and "Requested u h \<in> set (drop (length (trace n)) (trace n'))" and "(nm, v) \<in> set h"
    and "is_bound_to_its_origin nm"
  shows "same_origin s url u"
proof -
  from run_follow [OF assms(1) [unfolded get_guarded_def]] obtain es where
    "trace n' = trace n @ es" and es: "list_all (keeps_credentials s url) es" by blast
  with assms(2) have "Requested u h \<in> set es" by simp
  with es have "keeps_credentials s url (Requested u h)" by (simp only: list_all_iff)
  with assms(3,4) show ?thesis by (auto simp: list_all_iff)
qed

lemma hops_are_bounded:
  assumes "run_state (get_guarded s url headers limit) n = (r, n')"
  shows "length (filter is_request (drop (length (trace n)) (trace n'))) \<le> 11"
  using run_follow [OF assms [unfolded get_guarded_def]] by (auto simp: MAX_REDIRECT_HOPS_def)

text \<open>A credential carried by a header of another name goes with the request to whatever host a redirect
leads to.\<close>

lemma other_credentials_follow_redirects:
  "hop_headers s url there [(''Authorization'', token), (''X-Api-Key'', key)] =
    (if same_origin s url there then [(''Authorization'', token), (''X-Api-Key'', key)]
     else [(''X-Api-Key'', key)])"
proof -
  have "is_bound_to_its_origin ''Authorization''" "\<not> is_bound_to_its_origin ''X-Api-Key''" by code_simp+
  then show ?thesis by (simp add: hop_headers_def)
qed

section \<open>Bodies and pages\<close>

lemma read_body_bounded:
  "read_body limit broken too_long body cs = Inr whole \<Longrightarrow> length body \<le> limit \<Longrightarrow> length whole \<le> limit"
  by (induction limit broken too_long body cs rule: read_body.induct) (auto split: if_splits)

lemma last_max_Some: "last_max key xs = Some x \<Longrightarrow> x \<in> set xs \<and> (\<forall>y \<in> set xs. key y \<le> key x)"
proof (induction xs arbitrary: x)
  case (Cons a xs)
  show ?case
  proof (cases "last_max key xs")
    case None
    then have "xs = []" by (cases xs) (auto split: option.splits)
    then show ?thesis using Cons.prems by simp
  next
    case (Some y)
    then show ?thesis using Cons.IH [OF Some] Cons.prems by (auto split: if_splits)
  qed
qed simp

lemma last_max_None [simp]: "last_max key xs = None \<longleftrightarrow> xs = []"
  by (cases xs) (auto split: option.splits)

end
