(* ===== verification/Declarative.thy ===== *)
theory Declarative
  imports Web_Fetch
begin

text \<open>
  \<^verbatim>\<open>services/tool/src/tools/declarative.rs\<close>: a tool whose behaviour is a row of endpoints that answer the
  same question. Templates are scanned and filled from the environment and from the arguments, every URL
  passes the guard before any request goes out, and the sources race. Parameters: the derived codec of
  \<^verbatim>\<open>SourceSet\<close>, the texts of JSON values, the reader of a reply, the percent encoding of
  \<^verbatim>\<open>form_urlencoded\<close> and the environment. Shown: what an argument can put into a URL and into a path,
  what an accepted row satisfies, and what becomes of a secret that a failure quotes.
\<close>

section \<open>Rows\<close>

definition PLACEHOLDER_OPEN :: char where "PLACEHOLDER_OPEN = CHR ''{''"
definition PLACEHOLDER_CLOSE :: char where "PLACEHOLDER_CLOSE = CHR ''}''"
definition PATH_SEPARATOR :: char where "PATH_SEPARATOR = CHR ''.''"
definition SECRET_MARKER :: char where "SECRET_MARKER = CHR ''$''"
definition REDACTED :: string where "REDACTED = ''***''"
definition MAX_BODY_BYTES :: nat where "MAX_BODY_BYTES = 256 * 1024"

text \<open>The headers are a \<^verbatim>\<open>BTreeMap\<close>: in the order of their names.\<close>

record source =
  source_name :: string
  source_url :: string
  source_pick :: string
  source_headers :: "(string \<times> string) list"

record source_set =
  fan_out :: nat
  enough :: nat
  sources :: "source list"

record row_codec =
  read_source_set :: "json \<Rightarrow> string + source_set"
  text_of_json :: "json \<Rightarrow> string"
  json_of_bytes :: "string \<Rightarrow> string + json"
  byte_serialize :: "string \<Rightarrow> string"
  environment :: "string \<Rightarrow> string option"

definition present :: "string option \<Rightarrow> string option" where
  "present v = (case v of None \<Rightarrow> None | Some s \<Rightarrow> if trim s = [] then None else Some s)"

definition declared_fields :: "json \<Rightarrow> string set" where
  "declared_fields schema =
     (case Option.bind (get schema ''properties'') as_object of None \<Rightarrow> {} | Some m \<Rightarrow> fmdom' m)"

section \<open>Templates\<close>

text \<open>\<open>scan_rest\<close> goes on behind the last placeholder: the character before a brace is the last one since, and
never the marker where there is none.\<close>

function scan_rest :: "string \<Rightarrow> bool \<Rightarrow> string \<Rightarrow> string + string list" where
  "scan_rest template secrets rest =
     (case split_once PLACEHOLDER_OPEN rest of
        None \<Rightarrow> Inr []
      | Some (before, after) \<Rightarrow>
          (case split_once PLACEHOLDER_CLOSE after of
             None \<Rightarrow> Inl (quoted template @ '' has a { with no closing }'')
           | Some (field, behind) \<Rightarrow>
               and_then (scan_rest template secrets behind) (\<lambda>found.
               Inr (if (before \<noteq> [] \<and> last before = SECRET_MARKER) = secrets then field # found else found))))"
  by pat_completeness auto

lemma split_once_shorter: "split_once c s = Some (a, b) \<Longrightarrow> length b < length s"
proof -
  assume "split_once c s = Some (a, b)"
  then have "c \<in> set s" and b: "b = tl (dropWhile (\<lambda>x. x \<noteq> c) s)" by (auto simp: split_once_def split: if_splits)
  then have "dropWhile (\<lambda>x. x \<noteq> c) s \<noteq> []" by (auto simp: dropWhile_eq_Nil_conv)
  then show ?thesis using b length_dropWhile_le [of "\<lambda>x. x \<noteq> c" s] by (cases "dropWhile (\<lambda>x. x \<noteq> c) s") auto
qed

termination scan_rest
  by (relation "measure (\<lambda>(_, _, rest). length rest)") (auto dest!: split_once_shorter)

declare scan_rest.simps [simp del]

definition scan :: "string \<Rightarrow> bool \<Rightarrow> string + string list" where
  "scan template secrets = scan_rest template secrets template"

definition placeholders :: "string \<Rightarrow> string + string list" where
  "placeholders template = scan template False"

definition secret_placeholders :: "string \<Rightarrow> string + string list" where
  "secret_placeholders template = scan template True"

definition braced :: "string \<Rightarrow> string" where
  "braced field = [PLACEHOLDER_OPEN] @ field @ [PLACEHOLDER_CLOSE]"

fun fill_secrets_from ::
  "(string \<Rightarrow> string option) \<Rightarrow> string list \<Rightarrow> string \<Rightarrow> string list \<Rightarrow> string + string \<times> string list" where
  "fill_secrets_from lookup [] filled used = Inr (filled, used)"
| "fill_secrets_from lookup (nm # names) filled used =
     (case present (lookup nm) of
        None \<Rightarrow> Inl (''the environment does not carry '' @ quoted nm)
      | Some v \<Rightarrow>
          fill_secrets_from lookup names (replace_all ([SECRET_MARKER] @ braced nm) v filled) (used @ [v]))"

definition fill_secrets ::
  "string \<Rightarrow> (string \<Rightarrow> string option) \<Rightarrow> string + string \<times> string list" where
  "fill_secrets template lookup =
     and_then (secret_placeholders template) (\<lambda>names. fill_secrets_from lookup names template [])"

definition without_secrets :: "string \<Rightarrow> string list \<Rightarrow> string" where
  "without_secrets message secrets = foldl (\<lambda>said secret. replace_all secret REDACTED said) message secrets"

definition plain_text :: "row_codec \<Rightarrow> json \<Rightarrow> string" where
  "plain_text c v = (case v of String s \<Rightarrow> s | other \<Rightarrow> text_of_json c other)"

fun substitute_from ::
  "row_codec \<Rightarrow> json \<Rightarrow> (string \<Rightarrow> string \<Rightarrow> string + string) \<Rightarrow> string list \<Rightarrow> string \<Rightarrow> string + string" where
  "substitute_from c input render [] filled = Inr filled"
| "substitute_from c input render (field # names) filled =
     and_then (ok_or (''input does not carry '' @ quoted field) (get input field)) (\<lambda>v.
     and_then (render field (plain_text c v)) (\<lambda>rendered.
     substitute_from c input render names (replace_all (braced field) rendered filled)))"

definition substitute ::
  "row_codec \<Rightarrow> string \<Rightarrow> json \<Rightarrow> (string \<Rightarrow> string \<Rightarrow> string + string) \<Rightarrow> string + string" where
  "substitute c template input render =
     and_then (placeholders template) (\<lambda>names. substitute_from c input render names template)"

definition percent_encoded :: "row_codec \<Rightarrow> string \<Rightarrow> string" where
  "percent_encoded c plain = replace_all ''+'' ''%20'' (byte_serialize c plain)"

definition fill :: "row_codec \<Rightarrow> string \<Rightarrow> json \<Rightarrow> string + string" where
  "fill c template input = substitute c template input (\<lambda>_ plain. Inr (percent_encoded c plain))"

definition as_path_segment :: "string \<Rightarrow> string \<Rightarrow> string + string" where
  "as_path_segment field plain =
     (if PATH_SEPARATOR \<in> set plain
      then Inl (quoted field @ '' carries '' @ [CHR 0x27, PATH_SEPARATOR, CHR 0x27] @
        '', which would read deeper into the reply than the pick describes'')
      else Inr plain)"

definition fill_path :: "row_codec \<Rightarrow> string \<Rightarrow> json \<Rightarrow> string + string" where
  "fill_path c template input = substitute c template input as_path_segment"

text \<open>\<^verbatim>\<open>Value::get\<close> with a string reads an object, with a number an array.\<close>

definition step_into :: "json \<Rightarrow> string \<Rightarrow> json option" where
  "step_into here segment =
     (case get here segment of
        Some found \<Rightarrow> Some found
      | None \<Rightarrow>
          Option.bind (parse_usize segment) (\<lambda>i.
          Option.bind (as_array here) (\<lambda>xs. if i < length xs then Some (xs ! i) else None)))"

definition pick_value :: "json \<Rightarrow> string \<Rightarrow> json option" where
  "pick_value body path = fold_opt (\<lambda>segment here. step_into here segment) (split_on PATH_SEPARATOR path) body"

section \<open>Checks\<close>

fun declared_only :: "string set \<Rightarrow> string list \<Rightarrow> string + unit" where
  "declared_only declared [] = Inr ()"
| "declared_only declared (template # templates) =
     and_then (placeholders template) (\<lambda>names.
     case List.find (\<lambda>f. f \<notin> declared) names of
       Some field \<Rightarrow>
         Inl (''uses '' @ braced field @ '' in '' @ quoted template @ '', which input_schema does not declare'')
     | None \<Rightarrow> declared_only declared templates)"

fun secrets_present :: "(string \<Rightarrow> string option) \<Rightarrow> string list \<Rightarrow> string + unit" where
  "secrets_present lookup [] = Inr ()"
| "secrets_present lookup (template # templates) =
     and_then (secret_placeholders template) (\<lambda>names.
     case List.find (\<lambda>nm. present (lookup nm) = None) names of
       Some nm \<Rightarrow> Inl (''needs '' @ quoted nm @ '' from the environment, which is not set'')
     | None \<Rightarrow> secrets_present lookup templates)"

definition check_source ::
  "source \<Rightarrow> string set \<Rightarrow> (string \<Rightarrow> string option) \<Rightarrow> string + unit" where
  "check_source src declared lookup =
     (if source_pick src = [] then Inl ''has an empty pick''
      else
        and_then (declared_only declared (source_url src # source_pick src # map snd (source_headers src))) (\<lambda>_.
        and_then (secrets_present lookup (source_url src # map snd (source_headers src))) (\<lambda>_.
        and_then (secret_placeholders (source_pick src)) (\<lambda>names.
        if names \<noteq> []
        then Inl ''puts a ${...} in its pick, where nothing is substituted from the environment''
        else Inr ()))))"

fun check_sources ::
  "string set \<Rightarrow> (string \<Rightarrow> string option) \<Rightarrow> string set \<Rightarrow> source list \<Rightarrow> string + unit" where
  "check_sources declared lookup seen [] = Inr ()"
| "check_sources declared lookup seen (src # srcs) =
     (if source_name src \<in> seen
      then Inl (''source name '' @ quoted (source_name src) @ '' is used more than once'')
      else
        and_then (map_err (\<lambda>problem. ''source '' @ quoted (source_name src) @ '' '' @ problem)
          (check_source src declared lookup)) (\<lambda>_.
        check_sources declared lookup (insert (source_name src) seen) srcs))"

definition checked_row ::
  "row_codec \<Rightarrow> json \<Rightarrow> json \<Rightarrow> (string \<Rightarrow> string option) \<Rightarrow> string + source_set" where
  "checked_row c raw schema lookup =
     and_then (map_err (\<lambda>e. ''sources: '' @ e) (read_source_set c raw)) (\<lambda>row.
     if sources row = [] then Inl ''sources must list at least one source''
     else if enough row = 0 \<or> length (sources row) < enough row
     then Inl (''take must be between 1 and the '' @ show_nat (length (sources row)) @
       '' sources listed, got '' @ show_nat (enough row))
     else if fan_out row = 0 then Inl ''fan_out must be at least 1''
     else and_then (check_sources (declared_fields schema) lookup {} (sources row)) (\<lambda>_. Inr row))"

definition parse_sources :: "row_codec \<Rightarrow> json \<Rightarrow> json \<Rightarrow> string + source_set" where
  "parse_sources c raw schema = checked_row c raw schema (environment c)"

section \<open>Running\<close>

record prepared =
  prepared_source :: source
  prepared_url :: string
  prepared_pick :: string
  prepared_headers :: "(string \<times> string) list"

text \<open>The second component holds the secrets substituted, which the code pushes onto the caller's list as it
goes, whether the source is prepared in the end or not.\<close>

fun fill_headers ::
  "row_codec \<Rightarrow> json \<Rightarrow> (string \<times> string) list \<Rightarrow> string list \<Rightarrow>
     (string + (string \<times> string) list) \<times> string list" where
  "fill_headers c input [] used = (Inr [], used)"
| "fill_headers c input ((nm, template) # headers) used =
     (case fill_secrets template (environment c) of
        Inl e \<Rightarrow> (Inl e, used)
      | Inr (v, more_used) \<Rightarrow>
          (case fill c v input of
             Inl e \<Rightarrow> (Inl e, used @ more_used)
           | Inr filled \<Rightarrow>
               (let (r, all_used) = fill_headers c input headers (used @ more_used) in
                (and_then r (\<lambda>hs. Inr ((nm, filled) # hs)), all_used))))"

definition prepare_source ::
  "row_codec \<Rightarrow> source \<Rightarrow> json \<Rightarrow> (string + prepared) \<times> string list" where
  "prepare_source c src input =
     (case fill_secrets (source_url src) (environment c) of
        Inl e \<Rightarrow> (Inl e, [])
      | Inr (template, used) \<Rightarrow>
          (case and_then (fill c template input) (\<lambda>url.
                and_then (fill_path c (source_pick src) input) (\<lambda>pick. Inr (url, pick))) of
             Inl e \<Rightarrow> (Inl e, used)
           | Inr (url, pick) \<Rightarrow>
               (let (r, all_used) = fill_headers c input (source_headers src) used in
                (and_then r (\<lambda>hs. Inr \<lparr>prepared_source = src, prepared_url = url, prepared_pick = pick,
                   prepared_headers = hs\<rparr>), all_used))))"

definition ask_source ::
  "'w net_services \<Rightarrow> row_codec \<Rightarrow> string \<Rightarrow> string \<Rightarrow> (string \<times> string) list \<Rightarrow> nat \<Rightarrow>
     ('w net, string + json) state" where
  "ask_source s c url pick headers limit =
     attempted (get_guarded s url headers limit) (\<lambda>response. State_Monad.return
       (if \<not> success_status response then Inl (''returned '' @ status_line response)
        else
          and_then (read_body MAX_BODY_BYTES (\<lambda>e. ''body could not be read: '' @ error_text e)
              (''replied with more than '' @ show_nat MAX_BODY_BYTES @ '' bytes'') [] (body_chunks response)) (\<lambda>body.
          and_then (map_err (\<lambda>e. ''reply is not JSON: '' @ e) (json_of_bytes c body)) (\<lambda>parsed.
          ok_or (''reply carries no '' @ quoted pick) (pick_value parsed pick)))))"

record readiness =
  ready :: "prepared list"
  refused :: "string list"
  withheld :: "string list"

definition said_of :: "source \<Rightarrow> string \<Rightarrow> string" where
  "said_of src reason = source_name src @ '': '' @ reason"

fun make_ready ::
  "'w net_services \<Rightarrow> row_codec \<Rightarrow> json \<Rightarrow> source list \<Rightarrow> readiness \<Rightarrow> ('w net, readiness) state" where
  "make_ready s c input [] y = State_Monad.return y"
| "make_ready s c input (src # srcs) y =
     (case prepare_source c src input of
        (Inl reason, used) \<Rightarrow>
          make_ready s c input srcs
            (y\<lparr>refused := refused y @ [said_of src reason], withheld := withheld y @ used\<rparr>)
      | (Inr p, used) \<Rightarrow>
          do {
            verdict \<leftarrow> ensure_public_url s (prepared_url p);
            case verdict of
              Inl reason \<Rightarrow>
                make_ready s c input srcs
                  (y\<lparr>refused := refused y @ [said_of src reason], withheld := withheld y @ used\<rparr>)
            | Inr _ \<Rightarrow>
                make_ready s c input srcs (y\<lparr>ready := ready y @ [p], withheld := withheld y @ used\<rparr>)
          })"

definition asking ::
  "'w net_services \<Rightarrow> row_codec \<Rightarrow> nat \<Rightarrow> prepared \<Rightarrow> ('w, json) operation" where
  "asking s c limit p =
     (source_name (prepared_source p), ask_source s c (prepared_url p) (prepared_pick p) (prepared_headers p) limit)"

definition answered_values :: "readiness \<Rightarrow> json race_outcome \<Rightarrow> string + json" where
  "answered_values y out =
     (if taken out = [] then
        Inl (without_secrets
          (''every source failed '' @ [CHR 0xE2, CHR 0x80, CHR 0x94] @ '' '' @
            join ''; '' (refused y @ failures out))
          (withheld y))
      else Inr (json_object [(''values'', Array (map (\<lambda>(nm, v).
        json_object [(''source'', String nm), (''value'', v)]) (taken out)))]))"

definition run_sources ::
  "'w net_services \<Rightarrow> row_codec \<Rightarrow> ('w, ('w, json) arena) state \<Rightarrow> (nat \<Rightarrow> string) \<Rightarrow> source_set \<Rightarrow> json \<Rightarrow> nat \<Rightarrow>
     ('w net, string + json) state" where
  "run_sources s c meet show_time row input limit =
     do {
       y \<leftarrow> make_ready s c input (sources row) \<lparr>ready = [], refused = [], withheld = []\<rparr>;
       out \<leftarrow> race_on meet show_time (map (asking s c limit) (ready y)) (fan_out row) (enough row) limit;
       State_Monad.return (answered_values y out)
     }"

text \<open>
  What the filling of templates and the race of sources guarantee. An argument is confined: it brings
  nothing of a URL's structure beyond unreserved characters, and no step into a reply that the operator did
  not write. An accepted row is well formed. Every request of a run passed the guard first. A failure
  quotes no secret, as long as the secrets share no character with what replaces them; but a secret that
  begins another leaves the other's tail standing.
\<close>

section \<open>Arguments\<close>

text \<open>The serializer of \<^verbatim>\<open>application/x-www-form-urlencoded\<close> keeps the unreserved characters, writes a space
as a plus sign and every other byte as a percent sign and two hexadecimal digits.\<close>

definition unreserved :: "char set" where
  "unreserved = set ''ABCDEFGHIJKLMNOPQRSTUVWXYZabcdefghijklmnopqrstuvwxyz0123456789*-._''"

definition form_serializer :: "(string \<Rightarrow> string) \<Rightarrow> bool" where
  "form_serializer e \<longleftrightarrow>
     (\<forall>s. set (e s) \<subseteq> unreserved \<union> {CHR ''+'', CHR ''%''}) \<and> (\<forall>s. set s \<subseteq> unreserved \<longrightarrow> e s = s)"

lemma replace_all_clears: "c \<notin> set rep \<Longrightarrow> c \<notin> set (replace_all [c] rep s)"
proof (induction "[c]" rep s rule: replace_all.induct)
  case (2 rep x xs)
  then show ?case by (cases "x = c") auto
qed simp

lemma percent_encoded_chars:
  assumes "form_serializer (byte_serialize c)"
  shows "set (percent_encoded c plain) \<subseteq> insert CHR ''%'' unreserved"
proof -
  have plus: "set (replace_all ''+'' ''%20'' s) \<subseteq> (set s - {CHR ''+''}) \<union> set ''%20''" for s
    using set_replace_all [of "''+''" "''%20''" s] replace_all_clears [of "CHR ''+''" "''%20''" s] by auto
  have form: "set (byte_serialize c plain) \<subseteq> unreserved \<union> {CHR ''+'', CHR ''%''}"
    using assms by (simp add: form_serializer_def)
  have "set ''%20'' \<subseteq> insert CHR ''%'' unreserved" by (simp add: unreserved_def)
  then have "(set (byte_serialize c plain) - {CHR ''+''}) \<union> set ''%20'' \<subseteq> insert CHR ''%'' unreserved"
    using form by blast
  then show ?thesis unfolding percent_encoded_def by (rule subset_trans [OF plus])
qed

lemma substitute_from_count:
  assumes "substitute_from c input render names filled = Inr out"
    and "\<And>field plain rendered. render field plain = Inr rendered \<Longrightarrow> x \<notin> set rendered"
  shows "length (filter ((=) x) out) \<le> length (filter ((=) x) filled)"
  using assms(1)
proof (induction names arbitrary: filled)
  case (Cons field names)
  then obtain v rendered where r: "render field (plain_text c v) = Inr rendered"
    and go: "substitute_from c input render names (replace_all (braced field) rendered filled) = Inr out"
    by (auto simp: result_simps)
  have "x \<notin> set rendered" by (rule assms(2) [OF r])
  from count_replace_all [OF this] Cons.IH [OF go] show ?case by (rule order.trans [rotated])
qed simp

lemma substitute_count:
  assumes "substitute c template input render = Inr out"
    and "\<And>field plain rendered. render field plain = Inr rendered \<Longrightarrow> x \<notin> set rendered"
  shows "length (filter ((=) x) out) \<le> length (filter ((=) x) template)"
  using assms substitute_from_count by (fastforce simp: substitute_def result_simps)

text \<open>Whatever the arguments are, the filled path takes no more steps into the reply than the operator's
template has.\<close>

lemma argument_cannot_deepen_the_pick:
  assumes "fill_path c template input = Inr path"
  shows "length (split_on PATH_SEPARATOR path) \<le> length (split_on PATH_SEPARATOR template)"
proof -
  have "PATH_SEPARATOR \<notin> set rendered" if "as_path_segment field plain = Inr rendered" for field plain rendered
    using that by (auto simp: as_path_segment_def split: if_splits)
  from substitute_count [OF assms [unfolded fill_path_def] this] show ?thesis by (simp add: length_split_on)
qed

text \<open>C26: an argument adds to a URL no character that separates its parts: whatever is not unreserved and not
the percent sign occurs in the filled URL at most as often as in the template.\<close>

theorem argument_stays_inside_its_place:
  assumes "form_serializer (byte_serialize c)" and "fill c template input = Inr url"
    and "x \<notin> unreserved" and "x \<noteq> CHR ''%''"
  shows "length (filter ((=) x) url) \<le> length (filter ((=) x) template)"
proof (rule substitute_count [OF assms(2) [unfolded fill_def]])
  fix field plain rendered assume "Inr (percent_encoded c plain) = (Inr rendered :: string + string)"
  then show "x \<notin> set rendered" using percent_encoded_chars [OF assms(1), of plain] assms(3,4) by auto
qed

text \<open>A full stop is unreserved, so an argument that is two of them stays two of them, which a URL parser
reads as the parent of the directory before it.\<close>

lemma dot_segment_survives_encoding:
  assumes "form_serializer (byte_serialize c)" and "get input ''id'' = Some (String ''..'')"
  shows "fill c ''https://api.test/v1/items/{id}/price'' input = Inr ''https://api.test/v1/items/../price''"
proof -
  have "byte_serialize c ''..'' = ''..''" using assms(1) by (simp add: form_serializer_def unreserved_def)
  then have "percent_encoded c ''..'' = ''..''" by (simp add: percent_encoded_def)
  moreover have "placeholders ''https://api.test/v1/items/{id}/price'' = Inr [''id'']" by code_simp
  ultimately show ?thesis using assms(2)
    by (simp add: fill_def substitute_def plain_text_def braced_def PLACEHOLDER_OPEN_def PLACEHOLDER_CLOSE_def)
qed

section \<open>Requests\<close>

lemma asks_first_ask: "url \<in> G \<Longrightarrow> asks_first G (ask_source s c url pick headers limit) (\<lambda>_. G)"
  unfolding ask_source_def
  by (rule asks_first_attempted [where R = "\<lambda>_. G"])
    (auto split: sum.splits intro!: asks_first_return asks_first_weaken [OF asks_first_get_guarded [of url G]])

definition urls_of :: "readiness \<Rightarrow> string set" where
  "urls_of y = prepared_url ` set (ready y)"

lemma asks_first_make_ready:
  "urls_of y \<subseteq> G \<Longrightarrow> asks_first G (make_ready s c input srcs y) (\<lambda>y'. G \<union> urls_of y')"
proof (induction srcs arbitrary: y G)
  case (Cons src srcs)
  obtain r used where r: "prepare_source c src input = (r, used)" by fastforce
  show ?case
  proof (cases r)
    case (Inl reason)
    then show ?thesis using r Cons.IH [of _ G] Cons.prems by (simp add: urls_of_def)
  next
    case (Inr p)
    let ?accepted = "make_ready s c input srcs (y\<lparr>ready := ready y @ [p], withheld := withheld y @ used\<rparr>)"
    have accepted: "asks_first (insert (prepared_url p) G) ?accepted (\<lambda>y'. G \<union> urls_of y')"
      by (rule asks_first_weaken [OF Cons.IH [of _ "insert (prepared_url p) G"]])
        (use Cons.prems in \<open>auto simp: urls_of_def\<close>)
    have dropped: "asks_first G (make_ready s c input srcs
        (y\<lparr>refused := refused y @ [said_of src reason], withheld := withheld y @ used\<rparr>))
        (\<lambda>y'. G \<union> urls_of y')" for reason
      by (rule Cons.IH) (use Cons.prems in \<open>simp add: urls_of_def\<close>)
    show ?thesis
      using r Inr by (auto split: sum.splits intro!: asks_first_bind [OF asks_first_guard] accepted dropped)
  qed
qed (simp add: asks_first_return)

lemma asks_first_run_sources:
  "asks_first G (run_sources s c meet show_time row input limit) (\<lambda>_. G)"
  unfolding run_sources_def
proof (rule asks_first_bind [OF asks_first_make_ready])
  fix y
  have "asks_first (G \<union> urls_of y) (race_on meet show_time (map (asking s c limit) (ready y))
      (fan_out row) (enough row) limit) (\<lambda>_. G \<union> urls_of y)"
    by (rule asks_first_race_on) (auto simp: asking_def urls_of_def intro!: asks_first_ask)
  then show "asks_first (G \<union> urls_of y)
      (race_on meet show_time (map (asking s c limit) (ready y)) (fan_out row) (enough row) limit \<bind>
        (\<lambda>out. State_Monad.return (answered_values y out))) (\<lambda>_. G)"
    by (rule asks_first_bind) (simp add: asks_first_return)
qed (simp add: urls_of_def)

section \<open>Secrets\<close>

lemma without_secrets_keeps_out:
  assumes "t \<noteq> []" and "set t \<inter> set REDACTED = {}" and "\<not> sublist t message"
  shows "\<not> sublist t (without_secrets message secrets)"
  using assms(3)
proof (induction secrets arbitrary: message)
  case (Cons secret secrets)
  have "\<not> sublist t (replace_all secret REDACTED message)"
    using replace_all_makes_no_new [OF _ assms(2)] Cons.prems by (auto simp: REDACTED_def)
  from Cons.IH [OF this] show ?case by (simp add: without_secrets_def)
qed (simp add: without_secrets_def)

lemma without_secrets_removes:
  assumes "secret \<in> set secrets" and "secret \<noteq> []" and "CHR ''*'' \<notin> set secret"
  shows "\<not> sublist secret (without_secrets message secrets)"
proof -
  have apart: "set secret \<inter> set REDACTED = {}" using assms(3) by (auto simp: REDACTED_def)
  obtain before after where split: "secrets = before @ secret # after" using assms(1) by (meson split_list)
  define m where "m = replace_all secret REDACTED (without_secrets message before)"
  have "\<not> sublist secret m"
    unfolding m_def by (rule replace_all_removes [OF assms(2) apart]) (simp add: REDACTED_def)
  moreover have "without_secrets message secrets = without_secrets m after"
    by (simp add: split m_def without_secrets_def)
  ultimately show ?thesis using without_secrets_keeps_out [OF assms(2) apart] by simp
qed

lemma present_not_Nil: "present v = Some secret \<Longrightarrow> secret \<noteq> []"
  by (auto simp: present_def trim_def split: option.splits if_splits)

lemma fill_secrets_from_used:
  "fill_secrets_from lookup names filled used = Inr (out, used') \<Longrightarrow> [] \<notin> set used \<Longrightarrow> [] \<notin> set used'"
proof (induction names arbitrary: filled used)
  case (Cons nm names)
  from Cons.prems(1) obtain v where v: "present (lookup nm) = Some v"
    and go: "fill_secrets_from lookup names (replace_all ([SECRET_MARKER] @ braced nm) v filled) (used @ [v]) =
      Inr (out, used')"
    by (auto split: option.splits)
  show ?case by (rule Cons.IH [OF go]) (use Cons.prems(2) present_not_Nil [OF v] in simp)
qed simp

lemma fill_secrets_used: "fill_secrets template lookup = Inr (out, used) \<Longrightarrow> [] \<notin> set used"
  by (auto simp: fill_secrets_def result_simps dest: fill_secrets_from_used)

lemma fill_headers_used:
  "fill_headers c input headers used = (r, used') \<Longrightarrow> [] \<notin> set used \<Longrightarrow> [] \<notin> set used'"
proof (induction headers arbitrary: r used)
  case (Cons header headers)
  obtain nm template where header: "header = (nm, template)" by fastforce
  show ?case
  proof (cases "fill_secrets template (environment c)")
    case (Inr p)
    obtain v more where p: "p = (v, more)" by fastforce
    have "[] \<notin> set more" by (rule fill_secrets_used [OF Inr [unfolded p]])
    with Cons Inr p header show ?thesis by (fastforce split: sum.splits prod.splits)
  qed (use Cons.prems header in auto)
qed simp

lemma prepare_used: "[] \<notin> set (snd (prepare_source c src input))"
proof (cases "fill_secrets (source_url src) (environment c)")
  case (Inr p)
  obtain template used where p: "p = (template, used)" by fastforce
  have used: "[] \<notin> set used" by (rule fill_secrets_used [OF Inr [unfolded p]])
  obtain r all where "fill_headers c input (source_headers src) used = (r, all)" by fastforce
  with fill_headers_used [OF this used] Inr p used show ?thesis
    by (auto simp: prepare_source_def split: sum.splits)
qed (simp add: prepare_source_def)

lemma make_ready_withholds:
  assumes "run_state (make_ready s c input srcs y) n = (y', n')"
  shows "set (withheld y) \<union> (\<Union>src \<in> set srcs. set (snd (prepare_source c src input))) \<subseteq> set (withheld y')"
  using assms
proof (induction srcs arbitrary: y n)
  case (Cons src srcs)
  obtain r used where r: "prepare_source c src input = (r, used)" by fastforce
  obtain z k where "run_state (make_ready s c input srcs z) k = (y', n')"
    and "set (withheld z) = set (withheld y) \<union> set used"
    using Cons.prems r by (cases r) (auto split: prod.splits sum.splits)
  with Cons.IH [of z k] r show ?case by auto
qed simp

text \<open>C27: when every source fails, the error quotes none of the secrets that were filled into a source,
provided the secret has no character in common with what replaces it.\<close>

theorem failure_quotes_no_secret:
  assumes "run_state (run_sources s c meet show_time row input limit) n = (Inl e, n')"
    and "src \<in> set (sources row)" and "secret \<in> set (snd (prepare_source c src input))" and "CHR ''*'' \<notin> set secret"
  shows "\<not> sublist secret e"
proof -
  obtain y k where y: "run_state (make_ready s c input (sources row)
      \<lparr>ready = [], refused = [], withheld = []\<rparr>) n = (y, k)" by fastforce
  then obtain message where "e = without_secrets message (withheld y)"
    using assms(1) by (auto simp: run_sources_def answered_values_def split: prod.splits if_splits)
  moreover have "secret \<in> set (withheld y)" using make_ready_withholds [OF y] assms(2,3) by auto
  moreover have "secret \<noteq> []" using prepare_used assms(3) by metis
  ultimately show ?thesis using without_secrets_removes assms(4) by simp
qed

text \<open>Of two secrets of which the first begins the second, the first is taken out first, and the rest of
the second is left in the message.\<close>

lemma shorter_secret_unmasks_the_longer:
  "without_secrets ''fetch https://api.test/?k=abc9f2e failed'' [''abc'', ''abc9f2e''] =
    ''fetch https://api.test/?k=***9f2e failed''"
  by code_simp

section \<open>Accepted rows\<close>

definition source_ok :: "json \<Rightarrow> (string \<Rightarrow> string option) \<Rightarrow> source \<Rightarrow> bool" where
  "source_ok schema lookup src \<longleftrightarrow>
     source_pick src \<noteq> [] \<and> secret_placeholders (source_pick src) = Inr [] \<and>
     (\<forall>t \<in> set (source_url src # source_pick src # map snd (source_headers src)).
       \<exists>names. placeholders t = Inr names \<and> set names \<subseteq> declared_fields schema) \<and>
     (\<forall>t \<in> set (source_url src # map snd (source_headers src)).
       \<exists>names. secret_placeholders t = Inr names \<and> (\<forall>nm \<in> set names. present (lookup nm) \<noteq> None))"

definition row_ok :: "json \<Rightarrow> (string \<Rightarrow> string option) \<Rightarrow> source_set \<Rightarrow> bool" where
  "row_ok schema lookup row \<longleftrightarrow>
     1 \<le> enough row \<and> enough row \<le> length (sources row) \<and> 1 \<le> fan_out row \<and>
     distinct (map source_name (sources row)) \<and> list_all (source_ok schema lookup) (sources row)"

lemma declared_only_ok:
  "declared_only declared templates = Inr () \<Longrightarrow> t \<in> set templates \<Longrightarrow>
    \<exists>names. placeholders t = Inr names \<and> set names \<subseteq> declared"
  by (induction declared templates rule: declared_only.induct)
    (auto simp: result_simps find_None_iff split: option.splits)

lemma secrets_present_ok:
  "secrets_present lookup templates = Inr () \<Longrightarrow> t \<in> set templates \<Longrightarrow>
    \<exists>names. secret_placeholders t = Inr names \<and> (\<forall>nm \<in> set names. present (lookup nm) \<noteq> None)"
  by (induction lookup templates rule: secrets_present.induct)
    (auto simp: result_simps find_None_iff split: option.splits)

lemma check_source_ok:
  assumes "check_source src (declared_fields schema) lookup = Inr ()"
  shows "source_ok schema lookup src"
proof -
  let ?ts = "source_url src # map snd (source_headers src)"
  from assms have pick: "source_pick src \<noteq> []" "secret_placeholders (source_pick src) = Inr []"
    and declared: "declared_only (declared_fields schema)
      (source_url src # source_pick src # map snd (source_headers src)) = Inr ()"
    and secrets: "secrets_present lookup ?ts = Inr ()"
    by (auto simp: check_source_def result_simps simp del: declared_only.simps secrets_present.simps split: if_splits)
  show ?thesis
    unfolding source_ok_def
    using pick declared_only_ok [OF declared] secrets_present_ok [OF secrets] by blast
qed

lemma check_sources_ok:
  "check_sources (declared_fields schema) lookup seen srcs = Inr () \<Longrightarrow>
    distinct (map source_name srcs) \<and> source_name ` set srcs \<inter> seen = {} \<and> list_all (source_ok schema lookup) srcs"
proof (induction srcs arbitrary: seen)
  case (Cons src srcs)
  then have "source_name src \<notin> seen" "check_source src (declared_fields schema) lookup = Inr ()"
    "check_sources (declared_fields schema) lookup (insert (source_name src) seen) srcs = Inr ()"
    by (auto simp: result_simps split: if_splits)
  with Cons.IH [of "insert (source_name src) seen"] show ?case by (auto dest: check_source_ok)
qed simp

text \<open>A row that is accepted can reach its quorum, names its sources apart, fills its templates from declared
arguments and from secrets that are set, and has no secret in a path.\<close>

lemma accepted_row_is_well_formed:
  assumes "parse_sources c raw schema = Inr row"
  shows "row_ok schema (environment c) row"
  using assms check_sources_ok [of schema "environment c" "{}" "sources row"]
  by (auto simp: parse_sources_def checked_row_def row_ok_def result_simps split: if_splits)

end
