(* ===== verification/Tool_Service.thy ===== *)
theory Tool_Service
  imports Tool_Registry Declarative
begin

text \<open>
  \<^verbatim>\<open>Execute\<close> and the other requests of \<^verbatim>\<open>services/tool\<close>: \<^verbatim>\<open>args.rs\<close>, the search port of
  \<^verbatim>\<open>providers/\<close>, \<^verbatim>\<open>web_search.rs\<close>, \<^verbatim>\<open>kb_client.rs\<close>, the rest of \<^verbatim>\<open>service.rs\<close>, \<^verbatim>\<open>principal.rs\<close> and the
  handlers of \<^verbatim>\<open>main.rs\<close>. A request to the network is a computation over the record of what was sent;
  the vendors of the search, which have a client of their own, and the knowledge base answer through
  parameters, as do the derived codecs. A request reads the table it is given; the second reading of
  \<^verbatim>\<open>why_unavailable\<close> is given the table of its own time.
\<close>

section \<open>args.rs\<close>

definition MIN_SEARCH_LIMIT :: nat where "MIN_SEARCH_LIMIT = 1"
definition DEFAULT_SEARCH_LIMIT :: nat where "DEFAULT_SEARCH_LIMIT = 5"
definition MAX_SEARCH_LIMIT :: nat where "MAX_SEARCH_LIMIT = 20"
definition MAX_URLS :: nat where "MAX_URLS = 5"

record search_args =
  sa_query :: string
  sa_limit :: "nat option"

record fetch_args =
  fa_url :: "string option"
  fa_urls :: "string list option"

record document_args =
  da_source :: string
  da_source_id :: string
  da_version :: "string option"

definition checked_limit :: "search_args \<Rightarrow> string + nat" where
  "checked_limit a =
     (case sa_limit a of
        None \<Rightarrow> Inr DEFAULT_SEARCH_LIMIT
      | Some n \<Rightarrow>
          if n < MIN_SEARCH_LIMIT \<or> MAX_SEARCH_LIMIT < n
          then Inl (''limit must be between '' @ show_nat MIN_SEARCH_LIMIT @ '' and '' @
            show_nat MAX_SEARCH_LIMIT @ '', got '' @ show_nat n)
          else Inr n)"

definition checked_urls :: "fetch_args \<Rightarrow> string + string list" where
  "checked_urls a =
     (let links = (case fa_urls a of
            Some us \<Rightarrow> us
          | None \<Rightarrow> (case fa_url a of None \<Rightarrow> [] | Some u \<Rightarrow> [u])) in
      if links = [] then Inl ''url is required''
      else if MAX_URLS < length links
      then Inl (''at most '' @ show_nat MAX_URLS @ '' urls can be fetched at once'')
      else Inr links)"

section \<open>providers\<close>

record search_result =
  sr_title :: string
  sr_url :: string
  sr_snippet :: string
  sr_text :: "string option"

record vendor_hit =
  vh_title :: string
  vh_url :: string
  vh_description :: string

text \<open>What a vendor's request comes back as: whether the status is one of success, its line, and the parsed body
(an error, or the hits where the reply has any).\<close>

record vendor_reply =
  vr_success :: bool
  vr_status_line :: string
  vr_body :: "string + vendor_hit list option"

datatype search_vendor = You string | Brave string | Unconfigured

definition from_api_keys :: "string \<Rightarrow> string \<Rightarrow> search_vendor" where
  "from_api_keys you_api_key brave_api_key =
     (if you_api_key \<noteq> [] then You you_api_key
      else if brave_api_key \<noteq> [] then Brave brave_api_key else Unconfigured)"

definition YOU_SEARCH_URL :: string where "YOU_SEARCH_URL = ''https://ydc-index.io/v1/search''"

definition BRAVE_SEARCH_URL :: string where
  "BRAVE_SEARCH_URL = ''https://api.search.brave.com/res/v1/web/search''"

definition result_of :: "vendor_hit \<Rightarrow> search_result" where
  "result_of h = \<lparr>sr_title = vh_title h, sr_url = vh_url h, sr_snippet = vh_description h, sr_text = None\<rparr>"

definition results_of :: "string \<Rightarrow> vendor_reply \<Rightarrow> string + search_result list" where
  "results_of vendor r =
     (if \<not> vr_success r then Inl (vendor @ '' search returned '' @ vr_status_line r)
      else and_then (vr_body r) (\<lambda>hits. Inr (map result_of (case hits of None \<Rightarrow> [] | Some hs \<Rightarrow> hs))))"

text \<open>A vendor is asked with a URL, the pairs of its query and its headers.\<close>

type_synonym 'w vendor_get =
  "string \<Rightarrow> (string \<times> string) list \<Rightarrow> (string \<times> string) list \<Rightarrow> ('w, string + vendor_reply) state"

definition you_search :: "'w vendor_get \<Rightarrow> string \<Rightarrow> string \<Rightarrow> nat \<Rightarrow> ('w, string + search_result list) state" where
  "you_search ask_vendor secret_key query limit =
     attempted (ask_vendor YOU_SEARCH_URL [(''query'', query), (''count'', show_nat limit)] [(''X-API-Key'', secret_key)])
       (\<lambda>r. State_Monad.return (and_then (results_of ''you.com'' r) (\<lambda>results. Inr (take limit results))))"

definition brave_search :: "'w vendor_get \<Rightarrow> string \<Rightarrow> string \<Rightarrow> nat \<Rightarrow> ('w, string + search_result list) state" where
  "brave_search ask_vendor secret_key query limit =
     attempted (ask_vendor BRAVE_SEARCH_URL [(''q'', query), (''count'', show_nat limit)]
         [(''X-Subscription-Token'', secret_key), (''Accept'', ''application/json'')])
       (\<lambda>r. State_Monad.return (results_of ''brave'' r))"

definition vendor_search ::
  "'w vendor_get \<Rightarrow> search_vendor \<Rightarrow> string \<Rightarrow> nat \<Rightarrow> ('w, string + search_result list) state" where
  "vendor_search ask_vendor vendor query limit =
     (case vendor of
        You secret_key \<Rightarrow> you_search ask_vendor secret_key query limit
      | Brave secret_key \<Rightarrow> brave_search ask_vendor secret_key query limit
      | Unconfigured \<Rightarrow> State_Monad.return
          (Inl ''web search is not configured: set YOU_SEARCH_API_KEY or BRAVE_SEARCH_API_KEY''))"

definition search_result_json :: "search_result \<Rightarrow> json" where
  "search_result_json r =
     json_object ([(''title'', String (sr_title r)), (''url'', String (sr_url r)), (''snippet'', String (sr_snippet r))] @
       (case sr_text r of None \<Rightarrow> [] | Some t \<Rightarrow> [(''text'', String t)]))"

section \<open>Services\<close>

text \<open>
  \<open>kb_search\<close> and \<open>kb_read\<close> are the two calls of the knowledge base (title, snippet, source and source id of
  a hit; the content of a document); \<open>meet_pages\<close>, \<open>meet_values\<close> are the fates of the races.
\<close>

record kb_hit =
  kh_title :: string
  kh_snippet :: string
  kh_source :: string
  kh_source_id :: string

record ('w, 'v) tool_services =
  network :: "'w net_services"
  extractor :: extraction
  row_codecs :: row_codec
  vendor :: search_vendor
  ask_vendor :: "'w vendor_get"
  kb_search :: "string \<Rightarrow> nat \<Rightarrow> ('w, string + kb_hit list) state"
  kb_read :: "string \<Rightarrow> string \<Rightarrow> string \<Rightarrow> ('w, string + string) state"
  meet_pages :: "('w, ('w, extracted) arena) state"
  meet_values :: "('w, ('w, json) arena) state"
  show_limit :: "nat \<Rightarrow> string"
  json_of_text :: "string \<Rightarrow> string + json"
  read_search_args :: "json \<Rightarrow> string + search_args"
  read_fetch_args :: "json \<Rightarrow> string + fetch_args"
  read_document_args :: "json \<Rightarrow> string + document_args"
  review :: "'v decide_request \<Rightarrow> ('w, rpc_error + wire_answer list) state"
  tool_clock :: "('w, instant) state"
  proto_value_of :: "json \<Rightarrow> string + 'v"
  error_display :: "rpc_error \<Rightarrow> string"
  uuid_of_text :: "string \<Rightarrow> uuid option"

section \<open>web\_search.rs\<close>

definition PREFETCH_CANDIDATES :: nat where "PREFETCH_CANDIDATES = 4"
definition PREFETCH_TAKE :: nat where "PREFETCH_TAKE = 2"
definition PREFETCH_TIMEOUT :: nat where "PREFETCH_TIMEOUT = 1"

fun public_candidates :: "'w net_services \<Rightarrow> string list \<Rightarrow> ('w net, string list) state" where
  "public_candidates s [] = State_Monad.return []"
| "public_candidates s (link # links) =
     do {
       verdict \<leftarrow> ensure_public_url s link;
       others \<leftarrow> public_candidates s links;
       State_Monad.return (if isl verdict then others else link # others)
     }"

text \<open>The answers are collected into a map: of two under one URL the later stays.\<close>

definition race_fetch ::
  "('w, 'v) tool_services \<Rightarrow> string list \<Rightarrow> nat \<Rightarrow> nat \<Rightarrow> ('w net, string \<Rightarrow> string option) state" where
  "race_fetch s links quota limit =
     (if links = [] then State_Monad.return (\<lambda>_. None)
      else do {
        out \<leftarrow> race_on (meet_pages s) (show_limit s)
          (map (\<lambda>link. (link, fetch (network s) (extractor s) link limit)) links) (length links) quota limit;
        State_Monad.return (map_of (rev (map (\<lambda>(link, page). (link, main_text page)) (taken out))))
      })"

definition with_text :: "(string \<Rightarrow> string option) \<Rightarrow> search_result \<Rightarrow> search_result" where
  "with_text fetched_texts r =
     (case fetched_texts (sr_url r) of None \<Rightarrow> r | Some t \<Rightarrow> r\<lparr>sr_text := Some t\<rparr>)"

definition attach_prefetched_text ::
  "('w, 'v) tool_services \<Rightarrow> search_result list \<Rightarrow> ('w net, search_result list) state" where
  "attach_prefetched_text s results =
     do {
       candidates \<leftarrow> public_candidates (network s) (map sr_url (take PREFETCH_CANDIDATES results));
       fetched_texts \<leftarrow> race_fetch s candidates PREFETCH_TAKE PREFETCH_TIMEOUT;
       State_Monad.return (map (with_text fetched_texts) results)
     }"

section \<open>service.rs: running a tool\<close>

datatype execute_outcome =
    OutcomeOk json
  | OutcomeRequiresApproval
  | OutcomeNotExecutable string
  | OutcomeError string

fun outcome_of :: "string + json \<Rightarrow> execute_outcome" where
  "outcome_of (Inr v) = OutcomeOk v"
| "outcome_of (Inl e) = OutcomeError e"

fun ensure_all_urls_public :: "'w net_services \<Rightarrow> string list \<Rightarrow> ('w net, string + unit) state" where
  "ensure_all_urls_public s [] = State_Monad.return (Inr ())"
| "ensure_all_urls_public s (link # links) =
     attempted (ensure_public_url s link) (\<lambda>_. ensure_all_urls_public s links)"

definition run_web_search :: "('w, 'v) tool_services \<Rightarrow> search_args \<Rightarrow> ('w net, string + json) state" where
  "run_web_search s a =
     attempted (State_Monad.return (checked_limit a)) (\<lambda>limit.
     attempted (in_world (vendor_search (ask_vendor s) (vendor s) (sa_query a) limit)) (\<lambda>results.
     do {
       results' \<leftarrow> attach_prefetched_text s results;
       State_Monad.return (Inr (Array (map search_result_json results')))
     }))"

definition run_web_fetch :: "('w, 'v) tool_services \<Rightarrow> fetch_args \<Rightarrow> nat \<Rightarrow> ('w net, string + json) state" where
  "run_web_fetch s a limit =
     attempted (State_Monad.return (checked_urls a)) (\<lambda>links.
     attempted (ensure_all_urls_public (network s) links) (\<lambda>_.
     attempted (fetch_richest (network s) (extractor s) (meet_pages s) (show_limit s) links limit) (\<lambda>page.
     State_Monad.return (Inr (readable_page_json page)))))"

definition kb_hit_json :: "kb_hit \<Rightarrow> json" where
  "kb_hit_json h =
     json_object [(''title'', String (kh_title h)), (''snippet'', String (kh_snippet h)),
       (''source'', String (kh_source h)), (''source_id'', String (kh_source_id h))]"

definition run_kb_search :: "('w, 'v) tool_services \<Rightarrow> search_args \<Rightarrow> ('w net, string + json) state" where
  "run_kb_search s a =
     attempted (State_Monad.return (checked_limit a)) (\<lambda>limit.
     attempted (in_world (kb_search s (sa_query a) limit)) (\<lambda>hits.
     State_Monad.return (Inr (Array (map kb_hit_json hits)))))"

definition run_kb_read_document :: "('w, 'v) tool_services \<Rightarrow> document_args \<Rightarrow> ('w net, string + json) state" where
  "run_kb_read_document s a =
     attempted (in_world (kb_read s (da_source a) (da_source_id a)
         (case da_version a of None \<Rightarrow> [] | Some v \<Rightarrow> v))) (\<lambda>content.
     State_Monad.return (Inr (json_object [(''content'', String content)])))"

definition as_outcome :: "('w net, string + json) state \<Rightarrow> ('w net, execute_outcome) state" where
  "as_outcome m = do { r \<leftarrow> m; State_Monad.return (outcome_of r) }"

definition run_system_tool ::
  "('w, 'v) tool_services \<Rightarrow> string \<Rightarrow> json \<Rightarrow> nat \<Rightarrow> ('w net, execute_outcome) state" where
  "run_system_tool s nm input limit =
     (if nm = WEB_SEARCH
      then as_outcome (attempted (State_Monad.return (read_search_args s input)) (run_web_search s))
      else if nm = WEB_FETCH
      then as_outcome (attempted (State_Monad.return (read_fetch_args s input)) (\<lambda>a. run_web_fetch s a limit))
      else if nm = KB_SEARCH
      then as_outcome (attempted (State_Monad.return (read_search_args s input)) (run_kb_search s))
      else if nm = KB_READ_DOCUMENT
      then as_outcome (attempted (State_Monad.return (read_document_args s input)) (run_kb_read_document s))
      else State_Monad.return (OutcomeNotExecutable (''tool '' @ quoted nm @
        '' has no runnable implementation yet '' @ [CHR 0xE2, CHR 0x80, CHR 0x94] @
        '' user-created tools need Integrations Service'')))"

definition run_declarative ::
  "('w, 'v) tool_services \<Rightarrow> tool_row \<Rightarrow> json \<Rightarrow> json \<Rightarrow> nat \<Rightarrow> ('w net, execute_outcome) state" where
  "run_declarative s r raw input limit =
     (case parse_sources (row_codecs s) raw (tl_input_schema r) of
        Inl problem \<Rightarrow> State_Monad.return (OutcomeNotExecutable problem)
      | Inr row \<Rightarrow>
          as_outcome (run_sources (network s) (row_codecs s) (meet_values s) (show_limit s) row input limit))"

definition run_tool ::
  "('w, 'v) tool_services \<Rightarrow> tool_row \<Rightarrow> string \<Rightarrow> json \<Rightarrow> ('w net, execute_outcome) state" where
  "run_tool s r nm input =
     (case tl_sources r of
        Some raw \<Rightarrow> run_declarative s r raw input (registered_timeout (tl_timeout r))
      | None \<Rightarrow> run_system_tool s nm input (registered_timeout (tl_timeout r)))"

definition execute ::
  "('w, 'v) tool_services \<Rightarrow> tool_db \<Rightarrow> tool_db \<Rightarrow> uuid option \<Rightarrow> string \<Rightarrow> string \<Rightarrow>
     ('w net, tool_error + execute_outcome) state" where
  "execute s db db_later caller nm input_json =
     (case find_tool db caller nm InUse of
        None \<Rightarrow> State_Monad.return (Inr (OutcomeError (why_unavailable db_later caller nm)))
      | Some r \<Rightarrow>
          if check_policy (tl_risk r) = PolicyRequiresApproval
          then State_Monad.return (Inr OutcomeRequiresApproval)
          else
            attempted (State_Monad.return (map_err InvalidRequest (json_of_text s input_json))) (\<lambda>input.
            do {
              outcome \<leftarrow> run_tool s r nm input;
              State_Monad.return (Inr outcome)
            }))"

section \<open>principal.rs and main.rs\<close>

text \<open>The headers of a request as a lookup; a header that is not text reads as absent.\<close>

definition USER_ID_HEADER :: string where "USER_ID_HEADER = ''x-principal-user-id''"
definition SESSION_ID_HEADER :: string where "SESSION_ID_HEADER = ''x-principal-session-id''"

definition from_metadata :: "(string \<Rightarrow> uuid option) \<Rightarrow> (string \<Rightarrow> string option) \<Rightarrow> (uuid \<times> string) option" where
  "from_metadata parse_uuid headers =
     Option.bind (headers USER_ID_HEADER) (\<lambda>user_text.
     Option.bind (parse_uuid user_text) (\<lambda>u.
     Option.bind (headers SESSION_ID_HEADER) (\<lambda>session. Some (u, session))))"

datatype proto_risk = ProtoRiskUnspecified | ProtoReadOnly | ProtoWrite | ProtoDestructive | ProtoRiskUnknown int

datatype proto_tool_status = ProtoDraft | ProtoValidated | ProtoActive

definition risk_from_proto :: "(proto_risk \<Rightarrow> string) \<Rightarrow> proto_risk \<Rightarrow> rpc_error + risk" where
  "risk_from_proto debug_proto p =
     (case p of
        ProtoReadOnly \<Rightarrow> Inr ReadOnly
      | ProtoWrite \<Rightarrow> Inr Write
      | ProtoDestructive \<Rightarrow> Inr Destructive
      | _ \<Rightarrow> Inl (InvalidArgument, ''risk must be one of READ_ONLY, WRITE, DESTRUCTIVE, got '' @ debug_proto p))"

fun risk_to_proto :: "risk \<Rightarrow> proto_risk" where
  "risk_to_proto ReadOnly = ProtoReadOnly"
| "risk_to_proto Write = ProtoWrite"
| "risk_to_proto Destructive = ProtoDestructive"

fun tool_status_to_proto :: "tool_status \<Rightarrow> proto_tool_status" where
  "tool_status_to_proto Draft = ProtoDraft"
| "tool_status_to_proto Validated = ProtoValidated"
| "tool_status_to_proto Active = ProtoActive"

record create_tool_request =
  ct_slug :: string
  ct_name :: string
  ct_description :: string
  ct_input_schema_json :: string
  ct_output_schema_json :: string
  ct_risk :: proto_risk
  ct_timeout :: int

record tool_message =
  tm_id :: string
  tm_slug :: string
  tm_name :: string
  tm_description :: string
  tm_input_schema_json :: string
  tm_risk :: proto_risk
  tm_status :: proto_tool_status

datatype proto_execute_status = ProtoOk | ProtoRequiresApproval | ProtoError | ProtoNotExecutable

record execute_response =
  er_status :: proto_execute_status
  er_output_json :: string
  er_error_message :: string

text \<open>A request that works on the table and calls the decider.\<close>

record 'w desk =
  desk_db :: tool_db
  desk_world :: 'w

definition of_world :: "('w, 'a) state \<Rightarrow> ('w desk, 'a) state" where
  "of_world m = State (\<lambda>d. let (r, w) = run_state m (desk_world d) in (r, d\<lparr>desk_world := w\<rparr>))"

definition of_table :: "(tool_db \<Rightarrow> 'a \<times> tool_db) \<Rightarrow> ('w desk, 'a) state" where
  "of_table f = State (\<lambda>d. let (r, db) = f (desk_db d) in (r, d\<lparr>desk_db := db\<rparr>))"

definition validate_tool ::
  "('w, 'v) tool_services \<Rightarrow> int \<Rightarrow> uuid \<Rightarrow> ('w desk, tool_error + bool \<times> string) state" where
  "validate_tool s i u =
     attempted (of_table (\<lambda>db. (begin_review db i u, db))) (\<lambda>r.
     attempted (State_Monad.return (review_request (proto_value_of s) (text_of_json (row_codecs s)) r)) (\<lambda>request.
     attempted (do { decided \<leftarrow> of_world (review s request);
         State_Monad.return (map_err (decide_call_error (error_display s)) decided) }) (\<lambda>answered_all.
     do {
       now \<leftarrow> of_world (tool_clock s);
       of_table (\<lambda>db. (Inr (review_verdict (tl_risk r) answered_all), end_review r answered_all now db))
     })))"

definition activate_tool :: "('w, 'v) tool_services \<Rightarrow> int \<Rightarrow> uuid \<Rightarrow> ('w desk, tool_error + unit) state" where
  "activate_tool s i u =
     attempted (of_table (\<lambda>db. (begin_activation db i u, db))) (\<lambda>r.
     do {
       now \<leftarrow> of_world (tool_clock s);
       of_table (\<lambda>db. (Inr (), end_activation r now db))
     })"

definition needs_principal :: "string \<Rightarrow> rpc_error" where
  "needs_principal call = (InvalidArgument, call @ '' needs a Principal in the request metadata'')"

definition new_tool_of ::
  "('w, 'v) tool_services \<Rightarrow> (proto_risk \<Rightarrow> string) \<Rightarrow> create_tool_request \<Rightarrow> rpc_error + new_tool" where
  "new_tool_of s debug_proto msg =
     and_then (map_err (Pair InvalidArgument) (json_of_text s (ct_input_schema_json msg))) (\<lambda>input_schema.
     and_then (map_err (Pair InvalidArgument) (json_of_text s (ct_output_schema_json msg))) (\<lambda>output_schema.
     and_then (risk_from_proto debug_proto (ct_risk msg)) (\<lambda>k.
     map_err tool_connect_error (new_tool_checked
       \<lparr>nt_slug = ct_slug msg, nt_name = ct_name msg, nt_description = ct_description msg,
        nt_input_schema = input_schema, nt_output_schema = output_schema, nt_risk = k,
        nt_timeout = ct_timeout msg\<rparr>))))"

definition create_tool_rpc ::
  "('w, 'v) tool_services \<Rightarrow> (proto_risk \<Rightarrow> string) \<Rightarrow> (string \<Rightarrow> string option) \<Rightarrow> create_tool_request \<Rightarrow>
     ('w desk, rpc_error + string) state" where
  "create_tool_rpc s debug_proto headers msg =
     (case from_metadata (uuid_of_text s) headers of
        None \<Rightarrow> State_Monad.return (Inl (needs_principal ''CreateTool''))
      | Some (u, _) \<Rightarrow>
          attempted (State_Monad.return (new_tool_of s debug_proto msg)) (\<lambda>t.
          do {
            now \<leftarrow> of_world (tool_clock s);
            created \<leftarrow> of_table (create_tool (Some u) t now);
            State_Monad.return (and_then (map_err tool_connect_error created) (\<lambda>i. Inr (show_int i)))
          }))"

definition invalid_id :: rpc_error where
  "invalid_id = (InvalidArgument, ''tool_id is not a valid id'')"

definition validate_tool_rpc ::
  "('w, 'v) tool_services \<Rightarrow> (string \<Rightarrow> string option) \<Rightarrow> string \<Rightarrow> ('w desk, rpc_error + bool \<times> string) state" where
  "validate_tool_rpc s headers id_text =
     (case from_metadata (uuid_of_text s) headers of
        None \<Rightarrow> State_Monad.return (Inl (needs_principal ''ValidateTool''))
      | Some (u, _) \<Rightarrow>
          attempted (State_Monad.return (ok_or invalid_id (parse_i64 id_text))) (\<lambda>i.
          do {
            r \<leftarrow> validate_tool s i u;
            State_Monad.return (map_err tool_connect_error r)
          }))"

definition activate_tool_rpc ::
  "('w, 'v) tool_services \<Rightarrow> (string \<Rightarrow> string option) \<Rightarrow> string \<Rightarrow> ('w desk, rpc_error + unit) state" where
  "activate_tool_rpc s headers id_text =
     (case from_metadata (uuid_of_text s) headers of
        None \<Rightarrow> State_Monad.return (Inl (needs_principal ''ActivateTool''))
      | Some (u, _) \<Rightarrow>
          attempted (State_Monad.return (ok_or invalid_id (parse_i64 id_text))) (\<lambda>i.
          do {
            r \<leftarrow> activate_tool s i u;
            State_Monad.return (map_err tool_connect_error r)
          }))"

definition message_of :: "(json \<Rightarrow> string) \<Rightarrow> tool_row \<Rightarrow> tool_message" where
  "message_of text_of r =
     \<lparr>tm_id = show_int (tl_id r), tm_slug = tl_slug r, tm_name = tl_name r, tm_description = tl_description r,
      tm_input_schema_json = text_of (tl_input_schema r), tm_risk = risk_to_proto (tl_risk r),
      tm_status = tool_status_to_proto (tl_status r)\<rparr>"

definition list_tools_rpc ::
  "('w, 'v) tool_services \<Rightarrow> (string \<Rightarrow> string option) \<Rightarrow> tool_db \<Rightarrow> tool_message list" where
  "list_tools_rpc s headers db =
     map (message_of (text_of_json (row_codecs s)))
       (list_tools db (map_option fst (from_metadata (uuid_of_text s) headers)))"

fun response_of :: "(json \<Rightarrow> string) \<Rightarrow> execute_outcome \<Rightarrow> execute_response" where
  "response_of text_of (OutcomeOk v) = \<lparr>er_status = ProtoOk, er_output_json = text_of v, er_error_message = []\<rparr>"
| "response_of text_of OutcomeRequiresApproval =
     \<lparr>er_status = ProtoRequiresApproval, er_output_json = [], er_error_message = []\<rparr>"
| "response_of text_of (OutcomeNotExecutable e) =
     \<lparr>er_status = ProtoNotExecutable, er_output_json = [], er_error_message = e\<rparr>"
| "response_of text_of (OutcomeError e) =
     \<lparr>er_status = ProtoError, er_output_json = [], er_error_message = e\<rparr>"

definition execute_rpc ::
  "('w, 'v) tool_services \<Rightarrow> tool_db \<Rightarrow> tool_db \<Rightarrow> (string \<Rightarrow> string option) \<Rightarrow> string \<Rightarrow> string \<Rightarrow>
     ('w net, rpc_error + execute_response) state" where
  "execute_rpc s db db_later headers nm input_json =
     do {
       r \<leftarrow> execute s db db_later (map_option fst (from_metadata (uuid_of_text s) headers)) nm input_json;
       State_Monad.return (and_then (map_err tool_connect_error r) (\<lambda>outcome.
         Inr (response_of (text_of_json (row_codecs s)) outcome)))
     }"

end
