(* ===== verification/Tool_Seed.thy ===== *)
theory Tool_Seed
  imports Tool_Registry Declarative
begin

text \<open>
  How the registry is filled at startup: the tools compiled into the binary (\<^verbatim>\<open>main.rs\<close>) with what the
  operator says about them (\<^verbatim>\<open>built_in_overrides.rs\<close>), and the rows of the operator's file
  (\<^verbatim>\<open>declarative_seed.rs\<close>). Reading a file is an argument, an error or its text; the schemas that
  \<^verbatim>\<open>schemars\<close> derives and the derived codecs are parameters. A failure of one row is logged and the next
  one is seeded.
\<close>

section \<open>built\_in\_overrides.rs\<close>

record tool_override =
  ov_name :: "string option"
  ov_description :: "string option"
  ov_enabled :: "bool option"

definition no_override :: tool_override where
  "no_override = \<lparr>ov_name = None, ov_description = None, ov_enabled = None\<rparr>"

definition within_bound :: "string \<Rightarrow> string \<Rightarrow> string option \<Rightarrow> nat \<Rightarrow> string + unit" where
  "within_bound s field v max_chars =
     (case v of
        None \<Rightarrow> Inr ()
      | Some x \<Rightarrow>
          if max_chars < char_count x
          then Inl (s @ [CHR 0x27] @ ''s '' @ field @ '' is '' @ show_nat (char_count x) @
            '' characters, over the '' @ show_nat max_chars @ '' this service stores'')
          else Inr ())"

fun overrides_within :: "(string \<times> tool_override) list \<Rightarrow> string + unit" where
  "overrides_within [] = Inr ()"
| "overrides_within ((s, applied) # rest) =
     and_then (within_bound s ''name'' (ov_name applied) MAX_NAME_CHARS) (\<lambda>_.
     and_then (within_bound s ''description'' (ov_description applied) MAX_DESCRIPTION_CHARS) (\<lambda>_.
     overrides_within rest))"

text \<open>A \<^verbatim>\<open>BTreeMap\<close> by slug, in order.\<close>

definition read_overrides ::
  "(string \<Rightarrow> string + (string \<times> tool_override) list) \<Rightarrow> string \<Rightarrow> string + (string \<times> tool_override) list" where
  "read_overrides parse raw =
     and_then (parse raw) (\<lambda>overrides. and_then (overrides_within overrides) (\<lambda>_. Inr overrides))"

definition load_overrides ::
  "(string \<Rightarrow> string + (string \<times> tool_override) list) \<Rightarrow> string + string \<Rightarrow> (string \<times> tool_override) list" where
  "load_overrides parse file =
     (case and_then file (read_overrides parse) of Inl _ \<Rightarrow> [] | Inr overrides \<Rightarrow> overrides)"

section \<open>main.rs: the tools of the binary\<close>

definition SYSTEM_TOOL_TIMEOUT_SECONDS :: int where "SYSTEM_TOOL_TIMEOUT_SECONDS = 30"

datatype args_type = SearchArgs | FetchArgs | ReadDocumentArgs

record system_tool =
  sy_slug :: string
  sy_name :: string
  sy_description :: string
  sy_risk :: risk
  sy_schema :: json

definition system_tool_definitions :: "(args_type \<Rightarrow> json) \<Rightarrow> system_tool list" where
  "system_tool_definitions schema_for =
     [\<lparr>sy_slug = WEB_SEARCH, sy_name = ''Web search'',
       sy_description = ''Searches the public web and returns matching pages with a title, URL, snippet, and where a page could be read, its text.'',
       sy_risk = ReadOnly, sy_schema = schema_for SearchArgs\<rparr>,
      \<lparr>sy_slug = WEB_FETCH, sy_name = ''Fetch a web page'',
       sy_description = ''Fetches a page and returns its readable title and text. Pass several urls to fetch candidates at once and get whichever answers first '' @ [CHR 0xE2, CHR 0x80, CHR 0x94] @ '' do that when several pages would each answer the question and you cannot tell which will respond.'',
       sy_risk = ReadOnly, sy_schema = schema_for FetchArgs\<rparr>,
      \<lparr>sy_slug = KB_SEARCH, sy_name = ''Knowledge base search'',
       sy_description = ''Searches this project'' @ [CHR 0x27] @ ''s knowledge base.'',
       sy_risk = ReadOnly, sy_schema = schema_for SearchArgs\<rparr>,
      \<lparr>sy_slug = KB_READ_DOCUMENT, sy_name = ''Read a knowledge base document'',
       sy_description = ''Reads the full text of one knowledge base document, identified by the source and source_id a knowledge base search result carries.'',
       sy_risk = ReadOnly, sy_schema = schema_for ReadDocumentArgs\<rparr>]"

definition with_operator_name_and_description :: "tool_override \<Rightarrow> system_tool \<Rightarrow> system_tool" where
  "with_operator_name_and_description applied d =
     d\<lparr>sy_name := (case ov_name applied of None \<Rightarrow> sy_name d | Some x \<Rightarrow> x),
       sy_description := (case ov_description applied of None \<Rightarrow> sy_description d | Some x \<Rightarrow> x)\<rparr>"

definition seeding_already_finished :: "tool_row option \<Rightarrow> system_tool \<Rightarrow> bool" where
  "seeding_already_finished existing d =
     (case existing of
        None \<Rightarrow> False
      | Some r \<Rightarrow> tl_status r = Active \<and> tl_name r = sy_name d \<and> tl_description r = sy_description d \<and>
          tl_input_schema r = sy_schema d)"

definition withdraw_system_tool :: "tool_row \<Rightarrow> tool_db \<Rightarrow> tool_db" where
  "withdraw_system_tool r = update_tool (tl_id r) (\<lambda>r. r\<lparr>tl_status := Draft\<rparr>)"

definition activate_without_llm_review :: "tool_row \<Rightarrow> system_tool \<Rightarrow> tool_db \<Rightarrow> tool_db" where
  "activate_without_llm_review r d =
     update_tool (tl_id r) (\<lambda>r. r\<lparr>tl_status := Active, tl_name := sy_name d, tl_description := sy_description d,
       tl_input_schema := sy_schema d\<rparr>)"

definition system_row :: "tool_db \<Rightarrow> string \<Rightarrow> tool_row option" where
  "system_row db s = List.find (\<lambda>r. tl_user r = None \<and> tl_slug r = s) (tools_table db)"

definition create_and_activate_system_tool ::
  "system_tool \<Rightarrow> instant \<Rightarrow> tool_db \<Rightarrow> (string + unit) \<times> tool_db" where
  "create_and_activate_system_tool d now db =
     (case new_tool_checked \<lparr>nt_slug = sy_slug d, nt_name = sy_name d, nt_description = sy_description d,
            nt_input_schema = sy_schema d, nt_output_schema = json_object [(''type'', String ''object'')],
            nt_risk = sy_risk d, nt_timeout = SYSTEM_TOOL_TIMEOUT_SECONDS\<rparr> of
        Inl e \<Rightarrow> (Inl (tool_error_text e), db)
      | Inr t \<Rightarrow>
          (case create_tool None t now db of
             (Inl e, db') \<Rightarrow> (Inl (tool_error_text e), db')
           | (Inr i, db') \<Rightarrow>
               (case tool_by_id db' i of
                  None \<Rightarrow> (Inl ''row vanished before activation'', db')
                | Some r \<Rightarrow> (Inr (), activate_without_llm_review r d db'))))"

definition seed_pre_vetted_system_tool ::
  "system_tool \<Rightarrow> tool_row option \<Rightarrow> instant \<Rightarrow> tool_db \<Rightarrow> tool_db" where
  "seed_pre_vetted_system_tool d existing now db =
     (case existing of
        Some r \<Rightarrow> activate_without_llm_review r d db
      | None \<Rightarrow> snd (create_and_activate_system_tool d now db))"

definition seed_system_tool ::
  "(string \<times> tool_override) list \<Rightarrow> instant \<Rightarrow> system_tool \<Rightarrow> tool_db \<Rightarrow> tool_db" where
  "seed_system_tool overrides now d db =
     (let applied = (case map_of overrides (sy_slug d) of None \<Rightarrow> no_override | Some x \<Rightarrow> x);
          existing = system_row db (sy_slug d) in
      if ov_enabled applied = Some False
      then (case existing of
              Some r \<Rightarrow> if tl_status r = Active then withdraw_system_tool r db else db
            | None \<Rightarrow> db)
      else
        let d' = with_operator_name_and_description applied d in
        if seeding_already_finished existing d' then db
        else seed_pre_vetted_system_tool d' existing now db)"

definition seed_system_tools ::
  "(args_type \<Rightarrow> json) \<Rightarrow> (string \<times> tool_override) list \<Rightarrow> instant \<Rightarrow> tool_db \<Rightarrow> tool_db" where
  "seed_system_tools schema_for overrides now db =
     fold (seed_system_tool overrides now) (system_tool_definitions schema_for) db"

section \<open>declarative\_seed.rs\<close>

record declarative_row =
  dr_slug :: string
  dr_name :: string
  dr_description :: string
  dr_timeout :: int
  dr_input_schema :: json
  dr_sources :: json

definition new_tool_for :: "declarative_row \<Rightarrow> string + new_tool" where
  "new_tool_for r =
     map_err tool_error_text (new_tool_checked
       \<lparr>nt_slug = dr_slug r, nt_name = dr_name r, nt_description = dr_description r,
        nt_input_schema = dr_input_schema r, nt_output_schema = json_object [(''type'', String ''object'')],
        nt_risk = ReadOnly, nt_timeout = dr_timeout r\<rparr>)"

fun check_rows :: "row_codec \<Rightarrow> string list \<Rightarrow> declarative_row list \<Rightarrow> string + unit" where
  "check_rows c seen [] = Inr ()"
| "check_rows c seen (r # rs) =
     (if dr_slug r \<in> set RESERVED_FOR_SYSTEM_TOOLS then Inl (quoted (dr_slug r) @ '' is a reserved system slug'')
      else if dr_slug r \<in> set seen then Inl (quoted (dr_slug r) @ '' appears twice'')
      else
        and_then (map_err (\<lambda>e. dr_slug r @ '': '' @ e) (parse_sources c (dr_sources r) (dr_input_schema r))) (\<lambda>_.
        and_then (map_err (\<lambda>e. dr_slug r @ '': '' @ e) (new_tool_for r)) (\<lambda>_.
        check_rows c (seen @ [dr_slug r]) rs)))"

definition read_rows ::
  "row_codec \<Rightarrow> (string \<Rightarrow> string + declarative_row list) \<Rightarrow> string \<Rightarrow> string + declarative_row list" where
  "read_rows c parse raw =
     and_then (map_err (\<lambda>e. ''could not be read as JSON: '' @ e) (parse raw)) (\<lambda>rows.
     and_then (check_rows c [] rows) (\<lambda>_. Inr rows))"

definition update_declarative_tool :: "tool_row \<Rightarrow> declarative_row \<Rightarrow> tool_db \<Rightarrow> tool_db" where
  "update_declarative_tool stored r =
     update_tool (tl_id stored) (\<lambda>t. t\<lparr>tl_name := dr_name r, tl_description := dr_description r,
       tl_input_schema := dr_input_schema r, tl_sources := Some (dr_sources r), tl_timeout := dr_timeout r,
       tl_risk := ReadOnly, tl_status := Active\<rparr>)"

definition create_and_activate_declarative_tool ::
  "declarative_row \<Rightarrow> instant \<Rightarrow> tool_db \<Rightarrow> (string + unit) \<times> tool_db" where
  "create_and_activate_declarative_tool r now db =
     (case new_tool_for r of
        Inl e \<Rightarrow> (Inl e, db)
      | Inr t \<Rightarrow>
          (case create_tool None t now db of
             (Inl e, db') \<Rightarrow> (Inl (tool_error_text e), db')
           | (Inr i, db') \<Rightarrow>
               (case tool_by_id db' i of
                  None \<Rightarrow> (Inl ''row vanished before activation'', db')
                | Some stored \<Rightarrow> (Inr (), update_declarative_tool stored r db'))))"

definition upsert :: "instant \<Rightarrow> declarative_row \<Rightarrow> tool_db \<Rightarrow> tool_db" where
  "upsert now r db =
     (case system_row db (dr_slug r) of
        Some stored \<Rightarrow> update_declarative_tool stored r db
      | None \<Rightarrow> snd (create_and_activate_declarative_tool r now db))"

definition load_rows :: "instant \<Rightarrow> declarative_row list \<Rightarrow> tool_db \<Rightarrow> tool_db" where
  "load_rows now rows db = fold (upsert now) rows db"

definition load_file ::
  "row_codec \<Rightarrow> (string \<Rightarrow> string + declarative_row list) \<Rightarrow> string + string \<Rightarrow> instant \<Rightarrow> tool_db \<Rightarrow> tool_db" where
  "load_file c parse file now db =
     (case file of
        Inl _ \<Rightarrow> db
      | Inr raw \<Rightarrow> (case read_rows c parse raw of Inl _ \<Rightarrow> db | Inr rows \<Rightarrow> load_rows now rows db))"

end
