(* ===== verification/Tool_Lifecycle.thy ===== *)
theory Tool_Lifecycle
  imports Tool_Seed
begin

text \<open>
  The registry under concurrent requests. A state is the table, the rows that reviews and activations in
  flight have read, and a record of the answers every approving review was given. Reviews and activations
  are two steps each, a read and a later write; startups of the service may happen in between. Shown: what the
  table satisfies in every reachable state, that no tool of a user comes into circulation without a review
  that met every criterion, and that a review that ends late takes an active tool out of circulation.
\<close>

section \<open>Steps\<close>

record registry =
  reg_db :: tool_db
  reviewing :: "tool_row list"
  activating :: "tool_row list"
  approvals :: "(int \<times> wire_answer list) list"

definition empty_registry :: registry where
  "empty_registry =
     \<lparr>reg_db = \<lparr>tools_table = [], next_tool_id = 1\<rparr>, reviewing = [], activating = [], approvals = []\<rparr>"

text \<open>One statement of a startup, on a system row that it has read.\<close>

inductive seeds :: "tool_db \<Rightarrow> tool_db \<Rightarrow> bool" where
  creates: "new_tool_checked t = Inr t \<Longrightarrow> seeds db (snd (create_tool None t now db))"
| withdraws: "system_row db s = Some r \<Longrightarrow> seeds db (withdraw_system_tool r db)"
| activates: "system_row db s = Some r \<Longrightarrow> seeds db (activate_without_llm_review r d db)"
| declares: "system_row db s = Some r \<Longrightarrow> seeds db (update_declarative_tool r row db)"

inductive registry_step :: "registry \<Rightarrow> registry \<Rightarrow> bool" where
  create_request:
    "new_tool_checked t = Inr t \<Longrightarrow>
     registry_step y (y\<lparr>reg_db := snd (create_tool (Some u) t now (reg_db y))\<rparr>)"
| review_begins:
    "begin_review (reg_db y) i u = Inr r \<Longrightarrow> registry_step y (y\<lparr>reviewing := reviewing y @ [r]\<rparr>)"
| review_fails:
    "r \<in> set (reviewing y) \<Longrightarrow> registry_step y (y\<lparr>reviewing := remove1 r (reviewing y)\<rparr>)"
| review_ends:
    "r \<in> set (reviewing y) \<Longrightarrow>
     registry_step y (y\<lparr>reviewing := remove1 r (reviewing y),
       reg_db := end_review r answered_all now (reg_db y),
       approvals := (if fst (review_verdict (tl_risk r) answered_all)
         then (tl_id r, answered_all) # approvals y else approvals y)\<rparr>)"
| activation_begins:
    "begin_activation (reg_db y) i u = Inr r \<Longrightarrow> registry_step y (y\<lparr>activating := activating y @ [r]\<rparr>)"
| activation_ends:
    "r \<in> set (activating y) \<Longrightarrow>
     registry_step y (y\<lparr>activating := remove1 r (activating y), reg_db := end_activation r now (reg_db y)\<rparr>)"
| startup: "seeds (reg_db y) db' \<Longrightarrow> registry_step y (y\<lparr>reg_db := db'\<rparr>)"

section \<open>Invariant\<close>

text \<open>What a user's row never has, whatever happens to it.\<close>

definition user_row_ok :: "tool_row \<Rightarrow> bool" where
  "user_row_ok r \<longleftrightarrow>
     (tl_user r \<noteq> None \<longrightarrow> tl_sources r = None \<and> tl_slug r \<notin> set RESERVED_FOR_SYSTEM_TOOLS)"

definition tools_ok :: "tool_db \<Rightarrow> bool" where
  "tools_ok db \<longleftrightarrow>
     distinct (map tl_id (tools_table db)) \<and> (\<forall>r \<in> set (tools_table db). tl_id r < next_tool_id db) \<and>
     distinct (map owner_slug (tools_table db)) \<and> list_all user_row_ok (tools_table db)"

text \<open>A snapshot is of a user's row that is still there, with the risk it was created with.\<close>

definition snapshot_of :: "tool_db \<Rightarrow> tool_row \<Rightarrow> bool" where
  "snapshot_of db r \<longleftrightarrow>
     (\<exists>r' \<in> set (tools_table db). tl_id r' = tl_id r \<and> tl_user r' = tl_user r \<and> tl_user r \<noteq> None \<and> tl_risk r' = tl_risk r)"

definition approved_in :: "(int \<times> wire_answer list) list \<Rightarrow> tool_row \<Rightarrow> bool" where
  "approved_in as r \<longleftrightarrow> (\<exists>answered_all. (tl_id r, answered_all) \<in> set as \<and> fst (review_verdict (tl_risk r) answered_all))"

definition registry_ok :: "registry \<Rightarrow> bool" where
  "registry_ok y \<longleftrightarrow>
     tools_ok (reg_db y) \<and>
     (\<forall>r \<in> set (reviewing y). snapshot_of (reg_db y) r) \<and>
     (\<forall>r \<in> set (activating y). snapshot_of (reg_db y) r \<and> approved_in (approvals y) r) \<and>
     (\<forall>r \<in> set (tools_table (reg_db y)). tl_user r \<noteq> None \<longrightarrow> tl_status r \<noteq> Draft \<longrightarrow> approved_in (approvals y) r)"

text \<open>
  Every write but an insert replaces columns of one row: \<open>rewritten\<close> holds of two tables whose rows agree,
  one by one, in what no write changes.
\<close>

definition same_row :: "tool_row \<Rightarrow> tool_row \<Rightarrow> bool" where
  "same_row r r' \<longleftrightarrow> tl_id r' = tl_id r \<and> tl_user r' = tl_user r \<and> tl_slug r' = tl_slug r \<and>
     (tl_user r \<noteq> None \<longrightarrow> tl_sources r' = tl_sources r \<and> tl_risk r' = tl_risk r)"

definition rewritten :: "tool_db \<Rightarrow> tool_db \<Rightarrow> bool" where
  "rewritten db db' \<longleftrightarrow> list_all2 same_row (tools_table db) (tools_table db') \<and> next_tool_id db \<le> next_tool_id db'"

lemma same_row_keys: "list_all2 same_row xs ys \<Longrightarrow> map tl_id ys = map tl_id xs \<and> map owner_slug ys = map owner_slug xs"
  by (induction rule: list_all2_induct) (auto simp: same_row_def owner_slug_def)

lemma same_row_user_ok: "list_all2 same_row xs ys \<Longrightarrow> list_all user_row_ok xs \<Longrightarrow> list_all user_row_ok ys"
  by (induction rule: list_all2_induct) (auto simp: same_row_def user_row_ok_def)

lemma rewritten_table_ok:
  assumes "rewritten db db'" and "tools_ok db"
  shows "tools_ok db'"
proof -
  have l: "list_all2 same_row (tools_table db) (tools_table db')" using assms(1) by (simp add: rewritten_def)
  note keys = same_row_keys [OF l]
  have "\<forall>i \<in> tl_id ` set (tools_table db'). i < next_tool_id db'"
    using keys assms by (metis (no_types, lifting) imageE list.set_map order_less_le_trans rewritten_def tools_ok_def)
  then show ?thesis
    using assms(2) keys same_row_user_ok [OF l] by (simp add: tools_ok_def)
qed

lemma rewritten_snapshot_of:
  assumes "rewritten db db'" and "snapshot_of db r"
  shows "snapshot_of db' r"
proof -
  obtain r1 where r1: "r1 \<in> set (tools_table db)" "tl_id r1 = tl_id r" "tl_user r1 = tl_user r" "tl_user r \<noteq> None"
    "tl_risk r1 = tl_risk r" using assms(2) by (auto simp: snapshot_of_def)
  then obtain k where "k < length (tools_table db)" "tools_table db ! k = r1" by (auto simp: in_set_conv_nth)
  moreover have "list_all2 same_row (tools_table db) (tools_table db')" using assms(1) by (simp add: rewritten_def)
  ultimately have "same_row r1 (tools_table db' ! k)" "k < length (tools_table db')"
    by (auto simp: list_all2_conv_all_nth)
  then show ?thesis using r1 by (auto simp: snapshot_of_def same_row_def intro!: bexI [of _ "tools_table db' ! k"])
qed

lemma rewritten_update_tool:
  assumes "\<And>r. r \<in> set (tools_table db) \<Longrightarrow> tl_id r = i \<Longrightarrow> same_row r (f r)"
  shows "rewritten db (update_tool i f db)"
  using assms by (auto simp: rewritten_def update_tool_def update_where_def list_all2_conv_all_nth same_row_def)

text \<open>An insert appends a draft that the index admits, or leaves the rows as they are.\<close>

lemma create_tool_rows:
  assumes "create_tool owner t now db = (res, db')"
  shows "rewritten db db' \<and> tools_table db' = tools_table db \<or>
    tools_table db' = tools_table db @ [draft_row (next_tool_id db) owner t now] \<and>
    next_tool_id db' = next_tool_id db + 1 \<and> \<not> claims_reserved_slug owner (nt_slug t) \<and>
    owner_slug (draft_row (next_tool_id db) owner t now) \<notin> owner_slug ` set (tools_table db)"
  using assms
  by (auto simp: create_tool_def insert_tool_def rewritten_def same_row_def list_all2_same split: if_splits)

lemma create_tool_ok:
  assumes "tools_ok db" and "create_tool owner t now db = (res, db')"
  shows "tools_ok db'"
  using create_tool_rows [OF assms(2)]
proof
  assume "rewritten db db' \<and> tools_table db' = tools_table db"
  then show ?thesis using rewritten_table_ok assms(1) by blast
next
  let ?r = "draft_row (next_tool_id db) owner t now"
  assume a: "tools_table db' = tools_table db @ [?r] \<and> next_tool_id db' = next_tool_id db + 1 \<and>
    \<not> claims_reserved_slug owner (nt_slug t) \<and> owner_slug ?r \<notin> owner_slug ` set (tools_table db)"
  moreover have "tl_id ?r = next_tool_id db" by (simp add: draft_row_def)
  moreover have "user_row_ok ?r" using a by (auto simp: user_row_ok_def draft_row_def claims_reserved_slug_def)
  ultimately show ?thesis using assms(1) by (fastforce simp: tools_ok_def)
qed

lemma create_tool_snapshot:
  assumes "create_tool owner t now db = (res, db')" and "snapshot_of db r"
  shows "snapshot_of db' r"
  using create_tool_rows [OF assms(1)] assms(2) by (auto simp: snapshot_of_def)

lemma same_id_same_row:
  assumes "tools_ok db" and "r \<in> set (tools_table db)" and "r' \<in> set (tools_table db)" and "tl_id r = tl_id r'"
  shows "r = r'"
  using assms by (auto simp: tools_ok_def distinct_map dest: inj_onD)

lemma in_update_tool:
  "r' \<in> set (tools_table (update_tool i f db)) \<longleftrightarrow>
    (\<exists>r \<in> set (tools_table db). r' = (if tl_id r = i then f r else r))"
  by (simp add: update_tool_def set_update_where)

text \<open>A startup leaves the rows of users alone.\<close>

lemma system_rowD: "system_row db s = Some r \<Longrightarrow> r \<in> set (tools_table db) \<and> tl_user r = None"
  by (auto simp: system_row_def find_Some_iff)

lemma system_update:
  assumes "tools_ok db" and "system_row db s = Some r"
    and "\<And>r. tl_id (f r) = tl_id r \<and> tl_user (f r) = tl_user r \<and> tl_slug (f r) = tl_slug r"
  shows "rewritten db (update_tool (tl_id r) f db)"
    and "r' \<in> set (tools_table (update_tool (tl_id r) f db)) \<Longrightarrow> tl_user r' \<noteq> None \<Longrightarrow> r' \<in> set (tools_table db)"
proof -
  note r = system_rowD [OF assms(2)]
  have sys: "tl_user r1 = None" if "r1 \<in> set (tools_table db)" "tl_id r1 = tl_id r" for r1
    using same_id_same_row [OF assms(1) that(1) _ that(2)] r by auto
  show "rewritten db (update_tool (tl_id r) f db)"
    by (rule rewritten_update_tool) (use sys assms(3) in \<open>auto simp: same_row_def\<close>)
  show "r' \<in> set (tools_table db)"
    if "r' \<in> set (tools_table (update_tool (tl_id r) f db))" "tl_user r' \<noteq> None"
    using that sys assms(3) by (auto simp: in_update_tool split: if_splits)
qed

lemma seeds_ok:
  assumes "seeds db db'" and "tools_ok db"
  shows "tools_ok db' \<and> (\<forall>r. snapshot_of db r \<longrightarrow> snapshot_of db' r) \<and>
    (\<forall>r \<in> set (tools_table db'). tl_user r \<noteq> None \<longrightarrow> r \<in> set (tools_table db))"
  using assms
proof cases
  case (creates t now)
  obtain res k where k: "create_tool None t now db = (res, k)" by fastforce
  have "\<forall>r \<in> set (tools_table k). tl_user r \<noteq> None \<longrightarrow> r \<in> set (tools_table db)"
    using create_tool_rows [OF k] by (auto simp: draft_row_def)
  then show ?thesis using creates k create_tool_ok [OF assms(2) k] create_tool_snapshot [OF k] by auto
next
  case (withdraws s r)
  show ?thesis
    using system_update [OF assms(2) withdraws(2), of "\<lambda>r. r\<lparr>tl_status := Draft\<rparr>"] rewritten_table_ok
      rewritten_snapshot_of assms(2) by (auto simp: withdraws(1) withdraw_system_tool_def)
next
  case (activates s r d)
  show ?thesis
    using system_update [OF assms(2) activates(2), of "\<lambda>r. r\<lparr>tl_status := Active, tl_name := sy_name d,
        tl_description := sy_description d, tl_input_schema := sy_schema d\<rparr>"] rewritten_table_ok
      rewritten_snapshot_of assms(2) by (auto simp: activates(1) activate_without_llm_review_def)
next
  case (declares s r row)
  show ?thesis
    using system_update [OF assms(2) declares(2), of "\<lambda>t. t\<lparr>tl_name := dr_name row, tl_description := dr_description row,
        tl_input_schema := dr_input_schema row, tl_sources := Some (dr_sources row), tl_timeout := dr_timeout row,
        tl_risk := ReadOnly, tl_status := Active\<rparr>"] rewritten_table_ok
      rewritten_snapshot_of assms(2) by (auto simp: declares(1) update_declarative_tool_def)
qed

text \<open>The two writes of a request.\<close>

lemma set_status_rewritten: "rewritten db (set_status i st now db)"
  unfolding set_status_def by (rule rewritten_update_tool) (simp add: same_row_def)

lemma in_set_status:
  assumes "r' \<in> set (tools_table (set_status i st now db))"
  shows "tl_id r' = i \<and> tl_status r' = st \<and> (\<exists>r \<in> set (tools_table db). tl_id r = i \<and> tl_risk r' = tl_risk r \<and>
    tl_user r' = tl_user r) \<or> r' \<in> set (tools_table db)"
  using assms by (auto simp: set_status_def in_update_tool split: if_splits)

lemma approved_in_snapshot:
  assumes "tools_ok db" and "snapshot_of db r" and "approved_in as r"
    and "r' \<in> set (tools_table db)" and "tl_id r' = tl_id r" and "tl_id r'' = tl_id r" and "tl_risk r'' = tl_risk r'"
  shows "approved_in as r''"
proof -
  obtain r1 where "r1 \<in> set (tools_table db)" "tl_id r1 = tl_id r" "tl_risk r1 = tl_risk r"
    using assms(2) by (auto simp: snapshot_of_def)
  then have "r1 = r'" using same_id_same_row [OF assms(1)] assms(4,5) by simp
  then show ?thesis using assms(3,6,7) \<open>tl_risk r1 = tl_risk r\<close> by (simp add: approved_in_def)
qed

lemma approved_in_mono: "approved_in as r \<Longrightarrow> set as \<subseteq> set bs \<Longrightarrow> approved_in bs r"
  by (auto simp: approved_in_def)

lemma user_owned_toolD:
  "user_owned_tool db i u = Inr r \<Longrightarrow> r \<in> set (tools_table db) \<and> tl_id r = i \<and> tl_user r = Some u"
  by (auto simp: user_owned_tool_def result_simps find_Some_iff)

lemma begin_reviewD: "begin_review db i u = Inr r \<Longrightarrow> snapshot_of db r"
  by (auto simp: begin_review_def result_simps snapshot_of_def dest!: user_owned_toolD split: if_splits)

lemma begin_activationD:
  "begin_activation db i u = Inr r \<Longrightarrow> snapshot_of db r \<and> r \<in> set (tools_table db) \<and> tl_user r \<noteq> None \<and>
    tl_status r = Validated"
  by (auto simp: begin_activation_def result_simps snapshot_of_def dest!: user_owned_toolD split: if_splits)

lemma registry_ok_step:
  assumes "registry_step y y'" and "registry_ok y"
  shows "registry_ok y'"
  using assms
proof cases
  case (create_request t u now)
  obtain res k where k: "create_tool (Some u) t now (reg_db y) = (res, k)" by fastforce
  have "r \<in> set (tools_table (reg_db y))" if "r \<in> set (tools_table k)" "tl_status r \<noteq> Draft" for r
    using create_tool_rows [OF k] that by (auto simp: draft_row_def)
  then show ?thesis
    using assms(2) create_tool_ok [OF _ k] create_tool_snapshot [OF k] create_request k
    by (auto simp: registry_ok_def)
next
  case (review_begins i u r)
  then show ?thesis using assms(2) begin_reviewD [OF review_begins(2)] by (auto simp: registry_ok_def)
next
  case (review_fails r)
  then show ?thesis using assms(2) using set_remove1_subset [of r "reviewing y"] by (auto simp: registry_ok_def)
next
  case (review_ends r answered_all now)
  let ?ok = "fst (review_verdict (tl_risk r) answered_all)" and ?db = "end_review r answered_all now (reg_db y)"
  let ?as = "if ?ok then (tl_id r, answered_all) # approvals y else approvals y"
  have t: "tools_ok (reg_db y)" and snap: "snapshot_of (reg_db y) r"
    using assms(2) review_ends(2) by (auto simp: registry_ok_def)
  have new: "rewritten (reg_db y) ?db" unfolding end_review_def by (rule set_status_rewritten)
  have grown: "set (approvals y) \<subseteq> set ?as" by auto
  have "approved_in ?as r'" if r': "r' \<in> set (tools_table ?db)" "tl_user r' \<noteq> None" "tl_status r' \<noteq> Draft" for r'
    using in_set_status [OF r'(1) [unfolded end_review_def]]
  proof
    assume written: "tl_id r' = tl_id r \<and> tl_status r' = (if ?ok then Validated else Draft) \<and>
      (\<exists>r1 \<in> set (tools_table (reg_db y)). tl_id r1 = tl_id r \<and> tl_risk r' = tl_risk r1 \<and> tl_user r' = tl_user r1)"
    then obtain r1 where r1: "r1 \<in> set (tools_table (reg_db y))" "tl_id r1 = tl_id r" "tl_risk r' = tl_risk r1" by blast
    have "?ok" using written r'(3) by (auto split: if_splits)
    then have "approved_in ?as r" by (auto simp: approved_in_def)
    then show ?thesis by (rule approved_in_snapshot [OF t snap _ r1(1,2)]) (use written r1 in simp_all)
  next
    assume "r' \<in> set (tools_table (reg_db y))"
    then show ?thesis using assms(2) r'(2,3) approved_in_mono [OF _ grown] by (auto simp: registry_ok_def)
  qed
  moreover have "snapshot_of ?db r'" if "r' \<in> set (reviewing y) \<union> set (activating y)" for r'
    using rewritten_snapshot_of [OF new] assms(2) that by (auto simp: registry_ok_def)
  moreover have "approved_in ?as r'" if "r' \<in> set (activating y)" for r'
    using assms(2) that approved_in_mono [OF _ grown] by (auto simp: registry_ok_def)
  ultimately show ?thesis
    using rewritten_table_ok [OF new t] set_remove1_subset [of r "reviewing y"] review_ends(1)
    by (auto simp: registry_ok_def)
next
  case (activation_begins i u r)
  then show ?thesis using assms(2) begin_activationD [OF activation_begins(2)] by (auto simp: registry_ok_def)
next
  case (activation_ends r now)
  let ?db = "end_activation r now (reg_db y)"
  have t: "tools_ok (reg_db y)" and snap: "snapshot_of (reg_db y) r" and ok: "approved_in (approvals y) r"
    using assms(2) activation_ends(2) by (auto simp: registry_ok_def)
  have new: "rewritten (reg_db y) ?db" unfolding end_activation_def by (rule set_status_rewritten)
  have "approved_in (approvals y) r'"
    if r': "r' \<in> set (tools_table ?db)" "tl_user r' \<noteq> None" "tl_status r' \<noteq> Draft" for r'
    using in_set_status [OF r'(1) [unfolded end_activation_def]]
  proof
    assume written: "tl_id r' = tl_id r \<and> tl_status r' = Active \<and>
      (\<exists>r1 \<in> set (tools_table (reg_db y)). tl_id r1 = tl_id r \<and> tl_risk r' = tl_risk r1 \<and> tl_user r' = tl_user r1)"
    then obtain r1 where "r1 \<in> set (tools_table (reg_db y))" "tl_id r1 = tl_id r" "tl_risk r' = tl_risk r1" by blast
    then show ?thesis by (intro approved_in_snapshot [OF t snap ok]) (use written in simp_all)
  next
    assume "r' \<in> set (tools_table (reg_db y))"
    then show ?thesis using assms(2) r'(2,3) by (auto simp: registry_ok_def)
  qed
  moreover have "snapshot_of ?db r'" if "r' \<in> set (reviewing y) \<union> set (activating y)" for r'
    using rewritten_snapshot_of [OF new] assms(2) that by (auto simp: registry_ok_def)
  ultimately show ?thesis
    using rewritten_table_ok [OF new t] set_remove1_subset [of r "activating y"] activation_ends(1) assms(2)
    by (auto simp: registry_ok_def)
next
  case (startup db')
  then show ?thesis using assms(2) seeds_ok [OF startup(2)] by (auto simp: registry_ok_def)
qed

lemma registry_reachable_ok: "registry_step\<^sup>*\<^sup>* empty_registry y \<Longrightarrow> registry_ok y"
proof (induction rule: rtranclp_induct)
  case base
  show ?case by (simp add: registry_ok_def tools_ok_def empty_registry_def)
qed (rule registry_ok_step)

lemma approved_criteria:
  "fst (review_verdict k answered_all) \<longleftrightarrow> (\<forall>c \<in> set (criteria_for k). criterion_met c answered_all)"
  by (auto simp: review_verdict_def Let_def filter_empty_conv)

text \<open>C9: in every reachable state a user's tool that is in circulation was reviewed: a review of it was answered,
for every criterion its risk calls for, with at least the approval threshold.\<close>

theorem active_tool_was_approved:
  assumes "registry_step\<^sup>*\<^sup>* empty_registry y" and "r \<in> set (list_tools (reg_db y) (Some u))" and "tl_user r = Some u"
  shows "\<exists>answered_all. (tl_id r, answered_all) \<in> set (approvals y) \<and>
    (\<forall>c \<in> set (criteria_for (tl_risk r)). criterion_met c answered_all)"
  using registry_reachable_ok [OF assms(1)] assms(2,3)
  by (auto simp: registry_ok_def list_tools_def approved_in_def approved_criteria)

text \<open>A review that is still in flight when its tool becomes active takes the tool out of circulation again
if it is refused: it writes its verdict without looking at the status the row has by then.\<close>

lemma late_review_withdraws_an_active_tool:
  assumes "r0 \<in> set (reviewing y)" and "r \<in> set (tools_table (reg_db y))" and "tl_id r = tl_id r0"
    and "tl_status r = Active"
  shows "\<exists>y'. registry_step y y' \<and>
    r\<lparr>tl_status := Draft, tl_updated_at := now\<rparr> \<in> set (tools_table (reg_db y'))"
proof (intro exI conjI)
  show "registry_step y (y\<lparr>reviewing := remove1 r0 (reviewing y),
       reg_db := end_review r0 [] now (reg_db y),
       approvals := (if fst (review_verdict (tl_risk r0) []) then (tl_id r0, []) # approvals y else approvals y)\<rparr>)"
    using assms(1) by (rule review_ends)
  have "\<not> fst (review_verdict (tl_risk r0) [])"
    by (auto simp: approved_criteria criterion_met_def criteria_for_def)
  then show "r\<lparr>tl_status := Draft, tl_updated_at := now\<rparr> \<in> set (tools_table (reg_db
      (y\<lparr>reviewing := remove1 r0 (reviewing y), reg_db := end_review r0 [] now (reg_db y),
       approvals := (if fst (review_verdict (tl_risk r0) []) then (tl_id r0, []) # approvals y else approvals y)\<rparr>)))"
    using assms(2,3) by (auto simp: end_review_def set_status_def in_update_tool intro!: bexI [of _ r])
qed

end
