(* ===== verification/Tool_Service_Props.thy ===== *)
theory Tool_Service_Props
  imports Tool_Service Tool_Lifecycle Declarative
begin

text \<open>
  What an execution of a tool may do. Every request it sends goes to a URL that the guard let through
  before; it runs only what is active, only reads, and is the system's own, because a user's row
  declares no sources and cannot carry the slug of a system tool; and the catalog and the executor agree.
\<close>

section \<open>What a run sends\<close>

lemma asks_first_public_candidates:
  "asks_first G (public_candidates s links) (\<lambda>us. G \<union> set us)"
proof (induction links arbitrary: G)
  case (Cons link links)
  show ?case
    unfolding public_candidates.simps
  proof (rule asks_first_bind [OF asks_first_guard])
    fix v
    let ?H = "case v of Inl e \<Rightarrow> G | Inr _ \<Rightarrow> insert link G"
    show "asks_first ?H (public_candidates s links \<bind> (\<lambda>others.
        State_Monad.return (if isl v then others else link # others))) (\<lambda>us. G \<union> set us)"
      by (rule asks_first_bind [OF Cons.IH], rule asks_first_return) (auto split: sum.splits)
  qed
qed (simp add: asks_first_return)

lemma asks_first_attach_prefetched_text: "asks_first G (attach_prefetched_text s results) (\<lambda>_. G)"
  unfolding attach_prefetched_text_def
proof (rule asks_first_bind [OF asks_first_public_candidates])
  fix candidates
  have raced: "asks_first (G \<union> set candidates) (race_fetch s candidates quota limit) (\<lambda>_. G \<union> set candidates)"
    for quota limit
    unfolding race_fetch_def
    by (auto intro!: asks_first_return asks_first_bind [OF asks_first_race_on] asks_first_fetch)
  show "asks_first (G \<union> set candidates) (race_fetch s candidates PREFETCH_TAKE PREFETCH_TIMEOUT \<bind>
      (\<lambda>fetched_texts. State_Monad.return (map (with_text fetched_texts) results))) (\<lambda>_. G)"
    by (rule asks_first_bind [OF raced]) (simp add: asks_first_return)
qed

lemma asks_first_ensure_all:
  "asks_first G (ensure_all_urls_public s links) (\<lambda>r. case r of Inl e \<Rightarrow> G | Inr _ \<Rightarrow> G \<union> set links)"
proof (induction links arbitrary: G)
  case (Cons link links)
  show ?case
    unfolding ensure_all_urls_public.simps
    by (rule asks_first_attempted [OF asks_first_guard])
      (auto intro!: asks_first_weaken [OF Cons.IH [of "insert link G"]] split: sum.splits)
qed (simp add: asks_first_return)

lemma asks_first_given: "asks_first G (State_Monad.return r) (\<lambda>_. G)"
  by (simp add: asks_first_return)

text \<open>The two forms in which a run of the service continues after a step that may fail.\<close>

lemma asks_first_try:
  assumes "asks_first G m (\<lambda>_. G)" and "\<And>x. asks_first G (f x) (\<lambda>_. G)"
  shows "asks_first G (attempted m f) (\<lambda>_. G)"
  by (rule asks_first_attempted [where R = "\<lambda>_. G"]) (use assms in \<open>auto split: sum.splits intro: asks_first_weaken\<close>)

lemma asks_first_then:
  assumes "asks_first G m (\<lambda>_. G)" and "\<And>x. asks_first G (f x) (\<lambda>_. G)"
  shows "asks_first G (State_Monad.bind m f) (\<lambda>_. G)"
  using assms by (rule asks_first_bind)

lemmas asks_first_steps =
  asks_first_given asks_first_try asks_first_then asks_first_attach_prefetched_text asks_first_run_sources

lemma asks_first_here: "asks_first G (in_world m) (\<lambda>_. G)"
  by (simp add: asks_first_in_world)

lemma asks_first_run_web_fetch: "asks_first G (run_web_fetch s a limit) (\<lambda>_. G)"
proof -
  have go: "asks_first G (attempted (ensure_all_urls_public (network s) links) (\<lambda>_.
      attempted (fetch_richest (network s) (extractor s) (meet_pages s) (show_limit s) links limit) (\<lambda>page.
      State_Monad.return (Inr (readable_page_json page) :: string + json)))) (\<lambda>_. G)" for links
    by (rule asks_first_attempted [OF asks_first_ensure_all])
      (auto intro!: asks_first_weaken [OF asks_first_try [OF asks_first_fetch_richest [of links "G \<union> set links"] asks_first_given]])
  show ?thesis unfolding run_web_fetch_def by (rule asks_first_try [OF asks_first_given go])
qed

lemma asks_first_run_tool: "asks_first G (run_tool s r nm input) (\<lambda>_. G)"
  unfolding run_tool_def run_declarative_def run_system_tool_def as_outcome_def run_web_search_def
    run_kb_search_def run_kb_read_document_def
  by (auto split: option.splits sum.splits
      intro!: asks_first_steps asks_first_run_web_fetch asks_first_here)


section \<open>What runs\<close>

lemma find_toolD:
  assumes "find_tool db caller nm c = Some r"
  shows "r \<in> set (tools_table db) \<and> tl_slug r = nm \<and> in_circulation c r \<and> (tl_user r = None \<or> tl_user r = caller)"
  using assms by (auto simp: find_tool_def Let_def find_Some_iff split: option.splits)

text \<open>A row of a user is answered without anything being run or sent.\<close>

lemma user_row_runs_nothing:
  assumes "user_row_ok r" and "tl_user r \<noteq> None" and "tl_slug r = nm"
  shows "\<exists>e. run_tool s r nm input = State_Monad.return (OutcomeNotExecutable e)"
  using assms by (auto simp: user_row_ok_def run_tool_def run_system_tool_def RESERVED_FOR_SYSTEM_TOOLS_def)

lemma table_of_reachable: "registry_step\<^sup>*\<^sup>* empty_registry y \<Longrightarrow> tools_ok (reg_db y)"
  using registry_reachable_ok by (simp add: registry_ok_def)

lemma execute_found:
  assumes "find_tool db caller nm InUse = Some r" and "tl_risk r = ReadOnly" and "json_of_text s input_json = Inr input"
  shows "execute s db db_later caller nm input_json =
    do { outcome \<leftarrow> run_tool s r nm input; State_Monad.return (Inr outcome) }"
  using assms by (simp add: execute_def attempted_def)

lemma execute_effective:
  assumes run: "run_state (execute s db db_later caller nm input_json) n = (outcome, n')"
    and eff: "trace n' \<noteq> trace n \<or> (\<exists>v. outcome = Inr (OutcomeOk v))"
  obtains r input where "find_tool db caller nm InUse = Some r" and "tl_risk r = ReadOnly"
    and "run_state (run_tool s r nm input) n = (projr outcome, n')"
proof -
  obtain r where r: "find_tool db caller nm InUse = Some r"
    using run eff by (cases "find_tool db caller nm InUse") (auto simp: execute_def)
  have k: "tl_risk r = ReadOnly"
    using run eff r by (cases "tl_risk r") (auto simp: execute_def)
  show ?thesis
  proof (cases "json_of_text s input_json")
    case (Inl e)
    then show ?thesis using run eff r k by (auto simp: execute_def attempted_def)
  next
    case (Inr input)
    show ?thesis
      by (rule that [OF r k, of input]) (use run execute_found [OF r k Inr] in \<open>auto split: prod.splits\<close>)
  qed
qed

text \<open>C6: an execution that sends anything or answers with a value runs a tool of the system that is active and
only reads: no row that a user wrote, and none that writes, ever gets that far.\<close>

theorem only_readonly_system_tools_run:
  assumes "registry_step\<^sup>*\<^sup>* empty_registry y"
    and "run_state (execute s (reg_db y) db_later caller nm input_json) n = (outcome, n')"
    and "trace n' \<noteq> trace n \<or> (\<exists>v. outcome = Inr (OutcomeOk v))"
  shows "\<exists>r \<in> set (list_tools (reg_db y) None). tl_slug r = nm \<and> tl_user r = None \<and> tl_risk r = ReadOnly"
proof -
  obtain r input where found: "find_tool (reg_db y) caller nm InUse = Some r" and k: "tl_risk r = ReadOnly"
    and ran: "run_state (run_tool s r nm input) n = (projr outcome, n')"
    using execute_effective [OF assms(2,3)] .
  note r = find_toolD [OF found]
  have "user_row_ok r" using table_of_reachable [OF assms(1)] r by (auto simp: tools_ok_def list_all_iff)
  have "tl_user r = None"
  proof (rule ccontr)
    assume "tl_user r \<noteq> None"
    then obtain e where "run_tool s r nm input = State_Monad.return (OutcomeNotExecutable e)"
      using user_row_runs_nothing [OF \<open>user_row_ok r\<close>] r by blast
    then show False using ran assms(3) by auto
  qed
  then show ?thesis using r k by (auto simp: list_tools_def in_circulation_def)
qed

text \<open>A tool that a user has brought into circulation under the slug of a declarative tool takes its place in
that user's calls, although it cannot run: the call that worked before is answered as not executable.\<close>

lemma own_tool_hides_a_declarative_one:
  assumes "registry_step\<^sup>*\<^sup>* empty_registry y"
    and "own \<in> set (list_tools (reg_db y) (Some u))" and "tl_user own = Some u" and "tl_risk own = ReadOnly"
    and "json_of_text s input_json = Inr input"
  shows "\<exists>e. run_state (execute s (reg_db y) db_later (Some u) (tl_slug own) input_json) n =
    (Inr (OutcomeNotExecutable e), n)"
proof -
  have t: "tools_ok (reg_db y)" by (rule table_of_reachable [OF assms(1)])
  have own: "own \<in> set (tools_table (reg_db y))" "tl_status own = Active" using assms(2) by (auto simp: list_tools_def)
  have "find_tool (reg_db y) (Some u) (tl_slug own) InUse = Some own"
  proof -
    let ?p = "\<lambda>r. tl_user r = Some u \<and> tl_slug r = tl_slug own \<and> in_circulation InUse r"
    have "?p own" using assms(3) own by (simp add: in_circulation_def)
    with own(1) have "List.find ?p (tools_table (reg_db y)) \<noteq> None" unfolding find_None_iff by blast
    then obtain r where r: "List.find ?p (tools_table (reg_db y)) = Some r" by blast
    then have "r \<in> set (tools_table (reg_db y))" "owner_slug r = owner_slug own"
      using assms(3) by (auto simp: find_Some_iff owner_slug_def)
    moreover have "inj_on owner_slug (set (tools_table (reg_db y)))"
      using t by (simp add: tools_ok_def distinct_map)
    ultimately have "r = own" using own(1) by (simp add: inj_on_def)
    then show ?thesis using r by (simp add: find_tool_def)
  qed
  note found = execute_found [OF this assms(4,5), of db_later]
  have "user_row_ok own" using t own by (auto simp: tools_ok_def list_all_iff)
  then obtain e where "run_tool s own (tl_slug own) input = State_Monad.return (OutcomeNotExecutable e)"
    using user_row_runs_nothing assms(3) by blast
  then show ?thesis using found by simp
qed

section \<open>Searches\<close>

text \<open>Reading ahead changes nothing about a hit but its text, and loses none.\<close>

lemma prefetch_only_adds_text:
  assumes "run_state (attach_prefetched_text s results) n = (results', n')"
  shows "list_all2 (\<lambda>r r'. r' = r \<or> (\<exists>t. r' = r\<lparr>sr_text := Some t\<rparr>)) results results'"
proof -
  obtain f where "results' = map (with_text f) results"
    using assms by (auto simp: attach_prefetched_text_def split: prod.splits)
  then show ?thesis by (auto simp: list_all2_conv_all_nth with_text_def split: option.splits)
qed

end
