(* ===== verification/Tool_Witnesses.thy ===== *)
theory Tool_Witnesses
  imports Tool_Service_Props
begin

text \<open>
  One tool of a user from its submission into circulation, with a second review still in flight, a system tool
  seeded beside it, and a service whose pages answer from a public address.
\<close>

section \<open>A tool comes into circulation\<close>

definition submitted :: new_tool where
  "submitted =
     \<lparr>nt_slug = ''echo'', nt_name = ''Echo'', nt_description = ''Echoes'', nt_input_schema = Object fmempty,
      nt_output_schema = Object fmempty, nt_risk = ReadOnly, nt_timeout = 30\<rparr>"

definition system_definition :: new_tool where
  "system_definition = submitted\<lparr>nt_slug := KB_SEARCH\<rparr>"

definition system_description :: system_tool where
  "system_description =
     \<lparr>sy_slug = KB_SEARCH, sy_name = ''Search'', sy_description = ''Searches'', sy_risk = ReadOnly,
      sy_schema = Object fmempty\<rparr>"

definition all_met :: "wire_answer list" where
  "all_met = map (\<lambda>c. (cr_id c, Some (NoulAnswer 1))) (criteria_for ReadOnly)"

definition stored :: "uuid option \<Rightarrow> new_tool \<Rightarrow> int \<Rightarrow> tool_status \<Rightarrow> tool_row" where
  "stored owner t i st = (draft_row i owner t 0)\<lparr>tl_status := st\<rparr>"

abbreviation (input) sys :: "tool_row list \<Rightarrow> int \<Rightarrow> tool_row list \<Rightarrow> tool_row list \<Rightarrow> (int \<times> wire_answer list) list \<Rightarrow> registry" where
  "sys rows i rs as ap \<equiv> \<lparr>reg_db = \<lparr>tools_table = rows, next_tool_id = i\<rparr>, reviewing = rs, activating = as, approvals = ap\<rparr>"

abbreviation (input) "mine st \<equiv> stored (Some 7) submitted 1 st"
abbreviation (input) "ours st \<equiv> stored None system_definition 2 st"

lemma checked: "new_tool_checked submitted = Inr submitted" "new_tool_checked system_definition = Inr system_definition"
  by code_simp+

lemma approved: "fst (review_verdict ReadOnly all_met)"
  by code_simp

lemma stored_simps [simp]:
  "tl_id (stored owner t i st) = i" "tl_user (stored owner t i st) = owner" "tl_slug (stored owner t i st) = nt_slug t"
  "tl_status (stored owner t i st) = st" "tl_risk (stored owner t i st) = nt_risk t"
  "(stored owner t i st)\<lparr>tl_status := st', tl_updated_at := 0\<rparr> = stored owner t i st'"
  by (simp_all add: stored_def draft_row_def)

lemma draft_is_stored: "draft_row i owner t 0 = stored owner t i Draft"
  by (simp add: stored_def draft_row_def)

lemmas steps_simps = create_tool_def insert_tool_def claims_reserved_slug_def RESERVED_FOR_SYSTEM_TOOLS_def
  draft_is_stored owner_slug_def submitted_def system_definition_def

lemma step_1: "registry_step empty_registry (sys [mine Draft] 2 [] [] [])"
  using registry_step.create_request [OF checked(1), of empty_registry 7 0]
  by (simp add: empty_registry_def create_tool_def insert_tool_def claims_reserved_slug_def
      RESERVED_FOR_SYSTEM_TOOLS_def draft_is_stored WEB_SEARCH_def WEB_FETCH_def KB_SEARCH_def KB_READ_DOCUMENT_def submitted_def)

lemma reviews_begin: "registry_step (sys [mine Draft] 2 rs [] []) (sys [mine Draft] 2 (rs @ [mine Draft]) [] [])"
  using registry_step.review_begins [of "sys [mine Draft] 2 rs [] []" 1 7 "mine Draft"]
  by (simp add: begin_review_def user_owned_tool_def already_reviewed_def)

lemma review_is_written:
  "registry_step (sys [mine Draft] 2 [mine Draft, mine Draft] [] [])
    (sys [mine Validated] 2 [mine Draft] [] [(1, all_met)])"
  using registry_step.review_ends [of "mine Draft" "sys [mine Draft] 2 [mine Draft, mine Draft] [] []" all_met 0] approved
  by (simp add: end_review_def set_status_def update_tool_def update_where_def submitted_def)

lemma activation_begins: "registry_step (sys [mine Validated] 2 rs [] ap) (sys [mine Validated] 2 rs [mine Validated] ap)"
  using registry_step.activation_begins [of "sys [mine Validated] 2 rs [] ap" 1 7 "mine Validated"]
  by (simp add: begin_activation_def user_owned_tool_def)

lemma activation_is_written:
  "registry_step (sys [mine Validated] 2 rs [mine Validated] ap) (sys [mine Active] 2 rs [] ap)"
  using registry_step.activation_ends [of "mine Validated" "sys [mine Validated] 2 rs [mine Validated] ap" 0]
  by (simp add: end_activation_def set_status_def update_tool_def update_where_def)

lemma in_circulation_beside_a_review:
  "registry_step\<^sup>*\<^sup>* empty_registry (sys [mine Active] 2 [mine Draft] [] [(1, all_met)])"
proof -
  have "registry_step\<^sup>*\<^sup>* empty_registry (sys [mine Draft] 2 [mine Draft, mine Draft] [] [])"
    using step_1 reviews_begin [of "[]"] reviews_begin [of "[mine Draft]"]
    by (auto intro: rtranclp.rtrancl_into_rtrancl)
  then show ?thesis
    using review_is_written activation_begins activation_is_written by (blast intro: rtranclp.rtrancl_into_rtrancl)
qed

theorem active_tool_was_approved_witness:
  "\<exists>answered_all. (1, answered_all) \<in> set [(1 :: int, all_met)] \<and>
    (\<forall>c \<in> set (criteria_for ReadOnly). criterion_met c answered_all)"
  using active_tool_was_approved [OF in_circulation_beside_a_review, of "mine Active" 7]
  by (simp add: list_tools_def submitted_def)

lemma late_review_withdraws_an_active_tool_witness:
  "\<exists>y'. registry_step (sys [mine Active] 2 [mine Draft] [] [(1, all_met)]) y' \<and> mine Draft \<in> set (tools_table (reg_db y'))"
proof -
  let ?y = "sys [mine Active] 2 [mine Draft] [] [(1, all_met)]"
  have "mine Draft \<in> set (reviewing ?y)" and "mine Active \<in> set (tools_table (reg_db ?y))" by simp_all
  from late_review_withdraws_an_active_tool [OF this, of 0] show ?thesis by simp
qed

section \<open>Executions\<close>

definition too_late :: send_error where
  "too_late = \<lparr>send_timed_out = True, is_connect = False, is_redirect = False, is_body_or_decode = False,
     source_texts = [], error_text = []\<rparr>"

definition ref_network :: "unit net_services" where
  "ref_network =
     \<lparr>parse_uri = (\<lambda>_. Some (Some ''https'', Some ''api.test'')), parse_ip = (\<lambda>_. Some (V4 0x08080808)),
      parse_url = (\<lambda>u. Inr \<lparr>url_scheme = ''https'', url_host = Some u, url_port = Some 443\<rparr>),
      join_url = (\<lambda>_ loc. Inr loc), lookup_host = (\<lambda>_. State_Monad.return (Inr [])),
      http_get = (\<lambda>_ _ _. State_Monad.return (Inl too_late))\<rparr>"

definition ref_arena :: "(unit, (unit, 'a) arena) state" where
  "ref_arena = State_Monad.return
     \<lparr>at_start = (\<lambda>_. ()), runs_late = (\<lambda>_. False), arrives = (\<lambda>_ _. 0), afterwards = ()\<rparr>"

definition ref_rows :: row_codec where
  "ref_rows =
     \<lparr>read_source_set = (\<lambda>_. Inr \<lparr>fan_out = 1, enough = 1, sources =
        [\<lparr>source_name = ''one'', source_url = ''u/${KEY}'', source_pick = ''a'', source_headers = []\<rparr>]\<rparr>),
      text_of_json = (\<lambda>_. ''{}''), json_of_bytes = (\<lambda>_. Inl ''eof''),
      byte_serialize = (\<lambda>s. if set s \<subseteq> unreserved then s else ''%''), environment = (\<lambda>_. Some ''abc'')\<rparr>"

definition ref_tools :: "(unit, unit) tool_services" where
  "ref_tools =
     \<lparr>network = ref_network,
      extractor = \<lparr>readability = (\<lambda>html _. Some ([], Some ([], html))), sha256_digest = (\<lambda>_. []), utf8_lossy = (\<lambda>b. b)\<rparr>,
      row_codecs = ref_rows, vendor = Unconfigured, ask_vendor = (\<lambda>_ _ _. State_Monad.return (Inl ''down'')),
      kb_search = (\<lambda>_ _. State_Monad.return (Inr [])), kb_read = (\<lambda>_ _ _. State_Monad.return (Inl ''none'')),
      meet_pages = ref_arena, meet_values = ref_arena, show_limit = show_nat,
      json_of_text = (\<lambda>_. Inr Null), read_search_args = (\<lambda>_. Inr \<lparr>sa_query = ''q'', sa_limit = None\<rparr>),
      read_fetch_args = (\<lambda>_. Inr \<lparr>fa_url = Some ''u'', fa_urls = None\<rparr>), read_document_args = (\<lambda>_. Inl ''no''),
      review = (\<lambda>_. State_Monad.return (Inr all_met)), tool_clock = State_Monad.return 0,
      proto_value_of = (\<lambda>_. Inr ()), error_display = snd, uuid_of_text = (\<lambda>_. None)\<rparr>"

definition fetch_row :: tool_row where
  "fetch_row = (draft_row 1 None (submitted\<lparr>nt_slug := WEB_FETCH\<rparr>) 0)\<lparr>tl_status := Active\<rparr>"

definition fetching :: "(tool_error + execute_outcome) \<times> unit net" where
  "fetching = run_state (execute ref_tools \<lparr>tools_table = [fetch_row], next_tool_id = 2\<rparr>
     \<lparr>tools_table = [], next_tool_id = 2\<rparr> None WEB_FETCH ''{}'') \<lparr>trace = [], world = ()\<rparr>"

lemma public_address: "\<not> is_private_ip (V4 0x08080808)"
  by code_simp

lemma ref_guard:
  "u \<noteq> [] \<Longrightarrow> char_count u \<le> 4096 \<Longrightarrow>
    run_state (ensure_public_url ref_network u) n = (Inr (), n\<lparr>trace := trace n @ [Guarded u]\<rparr>)"
  using public_address
  by (simp add: ensure_public_url_def attempted_def url_verdict_def MAX_URL_CHARS_def http_host_def host_verdict_def
      names_this_host_def ends_with_def eq_ignore_ascii_case_def public_ip_def record_event_def ref_network_def)

lemma ref_get:
  "run_state (get_guarded ref_network u h t) n =
    (Inl (readable_send_failure u too_late),
     n\<lparr>trace := trace n @ [Requested u (hop_headers ref_network u u h)], world := ()\<rparr>)"
  by (simp add: get_guarded_def hop_request_def record_event_def in_world_def ref_network_def)

lemma fetching_trace: "trace (snd fetching) = [Guarded ''u'', Requested ''u'' []]"
proof -
  have u: "char_count ''u'' = 1" by code_simp
  show ?thesis
    by (simp add: fetching_def execute_def find_tool_def in_circulation_def fetch_row_def draft_row_def submitted_def
        run_tool_def run_system_tool_def as_outcome_def attempted_def run_web_fetch_def checked_urls_def ref_guard u
        fetch_richest_def race_on_def attempt_of_def fetch_def ref_get ref_tools_def ref_arena_def hop_headers_def
        WEB_FETCH_def WEB_SEARCH_def MAX_URLS_def split: sum.split)
qed


lemma race_takes_what_there_is_witness:
  "length (taken (race show_nat (\<lambda>_ _. 0) [(''a'', OutOfTime), (''b'', Ended (Inr (5 :: nat)))] 2 2 1)) = 1"
  using race_takes_what_there_is [of "[(''a'', OutOfTime), (''b'', Ended (Inr (5 :: nat)))]" show_nat "\<lambda>_ _. 0" 2 2 1]
  by (simp add: race_attempt_def)

definition asked :: "(string + page_response) \<times> unit net" where
  "asked = run_state (get_guarded ref_network ''u'' [(''Cookie'', ''c'')] 1) \<lparr>trace = [], world = ()\<rparr>"

lemma asked_trace: "trace (snd asked) = [Requested ''u'' [(''Cookie'', ''c'')]]"
proof -
  have "same_origin ref_network ''u'' ''u''" by (simp add: same_origin_def origin_of_def ref_network_def)
  then show ?thesis by (simp add: asked_def ref_get hop_headers_def)
qed

theorem bound_headers_stay_on_their_origin_witness: "same_origin ref_network ''u'' ''u''"
proof (rule bound_headers_stay_on_their_origin [OF prod.collapse [symmetric, of asked, unfolded asked_def], folded asked_def])
  show "Requested ''u'' [(''Cookie'', ''c'')] \<in> set (drop (length (trace (\<lparr>trace = [], world = ()\<rparr> :: unit net)))
      (trace (snd asked)))" by (simp add: asked_trace)
  show "is_bound_to_its_origin ''Cookie''" by code_simp
qed simp

lemma argument_cannot_deepen_the_pick_witness:
  "length (split_on PATH_SEPARATOR ''rates.EUR'') \<le> length (split_on PATH_SEPARATOR ''rates.{to}'')"
proof (rule argument_cannot_deepen_the_pick)
  show "fill_path ref_rows ''rates.{to}'' (json_object [(''to'', String ''EUR'')]) = Inr ''rates.EUR''" by code_simp
qed

lemma ref_serializer: "form_serializer (byte_serialize ref_rows)"
  by (auto simp: form_serializer_def ref_rows_def)

theorem argument_stays_inside_its_place_witness:
  "length (filter ((=) CHR ''/'') ''https://h/%'') \<le> length (filter ((=) CHR ''/'') ''https://h/{q}'')"
proof (rule argument_stays_inside_its_place [OF ref_serializer])
  show "fill ref_rows ''https://h/{q}'' (json_object [(''q'', String ''a/../b'')]) = Inr ''https://h/%''" by code_simp
qed (simp_all add: unreserved_def)

lemma dot_segment_survives_encoding_witness:
  "fill ref_rows ''https://api.test/v1/items/{id}/price'' (json_object [(''id'', String ''..'')]) =
    Inr ''https://api.test/v1/items/../price''"
  by (rule dot_segment_survives_encoding [OF ref_serializer]) simp

definition ref_row :: source_set where
  "ref_row = \<lparr>fan_out = 1, enough = 1, sources =
     [\<lparr>source_name = ''one'', source_url = ''u/${KEY}'', source_pick = ''a'', source_headers = []\<rparr>]\<rparr>"

lemma accepted_row_is_well_formed_witness: "row_ok (Object fmempty) (\<lambda>_. Some ''abc'') ref_row"
proof -
  have "parse_sources ref_rows Null (Object fmempty) = Inr ref_row" by code_simp
  from accepted_row_is_well_formed [OF this] show ?thesis by (simp add: ref_rows_def)
qed

definition failing_run :: "(string + json) \<times> unit net" where
  "failing_run = run_state (run_sources ref_network ref_rows ref_arena show_nat ref_row Null 1) \<lparr>trace = [], world = ()\<rparr>"

lemma race_one_failed: "taken (race show_nat (\<lambda>_ _. 0) [(nm, Ended (Inl e))] (Suc 0) (Suc 0) (Suc 0)) = []"
  by (simp add: race_def racing_failed race_attempt_def picked_def remove_nth_def note_failure_def)

theorem failure_quotes_no_secret_witness: "\<exists>e. fst failing_run = Inl e \<and> \<not> sublist ''abc'' e"
proof -
  have filled: "prepare_source ref_rows \<lparr>source_name = ''one'', source_url = ''u/${KEY}'', source_pick = ''a'', source_headers = []\<rparr>
      Null = (Inr \<lparr>prepared_source = \<lparr>source_name = ''one'', source_url = ''u/${KEY}'', source_pick = ''a'',
        source_headers = []\<rparr>, prepared_url = ''u/abc'', prepared_pick = ''a'', prepared_headers = []\<rparr>, [''abc''])"
    by code_simp
  have u: "char_count ''u/abc'' = 5" by code_simp
  have "isl (fst failing_run)"
    by (simp add: failing_run_def run_sources_def ref_row_def filled ref_guard u race_on_def ref_arena_def endings_def
        attempt_of_def asking_def ask_source_def attempted_def ref_get race_one_failed answered_values_def)
  then obtain e where e: "failing_run = (Inl e, snd failing_run)" by (metis isl_def prod.collapse)
  have "''abc'' \<in> set (snd (prepare_source ref_rows (hd (sources ref_row)) Null))" by code_simp
  from failure_quotes_no_secret [OF e [unfolded failing_run_def] _ this]
  have "\<not> sublist ''abc'' e" by (simp add: ref_row_def)
  moreover have "fst failing_run = Inl e" by (subst e) simp
  ultimately show ?thesis by blast
qed

lemma own_tool_hides_a_declarative_one_witness:
  "\<exists>e. run_state (execute ref_tools \<lparr>tools_table = [mine Active], next_tool_id = 2\<rparr>
     \<lparr>tools_table = [], next_tool_id = 2\<rparr> (Some 7) ''echo'' ''{}'') \<lparr>trace = [], world = ()\<rparr> =
     (Inr (OutcomeNotExecutable e), \<lparr>trace = [], world = ()\<rparr>)"
  using own_tool_hides_a_declarative_one [OF in_circulation_beside_a_review, of "mine Active" 7 ref_tools "''{}''" Null]
  by (simp add: list_tools_def submitted_def ref_tools_def)

section \<open>A system tool\<close>

abbreviation (input) "shared \<equiv> (draft_row 1 None system_definition 0)\<lparr>tl_status := Active, tl_name := ''Search'',
  tl_description := ''Searches'', tl_input_schema := Object fmempty\<rparr>"

lemma system_tool_seeded: "registry_step\<^sup>*\<^sup>* empty_registry (sys [shared] 2 [] [] [])"
proof -
  let ?draft = "draft_row 1 None system_definition 0"
  have "registry_step empty_registry (sys [?draft] 2 [] [] [])"
    using registry_step.startup [OF seeds.creates [OF checked(2), of "reg_db empty_registry" 0]]
    by (simp add: empty_registry_def create_tool_def insert_tool_def claims_reserved_slug_def)
  moreover have "registry_step (sys [?draft] 2 [] [] []) (sys [shared] 2 [] [] [])"
    using registry_step.startup [OF seeds.activates [of "reg_db (sys [?draft] 2 [] [] [])" KB_SEARCH ?draft system_description]]
    by (simp add: system_row_def draft_row_def system_definition_def activate_without_llm_review_def update_tool_def
        update_where_def system_description_def)
  ultimately show ?thesis by (auto intro: rtranclp.rtrancl_into_rtrancl)
qed

definition searching :: "(tool_error + execute_outcome) \<times> unit net" where
  "searching = run_state (execute ref_tools \<lparr>tools_table = [shared], next_tool_id = 2\<rparr>
     \<lparr>tools_table = [], next_tool_id = 2\<rparr> None KB_SEARCH ''{}'') \<lparr>trace = [], world = ()\<rparr>"

theorem only_readonly_system_tools_run_witness:
  "\<exists>r \<in> set (list_tools \<lparr>tools_table = [shared], next_tool_id = 2\<rparr> None).
     tl_slug r = KB_SEARCH \<and> tl_user r = None \<and> tl_risk r = ReadOnly"
proof -
  have "fst searching = Inr (OutcomeOk (Array []))" by code_simp
  then have s: "searching = (Inr (OutcomeOk (Array [])), snd searching)" by (metis prod.collapse)
  show ?thesis
    using only_readonly_system_tools_run [OF system_tool_seeded, where db_later = "\<lparr>tools_table = [], next_tool_id = 2\<rparr>",
        simplified, OF s [unfolded searching_def]] by simp
qed

end
