(* ===== verification/Kb_Ranking.thy ===== *)
theory Kb_Ranking
  imports Kb_Text Complex_Main "HOL-Library.Multiset" "HOL-Library.Product_Lexorder" "HOL-Library.AList"
begin

text \<open>
  \<^verbatim>\<open>services/knowledge-base/src/store/ranking.rs\<close>: the fusion of independent rankings and the choice of
  one passage per document. A score is the rational the code computes in floating point. The order in
  which a hash map hands out its values is a parameter, \<open>iter\<close>, of which only that it is a permutation
  is known. Shown: what a fused score adds up, that the ranking does not depend on the hash map, and that
  the choice keeps the best passage of each of the best documents.
\<close>

record passage =
  chunk_id :: int
  document_id :: int
  ordinal :: int
  passage_content :: string
  passage_source :: string
  passage_source_id :: string
  passage_title :: string
  passage_summary :: string
  passage_page_type :: page_type
  passage_keywords :: "string list"
  passage_updated_at :: instant
  passage_hash :: string

record ranked =
  ranked_passage :: passage
  score :: rat

definition RECIPROCAL_RANK_FUSION_K :: rat where "RECIPROCAL_RANK_FUSION_K = 60"

definition contribution :: "nat \<Rightarrow> rat" where
  "contribution index = 1 / (RECIPROCAL_RANK_FUSION_K + of_nat (index + 1))"

text \<open>\<^verbatim>\<open>entry(passage.chunk_id).and_modify(\<dots>).or_insert(\<dots>)\<close>.\<close>

definition fuse_entry :: "nat \<times> passage \<Rightarrow> (int \<times> ranked) list \<Rightarrow> (int \<times> ranked) list" where
  "fuse_entry = (\<lambda>(index, passage) fused.
     case map_of fused (chunk_id passage) of
       Some r \<Rightarrow> AList.update (chunk_id passage) (r\<lparr>score := score r + contribution index\<rparr>) fused
     | None \<Rightarrow> AList.update (chunk_id passage)
         \<lparr>ranked_passage = passage, score = contribution index\<rparr> fused)"

definition fuse_list :: "passage list \<Rightarrow> (int \<times> ranked) list \<Rightarrow> (int \<times> ranked) list" where
  "fuse_list list fused = fold fuse_entry (enumerate 0 list) fused"

text \<open>\<^verbatim>\<open>best_score_first\<close> as the key it compares: the higher score first, then the lower chunk id.\<close>

definition best_score_first :: "ranked \<Rightarrow> rat \<times> int" where
  "best_score_first r = (- score r, chunk_id (ranked_passage r))"

definition fuse :: "(ranked list \<Rightarrow> ranked list) \<Rightarrow> passage list list \<Rightarrow> ranked list" where
  "fuse iter ranked_lists = sort_key best_score_first (iter (map snd (fold fuse_list ranked_lists [])))"

fun first_seen :: "int set \<Rightarrow> ranked list \<Rightarrow> ranked list" where
  "first_seen seen [] = []"
| "first_seen seen (r # rs) =
     (if document_id (ranked_passage r) \<in> seen then first_seen seen rs
      else r # first_seen (insert (document_id (ranked_passage r)) seen) rs)"

definition best_per_document :: "ranked list \<Rightarrow> nat \<Rightarrow> ranked list" where
  "best_per_document rs limit = take limit (first_seen {} rs)"

text \<open>The title passages: the score of a document and its fallback, both the last one told.\<close>

definition title_entries :: "passage list \<Rightarrow> (int \<times> rat \<times> passage) list" where
  "title_entries titles =
     fold (\<lambda>(index, passage). AList.update (document_id passage) (contribution index, passage))
       (enumerate 0 titles) []"

text \<open>The loop over the fused passages: each takes the score of its title, whose fallback goes.\<close>

fun boost :: "(int \<Rightarrow> rat option) \<Rightarrow> ranked list \<Rightarrow> (int \<times> rat \<times> passage) list
    \<Rightarrow> ranked list \<times> (int \<times> rat \<times> passage) list" where
  "boost title_scores [] fallbacks = ([], fallbacks)"
| "boost title_scores (r # rs) fallbacks =
     (case title_scores (document_id (ranked_passage r)) of
        Some s \<Rightarrow>
          (let (rs', fallbacks') =
             boost title_scores rs (AList.delete (document_id (ranked_passage r)) fallbacks) in
           (r\<lparr>score := score r + s\<rparr> # rs', fallbacks'))
      | None \<Rightarrow> (let (rs', fallbacks') = boost title_scores rs fallbacks in (r # rs', fallbacks')))"

definition fuse_with_document_titles ::
  "(ranked list \<Rightarrow> ranked list) \<Rightarrow> ((int \<times> rat \<times> passage) list \<Rightarrow> (int \<times> rat \<times> passage) list)
    \<Rightarrow> passage list list \<Rightarrow> passage list \<Rightarrow> ranked list" where
  "fuse_with_document_titles iter iter_fallbacks passage_lists title_passages =
     (let titles = title_entries title_passages;
          title_scores = map_option fst \<circ> map_of titles;
          (boosted, fallbacks) = boost title_scores (fuse iter passage_lists) titles in
      sort_key best_score_first
        (boosted @ map (\<lambda>(_, s, passage). \<lparr>ranked_passage = passage, score = s\<rparr>) (iter_fallbacks fallbacks)))"

section \<open>The fused entries\<close>

text \<open>The score of a chunk in one list: what its ranks there contribute.\<close>

definition list_score :: "passage list \<Rightarrow> int \<Rightarrow> rat" where
  "list_score list c = (\<Sum>i \<leftarrow> filter (\<lambda>i. chunk_id (list ! i) = c) [0..<length list]. contribution i)"

definition entries_ok :: "(int \<times> ranked) list \<Rightarrow> bool" where
  "entries_ok fused \<longleftrightarrow>
     distinct (map fst fused) \<and> (\<forall>k r. map_of fused k = Some r \<longrightarrow> chunk_id (ranked_passage r) = k)"

definition entry_score :: "(int \<times> ranked) list \<Rightarrow> int \<Rightarrow> rat" where
  "entry_score fused c = (case map_of fused c of Some r \<Rightarrow> score r | None \<Rightarrow> 0)"

lemma fuse_entry_ok: "entries_ok fused \<Longrightarrow> entries_ok (fuse_entry (i, p) fused)"
  by (auto simp: entries_ok_def fuse_entry_def distinct_update update_conv' simp del: map_of_eq_Some_iff
      split: option.splits if_splits)

lemma fuse_entry_score:
  "entry_score (fuse_entry (i, p) fused) c
    = entry_score fused c + (if chunk_id p = c then contribution i else 0)"
  by (auto simp: entry_score_def fuse_entry_def update_conv' split: option.splits)

lemma fuse_entry_chunks:
  "fst ` set (fuse_entry (i, p) fused) = insert (chunk_id p) (fst ` set fused)"
  by (auto simp: fuse_entry_def dom_update split: option.splits)

lemma fuse_entries:
  "entries_ok fused \<Longrightarrow>
     entries_ok (fold fuse_entry (enumerate n list) fused)
     \<and> entry_score (fold fuse_entry (enumerate n list) fused) c
        = entry_score fused c
          + (\<Sum>i \<leftarrow> filter (\<lambda>i. chunk_id (list ! i) = c) [0..<length list]. contribution (n + i))
     \<and> fst ` set (fold fuse_entry (enumerate n list) fused) = chunk_id ` set list \<union> fst ` set fused"
proof (induction list arbitrary: n fused)
  case (Cons p list)
  have shift: "(\<Sum>i \<leftarrow> filter (\<lambda>i. chunk_id ((p # list) ! i) = c) [Suc 0..<Suc (length list)]. contribution (n + i))
      = (\<Sum>i \<leftarrow> filter (\<lambda>i. chunk_id (list ! i) = c) [0..<length list]. contribution (Suc n + i))"
    by (simp add: map_Suc_upt [symmetric] filter_map comp_def del: upt_Suc map_Suc_upt)
  have "[0..<length (p # list)] = 0 # [Suc 0..<Suc (length list)]" by (simp add: upt_conv_Cons del: upt_Suc)
  then have split: "(\<Sum>i \<leftarrow> filter (\<lambda>i. chunk_id ((p # list) ! i) = c) [0..<length (p # list)]. contribution (n + i))
      = (if chunk_id p = c then contribution n else 0)
        + (\<Sum>i \<leftarrow> filter (\<lambda>i. chunk_id (list ! i) = c) [0..<length list]. contribution (Suc n + i))"
    using shift by simp
  show ?case
    using Cons.IH [of "fuse_entry (n, p) fused" "Suc n"] fuse_entry_ok [OF Cons.prems] 
    unfolding split by (simp add: fuse_entry_score fuse_entry_chunks del: upt_Suc) 
qed simp

lemma fuse_lists:
  "entries_ok fused \<Longrightarrow>
     entries_ok (fold fuse_list rankings fused)
     \<and> entry_score (fold fuse_list rankings fused) c
        = entry_score fused c + (\<Sum>list \<leftarrow> rankings. list_score list c)
     \<and> fst ` set (fold fuse_list rankings fused) = (\<Union>list\<in>set rankings. chunk_id ` set list) \<union> fst ` set fused"
proof (induction rankings arbitrary: fused)
  case (Cons list rankings)
  from fuse_entries [OF Cons.prems, of 0 list] Cons.IH [of "fuse_list list fused"]
  show ?case by (auto simp: fuse_list_def list_score_def)
qed simp

section \<open>The fused ranking\<close>

definition permutes :: "('a list \<Rightarrow> 'a list) \<Rightarrow> bool" where
  "permutes iter \<longleftrightarrow> (\<forall>xs. mset (iter xs) = mset xs)"

lemma permutes_id [simp]: "permutes (\<lambda>xs. xs)" "permutes rev"
  by (simp_all add: permutes_def)

lemma permutes_set: "permutes iter \<Longrightarrow> set (iter xs) = set xs"
  unfolding permutes_def by (metis set_mset_mset)

abbreviation "entries rankings \<equiv> fold fuse_list rankings []"
abbreviation "chunk_of r \<equiv> chunk_id (ranked_passage r)"
abbreviation "document_of r \<equiv> document_id (ranked_passage r)"

lemma entries_spec:
  "entries_ok (entries rankings)"
  "entry_score (entries rankings) c = (\<Sum>list \<leftarrow> rankings. list_score list c)"
  "fst ` set (entries rankings) = (\<Union>list\<in>set rankings. chunk_id ` set list)"
  using fuse_lists [of "[]" rankings c] by (simp_all add: entries_ok_def entry_score_def)

lemma entries_member:
  "(k, r) \<in> set (entries rankings) \<Longrightarrow> chunk_of r = k \<and> map_of (entries rankings) k = Some r"
  using entries_spec(1) [of rankings] by (auto simp: entries_ok_def)

lemma set_fuse: "permutes iter \<Longrightarrow> set (fuse iter rankings) = snd ` set (entries rankings)"
  by (simp add: fuse_def permutes_set)

lemma fused_score:
  assumes "permutes iter" and "r \<in> set (fuse iter rankings)"
  shows "score r = (\<Sum>list \<leftarrow> rankings. list_score list (chunk_of r))"
proof -
  from assms obtain k where "(k, r) \<in> set (entries rankings)" by (auto simp: set_fuse)
  with entries_member [OF this] entries_spec(2) [of rankings k] show ?thesis by (simp add: entry_score_def)
qed

lemma fused_chunks:
  assumes "permutes iter"
  shows "chunk_of ` set (fuse iter rankings) = (\<Union>list\<in>set rankings. chunk_id ` set list)"
proof -
  have "chunk_of ` snd ` set (entries rankings) = fst ` set (entries rankings)"
    by (force dest: entries_member)
  then show ?thesis using assms by (simp add: set_fuse entries_spec(3))
qed

lemma distinct_entry_chunks: "distinct (map chunk_of (map snd (entries rankings)))"
proof -
  have "map (chunk_of \<circ> snd) (entries rankings) = map fst (entries rankings)"
    by (auto dest: entries_member)
  moreover have "distinct (map fst (entries rankings))"
    using entries_spec(1) [of rankings] unfolding entries_ok_def by blast
  ultimately have "distinct (map (chunk_of \<circ> snd) (entries rankings))" by (simp only:)
  then show ?thesis by simp
qed

lemma inj_on_key: "distinct (map chunk_of rs) \<Longrightarrow> inj_on best_score_first (set rs)"
  by (auto simp: distinct_map best_score_first_def inj_on_def)

lemma sort_permuted:
  assumes "permutes iter" and "distinct (map chunk_of rs)"
  shows "sort_key best_score_first (iter rs) = sort_key best_score_first rs"
  using assms inj_on_key [OF assms(2)]
  by (intro sort_key_inj_key_eq) (simp_all add: permutes_def permutes_set)

lemma fuse_permuted: "permutes iter \<Longrightarrow> fuse iter rankings = fuse (\<lambda>xs. xs) rankings"
  by (simp add: fuse_def sort_permuted [OF _ distinct_entry_chunks] del: map_map)

lemma distinct_fuse: "distinct (map chunk_of (fuse (\<lambda>xs. xs) rankings))"
proof -
  have "mset (map chunk_of (fuse (\<lambda>xs. xs) rankings)) = mset (map chunk_of (map snd (entries rankings)))"
    by (simp add: fuse_def multiset.map_comp comp_def)
  then show ?thesis using distinct_entry_chunks mset_eq_imp_distinct_iff by blast
qed

lemma fused_passages:
  "r \<in> set (fuse (\<lambda>xs. xs) rankings) \<Longrightarrow> ranked_passage r \<in> (\<Union>list\<in>set rankings. set list)"
proof -
  have entry: "snd ` set (fuse_entry (i, p) fused) \<subseteq> {r. ranked_passage r \<in> P}"
    if "p \<in> P" "snd ` set fused \<subseteq> {r. ranked_passage r \<in> P}" for i p fused P
  proof -
    have "snd ` set (AList.update k v fused) \<subseteq> insert v (snd ` set fused)" for k v
      by (induction fused) auto
    moreover have "map_of fused k = Some r \<Longrightarrow> ranked_passage r \<in> P" for k r
      using that(2) by (force dest: map_of_SomeD)
    ultimately show ?thesis using that
      by (fastforce simp: fuse_entry_def split: option.splits)
  qed
  have list: "snd ` set (fold fuse_entry (enumerate n list) fused) \<subseteq> {r. ranked_passage r \<in> P}"
    if "set list \<subseteq> P" "snd ` set fused \<subseteq> {r. ranked_passage r \<in> P}" for n list fused P
    using that by (induction list arbitrary: n fused) (simp_all add: entry)
  have "snd ` set (fold fuse_list ls fused) \<subseteq> {r. ranked_passage r \<in> P}"
    if "(\<Union>list\<in>set ls. set list) \<subseteq> P" "snd ` set fused \<subseteq> {r. ranked_passage r \<in> P}" for ls fused P
    using that by (induction ls arbitrary: fused) (simp_all add: fuse_list_def list)
  from this [of rankings "\<Union>list\<in>set rankings. set list" "[]"]
  show "r \<in> set (fuse (\<lambda>xs. xs) rankings) \<Longrightarrow> ?thesis" by (auto simp: set_fuse)
qed

section \<open>One passage per document\<close>

lemma set_first_seen: "set (first_seen seen rs) \<subseteq> set rs"
  by (induction seen rs rule: first_seen.induct) auto

lemma first_seen_documents:
  "distinct (map document_of (first_seen seen rs)) \<and> document_of ` set (first_seen seen rs) \<inter> seen = {}"
  by (induction seen rs rule: first_seen.induct) auto

lemma first_seen_best:
  "sorted (map best_score_first rs) \<Longrightarrow> r \<in> set rs \<Longrightarrow> document_of r \<notin> seen \<Longrightarrow>
     \<exists>r'\<in>set (first_seen seen rs). document_of r' = document_of r \<and> best_score_first r' \<le> best_score_first r"
proof (induction seen rs rule: first_seen.induct)
  case (2 seen r0 rs)
  show ?case
  proof (cases "r = r0 \<or> document_of r = document_of r0")
    case True
    then have "best_score_first r0 \<le> best_score_first r" using 2(3,4) by auto
    then show ?thesis using True 2(5) by auto
  next
    case False
    then show ?thesis using 2 by (cases "document_of r0 \<in> seen") auto
  qed
qed simp

lemma sorted_first_seen:
  "sorted (map best_score_first rs) \<Longrightarrow> sorted (map best_score_first (first_seen seen rs))"
  by (induction seen rs rule: first_seen.induct) (use set_first_seen in fastforce)+

lemma best_per_document_documents: "distinct (map document_of (best_per_document rs limit))"
  using first_seen_documents [of "{}" rs] by (simp add: best_per_document_def take_map [symmetric])

lemma best_per_document_best:
  assumes "sorted (map best_score_first rs)" and "r \<in> set rs"
  shows "(\<exists>r'\<in>set (best_per_document rs limit).
             document_of r' = document_of r \<and> best_score_first r' \<le> best_score_first r)
    \<or> (length (best_per_document rs limit) = limit
        \<and> (\<forall>r'\<in>set (best_per_document rs limit). best_score_first r' \<le> best_score_first r))"
proof -
  let ?fs = "first_seen {} rs"
  from first_seen_best [OF assms] obtain r' where r': "r' \<in> set ?fs" "document_of r' = document_of r"
    "best_score_first r' \<le> best_score_first r" by auto
  then consider "r' \<in> set (take limit ?fs)" | "r' \<in> set (drop limit ?fs)"
    by (metis Un_iff append_take_drop_id set_append)
  then show ?thesis
  proof cases
    case 1
    then show ?thesis using r' by (auto simp: best_per_document_def)
  next
    case 2
    have "sorted (map best_score_first (take limit ?fs @ drop limit ?fs))"
      using sorted_first_seen [OF assms(1)] by simp
    then have "\<forall>q\<in>set (take limit ?fs). best_score_first q \<le> best_score_first r'"
      using 2 by (simp only: map_append sorted_append) auto
    moreover have "length (take limit ?fs) = limit" using 2 by (cases "limit < length ?fs") auto
    ultimately show ?thesis using r'(3) by (auto simp: best_per_document_def intro: order.trans)
  qed
qed

section \<open>Titles\<close>

definition boosted :: "(int \<Rightarrow> rat option) \<Rightarrow> ranked \<Rightarrow> ranked" where
  "boosted title_scores r =
     (case title_scores (document_of r) of Some s \<Rightarrow> r\<lparr>score := score r + s\<rparr> | None \<Rightarrow> r)"

lemma boosted_passage [simp]: "ranked_passage (boosted ts r) = ranked_passage r"
  by (simp add: boosted_def split: option.split)

lemma boost_eq:
  "boost ts rs fallbacks =
     (map (boosted ts) rs,
      filter (\<lambda>(d, _). \<not> (ts d \<noteq> None \<and> d \<in> document_of ` set rs)) fallbacks)"
proof (induction ts rs fallbacks rule: boost.induct)
  case (2 ts r rs fallbacks)
  show ?case
  proof (cases "ts (document_of r)")
    case (Some s)
    have "boost ts (r # rs) fallbacks = (boosted ts r # map (boosted ts) rs,
        filter (\<lambda>(d, _). \<not> (ts d \<noteq> None \<and> d \<in> document_of ` set rs)) (AList.delete (document_of r) fallbacks))"
      using Some 2(2) [OF Some] by (simp add: boosted_def)
    then show ?thesis using Some by (auto simp: AList.delete_eq intro!: filter_cong)
  next
    case None
    then show ?thesis using 2(1) [OF None] by (auto simp: boosted_def intro!: filter_cong)
  qed
qed simp

lemma title_entries_spec:
  "distinct (map fst (title_entries titles))"
  "(d, s, p) \<in> set (title_entries titles) \<Longrightarrow> document_id p = d \<and> p \<in> set titles"
  "fst ` set (title_entries titles) = document_id ` set titles"
proof -
  let ?put = "\<lambda>(index, passage :: passage). AList.update (document_id passage) (contribution index, passage)"
  have ind: "distinct (map fst es) \<Longrightarrow> (\<forall>(d, s, p) \<in> set es. document_id p = d \<and> p \<in> P) \<Longrightarrow> set ps \<subseteq> P \<Longrightarrow>
      distinct (map fst (fold ?put (enumerate n ps) es))
      \<and> (\<forall>(d, s, p) \<in> set (fold ?put (enumerate n ps) es). document_id p = d \<and> p \<in> P)
      \<and> fst ` set (fold ?put (enumerate n ps) es) = document_id ` set ps \<union> fst ` set es" for ps :: "passage list" and es n P
  proof (induction ps arbitrary: es n)
    case (Cons q ps)
    have "set (AList.update k v es) \<subseteq> insert (k, v) (set es)" for k and v :: "rat \<times> passage"
      by (induction es) auto
    then have "\<forall>(d, s, p) \<in> set (AList.update (document_id q) (contribution n, q) es). document_id p = d \<and> p \<in> P"
      using Cons.prems by fastforce
    with Cons.IH [of "AList.update (document_id q) (contribution n, q) es" "Suc n"] Cons.prems
    show ?case by (auto simp: distinct_update dom_update)
  qed simp
  from ind [of "[]" "set titles" titles 0]
  show "distinct (map fst (title_entries titles))"
    "(d, s, p) \<in> set (title_entries titles) \<Longrightarrow> document_id p = d \<and> p \<in> set titles"
    "fst ` set (title_entries titles) = document_id ` set titles"
    by (auto simp: title_entries_def)
qed

lemma fallback_score:
  "(d, s, p) \<in> set (title_entries titles) \<Longrightarrow> map_of (title_entries titles) d = Some (s, p)"
  using title_entries_spec(1) by simp

text \<open>A chunk belongs to one document, among all the passages retrieved.\<close>

definition chunks_of_documents :: "passage set \<Rightarrow> bool" where
  "chunks_of_documents P \<longleftrightarrow> (\<forall>p\<in>P. \<forall>q\<in>P. chunk_id p = chunk_id q \<longrightarrow> document_id p = document_id q)"

abbreviation "title_scores_of titles \<equiv> map_option fst \<circ> map_of (title_entries titles)"

definition fallback_ranked :: "int \<times> rat \<times> passage \<Rightarrow> ranked" where
  "fallback_ranked = (\<lambda>(_, s, passage). \<lparr>ranked_passage = passage, score = s\<rparr>)"

definition by_title_alone :: "passage list list \<Rightarrow> passage list \<Rightarrow> (int \<times> rat \<times> passage) list" where
  "by_title_alone rankings titles =
     filter (\<lambda>(d, _). d \<notin> document_of ` set (fuse (\<lambda>xs. xs) rankings)) (title_entries titles)"

text \<open>All candidates, before they are sorted and with no hash map.\<close>

definition candidates :: "passage list list \<Rightarrow> passage list \<Rightarrow> ranked list" where
  "candidates rankings titles =
     map (boosted (title_scores_of titles)) (fuse (\<lambda>xs. xs) rankings)
     @ map fallback_ranked (by_title_alone rankings titles)"

lemma kept_fallbacks:
  "filter (\<lambda>(d, _). \<not> (title_scores_of titles d \<noteq> None
        \<and> d \<in> document_of ` set (fuse (\<lambda>xs. xs) rankings))) (title_entries titles)
    = by_title_alone rankings titles"
  unfolding by_title_alone_def by (rule filter_cong) (auto simp: fallback_score)

lemma fuse_titles_eq:
  assumes "permutes iter"
  shows "fuse_with_document_titles iter iterf rankings titles =
     sort_key best_score_first
       (map (boosted (title_scores_of titles)) (fuse (\<lambda>xs. xs) rankings)
        @ map fallback_ranked (iterf (by_title_alone rankings titles)))"
  unfolding fuse_with_document_titles_def boost_eq fuse_permuted [OF assms] Let_def prod.case
    kept_fallbacks fallback_ranked_def ..

lemma inj_on_alone:
  assumes "chunks_of_documents P" and "Q \<subseteq> P" and "inj_on document_id Q"
  shows "inj_on chunk_id Q"
  using assms unfolding chunks_of_documents_def inj_on_def by blast

lemma distinct_alone:
  assumes "chunks_of_documents ((\<Union>list\<in>set rankings. set list) \<union> set titles)"
  shows "distinct (map chunk_of (map fallback_ranked (by_title_alone rankings titles)))"
proof -
  let ?alone = "by_title_alone rankings titles"
  have member: "document_id (snd (snd e)) = fst e \<and> snd (snd e) \<in> set titles" if "e \<in> set ?alone" for e
  proof -
    obtain d s p where "e = (d, s, p)" by (rule prod_cases3)
    with that title_entries_spec(2) show ?thesis by (auto simp: by_title_alone_def)
  qed
  have "distinct (map fst ?alone)"
    using title_entries_spec(1) [of titles] unfolding by_title_alone_def by (simp add: distinct_map_filter)
  moreover have "map fst ?alone = map document_id (map (snd \<circ> snd) ?alone)" using member by simp
  ultimately have d: "distinct (map document_id (map (snd \<circ> snd) ?alone))" by simp
  have "set (map (snd \<circ> snd) ?alone) \<subseteq> (\<Union>list\<in>set rankings. set list) \<union> set titles"
    using member by fastforce
  then have "inj_on chunk_id (set (map (snd \<circ> snd) ?alone))"
    by (rule inj_on_alone [OF assms]) (use d in \<open>simp only: distinct_map\<close>)
  with d have "distinct (map chunk_id (map (snd \<circ> snd) ?alone))" unfolding distinct_map by blast
  moreover have "map chunk_of (map fallback_ranked es) = map chunk_id (map (snd \<circ> snd) es)" for es
    by (simp add: fallback_ranked_def case_prod_beta)
  ultimately show ?thesis by (simp only:)
qed

lemma distinct_candidates:
  assumes "chunks_of_documents ((\<Union>list\<in>set rankings. set list) \<union> set titles)"
  shows "distinct (map chunk_of (candidates rankings titles))"
proof -
  let ?ranked = "fuse (\<lambda>xs. xs) rankings" and ?alone = "by_title_alone rankings titles"
  have "chunk_of r \<noteq> chunk_id p" if r: "r \<in> set ?ranked" and p: "(d, s, p) \<in> set ?alone" for r d s p
  proof
    assume "chunk_of r = chunk_id p"
    moreover have "p \<in> set titles" "document_id p = d" "d \<notin> document_of ` set ?ranked"
      using p title_entries_spec(2) by (auto simp: by_title_alone_def)
    ultimately have "document_of r = d"
      using assms fused_passages [OF r] unfolding chunks_of_documents_def by blast
    with r \<open>d \<notin> document_of ` set ?ranked\<close> show False by blast
  qed
  then have "set (map chunk_of ?ranked) \<inter> set (map chunk_of (map fallback_ranked ?alone)) = {}"
    by (auto simp: fallback_ranked_def)
  moreover have same: "map chunk_of (map (boosted ts) rs) = map chunk_of rs" for ts rs by simp
  ultimately show ?thesis
    using distinct_alone [OF assms] distinct_fuse [of rankings]
    unfolding candidates_def map_append distinct_append same by blast
qed

lemma fuse_titles_permuted:
  assumes "permutes iter" and "permutes iterf"
    and "chunks_of_documents ((\<Union>list\<in>set rankings. set list) \<union> set titles)"
  shows "fuse_with_document_titles iter iterf rankings titles
    = sort_key best_score_first (candidates rankings titles)"
proof -
  have m: "mset (map (boosted (title_scores_of titles)) (fuse (\<lambda>xs. xs) rankings)
        @ map fallback_ranked (iterf (by_title_alone rankings titles))) = mset (candidates rankings titles)"
    using assms(2) by (simp add: candidates_def permutes_def)
  show ?thesis
    unfolding fuse_titles_eq [OF assms(1)]
  proof (rule sort_key_inj_key_eq)
    show "inj_on best_score_first (set (map (boosted (title_scores_of titles)) (fuse (\<lambda>xs. xs) rankings)
        @ map fallback_ranked (iterf (by_title_alone rankings titles))))"
      using inj_on_key [OF distinct_candidates [OF assms(3)]] mset_eq_setD [OF m] by simp
  qed (use m in simp_all)
qed

section \<open>The results of a search\<close>

lemma sorted_fuse_titles:
  "sorted (map best_score_first (fuse_with_document_titles iter iterf rankings titles))"
  by (simp add: fuse_with_document_titles_def case_prod_beta Let_def)

lemma sorted_best_per_document:
  "sorted (map best_score_first rs) \<Longrightarrow> sorted (map best_score_first (best_per_document rs limit))"
  unfolding best_per_document_def take_map [symmetric] by (intro sorted_wrt_take sorted_first_seen)

lemma set_best_per_document: "set (best_per_document rs limit) \<subseteq> set rs"
  using set_first_seen [of "{}" rs] set_take_subset [of limit] by (fastforce simp: best_per_document_def)

lemma length_best_per_document: "length (best_per_document rs limit) \<le> limit"
  by (simp add: best_per_document_def)

text \<open>The documents found: by a passage or by their title.\<close>

lemma documents_of_candidates:
  assumes "permutes iter" and "permutes iterf"
  shows "document_of ` set (fuse_with_document_titles iter iterf rankings titles)
    = document_of ` set (fuse (\<lambda>xs. xs) rankings) \<union> document_id ` set titles"
proof -
  have alone: "document_of (fallback_ranked e) = fst e" if "e \<in> set (title_entries titles)" for e
    using that title_entries_spec(2) by (cases e rule: prod_cases3) (auto simp: fallback_ranked_def)
  have "set (by_title_alone rankings titles) \<subseteq> set (title_entries titles)" by (auto simp: by_title_alone_def)
  then have "document_of ` fallback_ranked ` set (by_title_alone rankings titles) = fst ` set (by_title_alone rankings titles)"
    unfolding image_image by (intro image_cong refl alone) auto
  also have "\<dots> = document_id ` set titles - document_of ` set (fuse (\<lambda>xs. xs) rankings)"
    unfolding title_entries_spec(3) [symmetric] by_title_alone_def by force
  finally show ?thesis
    unfolding fuse_titles_eq [OF assms(1)] using permutes_set [OF assms(2)]
    by (simp add: image_Un image_image)
qed

end
