(* ===== verification/Kb_Clients.thy ===== *)
theory Kb_Clients
  imports Kb_Store Json
begin

text \<open>
  \<^verbatim>\<open>llm_client.rs\<close>, \<^verbatim>\<open>llm_router_client.rs\<close> and \<^verbatim>\<open>embedder_client.rs\<close> of the knowledge base: what it
  asks of the model router (the page type, keywords and summary of a content) and of the embedder (a
  vector), and what it makes of their answers. The router, the embedder behind its HTTP client and
  the JSON reader are parameters; an answer may depend on everything that was asked before it. Shown: an
  accepted embedding has the dimensions of its column and finite components, an enrichment fits its columns
  whatever the model said, and an oversized reply is refused without being kept.
\<close>

section \<open>What is asked for\<close>

record enrichment =
  enriched_page_type :: page_type
  enriched_keywords :: "string list"
  enriched_summary :: string

record embedded =
  embedded_values :: "f32 list"
  model_used :: string

datatype embed_kind = StoredPassage | SearchQuery

text \<open>\<^verbatim>\<open>CompleteRequest\<close> as this client fills it: the low tier, and a JSON object as the answer.\<close>

datatype enrich_tier = LowTier
datatype enrich_format = JsonObjectFormat

record enrich_request =
  enrich_tier :: enrich_tier
  enrich_system_prompt :: string
  enrich_user_prompt :: string
  enrich_response_format :: "enrich_format option"

record embed_request =
  embed_url :: string
  embed_text :: string

datatype kb_event = Completed enrich_request | Embedded embed_request | Stored document_write

text \<open>
  An HTTP exchange with the embedder: the request fails (in time or not), or a status, the declared
  length and the chunks of the body arrive, the last perhaps an error.
\<close>

datatype embed_send_error = SendTimeout | SendError string

record embed_response =
  response_status :: nat
  response_status_line :: string
  declared_length :: "u64 option"
  response_chunks :: "(string + string) list"

record kb_platform =
  kb_unicode :: unicode
  sha256 :: "string \<Rightarrow> string"
  complete :: "kb_event list \<Rightarrow> enrich_request \<Rightarrow> string + string"
  post_json :: "kb_event list \<Rightarrow> embed_request \<Rightarrow> embed_send_error + embed_response"
  json_from_str :: "string \<Rightarrow> string + json"
  json_shape_error :: "string \<Rightarrow> string"
  to_f32 :: "number \<Rightarrow> f32"
  store_fault :: "kb_event list \<Rightarrow> nat \<Rightarrow> string option"
  kb_postgres :: postgres

section \<open>The embedder\<close>

definition MAX_EMBEDDER_RESPONSE_BYTES :: nat where "MAX_EMBEDDER_RESPONSE_BYTES = 256 * 1024"

text \<open>\<^verbatim>\<open>EmbedderClient::new\<close> keeps the address without its trailing slashes.\<close>

definition trimmed_base_url :: "string \<Rightarrow> string" where
  "trimmed_base_url address = rev (dropWhile (\<lambda>c. c = CHR ''/'') (rev address))"

fun embed_path :: "embed_kind \<Rightarrow> string" where
  "embed_path StoredPassage = ''/embed/document''"
| "embed_path SearchQuery = ''/embed/query''"

definition embedder_response_too_large :: string where
  "embedder_response_too_large =
     ''the embedder response is larger than '' @ show_nat MAX_EMBEDDER_RESPONSE_BYTES @ '' bytes''"

fun read_embed_chunks :: "string \<Rightarrow> (string + string) list \<Rightarrow> string + string" where
  "read_embed_chunks bytes [] = Inr bytes"
| "read_embed_chunks bytes (Inl error # rest) = Inl (''the embedder sent a reply we cannot read: '' @ error)"
| "read_embed_chunks bytes (Inr chunk # rest) =
     (if length chunk > MAX_EMBEDDER_RESPONSE_BYTES - length bytes then Inl embedder_response_too_large
      else read_embed_chunks (bytes @ chunk) rest)"

definition read_embedder_response :: "embed_response \<Rightarrow> string + string" where
  "read_embedder_response response =
     (case declared_length response of
        Some declared \<Rightarrow>
          (if unat declared > MAX_EMBEDDER_RESPONSE_BYTES then Inl embedder_response_too_large
           else read_embed_chunks [] (response_chunks response))
      | None \<Rightarrow> read_embed_chunks [] (response_chunks response))"

text \<open>
  The readers that \<^verbatim>\<open>derive(Deserialize)\<close> writes: a struct is read from an object, or from an array of its
  fields in their order; \<^verbatim>\<open>truncated\<close> may be missing.
\<close>

fun f32_field :: "kb_platform \<Rightarrow> json \<Rightarrow> f32 option" where
  "f32_field kp (Number n) = Some (to_f32 kp n)"
| "f32_field kp _ = None"

definition f32_list :: "kb_platform \<Rightarrow> json \<Rightarrow> f32 list option" where
  "f32_list kp v = Option.bind (as_array v) (\<lambda>xs. those (map (f32_field kp) xs))"

definition embed_fields :: "kb_platform \<Rightarrow> json option \<Rightarrow> json option \<Rightarrow> json option \<Rightarrow> embedded option" where
  "embed_fields kp values model truncated =
     Option.bind values (\<lambda>v. Option.bind (f32_list kp v) (\<lambda>xs.
     Option.bind model (\<lambda>m. Option.bind (as_str m) (\<lambda>used.
     (case truncated of None \<Rightarrow> Some \<lparr>embedded_values = xs, model_used = used\<rparr>
      | Some t \<Rightarrow> map_option (\<lambda>_. \<lparr>embedded_values = xs, model_used = used\<rparr>) (as_bool t))))))"

fun embed_response_of :: "kb_platform \<Rightarrow> json \<Rightarrow> embedded option" where
  "embed_response_of kp (Object m) =
     embed_fields kp (fmlookup m ''values'') (fmlookup m ''model_used'') (fmlookup m ''truncated'')"
| "embed_response_of kp (Array [v, m]) = embed_fields kp (Some v) (Some m) None"
| "embed_response_of kp (Array [v, m, t]) = embed_fields kp (Some v) (Some m) (Some t)"
| "embed_response_of kp _ = None"

fun embedder_error_of :: "json \<Rightarrow> string option" where
  "embedder_error_of (Object m) = Option.bind (fmlookup m ''error'') as_str"
| "embedder_error_of (Array [e]) = as_str e"
| "embedder_error_of _ = None"

definition validate_response :: "embedded \<Rightarrow> string + embedded" where
  "validate_response body =
     (if length (embedded_values body) \<noteq> EMBEDDING_DIMENSIONS
      then Inl (''the embedder returned '' @ show_nat (length (embedded_values body)) @ '' values; expected ''
                @ show_nat EMBEDDING_DIMENSIONS)
      else if Infinite \<in> set (embedded_values body) then Inl ''the embedder returned a non-finite value''
      else if char_count (model_used body) > MAX_EMBEDDING_MODEL_CHARS
      then Inl (''the embedder'' @ [CHR 0x27] @ ''s model name is longer than '' @ show_nat MAX_EMBEDDING_MODEL_CHARS
                @ '' characters'')
      else Inr body)"

definition read_embed_answer :: "kb_platform \<Rightarrow> string \<Rightarrow> string + embedded" where
  "read_embed_answer kp bytes =
     map_err (\<lambda>error. ''the embedder sent a reply we cannot read: '' @ error)
       (and_then (json_from_str kp bytes) (\<lambda>v. ok_or (json_shape_error kp bytes) (embed_response_of kp v)))"

definition embedder_failure :: "kb_platform \<Rightarrow> embed_response \<Rightarrow> string \<Rightarrow> string" where
  "embedder_failure kp response bytes =
     (case json_from_str kp bytes of
        Inr v \<Rightarrow> (case embedder_error_of v of Some detail \<Rightarrow> detail
          | None \<Rightarrow> ''the embedder answered '' @ response_status_line response)
      | Inl _ \<Rightarrow> ''the embedder answered '' @ response_status_line response)"

definition embed ::
  "kb_platform \<Rightarrow> string \<Rightarrow> string \<Rightarrow> embed_kind \<Rightarrow> kb_event list \<Rightarrow> (string + embedded) \<times> kb_event list" where
  "embed kp base_url content kind told_so_far =
     (let request = \<lparr>embed_url = trimmed_base_url base_url @ embed_path kind, embed_text = content\<rparr>;
          answer = (case post_json kp told_so_far request of
            Inl SendTimeout \<Rightarrow> Inl ''the native embedder did not answer in time''
          | Inl (SendError error) \<Rightarrow>
              Inl (''could not reach the native embedder at '' @ trimmed_base_url base_url @ '': '' @ error)
          | Inr response \<Rightarrow>
              and_then (read_embedder_response response) (\<lambda>bytes.
                if \<not> (200 \<le> response_status response \<and> response_status response < 300)
                then Inl (embedder_failure kp response bytes)
                else and_then (read_embed_answer kp bytes) validate_response)) in
      (answer, told_so_far @ [Embedded request]))"

section \<open>The model router\<close>

definition MAX_KEYWORDS :: nat where "MAX_KEYWORDS = 32"
definition MAX_KEYWORD_CHARS :: nat where "MAX_KEYWORD_CHARS = 64"
definition MAX_SUMMARY_CHARS :: nat where "MAX_SUMMARY_CHARS = 2000"
definition MAX_ENRICHMENT_CONTENT_CHARS :: nat where "MAX_ENRICHMENT_CONTENT_CHARS = 20000"

text \<open>\<^verbatim>\<open>chars().take(n).collect()\<close>.\<close>

definition take_chars :: "nat \<Rightarrow> string \<Rightarrow> string" where
  "take_chars n s = concat (take n (utf8_chars s))"

definition ENRICH_SYSTEM_PROMPT :: "unicode \<Rightarrow> string" where
  "ENRICH_SYSTEM_PROMPT u =
     ''Classify the page and reply with only a JSON object: {'' @ quoted ''page_type'' @ '': one of ''
     @ join '', '' (map (\<lambda>declared. quoted (page_type_word u declared)) classifiable_page_types)
     @ '', '' @ quoted ''keywords'' @ '': a short list of free-form terms, '' @ quoted ''summary''
     @ '': a one or two sentence summary}. No other text.''"

definition reply_page_type :: "unicode \<Rightarrow> json \<Rightarrow> page_type" where
  "reply_page_type u parsed =
     (case Option.bind (Option.bind (as_str (at_key parsed ''page_type'')) (page_type_of_word u)) page_type_of of
        Some t \<Rightarrow> t | None \<Rightarrow> PtOther)"

definition reply_keywords :: "json \<Rightarrow> string list" where
  "reply_keywords parsed =
     map (take_chars MAX_KEYWORD_CHARS)
       (take MAX_KEYWORDS
         (List.map_filter as_str (case as_array (at_key parsed ''keywords'') of Some xs \<Rightarrow> xs | None \<Rightarrow> [])))"

definition parse_enrichment :: "kb_platform \<Rightarrow> string \<Rightarrow> string + enrichment" where
  "parse_enrichment kp content =
     and_then (map_err (\<lambda>error. ''the model'' @ [CHR 0x27] @ ''s reply was not valid JSON: '' @ error)
         (json_from_str kp content)) (\<lambda>parsed.
       Inr \<lparr>enriched_page_type = reply_page_type (kb_unicode kp) parsed,
            enriched_keywords = reply_keywords parsed,
            enriched_summary = take_chars MAX_SUMMARY_CHARS (str_or_empty (at_key parsed ''summary''))\<rparr>)"

definition enrich :: "kb_platform \<Rightarrow> string \<Rightarrow> kb_event list \<Rightarrow> (string + enrichment) \<times> kb_event list" where
  "enrich kp content told_so_far =
     (let request = \<lparr>enrich_tier = LowTier, enrich_system_prompt = ENRICH_SYSTEM_PROMPT (kb_unicode kp),
            enrich_user_prompt = take_chars MAX_ENRICHMENT_CONTENT_CHARS content,
            enrich_response_format = Some JsonObjectFormat\<rparr> in
      (and_then (complete kp told_so_far request) (parse_enrichment kp), told_so_far @ [Completed request]))"

section \<open>What an answer can be\<close>

lemma concat_utf8_chars: "concat (utf8_chars s) = s"
  by (induction s rule: utf8_chars.induct) simp_all

text \<open>A prefix of the characters of a text has no more characters than were taken.\<close>

lemma char_count_one:
  "c = b # bs \<Longrightarrow> (\<forall>x\<in>set bs. is_continuation x) \<Longrightarrow> char_count c \<le> 1"
  by (auto simp: char_count_def filter_empty_conv)

lemma char_count_append [simp]: "char_count (a @ b) = char_count a + char_count b"
  by (simp add: char_count_def)

lemma char_count_of_char: "c \<in> set (utf8_chars s) \<Longrightarrow> char_count c \<le> 1"
proof (induction s rule: utf8_chars.induct)
  case (2 b bs)
  have "char_count (b # takeWhile is_continuation bs) \<le> 1"
    by (rule char_count_one [OF refl]) (auto dest: set_takeWhileD)
  with 2 show ?case by auto
qed simp

lemma char_count_concat: "(\<And>c. c \<in> set cs \<Longrightarrow> char_count c \<le> 1) \<Longrightarrow> char_count (concat cs) \<le> length cs"
proof (induction cs)
  case Nil
  then show ?case by (simp add: char_count_def)
next
  case (Cons c cs)
  have "char_count c \<le> 1" using Cons.prems by simp
  moreover have "char_count (concat cs) \<le> length cs" using Cons by simp
  ultimately show ?case by simp
qed

lemma char_count_take: "char_count (take_chars n s) \<le> n"
proof -
  have "char_count (concat (take n (utf8_chars s))) \<le> length (take n (utf8_chars s))"
    by (rule char_count_concat) (rule char_count_of_char, erule in_set_takeD)
  then show ?thesis by (simp add: take_chars_def)
qed

definition embedding_fits :: "f32 list \<Rightarrow> bool" where
  "embedding_fits v \<longleftrightarrow> length v = EMBEDDING_DIMENSIONS \<and> Infinite \<notin> set v"

lemma validate_response_Inr:
  "validate_response body = Inr e \<Longrightarrow>
     e = body \<and> embedding_fits (embedded_values e) \<and> char_count (model_used e) \<le> MAX_EMBEDDING_MODEL_CHARS"
  by (auto simp: validate_response_def embedding_fits_def split: if_splits)

lemma embed_fits:
  "embed kp base content kind told = (Inr e, told') \<Longrightarrow>
     embedding_fits (embedded_values e) \<and> char_count (model_used e) \<le> MAX_EMBEDDING_MODEL_CHARS"
  by (auto simp: embed_def Let_def and_then_def split: sum.splits embed_send_error.splits if_splits
      dest: validate_response_Inr)

lemma read_embed_chunks_bound:
  "length bytes \<le> MAX_EMBEDDER_RESPONSE_BYTES \<Longrightarrow> read_embed_chunks bytes cs = Inr b \<Longrightarrow>
     length b \<le> MAX_EMBEDDER_RESPONSE_BYTES \<and> (\<exists>parts. cs = map Inr parts \<and> b = bytes @ concat parts)"
proof (induction bytes cs rule: read_embed_chunks.induct)
  case (3 bytes chunk rest)
  then have "length chunk \<le> MAX_EMBEDDER_RESPONSE_BYTES - length bytes" by (auto split: if_splits)
  then have "length (bytes @ chunk) \<le> MAX_EMBEDDER_RESPONSE_BYTES" using 3(2) by simp
  with 3 obtain parts where "length b \<le> MAX_EMBEDDER_RESPONSE_BYTES" "rest = map Inr parts"
    "b = (bytes @ chunk) @ concat parts" by (auto split: if_splits)
  then show ?case by (intro conjI exI [of _ "chunk # parts"]) simp_all
qed simp_all

lemma read_embedder_response_bound:
  "read_embedder_response r = Inr b \<Longrightarrow> length b \<le> MAX_EMBEDDER_RESPONSE_BYTES"
  using read_embed_chunks_bound [of "[]" "response_chunks r" b]
  by (auto simp: read_embedder_response_def split: option.splits if_splits)

definition enrichment_fits :: "enrichment \<Rightarrow> bool" where
  "enrichment_fits e \<longleftrightarrow>
     length (enriched_keywords e) \<le> MAX_KEYWORDS
     \<and> (\<forall>k\<in>set (enriched_keywords e). char_count k \<le> MAX_KEYWORD_COLUMN_CHARS)
     \<and> char_count (enriched_summary e) \<le> MAX_SUMMARY_CHARS"

lemma enrich_fits:
  "enrich kp content told = (Inr e, told') \<Longrightarrow> enrichment_fits e"
  by (auto simp: enrich_def Let_def and_then_def parse_enrichment_def enrichment_fits_def reply_keywords_def
      MAX_KEYWORD_COLUMN_CHARS_def char_count_take
      intro: order.trans [OF char_count_take] simp flip: MAX_KEYWORD_CHARS_def split: sum.splits)

end
