(* ===== verification/Kb_Chunk.thy ===== *)
theory Kb_Chunk
  imports Kb_Text
begin

text \<open>
  \<^verbatim>\<open>services/knowledge-base/src/chunk.rs\<close>: the passages a document is split into. Shown: a passage is
  never empty and never longer than the embedder's window, the passages hold every character of the
  text but its white space and in its order, a word that fits is never cut, and the packing is greedy.
\<close>

definition MAX_CHUNK_CHARS_IN_EMBEDDER_WINDOW :: nat where "MAX_CHUNK_CHARS_IN_EMBEDDER_WINDOW = 300"

record piece =
  piece_text :: "uchar list"
  starts_line :: bool

text \<open>\<^verbatim>\<open>Iterator::step_by\<close>: the first item, then every \<open>n\<close>-th.\<close>

function step_by :: "nat \<Rightarrow> 'a list \<Rightarrow> 'a list" where
  "step_by n [] = []"
| "step_by n (x # xs) = x # step_by n (drop (n - 1) xs)"
  by pat_completeness auto
termination by (relation "measure (length \<circ> snd)") auto

definition hard_split :: "uchar list \<Rightarrow> uchar list list" where
  "hard_split word =
     (let boundaries = step_by MAX_CHUNK_CHARS_IN_EMBEDDER_WINDOW [0..<length word] @ [length word] in
      map (\<lambda>(from, until). take (until - from) (drop from word)) (zip boundaries (tl boundaries)))"

definition ends_sentence :: "uchar \<Rightarrow> uchar list \<Rightarrow> bool" where
  "ends_sentence c rest \<longleftrightarrow>
     c \<in> {''.'', ''!'', ''?''} \<and> (case rest of [] \<Rightarrow> False | following # _ \<Rightarrow> white_space following)"

text \<open>The loop of \<^verbatim>\<open>sentences\<close>; \<open>begun\<close> is \<^verbatim>\<open>line[start..index]\<close>.\<close>

fun sentences_from :: "uchar list \<Rightarrow> uchar list \<Rightarrow> uchar list list" where
  "sentences_from begun [] = [trim_chars begun]"
| "sentences_from begun (c # rest) =
     (if ends_sentence c rest then trim_chars (begun @ [c]) # sentences_from [] rest
      else sentences_from (begun @ [c]) rest)"

definition sentences :: "uchar list \<Rightarrow> uchar list list" where
  "sentences line = filter (\<lambda>sentence. sentence \<noteq> []) (sentences_from [] line)"

definition fit :: "uchar list \<Rightarrow> uchar list list" where
  "fit line =
     (if length line \<le> MAX_CHUNK_CHARS_IN_EMBEDDER_WINDOW then [line]
      else concat (map (\<lambda>sentence.
        if length sentence \<le> MAX_CHUNK_CHARS_IN_EMBEDDER_WINDOW then [sentence]
        else concat (map hard_split (split_words sentence))) (sentences line)))"

definition line_pieces :: "uchar list \<Rightarrow> piece list" where
  "line_pieces line =
     (case fit line of [] \<Rightarrow> []
      | first # others \<Rightarrow>
          \<lparr>piece_text = first, starts_line = True\<rparr> #
          map (\<lambda>other. \<lparr>piece_text = other, starts_line = False\<rparr>) others)"

definition pieces :: "uchar list \<Rightarrow> piece list" where
  "pieces text =
     concat (map line_pieces (filter (\<lambda>line. line \<noteq> []) (map trim_chars (lines_of_text text))))"

record packing =
  packed :: "uchar list list"
  current :: "uchar list"
  current_chars :: nat

definition pack_piece :: "piece \<Rightarrow> packing \<Rightarrow> packing" where
  "pack_piece p st =
     (let piece_chars = length (piece_text p);
          st = (if current_chars st > 0
                   \<and> current_chars st + 1 + piece_chars > MAX_CHUNK_CHARS_IN_EMBEDDER_WINDOW
                then \<lparr>packed = packed st @ [current st], current = [], current_chars = 0\<rparr> else st);
          st = (if current_chars st > 0
                then st\<lparr>current := current st @ [if starts_line p then line_feed else blank],
                        current_chars := current_chars st + 1\<rparr> else st) in
      st\<lparr>current := current st @ piece_text p, current_chars := current_chars st + piece_chars\<rparr>)"

definition pack :: "piece list \<Rightarrow> packing" where
  "pack ps = fold pack_piece ps \<lparr>packed = [], current = [], current_chars = 0\<rparr>"

definition split_text :: "uchar list \<Rightarrow> uchar list list" where
  "split_text text =
     (let st = pack (pieces text) in
      if current_chars st > 0 then packed st @ [current st] else packed st)"

text \<open>\<^verbatim>\<open>chunk::split\<close> on the string.\<close>

definition chunk_split :: "string \<Rightarrow> string list" where
  "chunk_split text = map concat (split_text (utf8_chars text))"

section \<open>Cutting a word\<close>

fun blocks :: "nat \<Rightarrow> 'a list \<Rightarrow> nat \<Rightarrow> 'a list list" where
  "blocks n xs 0 = []"
| "blocks n xs (Suc k) = (if xs = [] then [] else take n xs # blocks n (drop n xs) k)"

lemma slices_blocks:
  assumes "0 < n" and "i \<le> length xs" and "length xs - i \<le> k"
  shows "(let bs = step_by n [i..<length xs] @ [length xs] in
      map (\<lambda>(from, until). take (until - from) (drop from xs)) (zip bs (tl bs)))
    = blocks n (drop i xs) k"
  using assms(2,3)
proof (induction k arbitrary: i)
  case (Suc k)
  show ?case
  proof (cases "i < length xs")
    case True
    define bs where "bs = step_by n [i + n..<length xs] @ [length xs]"
    have d: "drop (n - 1) [Suc i..<length xs] = [i + n..<length xs]" using assms(1) by (cases n) simp_all
    have step: "step_by n [i..<length xs] @ [length xs] = i # bs"
      using True by (simp only: upt_conv_Cons step_by.simps d bs_def append_Cons)
    show ?thesis
    proof (cases "i + n < length xs")
      case more: True
      then have hd: "\<exists>rest. bs = (i + n) # rest" by (simp add: bs_def upt_conv_Cons)
      then obtain rest where rest: "bs = (i + n) # rest" by blast
      from Suc.IH [of "i + n"] Suc.prems more assms(1)
      have "map (\<lambda>(from, until). take (until - from) (drop from xs)) (zip bs (tl bs))
          = blocks n (drop (i + n) xs) k"
        by (simp add: bs_def Let_def)
      with rest True show ?thesis by (simp add: step Let_def ac_simps)
    next
      case False
      then have bs: "bs = [length xs]" by (simp add: bs_def)
      have "take (length xs - i) (drop i xs) = take n (drop i xs)" using False by simp
      moreover have "blocks n (drop n (drop i xs)) k = []" using False by (cases k) simp_all
      ultimately show ?thesis using True by (simp add: step bs Let_def)
    qed
  qed (use Suc in \<open>simp add: Let_def\<close>)
qed (simp add: Let_def)

lemma hard_split_blocks: "hard_split word = blocks MAX_CHUNK_CHARS_IN_EMBEDDER_WINDOW word (length word)"
  using slices_blocks [of MAX_CHUNK_CHARS_IN_EMBEDDER_WINDOW 0 word "length word"]
  by (simp add: hard_split_def MAX_CHUNK_CHARS_IN_EMBEDDER_WINDOW_def)

lemma blocks_bound: "0 < n \<Longrightarrow> b \<in> set (blocks n xs k) \<Longrightarrow> b \<noteq> [] \<and> length b \<le> n"
  by (induction n xs k rule: blocks.induct) (auto split: if_splits)

lemma concat_blocks: "0 < n \<Longrightarrow> length xs \<le> k \<Longrightarrow> concat (blocks n xs k) = xs"
  by (induction n xs k rule: blocks.induct) auto

lemma hard_split_bound:
  "b \<in> set (hard_split word) \<Longrightarrow> b \<noteq> [] \<and> length b \<le> MAX_CHUNK_CHARS_IN_EMBEDDER_WINDOW"
  using blocks_bound [of MAX_CHUNK_CHARS_IN_EMBEDDER_WINDOW b word "length word"]
  by (simp add: hard_split_blocks MAX_CHUNK_CHARS_IN_EMBEDDER_WINDOW_def)

lemma concat_hard_split: "concat (hard_split word) = word"
  by (simp add: hard_split_blocks concat_blocks MAX_CHUNK_CHARS_IN_EMBEDDER_WINDOW_def)

lemma hard_split_short:
  "word \<noteq> [] \<Longrightarrow> length word \<le> MAX_CHUNK_CHARS_IN_EMBEDDER_WINDOW \<Longrightarrow> hard_split word = [word]"
  unfolding hard_split_blocks by (cases "length word") (simp_all, metis blocks.simps neq0_conv not0_implies_Suc)

section \<open>The pieces\<close>

lemma split_words_sentences_from:
  "concat (map split_words (sentences_from begun rest)) = split_words (begun @ rest)"
proof (induction begun rest rule: sentences_from.induct)
  case (2 begun c rest)
  show ?case
  proof (cases "ends_sentence c rest")
    case True
    then obtain n rest' where n: "rest = n # rest'" "white_space n"
      by (auto simp: ends_sentence_def split: list.splits)
    have "split_words (begun @ c # rest) = split_words (begun @ [c]) @ split_words rest'"
      using split_words_append [of n "begun @ [c]" rest'] n by simp
    also have "split_words rest' = split_words rest" using n by (simp add: split_words_space)
    finally show ?thesis using 2(1) [OF True] True by simp
  qed (use 2 in simp)
qed simp

lemma concat_map_filter_nonempty:
  "f [] = [] \<Longrightarrow> concat (map f (filter (\<lambda>x. x \<noteq> []) xs)) = concat (map f xs)"
  by (induction xs) auto

lemma split_words_sentences: "concat (map split_words (sentences line)) = split_words line"
  by (simp add: sentences_def concat_map_filter_nonempty split_words_sentences_from)

lemma ink_by_words: "concat (map ink xs) = concat (concat (map split_words xs))"
  by (induction xs) (simp_all add: concat_split_words)

lemma ink_sentences: "concat (map ink (sentences line)) = ink line"
  by (simp add: ink_by_words split_words_sentences concat_split_words)

text \<open>White space aside, cutting a line keeps it; and it keeps its words if each of them fits.\<close>

lemma ink_words: "w \<in> set (split_words cs) \<Longrightarrow> ink w = w"
  by (metis concat.simps concat_split_words append_Nil2 split_words_of_member)

lemma ink_concat: "ink (concat xs) = concat (map ink xs)"
  by (induction xs) simp_all

lemma ink_hard_split: "concat (map ink (concat (map hard_split ws))) = concat (map ink ws)"
proof (induction ws)
  case (Cons w ws)
  have "concat (map ink (hard_split w)) = ink w" by (metis concat_hard_split ink_concat)
  with Cons show ?case by simp
qed simp

lemma ink_split_words: "concat (map ink (split_words cs)) = ink cs"
  by (simp add: ink_by_words concat_split_words cong: map_cong)

lemma ink_fit: "concat (map ink (fit line)) = ink line"
proof (cases "length line \<le> MAX_CHUNK_CHARS_IN_EMBEDDER_WINDOW")
  case False
  let ?cut = "\<lambda>sentence. if length sentence \<le> MAX_CHUNK_CHARS_IN_EMBEDDER_WINDOW then [sentence]
    else concat (map hard_split (split_words sentence))"
  have "concat (map ink (?cut s)) = ink s" for s
    by (simp add: ink_hard_split ink_split_words)
  then have "concat (map ink (concat (map ?cut ss))) = concat (map ink ss)" for ss
    by (induction ss) simp_all
  then show ?thesis using False by (simp add: fit_def ink_sentences)
qed (simp add: fit_def)

definition words_fit :: "uchar list \<Rightarrow> bool" where
  "words_fit cs \<longleftrightarrow> (\<forall>w\<in>set (split_words cs). length w \<le> MAX_CHUNK_CHARS_IN_EMBEDDER_WINDOW)"

lemma split_words_hard_split:
  assumes "words_fit s" shows "concat (map hard_split (split_words s)) = split_words s"
proof -
  have "map hard_split (split_words s) = map (\<lambda>w. [w]) (split_words s)"
    using assms by (intro map_cong refl hard_split_short) (auto simp: words_fit_def dest: split_words_member)
  then show ?thesis by (simp only: concat_map_singleton map_ident)
qed

lemma words_fit_parts:
  assumes "words_fit cs" and "concat (map split_words xs) = split_words cs" and "x \<in> set xs"
  shows "words_fit x"
proof -
  have "set (split_words x) \<subseteq> set (concat (map split_words xs))" using assms(3) by auto
  then show ?thesis using assms(1,2) by (auto simp: words_fit_def)
qed

lemma split_words_fit:
  assumes "words_fit line" shows "concat (map split_words (fit line)) = split_words line"
proof (cases "length line \<le> MAX_CHUNK_CHARS_IN_EMBEDDER_WINDOW")
  case False
  let ?cut = "\<lambda>sentence. if length sentence \<le> MAX_CHUNK_CHARS_IN_EMBEDDER_WINDOW then [sentence]
    else concat (map hard_split (split_words sentence))"
  have words: "concat (map split_words (split_words s)) = split_words s" for s
    by (simp cong: map_cong)
  have "concat (map split_words (?cut s)) = split_words s" if "s \<in> set (sentences line)" for s
    using words_fit_parts [OF assms split_words_sentences that] by (simp add: split_words_hard_split words)
  then have "set ss \<subseteq> set (sentences line) \<Longrightarrow>
      concat (map split_words (concat (map ?cut ss))) = concat (map split_words ss)" for ss
    by (induction ss) simp_all
  from this [of "sentences line"] show ?thesis using False by (simp add: fit_def split_words_sentences)
qed (simp add: fit_def)

lemma fit_bound:
  assumes "line \<noteq> []" and "p \<in> set (fit line)"
  shows "p \<noteq> [] \<and> length p \<le> MAX_CHUNK_CHARS_IN_EMBEDDER_WINDOW"
  using assms hard_split_bound
  by (auto simp: fit_def sentences_def split: if_splits)

lemma map_piece_text_line: "map piece_text (line_pieces line) = fit line"
  by (simp add: line_pieces_def comp_def split: list.split)

lemma pieces_text:
  "map piece_text (pieces doc) = concat (map fit (filter (\<lambda>line. line \<noteq> []) (map trim_chars (lines_of_text doc))))"
  by (simp add: pieces_def map_concat comp_def map_piece_text_line)

lemma pieces_bound:
  assumes "p \<in> set (pieces doc)"
  shows "piece_text p \<noteq> [] \<and> length (piece_text p) \<le> MAX_CHUNK_CHARS_IN_EMBEDDER_WINDOW"
proof -
  have "piece_text p \<in> set (map piece_text (pieces doc))" using assms by simp
  then show ?thesis unfolding pieces_text using fit_bound by auto
qed

lemma ink_pieces: "concat (map ink (map piece_text (pieces doc))) = ink doc"
proof -
  have "concat (map ink (concat (map fit ls))) = concat (map ink ls)" for ls
    by (induction ls) (simp_all add: ink_fit)
  then have "concat (map ink (map piece_text (pieces doc)))
      = concat (map ink (filter (\<lambda>line. line \<noteq> []) (map trim_chars (lines_of_text doc))))"
    by (simp only: pieces_text)
  then show ?thesis by (simp add: concat_map_filter_nonempty comp_def ink_lines)
qed

lemma split_words_pieces:
  assumes "words_fit doc"
  shows "concat (map split_words (map piece_text (pieces doc))) = split_words doc"
proof -
  have "concat (map split_words (concat (map fit ls))) = concat (map split_words ls)"
    if "\<And>l. l \<in> set ls \<Longrightarrow> words_fit l" for ls
    using that by (induction ls) (simp_all add: split_words_fit)
  moreover have "words_fit l" if "l \<in> set (lines_of_text doc)" for l
    using words_fit_parts [OF assms split_words_lines that] .
  then have "words_fit l" if "l \<in> set (filter (\<lambda>line. line \<noteq> []) (map trim_chars (lines_of_text doc)))" for l
    using that by (auto simp: words_fit_def)
  ultimately have "concat (map split_words (map piece_text (pieces doc)))
      = concat (map split_words (filter (\<lambda>line. line \<noteq> []) (map trim_chars (lines_of_text doc))))"
    unfolding pieces_text by blast
  then show ?thesis by (simp add: concat_map_filter_nonempty comp_def split_words_lines)
qed

section \<open>Packing\<close>

text \<open>The state of the loop: the counter counts, nothing packed or being packed is too long.\<close>

definition packing_ok :: "packing \<Rightarrow> bool" where
  "packing_ok st \<longleftrightarrow>
     current_chars st = length (current st)
     \<and> length (current st) \<le> MAX_CHUNK_CHARS_IN_EMBEDDER_WINDOW
     \<and> (\<forall>c\<in>set (packed st). c \<noteq> [] \<and> length c \<le> MAX_CHUNK_CHARS_IN_EMBEDDER_WINDOW)"

abbreviation "piece_ok p \<equiv>
  piece_text p \<noteq> [] \<and> length (piece_text p) \<le> MAX_CHUNK_CHARS_IN_EMBEDDER_WINDOW"

lemma packing_ok_step: "packing_ok st \<Longrightarrow> piece_ok p \<Longrightarrow> packing_ok (pack_piece p st)"
  by (auto simp: packing_ok_def pack_piece_def Let_def)

text \<open>What the loop has taken, with any reading of doc that ignores white space between its parts.\<close>

definition taken :: "(uchar list \<Rightarrow> 'b list) \<Rightarrow> packing \<Rightarrow> 'b list" where
  "taken f st = concat (map f (packed st)) @ f (current st)"

lemma taken_step:
  assumes "f [] = []" and "\<And>a w b. white_space w \<Longrightarrow> f (a @ w # b) = f a @ f b"
    and "packing_ok st"
  shows "taken f (pack_piece p st) = taken f st @ f (piece_text p)"
  using assms by (auto simp: taken_def pack_piece_def packing_ok_def Let_def)

lemma fold_pack:
  assumes "\<And>p. p \<in> set ps \<Longrightarrow> piece_ok p" and "packing_ok st"
    and "f [] = []" and "\<And>a w b. white_space w \<Longrightarrow> f (a @ w # b) = f a @ f b"
  shows "packing_ok (fold pack_piece ps st)
    \<and> taken f (fold pack_piece ps st) = taken f st @ concat (map f (map piece_text ps))"
  using assms(1,2)
proof (induction ps arbitrary: st)
  case (Cons p ps)
  have "packing_ok (pack_piece p st)" using Cons.prems by (simp add: packing_ok_step)
  with Cons taken_step [OF assms(3,4) Cons.prems(2), of p] show ?case by simp
qed simp

lemma pack_pieces:
  assumes "f [] = []" and "\<And>a w b. white_space w \<Longrightarrow> f (a @ w # b) = f a @ f b"
  shows "packing_ok (pack (pieces doc))
    \<and> taken f (pack (pieces doc)) = concat (map f (map piece_text (pieces doc)))"
proof -
  let ?start = "\<lparr>packed = [], current = [], current_chars = 0\<rparr>"
  have "packing_ok ?start" "taken f ?start = []" by (simp_all add: packing_ok_def taken_def assms(1))
  with fold_pack [where ps = "pieces doc" and st = ?start and f = f, OF pieces_bound _ assms]
  show ?thesis by (simp add: pack_def)
qed

lemma packing_ok_pack: "packing_ok (pack (pieces doc))"
  using pack_pieces [of ink] by simp

lemma split_text_bound:
  "c \<in> set (split_text doc) \<Longrightarrow> c \<noteq> [] \<and> length c \<le> MAX_CHUNK_CHARS_IN_EMBEDDER_WINDOW"
  using packing_ok_pack [of doc] by (auto simp: split_text_def packing_ok_def Let_def split: if_splits)

lemma taken_split_text:
  assumes "f [] = []" and "\<And>a w b. white_space w \<Longrightarrow> f (a @ w # b) = f a @ f b"
  shows "concat (map f (split_text doc)) = concat (map f (map piece_text (pieces doc)))"
  using pack_pieces [of f doc, OF assms] assms(1)
  by (auto simp: split_text_def taken_def packing_ok_def Let_def)

lemma ink_split_text: "concat (map ink (split_text doc)) = ink doc"
  by (subst taken_split_text) (simp_all add: ink_pieces del: map_map)

lemma split_words_split_text:
  "words_fit doc \<Longrightarrow> concat (map split_words (split_text doc)) = split_words doc"
  by (subst taken_split_text) (simp_all add: split_words_append split_words_pieces del: map_map)

text \<open>Two passages that follow each other do not fit in the window together with the break between them.\<close>

definition greedy :: "uchar list list \<Rightarrow> bool" where
  "greedy cs \<longleftrightarrow> (\<forall>i. Suc i < length cs \<longrightarrow>
     MAX_CHUNK_CHARS_IN_EMBEDDER_WINDOW < length (cs ! i) + 1 + length (cs ! Suc i))"

definition in_order :: "packing \<Rightarrow> uchar list list" where
  "in_order st = packed st @ (if current st = [] then [] else [current st])"

lemma greedy_append_longer:
  "greedy (cs @ [a]) \<Longrightarrow> greedy (cs @ [a @ b])"
  by (fastforce simp: greedy_def nth_append less_Suc_eq)

lemma greedy_append_next:
  "greedy (cs @ [a]) \<Longrightarrow> MAX_CHUNK_CHARS_IN_EMBEDDER_WINDOW < length a + 1 + length b \<Longrightarrow> greedy (cs @ [a, b])"
  by (fastforce simp: greedy_def nth_append less_Suc_eq)

lemma greedy_step:
  assumes "packing_ok st" and "piece_ok p" and "greedy (in_order st)" and "current st = [] \<Longrightarrow> packed st = []"
  shows "greedy (in_order (pack_piece p st))"
proof (cases "current st = []")
  case True
  then show ?thesis using assms by (simp add: in_order_def pack_piece_def packing_ok_def Let_def greedy_def)
next
  case False
  then have g: "greedy (packed st @ [current st])" using assms(3) by (simp add: in_order_def)
  show ?thesis
    using False assms(1,2) greedy_append_longer [OF g] greedy_append_next [OF g, of "piece_text p"]
    by (auto simp: in_order_def pack_piece_def packing_ok_def Let_def)
qed

lemma pack_greedy:
  assumes "\<And>p. p \<in> set ps \<Longrightarrow> piece_ok p" and "packing_ok st" and "greedy (in_order st)"
    and "current st = [] \<Longrightarrow> packed st = []"
  shows "greedy (in_order (fold pack_piece ps st))"
  using assms
proof (induction ps arbitrary: st)
  case (Cons p ps)
  have "current (pack_piece p st) \<noteq> []" using Cons.prems(1) [of p]
    by (auto simp: pack_piece_def Let_def)
  moreover have "packing_ok (pack_piece p st)" "greedy (in_order (pack_piece p st))"
    using Cons.prems packing_ok_step [of st p] greedy_step [of st p] by simp_all
  ultimately show ?case using Cons.IH [of "pack_piece p st"] Cons.prems(1) by simp
qed simp

lemma greedy_split_text: "greedy (split_text doc)"
proof -
  have "greedy (in_order (pack (pieces doc)))"
    unfolding pack_def
    by (rule pack_greedy) (use pieces_bound in \<open>auto simp: packing_ok_def in_order_def greedy_def\<close>)
  moreover have "split_text doc = in_order (pack (pieces doc))"
    using packing_ok_pack [of doc] by (simp add: split_text_def in_order_def packing_ok_def Let_def)
  ultimately show ?thesis by simp
qed

section \<open>How many passages\<close>

text \<open>
  A piece is followed by at least one character of white space, unless it fills the window: so the pieces,
  each with such a character, weigh no more than the text.
\<close>

definition weight :: "uchar list list \<Rightarrow> nat" where
  "weight ps = (\<Sum>p\<leftarrow>ps. length p + (if length p < MAX_CHUNK_CHARS_IN_EMBEDDER_WINDOW then 1 else 0))"

definition spaced :: "uchar list list \<Rightarrow> nat" where
  "spaced ps = (\<Sum>p\<leftarrow>ps. length p + 1)"

lemma weight_simps [simp]:
  "weight [] = 0" "weight (a @ b) = weight a + weight b"
  "weight (p # ps) = length p + (if length p < MAX_CHUNK_CHARS_IN_EMBEDDER_WINDOW then 1 else 0) + weight ps"
  by (simp_all add: weight_def)

lemma spaced_simps [simp]:
  "spaced [] = 0" "spaced (a @ b) = spaced a + spaced b" "spaced (p # ps) = length p + 1 + spaced ps"
  by (simp_all add: spaced_def)

lemma spaced_split_when: "spaced (split_when p xs) = length xs + 1"
proof (induction xs)
  case (Cons x xs)
  then show ?case by (cases "split_when p xs") simp_all
qed simp

lemma spaced_filter: "spaced (filter P ps) \<le> spaced ps"
  by (induction ps) auto

lemma spaced_map: "(\<And>p. length (f p) \<le> length p) \<Longrightarrow> spaced (map f ps) \<le> spaced ps"
  by (induction ps) (auto intro: add_mono)

lemma spaced_split_words: "spaced (split_words cs) \<le> length cs + 1"
  unfolding split_words_def by (metis spaced_filter spaced_split_when)

lemma weight_blocks:
  "0 < n \<Longrightarrow> n = MAX_CHUNK_CHARS_IN_EMBEDDER_WINDOW \<Longrightarrow> weight (blocks n xs k) \<le> length xs + 1"
proof (induction n xs k rule: blocks.induct)
  case (2 n xs k)
  show ?case
  proof (cases "length xs \<le> n")
    case True
    then have "blocks n (drop n xs) k = []" by (cases k) simp_all
    then show ?thesis using True by simp
  next
    case False
    then have "xs \<noteq> []" by auto
    with 2 False show ?thesis by simp
  qed
qed simp

lemma weight_hard_split: "weight (hard_split w) \<le> length w + 1"
  using weight_blocks [of MAX_CHUNK_CHARS_IN_EMBEDDER_WINDOW w "length w"]
  by (simp add: hard_split_blocks MAX_CHUNK_CHARS_IN_EMBEDDER_WINDOW_def)

lemma weight_concat:
  assumes "\<And>p. weight (f p) \<le> length p + 1"
  shows "weight (concat (map f ps)) \<le> spaced ps"
proof (induction ps)
  case (Cons p ps)
  with assms [of p] show ?case by simp
qed simp

lemma length_trim_drop: "length (trim_chars cs) \<le> length (dropWhile white_space cs)"
  unfolding trim_chars_def by (metis length_dropWhile_le length_rev)

lemma marks_not_space: "\<not> white_space ''.''" "\<not> white_space ''!''" "\<not> white_space ''?''"
  by (simp_all add: white_space_def)

lemma ends_not_space: "ends_sentence c rest \<Longrightarrow> \<not> white_space c"
  using marks_not_space unfolding ends_sentence_def by blast

lemma drop_append_ink: "\<not> white_space c \<Longrightarrow> dropWhile white_space (b @ c # r) = dropWhile white_space (b @ [c]) @ r"
  by (induction b) simp_all

lemma spaced_sentences_from:
  "spaced (filter (\<lambda>s. s \<noteq> []) (sentences_from begun rest)) \<le> length (dropWhile white_space (begun @ rest)) + 1"
proof (induction begun rest rule: sentences_from.induct)
  case (1 begun)
  then show ?case using length_trim_drop [of begun] by simp
next
  case (2 begun c rest)
  show ?case
  proof (cases "ends_sentence c rest")
    case True
    then obtain n rest' where n: "rest = n # rest'" "white_space n"
      by (auto simp: ends_sentence_def split: list.splits)
    have "length (dropWhile white_space (begun @ c # rest))
        = length (dropWhile white_space (begun @ [c])) + length rest"
      by (simp only: drop_append_ink [OF ends_not_space [OF True], of begun rest] length_append)
    moreover have "spaced (filter (\<lambda>s. s \<noteq> []) (sentences_from [] rest)) \<le> length rest' + 1"
      using 2(1) [OF True] n length_dropWhile_le [of white_space rest'] by simp
    ultimately show ?thesis using True n length_trim_drop [of "begun @ [c]"] by simp
  qed (use 2 in simp)
qed

lemma spaced_sentences: "spaced (sentences line) \<le> length line + 1"
  using spaced_sentences_from [of "[]" line] length_dropWhile_le [of white_space line]
  by (simp add: sentences_def)

lemma weight_fit: "weight (fit line) \<le> length line + 1"
proof (cases "length line \<le> MAX_CHUNK_CHARS_IN_EMBEDDER_WINDOW")
  case False
  let ?cut = "\<lambda>sentence. if length sentence \<le> MAX_CHUNK_CHARS_IN_EMBEDDER_WINDOW then [sentence]
    else concat (map hard_split (split_words sentence))"
  have "weight (?cut s) \<le> length s + 1" for s
    using weight_concat [of hard_split, OF weight_hard_split, of "split_words s"] spaced_split_words [of s]
    by simp
  then have "weight (concat (map ?cut (sentences line))) \<le> spaced (sentences line)" by (rule weight_concat)
  also have "\<dots> \<le> length line + 1" by (rule spaced_sentences)
  finally show ?thesis using False by (simp add: fit_def)
qed (simp add: fit_def)

lemma spaced_lines: "spaced (lines_of_text doc) \<le> length doc + 1"
proof -
  let ?ps = "split_when ((=) line_feed) doc"
  have "spaced (map strip_return (butlast ?ps)) \<le> spaced (butlast ?ps)"
    by (rule spaced_map) (simp add: strip_return_def)
  moreover have "spaced ?ps = spaced (butlast ?ps) + spaced [last ?ps]"
    by (metis append_butlast_last_id spaced_simps(2) split_when_not_Nil)
  ultimately show ?thesis
    using spaced_split_when [of "(=) line_feed" doc] by (auto simp: lines_of_text_def Let_def)
qed

lemma weight_pieces: "weight (map piece_text (pieces doc)) \<le> length doc + 1"
proof -
  have "weight (map piece_text (pieces doc)) \<le> spaced (filter (\<lambda>line. line \<noteq> []) (map trim_chars (lines_of_text doc)))"
    unfolding pieces_text by (rule weight_concat) (rule weight_fit)
  also have "\<dots> \<le> spaced (map trim_chars (lines_of_text doc))" by (rule spaced_filter)
  also have "\<dots> \<le> spaced (lines_of_text doc)" by (rule spaced_map) (rule length_trim)
  also have "\<dots> \<le> length doc + 1" by (rule spaced_lines)
  finally show ?thesis .
qed

text \<open>The packed text and the break after it weigh no more than the pieces packed.\<close>

definition packed_weight :: "packing \<Rightarrow> nat" where
  "packed_weight st = length (concat (packed st)) + length (current st)
     + (if current st \<noteq> [] \<and> length (current st) < MAX_CHUNK_CHARS_IN_EMBEDDER_WINDOW then 1 else 0)"

lemma packed_weight_step:
  "packing_ok st \<Longrightarrow> piece_ok p \<Longrightarrow> packed_weight (pack_piece p st) \<le> packed_weight st + weight [piece_text p]"
  by (auto simp: packed_weight_def pack_piece_def packing_ok_def Let_def)

lemma packed_weight_fold:
  "(\<And>p. p \<in> set ps \<Longrightarrow> piece_ok p) \<Longrightarrow> packing_ok st \<Longrightarrow>
     packed_weight (fold pack_piece ps st) \<le> packed_weight st + weight (map piece_text ps)"
proof (induction ps arbitrary: st)
  case (Cons p ps)
  from Cons.IH [of "pack_piece p st"] Cons.prems packed_weight_step [of st p] packing_ok_step [of st p]
  show ?case by fastforce
qed simp

lemma length_split_text: "length (concat (split_text doc)) \<le> length doc + 1"
proof -
  have "packed_weight (pack (pieces doc)) \<le> weight (map piece_text (pieces doc))"
    using packed_weight_fold [of "pieces doc" "\<lparr>packed = [], current = [], current_chars = 0\<rparr>"] pieces_bound
    by (fastforce simp: pack_def packing_ok_def packed_weight_def)
  with weight_pieces [of doc] show ?thesis
    by (auto simp: split_text_def packed_weight_def Let_def)
qed

lemma greedy_count:
  "greedy cs \<Longrightarrow> MAX_CHUNK_CHARS_IN_EMBEDDER_WINDOW * (length cs - 1) \<le> 2 * length (concat cs)"
proof -
  have "MAX_CHUNK_CHARS_IN_EMBEDDER_WINDOW * (length cs - 1) + length (hd cs) \<le> 2 * length (concat cs)"
    if "greedy cs" "cs \<noteq> []"
    using that
  proof (induction cs)
    case (Cons a cs)
    show ?case
    proof (cases cs)
      case (Cons b ds)
      have "greedy cs" using Cons.prems by (fastforce simp: greedy_def)
      moreover have "MAX_CHUNK_CHARS_IN_EMBEDDER_WINDOW \<le> length a + length b"
        using Cons.prems Cons by (force simp: greedy_def)
      ultimately show ?thesis using Cons.IH Cons by simp
    qed simp
  qed simp
  then show "greedy cs \<Longrightarrow> ?thesis" by (cases "cs = []") auto
qed

lemma split_text_count:
  "MAX_CHUNK_CHARS_IN_EMBEDDER_WINDOW * (length (split_text doc) - 1) \<le> 2 * (length doc + 1)"
  by (rule order.trans [OF greedy_count [OF greedy_split_text] mult_le_mono2 [OF length_split_text]])

end
