(* ===== verification/Kb_Store_Props.thy ===== *)
theory Kb_Store_Props
  imports Kb_Store Kb_Chunk
begin

text \<open>
  What the tables of the knowledge base keep. The abstract store is a map from a key to the last document
  written under it; a write of the tables updates that map at one point.
\<close>

definition chunks_of :: "kb_tables \<Rightarrow> int \<Rightarrow> chunk_row list" where
  "chunks_of db document = filter (\<lambda>c. chunk_document_id c = document) (document_chunks db)"

abbreviation "document_key d \<equiv> (doc_source d, doc_source_id d)"

text \<open>Keys are keys, a chunk has its document, and the ordinals of a document count its chunks.\<close>

definition rows_ok :: "kb_tables \<Rightarrow> bool" where
  "rows_ok db \<longleftrightarrow>
     distinct (map doc_id (documents db)) \<and> (\<forall>d\<in>set (documents db). doc_id d < next_document_id db)
     \<and> distinct (map document_key (documents db))
     \<and> distinct (map chunk_row_id (document_chunks db))
     \<and> (\<forall>c\<in>set (document_chunks db). chunk_row_id c < next_chunk_id db)
     \<and> (\<forall>c\<in>set (document_chunks db). chunk_document_id c \<in> doc_id ` set (documents db))
     \<and> (\<forall>d\<in>set (documents db). map chunk_ordinal (chunks_of db (doc_id d))
          = map int [0..<length (chunks_of db (doc_id d))])"

text \<open>A document is stored under the hash of its content, with the passages its content splits into.\<close>

definition document_ok :: "(string \<Rightarrow> string) \<Rightarrow> kb_tables \<Rightarrow> document_row \<Rightarrow> bool" where
  "document_ok sha256_hex db d \<longleftrightarrow>
     doc_hash d = sha256_hex (doc_content d)
     \<and> map chunk_content (chunks_of db (doc_id d)) = chunk_split (doc_content d)"

definition tables_ok :: "(string \<Rightarrow> string) \<Rightarrow> kb_tables \<Rightarrow> bool" where
  "tables_ok sha256_hex db \<longleftrightarrow> rows_ok db \<and> (\<forall>d\<in>set (documents db). document_ok sha256_hex db d)"

definition write_ok :: "(string \<Rightarrow> string) \<Rightarrow> document_write \<Rightarrow> bool" where
  "write_ok sha256_hex w \<longleftrightarrow>
     write_hash w = sha256_hex (write_content w) \<and> map fst (write_chunks w) = chunk_split (write_content w)"

definition row_view :: "kb_tables \<Rightarrow> document_row \<Rightarrow> document_write" where
  "row_view db d =
     \<lparr>write_source = doc_source d, write_source_id = doc_source_id d, write_title = doc_title d,
      write_content = doc_content d, write_hash = doc_hash d, write_page_type = doc_page_type d,
      write_keywords = doc_keywords d, write_summary = doc_summary d,
      write_embedding_model = doc_embedding_model d,
      write_chunks = map (\<lambda>c. (chunk_content c, chunk_embedding c)) (chunks_of db (doc_id d))\<rparr>"

definition stored_documents :: "kb_tables \<Rightarrow> string \<times> string \<Rightarrow> document_write option" where
  "stored_documents db = (\<lambda>(source, source_id). map_option (row_view db) (find_document db source source_id))"

section \<open>The rows after a write\<close>

lemma rows_ok_ids: "rows_ok db \<Longrightarrow> d \<in> set (documents db) \<Longrightarrow> r \<in> set (documents db) \<Longrightarrow>
    doc_id r = doc_id d \<Longrightarrow> r = d"
  unfolding rows_ok_def distinct_map inj_on_def by blast

lemma rows_ok_keys: "rows_ok db \<Longrightarrow> d \<in> set (documents db) \<Longrightarrow> r \<in> set (documents db) \<Longrightarrow>
    document_key r = document_key d \<Longrightarrow> r = d"
  unfolding rows_ok_def distinct_map inj_on_def by blast

lemma find_document_Some:
  "find_document db s i = Some d \<Longrightarrow> d \<in> set (documents db) \<and> document_key d = (s, i)"
  by (auto simp: find_document_def same_key_def find_Some_iff)

lemma find_document_member:
  assumes "distinct (map document_key (documents db))" and "d \<in> set (documents db)"
  shows "find_document db (doc_source d) (doc_source_id d) = Some d"
proof -
  have "\<exists>e. find_document db (doc_source d) (doc_source_id d) = Some e"
    using assms(2) by (auto simp: find_document_def same_key_def find_None_iff simp flip: not_None_eq)
  then obtain e where e: "find_document db (doc_source d) (doc_source_id d) = Some e" ..
  from find_document_Some [OF this] assms show ?thesis using e by (auto simp: distinct_map dest: inj_onD)
qed

lemma find_document_None:
  "find_document db s i = None \<longleftrightarrow> (\<forall>d\<in>set (documents db). document_key d \<noteq> (s, i))"
  by (auto simp: find_document_def same_key_def find_None_iff)

lemma updated_row_simps [simp]:
  "doc_id (updated_row w now d) = doc_id d" "doc_source (updated_row w now d) = doc_source d"
  "doc_source_id (updated_row w now d) = doc_source_id d"
  "doc_ingested_at (updated_row w now d) = doc_ingested_at d"
  by (simp_all add: updated_row_def)

lemma inserted_row_simps [simp]:
  "doc_id (inserted_row w now k) = k" "doc_source (inserted_row w now k) = write_source w"
  "doc_source_id (inserted_row w now k) = write_source_id w"
  by (simp_all add: inserted_row_def)

lemma chunk_rows_columns:
  "map chunk_row_id (chunk_rows n k cs) = map (\<lambda>i. n + int i) [0..<length cs]"
  "map chunk_ordinal (chunk_rows n k cs) = map int [0..<length cs]"
  "map (\<lambda>c. (chunk_content c, chunk_embedding c)) (chunk_rows n k cs) = cs"
  unfolding chunk_rows_def by (rule nth_equalityI; simp add: nth_enumerate_eq case_prod_beta)+

lemma chunk_rows_document: "c \<in> set (chunk_rows n k cs) \<Longrightarrow> chunk_document_id c = k"
  by (auto simp: chunk_rows_def)

lemma length_chunk_rows [simp]: "length (chunk_rows n k cs) = length cs"
  by (simp add: chunk_rows_def)

lemma chunks_of_insert:
  "chunks_of (insert_chunks k cs (db\<lparr>document_chunks := filter (\<lambda>c. chunk_document_id c \<noteq> k) (document_chunks db)\<rparr>)) j
    = (if j = k then chunk_rows (next_chunk_id db) k cs else chunks_of db j)"
proof (cases "j = k")
  case True
  have "filter (\<lambda>c. chunk_document_id c = k) (chunk_rows n k cs) = chunk_rows n k cs" for n
    by (rule filter_True) (simp add: chunk_rows_document)
  then show ?thesis using True by (simp add: chunks_of_def insert_chunks_def)
next
  case False
  have "filter (\<lambda>c. chunk_document_id c = j) (chunk_rows n k cs) = []" for n
    using False by (auto simp: filter_empty_conv dest: chunk_rows_document)
  moreover have "filter (\<lambda>c. chunk_document_id c \<noteq> k \<and> chunk_document_id c = j) cs'
      = filter (\<lambda>c. chunk_document_id c = j) cs'" for cs'
    using False by (intro filter_cong) auto
  ultimately show ?thesis using False by (simp add: chunks_of_def insert_chunks_def)
qed

lemma insert_no_chunks: "insert_chunks k [] db = db"
  by (simp add: insert_chunks_def chunk_rows_def)

text \<open>A write that succeeds, with both cases of the conflict clause and of the chunks in one equation.\<close>

definition after_write :: "document_write \<Rightarrow> instant \<Rightarrow> kb_tables \<Rightarrow> kb_tables" where
  "after_write w now db =
     (let (k, db1) = upsert_document w now db in
      insert_chunks k (write_chunks w)
        (db1\<lparr>document_chunks := filter (\<lambda>c. chunk_document_id c \<noteq> k) (document_chunks db1)\<rparr>))"

lemma upsert_Inr: "upsert_write w now db = Inr db' \<Longrightarrow> db' = after_write w now db"
  by (auto simp: upsert_write_def after_write_def Let_def insert_no_chunks split: prod.splits if_splits)

lemma upsert_document_tables:
  "upsert_document w now db = (k, db1) \<Longrightarrow>
     document_chunks db1 = document_chunks db \<and> next_chunk_id db1 = next_chunk_id db
     \<and> next_document_id db1 = next_document_id db + 1"
  by (auto simp: upsert_document_def Let_def split: option.splits)

lemma after_write_documents:
  "upsert_document w now db = (k, db1) \<Longrightarrow> documents (after_write w now db) = documents db1"
  by (simp add: after_write_def insert_chunks_def)

lemma after_write_chunks:
  "upsert_document w now db = (k, db1) \<Longrightarrow>
     map (\<lambda>c. (chunk_content c, chunk_embedding c)) (chunks_of (after_write w now db) k) = write_chunks w"
  by (simp add: after_write_def chunks_of_insert chunk_rows_columns)

lemma chunks_of_after:
  "upsert_document w now db = (k, db1) \<Longrightarrow> j \<noteq> k \<Longrightarrow> chunks_of (after_write w now db) j = chunks_of db j"
proof -
  assume up: "upsert_document w now db = (k, db1)" and "j \<noteq> k"
  then have "chunks_of (after_write w now db) j = chunks_of db1 j"
    by (simp add: after_write_def chunks_of_insert)
  then show ?thesis using upsert_document_tables [OF up] by (simp add: chunks_of_def)
qed

text \<open>What a write does to the documents: it appends one with a fresh id or updates the one with its key.\<close>

lemma upsert_document_cases:
  assumes "rows_ok db" and "upsert_document w now db = (k, db1)"
  obtains (inserted) "k = next_document_id db" "find_document db (write_source w) (write_source_id w) = None"
      "documents db1 = documents db @ [inserted_row w now k]" "k \<notin> doc_id ` set (documents db)"
  | (updated) d where "d \<in> set (documents db)" "document_key d = (write_source w, write_source_id w)" "k = doc_id d"
      "find_document db (write_source w) (write_source_id w) = Some d"
      "documents db1 = map (\<lambda>r. if doc_id r = k then updated_row w now r else r) (documents db)"
proof (cases "find_document db (write_source w) (write_source_id w)")
  case None
  have "k \<notin> doc_id ` set (documents db)" if "k = next_document_id db"
    using assms(1) that by (auto simp: rows_ok_def)
  moreover have "k = next_document_id db" "documents db1 = documents db @ [inserted_row w now k]"
    using None assms(2) by (auto simp: upsert_document_def Let_def)
  ultimately show thesis using None inserted by blast
next
  case (Some d)
  note d = find_document_Some [OF Some]
  have "same_key (write_source w) (write_source_id w) r \<longleftrightarrow> doc_id r = doc_id d" if "r \<in> set (documents db)" for r
    using rows_ok_ids [OF assms(1) _ that] rows_ok_keys [OF assms(1) _ that] d by (auto simp: same_key_def)
  then have "update_where (same_key (write_source w) (write_source_id w)) (updated_row w now) (documents db)
      = map (\<lambda>r. if doc_id r = doc_id d then updated_row w now r else r) (documents db)"
    unfolding update_where_def by (intro map_cong refl) simp
  then show thesis using Some assms(2) d by (intro updated [of d]) (auto simp: upsert_document_def)
qed

lemma after_write_ids:
  assumes "rows_ok db" and "upsert_document w now db = (k, db1)"
  shows "doc_id ` set (documents (after_write w now db)) = insert k (doc_id ` set (documents db))"
  using assms
proof (cases rule: upsert_document_cases)
  case inserted
  then show ?thesis by (simp add: after_write_documents [OF assms(2)])
next
  case (updated d)
  then have "map doc_id (documents db1) = map doc_id (documents db)" by simp
  then have "doc_id ` set (documents db1) = doc_id ` set (documents db)" by (metis set_map)
  then show ?thesis using updated by (auto simp: after_write_documents [OF assms(2)])
qed

lemma find_after_write:
  assumes "rows_ok db" and "upsert_document w now db = (k, db1)"
  shows "find_document (after_write w now db) s i =
    (if (s, i) = (write_source w, write_source_id w)
     then Some (case find_document db s i of Some d \<Rightarrow> updated_row w now d | None \<Rightarrow> inserted_row w now k)
     else find_document db s i)"
  using assms
proof (cases rule: upsert_document_cases)
  case inserted
  have "find (same_key s i) (xs @ ys) = (case find (same_key s i) xs of None \<Rightarrow> find (same_key s i) ys | Some x \<Rightarrow> Some x)" for xs ys
    by (induction xs) auto
  then show ?thesis using inserted
    by (auto simp: find_document_def after_write_documents [OF assms(2)] same_key_def split: option.splits)
next
  case (updated d)
  let ?f = "\<lambda>r. if doc_id r = k then updated_row w now r else r"
  have find: "find (same_key s i) (map ?f rs) = map_option ?f (find (same_key s i) rs)" for rs
    by (induction rs) (auto simp: same_key_def)
  have other: "doc_id r \<noteq> k" if "find_document db s i = Some r" "(s, i) \<noteq> (write_source w, write_source_id w)" for r
    using find_document_Some [OF that(1)] updated(1-3) that(2) assms(1)
    by (auto simp: rows_ok_def distinct_map dest: inj_onD)
  have "find_document (after_write w now db) s i = map_option ?f (find_document db s i)"
    unfolding find_document_def after_write_documents [OF assms(2)] updated(5) by (rule find)
  then show ?thesis using updated other by (cases "find_document db s i") auto
qed

theorem stored_after_write:
  assumes "rows_ok db"
  shows "stored_documents (after_write w now db) = (stored_documents db)((write_source w, write_source_id w) \<mapsto> w)"
proof (rule ext)
  fix key :: "string \<times> string"
  obtain s i where key: "key = (s, i)" by fastforce
  obtain k db1 where up: "upsert_document w now db = (k, db1)" by fastforce
  show "stored_documents (after_write w now db) key = ((stored_documents db)((write_source w, write_source_id w) \<mapsto> w)) key"
  proof (cases "(s, i) = (write_source w, write_source_id w)")
    case True
    from assms up have "find_document (after_write w now db) s i = Some d \<Longrightarrow>
        doc_id d = k \<and> row_view (after_write w now db) d = w" for d
    proof (cases rule: upsert_document_cases)
      case inserted
      then show "find_document (after_write w now db) s i = Some d \<Longrightarrow> ?thesis"
        using True find_after_write [OF assms up, of s i] after_write_chunks [OF up]
        by (auto simp: row_view_def inserted_row_def)
    next
      case (updated e)
      then show "find_document (after_write w now db) s i = Some d \<Longrightarrow> ?thesis"
        using True find_after_write [OF assms up, of s i] after_write_chunks [OF up]
        by (auto simp: row_view_def updated_row_def)
    qed
    then show ?thesis using True find_after_write [OF assms up, of s i] by (simp add: key stored_documents_def)
  next
    case False
    have "chunks_of (after_write w now db) (doc_id d) = chunks_of db (doc_id d)"
      if "find_document db s i = Some d" for d
    proof -
      have "doc_id d \<noteq> k"
        using assms up
      proof (cases rule: upsert_document_cases)
        case inserted
        then show ?thesis using find_document_Some [OF that] by (metis imageI)
      next
        case (updated e)
        then show ?thesis using find_document_Some [OF that] False assms
          by (auto simp: rows_ok_def distinct_map dest: inj_onD)
      qed
      then show ?thesis by (rule chunks_of_after [OF up])
    qed
    moreover have "find_document (after_write w now db) s i = find_document db s i"
      unfolding find_after_write [OF assms up] using False by (simp only: if_False)
    ultimately have "stored_documents (after_write w now db) key = stored_documents db key"
      by (cases "find_document db s i") (simp_all add: key stored_documents_def row_view_def)
    then show ?thesis using False unfolding key fun_upd_def by (simp only: if_False)
  qed
qed

section \<open>The tables stay consistent\<close>

lemma after_write_row_fields:
  assumes "upsert_document w now db = (k, db1)"
  shows "next_document_id (after_write w now db) = next_document_id db + 1"
    "next_chunk_id (after_write w now db) = next_chunk_id db + int (length (write_chunks w))"
    "document_chunks (after_write w now db) = filter (\<lambda>c. chunk_document_id c \<noteq> k) (document_chunks db)
       @ chunk_rows (next_chunk_id db) k (write_chunks w)"
  using upsert_document_tables [OF assms] assms by (simp_all add: after_write_def insert_chunks_def)

theorem rows_ok_after:
  assumes "rows_ok db"
  shows "rows_ok (after_write w now db)"
proof -
  obtain k db1 where up: "upsert_document w now db = (k, db1)" by fastforce
  let ?db = "after_write w now db" and ?new = "chunk_rows (next_chunk_id db) k (write_chunks w)"
  note fields = after_write_row_fields [OF up]
  have ids: "distinct (map doc_id (documents ?db)) \<and> (\<forall>d\<in>set (documents ?db). doc_id d < next_document_id ?db)
      \<and> distinct (map document_key (documents ?db))"
    using assms up
  proof (cases rule: upsert_document_cases)
    case inserted
    then show ?thesis using assms
      by (auto simp: after_write_documents [OF up] fields rows_ok_def find_document_None)
  next
    case (updated d)
    let ?f = "\<lambda>r. if doc_id r = k then updated_row w now r else r"
    have "map doc_id (map ?f (documents db)) = map doc_id (documents db)"
      "map document_key (map ?f (documents db)) = map document_key (documents db)" by simp_all
    then show ?thesis using assms
      by (simp add: after_write_documents [OF up] fields rows_ok_def updated(5) del: map_map) force
  qed
  have "chunk_row_id ` set ?new = {next_chunk_id db ..< next_chunk_id db + int (length (write_chunks w))}"
  proof -
    have "chunk_row_id ` set ?new = (\<lambda>i. next_chunk_id db + int i) ` {0..<length (write_chunks w)}"
      by (metis chunk_rows_columns(1) set_map set_upt)
    also have "\<dots> = {next_chunk_id db ..< next_chunk_id db + int (length (write_chunks w))}"
      by (auto simp: image_iff intro!: bexI [of _ "nat (x - next_chunk_id db)" for x])
    finally show ?thesis .
  qed
  moreover have "distinct (map chunk_row_id ?new)"
    by (simp add: chunk_rows_columns(1) distinct_map inj_on_def)
  ultimately have chunks: "distinct (map chunk_row_id (document_chunks ?db))
      \<and> (\<forall>c\<in>set (document_chunks ?db). chunk_row_id c < next_chunk_id ?db)"
    using assms by (force simp: fields rows_ok_def distinct_map_filter)
  have owners: "\<forall>c\<in>set (document_chunks ?db). chunk_document_id c \<in> doc_id ` set (documents ?db)"
    using assms by (auto simp: fields after_write_ids [OF assms up] rows_ok_def dest: chunk_rows_document)
  have "map chunk_ordinal (chunks_of ?db j) = map int [0..<length (chunks_of ?db j)]"
    if "j \<in> doc_id ` set (documents ?db)" for j
  proof (cases "j = k")
    case True
    have "chunks_of ?db k = chunk_rows (next_chunk_id db1) k (write_chunks w)"
      by (simp add: after_write_def up chunks_of_insert)
    then have "chunks_of ?db k = ?new" using upsert_document_tables [OF up] by simp
    then show ?thesis using True by (simp add: chunk_rows_columns)
  next
    case False
    then show ?thesis using that assms chunks_of_after [OF up False]
      by (auto simp: after_write_ids [OF assms up] rows_ok_def)
  qed
  with ids chunks owners show ?thesis by (simp add: rows_ok_def)
qed

theorem tables_ok_after:
  assumes "tables_ok sha db" and "write_ok sha w"
  shows "tables_ok sha (after_write w now db)"
proof -
  have rows: "rows_ok db" using assms(1) by (simp add: tables_ok_def)
  obtain k db1 where up: "upsert_document w now db = (k, db1)" by fastforce
  let ?db = "after_write w now db"
  have "document_ok sha ?db d" if "d \<in> set (documents ?db)" for d
  proof (cases "doc_id d = k")
    case True
    have "doc_content d = write_content w \<and> doc_hash d = write_hash w"
      using rows up
    proof (cases rule: upsert_document_cases)
      case inserted
      then have "d \<in> set (documents db) \<or> d = inserted_row w now k"
        using that by (simp add: after_write_documents [OF up] disj_commute)
      then have "d = inserted_row w now k" using True inserted(4) by blast
      then show ?thesis by (simp add: inserted_row_def)
    next
      case (updated e)
      then show ?thesis using that True by (auto simp: after_write_documents [OF up] updated_row_def split: if_splits)
    qed
    moreover have "map chunk_content (chunks_of ?db k) = map fst (write_chunks w)"
      by (simp flip: after_write_chunks [OF up])
    ultimately show ?thesis using True assms(2) by (simp add: document_ok_def write_ok_def)
  next
    case False
    have "d \<in> set (documents db)"
      using rows up
    proof (cases rule: upsert_document_cases)
      case inserted
      then show ?thesis using that False by (auto simp: after_write_documents [OF up])
    next
      case (updated e)
      then show ?thesis using that False by (auto simp: after_write_documents [OF up] split: if_splits)
    qed
    then show ?thesis using assms(1) chunks_of_after [OF up False] by (simp add: tables_ok_def document_ok_def)
  qed
  then show ?thesis using rows_ok_after [OF rows] by (simp add: tables_ok_def)
qed

lemma tables_ok_empty: "tables_ok sha empty_tables"
  by (simp add: tables_ok_def rows_ok_def empty_tables_def)

end
