(* ===== verification/Kb_Ingest.thy ===== *)
theory Kb_Ingest
  imports Kb_Clients Kb_Store_Props Extract
begin

text \<open>
  \<^verbatim>\<open>services/knowledge-base/src/ingest.rs\<close>: one ingest, from the hash of the content to the write. The
  world is the tables and what was asked of the outside so far; \<^verbatim>\<open>store_fault\<close> says which
  statement of the store fails, by its number in the ingest. Shown: an ingest that fails or is skipped
  leaves the tables alone, one that is stored puts exactly the request, its enrichment and its passages
  under its key, and the tables stay consistent however ingests interleave.
\<close>

definition MAX_HEADER_TITLE_CHARS :: nat where "MAX_HEADER_TITLE_CHARS = 60"
definition MAX_HEADER_SUMMARY_CHARS :: nat where "MAX_HEADER_SUMMARY_CHARS = 120"

datatype ingest_failed = IngestLlm string | IngestStore string

record ingest_request =
  ingest_source :: string
  ingest_source_id :: string
  ingest_title :: string
  ingest_content :: string

record ingest_response =
  ingest_stored :: bool
  ingest_skipped :: bool

record kb_world =
  tables :: kb_tables
  asked :: "kb_event list"

definition context_header :: "string \<Rightarrow> string \<Rightarrow> string" where
  "context_header title summary =
     take_chars MAX_HEADER_TITLE_CHARS title @ [CHR 0x0A] @ take_chars MAX_HEADER_SUMMARY_CHARS summary
     @ [CHR 0x0A, CHR 0x0A]"

definition sha256_hex :: "kb_platform \<Rightarrow> string \<Rightarrow> string" where
  "sha256_hex kp content =
     concat (map (\<lambda>byte. [hex_digit (of_char byte div 16), hex_digit (of_char byte mod 16)]) (sha256 kp content))"

text \<open>The loop over the passages; \<open>model\<close> is the last model name.\<close>

fun embed_chunks_from ::
  "kb_platform \<Rightarrow> string \<Rightarrow> string \<Rightarrow> string list \<Rightarrow> (string \<times> f32 list) list \<Rightarrow> string \<Rightarrow> kb_event list
    \<Rightarrow> (ingest_failed + (string \<times> f32 list) list \<times> string) \<times> kb_event list" where
  "embed_chunks_from kp base_url header [] chunks model told = (Inr (chunks, model), told)"
| "embed_chunks_from kp base_url header (passage # rest) chunks model told =
     (case embed kp base_url (header @ passage) StoredPassage told of
        (Inl error, told') \<Rightarrow> (Inl (IngestLlm error), told')
      | (Inr embedded, told') \<Rightarrow>
          embed_chunks_from kp base_url header rest (chunks @ [(passage, embedded_values embedded)])
            (take_chars MAX_EMBEDDING_MODEL_CHARS (model_used embedded)) told')"

definition embed_chunks ::
  "kb_platform \<Rightarrow> string \<Rightarrow> string \<Rightarrow> string \<Rightarrow> kb_event list
    \<Rightarrow> (ingest_failed + (string \<times> f32 list) list \<times> string) \<times> kb_event list" where
  "embed_chunks kp base_url content header told =
     embed_chunks_from kp base_url header (chunk_split content) [] [] told"

definition write_of ::
  "kb_platform \<Rightarrow> ingest_request \<Rightarrow> enrichment \<Rightarrow> (string \<times> f32 list) list \<Rightarrow> string \<Rightarrow> document_write" where
  "write_of kp input e chunks model =
     \<lparr>write_source = ingest_source input, write_source_id = ingest_source_id input,
      write_title = ingest_title input, write_content = ingest_content input,
      write_hash = sha256_hex kp (ingest_content input), write_page_type = enriched_page_type e,
      write_keywords = enriched_keywords e, write_summary = enriched_summary e,
      write_embedding_model = model, write_chunks = chunks\<rparr>"

text \<open>The part before the write: the enrichment, then the passages with their vectors.\<close>

definition prepare_document ::
  "kb_platform \<Rightarrow> string \<Rightarrow> ingest_request \<Rightarrow> kb_event list \<Rightarrow> (ingest_failed + document_write) \<times> kb_event list" where
  "prepare_document kp base_url input told =
     (case enrich kp (ingest_content input) told of
        (Inl error, told') \<Rightarrow> (Inl (IngestLlm error), told')
      | (Inr e, told') \<Rightarrow>
          (case embed_chunks kp base_url (ingest_content input)
                  (context_header (ingest_title input) (enriched_summary e)) told' of
             (Inl failed, told'') \<Rightarrow> (Inl failed, told'')
           | (Inr (chunks, model), told'') \<Rightarrow> (Inr (write_of kp input e chunks model), told'')))"

definition ingest_run ::
  "kb_platform \<Rightarrow> string \<Rightarrow> instant \<Rightarrow> ingest_request \<Rightarrow> kb_world \<Rightarrow> (ingest_failed + ingest_response) \<times> kb_world" where
  "ingest_run kp base_url now input w =
     (case store_fault kp (asked w) 0 of
        Some error \<Rightarrow> (Inl (IngestStore error), w)
      | None \<Rightarrow>
     (if existing_hash (tables w) (ingest_source input) (ingest_source_id input)
           = Some (sha256_hex kp (ingest_content input))
      then (Inr \<lparr>ingest_stored = False, ingest_skipped = True\<rparr>, w)
      else
     (case prepare_document kp base_url input (asked w) of
        (Inl failed, told) \<Rightarrow> (Inl failed, w\<lparr>asked := told\<rparr>)
      | (Inr write, told) \<Rightarrow>
     (case store_fault kp told 1 of
        Some error \<Rightarrow> (Inl (IngestStore error), w\<lparr>asked := told\<rparr>)
      | None \<Rightarrow>
     (case upsert_write write now (tables w) of
        Inl error \<Rightarrow> (Inl (IngestStore error), w\<lparr>asked := told\<rparr>)
      | Inr db \<Rightarrow>
          (Inr \<lparr>ingest_stored = True, ingest_skipped = False\<rparr>,
           w\<lparr>tables := db, asked := told @ [Stored write]\<rparr>))))))"

section \<open>The prepared write\<close>

lemma embed_chunks_from_spec:
  "embed_chunks_from kp base_url header ps chunks model told = (Inr (out, m), told') \<Longrightarrow>
     (\<exists>vs. out = chunks @ zip ps vs \<and> length vs = length ps \<and> (\<forall>v\<in>set vs. embedding_fits v))
     \<and> (char_count model \<le> MAX_EMBEDDING_MODEL_CHARS \<longrightarrow> char_count m \<le> MAX_EMBEDDING_MODEL_CHARS)"
proof (induction ps arbitrary: chunks model told)
  case (Cons p ps)
  then obtain e told1 where e: "embed kp base_url (header @ p) StoredPassage told = (Inr e, told1)"
    and rest: "embed_chunks_from kp base_url header ps (chunks @ [(p, embedded_values e)])
      (take_chars MAX_EMBEDDING_MODEL_CHARS (model_used e)) told1 = (Inr (out, m), told')"
    by (auto split: prod.splits sum.splits)
  from Cons.IH [OF rest] obtain vs where vs: "out = (chunks @ [(p, embedded_values e)]) @ zip ps vs"
    "length vs = length ps" "\<forall>v\<in>set vs. embedding_fits v"
    and m: "char_count m \<le> MAX_EMBEDDING_MODEL_CHARS" using char_count_take by blast
  show ?case
    using vs m embed_fits [OF e] by (intro conjI exI [of _ "embedded_values e # vs"]) auto
qed simp

text \<open>What fits the columns of a document and its passages.\<close>

definition write_fits :: "document_write \<Rightarrow> bool" where
  "write_fits w \<longleftrightarrow>
     (\<forall>k\<in>set (write_keywords w). char_count k \<le> MAX_KEYWORD_COLUMN_CHARS)
     \<and> char_count (write_embedding_model w) \<le> MAX_EMBEDDING_MODEL_CHARS
     \<and> (\<forall>(_, v)\<in>set (write_chunks w). embedding_fits v)"

lemma prepare_write:
  assumes "prepare_document kp base_url input told = (Inr w, told')"
  shows "write_ok (sha256_hex kp) w \<and> write_fits w \<and> write_source w = ingest_source input
    \<and> write_source_id w = ingest_source_id input \<and> write_title w = ingest_title input
    \<and> write_content w = ingest_content input"
proof -
  from assms obtain e told1 chunks model told2 where e: "enrich kp (ingest_content input) told = (Inr e, told1)"
    and chunks: "embed_chunks kp base_url (ingest_content input)
        (context_header (ingest_title input) (enriched_summary e)) told1 = (Inr (chunks, model), told2)"
    and w: "w = write_of kp input e chunks model"
    by (auto simp: prepare_document_def split: prod.splits sum.splits)
  from embed_chunks_from_spec [OF chunks [unfolded embed_chunks_def]]
  obtain vs where vs: "chunks = zip (chunk_split (ingest_content input)) vs"
    "length vs = length (chunk_split (ingest_content input))" "\<forall>v\<in>set vs. embedding_fits v"
    and m: "char_count model \<le> MAX_EMBEDDING_MODEL_CHARS" by (auto simp: char_count_def)
  from enrich_fits [OF e] show ?thesis
    using vs m by (auto simp: w write_of_def write_ok_def write_fits_def enrichment_fits_def dest: set_zip_rightD)
qed

section \<open>What an ingest leaves\<close>

lemma ingest_cases:
  assumes "ingest_run kp base_url now input w = (r, w')"
  obtains (failed) e where "r = Inl e" "tables w' = tables w"
  | (skipped) "r = Inr \<lparr>ingest_stored = False, ingest_skipped = True\<rparr>" "w' = w"
      "existing_hash (tables w) (ingest_source input) (ingest_source_id input)
        = Some (sha256_hex kp (ingest_content input))"
  | (written) wr told where "r = Inr \<lparr>ingest_stored = True, ingest_skipped = False\<rparr>"
      "prepare_document kp base_url input (asked w) = (Inr wr, told)"
      "upsert_write wr now (tables w) = Inr (tables w')" "asked w' = told @ [Stored wr]"
  using assms
  by (auto simp: ingest_run_def split: option.splits if_splits prod.splits sum.splits)

definition request_of :: "document_write \<Rightarrow> ingest_request" where
  "request_of w =
     \<lparr>ingest_source = write_source w, ingest_source_id = write_source_id w,
      ingest_title = write_title w, ingest_content = write_content w\<rparr>"

text \<open>
  A write finds the store as it is when it commits, whatever was prepared or written since it began;
  \<open>accepts\<close> are the requests that pass the boundary.
\<close>

inductive kb_reaches :: "kb_platform \<Rightarrow> string \<Rightarrow> (ingest_request \<Rightarrow> bool) \<Rightarrow> kb_tables \<Rightarrow> document_write list \<Rightarrow> bool"
  for kp base_url accepts where
  start: "kb_reaches kp base_url accepts empty_tables []"
| prepared: "kb_reaches kp base_url accepts db ws \<Longrightarrow> accepts input \<Longrightarrow>
    prepare_document kp base_url input told = (Inr w, told') \<Longrightarrow> kb_reaches kp base_url accepts db (w # ws)"
| dropped: "kb_reaches kp base_url accepts db ws \<Longrightarrow> kb_reaches kp base_url accepts db (remove1 w ws)"
| committed: "kb_reaches kp base_url accepts db ws \<Longrightarrow> w \<in> set ws \<Longrightarrow> upsert_write w now db = Inr db' \<Longrightarrow>
    kb_reaches kp base_url accepts db' (remove1 w ws)"

definition rows_fit :: "(ingest_request \<Rightarrow> bool) \<Rightarrow> kb_tables \<Rightarrow> bool" where
  "rows_fit accepts db \<longleftrightarrow>
     (\<forall>key w. stored_documents db key = Some w \<longrightarrow> key = (write_source w, write_source_id w)
        \<and> write_fits w \<and> accepts (request_of w))"

lemma kb_reaches_ok:
  "kb_reaches kp base_url accepts db ws \<Longrightarrow>
     tables_ok (sha256_hex kp) db \<and> rows_fit accepts db
     \<and> (\<forall>w\<in>set ws. write_ok (sha256_hex kp) w \<and> write_fits w \<and> accepts (request_of w))"
proof (induction rule: kb_reaches.induct)
  case start
  have "stored_documents empty_tables key = None" for key
    by (cases key) (simp add: stored_documents_def find_document_def empty_tables_def)
  then show ?case by (simp add: tables_ok_empty rows_fit_def)
next
  case (prepared db ws input told w told')
  have "request_of w = input" using prepare_write [OF prepared.hyps(3)] by (simp add: request_of_def)
  then show ?case using prepared prepare_write [OF prepared.hyps(3)] by simp
next
  case (dropped db ws w)
  then show ?case by (auto dest: notin_set_remove1)
next
  case (committed db ws w now db')
  then have w: "write_ok (sha256_hex kp) w" "write_fits w" "accepts (request_of w)" and rows: "rows_ok db"
    by (auto simp: tables_ok_def)
  have db': "db' = after_write w now db" using committed by (simp add: upsert_Inr)
  have "rows_fit accepts db'"
    using committed.IH w stored_after_write [OF rows, of w now] by (auto simp: rows_fit_def db')
  moreover have "tables_ok (sha256_hex kp) db'"
    using committed.IH tables_ok_after [OF _ w(1)] by (simp add: db')
  ultimately show ?case using committed.IH by (auto dest: notin_set_remove1)
qed

end
