(* ===== verification/Kb_Service.thy ===== *)
theory Kb_Service
  imports Kb_Ingest
begin

text \<open>
  \<^verbatim>\<open>services/knowledge-base/src/service.rs\<close>, the methods of \<^verbatim>\<open>main.rs\<close> over it, and \<^verbatim>\<open>service/read.rs\<close>: the checks at
  the boundary, hybrid search, and the paged reading of one version of a document. A search reads
  the tables in three statements, between which other ingests may commit, so it takes the tables as each
  finds them.
\<close>

definition MAX_SOURCE_CHARS :: nat where "MAX_SOURCE_CHARS = 64"
definition MAX_SOURCE_ID_CHARS :: nat where "MAX_SOURCE_ID_CHARS = 2048"
definition MAX_TITLE_CHARS_KB :: nat where "MAX_TITLE_CHARS_KB = 512"
definition MAX_CONTENT_CHARS :: nat where "MAX_CONTENT_CHARS = 200000"
definition MAX_QUERY_CHARS :: nat where "MAX_QUERY_CHARS = 1000"
definition MAX_PAGE_TYPES :: nat where "MAX_PAGE_TYPES = 6"
definition KB_DEFAULT_SEARCH_LIMIT :: nat where "KB_DEFAULT_SEARCH_LIMIT = 10"
definition KB_MAX_SEARCH_LIMIT :: nat where "KB_MAX_SEARCH_LIMIT = 50"

section \<open>Ingest\<close>

definition longer_than :: "string \<Rightarrow> nat \<Rightarrow> string" where
  "longer_than field limit = field @ '' is longer than '' @ show_nat limit @ '' characters''"

definition validate_ingest :: "ingest_request \<Rightarrow> rpc_error + unit" where
  "validate_ingest r =
     (if blank_text (ingest_source r) then Inl (InvalidArgument, ''source is required'')
      else if blank_text (ingest_source_id r) then Inl (InvalidArgument, ''source_id is required'')
      else if blank_text (ingest_content r) then Inl (InvalidArgument, ''content is required'')
      else if char_count (ingest_source r) > MAX_SOURCE_CHARS
      then Inl (InvalidArgument, longer_than ''source'' MAX_SOURCE_CHARS)
      else if char_count (ingest_source_id r) > MAX_SOURCE_ID_CHARS
      then Inl (InvalidArgument, longer_than ''source_id'' MAX_SOURCE_ID_CHARS)
      else if char_count (ingest_title r) > MAX_TITLE_CHARS_KB
      then Inl (InvalidArgument, longer_than ''title'' MAX_TITLE_CHARS_KB)
      else if char_count (ingest_content r) > MAX_CONTENT_CHARS
      then Inl (InvalidArgument, longer_than ''content'' MAX_CONTENT_CHARS)
      else Inr ())"

definition STORE_UNAVAILABLE :: rpc_error where
  "STORE_UNAVAILABLE = (Unavailable, ''the document store is not available'')"

fun ingest_error :: "ingest_failed \<Rightarrow> rpc_error" where
  "ingest_error (IngestLlm _) =
     (Unavailable, ''could not enrich or embed this content; nothing was written'')"
| "ingest_error (IngestStore _) = STORE_UNAVAILABLE"

definition ingest ::
  "kb_platform \<Rightarrow> string \<Rightarrow> instant \<Rightarrow> ingest_request \<Rightarrow> kb_world \<Rightarrow> (rpc_error + ingest_response) \<times> kb_world" where
  "ingest kp base_url now r w =
     (case validate_ingest r of
        Inl e \<Rightarrow> (Inl e, w)
      | Inr _ \<Rightarrow> apfst (map_err ingest_error) (ingest_run kp base_url now r w))"

section \<open>Search\<close>

text \<open>A page type on the wire: a declared value, or a number none is declared for.\<close>

datatype wire_page_type = KnownPageType page_type_proto | UnknownPageType int

record search_request =
  search_query :: string
  search_page_types :: "wire_page_type list"
  search_limit :: u32

record document_ref =
  ref_source :: string
  ref_source_id :: string
  ref_version :: string

record kb_search_result =
  result_source :: string
  result_source_id :: string
  result_title :: string
  result_summary :: string
  result_page_type :: page_type_proto
  result_keywords :: "string list"
  result_snippet :: string
  result_updated_at :: instant
  result_score :: rat
  result_document :: document_ref
  result_ordinal :: u32

definition declared_page_type :: "wire_page_type \<Rightarrow> rpc_error + page_type" where
  "declared_page_type declared =
     (case declared of
        KnownPageType known \<Rightarrow>
          ok_or (InvalidArgument, ''unknown page type '' @ proto_name known) (page_type_of known)
      | UnknownPageType number \<Rightarrow> Inl (InvalidArgument, ''unknown page type '' @ show_int number))"

definition parse_query :: "search_request \<Rightarrow> rpc_error + page_type list" where
  "parse_query r =
     (if blank_text (search_query r) then Inl (InvalidArgument, ''query is required'')
      else if char_count (search_query r) > MAX_QUERY_CHARS
      then Inl (InvalidArgument, longer_than ''query'' MAX_QUERY_CHARS)
      else if length (search_page_types r) > MAX_PAGE_TYPES
      then Inl (InvalidArgument, ''at most '' @ show_nat MAX_PAGE_TYPES @ '' page types'')
      else collect_results (map declared_page_type (search_page_types r)))"

definition parse_limit :: "u32 \<Rightarrow> rpc_error + nat" where
  "parse_limit requested =
     (if requested = 0 then Inr KB_DEFAULT_SEARCH_LIMIT
      else if unat requested > KB_MAX_SEARCH_LIMIT
      then Inl (InvalidArgument, ''limit is above '' @ show_nat KB_MAX_SEARCH_LIMIT)
      else Inr (unat requested))"

text \<open>\<^verbatim>\<open>u32::try_from\<close> of a stored ordinal.\<close>

definition search_result_of :: "ranked \<Rightarrow> rpc_error + kb_search_result" where
  "search_result_of r =
     (let p = ranked_passage r in
      if ordinal p < 0 then Inl (Internal, ''stored passage is invalid'')
      else Inr \<lparr>result_source = passage_source p, result_source_id = passage_source_id p,
        result_title = passage_title p, result_summary = passage_summary p,
        result_page_type = page_type_proto_of (passage_page_type p), result_keywords = passage_keywords p,
        result_snippet = passage_content p, result_updated_at = passage_updated_at p,
        result_score = score r,
        result_document = \<lparr>ref_source = passage_source p, ref_source_id = passage_source_id p,
          ref_version = passage_hash p\<rparr>,
        result_ordinal = of_int (ordinal p)\<rparr>)"

text \<open>
  What one search finds outside: the tables under each of its three statements, which of them fail, and
  what was asked of the embedder before.
\<close>

record search_env =
  semantic_tables :: kb_tables
  passage_tables :: kb_tables
  title_tables :: kb_tables
  statement_fault :: "nat \<Rightarrow> bool"
  asked_before :: "kb_event list"
  iter_ranked :: "ranked list \<Rightarrow> ranked list"
  iter_fallbacks :: "(int \<times> rat \<times> passage) list \<Rightarrow> (int \<times> rat \<times> passage) list"

definition semantic_half ::
  "kb_platform \<Rightarrow> string \<Rightarrow> search_env \<Rightarrow> string \<Rightarrow> page_type list \<Rightarrow> rpc_error + passage list" where
  "semantic_half kp base_url env query page_types =
     (case fst (embed kp base_url query SearchQuery (asked_before env)) of
        Inl _ \<Rightarrow> Inl (Unavailable, ''could not embed the query'')
      | Inr embedded \<Rightarrow>
          (if statement_fault env 0 then Inl STORE_UNAVAILABLE
           else Inr (nearest (kb_postgres kp) (semantic_tables env) (embedded_values embedded) page_types)))"

definition lexical_half ::
  "kb_platform \<Rightarrow> search_env \<Rightarrow> string \<Rightarrow> page_type list \<Rightarrow> rpc_error + passage list \<times> passage list" where
  "lexical_half kp env query page_types =
     (case any_word_lexical_query (kb_unicode kp) query of
        None \<Rightarrow> Inr ([], [])
      | Some lexical_query \<Rightarrow>
          (if statement_fault env 1 \<or> statement_fault env 2 then Inl STORE_UNAVAILABLE
           else Inr (lexical_passages (kb_postgres kp) (passage_tables env) lexical_query page_types,
                     lexical_titles (kb_postgres kp) (title_tables env) lexical_query page_types)))"

text \<open>Both halves run to their end; the error of the lexical one is looked at first.\<close>

definition retrieve ::
  "kb_platform \<Rightarrow> string \<Rightarrow> search_env \<Rightarrow> string \<Rightarrow> page_type list \<Rightarrow> rpc_error + ranked list" where
  "retrieve kp base_url env raw_query page_types =
     (let query = normalize (kb_unicode kp) raw_query in
      and_then (lexical_half kp env query page_types) (\<lambda>(found, titles).
      and_then (semantic_half kp base_url env query page_types) (\<lambda>semantic.
      Inr (fuse_with_document_titles (iter_ranked env) (iter_fallbacks env) [semantic, found] titles))))"

definition search ::
  "kb_platform \<Rightarrow> string \<Rightarrow> search_env \<Rightarrow> search_request \<Rightarrow> rpc_error + kb_search_result list" where
  "search kp base_url env r =
     and_then (parse_query r) (\<lambda>page_types.
     and_then (parse_limit (search_limit r)) (\<lambda>limit.
     and_then (retrieve kp base_url env (search_query r) page_types) (\<lambda>ranked.
     collect_results (map search_result_of (best_per_document ranked limit)))))"

text \<open>
  \<^verbatim>\<open>services/knowledge-base/src/service/read.rs\<close>: one version of a document in bounded pages. Shown: a
  printed cursor reads back, and following the cursors from the start gives the whole content of the
  version asked for, or says that it has changed.
\<close>

definition DEFAULT_PAGE_CHARS :: nat where "DEFAULT_PAGE_CHARS = 16000"
definition MAX_PAGE_CHARS :: nat where "MAX_PAGE_CHARS = 50000"
definition MAX_CURSOR_CHARS :: nat where "MAX_CURSOR_CHARS = 24"
definition CURSOR_PREFIX :: string where "CURSOR_PREFIX = ''kb1:''"

record read_request =
  read_ref :: "document_ref option"
  read_cursor :: string
  read_max_chars :: u32

record read_response =
  page_document :: document_ref
  page_title :: string
  page_content :: string
  next_cursor :: string
  total_chars :: u32

section \<open>Cursors\<close>

text \<open>\<^verbatim>\<open>{:x}\<close> of a \<^verbatim>\<open>usize\<close>.\<close>

fun show_hex :: "nat \<Rightarrow> string" where
  "show_hex n = (if n < 16 then [hex_digit n] else show_hex (n div 16) @ [hex_digit (n mod 16)])"

declare show_hex.simps [simp del]

definition hex_value :: "char \<Rightarrow> nat option" where
  "hex_value ch =
     (let c = of_char ch :: nat in
      if 48 \<le> c \<and> c \<le> 57 then Some (c - 48)
      else if 97 \<le> c \<and> c \<le> 102 then Some (c - 87)
      else if 65 \<le> c \<and> c \<le> 70 then Some (c - 55)
      else None)"

text \<open>\<^verbatim>\<open>usize::from_str_radix(_, 16)\<close> on 64 bits: an optional plus sign, then at least one digit.\<close>

definition parse_hex_usize :: "string \<Rightarrow> nat option" where
  "parse_hex_usize s =
     (let ds = (case s of ch # rest \<Rightarrow> if ch = CHR ''+'' then rest else s | [] \<Rightarrow> []) in
      if ds = [] then None
      else Option.bind (those (map hex_value ds)) (\<lambda>vs.
        let n = foldl (\<lambda>n v. 16 * n + v) 0 vs in if n < 2 ^ 64 then Some n else None))"

definition CURSOR_INVALID :: rpc_error where
  "CURSOR_INVALID = (InvalidArgument, ''document cursor is invalid'')"

definition cursor_offset :: "string \<Rightarrow> rpc_error + nat" where
  "cursor_offset cursor =
     (if cursor = [] then Inr 0
      else if length cursor > MAX_CURSOR_CHARS then Inl CURSOR_INVALID
      else ok_or CURSOR_INVALID (Option.bind (strip_prefix CURSOR_PREFIX cursor) parse_hex_usize))"

definition page_chars :: "u32 \<Rightarrow> rpc_error + nat" where
  "page_chars requested =
     (if requested = 0 then Inr DEFAULT_PAGE_CHARS
      else if unat requested > MAX_PAGE_CHARS
      then Inl (InvalidArgument, ''max_chars is above '' @ show_nat MAX_PAGE_CHARS)
      else Inr (unat requested))"

section \<open>One page\<close>

definition validate_reference :: "document_ref \<Rightarrow> rpc_error + unit" where
  "validate_reference r =
     (if blank_text (ref_source r) \<or> char_count (ref_source r) > MAX_SOURCE_CHARS
      then Inl (InvalidArgument, ''document source is invalid'')
      else if blank_text (ref_source_id r) \<or> char_count (ref_source_id r) > MAX_SOURCE_ID_CHARS
      then Inl (InvalidArgument, ''document source_id is invalid'')
      else if length (ref_version r) \<noteq> 64 \<or> \<not> list_all (\<lambda>ch. hex_value ch \<noteq> None) (ref_version r)
      then Inl (InvalidArgument, ''document version must be a SHA-256 hash'')
      else Inr ())"

definition page_of_document :: "document_ref \<Rightarrow> document_row \<Rightarrow> nat \<Rightarrow> nat \<Rightarrow> rpc_error + read_response" where
  "page_of_document reference d offset page_size =
     (let cs = utf8_chars (doc_content d);
          total = length cs in
      if offset > total then Inl (InvalidArgument, ''cursor is past the document end'')
      else
        (let page = take page_size (drop offset cs);
             next_offset = offset + length page in
         if total \<ge> 2 ^ 32 then Inl (Internal, ''stored document is invalid'')
         else Inr \<lparr>page_document = reference, page_title = doc_title d, page_content = concat page,
           next_cursor = (if next_offset < total then CURSOR_PREFIX @ show_hex next_offset else []),
           total_chars = of_nat total\<rparr>))"

text \<open>\<open>fault\<close>: the read of the store fails.\<close>

definition read_document :: "bool \<Rightarrow> kb_tables \<Rightarrow> read_request \<Rightarrow> rpc_error + read_response" where
  "read_document fault db r =
     and_then (ok_or (InvalidArgument, ''document is required'') (read_ref r)) (\<lambda>reference.
     and_then (validate_reference reference) (\<lambda>_.
     and_then (cursor_offset (read_cursor r)) (\<lambda>offset.
     and_then (page_chars (read_max_chars r)) (\<lambda>page_size.
     if fault then Inl STORE_UNAVAILABLE
     else and_then (ok_or (NotFound, ''document was not found'')
       (find_document db (ref_source reference) (ref_source_id reference))) (\<lambda>d.
     if doc_hash d \<noteq> ref_version reference
     then Inl (FailedPrecondition, ''document changed; search again before reading it'')
     else page_of_document reference d offset page_size)))))"

section \<open>A cursor reads back\<close>

lemma cursor_prefix_not_Nil [simp]: "CURSOR_PREFIX \<noteq> []"
  by (simp add: CURSOR_PREFIX_def)

lemma hex_value_digit: "n < 16 \<Longrightarrow> hex_value (hex_digit n) = Some n"
proof -
  have char: "of_char (char_of m :: char) = m" if "m < 256" for m :: nat using that by simp
  show "n < 16 \<Longrightarrow> ?thesis" by (simp add: hex_value_def hex_digit_def char Let_def)
qed

lemma hex_digit_not_plus: "n < 16 \<Longrightarrow> hex_digit n \<noteq> CHR ''+''"
proof -
  have "hex_value (CHR ''+'') = None" by code_simp
  then show "n < 16 \<Longrightarrow> ?thesis" using hex_value_digit [of n] by force
qed

lemma those_append: "those (xs @ ys) = (case those xs of None \<Rightarrow> None | Some a \<Rightarrow>
    (case those ys of None \<Rightarrow> None | Some b \<Rightarrow> Some (a @ b)))"
  by (induction xs) (auto split: option.splits)

lemma show_hex_values:
  "\<exists>vs. those (map hex_value (show_hex n)) = Some vs \<and> foldl (\<lambda>n v. 16 * n + v) 0 vs = n"
proof (induction n rule: show_hex.induct)
  case (1 n)
  show ?case
  proof (cases "n < 16")
    case True
    then show ?thesis by (simp add: show_hex.simps [of n] hex_value_digit)
  next
    case False
    with 1 obtain vs where "those (map hex_value (show_hex (n div 16))) = Some vs"
      "foldl (\<lambda>n v. 16 * n + v) 0 vs = n div 16" by blast
    then show ?thesis using False
      by (intro exI [of _ "vs @ [n mod 16]"])
        (simp add: show_hex.simps [of n] those_append hex_value_digit)
  qed
qed

lemma show_hex_head: "\<exists>m rest. m < 16 \<and> show_hex n = hex_digit m # rest"
proof (induction n rule: show_hex.induct)
  case (1 n)
  then show ?case by (cases "n < 16") (auto simp: show_hex.simps [of n])
qed

lemma length_show_hex: "n < 16 ^ k \<Longrightarrow> 0 < k \<Longrightarrow> length (show_hex n) \<le> k"
proof (induction k arbitrary: n)
  case (Suc k)
  show ?case
  proof (cases "n < 16")
    case False
    then have k: "0 < k" using Suc.prems(1) by (cases k) auto
    moreover have "n div 16 < 16 ^ k" using Suc.prems(1) by (simp add: div_less_iff_less_mult mult.commute)
    ultimately show ?thesis using False Suc.IH [of "n div 16"] by (simp add: show_hex.simps [of n])
  qed (simp add: show_hex.simps [of n])
qed simp

lemma parse_show_hex: "n < 2 ^ 64 \<Longrightarrow> parse_hex_usize (show_hex n) = Some n"
proof -
  assume n: "n < 2 ^ 64"
  obtain m rest where head: "m < 16" "show_hex n = hex_digit m # rest" using show_hex_head by blast
  obtain vs where vs: "those (map hex_value (show_hex n)) = Some vs" "foldl (\<lambda>n v. 16 * n + v) 0 vs = n"
    using show_hex_values by blast
  have "(case show_hex n of ch # rest \<Rightarrow> if ch = CHR ''+'' then rest else show_hex n | [] \<Rightarrow> []) = show_hex n"
    using head hex_digit_not_plus [OF head(1)] by simp
  then show ?thesis using vs n head(2)
    unfolding parse_hex_usize_def by (simp only: Let_def list.distinct if_False bind.simps simp_thms) simp
qed

lemma cursor_round:
  assumes "n < 2 ^ 64"
  shows "cursor_offset (CURSOR_PREFIX @ show_hex n) = Inr n"
proof -
  have "length (show_hex n) \<le> 16" by (rule length_show_hex) (use assms in simp_all)
  then have "length (CURSOR_PREFIX @ show_hex n) \<le> MAX_CURSOR_CHARS"
    by (simp add: CURSOR_PREFIX_def MAX_CURSOR_CHARS_def)
  moreover have "strip_prefix CURSOR_PREFIX (CURSOR_PREFIX @ show_hex n) = Some (show_hex n)"
    by (simp add: strip_prefix_def starts_with_def)
  ultimately show ?thesis by (simp add: cursor_offset_def parse_show_hex [OF assms] ok_or_def)
qed

section \<open>Following the cursors\<close>

text \<open>A reader that asks for one page after the other, at most \<open>fuel\<close> of them.\<close>

fun read_through :: "nat \<Rightarrow> kb_tables \<Rightarrow> document_ref \<Rightarrow> u32 \<Rightarrow> string \<Rightarrow> rpc_error + string" where
  "read_through 0 db reference page_size cursor = Inl (Internal, ''out of fuel'')"
| "read_through (Suc fuel) db reference page_size cursor =
     and_then (read_document False db \<lparr>read_ref = Some reference, read_cursor = cursor, read_max_chars = page_size\<rparr>)
       (\<lambda>page. if next_cursor page = [] then Inr (page_content page)
         else and_then (read_through fuel db reference page_size (next_cursor page))
           (\<lambda>others. Inr (page_content page @ others)))"

lemma page_chars_positive: "page_chars page_size = Inr n \<Longrightarrow> 0 < n"
  by (auto simp: page_chars_def DEFAULT_PAGE_CHARS_def unat_gt_0 split: if_splits)

lemma read_through_from:
  assumes "validate_reference reference = Inr ()" and "page_chars page_size = Inr n"
    and "find_document db (ref_source reference) (ref_source_id reference) = Some d"
    and "doc_hash d = ref_version reference" and "length (utf8_chars (doc_content d)) < 2 ^ 32"
  shows "cursor_offset cursor = Inr offset \<Longrightarrow> offset \<le> length (utf8_chars (doc_content d)) \<Longrightarrow>
    length (utf8_chars (doc_content d)) - offset < fuel \<Longrightarrow>
    read_through fuel db reference page_size cursor = Inr (concat (drop offset (utf8_chars (doc_content d))))"
proof (induction fuel arbitrary: cursor offset)
  case (Suc fuel)
  let ?cs = "utf8_chars (doc_content d)"
  let ?page = "take n (drop offset ?cs)"
  let ?after = "offset + length ?page"
  have page: "read_document False db \<lparr>read_ref = Some reference, read_cursor = cursor, read_max_chars = page_size\<rparr>
      = Inr \<lparr>page_document = reference, page_title = doc_title d, page_content = concat ?page,
           next_cursor = (if ?after < length ?cs then CURSOR_PREFIX @ show_hex ?after else []),
           total_chars = of_nat (length ?cs)\<rparr>"
    using assms Suc.prems by (simp add: read_document_def ok_or_def page_of_document_def Let_def)
  show ?case
  proof (cases "?after < length ?cs")
    case True
    have n: "0 < n" by (rule page_chars_positive [OF assms(2)])
    have len: "length ?page = n" using True Suc.prems(2) by (cases "n < length ?cs - offset") auto
    have "read_through fuel db reference page_size (CURSOR_PREFIX @ show_hex ?after) = Inr (concat (drop ?after ?cs))"
    proof (rule Suc.IH)
      show "cursor_offset (CURSOR_PREFIX @ show_hex ?after) = Inr ?after"
        by (rule cursor_round) (use True assms(5) in simp)
    qed (use True n len Suc.prems in linarith)+
    moreover have "concat ?page @ concat (drop ?after ?cs) = concat (drop offset ?cs)"
      using len by (metis (no_types, lifting) add.commute append_take_drop_id concat_append drop_drop)
    ultimately show ?thesis using True by (simp add: page)
  next
    case False
    then have "?page = drop offset ?cs" using Suc.prems(2) by (auto simp: min_def split: if_splits)
    then show ?thesis using False by (simp add: page)
  qed
qed simp

end
