(* ===== verification/Kb_Props.thy ===== *)
theory Kb_Props
  imports Kb_Service
begin

text \<open>
  What the knowledge base promises across its operations: what a search finds can be read, and is a
  passage of what is read. \<open>kb_laws\<close> states what is taken of SHA-256 and of the index of PostgreSQL.
\<close>

definition kb_laws :: "kb_platform \<Rightarrow> bool" where
  "kb_laws kp \<longleftrightarrow>
     (\<forall>content. length (sha256 kp content) = 32)
     \<and> (\<forall>v rows. set (index_scan (kb_postgres kp) v rows) \<subseteq> set rows)"

abbreviation "accepted r \<equiv> validate_ingest r = Inr ()"

section \<open>A stored version is a readable reference\<close>

lemma char_count_drop: "char_count (dropWhile is_continuation s) = char_count s"
  by (induction s) (simp_all add: char_count_def)

lemma length_utf8_start:
  "s = [] \<or> \<not> is_continuation (hd s) \<Longrightarrow> length (utf8_chars s) \<le> char_count s"
proof (induction s rule: utf8_chars.induct)
  case (2 b bs)
  have "dropWhile is_continuation bs = [] \<or> \<not> is_continuation (hd (dropWhile is_continuation bs))"
    using hd_dropWhile by blast
  moreover have "char_count (b # bs) = 1 + char_count bs" using 2(2) by (simp add: char_count_def)
  ultimately show ?case using 2(1) by (simp add: char_count_drop)
qed simp

lemma length_utf8_chars: "length (utf8_chars s) \<le> char_count s + 1"
proof (cases s)
  case (Cons b bs)
  have "length (utf8_chars (dropWhile is_continuation bs)) \<le> char_count (dropWhile is_continuation bs)"
    using hd_dropWhile by (intro length_utf8_start) blast
  moreover have "char_count bs \<le> char_count (b # bs)" by (simp add: char_count_def)
  ultimately show ?thesis using Cons by (simp add: char_count_drop)
qed simp

lemma accepted_bounds:
  assumes "accepted r"
  shows "\<not> blank_text (ingest_source r)" "\<not> blank_text (ingest_source_id r)" "\<not> blank_text (ingest_content r)"
    "char_count (ingest_source r) \<le> MAX_SOURCE_CHARS" "char_count (ingest_source_id r) \<le> MAX_SOURCE_ID_CHARS"
    "char_count (ingest_title r) \<le> MAX_TITLE_CHARS_KB" "char_count (ingest_content r) \<le> MAX_CONTENT_CHARS"
  using assms by (auto simp: validate_ingest_def split: if_splits)

lemma accepted_length: "accepted r \<Longrightarrow> length (utf8_chars (ingest_content r)) \<le> 200001"
  using accepted_bounds(7) [of r] length_utf8_chars [of "ingest_content r"] by (simp add: MAX_CONTENT_CHARS_def)

lemma sha256_hex_digits:
  "length (sha256_hex kp s) = 2 * length (sha256 kp s) \<and> list_all (\<lambda>ch. hex_value ch \<noteq> None) (sha256_hex kp s)"
proof -
  have digit: "hex_value (hex_digit (of_char b div 16)) \<noteq> None" "hex_value (hex_digit (of_char b mod 16)) \<noteq> None"
    for b :: char
  proof -
    have "(of_char b :: nat) mod 256 < 256" by simp
    then have "(of_char b :: nat) < 256" by (simp only: of_char_mod_256)
    then have "(of_char b :: nat) div 16 < 16" by (simp add: div_less_iff_less_mult)
    then show "hex_value (hex_digit (of_char b div 16)) \<noteq> None" "hex_value (hex_digit (of_char b mod 16)) \<noteq> None"
      using hex_value_digit [of "of_char b div 16"] hex_value_digit [of "of_char b mod 16"] by simp_all
  qed
  have "length (concat (map (\<lambda>byte. [hex_digit (of_char byte div 16), hex_digit (of_char byte mod 16)]) bs)) = 2 * length bs
    \<and> list_all (\<lambda>ch. hex_value ch \<noteq> None) (concat (map (\<lambda>byte. [hex_digit (of_char byte div 16), hex_digit (of_char byte mod 16)]) bs))"
    for bs :: "char list"
    using digit by (induction bs) simp_all
  then show ?thesis by (simp add: sha256_hex_def)
qed

lemma accepted_reference:
  assumes "kb_laws kp" and "accepted r"
  shows "validate_reference \<lparr>ref_source = ingest_source r, ref_source_id = ingest_source_id r,
      ref_version = sha256_hex kp content\<rparr> = Inr ()"
  using accepted_bounds [OF assms(2)] sha256_hex_digits [of kp content] assms(1)
  by (simp add: validate_reference_def kb_laws_def)

section \<open>How many passages an accepted content has\<close>

lemma chunk_count:
  assumes "accepted r"
  shows "length (chunk_split (ingest_content r)) \<le> 1334"
proof -
  define m where "m = length (chunk_split (ingest_content r)) - 1"
  have "300 * m \<le> 2 * length (utf8_chars (ingest_content r)) + 2"
    unfolding m_def using split_text_count [of "utf8_chars (ingest_content r)"]
    by (simp add: chunk_split_def MAX_CHUNK_CHARS_IN_EMBEDDER_WINDOW_def)
  with accepted_length [OF assms] have "m < 1334" by linarith
  then show ?thesis by (simp add: m_def)
qed

section \<open>The documents the tables hold\<close>

lemma reached_document:
  assumes "kb_reaches kp base_url accepted db ws" and "d \<in> set (documents db)"
  shows "accepted (request_of (row_view db d))"
    and "doc_hash d = sha256_hex kp (doc_content d)"
    and "map chunk_content (chunks_of db (doc_id d)) = chunk_split (doc_content d)"
    and "map chunk_ordinal (chunks_of db (doc_id d)) = map int [0..<length (chunks_of db (doc_id d))]"
    and "find_document db (doc_source d) (doc_source_id d) = Some d"
proof -
  from kb_reaches_ok [OF assms(1)] have ok: "tables_ok (sha256_hex kp) db" and fit: "rows_fit accepted db" by simp_all
  then show found: "find_document db (doc_source d) (doc_source_id d) = Some d"
    by (intro find_document_member) (simp_all add: tables_ok_def rows_ok_def assms(2))
  then have "stored_documents db (doc_source d, doc_source_id d) = Some (row_view db d)" by (simp add: stored_documents_def)
  then show "accepted (request_of (row_view db d))" using fit unfolding rows_fit_def by blast
  show "doc_hash d = sha256_hex kp (doc_content d)"
    "map chunk_content (chunks_of db (doc_id d)) = chunk_split (doc_content d)"
    "map chunk_ordinal (chunks_of db (doc_id d)) = map int [0..<length (chunks_of db (doc_id d))]"
    using ok assms(2) by (simp_all add: tables_ok_def document_ok_def rows_ok_def)
qed

lemma request_of_view [simp]:
  "ingest_source (request_of (row_view db d)) = doc_source d"
  "ingest_source_id (request_of (row_view db d)) = doc_source_id d"
  "ingest_title (request_of (row_view db d)) = doc_title d"
  "ingest_content (request_of (row_view db d)) = doc_content d"
  by (simp_all add: request_of_def row_view_def)

text \<open>A joined row is a passage of its document, at its ordinal.\<close>

lemma reached_passage:
  assumes "kb_reaches kp base_url accepted db ws" and "(c, d) \<in> set (joined_rows db)"
  obtains i where "chunk_ordinal c = int i" "i < length (chunk_split (doc_content d))"
    "chunk_split (doc_content d) ! i = chunk_content c" "d \<in> set (documents db)"
proof -
  from assms(2) have d: "d \<in> set (documents db)" and c: "c \<in> set (chunks_of db (doc_id d))"
    by (auto simp: joined_rows_def chunks_of_def)
  then obtain i where i: "i < length (chunks_of db (doc_id d))" "chunks_of db (doc_id d) ! i = c"
    by (meson in_set_conv_nth)
  have "chunk_ordinal c = map chunk_ordinal (chunks_of db (doc_id d)) ! i" using i by simp
  also have "\<dots> = int i" unfolding reached_document(4) [OF assms(1) d] using i(1) by simp
  finally have "chunk_ordinal c = int i" .
  moreover have "chunk_split (doc_content d) ! i = chunk_content c"
    and "i < length (chunk_split (doc_content d))"
    unfolding reached_document(3) [OF assms(1) d, symmetric] using i by simp_all
  ultimately show thesis using that d by blast
qed

section \<open>What a search finds\<close>

lemma passages_joined: "set (passages types db) \<subseteq> set (joined_rows db)"
  by (auto simp: passages_def)

lemma set_take_sorted: "set (take n (sort_key f (filter P xs))) \<subseteq> set xs"
  using set_take_subset [of n "sort_key f (filter P xs)"] by auto

lemma retrieved_rows:
  assumes "kb_laws kp"
  shows "set (nearest (kb_postgres kp) db v types) \<subseteq> passage_projection ` set (joined_rows db)"
    and "set (lexical_passages pg db q types) \<subseteq> passage_projection ` set (joined_rows db)"
    and "set (lexical_titles pg db q types) \<subseteq> passage_projection ` set (joined_rows db)"
proof -
  have "set (take n (index_scan (kb_postgres kp) v (passages types db))) \<subseteq> set (joined_rows db)" for n
    using assms set_take_subset [of n "index_scan (kb_postgres kp) v (passages types db)"] passages_joined [of types db]
    unfolding kb_laws_def by blast
  then show "set (nearest (kb_postgres kp) db v types) \<subseteq> passage_projection ` set (joined_rows db)"
    unfolding nearest_def set_map by (rule image_mono)
  have rows: "set (take n (sort_key f (filter P (passages types db)))) \<subseteq> set (joined_rows db)"
    for n and f :: "joined \<Rightarrow> rat \<times> int" and P
    using set_take_sorted passages_joined by (rule order.trans)
  show "set (lexical_passages pg db q types) \<subseteq> passage_projection ` set (joined_rows db)"
    unfolding lexical_passages_def set_map by (rule image_mono) (rule rows)
  show "set (lexical_titles pg db q types) \<subseteq> passage_projection ` set (joined_rows db)"
    unfolding lexical_titles_def set_map by (rule image_mono) (rule rows)
qed

lemma fuse_titles_passages:
  assumes "permutes iter" and "permutes iterf"
    and "r \<in> set (fuse_with_document_titles iter iterf rankings titles)"
  shows "ranked_passage r \<in> (\<Union>list\<in>set rankings. set list) \<union> set titles"
proof -
  have "ranked_passage (fallback_ranked e) \<in> set titles" if "e \<in> set (by_title_alone rankings titles)" for e
  proof -
    obtain d s p where e: "e = (d, s, p)" by (rule prod_cases3)
    then have "(d, s, p) \<in> set (title_entries titles)" using that by (auto simp: by_title_alone_def)
    then show ?thesis using title_entries_spec(2) by (simp add: e fallback_ranked_def)
  qed
  moreover from assms(3) have "r \<in> boosted (title_scores_of titles) ` set (fuse (\<lambda>xs. xs) rankings)
      \<or> r \<in> fallback_ranked ` set (by_title_alone rankings titles)"
    unfolding fuse_titles_eq [OF assms(1)] using permutes_set [OF assms(2)] by auto
  ultimately show ?thesis using fused_passages [of _ rankings] by auto
qed

definition hash_maps_permute :: "search_env \<Rightarrow> bool" where
  "hash_maps_permute env \<longleftrightarrow> permutes (iter_ranked env) \<and> permutes (iter_fallbacks env)"

lemma retrieve_passages:
  assumes "kb_laws kp" and "hash_maps_permute env" and "retrieve kp base_url env q types = Inr ranked"
    and "r \<in> set ranked"
  shows "\<exists>db\<in>{semantic_tables env, passage_tables env, title_tables env}.
    ranked_passage r \<in> passage_projection ` set (joined_rows db)"
proof -
  let ?u = "kb_unicode kp"
  from assms(3) obtain found titles semantic
    where lex: "lexical_half kp env (normalize ?u q) types = Inr (found, titles)"
      and sem: "semantic_half kp base_url env (normalize ?u q) types = Inr semantic"
      and ranked: "ranked = fuse_with_document_titles (iter_ranked env) (iter_fallbacks env) [semantic, found] titles"
    by (auto simp: retrieve_def Let_def and_then_def split: sum.splits prod.splits)
  have "ranked_passage r \<in> set semantic \<union> set found \<union> set titles"
    using fuse_titles_passages [of "iter_ranked env" "iter_fallbacks env" r "[semantic, found]" titles]
      assms(2,4) ranked by (simp add: hash_maps_permute_def)
  moreover have "set semantic \<subseteq> passage_projection ` set (joined_rows (semantic_tables env))"
    using sem by (auto simp: semantic_half_def split: sum.splits if_splits
        intro!: subsetD [OF retrieved_rows(1) [OF assms(1)]])
  moreover have "set found \<subseteq> passage_projection ` set (joined_rows (passage_tables env))"
    using lex by (auto simp: lexical_half_def split: option.splits if_splits
        intro!: subsetD [OF retrieved_rows(2) [OF assms(1)]])
  moreover have "set titles \<subseteq> passage_projection ` set (joined_rows (title_tables env))"
    using lex by (auto simp: lexical_half_def split: option.splits if_splits
        intro!: subsetD [OF retrieved_rows(3) [OF assms(1)]])
  ultimately show ?thesis by blast
qed

lemma collect_results_Inr:
  "collect_results xs = Inr ys \<Longrightarrow> xs = map Inr ys"
  by (induction xs arbitrary: ys) (auto split: sum.splits simp: and_then_def)

lemma search_results:
  assumes "search kp base_url env req = Inr rs"
  obtains types limit ranked where "parse_query req = Inr types" "parse_limit (search_limit req) = Inr limit"
    "retrieve kp base_url env (search_query req) types = Inr ranked"
    "map search_result_of (best_per_document ranked limit) = map Inr rs"
  using assms by (auto simp: search_def and_then_def split: sum.splits dest: collect_results_Inr)

lemma search_result_fields:
  "search_result_of rk = Inr r \<Longrightarrow> 0 \<le> ordinal (ranked_passage rk)
    \<and> result_source r = passage_source (ranked_passage rk) \<and> result_score r = score rk
    \<and> result_snippet r = passage_content (ranked_passage rk)
    \<and> result_ordinal r = of_int (ordinal (ranked_passage rk))
    \<and> result_document r = \<lparr>ref_source = passage_source (ranked_passage rk),
        ref_source_id = passage_source_id (ranked_passage rk), ref_version = passage_hash (ranked_passage rk)\<rparr>"
  by (auto simp: search_result_of_def Let_def split: if_splits)

lemma search_result_member:
  assumes "map search_result_of (best_per_document ranked limit) = map Inr rs" and "r \<in> set rs"
  obtains rk where "rk \<in> set ranked" "search_result_of rk = Inr r"
proof -
  from assms(2) have "Inr r \<in> set (map search_result_of (best_per_document ranked limit))"
    unfolding assms(1) by simp
  then obtain rk where "rk \<in> set (best_per_document ranked limit)" "search_result_of rk = Inr r" by auto
  then show thesis using that set_best_per_document by blast
qed

lemma found_row:
  assumes "kb_laws kp" and "hash_maps_permute env" and "search kp base_url env req = Inr rs" and "r \<in> set rs"
  obtains db c d where "db \<in> {semantic_tables env, passage_tables env, title_tables env}"
    "(c, d) \<in> set (joined_rows db)"
    "0 \<le> chunk_ordinal c" "result_snippet r = chunk_content c" "result_ordinal r = of_int (chunk_ordinal c)"
    "result_document r = \<lparr>ref_source = doc_source d, ref_source_id = doc_source_id d, ref_version = doc_hash d\<rparr>"
proof -
  from search_results [OF assms(3)] obtain types limit ranked where
      ranked: "retrieve kp base_url env (search_query req) types = Inr ranked"
      "map search_result_of (best_per_document ranked limit) = map Inr rs" by metis
  obtain rk where rk: "rk \<in> set ranked" "search_result_of rk = Inr r"
    using search_result_member [OF ranked(2) assms(4)] .
  obtain db c d where "db \<in> {semantic_tables env, passage_tables env, title_tables env}"
    and cd: "(c, d) \<in> set (joined_rows db)" "ranked_passage rk = passage_projection (c, d)"
    using retrieve_passages [OF assms(1,2) ranked(1) rk(1)] by force
  then show thesis
    using search_result_fields [OF rk(2)] by (intro that [of db c d]) (simp_all add: passage_projection_def)
qed

text \<open>The document is then readable from its first page, as long as the tables hold that version.\<close>

lemma document_readable:
  assumes "kb_laws kp" and "kb_reaches kp base_url accepted db ws" and "d \<in> set (documents db)"
    and "page_chars n = Inr m"
  shows "read_through 200002 db \<lparr>ref_source = doc_source d, ref_source_id = doc_source_id d, ref_version = doc_hash d\<rparr> n []
    = Inr (doc_content d)"
proof -
  note doc = reached_document [OF assms(2,3)]
  let ?ref = "\<lparr>ref_source = doc_source d, ref_source_id = doc_source_id d, ref_version = doc_hash d\<rparr>"
  have len: "length (utf8_chars (doc_content d)) \<le> 200001" using accepted_length [OF doc(1)] by simp
  have "read_through 200002 db ?ref n [] = Inr (concat (drop 0 (utf8_chars (doc_content d))))"
  proof (rule read_through_from)
    show "validate_reference ?ref = Inr ()"
      using accepted_reference [OF assms(1) doc(1), of "doc_content d"] doc(2) by simp
    show "cursor_offset [] = Inr 0" by (simp add: cursor_offset_def)
  qed (use assms(4) doc(5) len in simp_all)
  then show ?thesis by (simp add: concat_utf8_chars)
qed

section \<open>What the knowledge base promises\<close>


text \<open>C30: However ingests interleave, every document is stored once under its key, under the hash of its
  content, with the passages of that content in their order.\<close>

theorem interleaved_ingests_keep_the_tables:
  assumes "kb_reaches kp base_url accepted db ws"
  shows "tables_ok (sha256_hex kp) db"
  using kb_reaches_ok [OF assms] by simp

text \<open>C31: An ingest that is stored updates the store, read as a map from keys to documents, at its own key
  and to a document of its title and content, and changes nothing else.\<close>

theorem ingest_updates_one_document:
  assumes "rows_ok (tables w)" and "ingest kp base_url now r w = (Inr answer, w')" and "ingest_stored answer"
  shows "\<exists>d. stored_documents (tables w') = (stored_documents (tables w))((ingest_source r, ingest_source_id r) \<mapsto> d)
    \<and> request_of d = r \<and> write_ok (sha256_hex kp) d"
proof -
  from assms(2) have run: "ingest_run kp base_url now r w = (Inr answer, w')"
    by (auto simp: ingest_def map_err_def apfst_def map_prod_def split: sum.splits prod.splits)
  from this show ?thesis
  proof (cases rule: ingest_cases)
    case (written wr told)
    from prepare_write [OF written(2)] have wr: "write_ok (sha256_hex kp) wr" "request_of wr = r"
      "write_source wr = ingest_source r" "write_source_id wr = ingest_source_id r" by (simp_all add: request_of_def)
    have "tables w' = after_write wr now (tables w)" by (rule upsert_Inr [OF written(3)])
    then show ?thesis using stored_after_write [OF assms(1), of wr now] wr by auto
  qed (use assms(3) in auto)
qed

text \<open>An ingest that fails, at whatever call, leaves the tables as they were.\<close>

lemma failed_ingest_writes_nothing:
  assumes "ingest kp base_url now r w = (Inl e, w')"
  shows "tables w' = tables w"
proof (cases "validate_ingest r")
  case (Inr u)
  then obtain x where "ingest_run kp base_url now r w = (x, w')" "map_err ingest_error x = Inl e"
    using assms by (auto simp: ingest_def apfst_def map_prod_def split: prod.splits)
  from this(1) show ?thesis
    by (cases rule: ingest_cases) (use \<open>map_err ingest_error x = Inl e\<close> in \<open>auto simp: map_err_def\<close>)
qed (use assms in \<open>simp add: ingest_def\<close>)

text \<open>Each passage of a document is something and fits the window of the embedder.\<close>

lemma passages_fit_the_window:
  assumes "passage \<in> set (split_text doc)"
  shows "0 < length passage \<and> length passage \<le> MAX_CHUNK_CHARS_IN_EMBEDDER_WINDOW"
  using split_text_bound [OF assms] by simp

text \<open>C32: Read in their order, the passages of a text hold its words, uncut and in their order, if each word
  fits the window.\<close>

theorem passages_hold_the_words:
  assumes "words_fit doc"
  shows "concat (map split_words (split_text doc)) = split_words doc"
  by (rule split_words_split_text [OF assms])

text \<open>The ranking of the candidates does not depend on the order in which the hash maps of the fusion
  hand out their values.\<close>

lemma ranking_ignores_the_hash_maps:
  assumes "permutes iter" and "permutes iterf" and "permutes iter'" and "permutes iterf'"
    and "chunks_of_documents ((\<Union>list\<in>set rankings. set list) \<union> set titles)"
  shows "fuse_with_document_titles iter iterf rankings titles = fuse_with_document_titles iter' iterf' rankings titles"
  using fuse_titles_permuted [OF assms(1,2,5)] fuse_titles_permuted [OF assms(3,4,5)] by simp


end
