(* ===== verification/Kb_Witnesses.thy ===== *)
theory Kb_Witnesses
  imports Kb_Props
begin

text \<open>
  A reference platform for the knowledge base, on which the laws hold and the operations compute: an
  embedder that answers a vector of zeros, a model that answers an empty object, and an index that scans
  everything. The properties of the knowledge base are applied on it.
\<close>

definition zero_reply :: json where
  "zero_reply = Array [Array (replicate EMBEDDING_DIMENSIONS (Number (PosInt 0))), String ''m'']"

definition ref_postgres :: postgres where
  "ref_postgres = \<lparr>index_scan = (\<lambda>_ rows. rows), matches = (\<lambda>_ _. False), rank_of = (\<lambda>_ _. 0)\<rparr>"

definition ref_reply :: embed_response where
  "ref_reply = \<lparr>response_status = 200, response_status_line = ''200 OK'', declared_length = None,
     response_chunks = []\<rparr>"

definition ref_kp :: kb_platform where
  "ref_kp = \<lparr>kb_unicode = ascii_unicode, sha256 = (\<lambda>_. replicate 32 (CHR 0x00)),
     complete = (\<lambda>_ _. Inr ''''), post_json = (\<lambda>_ _. Inr ref_reply),
     json_from_str = (\<lambda>_. Inr zero_reply), json_shape_error = (\<lambda>_. ''''), to_f32 = (\<lambda>_. Finite 0),
     store_fault = (\<lambda>_ _. None), kb_postgres = ref_postgres\<rparr>"

lemma ref_kp_fields [simp]:
  "kb_unicode ref_kp = ascii_unicode" "sha256 ref_kp c = replicate 32 (CHR 0x00)" "complete ref_kp t q = Inr ''''"
  "post_json ref_kp t p = Inr ref_reply" "json_from_str ref_kp s = Inr zero_reply" "to_f32 ref_kp n = Finite 0"
  "store_fault ref_kp t i = None" "kb_postgres ref_kp = ref_postgres"
  by (simp_all add: ref_kp_def)

lemma ref_kp_laws: "kb_laws ref_kp"
  by (simp add: kb_laws_def ref_postgres_def)

definition zeros :: "f32 list" where
  "zeros = replicate EMBEDDING_DIMENSIONS (Finite 0)"

lemma those_replicate: "those (replicate n (Some x)) = Some (replicate n x)"
  by (induction n) simp_all

lemma ref_embed:
  "embed ref_kp base c kind told =
     (Inr \<lparr>embedded_values = zeros, model_used = ''m''\<rparr>,
      told @ [Embedded \<lparr>embed_url = trimmed_base_url base @ embed_path kind, embed_text = c\<rparr>])"
proof -
  have read: "read_embedder_response ref_reply = Inr []" by (simp add: read_embedder_response_def ref_reply_def)
  have "embed_response_of ref_kp zero_reply = Some \<lparr>embedded_values = zeros, model_used = ''m''\<rparr>"
    by (simp add: zero_reply_def embed_fields_def f32_list_def map_replicate_const those_replicate zeros_def)
  then have "read_embed_answer ref_kp [] = Inr \<lparr>embedded_values = zeros, model_used = ''m''\<rparr>"
    by (simp add: read_embed_answer_def and_then_def ok_or_def map_err_def)
  moreover have "validate_response \<lparr>embedded_values = zeros, model_used = ''m''\<rparr> = Inr \<lparr>embedded_values = zeros, model_used = ''m''\<rparr>"
  proof -
    have "char_count ''m'' \<le> MAX_EMBEDDING_MODEL_CHARS" by (simp add: char_count_def MAX_EMBEDDING_MODEL_CHARS_def is_continuation_def)
    then show ?thesis by (simp add: validate_response_def zeros_def)
  qed
  moreover have "response_status ref_reply = 200" by (simp add: ref_reply_def)
  ultimately show ?thesis by (simp add: embed_def Let_def read and_then_def)
qed

definition ref_enriched :: enrichment where
  "ref_enriched = \<lparr>enriched_page_type = PtOther, enriched_keywords = [], enriched_summary = []\<rparr>"

lemma ref_enrich: "\<exists>told'. enrich ref_kp c told = (Inr ref_enriched, told')"
proof -
  have "at_key zero_reply k = Null" for k by (simp add: at_key_def get_def zero_reply_def)
  then show ?thesis
    by (simp add: enrich_def Let_def and_then_def parse_enrichment_def map_err_def reply_page_type_def
        reply_keywords_def ref_enriched_def str_or_empty_def take_chars_def map_filter_simps)
qed

definition ref_request :: ingest_request where
  "ref_request = \<lparr>ingest_source = ''s'', ingest_source_id = ''i'', ingest_title = ''t'', ingest_content = ''ab c''\<rparr>"

lemma ref_texts:
  "\<not> blank_text ''s''" "\<not> blank_text ''i''" "\<not> blank_text ''ab c''" "blank_text []"
  "char_count ''s'' = 1" "char_count ''i'' = 1" "char_count ''t'' = 1" "char_count ''ab c'' = 4"
  by code_simp+

lemma ref_accepted: "accepted ref_request"
  by (simp add: validate_ingest_def ref_request_def ref_texts MAX_SOURCE_CHARS_def MAX_SOURCE_ID_CHARS_def
      MAX_TITLE_CHARS_KB_def MAX_CONTENT_CHARS_def)

lemma ref_chunks: "chunk_split ''ab c'' = [''ab c'']"
  by code_simp

definition ref_write :: document_write where
  "ref_write = write_of ref_kp ref_request ref_enriched [(''ab c'', zeros)] ''m''"

lemma ref_prepare: "\<exists>told'. prepare_document ref_kp base ref_request told = (Inr ref_write, told')"
proof -
  obtain told1 where "enrich ref_kp (ingest_content ref_request) told = (Inr ref_enriched, told1)"
    using ref_enrich by blast
  moreover have "take_chars MAX_EMBEDDING_MODEL_CHARS ''m'' = ''m''"
    by (simp add: take_chars_def MAX_EMBEDDING_MODEL_CHARS_def)
  moreover have "chunk_split (ingest_content ref_request) = [''ab c'']" by (simp add: ref_request_def ref_chunks)
  ultimately show ?thesis by (simp add: prepare_document_def embed_chunks_def ref_embed ref_write_def)
qed

definition ref_db :: kb_tables where
  "ref_db = after_write ref_write 7 empty_tables"

lemma ref_upsert: "upsert_write ref_write 7 empty_tables = Inr ref_db"
  by (simp add: upsert_write_def ref_db_def after_write_def Let_def ref_write_def write_of_def ORDINAL_LIMIT_def split: prod.split)

lemma ref_reaches: "kb_reaches ref_kp base accepted ref_db []"
proof -
  obtain told' where p: "prepare_document ref_kp base ref_request [] = (Inr ref_write, told')" using ref_prepare by blast
  have "kb_reaches ref_kp base accepted empty_tables [ref_write]"
    by (rule kb_reaches.prepared [OF kb_reaches.start _ p]) (rule ref_accepted)
  from kb_reaches.committed [OF this _ ref_upsert] show ?thesis by simp
qed

section \<open>The properties on it\<close>

lemma interleaved_ingests_keep_the_tables_witness: "tables_ok (sha256_hex ref_kp) ref_db"
  by (rule interleaved_ingests_keep_the_tables [OF ref_reaches])

definition ref_world :: kb_world where
  "ref_world = \<lparr>tables = empty_tables, asked = []\<rparr>"

lemma ref_ingest:
  "\<exists>w'. ingest ref_kp [] 7 ref_request ref_world = (Inr \<lparr>ingest_stored = True, ingest_skipped = False\<rparr>, w')"
proof -
  obtain told' where p: "prepare_document ref_kp [] ref_request [] = (Inr ref_write, told')" using ref_prepare by blast
  have "existing_hash empty_tables s i = None" for s i
    by (simp add: existing_hash_def find_document_def empty_tables_def)
  then show ?thesis
    using ref_accepted by (simp add: ingest_def ingest_run_def ref_world_def p ref_upsert map_err_def)
qed

lemma ingest_updates_one_document_witness:
  "\<exists>d w'. ingest ref_kp [] 7 ref_request ref_world = (Inr \<lparr>ingest_stored = True, ingest_skipped = False\<rparr>, w')
    \<and> stored_documents (tables w') = (stored_documents (tables ref_world))((ingest_source ref_request, ingest_source_id ref_request) \<mapsto> d)
    \<and> request_of d = ref_request \<and> write_ok (sha256_hex ref_kp) d"
proof -
  obtain w' where i: "ingest ref_kp [] 7 ref_request ref_world
      = (Inr \<lparr>ingest_stored = True, ingest_skipped = False\<rparr>, w')" using ref_ingest by blast
  have "rows_ok (tables ref_world)"
    using tables_ok_empty [of "\<lambda>_. []"] by (simp add: ref_world_def tables_ok_def)
  from ingest_updates_one_document [OF this i] i show ?thesis by auto
qed

lemma failed_ingest_writes_nothing_witness:
  "\<exists>e w'. ingest ref_kp [] 7 (ref_request\<lparr>ingest_content := []\<rparr>) ref_world = (Inl e, w') \<and> tables w' = tables ref_world"
proof -
  have "validate_ingest (ref_request\<lparr>ingest_content := []\<rparr>) = Inl (InvalidArgument, ''content is required'')"
    by (simp add: validate_ingest_def ref_request_def ref_texts)
  then have i: "ingest ref_kp [] 7 (ref_request\<lparr>ingest_content := []\<rparr>) ref_world
      = (Inl (InvalidArgument, ''content is required''), ref_world)" by (simp add: ingest_def)
  with failed_ingest_writes_nothing [OF i] show ?thesis by blast
qed

lemma passages_fit_the_window_witness:
  "0 < length (utf8_chars ''ab c'') \<and> length (utf8_chars ''ab c'') \<le> MAX_CHUNK_CHARS_IN_EMBEDDER_WINDOW"
proof (rule passages_fit_the_window)
  have "split_text (utf8_chars ''ab c'') = [utf8_chars ''ab c'']" by code_simp
  then show "utf8_chars ''ab c'' \<in> set (split_text (utf8_chars ''ab c''))" by simp
qed

lemma passages_hold_the_words_witness:
  "concat (map split_words (split_text (utf8_chars ''ab c''))) = split_words (utf8_chars ''ab c'')"
proof (rule passages_hold_the_words)
  show "words_fit (utf8_chars ''ab c'')" by code_simp
qed

definition ref_passage :: passage where
  "ref_passage = \<lparr>chunk_id = 1, document_id = 1, ordinal = 0, passage_content = ''ab c'',
     passage_source = ''s'', passage_source_id = ''i'', passage_title = ''t'', passage_summary = [],
     passage_page_type = PtOther, passage_keywords = [], passage_updated_at = 7, passage_hash = []\<rparr>"

definition other_passage :: passage where
  "other_passage = ref_passage\<lparr>chunk_id := 2, document_id := 2\<rparr>"

lemma ranking_ignores_the_hash_maps_witness:
  "fuse_with_document_titles (\<lambda>xs. xs) rev [[ref_passage], [other_passage]] [other_passage]
    = fuse_with_document_titles rev (\<lambda>xs. xs) [[ref_passage], [other_passage]] [other_passage]"
  by (rule ranking_ignores_the_hash_maps)
    (simp_all add: chunks_of_documents_def ref_passage_def other_passage_def)


text \<open>A search over the one document.\<close>

definition ref_doc :: document_row where
  "ref_doc = inserted_row ref_write 7 1"

definition ref_chunk :: chunk_row where
  "ref_chunk = \<lparr>chunk_row_id = 1, chunk_document_id = 1, chunk_ordinal = 0, chunk_content = ''ab c'',
     chunk_embedding = zeros\<rparr>"

lemma ref_rows: "joined_rows ref_db = [(ref_chunk, ref_doc)]"
proof -
  have "upsert_document ref_write 7 empty_tables
      = (1, empty_tables\<lparr>next_document_id := 2, documents := [ref_doc]\<rparr>)"
    by (simp add: upsert_document_def find_document_def empty_tables_def ref_doc_def)
  moreover have "write_chunks ref_write = [(''ab c'', zeros)]" by (simp add: ref_write_def write_of_def)
  ultimately have "documents ref_db = [ref_doc]" "document_chunks ref_db = [ref_chunk]"
    by (simp_all add: ref_db_def after_write_def insert_chunks_def empty_tables_def chunk_rows_def ref_chunk_def
        enumerate_eq_zip)
  then show ?thesis by (simp add: joined_rows_def ref_doc_def ref_chunk_def)
qed

definition ref_env :: search_env where
  "ref_env = \<lparr>semantic_tables = ref_db, passage_tables = ref_db, title_tables = ref_db,
     statement_fault = (\<lambda>_. False), asked_before = [], iter_ranked = rev, iter_fallbacks = rev\<rparr>"

definition ref_query :: search_request where
  "ref_query = \<lparr>search_query = ''ab'', search_page_types = [], search_limit = 0\<rparr>"

lemma ref_parse: "parse_query ref_query = Inr []"
proof -
  have "\<not> blank_text ''ab''" "char_count ''ab'' = 2" by code_simp+
  then show ?thesis by (simp add: parse_query_def ref_query_def MAX_QUERY_CHARS_def MAX_PAGE_TYPES_def)
qed

lemma ref_retrieve:
  "retrieve ref_kp [] ref_env q [] = Inr [\<lparr>ranked_passage = passage_projection (ref_chunk, ref_doc), score = contribution 0\<rparr>]"
proof -
  have sem: "semantic_half ref_kp [] ref_env n [] = Inr [passage_projection (ref_chunk, ref_doc)]" for n
    by (simp add: semantic_half_def ref_embed ref_env_def nearest_def passages_def ref_rows ref_postgres_def
        CANDIDATES_PER_RETRIEVER_def)
  have lex: "lexical_half ref_kp ref_env n [] = Inr ([], [])" for n
    by (simp add: lexical_half_def ref_env_def lexical_passages_def lexical_titles_def ref_postgres_def
        passages_def ref_rows split: option.split)
  have "iter_ranked ref_env = rev" "iter_fallbacks ref_env = rev" by (simp_all add: ref_env_def)
  then show ?thesis
    by (simp add: retrieve_def Let_def and_then_def sem lex fuse_with_document_titles_def
        title_entries_def fuse_def fuse_list_def fuse_entry_def enumerate_eq_zip)
qed

lemma ref_search:
  "\<exists>r. search ref_kp [] ref_env ref_query = Inr [r]"
  by (simp add: search_def and_then_def ref_parse ref_retrieve parse_limit_def best_per_document_def
      KB_DEFAULT_SEARCH_LIMIT_def search_result_of_def passage_projection_def ref_chunk_def Let_def
      ref_query_def [THEN arg_cong [where f = search_limit]])


end
