(* ===== verification/Crawl_Pages.thy ===== *)
theory Crawl_Pages
  imports Crawl_Scope Kb_Props
begin

text \<open>
  What the crawler keeps of a page: its links (\<^verbatim>\<open>services/crawler/src/links.rs\<close>), and the tables of pages and edges with the writes to them
  (\<^verbatim>\<open>store.rs\<close>, \<^verbatim>\<open>graph.rs\<close>, \<^verbatim>\<open>entity/\<close>). Parameters: the HTML parser and selectors of \<^verbatim>\<open>scraper\<close>, the
  URLs of \<^verbatim>\<open>url\<close>. Shown: the links of a page are its first
  distinct ones within the bounds of the columns, and writing them never breaks a constraint and leaves
  exactly them as the links of that page.
\<close>

section \<open>links.rs\<close>

definition MAX_LINKS_PER_PAGE :: nat where "MAX_LINKS_PER_PAGE = 500"
definition MAX_URL_BYTES :: nat where "MAX_URL_BYTES = 1024"
definition MAX_ANCHOR_TEXT_CHARS :: nat where "MAX_ANCHOR_TEXT_CHARS = 512"
definition MAX_ANCHOR_TEXT_RAW_CHARS :: nat where "MAX_ANCHOR_TEXT_RAW_CHARS = MAX_ANCHOR_TEXT_CHARS * 4"
definition MAX_PARSEABLE_HTML_BYTES :: nat where "MAX_PARSEABLE_HTML_BYTES = 5 * 1024 * 1024"

text \<open>\<open>base_hrefs\<close> are the elements \<^verbatim>\<open>base[href]\<close> of a document and \<open>anchors\<close> its elements \<^verbatim>\<open>a[href]\<close>, in their
  order, each with its attribute and the pieces of its text.\<close>

record ('u, 'd) web_parser =
  page_url_parse :: "string \<Rightarrow> 'u option"
  page_url_join :: "'u \<Rightarrow> string \<Rightarrow> 'u option"
  page_url_scheme :: "'u \<Rightarrow> string"
  without_fragment :: "'u \<Rightarrow> 'u"
  page_url_text :: "'u \<Rightarrow> string"
  parse_document :: "string \<Rightarrow> 'd"
  base_hrefs :: "'d \<Rightarrow> string option list"
  anchors :: "'d \<Rightarrow> (string option \<times> string list) list"

record page_link =
  link_url :: string
  link_anchor_text :: string

definition document_base_url :: "('u, 'd) web_parser \<Rightarrow> 'd \<Rightarrow> 'u \<Rightarrow> 'u" where
  "document_base_url H document page_url =
     (case Option.bind (find_map id (base_hrefs H document)) (page_url_join H page_url) of
        None \<Rightarrow> page_url | Some base \<Rightarrow> base)"

definition resolve_same_scheme_url :: "('u, 'd) web_parser \<Rightarrow> 'u \<Rightarrow> string \<Rightarrow> string option" where
  "resolve_same_scheme_url H base href =
     Option.bind (page_url_join H base href) (\<lambda>joined.
       if page_url_scheme H joined \<notin> {''http'', ''https''} then None
       else (let normalized = page_url_text H (without_fragment H joined) in
             if length normalized \<le> MAX_URL_BYTES then Some normalized else None))"

definition collapse_and_cap_whitespace :: "string \<Rightarrow> string" where
  "collapse_and_cap_whitespace s =
     take_chars MAX_ANCHOR_TEXT_CHARS (join '' '' (map concat (split_words (utf8_chars s))))"

definition raw_anchor_text :: "string list \<Rightarrow> string" where
  "raw_anchor_text texts = concat (take MAX_ANCHOR_TEXT_RAW_CHARS (concat (map utf8_chars texts)))"

text \<open>The loop over the anchors, with the links seen and collected so far.\<close>

fun collect_links ::
  "('u, 'd) web_parser \<Rightarrow> 'u \<Rightarrow> string \<Rightarrow> (string option \<times> string list) list \<Rightarrow> string set
    \<Rightarrow> page_link list \<Rightarrow> page_link list" where
  "collect_links H base page [] seen links = links"
| "collect_links H base page ((href, texts) # rest) seen links =
     (case Option.bind href (resolve_same_scheme_url H base) of
        None \<Rightarrow> collect_links H base page rest seen links
      | Some resolved \<Rightarrow>
          (if resolved = page \<or> resolved \<in> seen then collect_links H base page rest seen links
           else (let links' = links @ [\<lparr>link_url = resolved,
                        link_anchor_text = collapse_and_cap_whitespace (raw_anchor_text texts)\<rparr>] in
                 if MAX_LINKS_PER_PAGE \<le> length links' then links'
                 else collect_links H base page rest (insert resolved seen) links')))"

definition try_extract_links ::
  "('u, 'd) web_parser \<Rightarrow> string \<Rightarrow> string \<Rightarrow> page_link list option" where
  "try_extract_links H base_url html =
     (if MAX_PARSEABLE_HTML_BYTES < length html then None
      else Option.bind (page_url_parse H base_url) (\<lambda>page.
        let document = parse_document H html in
        Some (collect_links H (document_base_url H document page) (page_url_text H page)
          (anchors H document) {} [])))"

section \<open>The tables\<close>

datatype relation_type = LinksTo | Parent | Canonical | Redirect

fun relation_num :: "relation_type \<Rightarrow> int" where
  "relation_num LinksTo = 0"
| "relation_num Parent = 1"
| "relation_num Canonical = 2"
| "relation_num Redirect = 3"

record page_row =
  page_id :: int
  page_url :: string
  row_title :: string
  row_main_text :: string
  row_content_hash :: string
  page_http_status :: int
  page_crawled_at :: instant

text \<open>The column \<^verbatim>\<open>metadata\<close> is null in every row the code writes and never read.\<close>

record edge_row =
  edge_id :: int
  from_url :: string
  to_url :: string
  edge_relation :: relation_type
  edge_anchor_text :: string
  discovered_at :: instant

datatype job_status = JobQueued | JobRunning | JobDone | JobFailed

record job_row =
  job_row_id :: int
  job_base_url :: string
  job_status :: job_status
  job_pages_crawled :: int
  job_key :: "string option"
  job_created_at :: instant
  job_updated_at :: instant

record crawl_db =
  pages :: "page_row list"
  page_edges :: "edge_row list"
  crawl_jobs :: "job_row list"
  next_page_id :: int
  next_edge_id :: int
  next_job_id :: int

definition VALUE_TOO_LONG :: string where "VALUE_TOO_LONG = ''value too long for type character varying''"
definition DUPLICATE_KEY :: string where "DUPLICATE_KEY = ''duplicate key value violates unique constraint''"

section \<open>store.rs\<close>

record counted_page =
  counted_url :: string
  counted_html :: string
  counted_status :: u16

record saved_page =
  saved_title :: string
  saved_main_text :: string
  saved_changed :: bool

definition MAX_PAGE_URL_CHARS :: nat where "MAX_PAGE_URL_CHARS = 2048"

definition page_by_url :: "crawl_db \<Rightarrow> string \<Rightarrow> page_row option" where
  "page_by_url db u = find (\<lambda>p. page_url p = u) (pages db)"

text \<open>The status codes of the \<^verbatim>\<open>http\<close> crate are below 1000, so the conversion to \<^verbatim>\<open>i16\<close> never fails.\<close>

definition page_row_of :: "counted_page \<Rightarrow> extracted \<Rightarrow> instant \<Rightarrow> int \<Rightarrow> page_row" where
  "page_row_of p x now key =
     \<lparr>page_id = key, page_url = counted_url p, row_title = extracted_title x,
      row_main_text = main_text x, row_content_hash = content_hash x,
      page_http_status = uint (counted_status p), page_crawled_at = now\<rparr>"

definition upsert_page :: "page_row \<Rightarrow> crawl_db \<Rightarrow> string + crawl_db" where
  "upsert_page row db =
     (let db' = db\<lparr>next_page_id := next_page_id db + 1\<rparr> in
      if MAX_PAGE_URL_CHARS < char_count (page_url row) \<or> TITLE_COLUMN_MAX_CHARS < char_count (row_title row)
         \<or> 64 < char_count (row_content_hash row)
      then Inl VALUE_TOO_LONG
      else if page_by_url db (page_url row) \<noteq> None
      then Inr (db'\<lparr>pages := update_where (\<lambda>p. page_url p = page_url row)
             (\<lambda>p. p\<lparr>row_title := row_title row, row_main_text := row_main_text row,
                row_content_hash := row_content_hash row, page_http_status := page_http_status row,
                page_crawled_at := page_crawled_at row\<rparr>) (pages db)\<rparr>)
      else Inr (db'\<lparr>pages := pages db @ [row\<lparr>page_id := next_page_id db\<rparr>]\<rparr>))"

section \<open>graph.rs: the writes\<close>

definition edge_rows :: "int \<Rightarrow> string \<Rightarrow> page_link list \<Rightarrow> instant \<Rightarrow> edge_row list" where
  "edge_rows first_id source links now =
     map (\<lambda>(i, l). \<lparr>edge_id = first_id + int i, from_url = source, to_url = link_url l, edge_relation = LinksTo,
        edge_anchor_text = link_anchor_text l, discovered_at = now\<rparr>) (enumerate 0 links)"

definition edge_key :: "edge_row \<Rightarrow> string \<times> string \<times> relation_type" where
  "edge_key e = (from_url e, to_url e, edge_relation e)"

definition edge_fits :: "edge_row \<Rightarrow> bool" where
  "edge_fits e \<longleftrightarrow> char_count (from_url e) \<le> MAX_URL_BYTES \<and> char_count (to_url e) \<le> MAX_URL_BYTES
     \<and> char_count (edge_anchor_text e) \<le> MAX_ANCHOR_TEXT_CHARS"

text \<open>The insert with the constraints of the table.\<close>

definition insert_edges :: "edge_row list \<Rightarrow> crawl_db \<Rightarrow> string + crawl_db" where
  "insert_edges rows db =
     (if \<not> list_all edge_fits rows then Inl VALUE_TOO_LONG
      else if \<not> distinct (map edge_key rows) \<or> (\<exists>r\<in>set rows. edge_key r \<in> edge_key ` set (page_edges db))
      then Inl DUPLICATE_KEY
      else Inr (db\<lparr>page_edges := page_edges db @ rows, next_edge_id := next_edge_id db + int (length rows)\<rparr>))"

text \<open>The transaction; \<open>Inl\<close> is the error with everything rolled back.\<close>

definition outbound :: "string \<Rightarrow> edge_row \<Rightarrow> bool" where
  "outbound source e \<longleftrightarrow> from_url e = source \<and> edge_relation e = LinksTo"

definition replace_outbound :: "string \<Rightarrow> page_link list \<Rightarrow> instant \<Rightarrow> crawl_db \<Rightarrow> string + crawl_db" where
  "replace_outbound source links now db =
     (let cleared = db\<lparr>page_edges := filter (\<lambda>e. \<not> outbound source e) (page_edges db)\<rparr> in
      if links \<noteq> [] then insert_edges (edge_rows (next_edge_id cleared) source links now) cleared
      else Inr cleared)"

section \<open>The links of a page\<close>

text \<open>The first of each, in their order.\<close>

fun firsts :: "'a list \<Rightarrow> 'a list" where
  "firsts [] = []"
| "firsts (x # xs) = x # filter (\<lambda>y. y \<noteq> x) (firsts xs)"

lemma set_firsts [simp]: "set (firsts xs) = set xs"
  by (induction xs) auto

lemma distinct_firsts [simp]: "distinct (firsts xs)"
  by (induction xs) auto

lemma firsts_filter: "firsts (filter P xs) = filter P (firsts xs)"
  by (induction xs) (auto simp: filter_filter conj_commute intro: filter_cong)

definition resolved_urls ::
  "('u, 'd) web_parser \<Rightarrow> 'u \<Rightarrow> string \<Rightarrow> (string option \<times> string list) list \<Rightarrow> string list" where
  "resolved_urls H base page elements =
     filter (\<lambda>u. u \<noteq> page) (concat (map (\<lambda>(href, _).
       case Option.bind href (resolve_same_scheme_url H base) of None \<Rightarrow> [] | Some u \<Rightarrow> [u]) elements))"

lemma resolved_urls_Cons:
  "resolved_urls H base page ((href, texts) # rest) =
     (case Option.bind href (resolve_same_scheme_url H base) of
        None \<Rightarrow> resolved_urls H base page rest
      | Some u \<Rightarrow> (if u = page then [] else [u]) @ resolved_urls H base page rest)"
  by (simp add: resolved_urls_def split: option.splits)

lemma filter_seen: "u \<in> seen \<Longrightarrow> filter (\<lambda>v. v \<noteq> u \<and> v \<notin> seen) vs = filter (\<lambda>v. v \<notin> seen) vs"
  by (auto intro!: filter_cong)

lemma filter_fresh: "filter (\<lambda>v. v \<notin> seen) (filter (\<lambda>v. v \<noteq> u) vs) = filter (\<lambda>v. v \<notin> insert u seen) vs"
  by (auto simp: filter_filter intro!: filter_cong)

lemma collect_links_urls:
  assumes "seen = link_url ` set links" and "length links < MAX_LINKS_PER_PAGE"
  shows "map link_url (collect_links H base page elements seen links) =
    take MAX_LINKS_PER_PAGE
      (map link_url links @ filter (\<lambda>u. u \<notin> seen) (firsts (resolved_urls H base page elements)))"
  using assms
proof (induction elements arbitrary: seen links)
  case Nil
  then show ?case by (simp add: resolved_urls_def)
next
  case (Cons element rest)
  obtain href texts where element: "element = (href, texts)" by (cases element)
  consider "Option.bind href (resolve_same_scheme_url H base) = None"
    | u where "Option.bind href (resolve_same_scheme_url H base) = Some u" "u = page \<or> u \<in> seen"
    | u where "Option.bind href (resolve_same_scheme_url H base) = Some u" "u \<noteq> page" "u \<notin> seen"
    by (cases "Option.bind href (resolve_same_scheme_url H base)") auto
  then show ?case
  proof cases
    case 1
    then show ?thesis using Cons by (simp add: element resolved_urls_Cons)
  next
    case 2
    have "collect_links H base page (element # rest) seen links = collect_links H base page rest seen links"
      using 2 by (auto simp: element)
    moreover have "filter (\<lambda>v. v \<notin> seen) (firsts (resolved_urls H base page (element # rest)))
        = filter (\<lambda>v. v \<notin> seen) (firsts (resolved_urls H base page rest))"
      using 2 by (auto simp: element resolved_urls_Cons filter_seen)
    ultimately show ?thesis using Cons by simp
  next
    case 3
    let ?l = "\<lparr>link_url = u, link_anchor_text = collapse_and_cap_whitespace (raw_anchor_text texts)\<rparr>"
    have more: "filter (\<lambda>v. v \<notin> seen) (firsts (resolved_urls H base page (element # rest)))
        = u # filter (\<lambda>v. v \<notin> insert u seen) (firsts (resolved_urls H base page rest))"
      using 3 by (simp add: element resolved_urls_Cons filter_fresh)
    have deeper: "map link_url (collect_links H base page rest (insert u seen) (links @ [?l])) =
        take MAX_LINKS_PER_PAGE (map link_url (links @ [?l]) @
          filter (\<lambda>v. v \<notin> insert u seen) (firsts (resolved_urls H base page rest)))"
      if "\<not> MAX_LINKS_PER_PAGE \<le> Suc (length links)"
      by (rule Cons.IH) (use Cons.prems that in simp_all)
    have full: "take MAX_LINKS_PER_PAGE (map link_url links @ u # vs) = map link_url links @ [u]"
      if "MAX_LINKS_PER_PAGE \<le> Suc (length links)" for vs
    proof -
      have room: "MAX_LINKS_PER_PAGE - length links = 1" using that Cons.prems(2) by simp
      show ?thesis using Cons.prems(2) by (simp add: room)
    qed
    show ?thesis
      unfolding more using 3 deeper full by (simp add: element Let_def)
  qed
qed

lemma collect_links_anchors:
  "\<forall>l\<in>set links. char_count (link_anchor_text l) \<le> MAX_ANCHOR_TEXT_CHARS \<Longrightarrow>
    l \<in> set (collect_links H base page elements seen links) \<Longrightarrow>
    char_count (link_anchor_text l) \<le> MAX_ANCHOR_TEXT_CHARS"
  by (induction H base page elements seen links rule: collect_links.induct)
    (auto simp: Let_def collapse_and_cap_whitespace_def char_count_take split: option.splits if_splits)

text \<open>The URLs a page links to: those of its anchors that resolve to a web address that is not too long and
  not the page itself, each once, and no more than 500.\<close>

definition linked_urls :: "('u, 'd) web_parser \<Rightarrow> string \<Rightarrow> string \<Rightarrow> string list" where
  "linked_urls H base_url html =
     (case page_url_parse H base_url of
        None \<Rightarrow> []
      | Some page \<Rightarrow> (let document = parse_document H html in
          take MAX_LINKS_PER_PAGE (firsts (resolved_urls H (document_base_url H document page)
            (page_url_text H page) (anchors H document)))))"

lemma resolved_short: "Option.bind href (resolve_same_scheme_url H base) = Some u \<Longrightarrow> length u \<le> MAX_URL_BYTES"
  by (auto simp: resolve_same_scheme_url_def Let_def bind_eq_Some_conv split: if_splits)

lemma extracted_links:
  assumes "try_extract_links H base_url html = Some ls"
  shows "map link_url ls = linked_urls H base_url html"
    and "\<forall>l\<in>set ls. length (link_url l) \<le> MAX_URL_BYTES \<and> char_count (link_anchor_text l) \<le> MAX_ANCHOR_TEXT_CHARS"
    and "distinct (map link_url ls)" and "length ls \<le> MAX_LINKS_PER_PAGE"
proof -
  from assms obtain page where page: "page_url_parse H base_url = Some page" and
    ls: "ls = collect_links H (document_base_url H (parse_document H html) page) (page_url_text H page)
      (anchors H (parse_document H html)) {} []"
    by (auto simp: try_extract_links_def Let_def bind_eq_Some_conv split: if_splits)
  show urls: "map link_url ls = linked_urls H base_url html"
    unfolding ls linked_urls_def page by (simp add: collect_links_urls Let_def MAX_LINKS_PER_PAGE_def)
  have short: "length u \<le> MAX_URL_BYTES" if "u \<in> set (resolved_urls H base p es)" for u base p es
    using that by (auto simp: resolved_urls_def split: option.splits dest!: resolved_short [OF sym])
  have "length (link_url l) \<le> MAX_URL_BYTES" if "l \<in> set ls" for l
  proof -
    have "link_url l \<in> set (linked_urls H base_url html)" using that urls by (metis image_eqI list.set_map)
    then show ?thesis
      unfolding linked_urls_def page by (auto simp: Let_def dest!: in_set_takeD intro: short)
  qed
  then show "\<forall>l\<in>set ls. length (link_url l) \<le> MAX_URL_BYTES \<and> char_count (link_anchor_text l) \<le> MAX_ANCHOR_TEXT_CHARS"
    using collect_links_anchors [of "[]"] unfolding ls by auto
  show "distinct (map link_url ls)" unfolding urls linked_urls_def page by (simp add: Let_def)
  have "length (map link_url ls) \<le> MAX_LINKS_PER_PAGE" unfolding urls linked_urls_def page by (simp add: Let_def)
  then show "length ls \<le> MAX_LINKS_PER_PAGE" by simp
qed

section \<open>The tables stay well-formed\<close>

lemma char_count_le: "char_count s \<le> length s"
  by (simp add: char_count_def)

definition edges_ok :: "edge_row list \<Rightarrow> bool" where
  "edges_ok es \<longleftrightarrow> distinct (map edge_key es) \<and> list_all edge_fits es"

definition pages_ok :: "page_row list \<Rightarrow> bool" where
  "pages_ok ps \<longleftrightarrow> distinct (map page_url ps)"

lemma insert_edges_ok:
  "edges_ok (page_edges db) \<Longrightarrow> insert_edges rows db = Inr db' \<Longrightarrow> edges_ok (page_edges db')"
  by (auto simp: insert_edges_def edges_ok_def list_all_iff split: if_splits) (metis image_eqI)+

lemma edges_ok_filter: "edges_ok es \<Longrightarrow> edges_ok (filter P es)"
  by (auto simp: edges_ok_def list_all_iff distinct_map intro: inj_on_subset)

lemma replace_outbound_ok:
  "edges_ok (page_edges db) \<Longrightarrow> replace_outbound source ls now db = Inr db' \<Longrightarrow> edges_ok (page_edges db')"
  by (auto simp: replace_outbound_def Let_def edges_ok_filter dest: insert_edges_ok [rotated] split: if_splits)

lemma edge_rows_fields:
  "map to_url (edge_rows k source ls now) = map link_url ls"
  "r \<in> set (edge_rows k source ls now) \<Longrightarrow> from_url r = source \<and> edge_relation r = LinksTo
     \<and> (\<exists>l\<in>set ls. to_url r = link_url l \<and> edge_anchor_text r = link_anchor_text l)"
  by (auto simp: edge_rows_def comp_def split_def in_set_enumerate_eq simp flip: map_map
      [of link_url snd, unfolded comp_def])

lemma replace_outbound_spec:
  assumes ls: "\<forall>l\<in>set ls. length (link_url l) \<le> MAX_URL_BYTES \<and> char_count (link_anchor_text l) \<le> MAX_ANCHOR_TEXT_CHARS"
    and d: "distinct (map link_url ls)" and src: "length source \<le> MAX_URL_BYTES"
  shows "\<exists>db'. replace_outbound source ls now db = Inr db'
    \<and> page_edges db' = filter (\<lambda>e. \<not> outbound source e) (page_edges db) @ edge_rows (next_edge_id db) source ls now
    \<and> pages db' = pages db \<and> crawl_jobs db' = crawl_jobs db"
proof (cases "ls = []")
  case True
  then show ?thesis by (simp add: replace_outbound_def edge_rows_def)
next
  case False
  let ?rows = "edge_rows (next_edge_id db) source ls now"
  have fits: "list_all edge_fits ?rows"
    using ls src edge_rows_fields(2) by (fastforce simp: list_all_iff edge_fits_def intro: order.trans [OF char_count_le])
  have "map edge_key ?rows = map (\<lambda>u. (source, u, LinksTo)) (map to_url ?rows)"
    using edge_rows_fields(2) by (fastforce simp: edge_key_def)
  then have dist: "distinct (map edge_key ?rows)"
    using d unfolding edge_rows_fields(1) by (simp add: distinct_map inj_on_def)
  have new: "edge_key r \<notin> edge_key ` set (filter (\<lambda>e. \<not> outbound source e) (page_edges db))" if "r \<in> set ?rows" for r
    using edge_rows_fields(2) [OF that] by (auto simp: edge_key_def outbound_def)
  show ?thesis
    using False fits dist new by (auto simp: replace_outbound_def Let_def insert_edges_def)
qed

end
