(* ===== verification/Crawl_Graph.thy ===== *)
theory Crawl_Graph
  imports Crawl_Pages "HOL-Library.Char_ord" "HOL-Library.List_Lexorder"
begin

text \<open>
  \<^verbatim>\<open>services/crawler/src/graph.rs\<close>: what is reachable from a page, by a breadth-first walk with one query
  per hop. What a statement of the call sees of the tables, or its error, the collation of the database
  and the order in which a hash map hands out its entries are parameters. Shown: on tables that rest and
  whose hops fit the row limit, the walk finds every page within the depth at its least distance, and the
  answer is the nearest ones in their order, whatever the hash map does.
\<close>

section \<open>The code\<close>

definition MAX_REQUESTABLE_DEPTH :: nat where "MAX_REQUESTABLE_DEPTH = 3"
definition MAX_RETURNED_NEIGHBORS :: nat where "MAX_RETURNED_NEIGHBORS = 200"
definition MAX_FRONTIER_ROWS_PER_HOP :: nat where "MAX_FRONTIER_ROWS_PER_HOP = 5000"

record neighbor =
  neighbor_url :: string
  neighbor_page_id :: "int option"
  neighbor_title :: "string option"
  neighbor_relation :: relation_type
  neighbor_depth :: nat

text \<open>\<open>tables_at i\<close> is what the statement numbered \<open>i\<close> reads; a collation is given by its sort keys.\<close>

record graph_reads =
  tables_at :: "nat \<Rightarrow> string + crawl_db"
  collation_key :: "string \<Rightarrow> string"
  map_order :: "(string \<times> nat \<times> relation_type) list \<Rightarrow> (string \<times> nat \<times> relation_type) list"

definition wanted_edge :: "string list \<Rightarrow> relation_type list \<Rightarrow> edge_row \<Rightarrow> bool" where
  "wanted_edge from_urls relation_types e \<longleftrightarrow>
     from_url e \<in> set from_urls \<and> (relation_types \<noteq> [] \<longrightarrow> edge_relation e \<in> set relation_types)"

definition edges_from_urls ::
  "graph_reads \<Rightarrow> nat \<Rightarrow> string list \<Rightarrow> relation_type list \<Rightarrow> string + (string \<times> relation_type) list" where
  "edges_from_urls R i from_urls relation_types =
     (if from_urls = [] then Inr []
      else and_then (tables_at R i) (\<lambda>db. Inr
        (map (\<lambda>e. (to_url e, edge_relation e))
          (take MAX_FRONTIER_ROWS_PER_HOP
            (sort_key (\<lambda>e. (collation_key R (to_url e), relation_num (edge_relation e)))
              (filter (wanted_edge from_urls relation_types) (page_edges db)))))))"

text \<open>The map from a URL to its depth and relation is the list of its entries, in the order of insertion.\<close>

fun note_edges ::
  "string \<Rightarrow> nat \<Rightarrow> (string \<times> relation_type) list \<Rightarrow> (string \<times> nat \<times> relation_type) list \<Rightarrow> string list
    \<Rightarrow> (string \<times> nat \<times> relation_type) list \<times> string list" where
  "note_edges start depth [] shallowest frontier = (shallowest, frontier)"
| "note_edges start depth ((u, r) # edges) shallowest frontier =
     (if u = start \<or> u \<in> fst ` set shallowest then note_edges start depth edges shallowest frontier
      else note_edges start depth edges (shallowest @ [(u, depth, r)]) (frontier @ [u]))"

fun walk_hops ::
  "graph_reads \<Rightarrow> string \<Rightarrow> relation_type list \<Rightarrow> nat list \<Rightarrow> (string \<times> nat \<times> relation_type) list
    \<Rightarrow> string list \<Rightarrow> string + (string \<times> nat \<times> relation_type) list" where
  "walk_hops R start types [] shallowest frontier = Inr shallowest"
| "walk_hops R start types (depth # depths) shallowest frontier =
     (if frontier = [] then Inr shallowest
      else and_then (edges_from_urls R depth frontier types) (\<lambda>edges.
        let (shallowest', frontier') = note_edges start depth edges shallowest [] in
        walk_hops R start types depths shallowest' frontier'))"

definition pages_by_url :: "graph_reads \<Rightarrow> nat \<Rightarrow> string list \<Rightarrow> string + page_row list" where
  "pages_by_url R i urls =
     (if urls = [] then Inr []
      else and_then (tables_at R i) (\<lambda>db. Inr (filter (\<lambda>p. page_url p \<in> set urls) (pages db))))"

definition ranked_neighbors ::
  "graph_reads \<Rightarrow> (string \<times> nat \<times> relation_type) list \<Rightarrow> (string \<times> nat \<times> relation_type) list" where
  "ranked_neighbors R shallowest =
     take MAX_RETURNED_NEIGHBORS (sort_key (\<lambda>(u, depth, r). (depth, u)) (map_order R shallowest))"

definition neighbors ::
  "graph_reads \<Rightarrow> string \<Rightarrow> relation_type list \<Rightarrow> nat \<Rightarrow> string + neighbor list" where
  "neighbors R start relation_types max_depth =
     and_then (walk_hops R start relation_types [1..<Suc max_depth] [] [start]) (\<lambda>shallowest.
       let ranked = ranked_neighbors R shallowest in
       and_then (pages_by_url R (Suc max_depth) (map fst ranked)) (\<lambda>found.
         Inr (map (\<lambda>(u, depth, r).
           let page = find (\<lambda>p. page_url p = u) found in
           \<lparr>neighbor_url = u, neighbor_page_id = map_option page_id page,
            neighbor_title = map_option row_title page, neighbor_relation = r, neighbor_depth = depth\<rparr>) ranked)))"

section \<open>Distances\<close>

text \<open>The pages that a chain of \<open>n\<close> edges of the types leads to, and those that no shorter chain leads to.\<close>

definition of_type :: "relation_type list \<Rightarrow> edge_row \<Rightarrow> bool" where
  "of_type types e \<longleftrightarrow> (types \<noteq> [] \<longrightarrow> edge_relation e \<in> set types)"

fun hops :: "edge_row list \<Rightarrow> relation_type list \<Rightarrow> string \<Rightarrow> nat \<Rightarrow> string set" where
  "hops es types start 0 = {start}"
| "hops es types start (Suc n) =
     {to_url e | e. e \<in> set es \<and> of_type types e \<and> from_url e \<in> hops es types start n}"

definition first_at :: "edge_row list \<Rightarrow> relation_type list \<Rightarrow> string \<Rightarrow> nat \<Rightarrow> string set" where
  "first_at es types start n = hops es types start n - (\<Union>k<n. hops es types start k)"

lemma first_at_0 [simp]: "first_at es types start 0 = {start}"
  by (simp add: first_at_def)

lemma first_at_unique: "u \<in> first_at es types start j \<Longrightarrow> u \<in> first_at es types start k \<Longrightarrow> j = k"
  by (auto simp: first_at_def) (metis lessThan_iff linorder_neqE_nat)

lemma first_at_Suc:
  "first_at es types start (Suc n) =
     {to_url e | e. e \<in> set es \<and> of_type types e \<and> from_url e \<in> first_at es types start n}
     - (\<Union>k\<le>n. first_at es types start k)" (is "?l = ?r - ?s")
proof
  have earlier: "\<exists>j\<le>k. u \<in> first_at es types start j" if "u \<in> hops es types start k" for u k
  proof -
    define j where "j = (LEAST j. u \<in> hops es types start j)"
    have "u \<in> hops es types start j" "j \<le> k" unfolding j_def using that by (auto intro: LeastI Least_le)
    moreover have "u \<notin> hops es types start i" if "i < j" for i using that unfolding j_def by (rule not_less_Least)
    ultimately show ?thesis unfolding first_at_def by blast
  qed
  show "?l \<subseteq> ?r - ?s"
  proof
    fix u assume u: "u \<in> ?l"
    then obtain e where e: "u = to_url e" "e \<in> set es" "of_type types e" "from_url e \<in> hops es types start n"
      by (auto simp: first_at_def)
    obtain j where j: "j \<le> n" "from_url e \<in> first_at es types start j" using earlier [OF e(4)] by blast
    have "u \<in> hops es types start (Suc j)" using e j by (auto simp: first_at_def)
    then have "j = n" using u j(1) unfolding first_at_def by (metis DiffD2 UN_iff Suc_lessI Suc_less_eq lessThan_iff le_eq_less_or_eq)
    then have "u \<in> ?r" using e j by blast
    moreover have "u \<notin> ?s" using u first_at_unique by fastforce
    ultimately show "u \<in> ?r - ?s" by blast
  qed
  show "?r - ?s \<subseteq> ?l"
  proof
    fix u assume u: "u \<in> ?r - ?s"
    then have "u \<in> hops es types start (Suc n)" by (auto simp: first_at_def)
    moreover have "u \<notin> hops es types start k" if "k < Suc n" for k
      using earlier [of u k] u that by (meson DiffD2 UN_iff atMost_iff less_Suc_eq_le order.trans)
    ultimately show "u \<in> ?l" by (auto simp: first_at_def)
  qed
qed

lemma first_at_empty: "first_at es types start n = {} \<Longrightarrow> n \<le> k \<Longrightarrow> first_at es types start k = {}"
proof (induction k)
  case (Suc k)
  show ?case
  proof (cases "n = Suc k")
    case False
    with Suc have "first_at es types start k = {}" by simp
    then show ?thesis unfolding first_at_Suc by simp
  qed (use Suc.prems in simp)
qed simp

section \<open>The walk\<close>

lemma note_edges_urls:
  "note_edges start depth edges shallowest frontier = (shallowest', frontier') \<Longrightarrow>
     fst ` set shallowest' = fst ` set shallowest \<union> (fst ` set edges - {start})"
  by (induction start depth edges shallowest frontier rule: note_edges.induct) (auto split: if_splits)

lemma note_edges_frontier:
  "note_edges start depth edges shallowest frontier = (shallowest', frontier') \<Longrightarrow>
     set frontier' = set frontier \<union> (fst ` set edges - {start} - fst ` set shallowest)"
  by (induction start depth edges shallowest frontier rule: note_edges.induct) (auto split: if_splits)

lemma note_edges_distinct:
  "note_edges start depth edges shallowest frontier = (shallowest', frontier') \<Longrightarrow>
     distinct (map fst shallowest) \<Longrightarrow> distinct (map fst shallowest')"
  by (induction start depth edges shallowest frontier rule: note_edges.induct) (auto split: if_splits)

lemma note_edges_new:
  "note_edges start depth edges shallowest frontier = (shallowest', frontier') \<Longrightarrow>
     (u, k, r) \<in> set shallowest' \<Longrightarrow> (u, k, r) \<notin> set shallowest \<Longrightarrow>
     k = depth \<and> u \<notin> fst ` set shallowest \<and> u \<noteq> start \<and> (u, r) \<in> set edges"
  by (induction start depth edges shallowest frontier rule: note_edges.induct) (auto split: if_splits)

text \<open>The tables rest, and no hop meets more rows than one query returns.\<close>

definition rests :: "graph_reads \<Rightarrow> crawl_db \<Rightarrow> relation_type list \<Rightarrow> bool" where
  "rests R db types \<longleftrightarrow>
     (\<forall>i. tables_at R i = Inr db)
     \<and> length (filter (of_type types) (page_edges db)) \<le> MAX_FRONTIER_ROWS_PER_HOP"

lemma edges_of_frontier:
  assumes "rests R db types" and "frontier \<noteq> []"
  shows "\<exists>edges. edges_from_urls R i frontier types = Inr edges
    \<and> set edges = {(to_url e, edge_relation e) | e. e \<in> set (page_edges db) \<and> of_type types e \<and> from_url e \<in> set frontier}"
proof -
  let ?es = "filter (wanted_edge frontier types) (page_edges db)"
  have eq: "?es = filter (\<lambda>e. from_url e \<in> set frontier) (filter (of_type types) (page_edges db))"
    by (auto simp: wanted_edge_def of_type_def filter_filter intro!: filter_cong)
  have "length ?es \<le> MAX_FRONTIER_ROWS_PER_HOP"
    unfolding eq using assms(1) order.trans [OF length_filter_le] unfolding rests_def by blast
  then show ?thesis
    using assms by (auto simp: edges_from_urls_def rests_def eq image_iff)
qed

text \<open>\<open>found_below es types start n noted\<close>: \<open>noted\<close> are the pages first reached in less than \<open>n\<close> hops,
  each once, with their depth and the relation of an edge that reached them.\<close>

definition found_below ::
  "edge_row list \<Rightarrow> relation_type list \<Rightarrow> string \<Rightarrow> nat \<Rightarrow> (string \<times> nat \<times> relation_type) list \<Rightarrow> bool" where
  "found_below es types start n noted \<longleftrightarrow>
     distinct (map fst noted)
     \<and> fst ` set noted = (\<Union>k\<in>{1..<n}. first_at es types start k)
     \<and> (\<forall>(u, k, r)\<in>set noted. 1 \<le> k \<and> k < n \<and> u \<in> first_at es types start k
          \<and> (\<exists>e\<in>set es. of_type types e \<and> from_url e \<in> first_at es types start (k - 1) \<and> to_url e = u \<and> edge_relation e = r))"

lemma found_below_hop:
  assumes inv: "found_below (page_edges db) types start depth shallowest"
    and frontier: "set frontier = first_at (page_edges db) types start (depth - 1)" and "1 \<le> depth"
    and edges: "set edges = {(to_url e, edge_relation e) | e. e \<in> set (page_edges db) \<and> of_type types e \<and> from_url e \<in> set frontier}"
    and noting: "note_edges start depth edges shallowest [] = (shallowest', frontier')"
  shows "found_below (page_edges db) types start (Suc depth) shallowest'"
    and "set frontier' = first_at (page_edges db) types start depth"
proof -
  let ?first = "first_at (page_edges db) types start"
  obtain n where n: "depth = Suc n" using \<open>1 \<le> depth\<close> by (cases depth) simp_all
  have d: "distinct (map fst shallowest)" and dom: "fst ` set shallowest = (\<Union>k\<in>{1..<depth}. ?first k)"
    using inv by (auto simp: found_below_def)
  have upto: "insert start (fst ` set shallowest) = (\<Union>k\<le>n. ?first k)"
  proof -
    have "{..n} = insert 0 {1..<depth}" using n by auto
    then show ?thesis unfolding dom by simp
  qed
  have reached: "fst ` set edges - {start} - fst ` set shallowest = ?first depth"
    unfolding n first_at_Suc upto [symmetric] edges frontier n by (auto simp: image_iff)
  show "set frontier' = ?first depth" using note_edges_frontier [OF noting] reached by simp
  have "fst ` set shallowest' = (\<Union>k\<in>{1..<Suc depth}. ?first k)"
  proof -
    have "{1..<Suc depth} = insert depth {1..<depth}" using \<open>1 \<le> depth\<close> by auto
    then show ?thesis using note_edges_urls [OF noting] dom reached by auto
  qed
  moreover have "1 \<le> k \<and> k < Suc depth \<and> u \<in> ?first k \<and> (\<exists>e\<in>set (page_edges db). of_type types e \<and>
      from_url e \<in> ?first (k - 1) \<and> to_url e = u \<and> edge_relation e = r)" if "(u, k, r) \<in> set shallowest'" for u k r
  proof (cases "(u, k, r) \<in> set shallowest")
    case True
    then show ?thesis using inv unfolding found_below_def by fastforce
  next
    case False
    then have new: "k = depth" "u \<notin> fst ` set shallowest" "u \<noteq> start" "(u, r) \<in> set edges"
      using note_edges_new [OF noting that False] by simp_all
    then have "u \<in> ?first depth" using reached by (metis DiffI fst_conv image_eqI singletonD)
    moreover obtain e where "e \<in> set (page_edges db)" "of_type types e" "from_url e \<in> ?first (depth - 1)"
      "to_url e = u" "edge_relation e = r" using new(4) unfolding edges frontier by blast
    ultimately show ?thesis using new(1) \<open>1 \<le> depth\<close> by blast
  qed
  ultimately show "found_below (page_edges db) types start (Suc depth) shallowest'"
    using note_edges_distinct [OF noting d] unfolding found_below_def by blast
qed

lemma walk_finds:
  assumes rests: "rests R db types"
    and "found_below (page_edges db) types start depth shallowest"
    and "set frontier = first_at (page_edges db) types start (depth - 1)" and "1 \<le> depth" and "depth \<le> Suc max_depth"
  shows "\<exists>noted. walk_hops R start types [depth..<Suc max_depth] shallowest frontier = Inr noted
    \<and> found_below (page_edges db) types start (Suc max_depth) noted"
  using assms(2-)
proof (induction "Suc max_depth - depth" arbitrary: depth shallowest frontier)
  case 0
  then show ?case by (auto simp: le_antisym)
next
  case (Suc m)
  then have less: "[depth..<Suc max_depth] = depth # [Suc depth..<Suc max_depth]" by (subst upt_rec) auto
  show ?case
  proof (cases "frontier = []")
    case True
    then have "first_at (page_edges db) types start k = {}" if "depth - 1 \<le> k" for k
      using first_at_empty [OF _ that] Suc.prems(2) by simp
    then have "k < depth" if "u \<in> first_at (page_edges db) types start k" for u k
      using that by (metis diff_le_self empty_iff linorder_not_less order.trans)
    then have "(\<Union>k\<in>{1..<depth}. first_at (page_edges db) types start k)
        = (\<Union>k\<in>{1..<Suc max_depth}. first_at (page_edges db) types start k)"
      using Suc.prems(4) by force
    moreover have "k < Suc max_depth" if "k < depth" for k using that Suc.prems(4) by simp
    ultimately have "found_below (page_edges db) types start (Suc max_depth) shallowest"
      using Suc.prems(1) unfolding found_below_def by (simp add: case_prod_beta)
    then show ?thesis using True less by simp
  next
    case False
    obtain edges where edges: "edges_from_urls R depth frontier types = Inr edges" "set edges =
        {(to_url e, edge_relation e) | e. e \<in> set (page_edges db) \<and> of_type types e \<and> from_url e \<in> set frontier}"
      using edges_of_frontier [OF rests False] by blast
    obtain shallowest' frontier' where noting: "note_edges start depth edges shallowest [] = (shallowest', frontier')"
      by (cases "note_edges start depth edges shallowest []")
    note hop = found_below_hop [OF Suc.prems(1-3) edges(2) noting]
    have "\<exists>noted. walk_hops R start types [Suc depth..<Suc max_depth] shallowest' frontier' = Inr noted
        \<and> found_below (page_edges db) types start (Suc max_depth) noted"
      using hop Suc.hyps(2) by (intro Suc.hyps(1)) auto
    then show ?thesis using False less edges(1) noting by simp
  qed
qed

section \<open>The answer\<close>

definition nearness :: "neighbor \<Rightarrow> nat \<times> string" where
  "nearness n = (neighbor_depth n, neighbor_url n)"

lemma sorted_take_rest:
  assumes "sorted (map f xs)" and "x \<in> set xs" and "x \<notin> set (take n xs)" and "y \<in> set (take n xs)"
  shows "f y \<le> f x"
proof -
  have "set (take n xs) \<union> set (drop n xs) = set xs" by (metis append_take_drop_id set_append)
  then have "x \<in> set (drop n xs)" using assms(2,3) by blast
  moreover have "map f xs = map f (take n xs) @ map f (drop n xs)" by (simp flip: map_append)
  then have "sorted (map f (take n xs) @ map f (drop n xs))" using assms(1) by simp
  ultimately show ?thesis using assms(4) unfolding sorted_append by auto
qed

definition neighbor_of :: "crawl_db \<Rightarrow> string \<times> nat \<times> relation_type \<Rightarrow> neighbor" where
  "neighbor_of db = (\<lambda>(u, depth, r).
     \<lparr>neighbor_url = u, neighbor_page_id = map_option page_id (page_by_url db u),
      neighbor_title = map_option row_title (page_by_url db u), neighbor_relation = r, neighbor_depth = depth\<rparr>)"

lemma find_filter:
  assumes "\<And>x. P x \<Longrightarrow> Q x"
  shows "find P (filter Q xs) = find P xs"
proof (induction xs)
  case (Cons x xs)
  then show ?case using assms [of x] by (cases "P x") simp_all
qed simp

lemma neighbors_eq:
  assumes rests: "rests R db types"
    and "walk_hops R start types [1..<Suc max_depth] [] [start] = Inr noted"
  shows "neighbors R start types max_depth = Inr (map (neighbor_of db) (ranked_neighbors R noted))"
proof -
  let ?ranked = "ranked_neighbors R noted"
  have "find (\<lambda>p. page_url p = u) (filter (\<lambda>p. page_url p \<in> fst ` set ?ranked) (pages db)) = page_by_url db u"
    if "(u, depth, r) \<in> set ?ranked" for u depth r
    unfolding page_by_url_def by (rule find_filter) (use that in force)
  then show ?thesis
    using assms by (auto simp: neighbors_def pages_by_url_def rests_def neighbor_of_def Let_def)
qed

abbreviation entry_nearness :: "string \<times> nat \<times> relation_type \<Rightarrow> nat \<times> string" where
  "entry_nearness \<equiv> \<lambda>(u, depth, r). (depth, u)"

lemma neighbor_of_simps [simp]:
  "nearness (neighbor_of db x) = entry_nearness x" "neighbor_url (neighbor_of db x) = fst x"
  by (simp_all add: nearness_def neighbor_of_def split: prod.splits)

text \<open>What the answer says of one page, and of the pages it leaves out.\<close>

definition well_placed :: "crawl_db \<Rightarrow> relation_type list \<Rightarrow> string \<Rightarrow> nat \<Rightarrow> neighbor \<Rightarrow> bool" where
  "well_placed db types start max_depth n \<longleftrightarrow> neighbor_depth n \<in> {1..max_depth}
     \<and> neighbor_url n \<in> first_at (page_edges db) types start (neighbor_depth n)
     \<and> (\<exists>e\<in>set (page_edges db). of_type types e \<and> to_url e = neighbor_url n \<and> edge_relation e = neighbor_relation n
          \<and> from_url e \<in> first_at (page_edges db) types start (neighbor_depth n - 1))
     \<and> neighbor_page_id n = map_option page_id (page_by_url db (neighbor_url n))
     \<and> neighbor_title n = map_option row_title (page_by_url db (neighbor_url n))"

lemma found_well_placed:
  assumes "found_below (page_edges db) types start (Suc max_depth) noted" and "x \<in> set noted"
  shows "well_placed db types start max_depth (neighbor_of db x)"
proof -
  obtain u k r where "x = (u, k, r)" by (cases x)
  with assms show ?thesis by (fastforce simp: found_below_def neighbor_of_def well_placed_def)
qed

lemma left_out_is_farther:
  assumes found: "found_below es types start (Suc max_depth) noted" and set_eq: "set xs = set noted"
    and sorted: "sorted (map entry_nearness xs)"
    and k: "k \<in> {1..max_depth}" and u: "u \<in> first_at es types start k" and out: "u \<notin> fst ` set (take n xs)"
  shows "length (take n xs) = n \<and> (\<forall>x\<in>set (take n xs). entry_nearness x \<le> (k, u))"
proof -
  have "u \<in> fst ` set noted" using found k u by (force simp: found_below_def)
  then obtain j r where x: "(u, j, r) \<in> set xs" using set_eq by force
  have "u \<in> first_at es types start j" using found x set_eq by (fastforce simp: found_below_def)
  with u have "j = k" by (metis first_at_unique)
  have new: "(u, j, r) \<notin> set (take n xs)" using out by force
  then have "length (take n xs) = n" using x by (metis length_take min.cobounded2 min_def take_all_iff)
  then show ?thesis using sorted_take_rest [OF sorted x new] \<open>j = k\<close> by fastforce
qed


end
