(* ===== verification/Crawl_Jobs.thy ===== *)
theory Crawl_Jobs
  imports Crawl_Graph
begin

text \<open>
  The life of a crawl job: the fetched pages on their way to storage (\<^verbatim>\<open>services/crawler/src/crawl.rs\<close>),
  the rows of jobs and their statements (\<^verbatim>\<open>job_store.rs\<close>), the creation of a job statement by statement
  and the run of one (\<^verbatim>\<open>jobs.rs\<close>), and the hand-off to the knowledge base (\<^verbatim>\<open>knowledge_base.rs\<close>), which is
  the model of that service. A statement of the database may fail, before or after it took effect. The
  fetcher is \<^verbatim>\<open>spider\<close>, of which the pages it hands out are a parameter. The tasks that store pages and
  edges run side by side: a run takes their work in a given interleaving.
\<close>

section \<open>crawl.rs\<close>

definition FETCH_CONCURRENCY :: nat where "FETCH_CONCURRENCY = 2"
definition USER_AGENT_CRAWLER :: string where "USER_AGENT_CRAWLER = ''ai-engineering-boilerplate-crawler/0.1''"

record crawl_limits =
  max_pages :: u32
  request_timeout_secs :: nat

datatype crawl_error = Unreachable | PagesLost u32

text \<open>\<^verbatim>\<open>website\<close> is what the builder of \<^verbatim>\<open>spider\<close> is told.\<close>

record website =
  website_base_url :: string
  respect_robots_txt :: bool
  with_subdomains :: bool
  website_limit :: u32
  concurrency_limit :: nat
  website_timeout_secs :: nat
  website_user_agent :: string
  blacklist_url :: "string list"

definition configured_website :: "regex_engine \<Rightarrow> string \<Rightarrow> crawl_scope \<Rightarrow> crawl_limits \<Rightarrow> website" where
  "configured_website E base_url scope limits =
     \<lparr>website_base_url = base_url, respect_robots_txt = True, with_subdomains = False,
      website_limit = max_pages limits, concurrency_limit = FETCH_CONCURRENCY,
      website_timeout_secs = request_timeout_secs limits, website_user_agent = USER_AGENT_CRAWLER,
      blacklist_url = scope_blacklist E scope\<rparr>"

record spider_page =
  spider_url :: string
  spider_url_final :: string
  spider_html :: string
  spider_status :: u16

record fetched_page =
  final_url :: string
  fetched_html :: string

record crawl_progress =
  any_fetched :: bool
  pages_emitted :: u32
  pages_lost :: u32

text \<open>The receiving ends of the two channels, still there or dropped, and what was sent so far.\<close>

record outlets =
  counted_open :: bool
  fetched_open :: bool
  sent_counted :: "counted_page list"
  sent_fetched :: "fetched_page list"

definition success_status :: "u16 \<Rightarrow> bool" where "success_status s \<longleftrightarrow> 200 \<le> s \<and> s < 300"

definition lose_page :: "crawl_progress \<Rightarrow> crawl_progress" where
  "lose_page progress = progress\<lparr>pages_lost := saturating_add (pages_lost progress) 1\<rparr>"

definition send_counted :: "counted_page \<Rightarrow> crawl_progress \<times> outlets \<Rightarrow> crawl_progress \<times> outlets" where
  "send_counted p = (\<lambda>(progress, out).
     if counted_open out then (progress, out\<lparr>sent_counted := sent_counted out @ [p]\<rparr>)
     else (lose_page progress, out))"

definition send_fetched :: "fetched_page \<Rightarrow> crawl_progress \<times> outlets \<Rightarrow> crawl_progress \<times> outlets" where
  "send_fetched p = (\<lambda>(progress, out).
     if fetched_open out then (progress, out\<lparr>sent_fetched := sent_fetched out @ [p]\<rparr>)
     else (lose_page progress, out))"

definition counted_of :: "spider_page \<Rightarrow> counted_page" where
  "counted_of page = \<lparr>counted_url = spider_url page, counted_html = spider_html page, counted_status = spider_status page\<rparr>"

definition fetched_of :: "spider_page \<Rightarrow> fetched_page" where
  "fetched_of page = \<lparr>final_url = spider_url_final page, fetched_html = spider_html page\<rparr>"

definition forward_page ::
  "regex_engine \<Rightarrow> crawl_scope \<Rightarrow> u32 \<Rightarrow> spider_page \<Rightarrow> crawl_progress \<times> outlets \<Rightarrow> crawl_progress \<times> outlets" where
  "forward_page E scope limit page = (\<lambda>(progress, out).
     if \<not> success_status (spider_status page) then (progress, out)
     else let progress1 = progress\<lparr>any_fetched := True\<rparr> in
       if limit \<le> pages_emitted progress1 then (lose_page progress1, out)
       else let progress2 = progress1\<lparr>pages_emitted := pages_emitted progress1 + 1\<rparr> in
         if MAX_PARSEABLE_HTML_BYTES < length (spider_html page) then (progress2, out)
         else let after = (if scope_counts E scope (spider_url page)
                           then send_counted (counted_of page) (progress2, out) else (progress2, out)) in
           if length (spider_url_final page) \<le> MAX_URL_BYTES then send_fetched (fetched_of page) after
           else after)"

definition crawl_result :: "crawl_progress \<Rightarrow> crawl_error + unit" where
  "crawl_result progress =
     (if 0 < pages_lost progress then Inl (PagesLost (pages_lost progress))
      else if any_fetched progress then Inr () else Inl Unreachable)"

definition no_progress :: crawl_progress where
  "no_progress = \<lparr>any_fetched = False, pages_emitted = 0, pages_lost = 0\<rparr>"

text \<open>Pages are forwarded one by one, in the order in which the fetcher hands them out, up to the last.\<close>

definition crawl_into ::
  "regex_engine \<Rightarrow> crawl_scope \<Rightarrow> crawl_limits \<Rightarrow> spider_page list \<Rightarrow> outlets \<Rightarrow> (crawl_error + unit) \<times> outlets" where
  "crawl_into E scope limits received out =
     (let (progress, out') = fold (forward_page E scope (max_pages limits)) received (no_progress, out) in
      (crawl_result progress, out'))"

section \<open>job\_store.rs\<close>

datatype crawl_status = StatusUnspecified | StatusQueued | StatusRunning | StatusDone | StatusFailed

fun crawl_status_of :: "job_status \<Rightarrow> crawl_status" where
  "crawl_status_of JobQueued = StatusQueued"
| "crawl_status_of JobRunning = StatusRunning"
| "crawl_status_of JobDone = StatusDone"
| "crawl_status_of JobFailed = StatusFailed"

fun job_status_of :: "crawl_status \<Rightarrow> job_status" where
  "job_status_of StatusUnspecified = JobQueued"
| "job_status_of StatusQueued = JobQueued"
| "job_status_of StatusRunning = JobRunning"
| "job_status_of StatusDone = JobDone"
| "job_status_of StatusFailed = JobFailed"

record crawl_job =
  crawl_job_id :: int
  crawl_base_url :: string
  crawl_job_status :: crawl_status
  pages_crawled :: u32

definition stored_page_count :: "int \<Rightarrow> u32" where
  "stored_page_count n = (if 0 \<le> n \<and> n < 2 ^ 32 then word_of_int n else 0)"

definition job_from :: "job_row \<Rightarrow> crawl_job" where
  "job_from row =
     \<lparr>crawl_job_id = job_row_id row, crawl_base_url = job_base_url row,
      crawl_job_status = crawl_status_of (job_status row),
      pages_crawled = stored_page_count (job_pages_crawled row)\<rparr>"

definition MAX_BASE_URL_CHARS :: nat where "MAX_BASE_URL_CHARS = 2048"
definition JOB_KEY_COLUMN_CHARS :: nat where "JOB_KEY_COLUMN_CHARS = 128"

definition job_by_key :: "crawl_db \<Rightarrow> string \<Rightarrow> job_row option" where
  "job_by_key db key = find (\<lambda>r. job_key r = Some key) (crawl_jobs db)"

definition find_job_by_key :: "crawl_db \<Rightarrow> string \<Rightarrow> crawl_job option" where
  "find_job_by_key db key = map_option job_from (job_by_key db key)"

definition get_job :: "crawl_db \<Rightarrow> int \<Rightarrow> crawl_job option" where
  "get_job db key = map_option job_from (find (\<lambda>r. job_row_id r = key) (crawl_jobs db))"

definition new_job_row :: "int \<Rightarrow> string \<Rightarrow> string option \<Rightarrow> instant \<Rightarrow> job_row" where
  "new_job_row key base_url idempotency_key now =
     \<lparr>job_row_id = key, job_base_url = base_url, job_status = JobQueued, job_pages_crawled = 0,
      job_key = idempotency_key, job_created_at = now, job_updated_at = now\<rparr>"

text \<open>The insert with the constraints of the table. That a refused insert uses up an id is left out.\<close>

definition insert_job :: "string \<Rightarrow> string option \<Rightarrow> instant \<Rightarrow> crawl_db \<Rightarrow> string + crawl_job \<times> crawl_db" where
  "insert_job base_url key now db =
     (let row = new_job_row (next_job_id db) base_url key now in
      if MAX_BASE_URL_CHARS < char_count base_url
         \<or> (case key of None \<Rightarrow> False | Some k \<Rightarrow> JOB_KEY_COLUMN_CHARS < char_count k) then Inl VALUE_TOO_LONG
      else if key \<noteq> None \<and> list_ex (\<lambda>r. job_key r = key) (crawl_jobs db) then Inl DUPLICATE_KEY
      else Inr (job_from row, db\<lparr>crawl_jobs := crawl_jobs db @ [row], next_job_id := next_job_id db + 1\<rparr>))"

definition set_job_status :: "int \<Rightarrow> crawl_status \<Rightarrow> instant \<Rightarrow> crawl_db \<Rightarrow> crawl_db" where
  "set_job_status key s now db =
     db\<lparr>crawl_jobs := update_where (\<lambda>r. job_row_id r = key)
       (\<lambda>r. r\<lparr>job_status := job_status_of s, job_updated_at := now\<rparr>) (crawl_jobs db)\<rparr>"

definition OUT_OF_RANGE :: string where "OUT_OF_RANGE = ''integer out of range''"

definition add_crawled_page :: "int \<Rightarrow> instant \<Rightarrow> crawl_db \<Rightarrow> string + crawl_db" where
  "add_crawled_page key now db =
     (if list_ex (\<lambda>r. job_row_id r = key \<and> 2 ^ 31 \<le> job_pages_crawled r + 1) (crawl_jobs db)
      then Inl OUT_OF_RANGE
      else Inr (db\<lparr>crawl_jobs := update_where (\<lambda>r. job_row_id r = key)
        (\<lambda>r. r\<lparr>job_pages_crawled := job_pages_crawled r + 1, job_updated_at := now\<rparr>) (crawl_jobs db)\<rparr>))"

definition unfinished :: "job_row \<Rightarrow> bool" where
  "unfinished r \<longleftrightarrow> job_status r \<in> {JobQueued, JobRunning}"

definition fail_unfinished :: "instant \<Rightarrow> crawl_db \<Rightarrow> nat \<times> crawl_db" where
  "fail_unfinished now db =
     (rows_affected unfinished (crawl_jobs db),
      db\<lparr>crawl_jobs := update_where unfinished (\<lambda>r. r\<lparr>job_status := JobFailed, job_updated_at := now\<rparr>)
        (crawl_jobs db)\<rparr>)"

section \<open>jobs.rs: identity and creation\<close>

definition JOB_ID_PREFIX :: string where "JOB_ID_PREFIX = ''job-''"
definition MAX_CONCURRENT_CRAWLS :: nat where "MAX_CONCURRENT_CRAWLS = 2"

definition public_id :: "crawl_job \<Rightarrow> string" where
  "public_id job = JOB_ID_PREFIX @ show_int (crawl_job_id job)"

definition parse_job_id :: "string \<Rightarrow> int option" where
  "parse_job_id s = Option.bind (strip_prefix JOB_ID_PREFIX s) parse_i64"

text \<open>A call of \<^verbatim>\<open>create\<close> stands before its next statement or has returned.\<close>

datatype create_phase = Looking | Inserting | Rereading string | Answered "string + crawl_job \<times> bool"

record create_call =
  call_base_url :: string
  call_key :: "string option"
  call_phase :: create_phase

type_synonym fault = "(string \<times> bool) option"

definition look_up :: "fault \<Rightarrow> crawl_db \<Rightarrow> string \<Rightarrow> string + crawl_job option" where
  "look_up fault db key = (case fault of Some (e, _) \<Rightarrow> Inl e | None \<Rightarrow> Inr (find_job_by_key db key))"

definition insert_failed :: "string option \<Rightarrow> string \<Rightarrow> create_phase" where
  "insert_failed key e = (case key of None \<Rightarrow> Answered (Inl e) | Some _ \<Rightarrow> Rereading e)"

fun create_step :: "fault \<Rightarrow> instant \<Rightarrow> crawl_db \<Rightarrow> string \<Rightarrow> string option \<Rightarrow> create_phase \<Rightarrow> create_phase \<times> crawl_db" where
  "create_step fault now db base_url key Looking =
     (case key of
        None \<Rightarrow> (Inserting, db)
      | Some k \<Rightarrow> (case look_up fault db k of
          Inl e \<Rightarrow> (Answered (Inl e), db)
        | Inr None \<Rightarrow> (Inserting, db)
        | Inr (Some existing) \<Rightarrow> (Answered (Inr (existing, False)), db)))"
| "create_step fault now db base_url key Inserting =
     (case insert_job base_url key now db of
        Inl e \<Rightarrow> (insert_failed key (case fault of Some (e', _) \<Rightarrow> e' | None \<Rightarrow> e), db)
      | Inr (job, db') \<Rightarrow> (case fault of
          None \<Rightarrow> (Answered (Inr (job, True)), db')
        | Some (e, applied) \<Rightarrow> (insert_failed key e, if applied then db' else db)))"
| "create_step fault now db base_url key (Rereading e) =
     (case key of
        None \<Rightarrow> (Answered (Inl e), db)
      | Some k \<Rightarrow> (case look_up fault db k of
          Inl e' \<Rightarrow> (Answered (Inl e'), db)
        | Inr None \<Rightarrow> (Answered (Inl e), db)
        | Inr (Some raced_in_first) \<Rightarrow> (Answered (Inr (raced_in_first, False)), db)))"
| "create_step fault now db base_url key (Answered r) = (Answered r, db)"

text \<open>A call on its own, with its three statements in a row, after which it has returned
  (\<open>create_step_answers\<close>).\<close>

definition create_job ::
  "(nat \<Rightarrow> fault) \<Rightarrow> instant \<Rightarrow> string \<Rightarrow> string option \<Rightarrow> crawl_db \<Rightarrow> (string + crawl_job \<times> bool) \<times> crawl_db" where
  "create_job faults now base_url key db =
     (let (phase1, db1) = create_step (faults 0) now db base_url key Looking;
          (phase2, db2) = create_step (faults 1) now db1 base_url key phase1;
          (phase3, db3) = create_step (faults 2) now db2 base_url key phase2 in
      (case phase3 of Answered r \<Rightarrow> r | _ \<Rightarrow> Inl [], db3))"

section \<open>jobs.rs: the run\<close>

record ('u, 'd) crawl_env =
  ce_regex :: regex_engine
  ce_parser :: "('u, 'd) web_parser"
  ce_extractor :: extraction
  ce_fault :: "nat \<Rightarrow> fault"
  ce_clock :: "nat \<Rightarrow> instant"
  ce_kb :: kb_platform
  ce_kb_embedder :: string
  ce_kb_lost :: "nat \<Rightarrow> bool"

text \<open>The tables of the crawler, the number of statements run, what was handed to the knowledge base, and
  that service. A hand-off may be lost on its way.\<close>

record crawl_world =
  crawl_tables :: crawl_db
  statements :: nat
  handed :: "ingest_request list"
  knowledge :: kb_world

definition run_read :: "('u, 'd) crawl_env \<Rightarrow> (crawl_db \<Rightarrow> 'a) \<Rightarrow> crawl_world \<Rightarrow> (string + 'a) \<times> crawl_world" where
  "run_read C f w =
     ((case ce_fault C (statements w) of Some (e, _) \<Rightarrow> Inl e | None \<Rightarrow> Inr (f (crawl_tables w))),
      w\<lparr>statements := statements w + 1\<rparr>)"

definition run_write ::
  "('u, 'd) crawl_env \<Rightarrow> (instant \<Rightarrow> crawl_db \<Rightarrow> string + crawl_db) \<Rightarrow> crawl_world \<Rightarrow> (string + unit) \<times> crawl_world" where
  "run_write C f w =
     (let w' = w\<lparr>statements := statements w + 1\<rparr> in
      case f (ce_clock C (statements w)) (crawl_tables w) of
        Inl e \<Rightarrow> (Inl e, w')
      | Inr db \<Rightarrow> (case ce_fault C (statements w) of
          None \<Rightarrow> (Inr (), w'\<lparr>crawl_tables := db\<rparr>)
        | Some (e, applied) \<Rightarrow> (Inl e, if applied then w'\<lparr>crawl_tables := db\<rparr> else w')))"

definition save_page :: "('u, 'd) crawl_env \<Rightarrow> counted_page \<Rightarrow> crawl_world \<Rightarrow> (string + saved_page) \<times> crawl_world" where
  "save_page C p w =
     (let x = extract_page (ce_extractor C) (counted_url p) (counted_html p) in
      case run_read C (\<lambda>db. map_option row_content_hash (page_by_url db (counted_url p))) w of
        (Inl e, w1) \<Rightarrow> (Inl e, w1)
      | (Inr previous_hash, w1) \<Rightarrow>
          (case run_write C (\<lambda>now. upsert_page (page_row_of p x now 0)) w1 of
             (Inl e, w2) \<Rightarrow> (Inl e, w2)
           | (Inr _, w2) \<Rightarrow> (Inr \<lparr>saved_title = extracted_title x, saved_main_text = main_text x,
               saved_changed = (previous_hash \<noteq> Some (content_hash x))\<rparr>, w2)))"

definition set_crawl_status :: "('u, 'd) crawl_env \<Rightarrow> int \<Rightarrow> crawl_status \<Rightarrow> crawl_world \<Rightarrow> crawl_world" where
  "set_crawl_status C key s w = snd (run_write C (\<lambda>now db. Inr (set_job_status key s now db)) w)"

definition count_stored_page :: "('u, 'd) crawl_env \<Rightarrow> int \<Rightarrow> crawl_world \<Rightarrow> crawl_world" where
  "count_stored_page C key w = snd (run_write C (add_crawled_page key) w)"

definition CRAWLER_SOURCE :: string where "CRAWLER_SOURCE = ''crawler''"

definition crawler_ingest_request :: "string \<Rightarrow> string \<Rightarrow> string \<Rightarrow> ingest_request" where
  "crawler_ingest_request u title found =
     \<lparr>ingest_source = CRAWLER_SOURCE, ingest_source_id = u, ingest_title = title, ingest_content = found\<rparr>"

definition ingest_stored_page :: "('u, 'd) crawl_env \<Rightarrow> string \<Rightarrow> string \<Rightarrow> string \<Rightarrow> crawl_world \<Rightarrow> crawl_world" where
  "ingest_stored_page C u title found w =
     (let request = crawler_ingest_request u title found in
      w\<lparr>handed := handed w @ [request],
        knowledge := (if ce_kb_lost C (length (handed w)) then knowledge w
          else snd (ingest (ce_kb C) (ce_kb_embedder C) (ce_clock C (statements w)) request (knowledge w)))\<rparr>)"

definition store_counted_page :: "('u, 'd) crawl_env \<Rightarrow> int \<Rightarrow> counted_page \<Rightarrow> crawl_world \<Rightarrow> crawl_world" where
  "store_counted_page C key p w =
     (case save_page C p w of
        (Inl _, w1) \<Rightarrow> w1
      | (Inr saved, w1) \<Rightarrow>
          ingest_stored_page C (counted_url p) (saved_title saved) (saved_main_text saved)
            (count_stored_page C key w1))"

definition update_page_graph :: "('u, 'd) crawl_env \<Rightarrow> fetched_page \<Rightarrow> crawl_world \<Rightarrow> crawl_world" where
  "update_page_graph C p w =
     (case try_extract_links (ce_parser C) (final_url p) (fetched_html p) of
        None \<Rightarrow> w
      | Some links \<Rightarrow> snd (run_write C (replace_outbound (final_url p) links) w))"

datatype page_work = StorePage counted_page | LinkPage fetched_page

fun do_work :: "('u, 'd) crawl_env \<Rightarrow> int \<Rightarrow> page_work \<Rightarrow> crawl_world \<Rightarrow> crawl_world" where
  "do_work C key (StorePage p) w = store_counted_page C key p w"
| "do_work C key (LinkPage p) w = update_page_graph C p w"

definition outcome_status :: "crawl_error + unit \<Rightarrow> crawl_status" where
  "outcome_status outcome = (case outcome of Inr _ \<Rightarrow> StatusDone | Inl _ \<Rightarrow> StatusFailed)"

definition complete_job :: "('u, 'd) crawl_env \<Rightarrow> int \<Rightarrow> crawl_error + unit \<Rightarrow> crawl_world \<Rightarrow> crawl_world" where
  "complete_job C key outcome w = set_crawl_status C key (outcome_status outcome) w"

definition open_outlets :: outlets where
  "open_outlets = \<lparr>counted_open = True, fetched_open = True, sent_counted = [], sent_fetched = []\<rparr>"

text \<open>A run that holds its permit. \<open>spider\<close> gives the pages a website is crawled to, and \<open>interleave\<close> puts
  the work of the two tasks in the order in which it is done.\<close>

definition run_job ::
  "('u, 'd) crawl_env \<Rightarrow> (website \<Rightarrow> spider_page list) \<Rightarrow> (page_work list \<Rightarrow> page_work list \<Rightarrow> page_work list)
    \<Rightarrow> int \<Rightarrow> string \<Rightarrow> crawl_scope \<Rightarrow> crawl_limits \<Rightarrow> crawl_world \<Rightarrow> crawl_world" where
  "run_job C spider interleave key base_url scope limits w =
     (let w1 = set_crawl_status C key StatusRunning w;
          received = spider (configured_website (ce_regex C) base_url scope limits);
          (outcome, out) = crawl_into (ce_regex C) scope limits received open_outlets;
          w2 = fold (do_work C key)
            (interleave (map StorePage (sent_counted out)) (map LinkPage (sent_fetched out))) w1 in
      complete_job C key outcome w2)"

end
