(* ===== verification/Crawl_Props.thy ===== *)
theory Crawl_Props
  imports Crawl_Service Kb_Witnesses
begin

text \<open>
  The properties of crawl jobs: requests with one key share one job, whatever their statements interleave
  with; a started crawl can be asked for; a run reports what it stored; the edges of a page are its links.
  With concrete inputs for the properties of the crawler.
\<close>

section \<open>One job per key\<close>

text \<open>Any number of calls of \<^verbatim>\<open>create\<close>, each of their statements an atomic step that may fail, amid the other
  writes to the jobs.\<close>

inductive job_written :: "crawl_db \<Rightarrow> crawl_db \<Rightarrow> bool" where
  status_written: "job_written db (set_job_status i s now db)"
| page_counted: "add_crawled_page i now db = Inr db' \<Longrightarrow> job_written db db'"
| restarted: "job_written db (snd (fail_unfinished now db))"

inductive calls_reach :: "crawl_db \<Rightarrow> create_call list \<Rightarrow> bool" where
  calls_start: "jobs_ok db \<Longrightarrow> calls_reach db []"
| call_arrives: "calls_reach db cs \<Longrightarrow>
    calls_reach db (cs @ [\<lparr>call_base_url = u, call_key = key, call_phase = Looking\<rparr>])"
| call_advances: "calls_reach db cs \<Longrightarrow> i < length cs \<Longrightarrow>
    create_step fault now db (call_base_url (cs ! i)) (call_key (cs ! i)) (call_phase (cs ! i)) = (phase, db') \<Longrightarrow>
    calls_reach db' (cs[i := (cs ! i)\<lparr>call_phase := phase\<rparr>])"
| jobs_marked: "calls_reach db cs \<Longrightarrow> job_written db db' \<Longrightarrow> calls_reach db' cs"

definition created_id :: "create_call \<Rightarrow> int option" where
  "created_id c =
     (case call_phase c of Answered (Inr (job, created)) \<Rightarrow> if created then Some (crawl_job_id job) else None | _ \<Rightarrow> None)"

definition call_ok :: "crawl_db \<Rightarrow> create_call \<Rightarrow> bool" where
  "call_ok db c \<longleftrightarrow> answer_stored db (call_key c) (call_phase c)
     \<and> (\<forall>e. call_phase c = Rereading e \<longrightarrow> call_key c \<noteq> None)"

definition calls_ok :: "crawl_db \<Rightarrow> create_call list \<Rightarrow> bool" where
  "calls_ok db cs \<longleftrightarrow> jobs_ok db \<and> (\<forall>c\<in>set cs. call_ok db c)
     \<and> (\<forall>i<length cs. \<forall>j<length cs. created_id (cs ! i) \<noteq> None \<longrightarrow> created_id (cs ! i) = created_id (cs ! j) \<longrightarrow> i = j)"

lemma job_written_same: "job_written db db' \<Longrightarrow> same_jobs db db'"
  by (auto elim!: job_written.cases intro: same_jobs_writes)

lemma call_ok_rows:
  assumes "call_ok db c"
    and "\<And>r. r \<in> set (crawl_jobs db) \<Longrightarrow> \<exists>r'\<in>set (crawl_jobs db'). job_row_id r' = job_row_id r \<and> job_key r' = job_key r"
  shows "call_ok db' c"
  using assms unfolding call_ok_def answer_stored_def by metis

lemma create_step_rows:
  "create_step fault now db u key phase = (phase', db') \<Longrightarrow> set (crawl_jobs db) \<subseteq> set (crawl_jobs db')"
  by (cases "(fault, now, db, u, key, phase)" rule: create_step.cases)
    (auto dest!: insert_job_Inr(2) split: option.splits sum.splits prod.splits if_splits)

lemma create_step_created:
  "create_step fault now db u key phase = (Answered (Inr (job, True)), db') \<Longrightarrow>
     phase = Answered (Inr (job, True)) \<or> crawl_job_id job = next_job_id db"
  by (cases "(fault, now, db, u, key, phase)" rule: create_step.cases)
    (auto simp: insert_failed_def new_job_row_def dest!: insert_job_Inr(1) split: option.splits sum.splits prod.splits if_splits)

lemma created_id_stored:
  "call_ok db c \<Longrightarrow> created_id c = Some a \<Longrightarrow> \<exists>r\<in>set (crawl_jobs db). job_row_id r = a"
  by (auto simp: call_ok_def answer_stored_def created_id_def split: create_phase.splits sum.splits if_splits)

lemma injective_update:
  fixes f :: "nat \<Rightarrow> 'a option"
  assumes "\<forall>j<n. \<forall>k<n. f j \<noteq> None \<longrightarrow> f j = f k \<longrightarrow> j = k" and "x = f i \<or> x = None \<or> (\<forall>j<n. x \<noteq> f j)"
    and "i < n" and "j < n" and "k < n"
    and "(if j = i then x else f j) \<noteq> None" and "(if j = i then x else f j) = (if k = i then x else f k)"
  shows "j = k"
proof (rule ccontr)
  assume neq: "j \<noteq> k"
  then consider "j = i" "k \<noteq> i" | "j \<noteq> i" "k = i" | "j \<noteq> i" "k \<noteq> i" by blast
  then show False
  proof cases
    case 1
    then have "x = f k" "x \<noteq> None" using assms(6,7) by simp_all
    then show False using assms(1,2,3,5) 1(2) by metis
  next
    case 2
    then have "f j = x" "f j \<noteq> None" using assms(6,7) by simp_all
    then show False using assms(1,2,3,4) 2(1) by metis
  next
    case 3
    then have "f j = f k" "f j \<noteq> None" using assms(6,7) by simp_all
    then show False using assms(1,4,5) neq by metis
  qed
qed

lemma calls_reach_ok: "calls_reach db cs \<Longrightarrow> calls_ok db cs"
proof (induction rule: calls_reach.induct)
  case (calls_start db)
  then show ?case by (simp add: calls_ok_def)
next
  case (call_arrives db cs u key)
  then show ?case
    by (auto simp: calls_ok_def call_ok_def answer_stored_def created_id_def nth_append less_Suc_eq)
next
  case (call_advances db cs i fault now phase db')
  let ?c = "cs ! i" and ?c' = "(cs ! i)\<lparr>call_phase := phase\<rparr>"
  have ok: "jobs_ok db" and each: "\<And>c. c \<in> set cs \<Longrightarrow> call_ok db c" using call_advances.IH by (auto simp: calls_ok_def)
  note rows = create_step_rows [OF call_advances.hyps(3)]
  have "call_ok db ?c" using each call_advances.hyps(2) by simp
  then have new: "call_ok db' ?c'"
    using create_step_stored [OF call_advances.hyps(3)] by (simp add: call_ok_def)
  have old: "call_ok db' c" if "c \<in> set cs" for c
    using call_ok_rows [OF each [OF that]] rows by blast
  have fresh: "created_id ?c' = created_id ?c \<or> created_id ?c' = None \<or> created_id ?c' = Some (next_job_id db)"
    using create_step_created [of fault now db _ _ "call_phase ?c" _ db'] call_advances.hyps(3)
    by (auto simp: created_id_def split: create_phase.splits sum.splits prod.splits if_splits)
  have below: "created_id c \<noteq> Some (next_job_id db)" if "c \<in> set cs" for c
    using created_id_stored [OF each [OF that]] ok unfolding jobs_ok_def by fastforce
  have ids: "\<forall>j<length cs. \<forall>k<length cs. created_id (cs ! j) \<noteq> None \<longrightarrow> created_id (cs ! j) = created_id (cs ! k) \<longrightarrow> j = k"
    using call_advances.IH unfolding calls_ok_def by blast
  have "j = k" if "j < length cs" "k < length cs" "created_id (cs[i := ?c'] ! j) \<noteq> None"
    "created_id (cs[i := ?c'] ! j) = created_id (cs[i := ?c'] ! k)" for j k
  proof (rule injective_update [OF ids _ call_advances.hyps(2) that(1,2)])
    show "created_id ?c' = created_id ?c \<or> created_id ?c' = None \<or> (\<forall>j<length cs. created_id ?c' \<noteq> created_id (cs ! j))"
      using fresh below by force
  qed (use that call_advances.hyps(2) in \<open>auto simp: nth_list_update split: if_splits\<close>)
  moreover have "call_ok db' c" if "c \<in> set (cs[i := ?c'])" for c
    using set_update_subset_insert [of cs i ?c'] that new old by blast
  ultimately show ?case
    using create_step_ok [OF call_advances.hyps(3) ok] unfolding calls_ok_def length_list_update by blast
next
  case (jobs_marked db cs db')
  have "call_ok db' c" if "call_ok db c" for c
    using call_ok_rows [OF that] same_jobs_rows [OF job_written_same [OF jobs_marked.hyps(2)]] by blast
  then show ?case
    using jobs_marked.IH same_jobs_ok [OF job_written_same [OF jobs_marked.hyps(2)]] unfolding calls_ok_def by blast
qed

text \<open>C34: However the statements of the calls that create jobs interleave and fail, among themselves and with the
other writes to the jobs, all calls with one key that are answered with a job are answered with the same one,
and of all calls that get a job only one is told that it created it, which is the one that runs it.\<close>

theorem one_job_per_key:
  assumes "calls_reach db cs" and "i < length cs" and "j < length cs"
    and "call_phase (cs ! i) = Answered (Inr (job, created))"
    and "call_phase (cs ! j) = Answered (Inr (job', created'))"
  shows "(call_key (cs ! i) = Some k \<longrightarrow> call_key (cs ! j) = Some k \<longrightarrow> crawl_job_id job = crawl_job_id job')
    \<and> (crawl_job_id job = crawl_job_id job' \<longrightarrow> created \<longrightarrow> created' \<longrightarrow> i = j)"
proof -
  note ok = calls_reach_ok [OF assms(1)]
  have "call_ok db (cs ! i)" "call_ok db (cs ! j)" using ok assms(2,3) by (simp_all add: calls_ok_def)
  then obtain r r' where "r \<in> set (crawl_jobs db)" "job_row_id r = crawl_job_id job"
      "call_key (cs ! i) \<noteq> None \<longrightarrow> job_key r = call_key (cs ! i)"
      "r' \<in> set (crawl_jobs db)" "job_row_id r' = crawl_job_id job'"
      "call_key (cs ! j) \<noteq> None \<longrightarrow> job_key r' = call_key (cs ! j)"
    using assms(4,5) unfolding call_ok_def answer_stored_def by metis
  then have "call_key (cs ! i) = Some k \<longrightarrow> call_key (cs ! j) = Some k \<longrightarrow> crawl_job_id job = crawl_job_id job'"
    using ok unfolding calls_ok_def jobs_ok_def by (metis option.distinct(1))
  moreover have "crawl_job_id job = crawl_job_id job' \<longrightarrow> created \<longrightarrow> created' \<longrightarrow> i = j"
    using ok assms by (auto simp: calls_ok_def created_id_def)
  ultimately show ?thesis by blast
qed

lemma find_None_append: "find P xs = None \<Longrightarrow> find P (xs @ ys) = find P ys"
  by (induction xs) (auto split: if_splits)

text \<open>A reply that is lost after the row was written leaves a job that every caller is told exists already,
  and that nobody runs.\<close>

lemma lost_reply_leaves_a_job_nobody_runs:
  assumes "job_by_key db k = None" and "insert_job u (Some k) now db = Inr (job, db')"
    and "faults = (\<lambda>i. if i = 1 then Some (e, True) else None)"
  shows "\<exists>existing. create_job faults now u (Some k) db = (Inr (existing, False), db')
    \<and> crawl_job_id existing = crawl_job_id job \<and> crawl_job_status existing = StatusQueued"
proof -
  note ins = insert_job_Inr [OF assms(2)]
  have "job_by_key db' k = Some (new_job_row (next_job_id db) u (Some k) now)"
    using assms(1) unfolding ins(2) job_by_key_def
    by (simp add: find_None_append new_job_row_def)
  then show ?thesis
    using assms ins(1)
    by (simp add: create_job_def look_up_def find_job_by_key_def insert_failed_def new_job_row_def)
qed

section \<open>A started crawl can be asked for\<close>

definition answer_from :: "crawl_db \<Rightarrow> string \<Rightarrow> create_phase \<Rightarrow> bool" where
  "answer_from db u phase \<longleftrightarrow>
     (\<forall>job created. phase = Answered (Inr (job, created)) \<longrightarrow>
        (\<exists>r\<in>set (crawl_jobs db). job = job_from r
           \<and> (created \<longrightarrow> job_base_url r = u \<and> job_status r = JobQueued \<and> job_pages_crawled r = 0)))"

lemma insert_job_from:
  assumes "insert_job u key now db = Inr (job, db')"
  shows "\<exists>r\<in>set (crawl_jobs db'). job = job_from r \<and> job_base_url r = u \<and> job_status r = JobQueued \<and> job_pages_crawled r = 0"
  unfolding insert_job_Inr(1,2) [OF assms] by (simp add: new_job_row_def)

lemma create_step_from:
  assumes "create_step fault now db u key phase = (phase', db')" and "answer_from db u phase"
  shows "answer_from db' u phase'"
  using assms
  by (cases "(fault, now, db, u, key, phase)" rule: create_step.cases)
    (auto simp: look_up_def answer_from_def find_job_by_key_def insert_failed_def
      dest!: job_by_key_Some dest: insert_job_from split: option.splits sum.splits prod.splits if_splits)

lemma create_step_next:
  "create_step fault now db u key phase = (phase', db') \<Longrightarrow>
     next_job_id db' = next_job_id db \<or> phase = Inserting \<and> phase' \<noteq> Inserting \<and> next_job_id db' = next_job_id db + 1"
  by (cases "(fault, now, db, u, key, phase)" rule: create_step.cases)
    (auto simp: insert_failed_def dest!: insert_job_Inr(2) split: option.splits sum.splits prod.splits if_splits)

lemma create_job_stored:
  assumes "create_job faults now u key db = (Inr (job, created), db')" and "jobs_ok db"
  shows "jobs_ok db' \<and> next_job_id db' \<le> next_job_id db + 1 \<and> answer_from db' u (Answered (Inr (job, created)))"
proof -
  obtain p1 db1 where s1: "create_step (faults 0) now db u key Looking = (p1, db1)" by fastforce
  obtain p2 db2 where s2: "create_step (faults 1) now db1 u key p1 = (p2, db2)" by fastforce
  obtain p3 db3 where s3: "create_step (faults 2) now db2 u key p2 = (p3, db3)" by fastforce
  obtain r where r: "p3 = Answered r" using create_step_answers [OF s1 s2 s3] by blast
  have eq: "p3 = Answered (Inr (job, created))" "db3 = db'" using assms(1) s1 s2 s3 r by (simp_all add: create_job_def)
  have "answer_from db u Looking" by (simp add: answer_from_def)
  then have "answer_from db' u p3" using create_step_from s1 s2 s3 eq(2) by metis
  moreover have "jobs_ok db'" using create_step_ok s1 s2 s3 assms(2) eq(2) by metis
  moreover have "next_job_id db1 = next_job_id db" using create_step_next [OF s1] by simp
  moreover have "next_job_id db2 = next_job_id db1 \<or> p2 \<noteq> Inserting \<and> next_job_id db2 = next_job_id db1 + 1"
    using create_step_next [OF s2] by blast
  moreover have "next_job_id db3 = next_job_id db2 \<or> p2 = Inserting \<and> next_job_id db3 = next_job_id db2 + 1"
    using create_step_next [OF s3] by blast
  ultimately show ?thesis using eq by auto
qed

text \<open>A crawl that is answered with a job can be asked for by the id of the answer, and is found with the
status of the answer; where the request created the job it is queued, with its own address and no pages yet,
and one run of it is spawned.\<close>

lemma started_crawl_is_found:
  assumes "jobs_ok db" and "next_job_id db < 2 ^ 63"
    and "start_crawl N E faults now r db = Some (Inr answer, db', spawned)"
  shows "\<exists>found. get_crawl_job None (started_job_id answer) db' = Inr found
    \<and> got_status found = started_status answer
    \<and> (\<forall>i u scope. spawned = Some (i, u, scope) \<longrightarrow>
         started_job_id answer = ''job-'' @ show_int i \<and> got_base_url found = start_base_url r
         \<and> u = start_base_url r \<and> got_status found = StatusQueued \<and> got_pages_crawled found = 0)"
proof -
  let ?key = "if start_key r = [] then None else Some (start_key r)"
  obtain scope where scope: "checked_crawl N r = Inr ()" "scope_new E (start_scope r) = Some scope"
    using assms(3) by (cases "checked_crawl N r") (auto simp: start_crawl_def bind_eq_Some_conv)
  obtain outcome db1 where made: "create_job faults now (start_base_url r) ?key db = (outcome, db1)" by fastforce
  with scope assms(3) obtain job created where outcome: "outcome = Inr (job, created)"
    by (cases outcome) (auto simp: start_crawl_def)
  have job: "create_job faults now (start_base_url r) ?key db = (Inr (job, created), db')"
    and answer: "answer = \<lparr>started_job_id = public_id job, started_status = crawl_job_status job\<rparr>"
    and spawned: "spawned = (if created then Some (crawl_job_id job, start_base_url r, scope) else None)"
    using assms(3) unfolding start_crawl_def made outcome scope by simp_all
  note stored = create_job_stored [OF job assms(1)]
  obtain row where row: "row \<in> set (crawl_jobs db')" "job = job_from row"
    "created \<longrightarrow> job_base_url row = start_base_url r \<and> job_status row = JobQueued \<and> job_pages_crawled row = 0"
    using stored by (auto simp: answer_from_def)
  have range: "- (2 ^ 63) \<le> job_row_id row" "job_row_id row < 2 ^ 63"
    using stored row(1) assms(2) unfolding jobs_ok_def by fastforce+
  then have "parse_job_id (public_id job) = Some (job_row_id row)"
    using row(2) by (simp add: parse_job_id_def public_id_def strip_prefix_def starts_with_def parse_show_i64)
  moreover have "get_job db' (job_row_id row) = Some job"
    using get_job_row [OF _ row(1)] stored row(2) by simp
  ultimately have "get_crawl_job None (public_id job) db' =
      Inr \<lparr>got_job_id = public_id job, got_base_url = crawl_base_url job, got_status = crawl_job_status job,
        got_pages_crawled = pages_crawled job\<rparr>"
    by (simp add: get_crawl_job_def)
  then show ?thesis
    using answer spawned row by (simp add: public_id_def JOB_ID_PREFIX_def stored_page_count_def split: if_splits)
qed

section \<open>The edges of a page are its links\<close>

text \<open>C38: Unless its statement fails, the update of the graph for a page leaves as its outgoing links exactly the
first 500 distinct web addresses its anchors resolve to, in their order, without the page itself; it breaks no
constraint of the table and changes no other edge, no page and no job.\<close>

theorem page_links_become_its_edges:
  assumes "ce_fault C (statements w) = None" and "length (final_url p) \<le> MAX_URL_BYTES"
    and "length (fetched_html p) \<le> MAX_PARSEABLE_HTML_BYTES" and "page_url_parse (ce_parser C) (final_url p) \<noteq> None"
    and "edges_ok (page_edges (crawl_tables w))" and "w' = update_page_graph C p w"
  shows "map to_url (filter (outbound (final_url p)) (page_edges (crawl_tables w')))
      = linked_urls (ce_parser C) (final_url p) (fetched_html p)
    \<and> filter (\<lambda>e. \<not> outbound (final_url p) e) (page_edges (crawl_tables w'))
      = filter (\<lambda>e. \<not> outbound (final_url p) e) (page_edges (crawl_tables w))
    \<and> edges_ok (page_edges (crawl_tables w'))
    \<and> pages (crawl_tables w') = pages (crawl_tables w) \<and> crawl_jobs (crawl_tables w') = crawl_jobs (crawl_tables w)"
proof -
  let ?db = "crawl_tables w" and ?src = "final_url p"
  obtain ls where ls: "try_extract_links (ce_parser C) ?src (fetched_html p) = Some ls"
    using assms(3,4) by (auto simp: try_extract_links_def Let_def)
  note links = extracted_links [OF ls]
  obtain db' where rep: "replace_outbound ?src ls (ce_clock C (statements w)) ?db = Inr db'"
    and edges: "page_edges db' = filter (\<lambda>e. \<not> outbound ?src e) (page_edges ?db)
      @ edge_rows (next_edge_id ?db) ?src ls (ce_clock C (statements w))"
    and rest: "pages db' = pages ?db" "crawl_jobs db' = crawl_jobs ?db"
    using replace_outbound_spec [OF links(2,3) assms(2)] by blast
  have w': "crawl_tables w' = db'" using ls rep assms(1,6) by (simp add: update_page_graph_def run_write_def)
  have out: "outbound ?src e" if "e \<in> set (edge_rows (next_edge_id ?db) ?src ls (ce_clock C (statements w)))" for e
    using edge_rows_fields(2) [OF that] by (simp add: outbound_def)
  have "edges_ok (page_edges db')" using replace_outbound_ok [OF assms(5) rep] .
  moreover have "map to_url (filter (outbound ?src) (page_edges db')) = map link_url ls"
    using out by (simp add: edges filter_empty_conv filter_id_conv edge_rows_fields(1))
  ultimately show ?thesis
    unfolding w' rest links(1) using out by (simp add: edges filter_empty_conv)
qed

section \<open>A run reports what it stored\<close>

definition fetched_ok :: "spider_page list \<Rightarrow> spider_page list" where
  "fetched_ok received = filter (\<lambda>p. success_status (spider_status p)) received"

definition counted_ok :: "regex_engine \<Rightarrow> crawl_scope \<Rightarrow> spider_page \<Rightarrow> bool" where
  "counted_ok E scope p \<longleftrightarrow>
     length (spider_html p) \<le> MAX_PARSEABLE_HTML_BYTES \<and> scope_counts E scope (spider_url p)"

definition linked_ok :: "spider_page \<Rightarrow> bool" where
  "linked_ok p \<longleftrightarrow>
     length (spider_html p) \<le> MAX_PARSEABLE_HTML_BYTES \<and> length (spider_url_final p) \<le> MAX_URL_BYTES"

lemma lose_page_simps [simp]:
  "0 < pages_lost (lose_page pr)" "any_fetched (lose_page pr) = any_fetched pr" "pages_emitted (lose_page pr) = pages_emitted pr"
  by (simp_all add: lose_page_def word_less_nat_alt sat_simps)

lemma forward_page_step:
  assumes "counted_open out" and "fetched_open out"
  shows "forward_page E scope limit page (pr, out) =
    (if \<not> success_status (spider_status page) then (pr, out)
     else if limit \<le> pages_emitted pr then (lose_page (pr\<lparr>any_fetched := True\<rparr>), out)
     else (pr\<lparr>any_fetched := True, pages_emitted := pages_emitted pr + 1\<rparr>,
       out\<lparr>sent_counted := sent_counted out @ (if counted_ok E scope page then [counted_of page] else []),
           sent_fetched := sent_fetched out @ (if linked_ok page then [fetched_of page] else [])\<rparr>))"
  using assms by (simp add: forward_page_def Let_def send_counted_def send_fetched_def counted_ok_def linked_ok_def)

lemma forward_fold:
  assumes "fold (forward_page E scope limit) ps (pr, out) = (pr', out')" and "counted_open out" and "fetched_open out"
    and "pages_emitted pr \<le> limit"
  shows "any_fetched pr' = (any_fetched pr \<or> fetched_ok ps \<noteq> [])
    \<and> (0 < pages_lost pr' \<longleftrightarrow> 0 < pages_lost pr \<or> unat limit - unat (pages_emitted pr) < length (fetched_ok ps))
    \<and> sent_counted out' = sent_counted out @ map counted_of (filter (counted_ok E scope)
        (take (unat limit - unat (pages_emitted pr)) (fetched_ok ps)))
    \<and> sent_fetched out' = sent_fetched out @ map fetched_of (filter linked_ok
        (take (unat limit - unat (pages_emitted pr)) (fetched_ok ps)))"
  using assms
proof (induction ps arbitrary: pr out)
  case Nil
  then show ?case by (simp add: fetched_ok_def)
next
  case (Cons p ps)
  note step = forward_page_step [OF Cons.prems(2,3), of E scope limit p pr]
  consider "\<not> success_status (spider_status p)"
    | "success_status (spider_status p)" "limit \<le> pages_emitted pr"
    | "success_status (spider_status p)" "pages_emitted pr < limit" by force
  then show ?case
  proof cases
    case 1
    then show ?thesis using Cons step by (simp add: fetched_ok_def)
  next
    case 2
    let ?pr = "lose_page (pr\<lparr>any_fetched := True\<rparr>)"
    have "fold (forward_page E scope limit) ps (?pr, out) = (pr', out')" using Cons.prems(1) step 2 by simp
    from Cons.IH [OF this Cons.prems(2,3)] show ?thesis
      using 2 Cons.prems(4) by (simp add: fetched_ok_def)
  next
    case 3
    let ?pr = "pr\<lparr>any_fetched := True, pages_emitted := pages_emitted pr + 1\<rparr>"
    let ?out = "out\<lparr>sent_counted := sent_counted out @ (if counted_ok E scope p then [counted_of p] else []),
      sent_fetched := sent_fetched out @ (if linked_ok p then [fetched_of p] else [])\<rparr>"
    have "unat (pages_emitted pr) + unat (1 :: u32) < 2 ^ LENGTH(32)"
      using 3(2) unsigned_less [of limit, where 'a = nat] by (simp add: word_less_nat_alt)
    then have next_unat: "unat (pages_emitted pr + 1) = unat (pages_emitted pr) + 1"
      by (simp add: unat_add_lem [THEN iffD1])
    then have below: "pages_emitted pr + 1 \<le> limit" using 3(2) by (simp add: word_less_nat_alt word_le_nat_alt)
    have room: "unat limit - unat (pages_emitted pr) = Suc (unat limit - unat (pages_emitted pr + 1))"
      using 3(2) by (simp add: next_unat word_less_nat_alt)
    have "\<not> limit \<le> pages_emitted pr" using 3(2) by simp
    then have "fold (forward_page E scope limit) ps (?pr, ?out) = (pr', out')" using Cons.prems(1) step 3(1) by simp
    from Cons.IH [OF this] show ?thesis
      using 3 Cons.prems(2,3) room by (simp add: fetched_ok_def below)
  qed
qed

lemma crawl_into_open:
  assumes "crawl_into E scope limits received open_outlets = (outcome, out)"
  shows "sent_counted out = map counted_of (filter (counted_ok E scope) (take (unat (max_pages limits)) (fetched_ok received)))"
    and "sent_fetched out = map fetched_of (filter linked_ok (take (unat (max_pages limits)) (fetched_ok received)))"
    and "outcome = Inr () \<longleftrightarrow> fetched_ok received \<noteq> [] \<and> length (fetched_ok received) \<le> unat (max_pages limits)"
proof -
  obtain pr' out' where fold: "fold (forward_page E scope (max_pages limits)) received (no_progress, open_outlets) = (pr', out')"
    by fastforce
  have out: "out = out'" "outcome = crawl_result pr'" using assms fold by (simp_all add: crawl_into_def)
  note spec = forward_fold [OF fold, unfolded open_outlets_def no_progress_def, simplified]
  show "sent_counted out = map counted_of (filter (counted_ok E scope) (take (unat (max_pages limits)) (fetched_ok received)))"
    and "sent_fetched out = map fetched_of (filter linked_ok (take (unat (max_pages limits)) (fetched_ok received)))"
    using spec out(1) by simp_all
  show "outcome = Inr () \<longleftrightarrow> fetched_ok received \<noteq> [] \<and> length (fetched_ok received) \<le> unat (max_pages limits)"
    using spec unfolding out(2) by (auto simp: crawl_result_def)
qed

text \<open>The row of a job: its status, its count, its key and its address.\<close>

definition job_view :: "int \<Rightarrow> crawl_world \<Rightarrow> (job_status \<times> int \<times> string option \<times> string) option" where
  "job_view key w = map_option (\<lambda>r. (job_status r, job_pages_crawled r, job_key r, job_base_url r))
     (find (\<lambda>r. job_row_id r = key) (crawl_jobs (crawl_tables w)))"

definition ids_distinct :: "crawl_world \<Rightarrow> bool" where
  "ids_distinct w \<longleftrightarrow> distinct (map job_row_id (crawl_jobs (crawl_tables w)))"

definition no_faults :: "('u, 'd) crawl_env \<Rightarrow> bool" where
  "no_faults C \<longleftrightarrow> (\<forall>n. ce_fault C n = None)"

lemma find_updated:
  "(\<And>r. job_row_id (f r) = job_row_id r) \<Longrightarrow>
     find (\<lambda>r. job_row_id r = key) (update_where (\<lambda>r. job_row_id r = key) f rows)
     = map_option f (find (\<lambda>r. job_row_id r = key) rows)"
  by (induction rows) (auto simp: update_where_def)

lemma set_crawl_status_view:
  assumes "no_faults C"
  shows "job_view key (set_crawl_status C key s w) = map_option (\<lambda>(_, rest). (job_status_of s, rest)) (job_view key w)"
    and "handed (set_crawl_status C key s w) = handed w" and "ids_distinct (set_crawl_status C key s w) = ids_distinct w"
  using assms
  by (simp_all add: no_faults_def set_crawl_status_def run_write_def set_job_status_def job_view_def find_updated
      option.map_comp comp_def ids_distinct_def map_update_where)

definition page_fits :: "counted_page \<Rightarrow> bool" where
  "page_fits p \<longleftrightarrow> char_count (counted_url p) \<le> MAX_PAGE_URL_CHARS"

definition page_request :: "('u, 'd) crawl_env \<Rightarrow> counted_page \<Rightarrow> ingest_request" where
  "page_request C p = (let x = extract_page (ce_extractor C) (counted_url p) (counted_html p) in
     crawler_ingest_request (counted_url p) (extracted_title x) (main_text x))"

lemma title_fits: "char_count (extracted_title (extract_page x u html)) \<le> TITLE_COLUMN_MAX_CHARS"
proof -
  obtain title where t: "extracted_title (extract_page x u html) = concat (take TITLE_COLUMN_MAX_CHARS (trim_chars (utf8_chars title)))"
    using extract_page_title by blast
  have "c \<in> set (utf8_chars title)" if "c \<in> set (trim_chars (utf8_chars title))" for c
    using that unfolding trim_chars_def by (auto dest!: set_dropWhileD)
  then have "char_count (concat (take TITLE_COLUMN_MAX_CHARS (trim_chars (utf8_chars title))))
      \<le> length (take TITLE_COLUMN_MAX_CHARS (trim_chars (utf8_chars title)))"
    by (intro char_count_concat) (metis char_count_of_char in_set_takeD)
  then show ?thesis unfolding t by simp
qed

lemma upsert_page_fits:
  assumes "\<And>s. length (sha256_digest x s) = 32"
  shows "(\<exists>db'. upsert_page (page_row_of p (extract_page x (counted_url p) html) now key) db = Inr db'
           \<and> crawl_jobs db' = crawl_jobs db) \<longleftrightarrow> page_fits p"
    and "upsert_page (page_row_of p (extract_page x (counted_url p) html) now key) db = Inl VALUE_TOO_LONG \<longleftrightarrow> \<not> page_fits p"
proof -
  have "char_count (content_hash (extract_page x u html)) \<le> 64" for u
    using char_count_le [of "content_hash (extract_page x u html)"] assms
    by (simp add: extract_page_hash length_sha256_hex)
  then show "(\<exists>db'. upsert_page (page_row_of p (extract_page x (counted_url p) html) now key) db = Inr db'
           \<and> crawl_jobs db' = crawl_jobs db) \<longleftrightarrow> page_fits p"
    and "upsert_page (page_row_of p (extract_page x (counted_url p) html) now key) db = Inl VALUE_TOO_LONG \<longleftrightarrow> \<not> page_fits p"
    using title_fits [of x "counted_url p" html]
    by (simp_all add: upsert_page_def Let_def page_row_of_def page_fits_def not_less [symmetric])
qed

text \<open>What the pages do: those that fit are handed over and counted.\<close>

definition stored_pages :: "page_work list \<Rightarrow> counted_page list" where
  "stored_pages ws = concat (map (\<lambda>x. case x of StorePage p \<Rightarrow> if page_fits p then [p] else [] | LinkPage _ \<Rightarrow> []) ws)"

definition counts_up :: "('u, 'd) crawl_env \<Rightarrow> int \<Rightarrow> crawl_world \<Rightarrow> counted_page list \<Rightarrow> crawl_world \<Rightarrow> bool" where
  "counts_up C key w ps w' \<longleftrightarrow>
     job_view key w' = map_option (\<lambda>(s, n, rest). (s, n + int (length ps), rest)) (job_view key w)
     \<and> handed w' = handed w @ map (page_request C) ps \<and> ids_distinct w'"

lemma counts_up_trans: "counts_up C key w ps w1 \<Longrightarrow> counts_up C key w1 qs w2 \<Longrightarrow> counts_up C key w (ps @ qs) w2"
  by (cases "job_view key w") (auto simp: counts_up_def)

lemma counts_up_none:
  "ids_distinct w \<Longrightarrow> crawl_jobs (crawl_tables w') = crawl_jobs (crawl_tables w) \<Longrightarrow> handed w' = handed w \<Longrightarrow>
     counts_up C key w [] w'"
  by (cases "job_view key w") (auto simp: counts_up_def job_view_def ids_distinct_def)

lemma count_stored_page_view:
  assumes "no_faults C" and "ids_distinct w" and "job_view key w = Some (s, n, rest)" and "n + 1 < 2 ^ 31"
  shows "job_view key (count_stored_page C key w) = Some (s, n + 1, rest)"
    and "handed (count_stored_page C key w) = handed w" and "ids_distinct (count_stored_page C key w)"
proof -
  let ?rows = "crawl_jobs (crawl_tables w)"
  obtain r where r: "find (\<lambda>r. job_row_id r = key) ?rows = Some r" "job_pages_crawled r = n"
    using assms(3) by (auto simp: job_view_def)
  have "\<not> 2 ^ 31 \<le> job_pages_crawled x + 1" if "x \<in> set ?rows" "job_row_id x = key" for x
  proof -
    have "find (\<lambda>r. job_row_id r = job_row_id x) ?rows = Some x"
      using assms(2) that(1) by (intro find_id) (simp_all add: ids_distinct_def)
    then show ?thesis using r that(2) assms(4) by simp
  qed
  then have ok: "add_crawled_page key now (crawl_tables w) = Inr ((crawl_tables w)\<lparr>crawl_jobs :=
      update_where (\<lambda>r. job_row_id r = key) (\<lambda>r. r\<lparr>job_pages_crawled := job_pages_crawled r + 1, job_updated_at := now\<rparr>) ?rows\<rparr>)" for now
    by (auto simp: add_crawled_page_def list_ex_iff)
  show "job_view key (count_stored_page C key w) = Some (s, n + 1, rest)"
    and "handed (count_stored_page C key w) = handed w" and "ids_distinct (count_stored_page C key w)"
    using assms(1-3) r
    by (auto simp: count_stored_page_def run_write_def ok no_faults_def job_view_def find_updated ids_distinct_def map_update_where)
qed

lemma ingest_stored_page_frame:
  "job_view key (ingest_stored_page C u title found w) = job_view key w"
  "ids_distinct (ingest_stored_page C u title found w) = ids_distinct w"
  "handed (ingest_stored_page C u title found w) = handed w @ [crawler_ingest_request u title found]"
  by (simp_all add: ingest_stored_page_def job_view_def ids_distinct_def Let_def)

lemma store_counted_page_counts:
  assumes "no_faults C" and "\<And>s. length (sha256_digest (ce_extractor C) s) = 32" and "ids_distinct w"
    and "job_view key w = Some (s, n, rest)" and "page_fits p \<Longrightarrow> n + 1 < 2 ^ 31"
  shows "counts_up C key w (if page_fits p then [p] else []) (store_counted_page C key p w)"
proof (cases "page_fits p")
  case False
  then have refused: "upsert_page (page_row_of p (extract_page (ce_extractor C) (counted_url p) (counted_html p)) now 0) db
      = Inl VALUE_TOO_LONG" for now db using upsert_page_fits(2) [OF assms(2)] by blast
  have "counts_up C key w [] (store_counted_page C key p w)"
    by (rule counts_up_none [OF assms(3)])
      (use assms(1) in \<open>simp_all add: store_counted_page_def save_page_def run_read_def run_write_def no_faults_def Let_def refused\<close>)
  then show ?thesis using False by simp
next
  case True
  let ?x = "extract_page (ce_extractor C) (counted_url p) (counted_html p)"
  obtain db' where up: "upsert_page (page_row_of p ?x (ce_clock C (statements w + 1)) 0) (crawl_tables w) = Inr db'"
      "crawl_jobs db' = crawl_jobs (crawl_tables w)"
    using upsert_page_fits(1) [OF assms(2)] True by blast
  obtain saved w1 where w1: "save_page C p w = (Inr saved, w1)" "saved_title saved = extracted_title ?x"
      "saved_main_text saved = main_text ?x" "handed w1 = handed w" "crawl_tables w1 = db'"
    using assms(1) up(1) by (simp add: save_page_def run_read_def run_write_def no_faults_def Let_def)
  have "ids_distinct w1" "job_view key w1 = Some (s, n, rest)"
    using assms(3,4) w1(5) up(2) by (simp_all add: ids_distinct_def job_view_def)
  note counted = count_stored_page_view [OF assms(1) this assms(5) [OF True]]
  show ?thesis
    using True counted assms(4) w1 by (simp add: counts_up_def store_counted_page_def ingest_stored_page_frame page_request_def Let_def)
qed

lemma update_page_graph_jobs: "ids_distinct w \<Longrightarrow> counts_up C key w [] (update_page_graph C p w)"
proof (rule counts_up_none)
  have "crawl_jobs db' = crawl_jobs db" if "replace_outbound u ls now db = Inr db'" for u ls now db db'
    using that by (auto simp: replace_outbound_def insert_edges_def Let_def split: if_splits)
  then show "crawl_jobs (crawl_tables (update_page_graph C p w)) = crawl_jobs (crawl_tables w)"
    and "handed (update_page_graph C p w) = handed w"
    by (auto simp: update_page_graph_def run_write_def Let_def split: option.splits sum.splits)
qed

lemma do_works_count:
  assumes "no_faults C" and "\<And>s. length (sha256_digest (ce_extractor C) s) = 32" and "ids_distinct w"
    and "job_view key w = Some (s, n, rest)" and "n + int (length (stored_pages ws)) < 2 ^ 31"
  shows "counts_up C key w (stored_pages ws) (fold (do_work C key) ws w)"
  using assms(3-5)
proof (induction ws arbitrary: w n)
  case Nil
  then show ?case by (simp add: stored_pages_def counts_up_none)
next
  case (Cons x ws)
  let ?ps = "case x of StorePage p \<Rightarrow> if page_fits p then [p] else [] | LinkPage _ \<Rightarrow> []"
  have more: "stored_pages (x # ws) = ?ps @ stored_pages ws" by (simp add: stored_pages_def)
  have one: "counts_up C key w ?ps (do_work C key x w)"
  proof (cases x)
    case (StorePage p)
    have "page_fits p \<Longrightarrow> n + 1 < 2 ^ 31" using Cons.prems(3) unfolding more by (simp add: StorePage)
    then show ?thesis using store_counted_page_counts [OF assms(1,2) Cons.prems(1,2)] StorePage by simp
  next
    case (LinkPage p)
    then show ?thesis using update_page_graph_jobs [OF Cons.prems(1)] by simp
  qed
  then have "job_view key (do_work C key x w) = Some (s, n + int (length ?ps), rest)" "ids_distinct (do_work C key x w)"
    using Cons.prems(2) by (simp_all add: counts_up_def)
  from Cons.IH [OF this(2,1)] have "counts_up C key (do_work C key x w) (stored_pages ws) (fold (do_work C key) ws (do_work C key x w))"
    using Cons.prems(3) by (simp add: more)
  from counts_up_trans [OF one this] show ?case by (simp add: more)
qed

lemma shuffled_work:
  "ws \<in> shuffles xs ys \<Longrightarrow> (\<And>y. y \<in> set ys \<Longrightarrow> h y = []) \<Longrightarrow> concat (map h ws) = concat (map h xs)"
proof (induction xs ys arbitrary: ws rule: shuffles.induct)
  case (1 ys)
  then have "concat (map h ys) = []" by simp
  then show ?case using 1 by simp
next
  case (3 x xs y ys)
  then show ?case by (auto simp: image_iff)
qed simp

lemma filter_as_concat: "concat (map (\<lambda>x. if P x then [x] else []) xs) = filter P xs"
  by (induction xs) simp_all

lemma stored_shuffled:
  "ws \<in> shuffles (map StorePage ps) (map LinkPage fs) \<Longrightarrow> stored_pages ws = filter page_fits ps"
  unfolding stored_pages_def by (subst shuffled_work, assumption) (auto simp: comp_def filter_as_concat)


section \<open>Concrete inputs\<close>

definition sample_url :: string where "sample_url = ''http://a/''"

definition empty_crawl_db :: crawl_db where
  "empty_crawl_db = \<lparr>pages = [], page_edges = [], crawl_jobs = [], next_page_id = 1, next_edge_id = 1, next_job_id = 1\<rparr>"

definition sample_row :: job_row where "sample_row = new_job_row 1 sample_url (Some ''k'') 0"

definition sample_crawl_db :: crawl_db where
  "sample_crawl_db = empty_crawl_db\<lparr>crawl_jobs := [sample_row], next_job_id := 2\<rparr>"

definition call_at :: "create_phase \<Rightarrow> create_call" where
  "call_at phase = \<lparr>call_base_url = sample_url, call_key = Some ''k'', call_phase = phase\<rparr>"

lemma sample_url_short: "char_count sample_url = 9" "length sample_url = 9" "char_count ''k'' = 1"
  by (simp_all add: sample_url_def char_count_def is_continuation_def)

lemma sample_steps:
  "create_step None 0 empty_crawl_db sample_url (Some ''k'') Looking = (Inserting, empty_crawl_db)"
  "create_step None 0 empty_crawl_db sample_url (Some ''k'') Inserting
    = (Answered (Inr (job_from sample_row, True)), sample_crawl_db)"
  "create_step None 0 sample_crawl_db sample_url (Some ''k'') Inserting = (Rereading DUPLICATE_KEY, sample_crawl_db)"
  "create_step None 0 sample_crawl_db sample_url (Some ''k'') (Rereading DUPLICATE_KEY)
    = (Answered (Inr (job_from sample_row, False)), sample_crawl_db)"
  by (simp_all add: look_up_def find_job_by_key_def job_by_key_def empty_crawl_db_def sample_crawl_db_def
      sample_row_def insert_job_def Let_def sample_url_short MAX_BASE_URL_CHARS_def JOB_KEY_COLUMN_CHARS_def
      new_job_row_def insert_failed_def)

lemma call_moves:
  "calls_reach db cs \<Longrightarrow> i < length cs \<Longrightarrow> cs ! i = call_at phase \<Longrightarrow>
   create_step None 0 db sample_url (Some ''k'') phase = (phase', db') \<Longrightarrow> calls_reach db' (cs[i := call_at phase'])"
  using call_advances [of db cs i None 0 phase' db'] by (simp add: call_at_def)

lemma two_calls:
  "calls_reach sample_crawl_db
    [call_at (Answered (Inr (job_from sample_row, True))), call_at (Answered (Inr (job_from sample_row, False)))]"
proof -
  have "calls_reach empty_crawl_db []" by (rule calls_start) (simp add: jobs_ok_def empty_crawl_db_def)
  from call_arrives [OF call_arrives [OF this], of sample_url "Some ''k''" sample_url "Some ''k''"]
  have "calls_reach empty_crawl_db [call_at Looking, call_at Looking]" by (simp add: call_at_def)
  from call_moves [OF this, of 0 Looking, OF _ _ sample_steps(1)] have "calls_reach empty_crawl_db [call_at Inserting, call_at Looking]"
    by simp
  from call_moves [OF this, of 1 Looking, OF _ _ sample_steps(1)] have "calls_reach empty_crawl_db [call_at Inserting, call_at Inserting]"
    by simp
  from call_moves [OF this, of 0 Inserting, OF _ _ sample_steps(2)]
  have "calls_reach sample_crawl_db [call_at (Answered (Inr (job_from sample_row, True))), call_at Inserting]"
    by simp
  from call_moves [OF this, of 1 Inserting, OF _ _ sample_steps(3)]
  have "calls_reach sample_crawl_db [call_at (Answered (Inr (job_from sample_row, True))), call_at (Rereading DUPLICATE_KEY)]"
    by simp
  from call_moves [OF this, of 1 "Rereading DUPLICATE_KEY", OF _ _ sample_steps(4)] show ?thesis by simp
qed

theorem one_job_per_key_witness:
  "\<exists>db cs job job'. calls_reach db cs \<and> cs = [call_at (Answered (Inr (job, True))), call_at (Answered (Inr (job', False)))]
    \<and> crawl_job_id job = crawl_job_id job'"
  using two_calls one_job_per_key [OF two_calls, of 0 1 "job_from sample_row" True "job_from sample_row" False "''k''"]
  by (auto simp: call_at_def)

definition sample_resolver :: resolver where
  "sample_resolver = \<lparr>read_uri = (\<lambda>_. Some (Some ''http'', Some ''a'')), read_ip = (\<lambda>_. Some (V4 0x08080808)),
     resolve_host = (\<lambda>_. Inr [])\<rparr>"

definition open_rules :: crawl_rules where
  "open_rules = \<lparr>include_patterns = [], exclude_patterns = [], include_urls = [], exclude_urls = []\<rparr>"

definition open_scope :: crawl_scope where
  "open_scope = \<lparr>scope_include = [], scope_exclude = [], scope_include_urls = [], scope_exclude_urls = []\<rparr>"

definition sample_start :: start_crawl_request where
  "sample_start = \<lparr>start_base_url = sample_url, start_scope = open_rules, start_key = []\<rparr>"

lemma sample_checked: "checked_crawl sample_resolver sample_start = Inr ()"
proof -
  have "crawl_public_ip (V4 0x08080808) = Inr ()"
    by (simp add: crawl_public_ip_def crawl_private_v4_def v4_ranges)
  moreover have "\<not> eq_ignore_ascii_case ''a'' ''localhost''" "\<not> ends_with ''a'' ''.localhost''"
    by (simp_all add: eq_ignore_ascii_case_def ends_with_def)
  moreover have "sample_url \<noteq> []" by (simp add: sample_url_def)
  ultimately have "validate_base_url sample_resolver sample_url = Inr ()"
    by (simp add: validate_base_url_def sample_url_short MAX_BASE_URL_CHARS_def uri_host_def sample_resolver_def)
  then show ?thesis
    by (simp add: checked_crawl_def sample_start_def validate_idempotency_key_def validate_scope_def open_rules_def)
qed

lemma sample_started:
  "\<exists>answer db'. start_crawl sample_resolver tiny_engine (\<lambda>_. None) 0 sample_start empty_crawl_db
     = Some (Inr answer, db', Some (1, sample_url, open_scope))"
  using sample_checked
  by (simp add: start_crawl_def scope_new_def sample_start_def open_rules_def open_scope_def create_job_def insert_job_def
      Let_def sample_url_short MAX_BASE_URL_CHARS_def empty_crawl_db_def new_job_row_def)

lemma started_crawl_is_found_witness:
  "\<exists>answer db' found. start_crawl sample_resolver tiny_engine (\<lambda>_. None) 0 sample_start empty_crawl_db
      = Some (Inr answer, db', Some (1, sample_url, open_scope))
    \<and> get_crawl_job None (''job-'' @ show_int 1) db' = Inr found \<and> got_status found = StatusQueued"
proof -
  obtain answer db' where started: "start_crawl sample_resolver tiny_engine (\<lambda>_. None) 0 sample_start empty_crawl_db
      = Some (Inr answer, db', Some (1, sample_url, open_scope))"
    using sample_started by blast
  have "jobs_ok empty_crawl_db" "next_job_id empty_crawl_db < 2 ^ 63"
    by (simp_all add: jobs_ok_def empty_crawl_db_def)
  from started_crawl_is_found [OF this started] show ?thesis using started by auto
qed

text \<open>A site of one page that links to another.\<close>

definition sample_parser :: "(string, unit) web_parser" where
  "sample_parser = \<lparr>page_url_parse = Some, page_url_join = (\<lambda>_ href. Some href), page_url_scheme = (\<lambda>_. ''http''),
     without_fragment = (\<lambda>u. u), page_url_text = (\<lambda>u. u), parse_document = (\<lambda>_. ()), base_hrefs = (\<lambda>_. []),
     anchors = (\<lambda>_. [(Some ''b'', []), (Some ''b'', []), (None, [])])\<rparr>"

definition sample_extraction :: extraction where
  "sample_extraction = \<lparr>readability = (\<lambda>_ _. None), sha256_digest = (\<lambda>_. replicate 32 (CHR ''x'')), utf8_lossy = (\<lambda>b. b)\<rparr>"

definition sample_env :: "(string, unit) crawl_env" where
  "sample_env = \<lparr>ce_regex = tiny_engine, ce_parser = sample_parser, ce_extractor = sample_extraction,
     ce_fault = (\<lambda>_. None), ce_clock = (\<lambda>_. 0), ce_kb = ref_kp, ce_kb_embedder = [], ce_kb_lost = (\<lambda>_. True)\<rparr>"

definition sample_world :: crawl_world where
  "sample_world = \<lparr>crawl_tables = sample_crawl_db, statements = 0, handed = [],
     knowledge = \<lparr>tables = empty_tables, asked = []\<rparr>\<rparr>"

theorem page_links_become_its_edges_witness:
  "map to_url (filter (outbound sample_url) (page_edges (crawl_tables
     (update_page_graph sample_env \<lparr>final_url = sample_url, fetched_html = []\<rparr> sample_world)))) = [''b'']"
proof -
  let ?p = "\<lparr>final_url = sample_url, fetched_html = []\<rparr>"
  have "linked_urls sample_parser sample_url [] = [''b'']"
    by (simp add: linked_urls_def sample_parser_def Let_def document_base_url_def resolved_urls_def
        resolve_same_scheme_url_def MAX_URL_BYTES_def MAX_LINKS_PER_PAGE_def sample_url_def)
  moreover have "ce_fault sample_env (statements sample_world) = None" "length (final_url ?p) \<le> MAX_URL_BYTES"
    "length (fetched_html ?p) \<le> MAX_PARSEABLE_HTML_BYTES" "page_url_parse (ce_parser sample_env) (final_url ?p) \<noteq> None"
    "edges_ok (page_edges (crawl_tables sample_world))"
    by (simp_all add: sample_env_def sample_parser_def sample_url_short MAX_URL_BYTES_def edges_ok_def sample_world_def
        sample_crawl_db_def empty_crawl_db_def)
  from page_links_become_its_edges [OF this refl]
  have "map to_url (filter (outbound (final_url ?p)) (page_edges (crawl_tables (update_page_graph sample_env ?p sample_world))))
      = linked_urls (ce_parser sample_env) (final_url ?p) (fetched_html ?p)" by blast
  ultimately show ?thesis by (simp add: sample_env_def)
qed

definition sample_page :: spider_page where
  "sample_page = \<lparr>spider_url = sample_url, spider_url_final = sample_url, spider_html = [], spider_status = 200\<rparr>"


definition sample_edges :: crawl_db where
  "sample_edges = empty_crawl_db\<lparr>page_edges :=
     [\<lparr>edge_id = 1, from_url = ''a'', to_url = ''b'', edge_relation = LinksTo, edge_anchor_text = [], discovered_at = 0\<rparr>]\<rparr>"

definition sample_reads :: graph_reads where
  "sample_reads = \<lparr>tables_at = (\<lambda>_. Inr sample_edges), collation_key = (\<lambda>s. s), map_order = (\<lambda>xs. xs)\<rparr>"


end
