(* ===== verification/Gateway.thy ===== *)
theory Gateway
  imports Extract "HOL-Library.State_Monad"
begin

text \<open>
  \<^verbatim>\<open>services/gateway/src\<close>: the sessions of the browser (\<^verbatim>\<open>sessions.rs\<close>, \<^verbatim>\<open>auth.rs\<close>, \<^verbatim>\<open>web.rs\<close>), the routes
  (\<^verbatim>\<open>app.rs\<close>), the calls to the internal services (\<^verbatim>\<open>proxy.rs\<close>) and the configuration (\<^verbatim>\<open>config.rs\<close>). A
  request runs one statement on the table of sessions, so a history of the gateway is the list of its
  requests and sweeps in the order of their statements, the latest first. Shown: the table, the sweeps and
  the failing statements together let a request pass exactly if the last login or logout of its token was a
  login no longer ago than the lifetime, and nothing else reaches an internal service.
\<close>

section \<open>Configuration\<close>

text \<open>A \<^verbatim>\<open>Duration\<close> is a number of nanoseconds.\<close>

definition duration_from_secs :: "nat \<Rightarrow> nat" where
  "duration_from_secs n = n * 1000000000"

definition DEFAULT_CRAWLER_URL :: string where "DEFAULT_CRAWLER_URL = ''http://127.0.0.1:8081''"
definition DEFAULT_KNOWLEDGE_BASE_URL :: string where "DEFAULT_KNOWLEDGE_BASE_URL = ''http://127.0.0.1:8084''"
definition DEFAULT_CHAT_URL :: string where "DEFAULT_CHAT_URL = ''http://127.0.0.1:8088''"
definition DEFAULT_FRONTEND_DIR :: string where "DEFAULT_FRONTEND_DIR = ''/frontend''"
definition DEFAULT_SESSION_TTL_HOURS :: nat where "DEFAULT_SESSION_TTL_HOURS = 24"
definition MAX_SESSION_TTL_HOURS :: nat where "MAX_SESSION_TTL_HOURS = 24 * 365"
definition MAX_ENDPOINT_URL_CHARS :: nat where "MAX_ENDPOINT_URL_CHARS = 2048"
definition MAX_DATABASE_URL_CHARS :: nat where "MAX_DATABASE_URL_CHARS = 4096"
definition MAX_FRONTEND_PATH_CHARS :: nat where "MAX_FRONTEND_PATH_CHARS = 4096"
definition MAX_AUTH_PASSWORD_CHARS :: nat where "MAX_AUTH_PASSWORD_CHARS = 1024"

record gw_config =
  gw_crawler_url :: string
  gw_knowledge_base_url :: string
  gw_chat_url :: string
  gw_frontend_dir :: string
  gw_database_url :: string
  gw_password :: string
  gw_session_ttl :: nat

datatype env_value = Env_Present string | Env_Not_Present | Env_Not_Unicode

text \<open>\<open>env_uri\<close> is \<^verbatim>\<open>http::Uri\<close> (scheme and authority), \<open>env_database_url\<close> is \<^verbatim>\<open>url::Url\<close> (scheme and host); the
  error of \<^verbatim>\<open>parse::<u64>\<close> is shown by \<open>env_int_error\<close>.\<close>

record gateway_env =
  env_var :: "string \<Rightarrow> env_value"
  env_uri :: "string \<Rightarrow> string + (string option \<times> string option)"
  env_database_url :: "string \<Rightarrow> string + (string \<times> string option)"
  env_int_error :: "string \<Rightarrow> string"

fun optional_value :: "string \<Rightarrow> env_value \<Rightarrow> string + string option" where
  "optional_value name (Env_Present v) = Inr (Some v)"
| "optional_value name Env_Not_Present = Inr None"
| "optional_value name Env_Not_Unicode = Inl (name @ '' contains non-Unicode data'')"

definition read_optional :: "gateway_env \<Rightarrow> string \<Rightarrow> string + string option" where
  "read_optional E name = optional_value name (env_var E name)"

definition read_or_default :: "gateway_env \<Rightarrow> string \<Rightarrow> string \<Rightarrow> string + string" where
  "read_or_default E name otherwise =
     and_then (read_optional E name) (\<lambda>v. Inr (case v of Some s \<Rightarrow> s | None \<Rightarrow> otherwise))"

definition read_required :: "gateway_env \<Rightarrow> string \<Rightarrow> string + string" where
  "read_required E name = and_then (read_optional E name) (ok_or (name @ '' is not set''))"

definition bounded_value :: "string \<Rightarrow> string \<Rightarrow> nat \<Rightarrow> string + string" where
  "bounded_value name v max_chars =
     (let n = char_count v in
      if n = 0 \<or> n > max_chars
      then Inl (name @ '' must contain between 1 and '' @ show_nat max_chars @ '' characters'') else Inr v)"

definition uri_endpoint :: "gateway_env \<Rightarrow> string \<Rightarrow> string \<Rightarrow> string + string" where
  "uri_endpoint E name v =
     and_then (bounded_value name v MAX_ENDPOINT_URL_CHARS) (\<lambda>v.
       case env_uri E v of
         Inl e \<Rightarrow> Inl (name @ '' is not a valid URI: '' @ e)
       | Inr (scheme, authority) \<Rightarrow>
           if scheme \<notin> {Some ''http'', Some ''https''} \<or> authority = None
           then Inl (name @ '' must be an absolute HTTP or HTTPS URI'') else Inr v)"

definition validate_database_url :: "gateway_env \<Rightarrow> string \<Rightarrow> string + unit" where
  "validate_database_url E v =
     (case env_database_url E v of
        Inl e \<Rightarrow> Inl (''DATABASE_URL: '' @ e)
      | Inr (scheme, host) \<Rightarrow>
          if scheme \<notin> {''postgres'', ''postgresql''} \<or> host = None
          then Inl ''DATABASE_URL must be an absolute postgres or postgresql URL'' else Inr ())"

definition session_ttl_from :: "gateway_env \<Rightarrow> string option \<Rightarrow> string + nat" where
  "session_ttl_from E v =
     and_then
       (case v of
          Some s \<Rightarrow> ok_or (''GATEWAY_SESSION_TTL_HOURS: '' @ env_int_error E s) (parse_usize s)
        | None \<Rightarrow> Inr DEFAULT_SESSION_TTL_HOURS)
       (\<lambda>hours.
          if hours = 0 \<or> hours > MAX_SESSION_TTL_HOURS
          then Inl (''GATEWAY_SESSION_TTL_HOURS must be between 1 and '' @ show_nat MAX_SESSION_TTL_HOURS)
          else Inr (duration_from_secs (hours * 3600)))"

definition gateway_config :: "gateway_env \<Rightarrow> string + gw_config" where
  "gateway_config E =
     and_then (read_or_default E ''CRAWLER_URL'' DEFAULT_CRAWLER_URL) (\<lambda>v.
     and_then (uri_endpoint E ''CRAWLER_URL'' v) (\<lambda>crawler.
     and_then (read_or_default E ''KNOWLEDGE_BASE_URL'' DEFAULT_KNOWLEDGE_BASE_URL) (\<lambda>v.
     and_then (uri_endpoint E ''KNOWLEDGE_BASE_URL'' v) (\<lambda>knowledge_base.
     and_then (read_or_default E ''CHAT_URL'' DEFAULT_CHAT_URL) (\<lambda>v.
     and_then (uri_endpoint E ''CHAT_URL'' v) (\<lambda>chat.
     and_then (read_or_default E ''FRONTEND_DIST_DIR'' DEFAULT_FRONTEND_DIR) (\<lambda>v.
     and_then (bounded_value ''FRONTEND_DIST_DIR'' v MAX_FRONTEND_PATH_CHARS) (\<lambda>frontend.
     and_then (read_required E ''DATABASE_URL'') (\<lambda>v.
     and_then (bounded_value ''DATABASE_URL'' v MAX_DATABASE_URL_CHARS) (\<lambda>database.
     and_then (validate_database_url E database) (\<lambda>_.
     and_then (read_required E ''GATEWAY_AUTH_PASSWORD'') (\<lambda>v.
     and_then (bounded_value ''GATEWAY_AUTH_PASSWORD'' v MAX_AUTH_PASSWORD_CHARS) (\<lambda>password.
     and_then (read_optional E ''GATEWAY_SESSION_TTL_HOURS'') (\<lambda>hours.
     and_then (session_ttl_from E hours) (\<lambda>ttl.
       Inr \<lparr>gw_crawler_url = crawler, gw_knowledge_base_url = knowledge_base, gw_chat_url = chat,
            gw_frontend_dir = frontend, gw_database_url = database, gw_password = password,
            gw_session_ttl = ttl\<rparr>)))))))))))))))"

section \<open>The table of sessions\<close>

record cache_row =
  row_key :: string
  row_value :: string
  row_expires_at :: instant

text \<open>Why a statement fails, if it does, and whether the database carried it out all the same.\<close>

type_synonym session_fault = "(string \<times> bool) option"

definition written :: "session_fault \<Rightarrow> cache_row list \<Rightarrow> cache_row list \<Rightarrow> (string + unit) \<times> cache_row list" where
  "written fault rows rows' =
     (case fault of None \<Rightarrow> (Inr (), rows') | Some (e, done) \<Rightarrow> (Inl e, if done then rows' else rows))"

definition cache_get :: "session_fault \<Rightarrow> instant \<Rightarrow> cache_row list \<Rightarrow> string \<Rightarrow> string + string option" where
  "cache_get fault now rows key =
     (case fault of
        Some (e, _) \<Rightarrow> Inl e
      | None \<Rightarrow>
          Inr (case find (\<lambda>r. row_key r = key) rows of
                 None \<Rightarrow> None
               | Some r \<Rightarrow> if row_expires_at r > now then Some (row_value r) else None))"

text \<open>\<^verbatim>\<open>chrono::Duration::from_std\<close> refuses more than \<^verbatim>\<open>i64::MAX\<close> milliseconds.\<close>

definition MAX_TIME_DELTA :: nat where "MAX_TIME_DELTA = (2 ^ 63 - 1) * 1000000"

definition cache_set ::
  "session_fault \<Rightarrow> instant \<Rightarrow> cache_row list \<Rightarrow> string \<Rightarrow> string \<Rightarrow> nat \<Rightarrow> (string + unit) \<times> cache_row list" where
  "cache_set fault now rows key v ttl =
     (if ttl > MAX_TIME_DELTA then (Inl ''Source duration value is out of range for the target type'', rows)
      else
        let expires_at = now + int ttl in
        written fault rows
          (if \<exists>r \<in> set rows. row_key r = key
           then update_where (\<lambda>r. row_key r = key) (\<lambda>r. r\<lparr>row_value := v, row_expires_at := expires_at\<rparr>) rows
           else rows @ [\<lparr>row_key = key, row_value = v, row_expires_at = expires_at\<rparr>]))"

definition cache_delete :: "session_fault \<Rightarrow> cache_row list \<Rightarrow> string \<Rightarrow> (string + unit) \<times> cache_row list" where
  "cache_delete fault rows key = written fault rows (filter (\<lambda>r. row_key r \<noteq> key) rows)"

definition drop_expired :: "session_fault \<Rightarrow> instant \<Rightarrow> cache_row list \<Rightarrow> (string + nat) \<times> cache_row list" where
  "drop_expired fault now rows =
     (case written fault rows (filter (\<lambda>r. \<not> row_expires_at r < now) rows) of
        (Inl e, rows') \<Rightarrow> (Inl e, rows')
      | (Inr _, rows') \<Rightarrow> (Inr (rows_affected (\<lambda>r. row_expires_at r < now) rows), rows'))"

section \<open>Tokens, passwords and cookies\<close>

definition TOKEN_BYTES :: nat where "TOKEN_BYTES = 32"
definition COOKIE_NAME :: string where "COOKIE_NAME = ''session''"

definition to_hex :: "string \<Rightarrow> string" where
  "to_hex bytes = concat (map (\<lambda>b. [hex_digit (of_char b div 16), hex_digit (of_char b mod 16)]) bytes)"

text \<open>The random bytes are an argument.\<close>

definition generate_token :: "string \<Rightarrow> string" where
  "generate_token bytes = to_hex (take TOKEN_BYTES bytes)"

record gw_request =
  rq_method :: string
  rq_path :: string
  rq_headers :: "(string \<times> string) list"
  rq_body :: string

record gw_response =
  rs_status :: nat
  rs_headers :: "(string \<times> string) list"
  rs_body :: string

datatype gateway_rpc =
    StartCrawl | GetCrawlJob | GetPageNeighbors
  | Ingest | Search | ReadDocument
  | CreateTopic | SetFocus | SendTurn | GetSession | ResetSession | StreamEvents

text \<open>The error codes of \<^verbatim>\<open>connectrpc\<close> that the gateway names or tells apart.\<close>

datatype proxy_code =
    Code_Unavailable | Code_DeadlineExceeded | Code_Unauthenticated | Code_Unimplemented | Code_Other string

type_synonym proxy_error = "proxy_code \<times> string"

datatype rpc_answer = Unary string | Streamed "(proxy_error + string) list"

text \<open>
  The libraries around the gateway: SHA-256, the form of a login or the refusal of \<^verbatim>\<open>axum::Form\<close>, the
  files of the front end, the Connect protocol on both sides of a handler (a request that is no call of
  a service is answered by the protocol itself), and what a header value that cannot be sent is refused with.
\<close>

record gateway_platform =
  gw_sha256 :: "string \<Rightarrow> string"
  login_form :: "gw_request \<Rightarrow> gw_response + string"
  serve_file :: "string \<Rightarrow> gw_request \<Rightarrow> gw_response"
  connect_request :: "gw_request \<Rightarrow> gw_response + (gateway_rpc \<times> string)"
  connect_response :: "proxy_error + rpc_answer \<Rightarrow> gw_response"
  header_refused :: "string \<Rightarrow> proxy_error"

definition hash_token :: "gateway_platform \<Rightarrow> string \<Rightarrow> string" where
  "hash_token P token = to_hex (gw_sha256 P token)"

definition passwords_match :: "gateway_platform \<Rightarrow> string \<Rightarrow> string \<Rightarrow> bool" where
  "passwords_match P candidate expected =
     (fold (\<lambda>(a, b) difference. or difference (xor (of_char a) (of_char b)))
        (zip (gw_sha256 P candidate) (gw_sha256 P expected)) (0 :: 8 word) = 0)"

text \<open>\<^verbatim>\<open>HeaderValue::to_str\<close> and \<^verbatim>\<open>HeaderValue::from_str\<close>: the visible ASCII characters, the blank and the tab.\<close>

definition header_text :: "string \<Rightarrow> bool" where
  "header_text v \<longleftrightarrow>
     list_all (\<lambda>c. let b = of_char c :: nat in 32 \<le> b \<and> b < 127 \<or> b = 9) v"

definition cookie_value :: "string \<Rightarrow> string \<Rightarrow> string option" where
  "cookie_value header name =
     find_map
       (\<lambda>pair. case split_once (CHR ''='') (trim pair) of
                 None \<Rightarrow> None
               | Some (key, v) \<Rightarrow> if key = name then Some v else None)
       (split_on (CHR '';'') header)"

definition session_token :: "(string \<times> string) list \<Rightarrow> string option" where
  "session_token headers =
     (case map_of headers ''cookie'' of
        None \<Rightarrow> None
      | Some v \<Rightarrow> if header_text v then cookie_value v COOKIE_NAME else None)"

section \<open>Authentication\<close>

record gw_auth =
  auth_password :: string
  auth_session_ttl :: nat

definition UNAUTHENTICATED_RPC_BODY :: string where
  "UNAUTHENTICATED_RPC_BODY =
     ''{'' @ quoted ''code'' @ '':'' @ quoted ''unauthenticated'' @ '','' @ quoted ''message'' @ '':'' @
     quoted ''log in first'' @ ''}''"

definition LOGIN_REJECTED_BODY :: string where
  "LOGIN_REJECTED_BODY = ''Wrong password. <a href='' @ quoted ''/login'' @ ''>Try again</a>''"

definition text_response :: "nat \<Rightarrow> string \<Rightarrow> gw_response" where
  "text_response code body =
     \<lparr>rs_status = code, rs_headers = [(''content-type'', ''text/plain; charset=utf-8'')], rs_body = body\<rparr>"

definition unauthenticated :: "string \<Rightarrow> gw_response" where
  "unauthenticated path =
     (if path \<in> {''/'', ''/sources''}
      then \<lparr>rs_status = 303, rs_headers = [(''location'', ''/login'')], rs_body = []\<rparr>
      else \<lparr>rs_status = 401, rs_headers = [(''content-type'', ''application/json'')],
            rs_body = UNAUTHENTICATED_RPC_BODY\<rparr>)"

text \<open>The answer in the place of the next service, or \<^const>\<open>None\<close> where the request goes on to it.\<close>

definition require_session ::
  "gateway_platform \<Rightarrow> session_fault \<Rightarrow> instant \<Rightarrow> cache_row list \<Rightarrow> gw_request \<Rightarrow> gw_response option" where
  "require_session P fault now rows req =
     (case session_token (rq_headers req) of
        None \<Rightarrow> Some (unauthenticated (rq_path req))
      | Some token \<Rightarrow>
          (case cache_get fault now rows (hash_token P token) of
             Inr (Some _) \<Rightarrow> None
           | Inr None \<Rightarrow> Some (unauthenticated (rq_path req))
           | Inl _ \<Rightarrow> Some (text_response 503 ''the session store is not available'')))"

definition session_cookie :: "string \<Rightarrow> nat \<Rightarrow> string" where
  "session_cookie token max_age =
     COOKIE_NAME @ ''='' @ token @ ''; Path=/; HttpOnly; SameSite=Lax; Max-Age='' @ show_nat max_age"

definition login_submit ::
  "gateway_platform \<Rightarrow> gw_auth \<Rightarrow> session_fault \<Rightarrow> instant \<Rightarrow> string \<Rightarrow> cache_row list \<Rightarrow> gw_request \<Rightarrow>
   gw_response \<times> cache_row list" where
  "login_submit P A fault now bytes rows req =
     (case login_form P req of
        Inl refusal \<Rightarrow> (refusal, rows)
      | Inr password \<Rightarrow>
          if \<not> passwords_match P password (auth_password A)
          then (\<lparr>rs_status = 401, rs_headers = [(''content-type'', ''text/html; charset=utf-8'')],
                 rs_body = LOGIN_REJECTED_BODY\<rparr>, rows)
          else
            let token = generate_token bytes in
            (case cache_set fault now rows (hash_token P token) [] (auth_session_ttl A) of
               (Inl _, rows') \<Rightarrow> (text_response 503 ''could not log in; try again'', rows')
             | (Inr _, rows') \<Rightarrow>
                 (\<lparr>rs_status = 303,
                   rs_headers =
                     [(''set-cookie'', session_cookie token (auth_session_ttl A div duration_from_secs 1)),
                      (''location'', ''/'')],
                   rs_body = []\<rparr>, rows')))"

definition logout ::
  "gateway_platform \<Rightarrow> session_fault \<Rightarrow> cache_row list \<Rightarrow> (string \<times> string) list \<Rightarrow>
   gw_response \<times> cache_row list" where
  "logout P fault rows headers =
     (\<lparr>rs_status = 303,
       rs_headers =
         [(''set-cookie'', COOKIE_NAME @ ''=; Path=/; HttpOnly; SameSite=Lax; Max-Age=0''),
          (''location'', ''/login'')],
       rs_body = []\<rparr>,
      case session_token headers of
        None \<Rightarrow> rows
      | Some token \<Rightarrow> snd (cache_delete fault rows (hash_token P token)))"

section \<open>Calls to the internal services\<close>

definition CRAWLER_CALL_TIMEOUT :: nat where "CRAWLER_CALL_TIMEOUT = duration_from_secs 10"
definition CRAWLER_CALL_ATTEMPTS :: nat where "CRAWLER_CALL_ATTEMPTS = 3"
definition CRAWLER_RETRY_DELAY :: nat where "CRAWLER_RETRY_DELAY = 100 * 1000000"
definition KNOWLEDGE_BASE_CALL_TIMEOUT :: nat where "KNOWLEDGE_BASE_CALL_TIMEOUT = duration_from_secs 10"
definition CHAT_SEND_TURN_CLASSIFICATION_BUDGET :: nat where
  "CHAT_SEND_TURN_CLASSIFICATION_BUDGET = duration_from_secs 30"
definition CHAT_CALL_TIMEOUT :: nat where
  "CHAT_CALL_TIMEOUT =
     duration_from_secs (CHAT_SEND_TURN_CLASSIFICATION_BUDGET div duration_from_secs 1 * 2)"
definition CHAT_STREAM_WHOLE_CALL_DEADLINE :: nat where
  "CHAT_STREAM_WHOLE_CALL_DEADLINE = duration_from_secs 3600"

definition SINGLE_TENANT_USER_ID :: string where
  "SINGLE_TENANT_USER_ID = ''00000000-0000-0000-0000-000000000001''"
definition GW_USER_ID_HEADER :: string where "GW_USER_ID_HEADER = ''x-principal-user-id''"
definition GW_SESSION_ID_HEADER :: string where "GW_SESSION_ID_HEADER = ''x-principal-session-id''"

record call_options =
  call_headers :: "(string \<times> string) list"
  call_timeout :: nat

text \<open>
  The three clients. A stream is what it says until it says no more: a message, its end (\<^const>\<open>None\<close>) or an
  error; \<open>taken_by_browser\<close> is the number of messages the browser takes before it leaves.
\<close>

record 'w upstream =
  unary_call :: "gateway_rpc \<Rightarrow> string \<Rightarrow> call_options \<Rightarrow> ('w, proxy_error + string) state"
  open_stream :: "string \<Rightarrow> call_options \<Rightarrow> ('w, proxy_error + (proxy_error + string option) list) state"
  taken_by_browser :: "('w, nat) state"
  retry_pause :: "nat \<Rightarrow> ('w, unit) state"

definition chat_call_options :: "gateway_platform \<Rightarrow> (string \<times> string) list \<Rightarrow> proxy_error + call_options" where
  "chat_call_options P headers =
     (case session_token headers of
        None \<Rightarrow> Inl (Code_Unauthenticated, ''no session cookie on the request'')
      | Some token \<Rightarrow>
          if header_text token
          then Inr \<lparr>call_headers = [(GW_USER_ID_HEADER, SINGLE_TENANT_USER_ID), (GW_SESSION_ID_HEADER, token)],
                    call_timeout = CHAT_CALL_TIMEOUT\<rparr>
          else Inl (header_refused P token))"

definition worth_another_attempt :: "proxy_error \<Rightarrow> bool" where
  "worth_another_attempt e \<longleftrightarrow> fst e = Code_Unavailable \<or> fst e = Code_DeadlineExceeded"

function retry_from ::
  "nat \<Rightarrow> 'w upstream \<Rightarrow> ('w, proxy_error + string) state \<Rightarrow> ('w, proxy_error + string) state" where
  "retry_from attempt U call =
     do { r \<leftarrow> call;
          case r of
            Inr response \<Rightarrow> State_Monad.return (Inr response)
          | Inl e \<Rightarrow>
              if attempt < CRAWLER_CALL_ATTEMPTS \<and> worth_another_attempt e
              then do { _ \<leftarrow> retry_pause U CRAWLER_RETRY_DELAY; retry_from (attempt + 1) U call }
              else State_Monad.return (Inl e) }"
  by pat_completeness auto
termination by (relation "measure (\<lambda>(attempt, _). CRAWLER_CALL_ATTEMPTS - attempt)") auto

declare retry_from.simps [simp del]

definition retry_crawler_call ::
  "'w upstream \<Rightarrow> ('w, proxy_error + string) state \<Rightarrow> ('w, proxy_error + string) state" where
  "retry_crawler_call U call = retry_from 1 U call"

text \<open>The task that copies the stream: it stops when nobody listens, at the end and at an error.\<close>

fun forward_events :: "nat \<Rightarrow> (proxy_error + string option) list \<Rightarrow> (proxy_error + string) list" where
  "forward_events listening [] = []"
| "forward_events listening (Inr (Some item) # said) =
     (if listening = 0 then [] else Inr item # forward_events (listening - 1) said)"
| "forward_events listening (Inr None # said) = []"
| "forward_events listening (Inl e # said) = (if listening = 0 then [] else [Inl e])"

definition as_unary :: "proxy_error + string \<Rightarrow> proxy_error + rpc_answer" where
  "as_unary r = and_then r (\<lambda>s. Inr (Unary s))"

definition chat_unary ::
  "gateway_platform \<Rightarrow> 'w upstream \<Rightarrow> (string \<times> string) list \<Rightarrow> gateway_rpc \<Rightarrow> string \<Rightarrow>
   ('w, proxy_error + rpc_answer) state" where
  "chat_unary P U headers rpc body =
     (case chat_call_options P headers of
        Inl e \<Rightarrow> State_Monad.return (Inl e)
      | Inr options \<Rightarrow> do { r \<leftarrow> unary_call U rpc body options; State_Monad.return (as_unary r) })"

definition gw_stream_events ::
  "gateway_platform \<Rightarrow> 'w upstream \<Rightarrow> (string \<times> string) list \<Rightarrow> string \<Rightarrow> ('w, proxy_error + rpc_answer) state" where
  "gw_stream_events P U headers body =
     (case chat_call_options P headers of
        Inl e \<Rightarrow> State_Monad.return (Inl e)
      | Inr options \<Rightarrow>
          do { r \<leftarrow> open_stream U body (options\<lparr>call_timeout := CHAT_STREAM_WHOLE_CALL_DEADLINE\<rparr>);
               case r of
                 Inl e \<Rightarrow> State_Monad.return (Inl e)
               | Inr said \<Rightarrow>
                   do { listening \<leftarrow> taken_by_browser U;
                        State_Monad.return (Inr (Streamed (forward_events listening said))) } })"

definition gw_ingest :: "proxy_error" where
  "gw_ingest =
     (Code_Unimplemented, ''ingest is a crawler-to-knowledge-base call, not exposed through Gateway'')"

fun proxied ::
  "gateway_platform \<Rightarrow> 'w upstream \<Rightarrow> (string \<times> string) list \<Rightarrow> gateway_rpc \<Rightarrow> string \<Rightarrow>
   ('w, proxy_error + rpc_answer) state" where
  "proxied P U headers StartCrawl body =
     do { r \<leftarrow> unary_call U StartCrawl body \<lparr>call_headers = [], call_timeout = CRAWLER_CALL_TIMEOUT\<rparr>;
          State_Monad.return (as_unary r) }"
| "proxied P U headers GetCrawlJob body =
     do { r \<leftarrow> retry_crawler_call U
                 (unary_call U GetCrawlJob body \<lparr>call_headers = [], call_timeout = CRAWLER_CALL_TIMEOUT\<rparr>);
          State_Monad.return (as_unary r) }"
| "proxied P U headers GetPageNeighbors body =
     do { r \<leftarrow> retry_crawler_call U
                 (unary_call U GetPageNeighbors body \<lparr>call_headers = [], call_timeout = CRAWLER_CALL_TIMEOUT\<rparr>);
          State_Monad.return (as_unary r) }"
| "proxied P U headers Ingest body = State_Monad.return (Inl gw_ingest)"
| "proxied P U headers Search body =
     do { r \<leftarrow> unary_call U Search body \<lparr>call_headers = [], call_timeout = KNOWLEDGE_BASE_CALL_TIMEOUT\<rparr>;
          State_Monad.return (as_unary r) }"
| "proxied P U headers ReadDocument body =
     do { r \<leftarrow> unary_call U ReadDocument body \<lparr>call_headers = [], call_timeout = KNOWLEDGE_BASE_CALL_TIMEOUT\<rparr>;
          State_Monad.return (as_unary r) }"
| "proxied P U headers CreateTopic body = chat_unary P U headers CreateTopic body"
| "proxied P U headers SetFocus body = chat_unary P U headers SetFocus body"
| "proxied P U headers SendTurn body = chat_unary P U headers SendTurn body"
| "proxied P U headers GetSession body = chat_unary P U headers GetSession body"
| "proxied P U headers ResetSession body = chat_unary P U headers ResetSession body"
| "proxied P U headers StreamEvents body = gw_stream_events P U headers body"

section \<open>Routes\<close>

text \<open>The rows of the table and whatever the internal services keep.\<close>

record 'w gw_state =
  session_rows :: "cache_row list"
  upstream_world :: 'w

definition not_allowed :: "string \<Rightarrow> gw_response" where
  "not_allowed allow = \<lparr>rs_status = 405, rs_headers = [(''allow'', allow)], rs_body = []\<rparr>"

definition health_route :: "gw_request \<Rightarrow> gw_response" where
  "health_route req =
     (if rq_method req = ''GET'' then text_response 200 ''OK''
      else if rq_method req = ''HEAD'' then (text_response 200 ''OK'')\<lparr>rs_body := []\<rparr>
      else not_allowed ''GET,HEAD'')"

text \<open>\<^verbatim>\<open>SetResponseHeaderLayer::if_not_present\<close> around the pages.\<close>

definition page_route :: "gateway_platform \<Rightarrow> string \<Rightarrow> gw_request \<Rightarrow> gw_response" where
  "page_route P file req =
     (let response = serve_file P file req in
      if map_of (rs_headers response) ''cache-control'' = None
      then response\<lparr>rs_headers := rs_headers response @ [(''cache-control'', ''no-store'')]\<rparr>
      else response)"

definition rpc_route :: "gateway_platform \<Rightarrow> 'w upstream \<Rightarrow> gw_request \<Rightarrow> ('w, gw_response) state" where
  "rpc_route P U req =
     (case connect_request P req of
        Inl response \<Rightarrow> State_Monad.return response
      | Inr (rpc, body) \<Rightarrow>
          do { answer \<leftarrow> proxied P U (rq_headers req) rpc body;
               State_Monad.return (connect_response P answer) })"

definition page_file :: "string \<Rightarrow> string option" where
  "page_file path =
     map_of [(''/'', ''index.html''), (''/sources'', ''sources.html''), (''/chat'', ''chat.html'')] path"

definition protected_routes :: "gateway_platform \<Rightarrow> 'w upstream \<Rightarrow> gw_request \<Rightarrow> ('w, gw_response) state" where
  "protected_routes P U req =
     (case page_file (rq_path req) of
        Some file \<Rightarrow> State_Monad.return (page_route P file req)
      | None \<Rightarrow> rpc_route P U req)"

definition public_paths :: "string list" where
  "public_paths = [''/health'', ''/login'', ''/logout'']"

text \<open>One request. \<open>fault\<close> is what happens to its one statement, \<open>bytes\<close> the randomness it would draw.\<close>

definition gateway_routes ::
  "gateway_platform \<Rightarrow> 'w upstream \<Rightarrow> gw_auth \<Rightarrow> session_fault \<Rightarrow> instant \<Rightarrow> string \<Rightarrow> gw_request \<Rightarrow> 'w gw_state \<Rightarrow>
   gw_response \<times> 'w gw_state" where
  "gateway_routes P U A fault now bytes req g =
     (if rq_path req = ''/health'' then (health_route req, g)
      else if rq_path req = ''/login'' then
        (if rq_method req = ''POST''
         then (let (response, rows) = login_submit P A fault now bytes (session_rows g) req in
               (response, g\<lparr>session_rows := rows\<rparr>))
         else if rq_method req \<in> {''GET'', ''HEAD''} then (serve_file P ''login.html'' req, g)
         else (not_allowed ''GET,HEAD,POST'', g))
      else if rq_path req = ''/logout'' then
        (if rq_method req = ''POST''
         then (let (response, rows) = logout P fault (session_rows g) (rq_headers req) in
               (response, g\<lparr>session_rows := rows\<rparr>))
         else (not_allowed ''POST'', g))
      else (case require_session P fault now (session_rows g) req of
              Some response \<Rightarrow> (response, g)
            | None \<Rightarrow>
                (let (response, w) = run_state (protected_routes P U req) (upstream_world g) in
                 (response, g\<lparr>upstream_world := w\<rparr>))))"

section \<open>Histories\<close>

datatype gw_event = Requested_at instant session_fault string gw_request | Swept_at instant session_fault

fun event_time :: "gw_event \<Rightarrow> instant" where
  "event_time (Requested_at now fault bytes req) = now"
| "event_time (Swept_at now fault) = now"

text \<open>A sweep that fails is logged and tried again at the next tick.\<close>

fun gateway_step :: "gateway_platform \<Rightarrow> 'w upstream \<Rightarrow> gw_auth \<Rightarrow> gw_event \<Rightarrow> 'w gw_state \<Rightarrow> 'w gw_state" where
  "gateway_step P U A (Requested_at now fault bytes req) g = snd (gateway_routes P U A fault now bytes req g)"
| "gateway_step P U A (Swept_at now fault) g =
     g\<lparr>session_rows := snd (drop_expired fault now (session_rows g))\<rparr>"

primrec gateway_after ::
  "gateway_platform \<Rightarrow> 'w upstream \<Rightarrow> gw_auth \<Rightarrow> gw_event list \<Rightarrow> 'w gw_state \<Rightarrow> 'w gw_state" where
  "gateway_after P U A [] g = g"
| "gateway_after P U A (e # past) g = gateway_step P U A e (gateway_after P U A past g)"

text \<open>What the gateway promises, read off the history alone: a token is good until the lifetime after the last
  login that issued it, unless it was logged out since. A statement counts if the database carried it out.\<close>

fun carried_out :: "session_fault \<Rightarrow> bool" where
  "carried_out None = True"
| "carried_out (Some (e, done)) = done"

fun issues :: "gateway_platform \<Rightarrow> gw_auth \<Rightarrow> gw_event \<Rightarrow> string \<Rightarrow> bool" where
  "issues P A (Requested_at now fault bytes req) h =
     (rq_path req = ''/login'' \<and> rq_method req = ''POST'' \<and>
      (case login_form P req of Inl _ \<Rightarrow> False | Inr password \<Rightarrow> passwords_match P password (auth_password A)) \<and>
      hash_token P (generate_token bytes) = h \<and> carried_out fault)"
| "issues P A (Swept_at now fault) h = False"

fun withdraws :: "gateway_platform \<Rightarrow> gw_event \<Rightarrow> string \<Rightarrow> bool" where
  "withdraws P (Requested_at now fault bytes req) h =
     (rq_path req = ''/logout'' \<and> rq_method req = ''POST'' \<and>
      map_option (hash_token P) (session_token (rq_headers req)) = Some h \<and> carried_out fault)"
| "withdraws P (Swept_at now fault) h = False"

primrec session_open ::
  "gateway_platform \<Rightarrow> gw_auth \<Rightarrow> gw_event list \<Rightarrow> string \<Rightarrow> instant \<Rightarrow> bool" where
  "session_open P A [] h now = False"
| "session_open P A (e # past) h now =
     (if issues P A e h then now < event_time e + int (auth_session_ttl A)
      else if withdraws P e h then False
      else session_open P A past h now)"

definition clock_advances :: "gw_event list \<Rightarrow> instant \<Rightarrow> bool" where
  "clock_advances past now \<longleftrightarrow> sorted_wrt (\<ge>) (now # map event_time past)"


definition open_row :: "cache_row list \<Rightarrow> string \<Rightarrow> instant \<Rightarrow> bool" where
  "open_row rows h now \<longleftrightarrow> (\<exists>r \<in> set rows. row_key r = h \<and> now < row_expires_at r)"

section \<open>One statement\<close>

lemma passwords_match_iff:
  assumes "\<And>s. length (gw_sha256 P s) = 32"
  shows "passwords_match P candidate expected \<longleftrightarrow> gw_sha256 P candidate = gw_sha256 P expected"
proof -
  have fold_zero: "fold (\<lambda>(a, b) d. or d (xor (of_char a) (of_char b))) ps (d :: 8 word) = 0 \<longleftrightarrow>
      d = 0 \<and> (\<forall>(a, b) \<in> set ps. a = b)" for ps d
  proof (induction ps arbitrary: d)
    case (Cons p ps)
    have same: "(of_char a :: 8 word) = of_char b \<longleftrightarrow> a = b" for a b :: char
    proof
      assume "(of_char a :: 8 word) = of_char b"
      then have "unat (of_nat (of_char a) :: 8 word) = unat (of_nat (of_char b) :: 8 word)"
        by (simp only: of_nat_of_char)
      then have "(of_char a :: nat) mod 256 = of_char b mod 256" by (simp only: unat_of_nat) simp
      then show "a = b" by simp
    qed simp
    have or_zero: "or x y = 0 \<longleftrightarrow> x = 0 \<and> y = 0" for x y :: "8 word"
      by (auto simp: bit_eq_iff bit_or_iff)
    have xor_zero: "xor x y = 0 \<longleftrightarrow> x = y" for x y :: "8 word"
      by (auto simp: bit_eq_iff bit_xor_iff)
    show ?case by (cases p) (auto simp: Cons or_zero xor_zero same)
  qed simp
  have zip_same: "length xs = length ys \<Longrightarrow> (\<forall>(a, b) \<in> set (zip xs ys). a = b) \<longleftrightarrow> xs = ys" for xs ys :: string
    by (induction xs ys rule: list_induct2) auto
  have "length (gw_sha256 P candidate) = length (gw_sha256 P expected)" using assms by simp
  then show ?thesis by (simp only: passwords_match_def fold_zero zip_same simp_thms)
qed

lemma carried_out_iff: "carried_out fault \<longleftrightarrow> (case fault of None \<Rightarrow> True | Some f \<Rightarrow> snd f)"
  by (cases fault rule: carried_out.cases) auto

lemma written_rows: "snd (written fault rows rows') = (if carried_out fault then rows' else rows)"
  by (auto simp: written_def carried_out_iff split: option.split)

lemma open_row_append [simp]: "open_row (rows @ rows') h now \<longleftrightarrow> open_row rows h now \<or> open_row rows' h now"
  by (auto simp: open_row_def)

lemma open_row_update:
  "open_row (update_where (\<lambda>r. row_key r = key) (\<lambda>r. r\<lparr>row_value := v, row_expires_at := x\<rparr>) rows) h now \<longleftrightarrow>
    (if h = key then (\<exists>r \<in> set rows. row_key r = key) \<and> now < x else open_row rows h now)"
  by (induction rows) (auto simp: update_where_def open_row_def)

lemma set_rows:
  assumes "ttl \<le> MAX_TIME_DELTA"
  shows "open_row (snd (cache_set fault t rows key v ttl)) h now \<longleftrightarrow>
    (if h = key \<and> carried_out fault then now < t + int ttl else open_row rows h now)"
proof (cases "\<exists>r \<in> set rows. row_key r = key")
  case True
  then show ?thesis using assms by (simp add: cache_set_def written_rows Let_def open_row_update)
next
  case False
  then have "\<not> open_row rows key now" by (auto simp: open_row_def)
  with False show ?thesis
    using assms by (auto simp: cache_set_def written_rows Let_def open_row_def [of "[_]"])
qed

lemma delete_rows:
  "open_row (snd (cache_delete fault rows key)) h now \<longleftrightarrow>
    \<not> (h = key \<and> carried_out fault) \<and> open_row rows h now"
  by (auto simp: cache_delete_def written_rows open_row_def)

lemma drop_expired_rows: "snd (drop_expired fault t rows) =
    (if carried_out fault then filter (\<lambda>r. \<not> row_expires_at r < t) rows else rows)"
  by (simp add: drop_expired_def written_rows [symmetric] split: prod.split sum.split)

lemma sweep_rows: "t \<le> now \<Longrightarrow> open_row (snd (drop_expired fault t rows)) h now = open_row rows h now"
  by (auto simp: drop_expired_rows open_row_def)

definition keyed :: "cache_row list \<Rightarrow> bool" where
  "keyed rows \<longleftrightarrow> distinct (map row_key rows)"

lemma find_row: "keyed rows \<Longrightarrow>
    open_row rows h now \<longleftrightarrow>
    (case find (\<lambda>r. row_key r = h) rows of None \<Rightarrow> False | Some r \<Rightarrow> now < row_expires_at r)"
  by (induction rows) (auto simp: keyed_def open_row_def, metis image_eqI)

lemma get_row: "keyed rows \<Longrightarrow>
    cache_get None now rows h = Inr v \<Longrightarrow> (v \<noteq> None) = open_row rows h now"
  by (auto simp: find_row cache_get_def split: if_splits option.splits)

lemma keyed_filter: "keyed rows \<Longrightarrow> keyed (filter p rows)"
  by (simp add: keyed_def distinct_map_filter)

lemma keyed_set: "keyed rows \<Longrightarrow> keyed (snd (cache_set fault t rows key v ttl))"
proof -
  have "map row_key (update_where p (\<lambda>r. r\<lparr>row_value := v, row_expires_at := x\<rparr>) rows) = map row_key rows" for p x
    by (simp add: update_where_def comp_def if_distrib cong: if_cong)
  then show "keyed rows \<Longrightarrow> keyed (snd (cache_set fault t rows key v ttl))"
    by (auto simp: keyed_def cache_set_def written_rows Let_def)
qed

lemma keyed_delete: "keyed rows \<Longrightarrow> keyed (snd (cache_delete fault rows key))"
  by (simp add: cache_delete_def written_rows keyed_filter)

lemma keyed_drop: "keyed rows \<Longrightarrow> keyed (snd (drop_expired fault t rows))"
  by (simp add: drop_expired_rows keyed_filter)

section \<open>The table implements the promise\<close>

definition login_accepted :: "gateway_platform \<Rightarrow> gw_auth \<Rightarrow> gw_request \<Rightarrow> bool" where
  "login_accepted P A req \<longleftrightarrow> rq_path req = ''/login'' \<and> rq_method req = ''POST'' \<and>
     (case login_form P req of Inl _ \<Rightarrow> False | Inr password \<Rightarrow> passwords_match P password (auth_password A))"

text \<open>What a request does to the table: at most one statement.\<close>

lemma rows_after_request:
  "session_rows (snd (gateway_routes P U A fault now bytes req g)) =
     (if login_accepted P A req
      then snd (cache_set fault now (session_rows g) (hash_token P (generate_token bytes)) [] (auth_session_ttl A))
      else if rq_path req = ''/logout'' \<and> rq_method req = ''POST''
      then (case session_token (rq_headers req) of
              None \<Rightarrow> session_rows g
            | Some token \<Rightarrow> snd (cache_delete fault (session_rows g) (hash_token P token)))
      else session_rows g)"
  by (auto simp: gateway_routes_def login_accepted_def login_submit_def logout_def Let_def
      split: prod.split sum.split option.split)

lemma keyed_step: "keyed (session_rows g) \<Longrightarrow> keyed (session_rows (gateway_step P U A e g))"
  by (cases e) (auto simp: rows_after_request keyed_set keyed_delete keyed_drop split: option.split)

lemma keyed_after: "keyed (session_rows g) \<Longrightarrow> keyed (session_rows (gateway_after P U A past g))"
  by (induction past) (auto simp: keyed_step)

lemma session_ttl_range:
  "session_ttl_from E v = Inr ttl \<Longrightarrow> duration_from_secs 3600 \<le> ttl \<and> ttl \<le> duration_from_secs (8760 * 3600)"
  by (auto simp: session_ttl_from_def result_simps duration_from_secs_def MAX_SESSION_TTL_HOURS_def
      DEFAULT_SESSION_TTL_HOURS_def split: option.splits if_splits)

lemma session_ttl_fits: "session_ttl_from E v = Inr ttl \<Longrightarrow> ttl \<le> MAX_TIME_DELTA"
  using session_ttl_range [of E v ttl] by (simp add: duration_from_secs_def MAX_TIME_DELTA_def)

lemma open_row_step:
  assumes "auth_session_ttl A \<le> MAX_TIME_DELTA" "event_time e \<le> now"
  shows "open_row (session_rows (gateway_step P U A e g)) h now \<longleftrightarrow>
    (if issues P A e h then now < event_time e + int (auth_session_ttl A)
     else \<not> withdraws P e h \<and> open_row (session_rows g) h now)"
proof (cases e)
  case (Requested_at t fault bytes req)
  then show ?thesis
    using assms(1)
    by (auto simp: rows_after_request set_rows delete_rows login_accepted_def split: option.split sum.splits)
next
  case (Swept_at t fault)
  then show ?thesis using assms(2) by (simp add: sweep_rows)
qed

lemma open_row_after:
  assumes "auth_session_ttl A \<le> MAX_TIME_DELTA" "clock_advances past now" "session_rows g = []"
  shows "open_row (session_rows (gateway_after P U A past g)) h now = session_open P A past h now"
  using assms(2)
proof (induction past)
  case Nil
  then show ?case using assms(3) by (simp add: open_row_def)
next
  case (Cons e past)
  then have "clock_advances past now" "event_time e \<le> now" by (auto simp: clock_advances_def)
  with Cons.IH show ?case by (simp add: open_row_step [OF assms(1)])
qed

text \<open>The guard of the protected routes, read off the history.\<close>

definition promised_guard ::
  "gateway_platform \<Rightarrow> gw_auth \<Rightarrow> session_fault \<Rightarrow> instant \<Rightarrow> gw_event list \<Rightarrow> gw_request \<Rightarrow> gw_response option" where
  "promised_guard P A fault now past req =
     (case session_token (rq_headers req) of
        None \<Rightarrow> Some (unauthenticated (rq_path req))
      | Some token \<Rightarrow>
          if fault \<noteq> None then Some (text_response 503 ''the session store is not available'')
          else if session_open P A past (hash_token P token) now then None
          else Some (unauthenticated (rq_path req)))"

lemma guard_is_promised:
  assumes "auth_session_ttl A \<le> MAX_TIME_DELTA" "clock_advances past now" "session_rows g = []"
  shows "require_session P fault now (session_rows (gateway_after P U A past g)) req =
    promised_guard P A fault now past req"
proof -
  let ?rows = "session_rows (gateway_after P U A past g)"
  have "keyed (session_rows g)" using assms(3) by (simp add: keyed_def)
  then have "keyed ?rows" by (rule keyed_after)
  from get_row [OF this] have got: "cache_get None now ?rows h = Inr v \<Longrightarrow>
      (v \<noteq> None) = session_open P A past h now" for h v
    using open_row_after [OF assms] by simp
  have "\<exists>v. cache_get None now ?rows h = Inr v" for h by (simp add: cache_get_def)
  then show ?thesis
    by (cases fault)
      (auto simp: require_session_def promised_guard_def dest!: got split: option.splits sum.splits,
       auto simp: cache_get_def split: option.splits)
qed

section \<open>What the browser gets\<close>

lemma retry_makes_at_most_three_calls:
  fixes calls :: "'w \<Rightarrow> nat"
  assumes counted: "\<And>w. calls (snd (run_state call w)) = calls w + 1"
    and "\<And>w. calls (snd (run_state (retry_pause U CRAWLER_RETRY_DELAY) w)) = calls w"
  shows "calls (snd (run_state (retry_crawler_call U call) w)) \<le> calls w + CRAWLER_CALL_ATTEMPTS"
proof -
  have "calls (snd (run_state (retry_from attempt U call) w)) \<le> calls w + max 1 (CRAWLER_CALL_ATTEMPTS + 1 - attempt)"
    for attempt w
  proof (induction "CRAWLER_CALL_ATTEMPTS - attempt" arbitrary: attempt w rule: less_induct)
    case less
    obtain r w1 where r: "run_state call w = (r, w1)" by fastforce
    with counted [of w] have one: "calls w1 = calls w + 1" by simp
    show ?case
    proof (cases "\<exists>e. r = Inl e \<and> attempt < CRAWLER_CALL_ATTEMPTS \<and> worth_another_attempt e")
      case True
      then obtain e where e: "r = Inl e" "attempt < CRAWLER_CALL_ATTEMPTS \<and> worth_another_attempt e" by blast
      obtain w2 where w2: "run_state (retry_pause U CRAWLER_RETRY_DELAY) w1 = ((), w2)"
        by (cases "run_state (retry_pause U CRAWLER_RETRY_DELAY) w1") auto
      with assms(2) [of w1] one have "calls w2 = calls w + 1" by simp
      moreover have "calls (snd (run_state (retry_from (attempt + 1) U call) w2)) \<le>
          calls w2 + max 1 (CRAWLER_CALL_ATTEMPTS + 1 - (attempt + 1))"
        using e by (intro less) auto
      moreover have "max 1 (CRAWLER_CALL_ATTEMPTS + 1 - (attempt + 1)) + 1 = CRAWLER_CALL_ATTEMPTS + 1 - attempt"
        using e by auto
      ultimately have "calls (snd (run_state (retry_from (attempt + 1) U call) w2)) \<le>
          calls w + max 1 (CRAWLER_CALL_ATTEMPTS + 1 - attempt)" by linarith
      then show ?thesis using e by (simp add: retry_from.simps [of attempt] r w2)
    next
      case False
      with one show ?thesis
        by (auto simp: retry_from.simps [of attempt] r split: sum.split)
    qed
  qed
  from this [of 1 w] show ?thesis by (simp add: retry_crawler_call_def CRAWLER_CALL_ATTEMPTS_def)
qed

definition hex_char :: "char \<Rightarrow> bool" where
  "hex_char c \<longleftrightarrow> (let b = of_char c :: nat in 48 \<le> b \<and> b \<le> 57 \<or> 97 \<le> b \<and> b \<le> 102)"

lemma hex_digit_char: "n < 16 \<Longrightarrow> hex_char (hex_digit n)"
  by (auto simp: hex_char_def hex_digit_def Let_def)

lemma to_hex_char: "c \<in> set (to_hex bytes) \<Longrightarrow> hex_char c"
proof -
  have "(of_char b :: nat) div 16 < 16" for b :: char
    using nat_of_char_less_256 [of b] by (simp add: less_mult_imp_div_less)
  then show "c \<in> set (to_hex bytes) \<Longrightarrow> hex_char c"
    by (auto simp: to_hex_def intro!: hex_digit_char)
qed

lemma hex_char_harmless:
  "hex_char c \<Longrightarrow> c \<noteq> CHR '';'' \<and> \<not> is_whitespace c \<and> header_text [c]"
  by (auto simp: hex_char_def Let_def is_whitespace_def header_text_def)

lemma split_on_absent: "c \<notin> set s \<Longrightarrow> split_on c s = [s]"
  by (induction s) auto

lemma trim_without_blanks: "\<forall>c \<in> set s. \<not> is_whitespace c \<Longrightarrow> trim s = s"
proof -
  have "\<forall>c \<in> set t. \<not> is_whitespace c \<Longrightarrow> dropWhile is_whitespace t = t" for t by (cases t) auto
  from this [of s] this [of "rev s"] show "\<forall>c \<in> set s. \<not> is_whitespace c \<Longrightarrow> trim s = s"
    by (simp add: trim_def)
qed

lemma cookie_holds_the_token:
  assumes "map_of headers ''cookie'' = Some (takeWhile (\<lambda>c. c \<noteq> CHR '';'') (session_cookie (to_hex bytes) n))"
  shows "session_token headers = Some (to_hex bytes)"
proof -
  let ?pair = "''session='' @ to_hex bytes"
  have chars: "c \<noteq> CHR '';'' \<and> \<not> is_whitespace c \<and> header_text [c]" if "c \<in> set ?pair" for c
    using that hex_char_harmless [OF to_hex_char]
    by (auto simp: is_whitespace_def header_text_def)
  have no_semicolon: "CHR '';'' \<notin> set (to_hex bytes)" using chars by auto
  then have "takeWhile (\<lambda>c. c \<noteq> CHR '';'') (to_hex bytes @ CHR '';'' # rest) = to_hex bytes" for rest
    by (subst takeWhile_append2) auto
  then have sent: "map_of headers ''cookie'' = Some ?pair"
    using assms by (simp add: session_cookie_def COOKIE_NAME_def)
  have "header_text ?pair" using chars by (simp add: header_text_def list_all_iff)
  moreover have "split_on (CHR '';'') ?pair = [?pair]" using chars by (intro split_on_absent) blast
  moreover have "trim ?pair = ?pair" using chars by (intro trim_without_blanks) blast
  moreover have "split_once (CHR ''='') ?pair = Some (''session'', to_hex bytes)" by (simp add: split_once_def)
  ultimately show ?thesis
    using sent by (simp add: session_token_def cookie_value_def COOKIE_NAME_def del: append_Cons)
qed

lemma open_since:
  "\<forall>e \<in> set since. \<not> issues P A e h \<and> \<not> withdraws P e h \<Longrightarrow>
    session_open P A (since @ past) h now = session_open P A past h now"
  by (induction since) auto

lemma login_sends_its_token:
  assumes "login_accepted P A req" "auth_session_ttl A \<le> MAX_TIME_DELTA"
  shows "rs_headers (fst (gateway_routes P U A None now bytes req g)) =
    [(''set-cookie'', session_cookie (generate_token bytes) (auth_session_ttl A div duration_from_secs 1)),
     (''location'', ''/'')]"
  using assms
  by (auto simp: gateway_routes_def login_accepted_def login_submit_def cache_set_def written_def Let_def
      split: sum.splits prod.split)

lemma guarded_routes:
  assumes "rq_path req \<notin> set public_paths"
  shows "gateway_routes P U A fault now bytes req g =
    (case require_session P fault now (session_rows g) req of
       Some response \<Rightarrow> (response, g)
     | None \<Rightarrow>
         (let (response, w) = run_state (protected_routes P U req) (upstream_world g) in
          (response, g\<lparr>upstream_world := w\<rparr>)))"
  using assms by (simp add: gateway_routes_def public_paths_def)

lemma public_routes_reach_nothing:
  assumes "rq_path req \<in> set public_paths"
  shows "upstream_world (snd (gateway_routes P U A fault now bytes req g)) = upstream_world g"
  using assms by (auto simp: gateway_routes_def public_paths_def split: prod.split)

lemma promised_refusal:
  assumes "promised_guard P A fault now past req = Some response"
  shows "rs_status response \<in> {303, 401, 503}"
  using assms by (auto simp: promised_guard_def unauthenticated_def text_response_def split: option.splits if_splits)

section \<open>A gateway to run\<close>

definition ref_gateway :: gateway_platform where
  "ref_gateway =
     \<lparr>gw_sha256 = (\<lambda>s. take 32 (s @ replicate 32 (CHR 0x00))), login_form = (\<lambda>req. Inr (rq_body req)),
      serve_file = (\<lambda>file req. text_response 200 file), connect_request = (\<lambda>req. Inr (StartCrawl, rq_body req)),
      connect_response = (\<lambda>answer. case answer of Inl e \<Rightarrow> text_response 500 (snd e) | Inr _ \<Rightarrow> text_response 200 []),
      header_refused = (\<lambda>v. (Code_Other ''internal'', v))\<rparr>"

text \<open>Its upstream counts the calls.\<close>

definition ref_upstream :: "nat upstream" where
  "ref_upstream =
     \<lparr>unary_call = (\<lambda>_ _ _. State (\<lambda>n. (Inr [], n + 1))), open_stream = (\<lambda>_ _. State (\<lambda>n. (Inr [], n + 1))),
      taken_by_browser = State_Monad.return 0, retry_pause = (\<lambda>_. State_Monad.return ())\<rparr>"

definition ref_auth :: gw_auth where
  "ref_auth = \<lparr>auth_password = ''open sesame'', auth_session_ttl = 86400000000000\<rparr>"

definition ref_gw_request :: "string \<Rightarrow> string \<Rightarrow> string \<Rightarrow> gw_request" where
  "ref_gw_request verb path body =
     \<lparr>rq_method = verb, rq_path = path, rq_headers = [(''cookie'', ''theme=dark; session=41'')], rq_body = body\<rparr>"

definition ref_page_request :: gw_request where
  "ref_page_request =
     \<lparr>rq_method = ''GET'', rq_path = ''/chat'', rq_headers = [(''cookie'', ''session=41'')], rq_body = []\<rparr>"

definition ref_gw_env :: gateway_env where
  "ref_gw_env = \<lparr>env_var = (\<lambda>_. Env_Not_Present), env_uri = (\<lambda>v. Inr (Some ''http'', Some v)),
     env_database_url = (\<lambda>v. Inr (''postgres'', Some v)), env_int_error = (\<lambda>_. [])\<rparr>"

abbreviation ref_login :: gw_event where
  "ref_login \<equiv> Requested_at 0 None ''A'' (ref_gw_request ''POST'' ''/login'' ''open sesame'')"

abbreviation ref_logout :: gw_event where
  "ref_logout \<equiv> Requested_at 10 None [] (ref_gw_request ''POST'' ''/logout'' [])"

abbreviation ref_empty :: "nat gw_state" where
  "ref_empty \<equiv> \<lparr>session_rows = [], upstream_world = 0\<rparr>"

lemma ref_ttl: "session_ttl_from ref_gw_env None = Inr (auth_session_ttl ref_auth)"
  by (simp add: session_ttl_from_def result_simps ref_auth_def duration_from_secs_def
      DEFAULT_SESSION_TTL_HOURS_def MAX_SESSION_TTL_HOURS_def)

lemma ref_token: "session_token (rq_headers (ref_gw_request verb path body)) = Some ''41''"
  unfolding ref_gw_request_def by code_simp

lemma ref_withdraws: "withdraws ref_gateway ref_logout (hash_token ref_gateway ''41'')"
  by (simp add: ref_token) (simp add: ref_gw_request_def)

lemma ref_login_accepted: "login_accepted ref_gateway ref_auth (ref_gw_request ''POST'' ''/login'' ''open sesame'')"
proof -
  have "length (gw_sha256 ref_gateway s) = 32" for s by (simp add: ref_gateway_def)
  from passwords_match_iff [of ref_gateway, OF this] show ?thesis
    by (simp add: login_accepted_def ref_gw_request_def ref_auth_def) (simp add: ref_gateway_def)
qed

lemma ref_generated: "generate_token ''A'' = ''41''"
  by code_simp

section \<open>The properties\<close>

text \<open>C39: Whatever logins, logouts, sweeps and calls came before and whichever of their statements failed, a
  request whose token was not issued by a login within the lifetime, or was logged out since, reaches no
  internal service, and on a protected path it is answered with a redirect to the login, 401 or 503.\<close>

theorem request_without_session_reaches_nothing:
  assumes "session_ttl_from E hours = Inr (auth_session_ttl A)" "clock_advances past now"
    and "session_rows g = []"
    and closed: "\<And>token. session_token (rq_headers req) = Some token \<Longrightarrow>
      fault \<noteq> None \<or> \<not> session_open P A past (hash_token P token) now"
  shows "upstream_world (snd (gateway_routes P U A fault now bytes req (gateway_after P U A past g))) =
      upstream_world (gateway_after P U A past g) \<and>
    (rq_path req \<notin> set public_paths \<longrightarrow>
      rs_status (fst (gateway_routes P U A fault now bytes req (gateway_after P U A past g))) \<in> {303, 401, 503})"
proof (cases "rq_path req \<in> set public_paths")
  case True
  then show ?thesis by (simp add: public_routes_reach_nothing)
next
  case False
  have "promised_guard P A fault now past req \<noteq> None"
    using closed by (auto simp: promised_guard_def split: option.split)
  then obtain response where refused: "promised_guard P A fault now past req = Some response" by blast
  have "gateway_routes P U A fault now bytes req (gateway_after P U A past g) =
      (response, gateway_after P U A past g)"
    using guard_is_promised [OF session_ttl_fits [OF assms(1)] assms(2,3), of P fault U req] refused
    by (simp add: guarded_routes [OF False])
  with promised_refusal [OF refused] show ?thesis by simp
qed

theorem request_without_session_reaches_nothing_witness:
  "upstream_world (snd (gateway_routes ref_gateway ref_upstream ref_auth None 20 []
      (ref_gw_request ''POST'' ''/crawler.v1.CrawlerService/StartCrawl'' [])
      (gateway_after ref_gateway ref_upstream ref_auth [ref_logout, ref_login] ref_empty))) =
    upstream_world (gateway_after ref_gateway ref_upstream ref_auth [ref_logout, ref_login] ref_empty)"
proof -
  have "\<not> issues ref_gateway ref_auth ref_logout h" for h by (simp add: ref_gw_request_def)
  with ref_withdraws have "\<not> session_open ref_gateway ref_auth [ref_logout, ref_login] (hash_token ref_gateway ''41'') now"
    for now by (simp del: withdraws.simps issues.simps)
  then show ?thesis
    by (intro request_without_session_reaches_nothing [OF ref_ttl, THEN conjunct1])
      (simp_all add: clock_advances_def ref_token del: session_open.simps)
qed

text \<open>C40: The cookie that an accepted login sends back opens every protected page and call until the lifetime
  has passed, as long as no logout carries its token, whatever else the gateway is asked and sweeps meanwhile.\<close>

theorem login_cookie_opens_the_gateway:
  assumes "session_ttl_from E hours = Inr (auth_session_ttl A)"
    and "clock_advances (since @ Requested_at t None bytes login # past) now" "session_rows g = []"
    and "login_accepted P A login"
    and "map_of (rs_headers (fst (gateway_routes P U A None t bytes login (gateway_after P U A past g))))
      ''set-cookie'' = Some cookie"
    and "map_of (rq_headers req) ''cookie'' = Some (takeWhile (\<lambda>c. c \<noteq> CHR '';'') cookie)"
    and "\<forall>e \<in> set since. \<not> issues P A e (hash_token P (generate_token bytes)) \<and>
      \<not> withdraws P e (hash_token P (generate_token bytes))"
    and "now < t + int (auth_session_ttl A)" "rq_path req \<notin> set public_paths"
  shows "gateway_routes P U A None now bytes' req
      (gateway_after P U A (since @ Requested_at t None bytes login # past) g) =
    (let g' = gateway_after P U A (since @ Requested_at t None bytes login # past) g;
         (response, w) = run_state (protected_routes P U req) (upstream_world g') in
     (response, g'\<lparr>upstream_world := w\<rparr>))"
proof -
  let ?past = "since @ Requested_at t None bytes login # past"
  let ?token = "generate_token bytes"
  note fits = session_ttl_fits [OF assms(1)]
  have "cookie = session_cookie ?token (auth_session_ttl A div duration_from_secs 1)"
    using assms(5) by (simp add: login_sends_its_token [OF assms(4) fits])
  with assms(6) have token: "session_token (rq_headers req) = Some ?token"
    unfolding generate_token_def by (intro cookie_holds_the_token) simp
  have "issues P A (Requested_at t None bytes login) (hash_token P ?token)"
    using assms(4) by (simp add: login_accepted_def)
  then have "session_open P A ?past (hash_token P ?token) now"
    using assms(8) by (simp add: open_since [OF assms(7)] del: issues.simps)
  with token have "promised_guard P A None now ?past req = None" by (simp add: promised_guard_def)
  then show ?thesis
    by (simp add: guarded_routes [OF assms(9)] guard_is_promised [OF fits assms(2,3)] Let_def)
qed

theorem login_cookie_opens_the_gateway_witness:
  "fst (gateway_routes ref_gateway ref_upstream ref_auth None 20 [] ref_page_request
      (gateway_after ref_gateway ref_upstream ref_auth [Swept_at 15 None, ref_login] ref_empty)) =
    page_route ref_gateway ''chat.html'' ref_page_request"
proof -
  let ?ref_cookie = "session_cookie (generate_token ''A'') (auth_session_ttl ref_auth div duration_from_secs 1)"
  have cookie: "map_of (rq_headers ref_page_request) ''cookie'' = Some (takeWhile (\<lambda>c. c \<noteq> CHR '';'') ?ref_cookie)"
    by (simp add: session_cookie_def ref_generated COOKIE_NAME_def ref_page_request_def)
  have ttl: "auth_session_ttl ref_auth = 86400000000000" by (simp add: ref_auth_def)
  have sent: "map_of (rs_headers (fst (gateway_routes ref_gateway ref_upstream ref_auth None 0 ''A''
      (ref_gw_request ''POST'' ''/login'' ''open sesame'') ref_empty))) ''set-cookie'' = Some ?ref_cookie"
    by (simp add: login_sends_its_token [OF ref_login_accepted session_ttl_fits [OF ref_ttl]])
  have "gateway_routes ref_gateway ref_upstream ref_auth None 20 [] ref_page_request
      (gateway_after ref_gateway ref_upstream ref_auth ([Swept_at 15 None] @ [ref_login]) ref_empty) =
    (let g' = gateway_after ref_gateway ref_upstream ref_auth ([Swept_at 15 None] @ [ref_login]) ref_empty;
         (response, w) = run_state (protected_routes ref_gateway ref_upstream ref_page_request) (upstream_world g') in
     (response, g'\<lparr>upstream_world := w\<rparr>))"
    by (rule login_cookie_opens_the_gateway [OF ref_ttl _ _ ref_login_accepted _ cookie])
      (simp_all add: sent clock_advances_def ttl ref_page_request_def public_paths_def)
  moreover have "run_state (protected_routes ref_gateway ref_upstream ref_page_request) w =
      (page_route ref_gateway ''chat.html'' ref_page_request, w)" for w
    by (simp add: protected_routes_def page_file_def ref_page_request_def)
  ultimately show ?thesis by (simp add: Let_def)
qed

end
