(* ===== verification/Spec2Isabelle.thy ===== *)
theory Spec2Isabelle
  imports Core_Witnesses Engine_Witnesses Router_Witnesses Agent_Witnesses Chat_Witnesses Tool_Witnesses Kb_Witnesses
    Crawl_Props Gateway
begin

text \<open>
  \<^bold>\<open>A model of the platform's back end.\<close> The repository is a set of Rust services. \<^verbatim>\<open>engine-core\<close> is the library
  that runs a graph of nodes one super-step at a time; \<^verbatim>\<open>services/engine\<close> keeps executions in a database and runs
  them under leases; \<^verbatim>\<open>services/llm-router\<close> sends completions and typed decisions to vendors; \<^verbatim>\<open>services/chat\<close> turns
  a user's messages into topics, each an execution of the engine; \<^verbatim>\<open>services/tool\<close> answers the calls of tools;
  \<^verbatim>\<open>services/crawler\<close> fetches pages and hands them to \<^verbatim>\<open>services/knowledge-base\<close>, which stores and finds their
  passages; \<^verbatim>\<open>services/gateway\<close> is the one service that browsers reach. The agent is a node executor of the
  engine that calls the router and the tools, and one of the tools asks the knowledge base.

  \<^bold>\<open>How it is modelled.\<close> A struct is a \<^theory_text>\<open>record\<close>, an enum a \<^theory_text>\<open>datatype\<close>, a machine integer a word where its
  width matters, a string the list of its UTF-8 bytes, an instant the nanoseconds since the epoch. A fallible
  function answers a sum with the error on the left; code that may panic answers an option with \<^theory_text>\<open>None\<close> for the
  panic. Tables are lists of rows in the order of their ids. A service that a computation calls is a field of a
  record of computations in the state monad over a world that is a type variable, so nothing is assumed of it.
  Definitions keep the names of the code; a suffix, a prefix or a synonym is used where HOL or another theory has
  the name.

  \<^bold>\<open>Theories and sources.\<close>

  \<^item> \<open>Prelude\<close>, \<open>Json\<close>, \<open>Text_Search\<close>, \<open>Kb_Text\<close>: words with saturating operations, panics, lists and strings of the
    Rust library, Unicode white space; \<^verbatim>\<open>serde_json::Value\<close>. \<^verbatim>\<open>common/src\<close>: \<open>Extract\<close>, \<open>Partition\<close>, \<open>Agent_Text\<close>.
  \<^item> \<^verbatim>\<open>engine-core/src\<close>: \<open>Graph\<close> (\<^verbatim>\<open>ids.rs\<close>, \<^verbatim>\<open>condition.rs\<close>, \<^verbatim>\<open>graph.rs\<close>), \<open>Reducers\<close> (\<^verbatim>\<open>state.rs\<close>),
    \<open>Llm_Output\<close>, \<open>Execution\<close> (with \<^verbatim>\<open>budget.rs\<close>), \<open>Step\<close> (\<^verbatim>\<open>step.rs\<close>), \<open>Builder\<close>. What a super-step may change, its
    event log, its bounds and its panics are \<open>Step_Props\<close>; the fan-in barrier is \<open>Fan_In\<close>.
  \<^item> \<^verbatim>\<open>services/engine/src\<close>: \<open>Codecs\<close> and \<open>Engine_Db\<close> (rows and wire), \<open>Tick\<close> (with \<^verbatim>\<open>lease.rs\<close>, \<^verbatim>\<open>store.rs\<close>), \<open>Service\<close>,
    \<open>Scheduler\<close>, \<open>Event_Stream\<close>, \<open>Tool_Executor\<close>. \<open>Protocol\<close> is the database as a transition system, one step per
    transaction; \<open>Protocol_Props\<close>, \<open>Control\<close>, \<open>Registry\<close>, \<open>Endless\<close> hold what is true of every reachable database:
    the lease column is a lock table, a super-step is committed once, a live lease is not taken, control calls have
    their effect, a stored graph is valid, and what becomes of the core's bounds.
  \<^item> \<^verbatim>\<open>services/engine/src/executors/llm.rs\<close>: \<open>Agent_Text\<close>, \<open>Agent_Decisions\<close>, \<open>Agent_Questions\<close> (the pure half),
    \<open>Llm_Executor\<close> (the turn), \<open>Llm_Props\<close> (no reply leaves unchecked), \<open>Llm_Calls\<close> (bounds on calls),
    \<open>Llm_Router\<close> (the agent's requests against the router's validation, over the locale \<open>decision_wire\<close>).
  \<^item> \<^verbatim>\<open>services/llm-router/src\<close>: \<open>Provider\<close>, \<open>Completions\<close>, \<open>Decision_Budget\<close>, \<open>System_One\<close>, \<open>Router_Service\<close>; properties
    in \<open>Router_Props\<close>.
  \<^item> \<^verbatim>\<open>services/chat/src\<close>: \<open>Chat_Intent\<close> (\<^verbatim>\<open>intent.rs\<close>, \<^verbatim>\<open>topic_status.rs\<close>) and \<open>Chat_Routing\<close> (what routing
    guarantees), \<open>Chat_Db\<close> (tables and transactions), \<open>Chat_Queue\<close> (every interleaving of them), \<open>Requests\<close> and
    \<open>Chat_Turn\<close> (requests), \<open>Chat_Delivery\<close> (a turn is delivered once), \<open>Chat_Watch\<close> (\<^verbatim>\<open>topic_watcher.rs\<close>, the loop
    over an execution's events and the hand-over of a freed slot).
  \<^item> \<^verbatim>\<open>services/tool/src\<close>: \<open>Tool_Registry\<close> (\<^verbatim>\<open>service.rs\<close>, \<^verbatim>\<open>policy.rs\<close>, \<^verbatim>\<open>slugs.rs\<close>), \<open>Tool_Seed\<close> (start-up),
    \<open>Tool_Lifecycle\<close> (reviews, activations and start-ups in any interleaving), \<open>Race\<close>, \<open>Url_Guard\<close> and \<open>Web_Fetch\<close> (the
    guard, redirects and bodies), \<open>Declarative\<close> (tools that are rows of endpoints), \<open>Tool_Service\<close> (\<^verbatim>\<open>Execute\<close>);
    \<open>Tool_Service_Props\<close>: every request was guarded, only read-only tools of the system run.
  \<^item> \<^verbatim>\<open>services/knowledge-base/src\<close>: \<open>Kb_Chunk\<close> (passages), \<open>Kb_Ranking\<close>, \<open>Kb_Store\<close>, \<open>Kb_Clients\<close>, \<open>Kb_Ingest\<close>,
    \<open>Kb_Service\<close> (search and read); \<open>Kb_Store_Props\<close> and \<open>Kb_Props\<close>: the tables refine a map from keys to documents,
    and what a search finds can be read.
  \<^item> \<^verbatim>\<open>services/crawler/src\<close>: \<open>Crawl_Scope\<close> (globs), \<open>Crawl_Pages\<close> (links, pages and edges), \<open>Crawl_Graph\<close> (neighbors),
    \<open>Crawl_Jobs\<close> (jobs and runs), \<open>Crawl_Service\<close> (requests and their checks), \<open>Crawl_Props\<close>.
  \<^item> \<^verbatim>\<open>services/gateway/src\<close>: \<open>Gateway\<close> (sessions, routes, proxy, configuration): only a live session reaches a service.
  \<^item> \<open>Ref_Platform\<close> and the theories named \<open>_Witnesses\<close>: concrete platforms, databases and calls at which the
    properties with hypotheses are applied.

  \<^bold>\<open>What the lemmas show.\<close> Each property is one theorem behind a text block that opens with its number. The first
  theories of a component hold its definitions, the ones named after a promise hold the invariants and the
  properties. Locales state the interfaces: the reducers' algebra, the lease table, the wire between agent and
  router, the laws of a regular expression engine; each is interpreted on the model's own definitions. A
  transition system is an inductive relation or a function over a history of events, its invariants are by rule
  induction or by induction on the history.

  \<^bold>\<open>Bounds and fuel.\<close> The chains of retries and the loops over lists are structural recursion or have a measure.
  The one loop with fuel is that of a reader who asks for a document page by page to its end: every page that is not
  the last moves on by at least one character, and an accepted document has at most 200001 characters, so 200002
  rounds are enough. The loops of workers, watchers and sweeps never end; they are transition systems, histories, or are given the
  list of what they receive.

  \<^bold>\<open>Parameters and assumptions.\<close> Codecs derived by serde, the calendar and the time zone tables of chrono, the
  cron parser, SHA-256, random bytes, the parsers of URLs, IP addresses, HTML and regular expressions, the readability
  library, DNS, the text and vector index of PostgreSQL and its collation, the iteration order of hash maps, Unicode
  tables beyond white space, percent encoding, the fetcher of the crawler, vendors' endpoints and the generated
  protobuf types are not under the repository's sources: they are arguments, with the laws that a proof uses as
  hypotheses. A transaction is atomic and takes row locks for its whole length; where a statement may fail, before or
  after its effect, the model says so, elsewhere the database is reachable. Ids of a sequence become visible in
  commit order, and a refused insert does not use one up. A JSON integer is exact. Thresholds and scores are exact
  fractions where the code computes with floating point numbers. The seeding of tools reads one clock instant. The
  events of a race are whole: a participant ends at one point. A request of the gateway makes its upstream calls at
  the point of its statement.

  \<^bold>\<open>Not modelled.\<close> The processes' wiring (\<^verbatim>\<open>main.rs\<close>: servers, channels, timers, start-up), the HTTP and gRPC
  transports, the SQL of migrations and indexes, the advisory locks that keep a second engine or crawler out, the
  semaphore over crawls, logging, the front end, the native helpers, the evaluation driver \<^verbatim>\<open>golden\<close>, and code that
  only tests use.
\<close>

end
